(* ===== verification/Idiom_Prelude.thy ===== *)
theory Idiom_Prelude
  imports Main "HOL-Library.AList" "HOL-Library.Word" "HOL-Library.Char_ord"
    "HOL-Library.List_Lexorder"
begin

text \<open>
  Shared vocabulary of the development.

  \<^item> A Rust \<open>HashMap<K, V>\<close> is an association list with distinct keys. The order of the
    list stands for the unspecified iteration order of the hash table: every theorem
    quantifies over all such lists, so it holds for every iteration order. Lookup is
    \<open>map_of\<close>, insertion \<open>AList.update\<close>, removal \<open>AList.delete\<close>. The derived
    \<open>PartialEq\<close> of a hash map is equality of \<open>map_of\<close>.
  \<^item> A Rust \<open>HashSet<T>\<close> whose iteration order is never observed is a HOL set.
  \<^item> A Rust \<open>String\<close> is its sequence of UTF-8 bytes (\<open>string\<close>); the library
    orders \<open>Char_ord\<close> and \<open>List_Lexorder\<close> are then Rust's bytewise lexicographic
    comparison of strings.
  \<^item> \<open>DateTime<Utc>\<close> is an integer count of time units; \<open>Utc::now()\<close> is an explicit
    argument \<open>now\<close> of every operation that reads the clock.
  \<^item> \<open>Result<T, E>\<close> is the sum type \<open>'e + 'a\<close> with the error on the left.
\<close>

named_theorems hm_simps \<open>lookup after an update of an association-list hash map\<close>
named_theorems crdt_inv \<open>every operation keeps the well-formedness of its component\<close>
named_theorems crdt_abs \<open>what every operation does to the abstract value of its component\<close>

type_synonym ('k, 'v) hash_map = "('k \<times> 'v) list"
type_synonym timestamp = int
type_synonym byte = "8 word"
type_synonym bytes = "8 word list"
type_synonym u16 = "16 word"
type_synonym u32 = "32 word"
type_synonym u64 = "64 word"

abbreviation hm_get :: "('k, 'v) hash_map \<Rightarrow> 'k \<Rightarrow> 'v option" where
  "hm_get m k \<equiv> map_of m k"

abbreviation hm_insert :: "'k \<Rightarrow> 'v \<Rightarrow> ('k, 'v) hash_map \<Rightarrow> ('k, 'v) hash_map" where
  "hm_insert k v m \<equiv> AList.update k v m"

abbreviation hm_remove :: "'k \<Rightarrow> ('k, 'v) hash_map \<Rightarrow> ('k, 'v) hash_map" where
  "hm_remove k m \<equiv> AList.delete k m"

abbreviation hm_keys :: "('k, 'v) hash_map \<Rightarrow> 'k list" where
  "hm_keys m \<equiv> map fst m"

abbreviation hm_values :: "('k, 'v) hash_map \<Rightarrow> 'v list" where
  "hm_values m \<equiv> map snd m"

abbreviation hm_contains :: "('k, 'v) hash_map \<Rightarrow> 'k \<Rightarrow> bool" where
  "hm_contains m k \<equiv> map_of m k \<noteq> None"

abbreviation hm_wf :: "('k, 'v) hash_map \<Rightarrow> bool" where
  "hm_wf m \<equiv> distinct (map fst m)"

text \<open>
  \<open>PartialEq\<close> of the standard library's hash map: the same number of entries, and every
  entry of the left map is an entry of the right one.
\<close>

definition hm_eq :: "('k, 'v) hash_map \<Rightarrow> ('k, 'v) hash_map \<Rightarrow> bool" where
  "hm_eq a b \<longleftrightarrow> length a = length b \<and> list_all (\<lambda>(k, v). hm_get b k = Some v) a"

section \<open>Association-list hash maps\<close>

declare map_of_eq_Some_iff [simp del] \<comment> \<open>lookups stay lookups\<close>

lemma hm_get_insert [simp, hm_simps]:
  "hm_get (hm_insert k v m) k' = (if k' = k then Some v else hm_get m k')"
  by (simp add: update_conv')

lemma hm_get_remove [simp, hm_simps]:
  "hm_get (hm_remove k m) k' = (if k' = k then None else hm_get m k')"
  by (simp add: delete_conv')

lemma hm_wf_insert [simp, intro]: "hm_wf m \<Longrightarrow> hm_wf (hm_insert k v m)"
  by (rule distinct_update)

lemma hm_wf_remove [simp, intro]: "hm_wf m \<Longrightarrow> hm_wf (hm_remove k m)"
  by (rule distinct_delete)

lemma hm_get_iff_mem: "hm_wf m \<Longrightarrow> hm_get m k = Some v \<longleftrightarrow> (k, v) \<in> set m"
  by (simp add: map_of_eq_Some_iff)

lemma hm_wf_filter [simp, intro]: "hm_wf m \<Longrightarrow> hm_wf (filter P m)"
  by (simp add: distinct_map_filter)

lemma hm_get_filter:
  "hm_wf m \<Longrightarrow> hm_get (filter (\<lambda>(k, v). P k v) m) k =
     (case hm_get m k of None \<Rightarrow> None | Some v \<Rightarrow> if P k v then Some v else None)"
  by (induction m) (auto split: option.splits dest: map_of_SomeD simp: image_iff
      intro!: map_of_eq_None_iff [THEN iffD2])

lemma hm_get_map:
  "hm_get (map (\<lambda>(k, v). (k, f k v)) m) k =
     (case hm_get m k of None \<Rightarrow> None | Some v \<Rightarrow> Some (f k v))"
  by (induction m) auto

text \<open>
  The \<open>for (k, v) in &other \<close> loops that fold the entries of one map into another visit
  every key once. The lemma turns such a loop into a pointwise description.
\<close>

lemma hm_fold_pointwise:
  fixes lookup :: "'s \<Rightarrow> 'k \<Rightarrow> 'w option"
  assumes wf: "hm_wf ys"
    and step: "\<And>k v s k'. lookup (f k v s) k' = (if k' = k then g k v (lookup s k) else lookup s k')"
  shows "lookup (fold (\<lambda>(k, v). f k v) ys s) k =
     (case hm_get ys k of None \<Rightarrow> lookup s k | Some v \<Rightarrow> g k v (lookup s k))"
  using wf
proof (induction ys arbitrary: s)
  case Nil
  then show ?case by simp
next
  case (Cons y ys)
  obtain k' v' where y: "y = (k', v')" by (cases y)
  from Cons.prems y have notin: "hm_get ys k' = None"
    by (simp add: map_of_eq_None_iff)
  have "lookup (fold (\<lambda>(k, v). f k v) (y # ys) s) k =
      (case hm_get ys k of None \<Rightarrow> lookup (f k' v' s) k | Some v \<Rightarrow> g k v (lookup (f k' v' s) k))"
    using Cons y by simp
  then show ?case
    using notin y by (auto simp: step split: option.splits)
qed

lemma fold_keeps:
  assumes "P s" and "\<And>x s. P s \<Longrightarrow> P (f x s)"
  shows "P (fold f xs s)"
  using assms(1) by (induction xs arbitrary: s) (auto intro: assms(2))

lemma hm_remove_all:
  "hm_get (fold hm_remove is m) j = (if j \<in> set is then None else hm_get m j)" "hm_wf m \<Longrightarrow> hm_wf (fold hm_remove is m)"
  by (induction "is" arbitrary: m) auto

lemma hm_length_card: "hm_wf m \<Longrightarrow> length m = card (dom (map_of m))"
  by (metis dom_map_of_conv_image_fst distinct_card length_map set_map)

lemma hm_eq_iff:
  assumes "hm_wf a" and "hm_wf b"
  shows "hm_eq a b \<longleftrightarrow> map_of a = map_of b"
proof
  assume eq: "hm_eq a b"
  then have "hm_get b k = Some v" if "hm_get a k = Some v" for k v
    using that by (auto simp: hm_eq_def list_all_iff dest: map_of_SomeD)
  then have sub: "map_of a \<subseteq>\<^sub>m map_of b"
    by (force simp: map_le_def)
  moreover from eq assms have "card (dom (map_of a)) = card (dom (map_of b))"
    by (simp add: hm_eq_def hm_length_card [symmetric])
  ultimately have "dom (map_of a) = dom (map_of b)"
    by (simp add: card_subset_eq finite_dom_map_of map_le_implies_dom_le)
  with sub show "map_of a = map_of b"
    by (metis map_le_antisym map_le_def)
next
  assume "map_of a = map_of b"
  with assms show "hm_eq a b"
    by (auto simp: hm_eq_def hm_length_card list_all_iff) (metis map_of_eq_Some_iff)
qed

section \<open>Machine words\<close>

lemma word_less_add_one:
  fixes x :: "'a::len word"
  assumes "x \<noteq> - 1"
  shows "x < x + 1"
proof -
  have "1 + x \<noteq> 0" using assms by (metis add.commute add_eq_0_iff2)
  then have "unat (1 + x) = Suc (unat x)" by (rule unatSuc)
  then show ?thesis by (simp add: word_less_nat_alt add.commute)
qed

section \<open>Options and results\<close>

lemma option_case_None_iff [simp]:
  "(case x of None \<Rightarrow> True | Some y \<Rightarrow> False) \<longleftrightarrow> x = None"
  by (cases x) auto

text \<open>A Rust call either raises an error value of its \<open>Result\<close> or panics.\<close>

datatype 'e fault = Raised 'e | Panicked

text \<open>A value between single quotes in a message.\<close>

definition quoted :: "string \<Rightarrow> string" where
  "quoted s = [CHR 0x27] @ s @ [CHR 0x27]"

text \<open>Byte-string tests of \<open>str\<close>: \<open>starts_with\<close>, \<open>ends_with\<close> and \<open>contains\<close>.\<close>

definition str_starts_with :: "string \<Rightarrow> string \<Rightarrow> bool" where
  "str_starts_with s p \<longleftrightarrow> take (length p) s = p"

definition str_ends_with :: "string \<Rightarrow> string \<Rightarrow> bool" where
  "str_ends_with s p \<longleftrightarrow> length p \<le> length s \<and> drop (length s - length p) s = p"

fun str_contains :: "string \<Rightarrow> string \<Rightarrow> bool" where
  "str_contains [] p \<longleftrightarrow> p = []"
| "str_contains (c # s) p \<longleftrightarrow> str_starts_with (c # s) p \<or> str_contains s p"

text \<open>\<open>Option::get_or_insert_with\<close> and the merge of an optional field.\<close>

definition opt_or_new :: "'s \<Rightarrow> 's option \<Rightarrow> 's" where
  "opt_or_new new x = (case x of None \<Rightarrow> new | Some s \<Rightarrow> s)"

definition opt_merge :: "('s \<Rightarrow> 's \<Rightarrow> 's) \<Rightarrow> 's \<Rightarrow> 's option \<Rightarrow> 's option \<Rightarrow> 's option" where
  "opt_merge mrg new self other =
     (case other of None \<Rightarrow> self | Some o' \<Rightarrow> Some (mrg (opt_or_new new self) o'))"

abbreviation is_ok :: "'e + 'a \<Rightarrow> bool" where
  "is_ok r \<equiv> (case r of Inl _ \<Rightarrow> False | Inr _ \<Rightarrow> True)"

text \<open>The decimal text of a number, as \<open>Display\<close> prints it.\<close>

fun nat_str :: "nat \<Rightarrow> string" where
  "nat_str n = (if n < 10 then [char_of (n + 48)] else nat_str (n div 10) @ [char_of (n mod 10 + 48)])"

declare nat_str.simps [simp del]

lemma find_SomeD: "find P xs = Some x \<Longrightarrow> P x \<and> x \<in> set xs"
  by (auto simp: find_Some_iff)

end
