(* ===== verification/Crdt_Merge.thy ===== *)
theory Crdt_Merge
  imports Idiom_Prelude
begin

text \<open>
  The contract of a state-based replicated data type, and what a client may rely on.

  A component provides a \<open>merge\<close> on its concrete states, an invariant, an abstraction to a
  mathematical value, and a \<open>join\<close> on those values; it promises that \<open>merge\<close> implements
  \<open>join\<close> and that \<open>join\<close> is commutative, associative and idempotent on the values of
  well-formed states. The client lemmas below then hold for every component: the merge of a
  collection of states is the least upper bound of the collection, so it does not depend on
  the order in which the states arrive nor on how often each of them is received.
\<close>

locale crdt =
  fixes merge :: "'s \<Rightarrow> 's \<Rightarrow> 's"
    and inv :: "'s \<Rightarrow> bool"
    and abs :: "'s \<Rightarrow> 'a"
    and join :: "'a \<Rightarrow> 'a \<Rightarrow> 'a"
  assumes inv_merge: "inv a \<Longrightarrow> inv b \<Longrightarrow> inv (merge a b)"
    and abs_merge: "inv a \<Longrightarrow> inv b \<Longrightarrow> abs (merge a b) = join (abs a) (abs b)"
    and join_comm: "inv a \<Longrightarrow> inv b \<Longrightarrow> join (abs a) (abs b) = join (abs b) (abs a)"
    and join_assoc: "inv a \<Longrightarrow> inv b \<Longrightarrow> inv c \<Longrightarrow>
      join (join (abs a) (abs b)) (abs c) = join (abs a) (join (abs b) (abs c))"
    and join_idem: "inv a \<Longrightarrow> join (abs a) (abs a) = abs a"
begin

lemma merge_commute: "inv a \<Longrightarrow> inv b \<Longrightarrow> abs (merge a b) = abs (merge b a)"
  by (simp add: abs_merge join_comm)

lemma merge_assoc:
  "inv a \<Longrightarrow> inv b \<Longrightarrow> inv c \<Longrightarrow> abs (merge (merge a b) c) = abs (merge a (merge b c))"
  by (simp add: abs_merge inv_merge join_assoc)

lemma merge_idem: "inv a \<Longrightarrow> abs (merge a a) = abs a"
  by (simp add: abs_merge join_idem)

lemma merge_absorb: "inv a \<Longrightarrow> inv b \<Longrightarrow> abs (merge (merge a b) b) = abs (merge a b)"
  by (simp add: abs_merge inv_merge join_assoc join_idem)

lemma inv_foldl: "inv s \<Longrightarrow> \<forall>x\<in>set xs. inv x \<Longrightarrow> inv (foldl merge s xs)"
  by (induction xs arbitrary: s) (auto simp: inv_merge)

text \<open>Every state that was merged is below the result, and the result is the least such state.\<close>

lemma foldl_above_start:
  assumes "inv s" and "\<forall>x\<in>set xs. inv x"
  shows "join (abs s) (abs (foldl merge s xs)) = abs (foldl merge s xs)"
  using assms
proof (induction xs rule: rev_induct)
  case Nil
  then show ?case by (simp add: join_idem)
next
  case (snoc x xs)
  then have i: "inv (foldl merge s xs)" "inv x" by (auto intro: inv_foldl)
  with snoc show ?case
    by (simp add: abs_merge inv_merge join_assoc [symmetric])
qed

lemma foldl_above:
  assumes "inv s" and "\<forall>x\<in>set xs. inv x" and "y \<in> set xs"
  shows "join (abs y) (abs (foldl merge s xs)) = abs (foldl merge s xs)"
  using assms
proof (induction xs rule: rev_induct)
  case Nil
  then show ?case by simp
next
  case (snoc x xs)
  let ?f = "foldl merge s xs"
  from snoc.prems have i: "inv ?f" "inv x" "inv y" by (auto intro: inv_foldl)
  show ?case
  proof (cases "y = x")
    case True
    have "join (abs x) (join (abs ?f) (abs x)) = join (join (abs ?f) (abs x)) (abs x)"
      using i join_comm [of x "merge ?f x"] by (simp add: abs_merge inv_merge)
    also have "\<dots> = join (abs ?f) (abs x)"
      using i by (simp add: join_assoc join_idem)
    finally show ?thesis using True i by (simp add: abs_merge)
  next
    case False
    with snoc have "join (abs y) (abs ?f) = abs ?f" by simp
    with i show ?thesis by (simp add: abs_merge join_assoc [symmetric])
  qed
qed

lemma foldl_least:
  assumes "inv s" and "\<forall>x\<in>set xs. inv x" and u: "inv u"
    and "join (abs s) (abs u) = abs u" and "\<forall>x\<in>set xs. join (abs x) (abs u) = abs u"
  shows "join (abs (foldl merge s xs)) (abs u) = abs u"
  using assms
proof (induction xs rule: rev_induct)
  case Nil
  then show ?case by simp
next
  case (snoc x xs)
  then have "inv (foldl merge s xs)" "inv x" by (auto intro: inv_foldl)
  with snoc show ?case by (simp add: abs_merge join_assoc)
qed

theorem converges:
  assumes s: "inv s" and t: "inv t"
    and xs: "\<forall>x\<in>set xs. inv x" and ys: "\<forall>y\<in>set ys. inv y"
    and same: "insert s (set xs) = insert t (set ys)"
  shows "abs (foldl merge s xs) = abs (foldl merge t ys)"
proof -
  have i: "inv (foldl merge s xs)" "inv (foldl merge t ys)"
    using s t xs ys by (auto intro: inv_foldl)
  have above: "join (abs z) (abs (foldl merge t ys)) = abs (foldl merge t ys)"
    if "z \<in> insert s (set xs)" for z
    using that same t ys foldl_above foldl_above_start by (metis insertE)
  have above': "join (abs z) (abs (foldl merge s xs)) = abs (foldl merge s xs)"
    if "z \<in> insert t (set ys)" for z
    using that same s xs foldl_above foldl_above_start by (metis insertE)
  have "join (abs (foldl merge s xs)) (abs (foldl merge t ys)) = abs (foldl merge t ys)"
    using s xs i above by (intro foldl_least) auto
  moreover have "join (abs (foldl merge t ys)) (abs (foldl merge s xs)) = abs (foldl merge s xs)"
    using t ys i above' by (intro foldl_least) auto
  ultimately show ?thesis using join_comm i by metis
qed

end

section \<open>Building contracts for structured states\<close>

text \<open>
  A struct whose \<open>merge\<close> merges field by field meets the contract when its fields do: one
  lemma lifts a field's contract to the struct, one combines two contracts of the same struct,
  one lifts a contract to an optional field.
\<close>

lemma crdt_field:
  assumes "crdt m i a j" and "\<And>x y. f (M x y) = m (f x) (f y)"
  shows "crdt M (\<lambda>s. i (f s)) (\<lambda>s. a (f s)) j"
  using assms(1) by (simp add: crdt_def assms(2))

definition pair_join :: "('a \<Rightarrow> 'a \<Rightarrow> 'a) \<Rightarrow> ('b \<Rightarrow> 'b \<Rightarrow> 'b) \<Rightarrow> 'a \<times> 'b \<Rightarrow> 'a \<times> 'b \<Rightarrow> 'a \<times> 'b" where
  "pair_join j1 j2 x y = (j1 (fst x) (fst y), j2 (snd x) (snd y))"

lemma crdt_both:
  assumes "crdt M i1 a1 j1" and "crdt M i2 a2 j2"
  shows "crdt M (\<lambda>s. i1 s \<and> i2 s) (\<lambda>s. (a1 s, a2 s)) (pair_join j1 j2)"
  using assms by (simp add: crdt_def pair_join_def)

definition opt_join :: "('a \<Rightarrow> 'a \<Rightarrow> 'a) \<Rightarrow> 'a option \<Rightarrow> 'a option \<Rightarrow> 'a option" where
  "opt_join j x y =
     (case y of None \<Rightarrow> x | Some b \<Rightarrow> (case x of None \<Rightarrow> Some b | Some a \<Rightarrow> Some (j a b)))"

lemma crdt_option:
  assumes c: "crdt m i a j" and new: "i new" "\<And>s. i s \<Longrightarrow> j (a new) (a s) = a s"
  shows "crdt (opt_merge m new) (pred_option i) (map_option a) (opt_join j)"
proof -
  note l = crdt.inv_merge [OF c] crdt.abs_merge [OF c] crdt.join_comm [OF c]
    crdt.join_assoc [OF c] crdt.join_idem [OF c]
  show ?thesis
  proof
    fix x y z
    assume "pred_option i x" "pred_option i y" "pred_option i z"
    then show "opt_join j (opt_join j (map_option a x) (map_option a y)) (map_option a z) =
        opt_join j (map_option a x) (opt_join j (map_option a y) (map_option a z))"
      by (cases x; cases y; cases z) (simp_all add: opt_join_def l(4))
  next
    fix x y
    assume xy: "pred_option i x" "pred_option i y"
    show "pred_option i (opt_merge m new x y)"
      using xy by (cases x; cases y) (simp_all add: opt_merge_def opt_or_new_def l(1) new)
    show "map_option a (opt_merge m new x y) = opt_join j (map_option a x) (map_option a y)"
      using xy by (cases x; cases y) (simp_all add: opt_merge_def opt_or_new_def opt_join_def l(2) new)
    show "opt_join j (map_option a x) (map_option a y) = opt_join j (map_option a y) (map_option a x)"
      using xy l(3) by (cases x; cases y) (auto simp: opt_join_def)
  next
    fix x
    assume "pred_option i x"
    then show "opt_join j (map_option a x) (map_option a x) = map_option a x"
      by (cases x) (simp_all add: opt_join_def l(5))
  qed
qed

lemma crdt_max: "crdt (\<lambda>x y. if y > x then y else x) (\<lambda>_. True) (\<lambda>x. x :: int) max"
  by unfold_locales (auto simp: max_def)

lemma crdt_min: "crdt (\<lambda>x y. if y < x then y else x) (\<lambda>_. True) (\<lambda>x. x :: int) min"
  by unfold_locales (auto simp: min_def)

lemma crdt_const: "crdt (\<lambda>x y. x) (\<lambda>x. x = c) (\<lambda>x. x) (\<lambda>x y. x)"
  by unfold_locales auto

end
