(* ===== verification/Vector_Clock.thy ===== *)
theory Vector_Clock
  imports Crdt_Merge
begin

text \<open>
  Vector clocks: \<open>did/src/ajna/vector_clock.rs\<close>. The counters are 64-bit words; the
  unchecked \<open>+= 1\<close> of the source wraps at the top of the range.
\<close>

record vector_clock =
  clocks :: "(string, u64) hash_map"

datatype clock_ordering = Equal | Before | After | Concurrent

definition vc_new :: vector_clock where
  "vc_new = \<lparr>clocks = []\<rparr>"

definition vc_get :: "vector_clock \<Rightarrow> string \<Rightarrow> u64" where
  "vc_get c node = (case hm_get (clocks c) node of None \<Rightarrow> 0 | Some t \<Rightarrow> t)"

definition vc_increment :: "string \<Rightarrow> vector_clock \<Rightarrow> vector_clock" where
  "vc_increment node c =
     c\<lparr>clocks := hm_insert node
        ((case hm_get (clocks c) node of None \<Rightarrow> 0 | Some t \<Rightarrow> t) + 1) (clocks c)\<rparr>"

text \<open>The first loop of \<open>happens_before\<close>; \<open>None\<close> is its early \<open>return false\<close>.\<close>

fun vc_self_loop :: "(string \<times> u64) list \<Rightarrow> vector_clock \<Rightarrow> bool \<Rightarrow> bool option" where
  "vc_self_loop [] other strictly_less = Some strictly_less"
| "vc_self_loop ((node, time) # rest) other strictly_less =
     (let other_time = vc_get other node
      in if time > other_time then None
         else vc_self_loop rest other (if time < other_time then True else strictly_less))"

fun vc_other_loop :: "(string \<times> u64) list \<Rightarrow> vector_clock \<Rightarrow> bool \<Rightarrow> bool" where
  "vc_other_loop [] self strictly_less = strictly_less"
| "vc_other_loop ((node, time) # rest) self strictly_less =
     vc_other_loop rest self
       (if \<not> hm_contains (clocks self) node \<and> time > 0 then True else strictly_less)"

definition vc_happens_before :: "vector_clock \<Rightarrow> vector_clock \<Rightarrow> bool" where
  "vc_happens_before self other =
     (case vc_self_loop (clocks self) other False of
        None \<Rightarrow> False
      | Some strictly_less \<Rightarrow> vc_other_loop (clocks other) self strictly_less)"

definition vc_eq :: "vector_clock \<Rightarrow> vector_clock \<Rightarrow> bool" where
  "vc_eq a b = hm_eq (clocks a) (clocks b)"

definition vc_is_concurrent :: "vector_clock \<Rightarrow> vector_clock \<Rightarrow> bool" where
  "vc_is_concurrent self other \<longleftrightarrow>
     \<not> vc_happens_before self other \<and> \<not> vc_happens_before other self \<and> \<not> vc_eq self other"

definition vc_merge_entry :: "string \<Rightarrow> u64 \<Rightarrow> (string, u64) hash_map \<Rightarrow> (string, u64) hash_map" where
  "vc_merge_entry node time m =
     hm_insert node (case hm_get m node of None \<Rightarrow> time | Some t \<Rightarrow> max t time) m"

definition vc_merge :: "vector_clock \<Rightarrow> vector_clock \<Rightarrow> vector_clock" where
  "vc_merge self other =
     self\<lparr>clocks := fold (\<lambda>(node, time). vc_merge_entry node time) (clocks other) (clocks self)\<rparr>"

definition vc_compare :: "vector_clock \<Rightarrow> vector_clock \<Rightarrow> clock_ordering" where
  "vc_compare self other =
     (if vc_eq self other then Equal
      else if vc_happens_before self other then Before
      else if vc_happens_before other self then After
      else Concurrent)"

definition vc_node_ids :: "vector_clock \<Rightarrow> string list" where
  "vc_node_ids c = hm_keys (clocks c)"

definition vc_total_events :: "vector_clock \<Rightarrow> u64" where
  "vc_total_events c = sum_list (hm_values (clocks c))"

section \<open>Invariant and abstraction\<close>

definition vc_wf :: "vector_clock \<Rightarrow> bool" where
  "vc_wf c \<longleftrightarrow> hm_wf (clocks c)"

text \<open>No stored counter is zero: kept by \<open>increment\<close> below the wrap-around and by \<open>merge\<close>.\<close>

definition vc_positive :: "vector_clock \<Rightarrow> bool" where
  "vc_positive c \<longleftrightarrow> (\<forall>n t. hm_get (clocks c) n = Some t \<longrightarrow> 0 < t)"

definition vc_abs :: "vector_clock \<Rightarrow> string \<Rightarrow> u64 option" where
  "vc_abs c = map_of (clocks c)"

definition vc_join :: "(string \<Rightarrow> u64 option) \<Rightarrow> (string \<Rightarrow> u64 option) \<Rightarrow> string \<Rightarrow> u64 option" where
  "vc_join a b n = (case b n of None \<Rightarrow> a n
     | Some t \<Rightarrow> (case a n of None \<Rightarrow> Some t | Some t' \<Rightarrow> Some (max t' t)))"

section \<open>Operations\<close>

lemma vc_wf_new [crdt_inv]: "vc_wf vc_new"
  by (simp add: vc_wf_def vc_new_def)

lemma vc_wf_increment [crdt_inv]: "vc_wf c \<Longrightarrow> vc_wf (vc_increment n c)"
  by (simp add: vc_wf_def vc_increment_def)

lemma vc_get_increment:
  "vc_get (vc_increment n c) m = (if m = n then vc_get c n + 1 else vc_get c m)"
  by (simp add: vc_get_def vc_increment_def split: option.splits)

lemma vc_get_merge_entry:
  "hm_get (vc_merge_entry n t m) k =
     (if k = n then Some (case hm_get m n of None \<Rightarrow> t | Some t' \<Rightarrow> max t' t) else hm_get m k)"
  by (simp add: vc_merge_entry_def)

lemma vc_wf_merge [crdt_inv]: "vc_wf a \<Longrightarrow> vc_wf (vc_merge a b)"
  by (auto simp: vc_wf_def vc_merge_def vc_merge_entry_def intro!: fold_keeps [where P = hm_wf])

lemma vc_abs_merge [crdt_abs]:
  assumes "vc_wf b"
  shows "vc_abs (vc_merge a b) = vc_join (vc_abs a) (vc_abs b)"
proof
  fix n
  show "vc_abs (vc_merge a b) n = vc_join (vc_abs a) (vc_abs b) n"
    using assms hm_fold_pointwise [where lookup = map_of and f = vc_merge_entry,
        OF _ vc_get_merge_entry, of "clocks b" "clocks a" n]
    by (simp add: vc_abs_def vc_merge_def vc_wf_def vc_join_def split: option.splits)
qed

interpretation vc: crdt vc_merge vc_wf vc_abs vc_join
proof unfold_locales
  fix a b c :: vector_clock
  assume "vc_wf a" "vc_wf b" "vc_wf c"
  show "vc_join (vc_join (vc_abs a) (vc_abs b)) (vc_abs c) =
      vc_join (vc_abs a) (vc_join (vc_abs b) (vc_abs c))"
    by (auto simp: fun_eq_iff vc_join_def max.assoc split: option.splits)
qed (auto simp: fun_eq_iff vc_join_def max.commute vc_abs_merge vc_wf_merge split: option.splits)

lemma vc_get_merge:
  "vc_wf a \<Longrightarrow> vc_wf b \<Longrightarrow> vc_get (vc_merge a b) n = max (vc_get a n) (vc_get b n)"
  using vc_abs_merge [of b a]
  by (auto simp: vc_get_def vc_abs_def vc_join_def fun_eq_iff max_def split: option.splits)

section \<open>The causal order\<close>

lemma vc_self_loop_eq:
  "vc_self_loop xs other sl =
     (if \<exists>(n, t) \<in> set xs. t > vc_get other n then None
      else Some (sl \<or> (\<exists>(n, t) \<in> set xs. t < vc_get other n)))"
  by (induction xs arbitrary: sl) (auto simp: Let_def split: if_splits)

lemma vc_other_loop_eq:
  "vc_other_loop xs self sl \<longleftrightarrow>
     sl \<or> (\<exists>(n, t) \<in> set xs. \<not> hm_contains (clocks self) n \<and> t > 0)"
proof (induction xs arbitrary: sl)
  case Nil
  then show ?case by simp
next
  case (Cons x xs)
  obtain n t where x: "x = (n, t)" by (cases x)
  show ?case
    by (cases "hm_get (clocks self) n = None \<and> t > 0") (auto simp: x Cons.IH)
qed

lemma vc_mem_iff: "vc_wf c \<Longrightarrow> (n, t) \<in> set (clocks c) \<longleftrightarrow> hm_get (clocks c) n = Some t"
  by (simp add: vc_wf_def hm_get_iff_mem)

lemma vc_happens_before_pointwise:
  assumes a: "vc_wf a" and b: "vc_wf b"
  shows "vc_happens_before a b \<longleftrightarrow>
    (\<forall>n. vc_get a n \<le> vc_get b n) \<and> (\<exists>n. vc_get a n < vc_get b n)"
proof -
  have le: "(\<exists>(n, t) \<in> set (clocks a). t > vc_get b n) \<longleftrightarrow> \<not> (\<forall>n. vc_get a n \<le> vc_get b n)"
    using a by (force simp: vc_mem_iff vc_get_def not_le split: option.splits)
  have less: "(\<exists>(n, t) \<in> set (clocks a). t < vc_get b n) \<or>
      (\<exists>(n, t) \<in> set (clocks b). \<not> hm_contains (clocks a) n \<and> t > 0) \<longleftrightarrow>
      (\<exists>n. vc_get a n < vc_get b n)" (is "?l \<longleftrightarrow> ?r")
  proof
    assume ?l
    then consider n t where "hm_get (clocks a) n = Some t" "t < vc_get b n"
      | n t where "hm_get (clocks b) n = Some t" "hm_get (clocks a) n = None" "t > 0"
      using a b by (auto simp: vc_mem_iff)
    then show ?r
    proof cases
      case (1 n t)
      then have "vc_get a n < vc_get b n" by (simp add: vc_get_def)
      then show ?thesis ..
    next
      case (2 n t)
      then have "vc_get a n < vc_get b n" by (simp add: vc_get_def)
      then show ?thesis ..
    qed
  next
    assume ?r
    then obtain n where n: "vc_get a n < vc_get b n" ..
    show ?l
    proof (cases "hm_get (clocks a) n")
      case None
      with n obtain t where "hm_get (clocks b) n = Some t" "t > 0"
        by (auto simp: vc_get_def split: option.splits)
      with None b show ?thesis by (auto simp: vc_mem_iff)
    next
      case (Some t)
      with n a show ?thesis by (auto simp: vc_mem_iff vc_get_def)
    qed
  qed
  show ?thesis
    using le less
    by (auto simp: vc_happens_before_def vc_self_loop_eq vc_other_loop_eq)
qed

lemma vc_positive_eq:
  assumes "vc_wf a" "vc_wf b" "vc_positive a" "vc_positive b"
  shows "vc_eq a b \<longleftrightarrow> (\<forall>n. vc_get a n = vc_get b n)"
proof -
  have "map_of (clocks a) = map_of (clocks b)" if "\<forall>n. vc_get a n = vc_get b n"
  proof
    fix n
    show "hm_get (clocks a) n = hm_get (clocks b) n"
      using that [rule_format, of n] assms(3,4)
      by (auto simp: vc_get_def vc_positive_def split: option.splits)
  qed
  with assms(1,2) show ?thesis
    by (auto simp: vc_eq_def vc_wf_def hm_eq_iff vc_get_def)
qed

lemma vc_positive_new [crdt_inv]: "vc_positive vc_new"
  by (simp add: vc_positive_def vc_new_def)

lemma vc_positive_increment [crdt_inv]:
  "vc_positive c \<Longrightarrow> vc_get c n + 1 \<noteq> 0 \<Longrightarrow> vc_positive (vc_increment n c)"
  by (auto simp: vc_positive_def vc_increment_def vc_get_def word_gt_0 split: option.splits)

lemma vc_positive_merge [crdt_inv]:
  "vc_wf b \<Longrightarrow> vc_positive a \<Longrightarrow> vc_positive b \<Longrightarrow> vc_positive (vc_merge a b)"
  using vc_abs_merge [of b a]
  by (auto simp: vc_positive_def vc_abs_def vc_join_def fun_eq_iff less_max_iff_disj
      split: option.splits)

text \<open>
  C13. \<open>happens_before\<close> decides the causal order: it returns true exactly when every
  counter of the left clock is at most the right clock's (absent nodes counting as zero) and
  at least one is strictly smaller. The two hash-map loops with their early return compute
  this for every iteration order.
\<close>

theorem vc_happens_before_correct:
  assumes "vc_wf a" and "vc_wf b"
  shows "vc_happens_before a b \<longleftrightarrow>
    (\<forall>n. vc_get a n \<le> vc_get b n) \<and> (\<exists>n. vc_get a n < vc_get b n)"
  using assms by (rule vc_happens_before_pointwise)

theorem vc_happens_before_correct_witness:
  "vc_wf \<lparr>clocks = [(''a'', 1)]\<rparr> \<and> vc_wf \<lparr>clocks = [(''b'', 1), (''a'', 1)]\<rparr> \<and>
   vc_happens_before \<lparr>clocks = [(''a'', 1)]\<rparr> \<lparr>clocks = [(''b'', 1), (''a'', 1)]\<rparr> \<and>
   (\<exists>n. vc_get \<lparr>clocks = [(''a'', 1)]\<rparr> n < vc_get \<lparr>clocks = [(''b'', 1), (''a'', 1)]\<rparr> n)"
proof -
  let ?a = "\<lparr>clocks = [(''a'', 1)]\<rparr>" and ?b = "\<lparr>clocks = [(''b'', 1), (''a'', 1)]\<rparr>"
  have wf: "vc_wf ?a" "vc_wf ?b" by (simp_all add: vc_wf_def)
  have hb: "vc_happens_before ?a ?b" by (simp add: vc_happens_before_def vc_get_def)
  with wf show ?thesis using vc_happens_before_correct [OF wf] by simp
qed

text \<open>
  \<open>compare\<close> classifies two clocks without zero counters exactly: \<open>Equal\<close> when all
  counters agree, \<open>Before\<close> and \<open>After\<close> for the strict causal order, \<open>Concurrent\<close> only
  when each clock has a counter larger than the other's.
\<close>

theorem vc_compare_correct:
  assumes "vc_wf a" "vc_wf b" "vc_positive a" "vc_positive b"
  shows "vc_compare a b =
    (if \<forall>n. vc_get a n = vc_get b n then Equal
     else if \<forall>n. vc_get a n \<le> vc_get b n then Before
     else if \<forall>n. vc_get b n \<le> vc_get a n then After
     else Concurrent)"
  using assms
  by (auto simp: vc_compare_def vc_positive_eq vc_happens_before_pointwise less_le)

theorem vc_compare_correct_witness:
  "vc_compare \<lparr>clocks = [(''a'', 2)]\<rparr> \<lparr>clocks = [(''b'', 1), (''a'', 1)]\<rparr> = Concurrent"
proof -
  let ?a = "\<lparr>clocks = [(''a'', 2)]\<rparr>" and ?b = "\<lparr>clocks = [(''b'', 1), (''a'', 1)]\<rparr>"
  have wf: "vc_wf ?a" "vc_wf ?b" by (simp_all add: vc_wf_def)
  have pos: "vc_positive ?a" "vc_positive ?b" by (auto simp: vc_positive_def split: if_splits)
  have "vc_get ?a ''a'' = 2" "vc_get ?b ''a'' = 1" "vc_get ?a ''b'' = 0" "vc_get ?b ''b'' = 1"
    by (simp_all add: vc_get_def)
  then have "\<not> vc_get ?a ''a'' \<le> vc_get ?b ''a''" "\<not> vc_get ?b ''b'' \<le> vc_get ?a ''b''"
    by (simp_all add: word_le_nat_alt)
  then show ?thesis
    by (subst vc_compare_correct [OF wf pos]) (metis order_refl)
qed

text \<open>
  An event at a node moves its clock strictly forward in the causal order, as long as the
  node's counter has not reached the top of the 64-bit range.
\<close>

theorem vc_increment_advances:
  assumes "vc_wf c" and "vc_get c n \<noteq> - 1"
  shows "vc_happens_before c (vc_increment n c)"
proof -
  have "vc_get c n < vc_get c n + 1"
    using assms(2) by (rule word_less_add_one)
  moreover have "\<forall>m. vc_get c m \<le> vc_get (vc_increment n c) m"
    using calculation by (simp add: vc_get_increment less_imp_le)
  ultimately show ?thesis
    using assms(1) by (subst vc_happens_before_pointwise) (auto simp: vc_get_increment vc_wf_increment
        intro!: exI [of _ n])
qed

theorem vc_increment_advances_witness:
  "vc_happens_before \<lparr>clocks = [(''a'', 3)]\<rparr> (vc_increment ''a'' \<lparr>clocks = [(''a'', 3)]\<rparr>)"
  by (rule vc_increment_advances) (simp_all add: vc_wf_def vc_get_def)

end
