(* ===== verification/Lww_Map.thy ===== *)
theory Lww_Map
  imports Crdt_Merge
begin

text \<open>
  The last-write-wins map: \<open>did/src/ajna/lww_map.rs\<close>. \<open>Utc::now()\<close> is the argument
  \<open>now\<close> and \<open>V::default()\<close>, the payload of a tombstone, the argument \<open>dflt\<close>.
\<close>

record 'v lww_entry =
  lww_value :: 'v
  lww_timestamp :: timestamp
  lww_node_id :: string
  lww_is_tombstone :: bool

record ('k, 'v) lww_map =
  lww_entries_of :: "('k, 'v lww_entry) hash_map"

definition lww_entry_with_timestamp :: "'v \<Rightarrow> timestamp \<Rightarrow> string \<Rightarrow> 'v lww_entry" where
  "lww_entry_with_timestamp v ts node =
     \<lparr>lww_value = v, lww_timestamp = ts, lww_node_id = node, lww_is_tombstone = False\<rparr>"

definition lww_entry_new :: "timestamp \<Rightarrow> 'v \<Rightarrow> string \<Rightarrow> 'v lww_entry" where
  "lww_entry_new now v node =
     \<lparr>lww_value = v, lww_timestamp = now, lww_node_id = node, lww_is_tombstone = False\<rparr>"

definition lww_entry_tombstone :: "'v \<Rightarrow> timestamp \<Rightarrow> string \<Rightarrow> 'v lww_entry" where
  "lww_entry_tombstone dflt ts node =
     \<lparr>lww_value = dflt, lww_timestamp = ts, lww_node_id = node, lww_is_tombstone = True\<rparr>"

definition lww_wins_over :: "'v lww_entry \<Rightarrow> 'v lww_entry \<Rightarrow> bool" where
  "lww_wins_over self other =
     (if lww_timestamp self > lww_timestamp other then True
      else if lww_timestamp self < lww_timestamp other then False
      else lww_node_id self > lww_node_id other)"

definition lww_new :: "('k, 'v) lww_map" where
  "lww_new = \<lparr>lww_entries_of = []\<rparr>"

definition lww_set_entry :: "'k \<Rightarrow> 'v lww_entry \<Rightarrow> ('k, 'v) lww_map \<Rightarrow> ('k, 'v) lww_map" where
  "lww_set_entry key entry m =
     (case hm_get (lww_entries_of m) key of
        Some existing \<Rightarrow>
          if lww_wins_over entry existing
          then m\<lparr>lww_entries_of := hm_insert key entry (lww_entries_of m)\<rparr> else m
      | None \<Rightarrow> m\<lparr>lww_entries_of := hm_insert key entry (lww_entries_of m)\<rparr>)"

definition lww_set :: "timestamp \<Rightarrow> 'k \<Rightarrow> 'v \<Rightarrow> string \<Rightarrow> ('k, 'v) lww_map \<Rightarrow> ('k, 'v) lww_map" where
  "lww_set now key v node m = lww_set_entry key (lww_entry_new now v node) m"

definition lww_set_with_timestamp ::
  "'k \<Rightarrow> 'v \<Rightarrow> timestamp \<Rightarrow> string \<Rightarrow> ('k, 'v) lww_map \<Rightarrow> ('k, 'v) lww_map" where
  "lww_set_with_timestamp key v ts node m =
     lww_set_entry key (lww_entry_with_timestamp v ts node) m"

definition lww_remove_with_timestamp ::
  "'v \<Rightarrow> 'k \<Rightarrow> timestamp \<Rightarrow> string \<Rightarrow> ('k, 'v) lww_map \<Rightarrow> ('k, 'v) lww_map" where
  "lww_remove_with_timestamp dflt key ts node m =
     lww_set_entry key (lww_entry_tombstone dflt ts node) m"

definition lww_remove :: "timestamp \<Rightarrow> 'v \<Rightarrow> 'k \<Rightarrow> string \<Rightarrow> ('k, 'v) lww_map \<Rightarrow> ('k, 'v) lww_map" where
  "lww_remove now dflt key node m = lww_set_entry key (lww_entry_tombstone dflt now node) m"

definition lww_get :: "('k, 'v) lww_map \<Rightarrow> 'k \<Rightarrow> 'v option" where
  "lww_get m key =
     (case hm_get (lww_entries_of m) key of
        None \<Rightarrow> None
      | Some entry \<Rightarrow> if lww_is_tombstone entry then None else Some (lww_value entry))"

definition lww_contains_key :: "('k, 'v) lww_map \<Rightarrow> 'k \<Rightarrow> bool" where
  "lww_contains_key m key =
     (case hm_get (lww_entries_of m) key of None \<Rightarrow> False | Some entry \<Rightarrow> \<not> lww_is_tombstone entry)"

definition lww_keys :: "('k, 'v) lww_map \<Rightarrow> 'k list" where
  "lww_keys m = map fst (filter (\<lambda>(_, entry). \<not> lww_is_tombstone entry) (lww_entries_of m))"

definition lww_values :: "('k, 'v) lww_map \<Rightarrow> 'v list" where
  "lww_values m =
     map (\<lambda>(_, entry). lww_value entry)
       (filter (\<lambda>(_, entry). \<not> lww_is_tombstone entry) (lww_entries_of m))"

definition lww_entries :: "('k, 'v) lww_map \<Rightarrow> ('k \<times> 'v) list" where
  "lww_entries m =
     map (\<lambda>(key, entry). (key, lww_value entry))
       (filter (\<lambda>(_, entry). \<not> lww_is_tombstone entry) (lww_entries_of m))"

definition lww_len :: "('k, 'v) lww_map \<Rightarrow> nat" where
  "lww_len m = length (filter (\<lambda>entry. \<not> lww_is_tombstone entry) (hm_values (lww_entries_of m)))"

definition lww_is_empty :: "('k, 'v) lww_map \<Rightarrow> bool" where
  "lww_is_empty m \<longleftrightarrow> lww_len m = 0"

definition lww_merge :: "('k, 'v) lww_map \<Rightarrow> ('k, 'v) lww_map \<Rightarrow> ('k, 'v) lww_map" where
  "lww_merge self other =
     fold (\<lambda>(key, other_entry) m. lww_set_entry key other_entry m) (lww_entries_of other) self"

definition lww_clear :: "('k, 'v) lww_map \<Rightarrow> ('k, 'v) lww_map" where
  "lww_clear m = m\<lparr>lww_entries_of := []\<rparr>"

definition lww_get_entry :: "('k, 'v) lww_map \<Rightarrow> 'k \<Rightarrow> 'v lww_entry option" where
  "lww_get_entry m key = hm_get (lww_entries_of m) key"

definition lww_eq :: "('k, 'v) lww_map \<Rightarrow> ('k, 'v) lww_map \<Rightarrow> bool" where
  "lww_eq a b = hm_eq (lww_entries_of a) (lww_entries_of b)"

section \<open>Invariant and abstraction\<close>

definition lww_wf :: "('k, 'v) lww_map \<Rightarrow> bool" where
  "lww_wf m \<longleftrightarrow> hm_wf (lww_entries_of m)"

text \<open>
  \<open>W k ts n\<close> is the write that node \<open>n\<close> made to key \<open>k\<close> at time \<open>ts\<close>: a map is
  consistent with the write history \<open>W\<close> when each of its entries is the write recorded
  there. A key, a timestamp and a node then determine the payload.
\<close>

definition lww_inv :: "('k \<Rightarrow> timestamp \<Rightarrow> string \<Rightarrow> 'v \<times> bool) \<Rightarrow> ('k, 'v) lww_map \<Rightarrow> bool" where
  "lww_inv W m \<longleftrightarrow> lww_wf m \<and>
     (\<forall>k e. hm_get (lww_entries_of m) k = Some e \<longrightarrow>
        W k (lww_timestamp e) (lww_node_id e) = (lww_value e, lww_is_tombstone e))"

definition lww_abs :: "('k, 'v) lww_map \<Rightarrow> 'k \<Rightarrow> 'v lww_entry option" where
  "lww_abs m = map_of (lww_entries_of m)"

definition lww_later :: "'v lww_entry \<Rightarrow> 'v lww_entry \<Rightarrow> 'v lww_entry" where
  "lww_later e new = (if lww_wins_over new e then new else e)"

definition lww_join ::
  "('k \<Rightarrow> 'v lww_entry option) \<Rightarrow> ('k \<Rightarrow> 'v lww_entry option) \<Rightarrow> 'k \<Rightarrow> 'v lww_entry option" where
  "lww_join a b k =
     (case b k of None \<Rightarrow> a k
      | Some e \<Rightarrow> (case a k of None \<Rightarrow> Some e | Some e' \<Rightarrow> Some (lww_later e' e)))"

section \<open>Single entries\<close>

lemma lww_wins_over_asym: "lww_wins_over a b \<Longrightarrow> \<not> lww_wins_over b a"
  by (auto simp: lww_wins_over_def split: if_splits)

lemma lww_wins_over_trans: "lww_wins_over a b \<Longrightarrow> lww_wins_over b c \<Longrightarrow> lww_wins_over a c"
  by (auto simp: lww_wins_over_def split: if_splits)

lemma lww_wins_over_neg_trans: "\<not> lww_wins_over a b \<Longrightarrow> \<not> lww_wins_over b c \<Longrightarrow> \<not> lww_wins_over a c"
  by (auto simp: lww_wins_over_def split: if_splits)

lemma lww_wins_over_total:
  "\<not> lww_wins_over a b \<Longrightarrow> \<not> lww_wins_over b a \<Longrightarrow>
     lww_timestamp a = lww_timestamp b \<and> lww_node_id a = lww_node_id b"
  by (auto simp: lww_wins_over_def split: if_splits)

lemma lww_wins_over_irrefl [simp]: "\<not> lww_wins_over a a"
  by (simp add: lww_wins_over_def)

lemma lww_later_assoc: "lww_later (lww_later a b) c = lww_later a (lww_later b c)"
  using lww_wins_over_trans [of c b a] lww_wins_over_neg_trans [of c b a]
  by (auto simp: lww_later_def)

lemma lww_later_idem [simp]: "lww_later a a = a"
  by (simp add: lww_later_def)

lemma lww_inv_later_comm:
  assumes "lww_inv W a" "lww_inv W b" "lww_abs a k = Some e" "lww_abs b k = Some e'"
  shows "lww_later e e' = lww_later e' e"
proof -
  have "e = e'" if "\<not> lww_wins_over e e'" "\<not> lww_wins_over e' e"
  proof -
    from that have "lww_timestamp e = lww_timestamp e'" "lww_node_id e = lww_node_id e'"
      using lww_wins_over_total by blast+
    moreover have "W k (lww_timestamp e) (lww_node_id e) = (lww_value e, lww_is_tombstone e)"
      and "W k (lww_timestamp e') (lww_node_id e') = (lww_value e', lww_is_tombstone e')"
      using assms by (simp_all add: lww_inv_def lww_abs_def)
    ultimately show "e = e'" by (intro lww_entry.equality) simp_all
  qed
  then show ?thesis using lww_wins_over_asym [of e e'] by (auto simp: lww_later_def)
qed

section \<open>Operations\<close>

lemma lww_abs_set_entry [crdt_abs]:
  "lww_abs (lww_set_entry k e m) =
     (lww_abs m)(k \<mapsto> (case lww_abs m k of None \<Rightarrow> e | Some e' \<Rightarrow> lww_later e' e))"
  by (auto simp: fun_eq_iff lww_abs_def lww_set_entry_def lww_later_def split: option.splits)

lemma lww_wf_new [crdt_inv]: "lww_wf lww_new"
  by (simp add: lww_wf_def lww_new_def)

lemma lww_wf_set_entry [crdt_inv]: "lww_wf m \<Longrightarrow> lww_wf (lww_set_entry k e m)"
  by (simp add: lww_wf_def lww_set_entry_def split: option.splits)

lemma lww_wf_set [crdt_inv]: "lww_wf m \<Longrightarrow> lww_wf (lww_set now k v n m)"
  by (simp add: lww_set_def lww_wf_set_entry)

lemma lww_wf_set_with_timestamp [crdt_inv]: "lww_wf m \<Longrightarrow> lww_wf (lww_set_with_timestamp k v ts n m)"
  by (simp add: lww_set_with_timestamp_def lww_wf_set_entry)

lemma lww_wf_remove [crdt_inv]: "lww_wf m \<Longrightarrow> lww_wf (lww_remove now d k n m)"
  by (simp add: lww_remove_def lww_wf_set_entry)

lemma lww_wf_remove_with_timestamp [crdt_inv]:
  "lww_wf m \<Longrightarrow> lww_wf (lww_remove_with_timestamp d k ts n m)"
  by (simp add: lww_remove_with_timestamp_def lww_wf_set_entry)

lemma lww_wf_merge [crdt_inv]: "lww_wf a \<Longrightarrow> lww_wf (lww_merge a b)"
  unfolding lww_merge_def by (rule fold_keeps [where P = lww_wf]) (auto intro: lww_wf_set_entry)

lemma lww_abs_merge [crdt_abs]:
  assumes "lww_wf b"
  shows "lww_abs (lww_merge a b) = lww_join (lww_abs a) (lww_abs b)"
proof
  fix k
  have step: "lww_abs (lww_set_entry k e m) k' =
      (if k' = k then Some (case lww_abs m k of None \<Rightarrow> e | Some e' \<Rightarrow> lww_later e' e) else lww_abs m k')"
    for k e m k'
    by (simp add: lww_abs_set_entry)
  show "lww_abs (lww_merge a b) k = lww_join (lww_abs a) (lww_abs b) k"
    using assms hm_fold_pointwise [where lookup = lww_abs and f = lww_set_entry, OF _ step,
        of "lww_entries_of b" a k]
    by (simp add: lww_merge_def lww_wf_def lww_join_def lww_abs_def [of b] split: option.splits)
qed

lemma lww_inv_merge:
  assumes a: "lww_inv W a" and b: "lww_inv W b"
  shows "lww_inv W (lww_merge a b)"
proof -
  have wf: "lww_wf a" "lww_wf b" using a b by (auto simp: lww_inv_def)
  have "hm_get (lww_entries_of (lww_merge a b)) k = lww_join (lww_abs a) (lww_abs b) k" for k
    using wf lww_abs_merge [of b a] by (simp add: lww_abs_def fun_eq_iff)
  then show ?thesis
    using a b wf by (auto simp: lww_inv_def lww_wf_merge lww_join_def lww_abs_def lww_later_def
        split: option.splits if_splits)
qed

interpretation lww: crdt lww_merge "lww_inv W" lww_abs lww_join for W
proof unfold_locales
  fix a b c :: "('a, 'b) lww_map"
  assume inv: "lww_inv W a" "lww_inv W b" "lww_inv W c"
  show "lww_inv W (lww_merge a b)" using inv by (simp add: lww_inv_merge)
  show "lww_abs (lww_merge a b) = lww_join (lww_abs a) (lww_abs b)"
    using inv by (simp add: lww_inv_def lww_abs_merge)
  show "lww_join (lww_abs a) (lww_abs b) = lww_join (lww_abs b) (lww_abs a)"
    using lww_inv_later_comm [OF inv(1,2)] by (auto simp: fun_eq_iff lww_join_def split: option.splits)
  show "lww_join (lww_join (lww_abs a) (lww_abs b)) (lww_abs c) =
      lww_join (lww_abs a) (lww_join (lww_abs b) (lww_abs c))"
    by (auto simp: fun_eq_iff lww_join_def lww_later_assoc split: option.splits)
  show "lww_join (lww_abs a) (lww_abs a) = lww_abs a"
    by (auto simp: fun_eq_iff lww_join_def split: option.splits)
qed

section \<open>What a reader sees\<close>

lemma lww_get_abs:
  "lww_get m k = (case lww_abs m k of None \<Rightarrow> None
     | Some e \<Rightarrow> if lww_is_tombstone e then None else Some (lww_value e))"
  by (simp add: lww_get_def lww_abs_def)

lemma lww_contains_key_get: "lww_contains_key m k \<longleftrightarrow> lww_get m k \<noteq> None"
  by (simp add: lww_contains_key_def lww_get_def split: option.splits)

lemma lww_live_entries:
  assumes "lww_wf m"
  shows "map_of (lww_entries m) k = lww_get m k"
  using assms hm_get_filter [of "lww_entries_of m" "\<lambda>_ e. \<not> lww_is_tombstone e" k]
  by (simp add: lww_entries_def lww_get_def lww_wf_def map_of_map split: option.splits)

text \<open>
  Two maps agree on their writes when a key, a timestamp and a node determine the write. Maps that
  agree pairwise have a common write history.
\<close>

definition lww_agree :: "('k, 'v) lww_map \<Rightarrow> ('k, 'v) lww_map \<Rightarrow> bool" where
  "lww_agree a b \<longleftrightarrow> (\<forall>k e e'. lww_get_entry a k = Some e \<longrightarrow> lww_get_entry b k = Some e' \<longrightarrow>
     lww_timestamp e = lww_timestamp e' \<longrightarrow> lww_node_id e = lww_node_id e' \<longrightarrow> e = e')"

lemma lww_common_history:
  assumes wf: "\<forall>x\<in>S. lww_wf x" and agree: "\<forall>x\<in>S. \<forall>y\<in>S. lww_agree x y"
  obtains W where "\<forall>x\<in>S. lww_inv W x"
proof -
  define wrote where "wrote k ts n e \<longleftrightarrow> (\<exists>x\<in>S. lww_get_entry x k = Some e \<and> lww_timestamp e = ts \<and> lww_node_id e = n)" for k ts n e
  define W where "W k ts n = (let e = SOME e. wrote k ts n e in (lww_value e, lww_is_tombstone e))" for k ts n
  have "lww_inv W x" if x: "x \<in> S" for x
  proof -
    have "W k (lww_timestamp e) (lww_node_id e) = (lww_value e, lww_is_tombstone e)" if e: "hm_get (lww_entries_of x) k = Some e" for k e
    proof -
      have w: "wrote k (lww_timestamp e) (lww_node_id e) e" using x e by (auto simp: wrote_def lww_get_entry_def)
      have "e' = e" if "wrote k (lww_timestamp e) (lww_node_id e) e'" for e'
      proof -
        from that obtain y where "y \<in> S" "lww_get_entry y k = Some e'" "lww_timestamp e' = lww_timestamp e" "lww_node_id e' = lww_node_id e"
          by (auto simp: wrote_def)
        moreover have "lww_get_entry x k = Some e" using e by (simp add: lww_get_entry_def)
        ultimately show ?thesis using agree x unfolding lww_agree_def by blast
      qed
      with w have "(SOME e'. wrote k (lww_timestamp e) (lww_node_id e) e') = e" by (rule some_equality)
      then show ?thesis by (simp add: W_def Let_def)
    qed
    then show ?thesis using wf x by (auto simp: lww_inv_def)
  qed
  then show ?thesis using that by blast
qed

text \<open>
  C8. Replicas converge: two replicas that have received the same states, in any order and any
  number of times, hold the same entry for every key, provided no two of the states hold different
  writes of one node to one key at one time.
\<close>

theorem lww_converges:
  assumes "\<forall>x\<in>insert s (set xs). lww_wf x" and "\<forall>x\<in>insert s (set xs). \<forall>y\<in>insert s (set xs). lww_agree x y"
    and same: "insert s (set xs) = insert t (set ys)"
  shows "lww_get_entry (foldl lww_merge s xs) k = lww_get_entry (foldl lww_merge t ys) k"
proof -
  obtain W where W: "\<forall>x\<in>insert s (set xs). lww_inv W x" by (rule lww_common_history [OF assms(1,2)])
  then have "\<forall>x\<in>insert t (set ys). lww_inv W x" by (simp only: same)
  with W have "lww_inv W s" "lww_inv W t" "\<forall>x\<in>set xs. lww_inv W x" "\<forall>y\<in>set ys. lww_inv W y" by simp_all
  from lww.converges [OF this same] show ?thesis by (simp add: lww_get_entry_def lww_abs_def fun_eq_iff)
qed

theorem lww_converges_witness:
  "let a = \<lparr>lww_entries_of = [(''k'', \<lparr>lww_value = 1, lww_timestamp = 5, lww_node_id = ''n'', lww_is_tombstone = False\<rparr>)]\<rparr>;
       b = \<lparr>lww_entries_of = [(''k'', \<lparr>lww_value = (2::nat), lww_timestamp = 5, lww_node_id = ''m'', lww_is_tombstone = False\<rparr>)]\<rparr>
   in lww_get_entry (foldl lww_merge a [b, a]) ''k'' = lww_get_entry (foldl lww_merge b [a]) ''k'' \<and>
      lww_get (foldl lww_merge b [a]) ''k'' = Some 1"
proof -
  let ?a = "\<lparr>lww_entries_of = [(''k'', \<lparr>lww_value = 1, lww_timestamp = 5, lww_node_id = ''n'', lww_is_tombstone = False\<rparr>)]\<rparr>"
  let ?b = "\<lparr>lww_entries_of = [(''k'', \<lparr>lww_value = (2::nat), lww_timestamp = 5, lww_node_id = ''m'', lww_is_tombstone = False\<rparr>)]\<rparr>"
  have "lww_get_entry (foldl lww_merge ?a [?b, ?a]) ''k'' = lww_get_entry (foldl lww_merge ?b [?a]) ''k''"
    by (rule lww_converges) (auto simp: lww_wf_def lww_agree_def lww_get_entry_def split: if_splits)
  moreover have "lww_get (foldl lww_merge ?b [?a]) ''k'' = Some 1"
    by (simp add: lww_merge_def lww_set_entry_def lww_wins_over_def lww_get_def)
  ultimately show ?thesis by (simp only: Let_def)
qed

text \<open>
  Without that proviso replicas stay apart: the tie is broken by the node only, so of two writes of
  one node at one time each replica keeps the one it saw first.
\<close>

lemma lww_tie_diverges:
  assumes "v \<noteq> w"
  shows "lww_get (lww_merge (lww_set_with_timestamp k v ts n lww_new) (lww_set_with_timestamp k w ts n lww_new)) k = Some v \<and>
    lww_get (lww_merge (lww_set_with_timestamp k w ts n lww_new) (lww_set_with_timestamp k v ts n lww_new)) k = Some w"
  by (simp add: lww_merge_def lww_set_with_timestamp_def lww_set_entry_def lww_new_def lww_get_def lww_wins_over_def lww_entry_with_timestamp_def)

text \<open>
  After a merge, every key of either map is present with the entry of the later write:
  no entry of the two maps for that key wins over the one that is kept, and the kept entry
  comes from one of the two maps.
\<close>

theorem lww_merge_keeps_latest:
  assumes "lww_wf b" and "lww_get_entry (lww_merge a b) k = Some e"
  shows "(lww_get_entry a k = Some e \<or> lww_get_entry b k = Some e) \<and>
    (\<forall>e'. lww_get_entry a k = Some e' \<or> lww_get_entry b k = Some e' \<longrightarrow> \<not> lww_wins_over e' e)"
proof -
  from assms have "lww_join (lww_abs a) (lww_abs b) k = Some e"
    by (metis lww_abs_def lww_abs_merge lww_get_entry_def)
  then show ?thesis
    by (auto simp: lww_join_def lww_get_entry_def lww_abs_def lww_later_def
        dest: lww_wins_over_asym split: option.splits if_splits)
qed

theorem lww_merge_keeps_latest_witness:
  "let a = lww_set_with_timestamp ''k'' ''old'' 1 ''n1'' lww_new;
       b = lww_set_with_timestamp ''k'' ''new'' 2 ''n2'' lww_new
   in lww_get_entry b ''k'' = lww_get_entry (lww_merge a b) ''k''"
proof -
  let ?a = "lww_set_with_timestamp ''k'' ''old'' 1 ''n1'' lww_new"
  let ?b = "lww_set_with_timestamp ''k'' ''new'' 2 ''n2'' lww_new"
  let ?e = "lww_entry_with_timestamp ''new'' 2 ''n2''"
  have wf: "lww_wf ?b" by (intro lww_wf_set_with_timestamp lww_wf_new)
  have got: "lww_get_entry (lww_merge ?a ?b) ''k'' = Some ?e"
    by (simp add: lww_merge_def lww_set_with_timestamp_def lww_new_def lww_set_entry_def
        lww_get_entry_def lww_wins_over_def lww_entry_with_timestamp_def)
  have "lww_get_entry ?a ''k'' \<noteq> Some ?e"
    by (simp add: lww_set_with_timestamp_def lww_new_def lww_set_entry_def
        lww_get_entry_def lww_entry_with_timestamp_def)
  then show ?thesis using lww_merge_keeps_latest [OF wf got] got by (simp add: Let_def)
qed

text \<open>
  What a reader sees after a write with an explicit timestamp: the new value when the
  write beats the stored entry, otherwise the map is unchanged. In particular a second write
  by the same node in the same clock tick is dropped.
\<close>

theorem lww_set_with_timestamp_reads:
  "lww_get (lww_set_with_timestamp k v ts n m) k' =
     (if k' = k \<and> (case lww_get_entry m k of None \<Rightarrow> True
           | Some e \<Rightarrow> lww_timestamp e < ts \<or> (lww_timestamp e = ts \<and> lww_node_id e < n))
      then Some v else lww_get m k')"
  by (auto simp: lww_get_abs lww_get_entry_def lww_set_with_timestamp_def lww_abs_set_entry
      lww_later_def lww_wins_over_def lww_entry_with_timestamp_def lww_abs_def [symmetric]
      split: option.splits)

text \<open>
  \<open>len\<close>, \<open>keys\<close>, \<open>entries\<close> and \<open>get\<close> agree: the listed entries are exactly the
  keys a lookup finds, each once, and \<open>len\<close> is their number.
\<close>

theorem lww_listing_correct:
  assumes "lww_wf m"
  shows "map_of (lww_entries m) = lww_get m \<and> distinct (lww_keys m) \<and>
    set (lww_keys m) = {k. lww_contains_key m k} \<and> lww_len m = card {k. lww_contains_key m k}"
proof -
  have keys: "lww_keys m = map fst (lww_entries m)"
    by (simp add: lww_keys_def lww_entries_def case_prod_beta comp_def)
  have dist: "distinct (lww_keys m)"
    using assms by (simp add: lww_keys_def lww_wf_def distinct_map_filter)
  have "set (lww_keys m) = dom (map_of (lww_entries m))"
    by (simp add: keys dom_map_of_conv_image_fst)
  then have set: "set (lww_keys m) = {k. lww_contains_key m k}"
    using lww_live_entries [OF assms] by (auto simp: lww_contains_key_get)
  have "lww_len m = length (lww_keys m)"
    by (simp add: lww_len_def lww_keys_def filter_map comp_def case_prod_unfold)
  then show ?thesis
    using lww_live_entries [OF assms] dist set distinct_card [OF dist] by auto
qed

theorem lww_listing_correct_witness:
  "let m = lww_remove_with_timestamp [] ''b'' 9 ''n'' (lww_set_with_timestamp ''b'' ''y'' 2 ''n''
         (lww_set_with_timestamp ''a'' ''x'' 1 ''n'' lww_new))
   in lww_wf m \<and> lww_len m = card {k. lww_contains_key m k}"
proof -
  let ?m = "lww_remove_with_timestamp [] ''b'' 9 ''n'' (lww_set_with_timestamp ''b'' ''y'' 2 ''n''
         (lww_set_with_timestamp ''a'' ''x'' 1 ''n'' lww_new))"
  have wf: "lww_wf ?m"
    by (intro lww_wf_remove_with_timestamp lww_wf_set_with_timestamp lww_wf_new)
  from lww_listing_correct [OF wf] have "lww_len ?m = card {k. lww_contains_key ?m k}" by blast
  with wf show ?thesis by (simp only: Let_def simp_thms)
qed

end
