(* ===== verification/Or_Set.thy ===== *)
theory Or_Set
  imports Crdt_Merge
begin

text \<open>
  The observed-remove set: \<open>did/src/ajna/or_set.rs\<close>. The identifier that
  \<open>Uuid::new_v4()\<close> draws is the argument \<open>uuid\<close> of \<open>add\<close>; that it is fresh is a
  hypothesis of the theorems that need it. \<open>HashSet<Uuid>\<close> and the tombstones are sets:
  the loops over them only insert into or filter another set.
\<close>

record ('t, 'u) or_set =
  ors_elements_of :: "('t, 'u set) hash_map"
  ors_tombstones :: "('t \<times> 'u) set"

definition ors_new :: "('t, 'u) or_set" where
  "ors_new = \<lparr>ors_elements_of = [], ors_tombstones = {}\<rparr>"

definition ors_entry_or_default :: "('t, 'u set) hash_map \<Rightarrow> 't \<Rightarrow> 'u set" where
  "ors_entry_or_default m e = (case hm_get m e of None \<Rightarrow> {} | Some us \<Rightarrow> us)"

definition ors_add :: "'t \<Rightarrow> 'u \<Rightarrow> ('t, 'u) or_set \<Rightarrow> ('t, 'u) or_set" where
  "ors_add element uuid s =
     s\<lparr>ors_elements_of := hm_insert element
        (insert uuid (ors_entry_or_default (ors_elements_of s) element)) (ors_elements_of s)\<rparr>"

definition ors_remove :: "'t \<Rightarrow> ('t, 'u) or_set \<Rightarrow> ('t, 'u) or_set" where
  "ors_remove element s =
     (case hm_get (ors_elements_of s) element of
        None \<Rightarrow> s
      | Some uuids \<Rightarrow>
          s\<lparr>ors_elements_of := hm_remove element (ors_elements_of s),
            ors_tombstones := ors_tombstones s \<union> Pair element ` uuids\<rparr>)"

definition ors_remove_instance :: "'t \<Rightarrow> 'u \<Rightarrow> ('t, 'u) or_set \<Rightarrow> ('t, 'u) or_set" where
  "ors_remove_instance element uuid s =
     (case hm_get (ors_elements_of s) element of
        None \<Rightarrow> s
      | Some uuids \<Rightarrow>
          if uuid \<in> uuids then
            (let s' = s\<lparr>ors_elements_of := hm_insert element (uuids - {uuid}) (ors_elements_of s),
                        ors_tombstones := insert (element, uuid) (ors_tombstones s)\<rparr>
             in if uuids - {uuid} = {}
                then s'\<lparr>ors_elements_of := hm_remove element (ors_elements_of s')\<rparr> else s')
          else s)"

definition ors_contains :: "('t, 'u) or_set \<Rightarrow> 't \<Rightarrow> bool" where
  "ors_contains s element \<longleftrightarrow> hm_contains (ors_elements_of s) element"

definition ors_elements :: "('t, 'u) or_set \<Rightarrow> 't list" where
  "ors_elements s = hm_keys (ors_elements_of s)"

definition ors_len :: "('t, 'u) or_set \<Rightarrow> nat" where
  "ors_len s = length (ors_elements_of s)"

definition ors_is_empty :: "('t, 'u) or_set \<Rightarrow> bool" where
  "ors_is_empty s \<longleftrightarrow> ors_elements_of s = []"

definition ors_extend :: "'t \<Rightarrow> 'u set \<Rightarrow> ('t, 'u set) hash_map \<Rightarrow> ('t, 'u set) hash_map" where
  "ors_extend elem uuids m = hm_insert elem (ors_entry_or_default m elem \<union> uuids) m"

definition ors_apply_tombstones :: "('t, 'u) or_set \<Rightarrow> ('t, 'u) or_set" where
  "ors_apply_tombstones s =
     s\<lparr>ors_elements_of :=
        filter (\<lambda>(_, uuids). uuids \<noteq> {})
          (map (\<lambda>(elem, uuids). (elem, {uuid \<in> uuids. (elem, uuid) \<notin> ors_tombstones s}))
             (ors_elements_of s))\<rparr>"

definition ors_merge :: "('t, 'u) or_set \<Rightarrow> ('t, 'u) or_set \<Rightarrow> ('t, 'u) or_set" where
  "ors_merge self other =
     ors_apply_tombstones
       (self\<lparr>ors_elements_of := fold (\<lambda>(elem, uuids). ors_extend elem uuids)
               (ors_elements_of other) (ors_elements_of self),
             ors_tombstones := ors_tombstones self \<union> ors_tombstones other\<rparr>)"

definition ors_clear :: "('t, 'u) or_set \<Rightarrow> ('t, 'u) or_set" where
  "ors_clear s = s\<lparr>ors_elements_of := [], ors_tombstones := {}\<rparr>"

definition ors_get_uuids :: "('t, 'u) or_set \<Rightarrow> 't \<Rightarrow> 'u set option" where
  "ors_get_uuids s element = hm_get (ors_elements_of s) element"

definition ors_eq :: "('t, 'u) or_set \<Rightarrow> ('t, 'u) or_set \<Rightarrow> bool" where
  "ors_eq a b \<longleftrightarrow> hm_eq (ors_elements_of a) (ors_elements_of b) \<and> ors_tombstones a = ors_tombstones b"

section \<open>Invariant and abstraction\<close>

text \<open>The tagged elements that are visible: pairs of an element and one of its identifiers.\<close>

definition ors_live :: "('t, 'u) or_set \<Rightarrow> ('t \<times> 'u) set" where
  "ors_live s = {(e, u). \<exists>us. hm_get (ors_elements_of s) e = Some us \<and> u \<in> us}"

definition ors_inv :: "('t, 'u) or_set \<Rightarrow> bool" where
  "ors_inv s \<longleftrightarrow> hm_wf (ors_elements_of s) \<and>
     (\<forall>e us. hm_get (ors_elements_of s) e = Some us \<longrightarrow> us \<noteq> {}) \<and>
     ors_live s \<inter> ors_tombstones s = {}"

type_synonym ('t, 'u) ors_value = "('t \<times> 'u) set \<times> ('t \<times> 'u) set"

definition ors_abs :: "('t, 'u) or_set \<Rightarrow> ('t, 'u) ors_value" where
  "ors_abs s = (ors_live s, ors_tombstones s)"

definition ors_join :: "('t, 'u) ors_value \<Rightarrow> ('t, 'u) ors_value \<Rightarrow> ('t, 'u) ors_value" where
  "ors_join a b = ((fst a \<union> fst b) - (snd a \<union> snd b), snd a \<union> snd b)"

section \<open>Operations\<close>

lemma ors_contains_live: "ors_inv s \<Longrightarrow> ors_contains s e \<longleftrightarrow> (\<exists>u. (e, u) \<in> ors_live s)"
  by (auto simp: ors_inv_def ors_contains_def ors_live_def)

lemma ors_abs_new [crdt_abs]: "ors_abs ors_new = ({}, {})"
  by (simp add: ors_abs_def ors_new_def ors_live_def)

lemma ors_inv_new [crdt_inv]: "ors_inv ors_new"
  by (simp add: ors_inv_def ors_new_def ors_live_def)

lemma ors_abs_add [crdt_abs]: "ors_abs (ors_add e u s) = (insert (e, u) (ors_live s), ors_tombstones s)"
  by (auto simp: ors_abs_def ors_live_def ors_add_def ors_entry_or_default_def split: option.splits if_splits)

lemma ors_inv_add [crdt_inv]:
  assumes "ors_inv s" and "(e, u) \<notin> ors_tombstones s"
  shows "ors_inv (ors_add e u s)"
proof -
  have "ors_live (ors_add e u s) = insert (e, u) (ors_live s)"
    and "ors_tombstones (ors_add e u s) = ors_tombstones s"
    using ors_abs_add [of e u s] by (simp_all add: ors_abs_def)
  with assms show ?thesis
    by (auto simp: ors_inv_def) (auto simp: ors_add_def split: if_splits)
qed

lemma ors_abs_remove [crdt_abs]:
  "ors_abs (ors_remove e s) =
     ({p \<in> ors_live s. fst p \<noteq> e}, ors_tombstones s \<union> {p \<in> ors_live s. fst p = e})"
  by (auto simp: ors_abs_def ors_live_def ors_remove_def split: option.splits if_splits)

lemma ors_inv_remove [crdt_inv]:
  assumes "ors_inv s"
  shows "ors_inv (ors_remove e s)"
proof -
  have "ors_live (ors_remove e s) = {p \<in> ors_live s. fst p \<noteq> e}"
    and "ors_tombstones (ors_remove e s) = ors_tombstones s \<union> {p \<in> ors_live s. fst p = e}"
    using ors_abs_remove [of e s] by (simp_all add: ors_abs_def)
  with assms show ?thesis
    by (auto simp: ors_inv_def) (auto simp: ors_remove_def split: option.splits if_splits)
qed

lemma ors_abs_remove_instance [crdt_abs]:
  "ors_abs (ors_remove_instance e u s) =
     (if (e, u) \<in> ors_live s then (ors_live s - {(e, u)}, insert (e, u) (ors_tombstones s))
      else (ors_live s, ors_tombstones s))"
  by (auto simp: ors_abs_def ors_live_def ors_remove_instance_def Let_def split: option.splits if_splits)

lemma ors_inv_remove_instance [crdt_inv]:
  assumes "ors_inv s"
  shows "ors_inv (ors_remove_instance e u s)"
proof -
  have "ors_live (ors_remove_instance e u s) \<inter> ors_tombstones (ors_remove_instance e u s) = {}"
    using assms ors_abs_remove_instance [of e u s] by (auto simp: ors_abs_def ors_inv_def split: if_splits)
  with assms show ?thesis
    by (auto simp: ors_inv_def ors_remove_instance_def Let_def split: option.splits if_splits)
qed

lemma ors_get_extend:
  "hm_get (ors_extend e us m) k =
     (if k = e then Some (case hm_get m e of None \<Rightarrow> us | Some us' \<Rightarrow> us' \<union> us) else hm_get m k)"
  by (simp add: ors_extend_def ors_entry_or_default_def split: option.splits)

lemma ors_wf_extend: "hm_wf m \<Longrightarrow> hm_wf (ors_extend e us m)"
  by (simp add: ors_extend_def)

lemma ors_get_apply_tombstones:
  assumes "hm_wf (ors_elements_of s)"
  shows "hm_get (ors_elements_of (ors_apply_tombstones s)) e =
    (case hm_get (ors_elements_of s) e of None \<Rightarrow> None
     | Some us \<Rightarrow> (let us' = {u \<in> us. (e, u) \<notin> ors_tombstones s}
                   in if us' = {} then None else Some us'))"
proof -
  let ?m = "map (\<lambda>(elem, uuids). (elem, {uuid \<in> uuids. (elem, uuid) \<notin> ors_tombstones s})) (ors_elements_of s)"
  have wf: "hm_wf ?m" using assms by (simp add: case_prod_beta comp_def)
  have "hm_get ?m e = (case hm_get (ors_elements_of s) e of None \<Rightarrow> None
      | Some us \<Rightarrow> Some {u \<in> us. (e, u) \<notin> ors_tombstones s})"
    by (rule hm_get_map)
  with hm_get_filter [OF wf, of "\<lambda>_ us. us \<noteq> {}" e] show ?thesis
    by (cases "hm_get (ors_elements_of s) e") (simp_all add: ors_apply_tombstones_def Let_def)
qed

lemma ors_live_apply_tombstones:
  assumes "hm_wf (ors_elements_of s)"
  shows "ors_live (ors_apply_tombstones s) = ors_live s - ors_tombstones s"
  using ors_get_apply_tombstones [OF assms]
  by (auto simp: ors_live_def Let_def split: option.splits if_splits)

lemma ors_wf_apply_tombstones:
  "hm_wf (ors_elements_of s) \<Longrightarrow> hm_wf (ors_elements_of (ors_apply_tombstones s))"
  by (simp add: ors_apply_tombstones_def case_prod_beta comp_def)

lemma ors_live_merge:
  assumes "hm_wf (ors_elements_of a)" and "hm_wf (ors_elements_of b)"
  shows "ors_live (ors_merge a b) =
    (ors_live a \<union> ors_live b) - (ors_tombstones a \<union> ors_tombstones b)"
proof -
  let ?ext = "fold (\<lambda>(elem, uuids). ors_extend elem uuids) (ors_elements_of b) (ors_elements_of a)"
  have get: "hm_get ?ext e = (case hm_get (ors_elements_of b) e of
      None \<Rightarrow> hm_get (ors_elements_of a) e
    | Some us \<Rightarrow> Some (case hm_get (ors_elements_of a) e of None \<Rightarrow> us | Some us' \<Rightarrow> us' \<union> us))" for e
    using assms(2) by (intro hm_fold_pointwise [where lookup = map_of, OF _ ors_get_extend])
  have wf: "hm_wf ?ext"
    using assms(1) by (intro fold_keeps [where P = hm_wf]) (auto simp: ors_wf_extend)
  have "ors_live (a\<lparr>ors_elements_of := ?ext, ors_tombstones := T\<rparr>) = ors_live a \<union> ors_live b" for T
    by (auto simp: ors_live_def get split: option.splits)
  then show ?thesis
    by (simp add: ors_merge_def ors_live_apply_tombstones wf)
qed

lemma ors_tombstones_merge [simp]:
  "ors_tombstones (ors_merge a b) = ors_tombstones a \<union> ors_tombstones b"
  by (simp add: ors_merge_def ors_apply_tombstones_def)

lemma ors_abs_merge [crdt_abs]:
  "ors_inv a \<Longrightarrow> ors_inv b \<Longrightarrow> ors_abs (ors_merge a b) = ors_join (ors_abs a) (ors_abs b)"
  by (simp add: ors_abs_def ors_join_def ors_live_merge ors_inv_def)

lemma ors_inv_merge [crdt_inv]:
  assumes "ors_inv a" and "ors_inv b"
  shows "ors_inv (ors_merge a b)"
proof -
  let ?ext = "fold (\<lambda>(elem, uuids). ors_extend elem uuids) (ors_elements_of b) (ors_elements_of a)"
  have wf: "hm_wf ?ext"
    using assms(1) by (intro fold_keeps [where P = hm_wf]) (auto simp: ors_wf_extend ors_inv_def)
  have "hm_wf (ors_elements_of (ors_merge a b))"
    unfolding ors_merge_def by (rule ors_wf_apply_tombstones) (simp add: wf)
  moreover have "us \<noteq> {}" if "hm_get (ors_elements_of (ors_merge a b)) e = Some us" for e us
    using that wf by (auto simp: ors_merge_def ors_get_apply_tombstones Let_def
        split: option.splits if_splits)
  moreover have "ors_live (ors_merge a b) \<inter> ors_tombstones (ors_merge a b) = {}"
    using assms by (auto simp: ors_live_merge ors_inv_def)
  ultimately show ?thesis by (auto simp: ors_inv_def)
qed

interpretation ors: crdt ors_merge ors_inv ors_abs ors_join
proof unfold_locales
  fix a b c :: "('a, 'b) or_set"
  assume inv: "ors_inv a" "ors_inv b" "ors_inv c"
  show "ors_inv (ors_merge a b)" using inv by (simp add: ors_inv_merge)
  show "ors_abs (ors_merge a b) = ors_join (ors_abs a) (ors_abs b)" using inv by (simp add: ors_abs_merge)
  show "ors_join (ors_abs a) (ors_abs b) = ors_join (ors_abs b) (ors_abs a)"
    by (simp add: ors_join_def Un_commute)
  show "ors_join (ors_join (ors_abs a) (ors_abs b)) (ors_abs c) =
      ors_join (ors_abs a) (ors_join (ors_abs b) (ors_abs c))"
    by (auto simp: ors_join_def)
  show "ors_join (ors_abs a) (ors_abs a) = ors_abs a"
    using inv by (auto simp: ors_join_def ors_abs_def ors_inv_def)
qed

lemma ors_get_live:
  assumes "ors_inv s"
  shows "hm_get (ors_elements_of s) e = (let us = {u. (e, u) \<in> ors_live s} in if us = {} then None else Some us)"
  using assms by (cases "hm_get (ors_elements_of s) e") (auto simp: ors_inv_def ors_live_def Let_def)

lemma ors_eq_abs:
  assumes "ors_inv a" "ors_inv b"
  shows "ors_eq a b \<longleftrightarrow> ors_abs a = ors_abs b"
proof
  assume "ors_eq a b"
  with assms show "ors_abs a = ors_abs b"
    by (simp add: ors_eq_def ors_inv_def hm_eq_iff ors_abs_def ors_live_def)
next
  assume eq: "ors_abs a = ors_abs b"
  then have "map_of (ors_elements_of a) = map_of (ors_elements_of b)"
    using ors_get_live [OF assms(1)] ors_get_live [OF assms(2)] by (auto simp: ors_abs_def fun_eq_iff)
  with assms eq show "ors_eq a b"
    by (simp add: ors_eq_def ors_inv_def hm_eq_iff ors_abs_def)
qed

text \<open>
  C17. Replicas converge: replicas of an observed-remove set that have received the same
  states, in any order and with any repetition, are equal under the code's own equality.
\<close>

theorem ors_converges:
  assumes "ors_inv s" "ors_inv t" "\<forall>x\<in>set xs. ors_inv x" "\<forall>y\<in>set ys. ors_inv y"
    and "insert s (set xs) = insert t (set ys)"
  shows "ors_eq (foldl ors_merge s xs) (foldl ors_merge t ys)"
  using ors.converges [OF assms] assms by (simp add: ors_eq_abs ors.inv_foldl)

theorem ors_converges_witness:
  "let a = ors_add ''x'' (1::nat) ors_new; b = ors_remove ''x'' a
   in ors_eq (foldl ors_merge a [b]) (foldl ors_merge b [a, b])"
proof -
  let ?a = "ors_add ''x'' (1::nat) ors_new" and ?b = "ors_remove ''x'' (ors_add ''x'' (1::nat) ors_new)"
  have inv: "ors_inv ?a" "ors_inv ?b"
    by (intro ors_inv_add ors_inv_remove ors_inv_new; simp add: ors_new_def)+
  have "ors_eq (foldl ors_merge ?a [?b]) (foldl ors_merge ?b [?a, ?b])"
    by (rule ors_converges) (use inv in auto)
  then show ?thesis by (simp only: Let_def)
qed

text \<open>
  C14. Add wins: an element added at one replica with an identifier the other replica has not
  tombstoned is present after the merge, even when the other replica removed the element
  concurrently.
\<close>

theorem ors_add_wins:
  assumes "ors_inv a" "ors_inv b" "(e, u) \<notin> ors_tombstones a"
    and fresh: "(e, u) \<notin> ors_live b" "(e, u) \<notin> ors_tombstones b"
  shows "ors_contains (ors_merge (ors_add e u a) (ors_remove e b)) e"
proof -
  have inv: "ors_inv (ors_add e u a)" "ors_inv (ors_remove e b)"
    using assms by (auto intro: ors_inv_add ors_inv_remove)
  have "(e, u) \<in> ors_live (ors_merge (ors_add e u a) (ors_remove e b))"
    using ors_abs_merge [OF inv] assms
    by (simp add: ors_abs_add ors_abs_remove ors_join_def) (simp add: ors_abs_def)
  then show ?thesis using inv by (auto simp: ors_contains_live ors_inv_merge)
qed

theorem ors_add_wins_witness:
  "let b = ors_add ''x'' (1::nat) ors_new
   in ors_contains (ors_merge (ors_add ''x'' 2 b) (ors_remove ''x'' b)) ''x''"
proof -
  let ?b = "ors_add ''x'' (1::nat) ors_new"
  have inv: "ors_inv ?b" by (intro ors_inv_add ors_inv_new) (simp add: ors_new_def)
  have "ors_tombstones ?b = {}" "ors_live ?b = {(''x'', 1)}"
    by (auto simp: ors_add_def ors_new_def ors_live_def ors_entry_or_default_def split: if_splits)
  then show ?thesis unfolding Let_def by (intro ors_add_wins inv) simp_all
qed

text \<open>
  A removal that observed every identifier of an element takes effect at the other
  replica: after the merge the element is gone, and it stays gone however often old states of
  that replica are merged again.
\<close>

theorem ors_observed_remove:
  assumes "ors_inv a" "ors_inv b"
    and observed: "\<forall>u. (e, u) \<in> ors_live a \<longrightarrow> (e, u) \<in> ors_live b \<union> ors_tombstones b"
    and old: "\<forall>x\<in>set xs. x = a \<or> x = b"
  shows "\<not> ors_contains (foldl ors_merge (ors_merge a (ors_remove e b)) xs) e"
proof -
  let ?r = "ors_remove e b"
  have inv: "ors_inv ?r" "ors_inv (ors_merge a ?r)" "\<forall>x\<in>set xs. ors_inv x"
    using assms by (auto intro: ors_inv_remove ors_inv_merge)
  have T: "{p. p \<in> ors_live b \<and> fst p = e} \<union> ors_tombstones b \<subseteq> ors_tombstones ?r"
    using ors_abs_remove [of e b] by (auto simp: ors_abs_def)
  have "fst p = e \<longrightarrow> p \<in> ors_tombstones ?r" if "p \<in> ors_live a \<union> ors_live b" for p
    using that observed T by (cases p) (auto dest!: subsetD)
  then have "\<forall>p \<in> ors_live (foldl ors_merge (ors_merge a ?r) xs) \<union> ors_live a \<union> ors_live b.
      fst p = e \<longrightarrow> p \<in> ors_tombstones (foldl ors_merge (ors_merge a ?r) xs)"
    using old
  proof (induction xs rule: rev_induct)
    case Nil
    then show ?case
      using inv assms(1) ors_abs_remove [of e b]
      by (auto simp: ors_live_merge ors_inv_def ors_abs_def)
  next
    case (snoc x xs)
    let ?f = "foldl ors_merge (ors_merge a ?r) xs"
    have "ors_inv ?f" "ors_inv x"
      using snoc.prems assms inv by (auto intro!: ors.inv_foldl)
    with snoc show ?case by (auto simp: ors_live_merge ors_inv_def)
  qed
  moreover have "ors_inv (foldl ors_merge (ors_merge a ?r) xs)"
    using inv by (auto intro: ors.inv_foldl)
  ultimately show ?thesis
    by (auto simp: ors_contains_live) (auto simp: ors_inv_def)
qed

theorem ors_observed_remove_witness:
  "let a = ors_add ''x'' (1::nat) ors_new
   in \<not> ors_contains (foldl ors_merge (ors_merge a (ors_remove ''x'' a)) [a, a]) ''x''"
proof -
  let ?a = "ors_add ''x'' (1::nat) ors_new"
  have inv: "ors_inv ?a" by (intro ors_inv_add ors_inv_new) (simp add: ors_new_def)
  show ?thesis unfolding Let_def by (rule ors_observed_remove) (use inv in auto)
qed

end
