(* ===== verification/Ajna_Document.thy ===== *)
theory Ajna_Document
  imports Vector_Clock Lww_Map Or_Set
begin

text \<open>
  The replicated DID document: \<open>did/src/ajna/document.rs\<close>, the operation types of
  \<open>did/src/ajna/operation_v2.rs\<close> it applies, and the errors of \<open>did/src/ajna/error.rs\<close>.
  \<open>'u\<close> is the type of uuids and \<open>'j\<close> that of JSON values. Every reading of the clock is
  an argument (\<open>now\<close>, \<open>now'\<close>), every drawn uuid the argument \<open>u\<close>.
\<close>

datatype ajna_error =
    InvalidDid string | DidNotFound string | InvalidOperation string | Serialization string
  | SerializationError string | InvalidSignature string | MergeConflict string
  | InvalidKey string | VectorClock string | MerkleDag string | Agent string
  | Storage string | InvalidBloomFilter string | BundleTooLarge nat nat
  | InvalidBundleId | InsufficientContext | ResolutionFailed string | AnchorNotFinal
  | DeactivatedDID | InvalidReference string | BloomError string

section \<open>Verification methods and services\<close>

definition SLHDSA_2024 :: string where "SLHDSA_2024 = ''SLH-DSA-SHAKE-128s-2024''"
definition MLDSA65_2024 :: string where "MLDSA65_2024 = ''ML-DSA-65-2024''"
definition ED25519_2020 :: string where "ED25519_2020 = ''Ed25519VerificationKey2020''"
definition X25519_2020 :: string where "X25519_2020 = ''X25519KeyAgreementKey2020''"
definition ECDSA_SECP256R1_2019 :: string where
  "ECDSA_SECP256R1_2019 = ''EcdsaSecp256r1VerificationKey2019''"

record verification_method =
  vm_id :: string
  vm_type :: string
  vm_controller :: string
  vm_public_key_multibase :: string
  vm_purpose :: "string list option"

definition vm_new_slhdsa ::
  "string \<Rightarrow> string \<Rightarrow> string \<Rightarrow> string list option \<Rightarrow> verification_method" where
  "vm_new_slhdsa did key_id key purpose =
     \<lparr>vm_id = did @ ''#'' @ key_id, vm_type = SLHDSA_2024, vm_controller = did,
      vm_public_key_multibase = key, vm_purpose = purpose\<rparr>"

definition vm_new_mldsa65 ::
  "string \<Rightarrow> string \<Rightarrow> string \<Rightarrow> string list option \<Rightarrow> verification_method" where
  "vm_new_mldsa65 did key_id key purpose =
     \<lparr>vm_id = did @ ''#'' @ key_id, vm_type = MLDSA65_2024, vm_controller = did,
      vm_public_key_multibase = key, vm_purpose = purpose\<rparr>"

definition vm_is_quantum_resistant :: "verification_method \<Rightarrow> bool" where
  "vm_is_quantum_resistant m \<longleftrightarrow> vm_type m = SLHDSA_2024 \<or> vm_type m = MLDSA65_2024"

definition vm_is_deprecated :: "verification_method \<Rightarrow> bool" where
  "vm_is_deprecated m \<longleftrightarrow>
     vm_type m = ED25519_2020 \<or> vm_type m = X25519_2020 \<or> vm_type m = ECDSA_SECP256R1_2019"

record 'j service =
  svc_id :: string
  svc_type :: string
  svc_endpoint :: string
  svc_properties :: "(string, 'j) hash_map"

definition service_default :: "'j service" where
  "service_default = \<lparr>svc_id = [], svc_type = [], svc_endpoint = [], svc_properties = []\<rparr>"

section \<open>Operations on a document (version 2)\<close>

datatype verification_purpose =
  Authentication | AssertionMethod | KeyAgreement | CapabilityInvocation | CapabilityDelegation

datatype 'j delta =
    VmAdd verification_method
  | VmRemove string
  | RefAdd verification_purpose string
  | RefRemove verification_purpose string
  | ServiceAdd "'j service"
  | ServiceRemove string
  | PropSet string 'j u64
  | ControllerAdd string
  | ControllerRemove string
  | Deactivate "string option"

section \<open>The document\<close>

record blockchain_anchor =
  ba_network :: string
  ba_tx_hash :: string
  ba_block_number :: u64
  ba_timestamp :: timestamp
  ba_merkle_root :: string

record ('u, 'j) ajna_document =
  doc_id :: string
  doc_verification_methods :: "(verification_method, 'u) or_set"
  doc_authentication :: "(string, 'u) or_set option"
  doc_assertion_method :: "(string, 'u) or_set option"
  doc_key_agreement :: "(string, 'u) or_set option"
  doc_capability_invocation :: "(string, 'u) or_set option"
  doc_capability_delegation :: "(string, 'u) or_set option"
  doc_controller :: "(string, 'u) or_set option"
  doc_service :: "(string, 'j service) lww_map option"
  doc_policy :: "(string, 'j) lww_map option"
  doc_deactivated :: "bool option"
  doc_vector_clock :: vector_clock
  doc_created :: timestamp
  doc_updated :: timestamp
  doc_node_id :: string
  doc_blockchain_anchor :: "blockchain_anchor option"

definition doc_new :: "timestamp \<Rightarrow> timestamp \<Rightarrow> string \<Rightarrow> string \<Rightarrow> ('u, 'j) ajna_document" where
  "doc_new now now' did node =
     \<lparr>doc_id = did, doc_verification_methods = ors_new, doc_authentication = None,
      doc_assertion_method = None, doc_key_agreement = None, doc_capability_invocation = None,
      doc_capability_delegation = None, doc_controller = None, doc_service = None,
      doc_policy = None, doc_deactivated = None, doc_vector_clock = vc_new,
      doc_created = now, doc_updated = now', doc_node_id = node, doc_blockchain_anchor = None\<rparr>"

text \<open>
  \<open>uuids i\<close> is the identifier drawn for the \<open>i\<close>-th initial controller and \<open>clock i\<close> the
  clock reading of the \<open>i\<close>-th policy write.
\<close>

definition doc_new_with_genesis ::
  "timestamp \<Rightarrow> timestamp \<Rightarrow> (nat \<Rightarrow> 'u) \<Rightarrow> (nat \<Rightarrow> timestamp) \<Rightarrow> string \<Rightarrow> string \<Rightarrow>
   string list \<Rightarrow> (string \<times> 'j) list \<Rightarrow> ('u, 'j) ajna_document" where
  "doc_new_with_genesis now now' uuids clock did node initial_controllers initial_policy =
     (let doc = doc_new now now' did node;
          doc = (if initial_controllers \<noteq> []
                 then doc\<lparr>doc_controller := Some (fold (\<lambda>(i, c) s. ors_add c (uuids i) s)
                            (enumerate 0 initial_controllers) ors_new)\<rparr>
                 else doc)
      in if initial_policy \<noteq> []
         then doc\<lparr>doc_policy := Some (fold (\<lambda>(i, key, v) m. lww_set (clock i) key v (doc_node_id doc) m)
                     (enumerate 0 initial_policy) lww_new)\<rparr>
         else doc)"

definition doc_add_verification_method ::
  "timestamp \<Rightarrow> 'u \<Rightarrow> verification_method \<Rightarrow> ('u, 'j) ajna_document \<Rightarrow> ('u, 'j) ajna_document" where
  "doc_add_verification_method now u method d =
     d\<lparr>doc_verification_methods := ors_add method u (doc_verification_methods d),
       doc_vector_clock := vc_increment (doc_node_id d) (doc_vector_clock d),
       doc_updated := now\<rparr>"

text \<open>The \<open>for\<close> loop with \<open>break\<close> removes the first method with the given id.\<close>

definition vms_remove_by_id ::
  "string \<Rightarrow> (verification_method, 'u) or_set \<Rightarrow> (verification_method, 'u) or_set" where
  "vms_remove_by_id method_id vms =
     (case find (\<lambda>m. vm_id m = method_id) (ors_elements vms) of
        None \<Rightarrow> vms
      | Some m \<Rightarrow> ors_remove m vms)"

definition doc_remove_verification_method ::
  "timestamp \<Rightarrow> string \<Rightarrow> ('u, 'j) ajna_document \<Rightarrow> ('u, 'j) ajna_document" where
  "doc_remove_verification_method now method_id d =
     d\<lparr>doc_verification_methods := vms_remove_by_id method_id (doc_verification_methods d),
       doc_vector_clock := vc_increment (doc_node_id d) (doc_vector_clock d),
       doc_updated := now\<rparr>"

definition doc_set_service ::
  "timestamp \<Rightarrow> timestamp \<Rightarrow> 'j service \<Rightarrow> ('u, 'j) ajna_document \<Rightarrow> ('u, 'j) ajna_document" where
  "doc_set_service now now' svc d =
     d\<lparr>doc_service := Some (lww_set now (svc_id svc) svc (doc_node_id d) (opt_or_new lww_new (doc_service d))),
       doc_vector_clock := vc_increment (doc_node_id d) (doc_vector_clock d),
       doc_updated := now'\<rparr>"

definition doc_set_service_with_timestamp ::
  "timestamp \<Rightarrow> 'j service \<Rightarrow> timestamp \<Rightarrow> string \<Rightarrow> ('u, 'j) ajna_document \<Rightarrow> ('u, 'j) ajna_document" where
  "doc_set_service_with_timestamp now svc ts node d =
     d\<lparr>doc_service := Some (lww_set_with_timestamp (svc_id svc) svc ts node (opt_or_new lww_new (doc_service d))),
       doc_updated := now\<rparr>"

definition doc_remove_service ::
  "timestamp \<Rightarrow> timestamp \<Rightarrow> string \<Rightarrow> ('u, 'j) ajna_document \<Rightarrow> ('u, 'j) ajna_document" where
  "doc_remove_service now now' service_id d =
     d\<lparr>doc_service := map_option (lww_remove now service_default service_id (doc_node_id d)) (doc_service d),
       doc_vector_clock := vc_increment (doc_node_id d) (doc_vector_clock d),
       doc_updated := now'\<rparr>"

definition doc_remove_service_with_timestamp ::
  "timestamp \<Rightarrow> string \<Rightarrow> timestamp \<Rightarrow> string \<Rightarrow> ('u, 'j) ajna_document \<Rightarrow> ('u, 'j) ajna_document" where
  "doc_remove_service_with_timestamp now service_id ts node d =
     d\<lparr>doc_service := map_option (lww_remove_with_timestamp service_default service_id ts node) (doc_service d),
       doc_updated := now\<rparr>"

definition doc_get_verification_method ::
  "('u, 'j) ajna_document \<Rightarrow> string \<Rightarrow> verification_method option" where
  "doc_get_verification_method d method_id =
     find (\<lambda>m. vm_id m = method_id) (ors_elements (doc_verification_methods d))"

definition doc_get_verification_methods_by_purpose ::
  "('u, 'j) ajna_document \<Rightarrow> string \<Rightarrow> verification_method list" where
  "doc_get_verification_methods_by_purpose d purpose =
     filter (\<lambda>m. case vm_purpose m of None \<Rightarrow> False | Some ps \<Rightarrow> purpose \<in> set ps)
       (ors_elements (doc_verification_methods d))"

definition doc_get_service :: "('u, 'j) ajna_document \<Rightarrow> string \<Rightarrow> 'j service option" where
  "doc_get_service d service_id =
     (case doc_service d of None \<Rightarrow> None | Some m \<Rightarrow> lww_get m service_id)"

definition doc_get_services_by_type :: "('u, 'j) ajna_document \<Rightarrow> string \<Rightarrow> 'j service list" where
  "doc_get_services_by_type d service_type =
     (case doc_service d of None \<Rightarrow> []
      | Some m \<Rightarrow> filter (\<lambda>svc. svc_type svc = service_type) (lww_values m))"

definition anchor_merge ::
  "blockchain_anchor option \<Rightarrow> blockchain_anchor option \<Rightarrow> blockchain_anchor option" where
  "anchor_merge self other =
     (case other of None \<Rightarrow> self
      | Some other_anchor \<Rightarrow>
          (case self of
             Some self_anchor \<Rightarrow>
               if ba_block_number other_anchor > ba_block_number self_anchor
               then Some other_anchor else self
           | None \<Rightarrow> Some other_anchor))"

text \<open>The body of \<open>merge\<close> once the DIDs are known to agree.\<close>

definition doc_merged ::
  "('u, 'j) ajna_document \<Rightarrow> ('u, 'j) ajna_document \<Rightarrow> ('u, 'j) ajna_document" where
  "doc_merged self other =
     self\<lparr>doc_verification_methods :=
            ors_merge (doc_verification_methods self) (doc_verification_methods other),
          doc_service := opt_merge lww_merge lww_new (doc_service self) (doc_service other),
          doc_authentication :=
            opt_merge ors_merge ors_new (doc_authentication self) (doc_authentication other),
          doc_assertion_method :=
            opt_merge ors_merge ors_new (doc_assertion_method self) (doc_assertion_method other),
          doc_key_agreement :=
            opt_merge ors_merge ors_new (doc_key_agreement self) (doc_key_agreement other),
          doc_capability_invocation :=
            opt_merge ors_merge ors_new (doc_capability_invocation self) (doc_capability_invocation other),
          doc_capability_delegation :=
            opt_merge ors_merge ors_new (doc_capability_delegation self) (doc_capability_delegation other),
          doc_controller := opt_merge ors_merge ors_new (doc_controller self) (doc_controller other),
          doc_policy := opt_merge lww_merge lww_new (doc_policy self) (doc_policy other),
          doc_deactivated :=
            (if doc_deactivated other = Some True then Some True else doc_deactivated self),
          doc_vector_clock := vc_merge (doc_vector_clock self) (doc_vector_clock other),
          doc_updated := (if doc_updated other > doc_updated self then doc_updated other else doc_updated self),
          doc_created := (if doc_created other < doc_created self then doc_created other else doc_created self),
          doc_blockchain_anchor :=
            anchor_merge (doc_blockchain_anchor self) (doc_blockchain_anchor other)\<rparr>"

definition doc_merge ::
  "('u, 'j) ajna_document \<Rightarrow> ('u, 'j) ajna_document \<Rightarrow> ajna_error + ('u, 'j) ajna_document" where
  "doc_merge self other =
     (if doc_id self \<noteq> doc_id other
      then Inl (InvalidOperation ''Cannot merge documents with different DIDs'')
      else Inr (doc_merged self other))"

definition doc_add_purpose_ref ::
  "'u \<Rightarrow> verification_purpose \<Rightarrow> string \<Rightarrow> ('u, 'j) ajna_document \<Rightarrow> ('u, 'j) ajna_document" where
  "doc_add_purpose_ref u purpose r d =
     (let add = (\<lambda>s. Some (ors_add r u (opt_or_new ors_new s)))
      in case purpose of
           Authentication \<Rightarrow> d\<lparr>doc_authentication := add (doc_authentication d)\<rparr>
         | AssertionMethod \<Rightarrow> d\<lparr>doc_assertion_method := add (doc_assertion_method d)\<rparr>
         | KeyAgreement \<Rightarrow> d\<lparr>doc_key_agreement := add (doc_key_agreement d)\<rparr>
         | CapabilityInvocation \<Rightarrow> d\<lparr>doc_capability_invocation := add (doc_capability_invocation d)\<rparr>
         | CapabilityDelegation \<Rightarrow> d\<lparr>doc_capability_delegation := add (doc_capability_delegation d)\<rparr>)"

definition doc_remove_purpose_ref ::
  "verification_purpose \<Rightarrow> string \<Rightarrow> ('u, 'j) ajna_document \<Rightarrow> ('u, 'j) ajna_document" where
  "doc_remove_purpose_ref purpose r d =
     (let rem = map_option (ors_remove r)
      in case purpose of
           Authentication \<Rightarrow> d\<lparr>doc_authentication := rem (doc_authentication d)\<rparr>
         | AssertionMethod \<Rightarrow> d\<lparr>doc_assertion_method := rem (doc_assertion_method d)\<rparr>
         | KeyAgreement \<Rightarrow> d\<lparr>doc_key_agreement := rem (doc_key_agreement d)\<rparr>
         | CapabilityInvocation \<Rightarrow> d\<lparr>doc_capability_invocation := rem (doc_capability_invocation d)\<rparr>
         | CapabilityDelegation \<Rightarrow> d\<lparr>doc_capability_delegation := rem (doc_capability_delegation d)\<rparr>)"

text \<open>
  \<open>millis\<close> is chrono's \<open>timestamp_millis_opt\<close>; unwrapping its \<open>None\<close> panics. The cast of
  the Lamport time to \<open>i64\<close> reads the word as two's complement.
\<close>

definition doc_apply_delta_v2 ::
  "(int \<Rightarrow> timestamp option) \<Rightarrow> timestamp \<Rightarrow> timestamp \<Rightarrow> 'u \<Rightarrow> 'j delta \<Rightarrow>
   ('u, 'j) ajna_document \<Rightarrow> ajna_error fault + ('u, 'j) ajna_document" where
  "doc_apply_delta_v2 millis now now' u dl d =
     (let applied =
        (case dl of
           VmAdd entry \<Rightarrow>
             Inr (d\<lparr>doc_verification_methods := ors_add entry u (doc_verification_methods d)\<rparr>)
         | VmRemove method_id \<Rightarrow>
             Inr (d\<lparr>doc_verification_methods := vms_remove_by_id method_id (doc_verification_methods d)\<rparr>)
         | RefAdd purpose r \<Rightarrow> Inr (doc_add_purpose_ref u purpose r d)
         | RefRemove purpose r \<Rightarrow> Inr (doc_remove_purpose_ref purpose r d)
         | ServiceAdd entry \<Rightarrow>
             Inr (d\<lparr>doc_service := Some (lww_set now (svc_id entry) entry (doc_node_id d)
                       (opt_or_new lww_new (doc_service d)))\<rparr>)
         | ServiceRemove sid \<Rightarrow>
             Inr (d\<lparr>doc_service := map_option (lww_remove now service_default sid (doc_node_id d)) (doc_service d)\<rparr>)
         | PropSet key v ts \<Rightarrow>
             (case millis (sint ts) of
                None \<Rightarrow> Inl Panicked
              | Some t \<Rightarrow>
                  Inr (d\<lparr>doc_policy := Some (lww_set_with_timestamp key v t (doc_node_id d)
                            (opt_or_new lww_new (doc_policy d)))\<rparr>))
         | ControllerAdd did \<Rightarrow>
             Inr (d\<lparr>doc_controller := Some (ors_add did u (opt_or_new ors_new (doc_controller d)))\<rparr>)
         | ControllerRemove did \<Rightarrow>
             Inr (d\<lparr>doc_controller := map_option (ors_remove did) (doc_controller d)\<rparr>)
         | Deactivate _ \<Rightarrow> Inr (d\<lparr>doc_deactivated := Some True\<rparr>))
      in case applied of Inl e \<Rightarrow> Inl e | Inr d' \<Rightarrow> Inr (d'\<lparr>doc_updated := now'\<rparr>))"

definition doc_is_deactivated :: "('u, 'j) ajna_document \<Rightarrow> bool" where
  "doc_is_deactivated d = (case doc_deactivated d of None \<Rightarrow> False | Some b \<Rightarrow> b)"

definition doc_get_policy :: "('u, 'j) ajna_document \<Rightarrow> string \<Rightarrow> 'j option" where
  "doc_get_policy d key = (case doc_policy d of None \<Rightarrow> None | Some p \<Rightarrow> lww_get p key)"

text \<open>\<open>as_i64\<close> is the accessor of \<open>serde_json::Value\<close>.\<close>

definition doc_get_policy_int :: "('j \<Rightarrow> int option) \<Rightarrow> ('u, 'j) ajna_document \<Rightarrow> string \<Rightarrow> int option" where
  "doc_get_policy_int as_i64 d key =
     (case doc_get_policy d key of None \<Rightarrow> None | Some v \<Rightarrow> as_i64 v)"

definition doc_is_controller :: "('u, 'j) ajna_document \<Rightarrow> string \<Rightarrow> bool" where
  "doc_is_controller d did = (case doc_controller d of None \<Rightarrow> False | Some c \<Rightarrow> ors_contains c did)"

definition doc_has_updates_since :: "('u, 'j) ajna_document \<Rightarrow> ('u, 'j) ajna_document \<Rightarrow> bool" where
  "doc_has_updates_since self other =
     list_ex (\<lambda>node. vc_get (doc_vector_clock self) node > vc_get (doc_vector_clock other) node)
       (vc_node_ids (doc_vector_clock self))"

definition doc_total_updates :: "('u, 'j) ajna_document \<Rightarrow> u64" where
  "doc_total_updates d = vc_total_events (doc_vector_clock d)"

definition doc_set_blockchain_anchor ::
  "blockchain_anchor \<Rightarrow> ('u, 'j) ajna_document \<Rightarrow> ('u, 'j) ajna_document" where
  "doc_set_blockchain_anchor anchor d = d\<lparr>doc_blockchain_anchor := Some anchor\<rparr>"

definition doc_eq :: "('u, 'j) ajna_document \<Rightarrow> ('u, 'j) ajna_document \<Rightarrow> bool" where
  "doc_eq a b \<longleftrightarrow> doc_id a = doc_id b \<and>
     ors_eq (doc_verification_methods a) (doc_verification_methods b) \<and>
     (case (doc_service a, doc_service b) of
        (None, None) \<Rightarrow> True | (Some m, Some m') \<Rightarrow> lww_eq m m' | _ \<Rightarrow> False) \<and>
     vc_eq (doc_vector_clock a) (doc_vector_clock b)"

section \<open>Invariant and abstraction\<close>

text \<open>
  \<open>W\<close> and \<open>P\<close> are the write histories of the services and of the policy, \<open>A\<close> the
  chain: the anchor at a block number.
\<close>

type_synonym 'v history = "string \<Rightarrow> timestamp \<Rightarrow> string \<Rightarrow> 'v \<times> bool"

definition doc_inv ::
  "string \<Rightarrow> 'j service history \<Rightarrow> 'j history \<Rightarrow> (u64 \<Rightarrow> blockchain_anchor) \<Rightarrow>
   ('u, 'j) ajna_document \<Rightarrow> bool" where
  "doc_inv did W P A d \<longleftrightarrow>
     doc_id d = did \<and> ors_inv (doc_verification_methods d) \<and>
     pred_option ors_inv (doc_authentication d) \<and> pred_option ors_inv (doc_assertion_method d) \<and>
     pred_option ors_inv (doc_key_agreement d) \<and> pred_option ors_inv (doc_capability_invocation d) \<and>
     pred_option ors_inv (doc_capability_delegation d) \<and> pred_option ors_inv (doc_controller d) \<and>
     pred_option (lww_inv W) (doc_service d) \<and> pred_option (lww_inv P) (doc_policy d) \<and>
     True \<and> vc_wf (doc_vector_clock d) \<and> True \<and> True \<and>
     pred_option (\<lambda>a. A (ba_block_number a) = a) (doc_blockchain_anchor d)"

definition doc_abs where
  "doc_abs d =
     (doc_id d, ors_abs (doc_verification_methods d),
      map_option ors_abs (doc_authentication d), map_option ors_abs (doc_assertion_method d),
      map_option ors_abs (doc_key_agreement d), map_option ors_abs (doc_capability_invocation d),
      map_option ors_abs (doc_capability_delegation d), map_option ors_abs (doc_controller d),
      map_option lww_abs (doc_service d), map_option lww_abs (doc_policy d),
      doc_deactivated d = Some True, vc_abs (doc_vector_clock d),
      doc_created d, doc_updated d, doc_blockchain_anchor d)"

definition doc_join where
  "doc_join =
     pair_join (\<lambda>x y. x) (pair_join ors_join
      (pair_join (opt_join ors_join) (pair_join (opt_join ors_join) (pair_join (opt_join ors_join)
      (pair_join (opt_join ors_join) (pair_join (opt_join ors_join) (pair_join (opt_join ors_join)
      (pair_join (opt_join lww_join) (pair_join (opt_join lww_join)
      (pair_join (\<or>) (pair_join vc_join (pair_join min (pair_join max anchor_merge)))))))))))))"

section \<open>The document is a replicated data type\<close>

lemma crdt_opt_ors: "crdt (opt_merge ors_merge ors_new) (pred_option ors_inv) (map_option ors_abs) (opt_join ors_join)"
proof (rule crdt_option [OF ors.crdt_axioms ors_inv_new])
  fix s :: "('a, 'b) or_set"
  assume "ors_inv s"
  then have "ors_live s \<inter> ors_tombstones s = {}" by (simp add: ors_inv_def)
  then show "ors_join (ors_abs ors_new) (ors_abs s) = ors_abs s"
    by (auto simp: ors_abs_new ors_join_def ors_abs_def [of s])
qed

lemma crdt_opt_lww: "crdt (opt_merge lww_merge lww_new) (pred_option (lww_inv W)) (map_option lww_abs) (opt_join lww_join)"
  by (rule crdt_option [OF lww.crdt_axioms])
    (auto simp: lww_inv_def lww_wf_def lww_new_def lww_abs_def lww_join_def fun_eq_iff split: option.splits)

lemma crdt_anchor: "crdt anchor_merge (pred_option (\<lambda>a. A (ba_block_number a) = a)) (\<lambda>x. x) anchor_merge"
proof -
  have inj: "x = y" if "A (ba_block_number x) = x" "A (ba_block_number y) = y"
    "ba_block_number x = ba_block_number y" for x y
    using that by metis
  show ?thesis
    by unfold_locales
      (auto simp: anchor_merge_def not_less dest: inj intro: inj split: option.splits)
qed

lemma crdt_deactivated:
  "crdt (\<lambda>x y. if y = Some True then Some True else x) (\<lambda>_. True) (\<lambda>x. x = Some True) (\<or>)"
  by unfold_locales auto

lemmas doc_field_crdts =
  crdt_field [OF crdt_const, where f = doc_id and M = doc_merged]
  crdt_field [OF ors.crdt_axioms, where f = doc_verification_methods and M = doc_merged]
  crdt_field [OF crdt_opt_ors, where M = doc_merged]
  crdt_field [OF crdt_opt_lww, where M = doc_merged]
  crdt_field [OF crdt_deactivated, where f = doc_deactivated and M = doc_merged]
  crdt_field [OF vc.crdt_axioms, where f = doc_vector_clock and M = doc_merged]
  crdt_field [OF crdt_min, where f = doc_created and M = doc_merged]
  crdt_field [OF crdt_max, where f = doc_updated and M = doc_merged]
  crdt_field [OF crdt_anchor, where f = doc_blockchain_anchor and M = doc_merged]

lemma doc_crdt: "crdt doc_merged (doc_inv did W P A) doc_abs doc_join"
  unfolding doc_inv_def doc_abs_def doc_join_def
  by (intro crdt_both doc_field_crdts) (simp_all add: doc_merged_def)

interpretation doc: crdt doc_merged "doc_inv did W P A" doc_abs doc_join for did W P A
  by (rule doc_crdt)

section \<open>Merging whole documents\<close>

text \<open>A replica that merges a list of received documents, stopping at the first error.\<close>

fun doc_merge_all ::
  "('u, 'j) ajna_document \<Rightarrow> ('u, 'j) ajna_document list \<Rightarrow> ajna_error + ('u, 'j) ajna_document" where
  "doc_merge_all d [] = Inr d"
| "doc_merge_all d (x # xs) = (case doc_merge d x of Inl e \<Rightarrow> Inl e | Inr d' \<Rightarrow> doc_merge_all d' xs)"

text \<open>
  Agreement of two replicas on everything but their own node id: equality of the sets and
  clocks as the code defines it, the same entry for every service and policy key.
\<close>

definition lww_same :: "('k, 'v) lww_map option \<Rightarrow> ('k, 'v) lww_map option \<Rightarrow> bool" where
  "lww_same x y = rel_option lww_eq x y"

definition doc_same :: "('u, 'j) ajna_document \<Rightarrow> ('u, 'j) ajna_document \<Rightarrow> bool" where
  "doc_same a b \<longleftrightarrow> doc_eq a b \<and>
     rel_option ors_eq (doc_authentication a) (doc_authentication b) \<and>
     rel_option ors_eq (doc_assertion_method a) (doc_assertion_method b) \<and>
     rel_option ors_eq (doc_key_agreement a) (doc_key_agreement b) \<and>
     rel_option ors_eq (doc_capability_invocation a) (doc_capability_invocation b) \<and>
     rel_option ors_eq (doc_capability_delegation a) (doc_capability_delegation b) \<and>
     rel_option ors_eq (doc_controller a) (doc_controller b) \<and>
     lww_same (doc_policy a) (doc_policy b) \<and>
     doc_is_deactivated a = doc_is_deactivated b \<and>
     doc_created a = doc_created b \<and> doc_updated a = doc_updated b \<and>
     doc_blockchain_anchor a = doc_blockchain_anchor b"

lemma doc_id_merged [simp]: "doc_id (doc_merged a b) = doc_id a"
  by (simp add: doc_merged_def)

lemma doc_merge_all_foldl:
  "doc_id d = did \<Longrightarrow> \<forall>x\<in>set xs. doc_id x = did \<Longrightarrow> doc_merge_all d xs = Inr (foldl doc_merged d xs)"
  by (induction xs arbitrary: d) (auto simp: doc_merge_def)

lemma ors_eq_option:
  assumes "pred_option ors_inv x" "pred_option ors_inv y" "map_option ors_abs x = map_option ors_abs y"
  shows "rel_option ors_eq x y"
  using assms by (cases x; cases y) (auto simp: ors_eq_abs)

lemma lww_eq_option:
  assumes "pred_option (lww_inv W) x" "pred_option (lww_inv W) y" "map_option lww_abs x = map_option lww_abs y"
  shows "rel_option lww_eq x y"
  using assms by (cases x; cases y) (simp_all add: lww_eq_def lww_inv_def lww_wf_def lww_abs_def hm_eq_iff)

lemma doc_same_abs:
  assumes a: "doc_inv did W P A a" and b: "doc_inv did W P A b" and eq: "doc_abs a = doc_abs b"
  shows "doc_same a b"
proof -
  note inv = a [unfolded doc_inv_def] b [unfolded doc_inv_def]
    and same = eq [unfolded doc_abs_def prod.inject]
  have svc: "rel_option lww_eq (doc_service a) (doc_service b)"
    by (rule lww_eq_option [of W]) (use inv same in simp_all)
  have pol: "rel_option lww_eq (doc_policy a) (doc_policy b)"
    by (rule lww_eq_option [of P]) (use inv same in simp_all)
  have refs: "rel_option ors_eq (doc_authentication a) (doc_authentication b)"
    "rel_option ors_eq (doc_assertion_method a) (doc_assertion_method b)"
    "rel_option ors_eq (doc_key_agreement a) (doc_key_agreement b)"
    "rel_option ors_eq (doc_capability_invocation a) (doc_capability_invocation b)"
    "rel_option ors_eq (doc_capability_delegation a) (doc_capability_delegation b)"
    "rel_option ors_eq (doc_controller a) (doc_controller b)"
    by (rule ors_eq_option; use inv same in simp)+
  have vms: "ors_eq (doc_verification_methods a) (doc_verification_methods b)"
    using inv same by (simp add: ors_eq_abs)
  have clock: "vc_eq (doc_vector_clock a) (doc_vector_clock b)"
    using inv same by (simp add: vc_eq_def vc_wf_def vc_abs_def hm_eq_iff)
  have deact: "doc_is_deactivated a = doc_is_deactivated b"
    using same unfolding doc_is_deactivated_def
    by (cases "doc_deactivated a"; cases "doc_deactivated b") auto
  have "doc_eq a b"
    using vms clock svc same by (cases "doc_service a"; cases "doc_service b") (simp_all add: doc_eq_def)
  then show ?thesis
    using refs pol deact same by (simp add: doc_same_def lww_same_def)
qed

text \<open>
  \<open>doc_wf\<close> is what the data structures need of a document on its own. Two documents agree on their
  writes when they are of one DID, a key, a timestamp and a node determine the write to a service or
  policy, and a block number determines the anchor.
\<close>

definition doc_refs :: "('u, 'j) ajna_document \<Rightarrow> (string, 'u) or_set option list" where
  "doc_refs d = [doc_authentication d, doc_assertion_method d, doc_key_agreement d,
     doc_capability_invocation d, doc_capability_delegation d, doc_controller d]"

definition doc_wf :: "('u, 'j) ajna_document \<Rightarrow> bool" where
  "doc_wf d \<longleftrightarrow> ors_inv (doc_verification_methods d) \<and> list_all (pred_option ors_inv) (doc_refs d) \<and>
     pred_option lww_wf (doc_service d) \<and> pred_option lww_wf (doc_policy d) \<and>
     vc_wf (doc_vector_clock d)"

definition doc_agree :: "('u, 'j) ajna_document \<Rightarrow> ('u, 'j) ajna_document \<Rightarrow> bool" where
  "doc_agree a b \<longleftrightarrow> doc_id a = doc_id b \<and>
     (\<forall>m m'. doc_service a = Some m \<longrightarrow> doc_service b = Some m' \<longrightarrow> lww_agree m m') \<and>
     (\<forall>m m'. doc_policy a = Some m \<longrightarrow> doc_policy b = Some m' \<longrightarrow> lww_agree m m') \<and>
     (\<forall>x y. doc_blockchain_anchor a = Some x \<longrightarrow> doc_blockchain_anchor b = Some y \<longrightarrow> ba_block_number x = ba_block_number y \<longrightarrow> x = y)"

lemma maps_common_history:
  assumes "\<forall>d\<in>S. pred_option lww_wf (f d)" and "\<forall>d\<in>S. \<forall>d'\<in>S. \<forall>m m'. f d = Some m \<longrightarrow> f d' = Some m' \<longrightarrow> lww_agree m m'"
  obtains W where "\<forall>d\<in>S. pred_option (lww_inv W) (f d)"
proof -
  have "\<forall>m\<in>{m. \<exists>d\<in>S. f d = Some m}. lww_wf m" using assms(1) by (auto simp: pred_option_def)
  moreover have "\<forall>m\<in>{m. \<exists>d\<in>S. f d = Some m}. \<forall>m'\<in>{m. \<exists>d\<in>S. f d = Some m}. lww_agree m m'" using assms(2) by blast
  ultimately obtain W where "\<forall>m\<in>{m. \<exists>d\<in>S. f d = Some m}. lww_inv W m" by (rule lww_common_history)
  then show ?thesis using that [of W] by (auto simp: pred_option_def)
qed

lemma common_chain:
  assumes "\<forall>d\<in>S. \<forall>d'\<in>S. \<forall>x y. doc_blockchain_anchor d = Some x \<longrightarrow> doc_blockchain_anchor d' = Some y \<longrightarrow>
    ba_block_number x = ba_block_number y \<longrightarrow> x = y"
  obtains A where "\<forall>d\<in>S. pred_option (\<lambda>a. A (ba_block_number a) = a) (doc_blockchain_anchor d)"
proof -
  define at where "at n a \<longleftrightarrow> (\<exists>d\<in>S. doc_blockchain_anchor d = Some a \<and> ba_block_number a = n)" for n a
  have "(SOME b. at (ba_block_number a) b) = a" if "d \<in> S" "doc_blockchain_anchor d = Some a" for d a
  proof (rule some_equality)
    show "at (ba_block_number a) a" using that by (auto simp: at_def)
    show "b = a" if "at (ba_block_number a) b" for b using that assms \<open>d \<in> S\<close> \<open>doc_blockchain_anchor d = Some a\<close> unfolding at_def by metis
  qed
  then show ?thesis using that [of "\<lambda>n. SOME b. at n b"] by (auto simp: pred_option_def)
qed

lemma doc_common_inv:
  assumes wf: "\<forall>d\<in>S. doc_wf d" and agree: "\<forall>d\<in>S. \<forall>d'\<in>S. doc_agree d d'" and s: "s \<in> S"
  obtains W P A where "\<forall>d\<in>S. doc_inv (doc_id s) W P A d"
proof -
  have maps: "\<forall>d\<in>S. pred_option lww_wf (doc_service d)" "\<forall>d\<in>S. pred_option lww_wf (doc_policy d)" using wf by (simp_all add: doc_wf_def)
  have svc: "\<forall>d\<in>S. \<forall>d'\<in>S. \<forall>m m'. doc_service d = Some m \<longrightarrow> doc_service d' = Some m' \<longrightarrow> lww_agree m m'"
    and pol: "\<forall>d\<in>S. \<forall>d'\<in>S. \<forall>m m'. doc_policy d = Some m \<longrightarrow> doc_policy d' = Some m' \<longrightarrow> lww_agree m m'"
    and anc: "\<forall>d\<in>S. \<forall>d'\<in>S. \<forall>x y. doc_blockchain_anchor d = Some x \<longrightarrow> doc_blockchain_anchor d' = Some y \<longrightarrow>
        ba_block_number x = ba_block_number y \<longrightarrow> x = y"
    using agree unfolding doc_agree_def by blast+
  obtain W where W: "\<forall>d\<in>S. pred_option (lww_inv W) (doc_service d)" by (rule maps_common_history [OF maps(1) svc])
  obtain P where P: "\<forall>d\<in>S. pred_option (lww_inv P) (doc_policy d)" by (rule maps_common_history [OF maps(2) pol])
  obtain A where A: "\<forall>d\<in>S. pred_option (\<lambda>a. A (ba_block_number a) = a) (doc_blockchain_anchor d)" by (rule common_chain [OF anc])
  have "doc_inv (doc_id s) W P A d" if d: "d \<in> S" for d
  proof -
    have "doc_id d = doc_id s" "doc_wf d" using wf agree s d unfolding doc_agree_def by blast+
    then show ?thesis using W P A d by (simp add: doc_inv_def doc_wf_def doc_refs_def)
  qed
  then show ?thesis using that by blast
qed

text \<open>
  C1. Replicas of a DID document converge: two replicas that merged the same documents of one DID,
  in any order and with repetitions, succeed and agree on verification methods, purposes,
  controllers, services, policy, deactivation, clock, dates and anchor, provided that among those
  documents a key, timestamp and node determine a service or policy write and a block number the
  anchor.
\<close>

theorem doc_converges:
  assumes "\<forall>x\<in>insert s (set xs). doc_wf x" and "\<forall>x\<in>insert s (set xs). \<forall>y\<in>insert s (set xs). doc_agree x y"
    and same: "insert s (set xs) = insert t (set ys)"
  shows "\<exists>d d'. doc_merge_all s xs = Inr d \<and> doc_merge_all t ys = Inr d' \<and> doc_same d d'"
proof -
  obtain W P A where I: "\<forall>x\<in>insert s (set xs). doc_inv (doc_id s) W P A x"
    by (rule doc_common_inv [OF assms(1,2), of s]) auto
  then have "\<forall>x\<in>insert t (set ys). doc_inv (doc_id s) W P A x" by (simp only: same)
  with I have i: "doc_inv (doc_id s) W P A s" "doc_inv (doc_id s) W P A t"
      "\<forall>x\<in>set xs. doc_inv (doc_id s) W P A x" "\<forall>y\<in>set ys. doc_inv (doc_id s) W P A y" by simp_all
  let ?d = "foldl doc_merged s xs" and ?d' = "foldl doc_merged t ys"
  have "doc_merge_all s xs = Inr ?d" "doc_merge_all t ys = Inr ?d'"
    using i by (auto intro!: doc_merge_all_foldl simp: doc_inv_def)
  moreover have "doc_same ?d ?d'"
    by (rule doc_same_abs [OF doc.inv_foldl [OF i(1,3)] doc.inv_foldl [OF i(2,4)] doc.converges [OF i same]])
  ultimately show ?thesis by blast
qed

theorem doc_converges_witness:
  "let a = doc_add_verification_method 3 (1::nat) (vm_new_slhdsa ''did:x'' ''k'' ''z'' None) (doc_new 1 1 ''did:x'' ''n1'');
       b = doc_set_blockchain_anchor \<lparr>ba_network = [], ba_tx_hash = [], ba_block_number = 7, ba_timestamp = 0, ba_merkle_root = []\<rparr>
             (doc_new 2 2 ''did:x'' ''n2'') :: (nat, nat) ajna_document
   in \<exists>d d'. doc_merge_all a [b, a] = Inr d \<and> doc_merge_all b [a] = Inr d' \<and> doc_same d d'"
proof -
  let ?an = "\<lparr>ba_network = [], ba_tx_hash = [], ba_block_number = 7, ba_timestamp = 0, ba_merkle_root = []\<rparr>"
  let ?a = "doc_add_verification_method 3 (1::nat) (vm_new_slhdsa ''did:x'' ''k'' ''z'' None) (doc_new 1 1 ''did:x'' ''n1'') :: (nat, nat) ajna_document"
  let ?b = "doc_set_blockchain_anchor ?an (doc_new 2 2 ''did:x'' ''n2'') :: (nat, nat) ajna_document"
  have tomb: "ors_tombstones (ors_new :: (verification_method, nat) or_set) = {}" by (simp add: ors_new_def)
  have "doc_wf ?a"
    by (simp add: doc_wf_def doc_refs_def doc_add_verification_method_def doc_new_def ors_inv_add ors_inv_new tomb vc_wf_increment vc_wf_new)
  moreover have "doc_wf ?b"
    by (simp add: doc_wf_def doc_refs_def doc_set_blockchain_anchor_def doc_new_def ors_inv_new vc_wf_new)
  moreover have "doc_agree ?a ?a" "doc_agree ?a ?b" "doc_agree ?b ?a" "doc_agree ?b ?b"
    by (simp_all add: doc_agree_def doc_add_verification_method_def doc_set_blockchain_anchor_def doc_new_def)
  ultimately have "\<exists>d d'. doc_merge_all ?a [?b, ?a] = Inr d \<and> doc_merge_all ?b [?a] = Inr d' \<and> doc_same d d'"
    by (intro doc_converges) auto
  then show ?thesis unfolding Let_def by simp
qed

text \<open>
  Anchors of one block number are not merged: each replica keeps its own. The anchoring service
  makes its block numbers up, the same ones on every node.
\<close>

lemma equal_block_anchors_diverge:
  assumes "doc_blockchain_anchor a = Some x" "doc_blockchain_anchor b = Some y" "ba_block_number x = ba_block_number y" "doc_id a = doc_id b"
  shows "\<exists>d d'. doc_merge a b = Inr d \<and> doc_merge b a = Inr d' \<and> doc_blockchain_anchor d = Some x \<and> doc_blockchain_anchor d' = Some y"
  using assms by (simp add: doc_merge_def doc_merged_def anchor_merge_def)

section \<open>The life of a replica\<close>

text \<open>
  A drawn uuid is fresh when no set of the document holds it as a tombstone.
\<close>

definition doc_fresh :: "'u \<Rightarrow> ('u, 'j) ajna_document \<Rightarrow> bool" where
  "doc_fresh u d \<longleftrightarrow> u \<notin> snd ` ors_tombstones (doc_verification_methods d) \<and>
     list_all (pred_option (\<lambda>s. u \<notin> snd ` ors_tombstones s)) (doc_refs d)"

inductive doc_step ::
  "(int \<Rightarrow> timestamp option) \<Rightarrow> ('u, 'j) ajna_document \<Rightarrow> ('u, 'j) ajna_document \<Rightarrow> bool"
  for millis where
  add_vm: "doc_fresh u d \<Longrightarrow> doc_step millis d (doc_add_verification_method now u method d)"
| remove_vm: "doc_step millis d (doc_remove_verification_method now method_id d)"
| set_svc: "doc_step millis d (doc_set_service now now' svc d)"
| set_svc_ts: "doc_step millis d (doc_set_service_with_timestamp now svc ts node d)"
| remove_svc: "doc_step millis d (doc_remove_service now now' service_id d)"
| remove_svc_ts: "doc_step millis d (doc_remove_service_with_timestamp now service_id ts node d)"
| delta: "doc_fresh u d \<Longrightarrow> doc_apply_delta_v2 millis now now' u dl d = Inr d' \<Longrightarrow> doc_step millis d d'"
| merge: "doc_wf other \<Longrightarrow> doc_merge d other = Inr d' \<Longrightarrow> doc_step millis d d'"
| anchor: "doc_step millis d (doc_set_blockchain_anchor a d)"

lemma ors_inv_add_fresh: "ors_inv s \<Longrightarrow> u \<notin> snd ` ors_tombstones s \<Longrightarrow> ors_inv (ors_add e u s)"
  by (rule ors_inv_add) force+

lemma pred_option_add:
  "pred_option ors_inv s \<Longrightarrow> pred_option (\<lambda>s. u \<notin> snd ` ors_tombstones s) s \<Longrightarrow>
     ors_inv (ors_add e u (opt_or_new ors_new s))"
  by (cases s) (auto simp: opt_or_new_def ors_inv_new intro!: ors_inv_add_fresh, simp add: ors_new_def)

lemma pred_option_remove: "pred_option ors_inv s \<Longrightarrow> pred_option ors_inv (map_option (ors_remove e) s)"
  by (cases s) (simp_all add: ors_inv_remove)

lemma pred_option_lww:
  "pred_option lww_wf s \<Longrightarrow> lww_wf (opt_or_new lww_new s)"
  by (cases s) (simp_all add: opt_or_new_def lww_wf_new)

lemma pred_option_map: "(\<And>x. p x \<Longrightarrow> q (f x)) \<Longrightarrow> pred_option p s \<Longrightarrow> pred_option q (map_option f s)"
  by (cases s) simp_all

lemma pred_option_merge:
  assumes "\<And>a b. p a \<Longrightarrow> p b \<Longrightarrow> p (mrg a b)" and "p new" and "pred_option p x" "pred_option p y"
  shows "pred_option p (opt_merge mrg new x y)"
  using assms by (cases x; cases y) (simp_all add: opt_merge_def opt_or_new_def)

lemma vms_remove_by_id_inv: "ors_inv s \<Longrightarrow> ors_inv (vms_remove_by_id i s)"
  by (simp add: vms_remove_by_id_def ors_inv_remove split: option.splits)

lemmas doc_wf_simps = doc_wf_def doc_refs_def doc_fresh_def pred_option_add pred_option_remove
  pred_option_lww lww_wf_set lww_wf_set_with_timestamp lww_wf_remove lww_wf_remove_with_timestamp
  vms_remove_by_id_inv ors_inv_add_fresh vc_wf_increment

lemma doc_wf_merged: "doc_wf a \<Longrightarrow> doc_wf b \<Longrightarrow> doc_wf (doc_merged a b)"
  by (simp add: doc_wf_def doc_refs_def doc_merged_def ors_inv_merge vc_wf_merge ors_inv_new lww_wf_new
      pred_option_merge [where p = ors_inv, OF ors_inv_merge] pred_option_merge [where p = lww_wf, OF lww_wf_merge])

lemma doc_wf_add_purpose_ref: "doc_wf d \<Longrightarrow> doc_fresh u d \<Longrightarrow> doc_wf (doc_add_purpose_ref u p r d)"
  by (cases p) (simp_all add: doc_add_purpose_ref_def doc_wf_simps)

lemma doc_wf_remove_purpose_ref: "doc_wf d \<Longrightarrow> doc_wf (doc_remove_purpose_ref p r d)"
  by (cases p) (simp_all add: doc_remove_purpose_ref_def doc_wf_simps)

lemma doc_wf_updated [simp]: "doc_wf (d\<lparr>doc_updated := t\<rparr>) = doc_wf d"
  by (simp add: doc_wf_def doc_refs_def)

lemma doc_wf_vm_fields:
  "doc_wf d \<Longrightarrow> doc_fresh u d \<Longrightarrow>
     doc_wf (d\<lparr>doc_verification_methods := ors_add entry u (doc_verification_methods d)\<rparr>)"
  "doc_wf d \<Longrightarrow> doc_wf (d\<lparr>doc_verification_methods := vms_remove_by_id i (doc_verification_methods d)\<rparr>)"
  by (simp_all add: doc_wf_simps)

lemma doc_wf_other_fields:
  "doc_wf d \<Longrightarrow> doc_fresh u d \<Longrightarrow>
     doc_wf (d\<lparr>doc_controller := Some (ors_add c u (opt_or_new ors_new (doc_controller d)))\<rparr>)"
  "doc_wf d \<Longrightarrow> doc_wf (d\<lparr>doc_controller := map_option (ors_remove c) (doc_controller d)\<rparr>)"
  "doc_wf d \<Longrightarrow> doc_wf (d\<lparr>doc_service := Some (lww_set t k svc n (opt_or_new lww_new (doc_service d)))\<rparr>)"
  "doc_wf d \<Longrightarrow> doc_wf (d\<lparr>doc_deactivated := b\<rparr>)"
  by (simp_all add: doc_wf_simps)

lemmas doc_delta_wf = doc_wf_add_purpose_ref doc_wf_remove_purpose_ref doc_wf_vm_fields doc_wf_other_fields

lemma doc_wf_delta:
  assumes "doc_wf d" "doc_fresh u d" "doc_apply_delta_v2 millis now now' u dl d = Inr d'"
  shows "doc_wf d'"
proof (cases dl)
  case (PropSet key v ts)
  with assms show ?thesis
    by (cases "millis (sint ts)")
      (simp add: doc_apply_delta_v2_def, clarsimp simp: doc_apply_delta_v2_def doc_wf_simps)
next
  case (ServiceRemove sid)
  have "pred_option lww_wf (map_option (lww_remove now service_default sid (doc_node_id d)) (doc_service d))"
    using assms(1) by (intro pred_option_map [where p = lww_wf] lww_wf_remove) (simp_all add: doc_wf_def)
  with ServiceRemove assms show ?thesis by (clarsimp simp: doc_apply_delta_v2_def doc_wf_simps)
qed (use assms in \<open>auto simp: doc_apply_delta_v2_def doc_delta_wf\<close>)

lemma doc_delta_frame:
  assumes "doc_apply_delta_v2 millis now now' u dl d = Inr d'"
  shows "doc_id d' = doc_id d \<and> doc_node_id d' = doc_node_id d \<and> doc_created d' = doc_created d \<and>
    doc_vector_clock d' = doc_vector_clock d \<and> doc_blockchain_anchor d' = doc_blockchain_anchor d \<and>
    (doc_is_deactivated d' \<longleftrightarrow> doc_is_deactivated d \<or> (\<exists>r. dl = Deactivate r))"
proof (cases dl)
  case (RefAdd p r)
  with assms show ?thesis
    by (cases p) (auto simp: doc_apply_delta_v2_def doc_add_purpose_ref_def doc_is_deactivated_def)
next
  case (RefRemove p r)
  with assms show ?thesis
    by (cases p) (auto simp: doc_apply_delta_v2_def doc_remove_purpose_ref_def doc_is_deactivated_def)
next
  case (PropSet key v ts)
  with assms show ?thesis
    by (cases "millis (sint ts)") (auto simp: doc_apply_delta_v2_def doc_is_deactivated_def)
qed (use assms in \<open>auto simp: doc_apply_delta_v2_def doc_is_deactivated_def\<close>)

lemma pred_option_lww_remove:
  "doc_wf d \<Longrightarrow> pred_option lww_wf (map_option (lww_remove now dflt k n) (doc_service d))"
  "doc_wf d \<Longrightarrow> pred_option lww_wf (map_option (lww_remove_with_timestamp dflt k now n) (doc_service d))"
  by (auto simp: doc_wf_def intro!: pred_option_map [where p = lww_wf] lww_wf_remove lww_wf_remove_with_timestamp)

lemmas doc_op_defs = doc_add_verification_method_def doc_remove_verification_method_def doc_set_service_def
  doc_set_service_with_timestamp_def doc_remove_service_def doc_remove_service_with_timestamp_def
  doc_set_blockchain_anchor_def

lemma doc_step_wf: "doc_step millis d d' \<Longrightarrow> doc_wf d \<Longrightarrow> doc_wf d'"
proof (induction rule: doc_step.induct)
  case (delta u d now now' dl d')
  then show ?case by (blast intro: doc_wf_delta)
next
  case (merge other d d')
  then show ?case by (auto simp: doc_merge_def doc_wf_merged split: if_splits)
next
  case (remove_svc d now now' service_id)
  from pred_option_lww_remove(1) [OF this] this show ?case by (simp add: doc_op_defs doc_wf_simps)
next
  case (remove_svc_ts d now service_id ts node)
  from pred_option_lww_remove(2) [OF this] this show ?case by (simp add: doc_op_defs doc_wf_simps)
qed (simp_all add: doc_op_defs doc_wf_simps)

lemma doc_step_frame:
  "doc_step millis d d' \<Longrightarrow> doc_id d' = doc_id d \<and> doc_node_id d' = doc_node_id d \<and>
     doc_created d' \<le> doc_created d \<and> (doc_is_deactivated d \<longrightarrow> doc_is_deactivated d')"
proof (induction rule: doc_step.induct)
  case (delta u d now now' dl d')
  from doc_delta_frame [OF this(2)] show ?case by simp
next
  case (merge other d d')
  then show ?case by (auto simp: doc_merge_def doc_merged_def doc_is_deactivated_def split: if_splits)
qed (simp_all add: doc_op_defs doc_is_deactivated_def)

text \<open>
  C18. Over any sequence of local operations, applied deltas and merges, drawing fresh uuids, a
  replica stays well formed and keeps its DID and node id; its creation date never moves
  forward, and once deactivated it stays deactivated.
\<close>

theorem doc_lifecycle:
  assumes "(doc_step millis)\<^sup>*\<^sup>* d d'" and "doc_wf d"
  shows "doc_wf d' \<and> doc_id d' = doc_id d \<and> doc_node_id d' = doc_node_id d \<and>
    doc_created d' \<le> doc_created d \<and> (doc_is_deactivated d \<longrightarrow> doc_is_deactivated d')"
  using assms
proof (induction rule: rtranclp_induct)
  case base
  then show ?case by simp
next
  case (step y z)
  with doc_step_wf [OF step.hyps(2)] doc_step_frame [OF step.hyps(2)] show ?case by auto
qed

theorem doc_lifecycle_witness:
  "let d = (doc_new 5 5 ''did:x'' ''n1'')\<lparr>doc_deactivated := Some True\<rparr> :: (nat, nat) ajna_document;
       d' = doc_merged (doc_add_verification_method 6 1 (vm_new_slhdsa ''did:x'' ''k'' ''z'' None) d)
              (doc_new 3 3 ''did:x'' ''n2'')
   in doc_wf d' \<and> doc_created d' \<le> 5 \<and> doc_is_deactivated d'"
proof -
  let ?d = "(doc_new 5 5 ''did:x'' ''n1'')\<lparr>doc_deactivated := Some True\<rparr> :: (nat, nat) ajna_document"
  let ?e = "doc_add_verification_method 6 1 (vm_new_slhdsa ''did:x'' ''k'' ''z'' None) ?d"
  let ?o = "doc_new 3 3 ''did:x'' ''n2'' :: (nat, nat) ajna_document"
  note new = doc_wf_def doc_refs_def doc_new_def ors_inv_new vc_wf_new
  have wf: "doc_wf ?d" "doc_wf ?o" by (simp_all add: new)
  have "doc_step Some ?d ?e" by (rule doc_step.add_vm) (simp add: doc_fresh_def new ors_new_def)
  moreover have "doc_step Some ?e (doc_merged ?e ?o)"
    by (rule doc_step.merge [OF wf(2)]) (simp add: doc_merge_def doc_add_verification_method_def doc_new_def)
  ultimately have "(doc_step Some)\<^sup>*\<^sup>* ?d (doc_merged ?e ?o)" by (meson converse_rtranclp_into_rtranclp r_into_rtranclp)
  from doc_lifecycle [OF this wf(1)] show ?thesis
    unfolding Let_def by (simp add: doc_new_def doc_is_deactivated_def)
qed

text \<open>
  \<open>has_updates_since\<close> answers whether some node's counter is ahead, and no document has
  updates that a replica which merged it lacks.
\<close>

theorem doc_has_updates_since_correct:
  assumes "doc_wf a" and "doc_wf b"
  shows "(doc_has_updates_since a b \<longleftrightarrow> (\<exists>n. vc_get (doc_vector_clock b) n < vc_get (doc_vector_clock a) n)) \<and>
    \<not> doc_has_updates_since a (doc_merged b a) \<and> \<not> doc_has_updates_since b (doc_merged b a)"
proof -
  have ahead: "doc_has_updates_since x y \<longleftrightarrow> (\<exists>n. vc_get (doc_vector_clock y) n < vc_get (doc_vector_clock x) n)"
    for x y :: "('u, 'j) ajna_document"
    by (auto simp: doc_has_updates_since_def list_ex_iff vc_node_ids_def vc_get_def [of "doc_vector_clock x"]
        dest: map_of_SomeD split: option.splits)
      (metis (no_types, lifting) fst_conv image_eqI map_of_SomeD option.case(2) option.inject)+
  have "vc_get (doc_vector_clock (doc_merged b a)) n = max (vc_get (doc_vector_clock b) n) (vc_get (doc_vector_clock a) n)" for n
    using assms by (simp add: doc_merged_def doc_wf_def vc_get_merge)
  then show ?thesis by (simp add: ahead not_less)
qed

theorem doc_has_updates_since_correct_witness:
  "let a = doc_add_verification_method 3 (1::nat) (vm_new_slhdsa ''did:x'' ''k'' ''z'' None) (doc_new 1 1 ''did:x'' ''n1'');
       b = doc_new 2 2 ''did:x'' ''n2'' :: (nat, nat) ajna_document
   in doc_has_updates_since a b \<and> \<not> doc_has_updates_since a (doc_merged b a)"
proof -
  let ?a = "doc_add_verification_method 3 (1::nat) (vm_new_slhdsa ''did:x'' ''k'' ''z'' None) (doc_new 1 1 ''did:x'' ''n1'') :: (nat, nat) ajna_document"
  let ?b = "doc_new 2 2 ''did:x'' ''n2'' :: (nat, nat) ajna_document"
  note new = doc_wf_def doc_refs_def doc_new_def ors_inv_new vc_wf_new
  have "doc_wf ?b" by (simp add: new)
  moreover have "doc_wf ?a"
    by (simp add: new doc_add_verification_method_def vc_wf_increment ors_inv_add) (simp add: ors_inv_add ors_new_def ors_inv_new [unfolded ors_new_def])
  moreover have "vc_get (doc_vector_clock ?b) ''n1'' < vc_get (doc_vector_clock ?a) ''n1''"
    by (simp add: doc_add_verification_method_def doc_new_def vc_get_increment) (simp add: vc_get_def vc_new_def)
  ultimately show ?thesis using doc_has_updates_since_correct [of ?a ?b] unfolding Let_def by blast
qed

end
