(* ===== verification/Byte_Codec.thy ===== *)
theory Byte_Codec
  imports Idiom_Prelude
begin

text \<open>
  Bytes, as the standard library reads and writes them: the bytes of a string, UTF-8 validation
  (\<open>str::from_utf8\<close>), and the big-endian encodings \<open>to_be_bytes\<close> and \<open>from_be_bytes\<close>.
\<close>

section \<open>Strings\<close>

definition str_bytes :: "string \<Rightarrow> bytes" where
  "str_bytes s = map of_char s"

definition bytes_str :: "bytes \<Rightarrow> string" where
  "bytes_str bs = map (\<lambda>b. char_of (unat b)) bs"

lemma str_bytes_simps [simp]:
  "str_bytes [] = []" "str_bytes (c # s) = of_char c # str_bytes s" "length (str_bytes s) = length s"
  "str_bytes (s @ t) = str_bytes s @ str_bytes t"
  by (simp_all add: str_bytes_def)

lemma of_char_char_of_byte [simp]: "of_char (char_of (unat (b :: byte))) = b"
proof -
  have "(of_nat (of_char (char_of (unat b)) :: nat) :: byte) = of_nat (unat b mod 256)"
    by (rule arg_cong [OF of_char_of])
  moreover have "unat b mod 256 = unat b" using unsigned_less [of b, where ?'a = nat] by simp
  ultimately show ?thesis by (metis of_nat_of_char of_nat_unat ucast_id)
qed

lemma str_bytes_bytes_str [simp]: "str_bytes (bytes_str bs) = bs"
  by (simp add: str_bytes_def bytes_str_def comp_def)

lemma unat_of_char: "unat (of_char c :: byte) = of_char c"
proof -
  have "(of_char c :: nat) < 256" by (metis nat_of_char_less_256)
  then have "unat (of_nat (of_char c :: nat) :: byte) = of_char c"
    by (simp only: unsigned_of_nat take_bit_eq_mod) simp
  then show ?thesis by (simp add: of_nat_of_char)
qed

lemma bytes_str_str_bytes [simp]: "bytes_str (str_bytes s) = s"
  by (simp add: str_bytes_def bytes_str_def comp_def unat_of_char)

lemma str_bytes_inj [simp]: "str_bytes s = str_bytes t \<longleftrightarrow> s = t"
  by (metis bytes_str_str_bytes)

text \<open>The well-formed byte sequences of the Unicode standard, as \<open>str::from_utf8\<close> accepts them.\<close>

definition utf8_cont :: "byte \<Rightarrow> bool" where
  "utf8_cont b \<longleftrightarrow> 0x80 \<le> b \<and> b \<le> 0xBF"

fun utf8_valid :: "bytes \<Rightarrow> bool" where
  "utf8_valid [] = True"
| "utf8_valid (b # bs) =
     (if b < 0x80 then utf8_valid bs
      else if 0xC2 \<le> b \<and> b \<le> 0xDF then
        (case bs of c1 # r \<Rightarrow> utf8_cont c1 \<and> utf8_valid r | _ \<Rightarrow> False)
      else if 0xE0 \<le> b \<and> b \<le> 0xEF then
        (case bs of c1 # c2 # r \<Rightarrow>
             (if b = 0xE0 then 0xA0 \<le> c1 \<and> c1 \<le> 0xBF
              else if b = 0xED then 0x80 \<le> c1 \<and> c1 \<le> 0x9F else utf8_cont c1) \<and>
             utf8_cont c2 \<and> utf8_valid r
         | _ \<Rightarrow> False)
      else if 0xF0 \<le> b \<and> b \<le> 0xF4 then
        (case bs of c1 # c2 # c3 # r \<Rightarrow>
             (if b = 0xF0 then 0x90 \<le> c1 \<and> c1 \<le> 0xBF
              else if b = 0xF4 then 0x80 \<le> c1 \<and> c1 \<le> 0x8F else utf8_cont c1) \<and>
             utf8_cont c2 \<and> utf8_cont c3 \<and> utf8_valid r
         | _ \<Rightarrow> False)
      else False)"

declare utf8_valid.simps(2) [simp del]

definition from_utf8 :: "bytes \<Rightarrow> string option" where
  "from_utf8 bs = (if utf8_valid bs then Some (bytes_str bs) else None)"

lemma from_utf8_str_bytes: "utf8_valid (str_bytes s) \<Longrightarrow> from_utf8 (str_bytes s) = Some s"
  by (simp add: from_utf8_def)

lemma from_utf8_Some: "from_utf8 bs = Some s \<Longrightarrow> str_bytes s = bs \<and> utf8_valid bs"
  by (auto simp: from_utf8_def split: if_splits)

section \<open>Big-endian integers\<close>

fun be_encode :: "nat \<Rightarrow> nat \<Rightarrow> bytes" where
  "be_encode 0 x = []"
| "be_encode (Suc k) x = of_nat (x div 256 ^ k) # be_encode k x"

definition be_decode :: "bytes \<Rightarrow> nat" where
  "be_decode bs = foldl (\<lambda>a b. a * 256 + unat b) 0 bs"

lemma be_encode_length [simp]: "length (be_encode k x) = k"
  by (induction k) auto

lemma unat_byte_of_nat: "unat (of_nat x :: byte) = x mod 256"
  by (simp add: unsigned_of_nat take_bit_eq_mod)

lemma be_fold: "foldl (\<lambda>a b. a * 256 + unat b) a (be_encode k x) = a * 256 ^ k + x mod 256 ^ k"
proof (induction k arbitrary: a)
  case (Suc k)
  have "x mod 256 ^ Suc k = 256 ^ k * (x div 256 ^ k mod 256) + x mod 256 ^ k"
    by (metis mod_mult2_eq power_Suc2)
  with Suc show ?case by (simp add: unat_byte_of_nat algebra_simps)
qed simp

lemma be_decode_encode [simp]: "be_decode (be_encode k x) = x mod 256 ^ k"
  by (simp add: be_decode_def be_fold)

lemma be_decode_snoc: "be_decode (bs @ [b]) = be_decode bs * 256 + unat b"
  by (simp add: be_decode_def)

lemma be_decode_less: "be_decode bs < 256 ^ length bs"
proof (induction bs rule: rev_induct)
  case (snoc b bs)
  have "unat b < 256" using unsigned_less [of b, where ?'a = nat] by simp
  with snoc show ?case by (simp add: be_decode_snoc)
qed (simp add: be_decode_def)

lemma be_encode_decode: "be_encode (length bs) (be_decode bs) = bs"
proof -
  have "be_encode (length bs) (a * 256 ^ length bs + be_decode bs) = bs" for a
  proof (induction bs arbitrary: a)
    case (Cons b bs)
    have split: "be_decode (b # bs) = unat b * 256 ^ length bs + be_decode bs" for b and bs :: bytes
    proof (induction bs rule: rev_induct)
      case (snoc c bs)
      then show ?case using be_decode_snoc [of "b # bs" c] by (simp add: be_decode_snoc algebra_simps)
    qed (simp add: be_decode_def)
    have arg: "a * 256 ^ length (b # bs) + be_decode (b # bs) = (a * 256 + unat b) * 256 ^ length bs + be_decode bs"
      by (simp add: split algebra_simps)
    have "((a * 256 + unat b) * 256 ^ length bs + be_decode bs) div 256 ^ length bs = a * 256 + unat b"
      using be_decode_less [of bs] by simp
    moreover have "(of_nat (a * 256 + unat b) :: byte) = b"
    proof -
      have "unat (of_nat (a * 256) :: byte) = 0" by (simp only: unat_byte_of_nat) simp
      then have "(of_nat (a * 256) :: byte) = 0" by (simp only: unat_eq_zero)
      then show ?thesis by simp
    qed
    ultimately show ?case using Cons [of "a * 256 + unat b"] unfolding arg by simp
  qed simp
  from this [of 0] show ?thesis by simp
qed

definition u16_to_be :: "u16 \<Rightarrow> bytes" where "u16_to_be w = be_encode 2 (unat w)"
definition u32_to_be :: "u32 \<Rightarrow> bytes" where "u32_to_be w = be_encode 4 (unat w)"
definition u64_to_be :: "u64 \<Rightarrow> bytes" where "u64_to_be w = be_encode 8 (unat w)"
definition u16_from_be :: "bytes \<Rightarrow> u16" where "u16_from_be bs = of_nat (be_decode bs)"
definition u32_from_be :: "bytes \<Rightarrow> u32" where "u32_from_be bs = of_nat (be_decode bs)"
definition u64_from_be :: "bytes \<Rightarrow> u64" where "u64_from_be bs = of_nat (be_decode bs)"

lemma to_be_length [simp]: "length (u16_to_be a) = 2" "length (u32_to_be b) = 4" "length (u64_to_be c) = 8"
  by (simp_all add: u16_to_be_def u32_to_be_def u64_to_be_def)

lemma from_to_be [simp]: "u16_from_be (u16_to_be a) = a" "u32_from_be (u32_to_be b) = b" "u64_from_be (u64_to_be c) = c"
  using unsigned_less [of a, where ?'a = nat] unsigned_less [of b, where ?'a = nat] unsigned_less [of c, where ?'a = nat]
  by (simp_all add: u16_from_be_def u16_to_be_def u32_from_be_def u32_to_be_def u64_from_be_def u64_to_be_def)

lemma u64_to_be_inj: "u64_to_be a = u64_to_be b \<longleftrightarrow> a = b"
  by (metis from_to_be(3))

text \<open>A slice \<open>bs[a..b]\<close>.\<close>

definition slice :: "nat \<Rightarrow> nat \<Rightarrow> 'a list \<Rightarrow> 'a list" where
  "slice a b bs = take (b - a) (drop a bs)"

lemma slice_append: "length xs = a \<Longrightarrow> length ys = b - a \<Longrightarrow> slice a b (xs @ ys @ zs) = ys"
  by (simp add: slice_def)

section \<open>Codecs\<close>

text \<open>
  What a wire codec promises, and what follows for its users: what was encoded is decoded
  unchanged, so no two well-formed values share an encoding.
\<close>

locale wire_codec =
  fixes enc :: "'a \<Rightarrow> 'e + bytes" and dec :: "bytes \<Rightarrow> 'e + 'a" and wf :: "'a \<Rightarrow> bool"
  assumes dec_enc: "wf x \<Longrightarrow> enc x = Inr bs \<Longrightarrow> dec bs = Inr x"
begin

lemma enc_inj: "wf x \<Longrightarrow> wf y \<Longrightarrow> enc x = Inr bs \<Longrightarrow> enc y = Inr bs \<Longrightarrow> x = y"
  using dec_enc [of x bs] dec_enc [of y bs] by simp

end

end
