(* ===== verification/Ajna_Crypto.thy ===== *)
theory Ajna_Crypto
  imports Byte_Codec
begin

text \<open>
  Domain-separated hashing: \<open>did/src/ajna/crypto.rs\<close>. The hash function \<open>blake3\<close> and the
  base64url codec are crates; they are the arguments \<open>blake3\<close>, \<open>b64_enc\<close> and \<open>b64_dec\<close>.
  Feeding a hasher piece by piece hashes the concatenation of the pieces. A hash function
  is never assumed injective: statements about authenticity end in "or here are two different
  inputs with the same hash".
\<close>

type_synonym hash = bytes

definition DST_AJNA_ROOT :: bytes where "DST_AJNA_ROOT = str_bytes ''AJNA/ROOT/V1''"
definition DST_AJNA_OP :: bytes where "DST_AJNA_OP = str_bytes ''AJNA/OP/V1''"
definition DST_AJNA_SIGN :: bytes where "DST_AJNA_SIGN = str_bytes ''AJNA/SIGN/V1''"
definition DST_AJNA_FIELD :: bytes where "DST_AJNA_FIELD = str_bytes ''AJNA/FIELD/V1''"
definition HASH_SIZE :: nat where "HASH_SIZE = 32"

definition hash_with_dst :: "(bytes \<Rightarrow> hash) \<Rightarrow> bytes \<Rightarrow> bytes \<Rightarrow> hash" where
  "hash_with_dst blake3 dst dat = blake3 (dst @ dat)"

definition hash_operation :: "(bytes \<Rightarrow> hash) \<Rightarrow> bytes \<Rightarrow> hash" where
  "hash_operation blake3 canonical = hash_with_dst blake3 DST_AJNA_OP canonical"

definition hash_for_signature :: "(bytes \<Rightarrow> hash) \<Rightarrow> bytes \<Rightarrow> hash" where
  "hash_for_signature blake3 canonical = hash_with_dst blake3 DST_AJNA_SIGN canonical"

definition hash_merkle_root :: "(bytes \<Rightarrow> hash) \<Rightarrow> bytes \<Rightarrow> hash" where
  "hash_merkle_root blake3 dat = hash_with_dst blake3 DST_AJNA_ROOT dat"

definition hash_field :: "(bytes \<Rightarrow> hash) \<Rightarrow> string \<Rightarrow> bytes \<Rightarrow> hash" where
  "hash_field blake3 path v = blake3 (DST_AJNA_FIELD @ str_bytes path @ v)"

definition hash_to_base64url :: "(bytes \<Rightarrow> string) \<Rightarrow> hash \<Rightarrow> string" where
  "hash_to_base64url b64_enc h = b64_enc h"

text \<open>The error is the message's shape: an undecodable text, or the number of decoded bytes.\<close>

datatype hash_error = InvalidBase64 | InvalidHashSize nat

definition base64url_to_hash :: "(string \<Rightarrow> bytes option) \<Rightarrow> string \<Rightarrow> hash_error + hash" where
  "base64url_to_hash b64_dec s =
     (case b64_dec s of
        None \<Rightarrow> Inl InvalidBase64
      | Some bs \<Rightarrow> if length bs \<noteq> HASH_SIZE then Inl (InvalidHashSize (length bs)) else Inr bs)"

definition hash_pair :: "(bytes \<Rightarrow> hash) \<Rightarrow> hash \<Rightarrow> hash \<Rightarrow> hash" where
  "hash_pair blake3 left right = blake3 (DST_AJNA_ROOT @ left @ right)"

text \<open>Two different inputs with the same hash.\<close>

definition collision :: "(bytes \<Rightarrow> hash) \<Rightarrow> bytes \<Rightarrow> bytes \<Rightarrow> bool" where
  "collision H x y \<longleftrightarrow> x \<noteq> y \<and> H x = H y"

section \<open>Domain separation\<close>

lemma dst_different:
  "DST_AJNA_OP @ x \<noteq> DST_AJNA_SIGN @ y" "DST_AJNA_OP @ x \<noteq> DST_AJNA_ROOT @ y"
  "DST_AJNA_SIGN @ x \<noteq> DST_AJNA_ROOT @ y" "DST_AJNA_FIELD @ x \<noteq> DST_AJNA_ROOT @ y"
  "DST_AJNA_FIELD @ x \<noteq> DST_AJNA_OP @ y" "DST_AJNA_FIELD @ x \<noteq> DST_AJNA_SIGN @ y"
  by (simp_all add: DST_AJNA_OP_def DST_AJNA_SIGN_def DST_AJNA_ROOT_def DST_AJNA_FIELD_def)

lemma hash_pair_eq:
  assumes "hash_pair H a b = hash_pair H c d" and "length a = length c"
  shows "a = c \<and> b = d \<or> collision H (DST_AJNA_ROOT @ a @ b) (DST_AJNA_ROOT @ c @ d)"
  using assms by (auto simp: hash_pair_def collision_def)

lemma hash_domains_separate:
  "hash_operation H x = hash_for_signature H y \<Longrightarrow> collision H (DST_AJNA_OP @ x) (DST_AJNA_SIGN @ y)"
  "hash_operation H x = hash_pair H a b \<Longrightarrow> collision H (DST_AJNA_OP @ x) (DST_AJNA_ROOT @ a @ b)"
  "hash_field H p v = hash_pair H a b \<Longrightarrow> collision H (DST_AJNA_FIELD @ str_bytes p @ v) (DST_AJNA_ROOT @ a @ b)"
  "hash_field H p v = hash_operation H x \<Longrightarrow> collision H (DST_AJNA_FIELD @ str_bytes p @ v) (DST_AJNA_OP @ x)"
  by (simp_all add: hash_operation_def hash_for_signature_def hash_with_dst_def hash_field_def
      hash_pair_def collision_def dst_different)

lemma base64url_to_hash_ok:
  "base64url_to_hash b64_dec s = Inr h \<longleftrightarrow> b64_dec s = Some h \<and> length h = HASH_SIZE"
  by (auto simp: base64url_to_hash_def split: option.splits)

text \<open>A concrete codec: one character per byte.\<close>

definition latin_enc :: "bytes \<Rightarrow> string" where
  "latin_enc bs = bytes_str bs"

definition latin_dec :: "string \<Rightarrow> bytes option" where
  "latin_dec s = Some (str_bytes s)"

lemma latin_codec: "latin_dec (latin_enc bs) = Some bs"
  by (simp add: latin_dec_def latin_enc_def)

end
