(* ===== verification/Ajna_Disclosure.thy ===== *)
theory Ajna_Disclosure
  imports Ajna_Document Ajna_Crypto
begin

text \<open>
  Selective disclosure: \<open>did/src/ajna/selective_disclosure.rs\<close>. A document's fields are the leaves
  of a Merkle tree; a field proof is the path of sibling hashes from a leaf to the root. The hash
  function and the JSON text of a field's value (\<open>serde_json::to_vec\<close>, \<open>None\<close> is its error) are
  arguments. The two theorems are that every proof the index makes verifies, and that whatever
  verifies is a field of the document, up to where its path ends and its value starts.
\<close>

section \<open>The index of the fields\<close>

record 'j field_json =
  fj_string :: "string \<Rightarrow> bytes option"
  fj_value :: "'j \<Rightarrow> bytes option"
  fj_bool :: "bool \<Rightarrow> bytes option"

record field_proof =
  fp_path :: string
  fp_value :: bytes
  fp_proof :: "hash list"
  fp_index :: nat

record field_index =
  fi_fields :: "(string, hash \<times> bytes \<times> nat) hash_map"
  fi_tree :: "hash list list"
  fi_root :: hash

definition sd_hash_field :: "(bytes \<Rightarrow> hash) \<Rightarrow> string \<Rightarrow> bytes \<Rightarrow> hash" where
  "sd_hash_field H path v = hash_with_dst H DST_AJNA_FIELD (str_bytes path @ v)"

definition sd_hash_pair :: "(bytes \<Rightarrow> hash) \<Rightarrow> hash \<Rightarrow> hash \<Rightarrow> hash" where
  "sd_hash_pair H left right = H (left @ right)"

text \<open>The fields collected so far, the leaves and the next index.\<close>

record field_acc =
  fa_fields :: "(string, hash \<times> bytes \<times> nat) hash_map"
  fa_leaves :: "hash list"
  fa_index :: nat

definition add_field :: "(bytes \<Rightarrow> hash) \<Rightarrow> string \<Rightarrow> bytes option \<Rightarrow> field_acc \<Rightarrow> ajna_error + field_acc" where
  "add_field H path v acc =
     (case v of
        None \<Rightarrow> Inl (SerializationError '''')
      | Some value_bytes \<Rightarrow>
          (let h = sd_hash_field H path value_bytes
           in Inr \<lparr>fa_fields = hm_insert path (h, value_bytes, fa_index acc) (fa_fields acc),
                   fa_leaves = fa_leaves acc @ [h], fa_index = fa_index acc + 1\<rparr>))"

text \<open>The calls of \<open>add_field\<close> in \<open>extract_fields\<close>, in their order: paths and serialised values.\<close>

definition vm_fields :: "'j field_json \<Rightarrow> nat \<Rightarrow> verification_method \<Rightarrow> (string \<times> bytes option) list" where
  "vm_fields js i vm =
     (let base = ''/verificationMethod/'' @ nat_str i
      in [(base @ ''/id'', fj_string js (vm_id vm)), (base @ ''/type'', fj_string js (vm_type vm)),
          (base @ ''/controller'', fj_string js (vm_controller vm)),
          (base @ ''/publicKeyMultibase'', fj_string js (vm_public_key_multibase vm))] @
         (case vm_purpose vm of
            None \<Rightarrow> []
          | Some purpose \<Rightarrow> map (\<lambda>(j, p). (base @ ''/purpose/'' @ nat_str j, fj_string js p)) (enumerate 0 purpose)))"

definition service_fields :: "'j field_json \<Rightarrow> string \<Rightarrow> 'j service \<Rightarrow> (string \<times> bytes option) list" where
  "service_fields js key service =
     (let base = ''/service/'' @ key
      in [(base @ ''/id'', fj_string js (svc_id service)), (base @ ''/type'', fj_string js (svc_type service)),
          (base @ ''/serviceEndpoint'', fj_string js (svc_endpoint service))])"

definition doc_fields :: "'j field_json \<Rightarrow> ('u, 'j) ajna_document \<Rightarrow> (string \<times> bytes option) list" where
  "doc_fields js doc =
     [(''/id'', fj_string js (doc_id doc))] @
     (case doc_controller doc of
        None \<Rightarrow> []
      | Some controllers \<Rightarrow> map (\<lambda>(i, c). (''/controller/'' @ nat_str i, fj_string js c)) (enumerate 0 (ors_elements controllers))) @
     concat (map (\<lambda>(i, vm). vm_fields js i vm) (enumerate 0 (ors_elements (doc_verification_methods doc)))) @
     (case doc_service doc of
        None \<Rightarrow> []
      | Some services \<Rightarrow> concat (map (\<lambda>(key, service). service_fields js key service) (lww_entries services))) @
     (case doc_policy doc of
        None \<Rightarrow> []
      | Some policy \<Rightarrow> map (\<lambda>(key, v). (''/policy/'' @ key, fj_value js v)) (lww_entries policy)) @
     (case doc_deactivated doc of None \<Rightarrow> [] | Some d \<Rightarrow> [(''/deactivated'', fj_bool js d)])"

fun add_fields :: "(bytes \<Rightarrow> hash) \<Rightarrow> (string \<times> bytes option) list \<Rightarrow> field_acc \<Rightarrow> ajna_error + field_acc" where
  "add_fields H [] acc = Inr acc"
| "add_fields H ((path, v) # fs) acc =
     (case add_field H path v acc of Inl e \<Rightarrow> Inl e | Inr acc \<Rightarrow> add_fields H fs acc)"

definition extract_fields :: "(bytes \<Rightarrow> hash) \<Rightarrow> 'j field_json \<Rightarrow> ('u, 'j) ajna_document \<Rightarrow> ajna_error + field_acc" where
  "extract_fields H js doc = add_fields H (doc_fields js doc) \<lparr>fa_fields = [], fa_leaves = [], fa_index = 0\<rparr>"

text \<open>One level from the one below: pairs, an odd last node with itself.\<close>

fun hash_level :: "(bytes \<Rightarrow> hash) \<Rightarrow> hash list \<Rightarrow> hash list" where
  "hash_level H [] = []"
| "hash_level H [a] = [sd_hash_pair H a a]"
| "hash_level H (a # b # level) = sd_hash_pair H a b # hash_level H level"

lemma hash_level_length [simp]: "length (hash_level H level) = (length level + 1) div 2"
  by (induction H level rule: hash_level.induct) simp_all

function tree_levels :: "(bytes \<Rightarrow> hash) \<Rightarrow> hash list \<Rightarrow> hash list list" where
  "tree_levels H level = (if length level > 1 then level # tree_levels H (hash_level H level) else [level])"
  by pat_completeness auto
termination by (relation "measure (\<lambda>(H, level). length level)") auto

declare tree_levels.simps [simp del]

definition zero_hash :: hash where
  "zero_hash = replicate 32 0"

definition build_merkle_tree :: "(bytes \<Rightarrow> hash) \<Rightarrow> hash list \<Rightarrow> hash list list" where
  "build_merkle_tree H leaves = (if leaves = [] then [[zero_hash]] else tree_levels H leaves)"

definition field_index_build :: "(bytes \<Rightarrow> hash) \<Rightarrow> 'j field_json \<Rightarrow> ('u, 'j) ajna_document \<Rightarrow> ajna_error + field_index" where
  "field_index_build H js doc =
     (case extract_fields H js doc of
        Inl e \<Rightarrow> Inl e
      | Inr acc \<Rightarrow>
          (let tree = build_merkle_tree H (fa_leaves acc);
               root = (if tree = [] then zero_hash else case last tree of [] \<Rightarrow> zero_hash | h # _ \<Rightarrow> h)
           in Inr \<lparr>fi_fields = fa_fields acc, fi_tree = tree, fi_root = root\<rparr>))"

text \<open>The siblings on the way up; reading a node out of range panics (\<open>None\<close>).\<close>

fun proof_path :: "nat \<Rightarrow> hash list list \<Rightarrow> hash list option" where
  "proof_path i [] = Some []"
| "proof_path i (level # levels) =
     (let sibling = (if even i then i + 1 else i - 1)
      in if sibling < length level then map_option ((#) (level ! sibling)) (proof_path (i div 2) levels)
         else if i < length level then map_option ((#) (level ! i)) (proof_path (i div 2) levels)
         else None)"

definition compute_proof_path :: "field_index \<Rightarrow> nat \<Rightarrow> hash list option" where
  "compute_proof_path idx i = proof_path i (butlast (fi_tree idx))"

definition field_prove :: "field_index \<Rightarrow> string \<Rightarrow> ajna_error fault + field_proof" where
  "field_prove idx path =
     (case hm_get (fi_fields idx) path of
        None \<Rightarrow> Inl (Raised (InvalidReference (''Field not found: '' @ path)))
      | Some (_, v, i) \<Rightarrow>
          (case compute_proof_path idx i of
             None \<Rightarrow> Inl Panicked
           | Some proof_hashes \<Rightarrow> Inr \<lparr>fp_path = path, fp_value = v, fp_proof = proof_hashes, fp_index = i\<rparr>))"

definition field_paths :: "field_index \<Rightarrow> string list" where
  "field_paths idx = hm_keys (fi_fields idx)"

definition field_get :: "field_index \<Rightarrow> string \<Rightarrow> bytes option" where
  "field_get idx path = map_option (\<lambda>(_, v, _). v) (hm_get (fi_fields idx) path)"

section \<open>Verification\<close>

fun fold_proof :: "(bytes \<Rightarrow> hash) \<Rightarrow> nat \<Rightarrow> hash \<Rightarrow> hash list \<Rightarrow> hash" where
  "fold_proof H i h [] = h"
| "fold_proof H i h (s # ss) =
     fold_proof H (i div 2) (if even i then sd_hash_pair H h s else sd_hash_pair H s h) ss"

definition verify_field_proof :: "(bytes \<Rightarrow> hash) \<Rightarrow> field_proof \<Rightarrow> hash \<Rightarrow> bool" where
  "verify_field_proof H pf root \<longleftrightarrow> fold_proof H (fp_index pf) (sd_hash_field H (fp_path pf) (fp_value pf)) (fp_proof pf) = root"

record minimal_document =
  mnd_fields :: "field_proof list"
  mnd_root :: hash

fun prove_all :: "field_index \<Rightarrow> string list \<Rightarrow> ajna_error fault + field_proof list" where
  "prove_all idx [] = Inr []"
| "prove_all idx (path # paths) =
     (case field_prove idx path of Inl e \<Rightarrow> Inl e | Inr pf \<Rightarrow> map_sum id ((#) pf) (prove_all idx paths))"

definition minimal_document_new :: "field_index \<Rightarrow> string list \<Rightarrow> ajna_error fault + minimal_document" where
  "minimal_document_new idx paths = map_sum id (\<lambda>fs. \<lparr>mnd_fields = fs, mnd_root = fi_root idx\<rparr>) (prove_all idx paths)"

definition verify_all :: "(bytes \<Rightarrow> hash) \<Rightarrow> minimal_document \<Rightarrow> bool" where
  "verify_all H md \<longleftrightarrow> list_all (\<lambda>pf. verify_field_proof H pf (mnd_root md)) (mnd_fields md)"

definition mnd_get_field :: "(bytes \<Rightarrow> hash) \<Rightarrow> minimal_document \<Rightarrow> string \<Rightarrow> bytes option" where
  "mnd_get_field H md path =
     (case find (\<lambda>p. fp_path p = path) (mnd_fields md) of
        None \<Rightarrow> None
      | Some p \<Rightarrow> if verify_field_proof H p (mnd_root md) then Some (fp_value p) else None)"

section \<open>Proofs made by the index verify\<close>

text \<open>One step up: a node with its sibling, in the order the index gives, is the node above.\<close>

lemma hash_level_nth:
  assumes "i < length level"
  shows "hash_level H level ! (i div 2) =
    (let sibling = (if even i then i + 1 else i - 1); s = (if sibling < length level then level ! sibling else level ! i)
     in if even i then sd_hash_pair H (level ! i) s else sd_hash_pair H s (level ! i))"
  using assms
proof (induction H level arbitrary: i rule: hash_level.induct)
  case (3 H a b level)
  consider "i = 0" | "i = 1" | j where "i = Suc (Suc j)" by (metis One_nat_def not0_implies_Suc)
  then show ?case
  proof cases
    case 3
    with "3.prems" have "j < length level" by simp
    from "3.IH" [OF this] 3 show ?thesis
      by (cases "even j") (auto simp: Let_def elim!: oddE)
  qed (auto simp: Let_def)
qed (auto simp: Let_def)

lemma fold_proof_levels:
  assumes "i < length level"
  shows "\<exists>ss. proof_path i (butlast (tree_levels H level)) = Some ss \<and>
    fold_proof H i (level ! i) ss = hd (last (tree_levels H level))"
  using assms
proof (induction H level arbitrary: i rule: tree_levels.induct)
  case (1 H level)
  show ?case
  proof (cases "length level > 1")
    case False
    with "1.prems" have "i = 0" "level \<noteq> []" by auto
    with False show ?thesis by (simp add: tree_levels.simps hd_conv_nth)
  next
    case True
    have ne: "tree_levels H (hash_level H level) \<noteq> []" by (simp add: tree_levels.simps)
    have "i div 2 < length (hash_level H level)" using "1.prems" by simp
    from "1.IH" [OF True this] obtain ss where
      ss: "proof_path (i div 2) (butlast (tree_levels H (hash_level H level))) = Some ss"
      "fold_proof H (i div 2) (hash_level H level ! (i div 2)) ss = hd (last (tree_levels H (hash_level H level)))" by blast
    have "tree_levels H level = level # tree_levels H (hash_level H level)" using True by (subst tree_levels.simps) simp
    then show ?thesis using ss ne "1.prems" hash_level_nth [OF "1.prems"] by (auto simp: Let_def)
  qed
qed

text \<open>Every entry of the map of fields points to its own leaf.\<close>

definition fields_ok :: "(bytes \<Rightarrow> hash) \<Rightarrow> field_acc \<Rightarrow> bool" where
  "fields_ok H acc \<longleftrightarrow> fa_index acc = length (fa_leaves acc) \<and>
     (\<forall>path h v i. hm_get (fa_fields acc) path = Some (h, v, i) \<longrightarrow>
        i < length (fa_leaves acc) \<and> fa_leaves acc ! i = sd_hash_field H path v)"

lemma add_fields_ok: "fields_ok H acc \<Longrightarrow> add_fields H fs acc = Inr acc' \<Longrightarrow> fields_ok H acc'"
proof (induction H fs acc rule: add_fields.induct)
  case (2 H path v fs acc)
  from "2.prems"(2) obtain acc1 where a: "add_field H path v acc = Inr acc1" "add_fields H fs acc1 = Inr acc'"
    by (auto split: sum.splits)
  have "fields_ok H acc1" using "2.prems"(1) a(1)
    by (auto simp: fields_ok_def add_field_def Let_def nth_append less_Suc_eq split: option.splits if_splits)
  with "2.IH" a show ?case by blast
qed simp

lemma add_fields_leaves:
  "add_fields H fs acc = Inr acc' \<Longrightarrow>
     fa_leaves acc' = fa_leaves acc @ map (\<lambda>(path, v). sd_hash_field H path (the v)) fs \<and> None \<notin> snd ` set fs"
  by (induction H fs acc rule: add_fields.induct) (auto simp: add_field_def Let_def split: sum.splits option.splits)

lemma tree_levels_ne [simp]: "tree_levels H level \<noteq> []"
  by (simp add: tree_levels.simps)

lemma tree_levels_last: "level \<noteq> [] \<Longrightarrow> last (tree_levels H level) \<noteq> []"
proof (induction H level rule: tree_levels.induct)
  case (1 H level)
  have "hash_level H level \<noteq> []" using "1.prems" by (simp flip: length_greater_0_conv)
  with 1 show ?case by (subst tree_levels.simps) simp
qed

lemma build_cases:
  assumes "field_index_build H js doc = Inr idx"
  obtains acc where "extract_fields H js doc = Inr acc" "fields_ok H acc" "fi_fields idx = fa_fields acc"
    "fa_leaves acc = map (\<lambda>(path, v). sd_hash_field H path (the v)) (doc_fields js doc)" "fa_leaves acc \<noteq> []"
    "None \<notin> snd ` set (doc_fields js doc)"
    "fi_tree idx = tree_levels H (fa_leaves acc)" "fi_root idx = hd (last (fi_tree idx))"
proof -
  from assms obtain acc where acc: "extract_fields H js doc = Inr acc" "fi_fields idx = fa_fields acc"
    "fi_tree idx = build_merkle_tree H (fa_leaves acc)"
    and root: "fi_root idx = (if fi_tree idx = [] then zero_hash else case last (fi_tree idx) of [] \<Rightarrow> zero_hash | h # _ \<Rightarrow> h)"
    by (auto simp: field_index_build_def Let_def split: sum.splits)
  have "fields_ok H acc" using acc(1) unfolding extract_fields_def
    by (rule add_fields_ok [rotated]) (simp add: fields_ok_def)
  moreover have l: "fa_leaves acc = map (\<lambda>(path, v). sd_hash_field H path (the v)) (doc_fields js doc)"
    "None \<notin> snd ` set (doc_fields js doc)"
    using acc(1) add_fields_leaves [of H "doc_fields js doc"] by (auto simp: extract_fields_def)
  moreover have ne: "fa_leaves acc \<noteq> []" using l(1) by (simp add: doc_fields_def)
  moreover have t: "fi_tree idx = tree_levels H (fa_leaves acc)" using acc(3) ne by (simp add: build_merkle_tree_def)
  moreover note tree_levels_last [OF ne, of H]
  ultimately show ?thesis using that acc root ne by (auto split: list.splits)
qed

lemma field_prove_ok:
  assumes "field_index_build H js doc = Inr idx" "field_get idx path = Some v"
  shows "\<exists>pf. field_prove idx path = Inr pf \<and> fp_path pf = path \<and> fp_value pf = v \<and> verify_field_proof H pf (fi_root idx)"
proof -
  from assms(1) obtain acc where acc: "fields_ok H acc" "fi_fields idx = fa_fields acc"
    "fi_tree idx = tree_levels H (fa_leaves acc)" "fi_root idx = hd (last (fi_tree idx))" by (rule build_cases) blast
  from assms(2) obtain h i where g: "hm_get (fi_fields idx) path = Some (h, v, i)" by (auto simp: field_get_def)
  then have i: "i < length (fa_leaves acc)" "fa_leaves acc ! i = sd_hash_field H path v"
    using acc(1,2) by (auto simp: fields_ok_def)
  from fold_proof_levels [OF i(1), of H] obtain ss where
    "proof_path i (butlast (fi_tree idx)) = Some ss" "fold_proof H i (sd_hash_field H path v) ss = fi_root idx"
    using acc i(2) by auto
  then show ?thesis using g by (simp add: field_prove_def compute_proof_path_def verify_field_proof_def)
qed

lemma prove_all_ok:
  assumes "field_index_build H js doc = Inr idx" "\<forall>path\<in>set paths. field_get idx path \<noteq> None"
  shows "\<exists>fs. prove_all idx paths = Inr fs \<and> map fp_path fs = paths \<and>
    (\<forall>pf\<in>set fs. verify_field_proof H pf (fi_root idx) \<and> field_get idx (fp_path pf) = Some (fp_value pf))"
  using assms(2)
proof (induction paths)
  case (Cons path paths)
  then obtain v where v: "field_get idx path = Some v" by auto
  from Cons obtain fs where fs: "prove_all idx paths = Inr fs" "map fp_path fs = paths"
    "\<forall>pf\<in>set fs. verify_field_proof H pf (fi_root idx) \<and> field_get idx (fp_path pf) = Some (fp_value pf)" by auto
  from field_prove_ok [OF assms(1) v] obtain pf where "field_prove idx path = Inr pf" "fp_path pf = path" "fp_value pf = v"
    "verify_field_proof H pf (fi_root idx)" by blast
  with fs v show ?case by (intro exI [of _ "pf # fs"]) simp
qed simp

lemma mnd_get_field_ok:
  assumes "path \<in> fp_path ` set fs" "\<forall>pf\<in>set fs. verify_field_proof H pf root \<and> field_get idx (fp_path pf) = Some (fp_value pf)"
  shows "mnd_get_field H \<lparr>mnd_fields = fs, mnd_root = root\<rparr> path = field_get idx path"
proof (cases "find (\<lambda>p. fp_path p = path) fs")
  case None
  with assms(1) show ?thesis by (auto simp: find_None_iff)
next
  case (Some p)
  with assms(2) find_SomeD [OF Some] show ?thesis by (auto simp: mnd_get_field_def)
qed

text \<open>
  C35. Every field can be disclosed. For a document whose index was built, a minimal document of
  any of its fields is made, all its proofs verify against the root of the index, and reading a
  disclosed field from it gives the field's value; a path that is not a field is refused.
\<close>

theorem disclosed_fields_verify:
  assumes "field_index_build H js doc = Inr idx"
  shows "((\<forall>path\<in>set paths. field_get idx path \<noteq> None) \<longrightarrow>
      (\<exists>md. minimal_document_new idx paths = Inr md \<and> mnd_root md = fi_root idx \<and> verify_all H md \<and>
        (\<forall>path\<in>set paths. mnd_get_field H md path = field_get idx path))) \<and>
    (path \<notin> set (field_paths idx) \<longrightarrow> field_prove idx path = Inl (Raised (InvalidReference (''Field not found: '' @ path))))"
proof (intro conjI impI)
  assume "\<forall>path\<in>set paths. field_get idx path \<noteq> None"
  from prove_all_ok [OF assms this] obtain fs where fs: "prove_all idx paths = Inr fs" "paths = map fp_path fs"
    "\<forall>pf\<in>set fs. verify_field_proof H pf (fi_root idx) \<and> field_get idx (fp_path pf) = Some (fp_value pf)" by blast
  have "mnd_get_field H \<lparr>mnd_fields = fs, mnd_root = fi_root idx\<rparr> path = field_get idx path" if "path \<in> set paths" for path
    by (rule mnd_get_field_ok [OF _ fs(3)]) (use that fs(2) in simp)
  moreover have "verify_all H \<lparr>mnd_fields = fs, mnd_root = fi_root idx\<rparr>" using fs(3) by (simp add: verify_all_def list_all_iff)
  ultimately show "\<exists>md. minimal_document_new idx paths = Inr md \<and> mnd_root md = fi_root idx \<and> verify_all H md \<and>
      (\<forall>path\<in>set paths. mnd_get_field H md path = field_get idx path)"
    using fs(1) by (intro exI [of _ "\<lparr>mnd_fields = fs, mnd_root = fi_root idx\<rparr>"]) (simp add: minimal_document_new_def)
qed (simp add: field_paths_def field_prove_def map_of_eq_None_iff [THEN iffD2])

section \<open>What verifies is a field\<close>

text \<open>The inputs of the hash function: those of the leaves, those of a tree above them, and those of a proof.\<close>

definition field_input :: "string \<Rightarrow> bytes \<Rightarrow> bytes" where
  "field_input path v = DST_AJNA_FIELD @ str_bytes path @ v"

fun level_inputs :: "hash list \<Rightarrow> bytes list" where
  "level_inputs [] = []"
| "level_inputs [a] = [a @ a]"
| "level_inputs (a # b # level) = (a @ b) # level_inputs level"

definition document_inputs :: "(bytes \<Rightarrow> hash) \<Rightarrow> 'j field_json \<Rightarrow> ('u, 'j) ajna_document \<Rightarrow> bytes list" where
  "document_inputs H js doc =
     (let leaves = map (\<lambda>(path, v). field_input path (the v)) (doc_fields js doc)
      in leaves @ concat (map level_inputs (butlast (tree_levels H (map H leaves)))))"

fun path_inputs :: "(bytes \<Rightarrow> hash) \<Rightarrow> nat \<Rightarrow> hash \<Rightarrow> hash list \<Rightarrow> bytes list" where
  "path_inputs H i h [] = []"
| "path_inputs H i h (s # ss) =
     (let input = (if even i then h @ s else s @ h) in input # path_inputs H (i div 2) (H input) ss)"

definition proof_inputs :: "(bytes \<Rightarrow> hash) \<Rightarrow> field_proof \<Rightarrow> bytes list" where
  "proof_inputs H pf =
     (let leaf = field_input (fp_path pf) (fp_value pf) in leaf # path_inputs H (fp_index pf) (H leaf) (fp_proof pf))"

text \<open>The nodes of a tree: its leaves, and the hashes of two nodes, hashed while it was built.\<close>

lemma level_inputs_nodes:
  "x \<in> set (level_inputs level) \<Longrightarrow> \<exists>a\<in>set level. \<exists>b\<in>set level. x = a @ b"
  by (induction level rule: level_inputs.induct) auto

lemma hash_level_inputs: "hash_level H level = map H (level_inputs level)"
  by (induction level rule: level_inputs.induct) (simp_all add: sd_hash_pair_def)

lemma tree_nodes:
  "\<exists>N. set level \<subseteq> N \<and> (level \<noteq> [] \<longrightarrow> hd (last (tree_levels H level)) \<in> N) \<and>
     (\<forall>n\<in>N. n \<in> set level \<or> (\<exists>a\<in>N. \<exists>b\<in>N. n = H (a @ b) \<and> a @ b \<in> set (concat (map level_inputs (butlast (tree_levels H level))))))"
proof (induction H level rule: tree_levels.induct)
  case (1 H level)
  show ?case
  proof (cases "length level > 1")
    case True
    let ?up = "hash_level H level"
    have "?up \<noteq> []" using True by (simp flip: length_greater_0_conv)
    with "1.IH" [OF True] obtain N where N: "set ?up \<subseteq> N" "hd (last (tree_levels H ?up)) \<in> N"
      "\<forall>n\<in>N. n \<in> set ?up \<or> (\<exists>a\<in>N. \<exists>b\<in>N. n = H (a @ b) \<and> a @ b \<in> set (concat (map level_inputs (butlast (tree_levels H ?up)))))" by blast
    have ne: "tree_levels H ?up \<noteq> []" by (subst tree_levels.simps) simp
    have lv: "tree_levels H level = level # tree_levels H ?up" using True by (subst tree_levels.simps) simp
    have inputs: "set (concat (map level_inputs (butlast (tree_levels H level)))) =
        set (level_inputs level) \<union> set (concat (map level_inputs (butlast (tree_levels H ?up))))" using ne by (simp add: lv)
    show ?thesis
    proof (intro exI conjI)
      show "level \<noteq> [] \<longrightarrow> hd (last (tree_levels H level)) \<in> N \<union> set level" using N(2) ne by (simp add: lv)
      show "\<forall>n\<in>N \<union> set level. n \<in> set level \<or> (\<exists>a\<in>N \<union> set level. \<exists>b\<in>N \<union> set level. n = H (a @ b) \<and>
          a @ b \<in> set (concat (map level_inputs (butlast (tree_levels H level)))))"
      proof
        fix n assume "n \<in> N \<union> set level"
        then consider "n \<in> set level" | "n \<in> set ?up" | a b where "a \<in> N" "b \<in> N" "n = H (a @ b)"
          "a @ b \<in> set (concat (map level_inputs (butlast (tree_levels H ?up))))" using N(3) by blast
        then show "n \<in> set level \<or> (\<exists>a\<in>N \<union> set level. \<exists>b\<in>N \<union> set level. n = H (a @ b) \<and>
            a @ b \<in> set (concat (map level_inputs (butlast (tree_levels H level)))))"
        proof cases
          case 2
          then obtain x where "x \<in> set (level_inputs level)" "n = H x" unfolding hash_level_inputs by auto
          with level_inputs_nodes [OF this(1)] inputs show ?thesis by blast
        qed (use inputs in blast)+
      qed
    qed simp
  next
    case False
    then show ?thesis by (intro exI [of _ "set level"]) (simp add: tree_levels.simps)
  qed
qed

text \<open>
  Going down from a node along a proof: what was hashed into it is a node, when the inputs have no
  collision and no leaf's input has the length of an inner node's.
\<close>

lemma fold_proof_sound:
  assumes len: "\<forall>x. length (H x) = 32" and L: "\<forall>x\<in>L. length x \<noteq> 64"
    and N: "\<forall>n\<in>N. n \<in> H ` L \<or> (\<exists>a\<in>N. \<exists>b\<in>N. n = H (a @ b) \<and> a @ b \<in> T)"
  shows "fold_proof H i (H z) ss \<in> N \<Longrightarrow> \<forall>s\<in>set ss. length s = 32 \<Longrightarrow> inj_on H (L \<union> T \<union> set (path_inputs H i (H z) ss)) \<Longrightarrow> H z \<in> N"
proof (induction ss arbitrary: i z)
  case (Cons s ss)
  let ?x = "if even i then H z else s" and ?y = "if even i then s else H z"
  have x: "length ?x = 32" "length ?y = 32" using len Cons.prems(2) by auto
  have inp: "(if even i then H z @ s else s @ H z) = ?x @ ?y" by simp
  have "fold_proof H (i div 2) (H (?x @ ?y)) ss \<in> N" using Cons.prems(1) by (auto simp: sd_hash_pair_def split: if_splits)
  moreover have inj: "inj_on H (L \<union> T \<union> insert (?x @ ?y) (set (path_inputs H (i div 2) (H (?x @ ?y)) ss)))"
    using Cons.prems(3) by (simp add: Let_def inp)
  moreover have "inj_on H (L \<union> T \<union> set (path_inputs H (i div 2) (H (?x @ ?y)) ss))" by (rule inj_on_subset [OF inj]) blast
  ultimately have up: "H (?x @ ?y) \<in> N" using Cons.IH Cons.prems(2) by simp
  have N32: "length n = 32" if "n \<in> N" for n using N [rule_format, OF that] len by (elim disjE imageE bexE conjE) simp_all
  from up N consider l where "l \<in> L" "H (?x @ ?y) = H l" | a b where "a \<in> N" "b \<in> N" "a @ b \<in> T" "H (?x @ ?y) = H (a @ b)" by blast
  then show ?case
  proof cases
    case 1
    have "?x @ ?y = l" by (rule inj_onD [OF inj 1(2)], blast, use 1(1) in blast)
    then have "length l = 64" using x by (metis length_append numeral_Bit0)
    then show ?thesis using L 1(1) by blast
  next
    case 2
    have "?x @ ?y = a @ b" by (rule inj_onD [OF inj 2(4)], blast, use 2(3) in blast)
    then have "?x = a" "?y = b" using x N32 [OF 2(1)] by auto
    then show ?thesis using 2(1,2) by (cases "even i") simp_all
  qed
qed simp

text \<open>
  C12. Whatever verifies was disclosed from the document. If a proof verifies against the root of
  a document's index, then its path and value, read as one string of bytes, are those of a field of
  the document. The conditions: the inputs hashed for the index and for the proof have no collision
  among them, siblings are hashes, and no field's input has the 64 bytes of an inner node's. How the
  bytes divide into path and value is not authenticated.
\<close>

theorem field_proof_sound:
  assumes build: "field_index_build H js doc = Inr idx" and len: "\<forall>x. length (H x) = 32"
    and sib: "\<forall>s\<in>set (fp_proof pf). length s = 32" and ver: "verify_field_proof H pf (fi_root idx)"
    and inj: "inj_on H (set (document_inputs H js doc) \<union> set (proof_inputs H pf))"
    and doc64: "\<forall>(path, v)\<in>set (doc_fields js doc). length (field_input path (the v)) \<noteq> 64"
    and pf64: "length (field_input (fp_path pf) (fp_value pf)) \<noteq> 64"
  shows "\<exists>path v. (path, Some v) \<in> set (doc_fields js doc) \<and> str_bytes (fp_path pf) @ fp_value pf = str_bytes path @ v"
proof -
  from build obtain acc :: field_acc where acc: "fa_leaves acc = map (\<lambda>(path, v). sd_hash_field H path (the v)) (doc_fields js doc)"
    "fa_leaves acc \<noteq> []" "None \<notin> snd ` set (doc_fields js doc)" "fi_tree idx = tree_levels H (fa_leaves acc)" "fi_root idx = hd (last (fi_tree idx))"
    by (rule build_cases) blast
  let ?ls = "map (\<lambda>(path, v). field_input path (the v)) (doc_fields js doc)"
  define T where "T = set (concat (map level_inputs (butlast (tree_levels H (fa_leaves acc)))))"
  have leaves: "fa_leaves acc = map H ?ls" unfolding acc(1) by (auto simp: sd_hash_field_def hash_with_dst_def field_input_def)
  have inputs: "set (document_inputs H js doc) = set ?ls \<union> T" by (simp add: document_inputs_def Let_def T_def leaves)
  from tree_nodes [of "fa_leaves acc" H] acc(2,4,5) obtain N where N: "fi_root idx \<in> N"
    "\<forall>n\<in>N. n \<in> set (fa_leaves acc) \<or> (\<exists>a\<in>N. \<exists>b\<in>N. n = H (a @ b) \<and> a @ b \<in> T)" unfolding T_def by auto
  have N': "\<forall>n\<in>N. n \<in> H ` set ?ls \<or> (\<exists>a\<in>N. \<exists>b\<in>N. n = H (a @ b) \<and> a @ b \<in> T)" using N(2) by (simp only: leaves set_map)
  let ?leaf = "field_input (fp_path pf) (fp_value pf)"
  have pin: "set (proof_inputs H pf) = insert ?leaf (set (path_inputs H (fp_index pf) (H ?leaf) (fp_proof pf)))" by (simp add: proof_inputs_def Let_def)
  have L64: "\<forall>x\<in>set ?ls. length x \<noteq> 64" using doc64 by auto
  have "fold_proof H (fp_index pf) (H ?leaf) (fp_proof pf) \<in> N"
    using ver N(1) by (simp add: verify_field_proof_def sd_hash_field_def hash_with_dst_def field_input_def)
  then have "H ?leaf \<in> N"
    by (rule fold_proof_sound [OF len L64 N' _ sib]) (rule inj_on_subset [OF inj], use pin inputs in blast)
  then consider l where "l \<in> set ?ls" "H ?leaf = H l" | a b where "a \<in> N" "b \<in> N" "a @ b \<in> T" "H ?leaf = H (a @ b)" using N' by blast
  then show ?thesis
  proof cases
    case 1
    have "?leaf = l" by (rule inj_onD [OF inj 1(2)], unfold pin inputs, blast, use 1(1) in blast)
    with 1(1) obtain path v where pv: "(path, v) \<in> set (doc_fields js doc)" "?leaf = field_input path (the v)" by auto
    moreover obtain w where "v = Some w" using pv(1) acc(3) by (cases v) force+
    ultimately show ?thesis by (auto simp: field_input_def)
  next
    case 2
    have "length n = 32" if "n \<in> N" for n using N' [rule_format, OF that] len by (elim disjE imageE bexE conjE) simp_all
    moreover have "?leaf = a @ b" by (rule inj_onD [OF inj 2(4)], unfold pin inputs, blast, use 2(3) in blast)
    ultimately show ?thesis using 2(1,2) pf64 by simp
  qed
qed

text \<open>
  Without the last condition a field of the document forges others: one whose input is 64 bytes
  long and ends in the hash of another field's input passes for an inner node above that field.
\<close>

lemma leaf_forges_field:
  assumes "\<forall>x. length (H x) = 32" "length (field_input path v) = 64" "drop 32 (field_input path v) = sd_hash_field H path' v'"
  shows "verify_field_proof H \<lparr>fp_path = path', fp_value = v', fp_proof = [take 32 (field_input path v)], fp_index = 1\<rparr> (sd_hash_field H path v)"
proof -
  have "take 32 (field_input path v) @ sd_hash_field H path' v' = field_input path v" using assms(3) by (metis append_take_drop_id)
  then show ?thesis by (simp add: verify_field_proof_def sd_hash_pair_def) (simp add: sd_hash_field_def hash_with_dst_def field_input_def)
qed

text \<open>A proof for a field also verifies with the end of its path counted to the value, or the other way round.\<close>

lemma field_boundary_moves:
  assumes "verify_field_proof H pf root" "str_bytes path @ v = str_bytes (fp_path pf) @ fp_value pf"
  shows "verify_field_proof H (pf\<lparr>fp_path := path, fp_value := v\<rparr>) root"
  using assms by (simp add: verify_field_proof_def sd_hash_field_def hash_with_dst_def)

section \<open>A document disclosed\<close>

definition demo_json :: "nat field_json" where
  "demo_json = \<lparr>fj_string = (\<lambda>s. Some (str_bytes s)), fj_value = (\<lambda>n. Some [of_nat n]), fj_bool = (\<lambda>b. Some [])\<rparr>"

text \<open>A checksum in place of the hash function.\<close>

definition demo_sum :: "bytes \<Rightarrow> hash" where
  "demo_sum bs = replicate 31 0 @ [sum_list bs]"

definition demo_disclosed :: "(nat, nat) ajna_document" where
  "demo_disclosed = (doc_new 0 0 ''did'' ''n'')\<lparr>doc_controller := Some (ors_add ''c'' 1 ors_new), doc_deactivated := Some False\<rparr>"

lemma demo_index: "\<exists>idx. field_index_build demo_sum demo_json demo_disclosed = Inr idx \<and> field_get idx ''/id'' = Some (str_bytes ''did'') \<and>
    fi_root idx = demo_sum (demo_sum (sd_hash_field demo_sum ''/id'' (str_bytes ''did'') @ sd_hash_field demo_sum ''/controller/0'' (str_bytes ''c'')) @
      demo_sum (sd_hash_field demo_sum ''/deactivated'' [] @ sd_hash_field demo_sum ''/deactivated'' []))"
proof -
  have "field_index_build demo_sum demo_json demo_disclosed \<noteq> Inl e" for e by code_simp
  then obtain idx where idx: "field_index_build demo_sum demo_json demo_disclosed = Inr idx" by (metis sum.exhaust)
  have "case field_index_build demo_sum demo_json demo_disclosed of Inl e \<Rightarrow> False | Inr idx \<Rightarrow> field_get idx ''/id'' = Some (str_bytes ''did'') \<and>
    fi_root idx = demo_sum (demo_sum (sd_hash_field demo_sum ''/id'' (str_bytes ''did'') @ sd_hash_field demo_sum ''/controller/0'' (str_bytes ''c'')) @
      demo_sum (sd_hash_field demo_sum ''/deactivated'' [] @ sd_hash_field demo_sum ''/deactivated'' []))" by code_simp
  with idx show ?thesis by simp
qed

theorem disclosed_fields_verify_witness:
  "\<exists>idx md. field_index_build demo_sum demo_json demo_disclosed = Inr idx \<and> minimal_document_new idx [''/id''] = Inr md \<and>
     verify_all demo_sum md \<and> mnd_get_field demo_sum md ''/id'' = Some (str_bytes ''did'')"
proof -
  from demo_index obtain idx where idx: "field_index_build demo_sum demo_json demo_disclosed = Inr idx" "field_get idx ''/id'' = Some (str_bytes ''did'')" by blast
  from disclosed_fields_verify [OF idx(1), of "[''/id'']" "''/x''"] idx show ?thesis by auto
qed

theorem field_proof_sound_witness:
  "\<exists>idx pf path v. field_index_build demo_sum demo_json demo_disclosed = Inr idx \<and> field_prove idx ''/id'' = Inr pf \<and> verify_field_proof demo_sum pf (fi_root idx) \<and>
     (path, Some v) \<in> set (doc_fields demo_json demo_disclosed) \<and> str_bytes (fp_path pf) @ fp_value pf = str_bytes path @ v"
proof -
  from demo_index obtain idx where idx: "field_index_build demo_sum demo_json demo_disclosed = Inr idx" "field_get idx ''/id'' = Some (str_bytes ''did'')" by blast
  from field_prove_ok [OF idx] obtain pf where pf: "field_prove idx ''/id'' = Inr pf" "verify_field_proof demo_sum pf (fi_root idx)" by blast
  have "case field_index_build demo_sum demo_json demo_disclosed of Inl e \<Rightarrow> False | Inr idx \<Rightarrow>
    (case field_prove idx ''/id'' of Inl e \<Rightarrow> False | Inr pf \<Rightarrow> list_all (\<lambda>s. length s = 32) (fp_proof pf) \<and>
       length (field_input (fp_path pf) (fp_value pf)) \<noteq> 64 \<and>
       distinct (map demo_sum (remdups (document_inputs demo_sum demo_json demo_disclosed @ proof_inputs demo_sum pf))))" by code_simp
  with idx pf have pf': "list_all (\<lambda>s. length s = 32) (fp_proof pf)" "length (field_input (fp_path pf) (fp_value pf)) \<noteq> 64"
    "distinct (map demo_sum (remdups (document_inputs demo_sum demo_json demo_disclosed @ proof_inputs demo_sum pf)))" by simp_all
  have inj: "inj_on demo_sum (set (document_inputs demo_sum demo_json demo_disclosed) \<union> set (proof_inputs demo_sum pf))"
    using pf'(3) by (simp only: distinct_map set_remdups set_append)
  have doc: "\<forall>(path, v)\<in>set (doc_fields demo_json demo_disclosed). length (field_input path (the v)) \<noteq> 64" by code_simp
  have "\<forall>x. length (demo_sum x) = 32" by (simp add: demo_sum_def)
  from field_proof_sound [OF idx(1) this _ pf(2) inj doc pf'(2)] pf'(1) idx(1) pf show ?thesis by (auto simp: list_all_iff)
qed

end
