(* ===== verification/Ajna_Operations.thy ===== *)
theory Ajna_Operations
  imports Ajna_Document Ajna_Crypto
begin

text \<open>
  Operations that travel between replicas: the first-generation \<open>CRDTOperation\<close> with its
  batches (\<open>did/src/ajna/operations.rs\<close>) and the signed, content-addressed \<open>Operation\<close>
  (\<open>did/src/ajna/operation_v2.rs\<close>).
\<close>

section \<open>First-generation operations\<close>

datatype 'j crdt_operation =
    AddVerificationMethod verification_method timestamp string
  | RemoveVerificationMethod string verification_method timestamp string
  | SetService "'j service" timestamp string
  | RemoveService string timestamp string

definition op_add_verification_method ::
  "timestamp \<Rightarrow> verification_method \<Rightarrow> string \<Rightarrow> 'j crdt_operation" where
  "op_add_verification_method now method node = AddVerificationMethod method now node"

definition op_remove_verification_method ::
  "timestamp \<Rightarrow> string \<Rightarrow> verification_method \<Rightarrow> string \<Rightarrow> 'j crdt_operation" where
  "op_remove_verification_method now method_id method node =
     RemoveVerificationMethod method_id method now node"

definition op_set_service :: "timestamp \<Rightarrow> 'j service \<Rightarrow> string \<Rightarrow> 'j crdt_operation" where
  "op_set_service now svc node = SetService svc now node"

definition op_remove_service :: "timestamp \<Rightarrow> string \<Rightarrow> string \<Rightarrow> 'j crdt_operation" where
  "op_remove_service now service_id node = RemoveService service_id now node"

fun op_timestamp :: "'j crdt_operation \<Rightarrow> timestamp" where
  "op_timestamp (AddVerificationMethod _ ts _) = ts"
| "op_timestamp (RemoveVerificationMethod _ _ ts _) = ts"
| "op_timestamp (SetService _ ts _) = ts"
| "op_timestamp (RemoveService _ ts _) = ts"

fun op_node_id :: "'j crdt_operation \<Rightarrow> string" where
  "op_node_id (AddVerificationMethod _ _ node) = node"
| "op_node_id (RemoveVerificationMethod _ _ _ node) = node"
| "op_node_id (SetService _ _ node) = node"
| "op_node_id (RemoveService _ _ node) = node"

text \<open>
  \<open>now\<close> is the clock reading inside the document operation, \<open>now'\<close> the one of the final
  write to \<open>updated\<close>, \<open>u\<close> the uuid an added method draws.
\<close>

definition op_apply ::
  "timestamp \<Rightarrow> timestamp \<Rightarrow> 'u \<Rightarrow> 'j crdt_operation \<Rightarrow> ('u, 'j) ajna_document \<Rightarrow>
   ajna_error + ('u, 'j) ajna_document" where
  "op_apply now now' u op d =
     (let d = d\<lparr>doc_vector_clock := vc_increment (op_node_id op) (doc_vector_clock d)\<rparr>;
          d = (case op of
                 AddVerificationMethod method _ _ \<Rightarrow> doc_add_verification_method now u method d
               | RemoveVerificationMethod method_id _ _ _ \<Rightarrow> doc_remove_verification_method now method_id d
               | SetService svc ts node \<Rightarrow> doc_set_service_with_timestamp now svc ts node d
               | RemoveService service_id ts node \<Rightarrow> doc_remove_service_with_timestamp now service_id ts node d)
      in Inr (d\<lparr>doc_updated := now'\<rparr>))"

record 'j operation_batch =
  batch_did :: string
  batch_operations :: "'j crdt_operation list"
  batch_timestamp :: timestamp
  batch_signature :: "string option"

definition batch_new :: "timestamp \<Rightarrow> string \<Rightarrow> 'j crdt_operation list \<Rightarrow> 'j operation_batch" where
  "batch_new now did ops =
     \<lparr>batch_did = did, batch_operations = ops, batch_timestamp = now, batch_signature = None\<rparr>"

definition batch_add_operation :: "'j crdt_operation \<Rightarrow> 'j operation_batch \<Rightarrow> 'j operation_batch" where
  "batch_add_operation op b = b\<lparr>batch_operations := batch_operations b @ [op]\<rparr>"

definition batch_len :: "'j operation_batch \<Rightarrow> nat" where
  "batch_len b = length (batch_operations b)"

definition batch_is_empty :: "'j operation_batch \<Rightarrow> bool" where
  "batch_is_empty b \<longleftrightarrow> batch_operations b = []"

definition batch_set_signature :: "string \<Rightarrow> 'j operation_batch \<Rightarrow> 'j operation_batch" where
  "batch_set_signature sig b = b\<lparr>batch_signature := Some sig\<rparr>"

definition batch_verify_signature :: "'j operation_batch \<Rightarrow> string \<Rightarrow> ajna_error + bool" where
  "batch_verify_signature b public_key = Inr (batch_signature b \<noteq> None)"

record 'j did_update =
  upd_did :: string
  upd_operations :: "'j crdt_operation list"
  upd_clock :: "(string \<times> u64) list"
  upd_timestamp :: timestamp
  upd_origin_node :: string
  upd_signature :: "string option"

definition upd_new ::
  "timestamp \<Rightarrow> string \<Rightarrow> 'j crdt_operation list \<Rightarrow> (string \<times> u64) list \<Rightarrow> string \<Rightarrow> 'j did_update" where
  "upd_new now did ops clock origin =
     \<lparr>upd_did = did, upd_operations = ops, upd_clock = clock, upd_timestamp = now,
      upd_origin_node = origin, upd_signature = None\<rparr>"

definition upd_set_signature :: "string \<Rightarrow> 'j did_update \<Rightarrow> 'j did_update" where
  "upd_set_signature sig x = x\<lparr>upd_signature := Some sig\<rparr>"

definition upd_operation_count :: "'j did_update \<Rightarrow> nat" where
  "upd_operation_count x = length (upd_operations x)"

definition upd_is_empty :: "'j did_update \<Rightarrow> bool" where
  "upd_is_empty x \<longleftrightarrow> upd_operations x = []"

record 'j delta_sync =
  ds_did :: string
  ds_delta_operations :: "'j crdt_operation list"
  ds_current_clock :: "(string \<times> u64) list"
  ds_base_clock :: "(string \<times> u64) list"
  ds_timestamp :: timestamp

definition ds_new ::
  "timestamp \<Rightarrow> string \<Rightarrow> 'j crdt_operation list \<Rightarrow> (string \<times> u64) list \<Rightarrow> (string \<times> u64) list \<Rightarrow> 'j delta_sync" where
  "ds_new now did ops current base =
     \<lparr>ds_did = did, ds_delta_operations = ops, ds_current_clock = current,
      ds_base_clock = base, ds_timestamp = now\<rparr>"

definition ds_is_empty :: "'j delta_sync \<Rightarrow> bool" where
  "ds_is_empty x \<longleftrightarrow> ds_delta_operations x = []"

definition ds_delta_size :: "'j delta_sync \<Rightarrow> nat" where
  "ds_delta_size x = length (ds_delta_operations x)"

section \<open>Signed operations\<close>

definition OP_TYPE :: string where "OP_TYPE = ''org.ajna.did/op/1.0''"

record clock_entry =
  ce_actor_id :: u32
  ce_counter :: u64

record auth_proof =
  ap_proof :: string
  ap_kid :: string

record 'j operation =
  op_type :: string
  op_doc :: string
  op_id :: string
  op_parents :: "string list"
  op_actor :: string
  op_clock :: clock_entry
  op_delta :: "'j delta"
  op_auth :: auth_proof
  op_timestamp_ms :: int

text \<open>
  \<open>CanonicalOp\<close>: the fields that are hashed and signed, all but the id and the proof. Its
  JSON text is produced by serde, the argument \<open>to_vec\<close>, which may fail.
\<close>

record 'j canonical_op =
  can_type :: string
  can_doc :: string
  can_parents :: "string list"
  can_actor :: string
  can_clock :: clock_entry
  can_delta :: "'j delta"
  can_timestamp_ms :: int

definition op_canonical :: "'j operation \<Rightarrow> 'j canonical_op" where
  "op_canonical op =
     \<lparr>can_type = op_type op, can_doc = op_doc op, can_parents = op_parents op, can_actor = op_actor op,
      can_clock = op_clock op, can_delta = op_delta op, can_timestamp_ms = op_timestamp_ms op\<rparr>"

definition op_canonical_bytes :: "('j canonical_op \<Rightarrow> bytes option) \<Rightarrow> 'j operation \<Rightarrow> ajna_error + bytes" where
  "op_canonical_bytes to_vec op =
     (case to_vec (op_canonical op) of
        None \<Rightarrow> Inl (SerializationError ''Canonical bytes'') | Some bs \<Rightarrow> Inr bs)"

text \<open>
  Ed25519 and base64url are crates: \<open>sign sk m\<close> is the signature's 64 bytes,
  \<open>verify_strict vk m s\<close> the check, \<open>b64_enc\<close> and \<open>b64_dec\<close> the codec,
  \<open>sig_from_slice\<close> the length check of \<open>Signature::from_slice\<close>.
\<close>

definition base64_encode_signature :: "(bytes \<Rightarrow> string) \<Rightarrow> bytes \<Rightarrow> string" where
  "base64_encode_signature b64_enc sig = b64_enc sig"

definition base64_decode_signature ::
  "(string \<Rightarrow> bytes option) \<Rightarrow> (bytes \<Rightarrow> bytes option) \<Rightarrow> string \<Rightarrow> ajna_error + bytes" where
  "base64_decode_signature b64_dec sig_from_slice s =
     (case b64_dec s of
        None \<Rightarrow> Inl (InvalidSignature ''Invalid base64url'')
      | Some bs \<Rightarrow>
          (case sig_from_slice bs of
             None \<Rightarrow> Inl (InvalidSignature ''Invalid signature'') | Some sig \<Rightarrow> Inr sig))"

definition op_new ::
  "(bytes \<Rightarrow> hash) \<Rightarrow> (bytes \<Rightarrow> string) \<Rightarrow> ('j canonical_op \<Rightarrow> bytes option) \<Rightarrow> ('sk \<Rightarrow> bytes \<Rightarrow> bytes) \<Rightarrow> int \<Rightarrow>
   string \<Rightarrow> string list \<Rightarrow> string \<Rightarrow> clock_entry \<Rightarrow> 'j delta \<Rightarrow> 'sk \<Rightarrow> string \<Rightarrow> ajna_error + 'j operation" where
  "op_new blake3 b64_enc to_vec sign now_ms doc parents actor clock dl signing_key kid =
     (let op = \<lparr>op_type = OP_TYPE, op_doc = doc, op_id = [], op_parents = parents, op_actor = actor,
                op_clock = clock, op_delta = dl, op_auth = \<lparr>ap_proof = [], ap_kid = kid\<rparr>,
                op_timestamp_ms = now_ms\<rparr>
      in case op_canonical_bytes to_vec op of
           Inl e \<Rightarrow> Inl e
         | Inr canonical \<Rightarrow>
             let op = op\<lparr>op_id := hash_to_base64url b64_enc (hash_operation blake3 canonical)\<rparr>;
                 signature = sign signing_key (hash_for_signature blake3 canonical)
             in Inr (op\<lparr>op_auth := (op_auth op)\<lparr>ap_proof := base64_encode_signature b64_enc signature\<rparr>\<rparr>))"

definition op_verify_signature ::
  "(bytes \<Rightarrow> hash) \<Rightarrow> (string \<Rightarrow> bytes option) \<Rightarrow> (bytes \<Rightarrow> bytes option) \<Rightarrow> ('j canonical_op \<Rightarrow> bytes option) \<Rightarrow>
   ('vk \<Rightarrow> bytes \<Rightarrow> bytes \<Rightarrow> bool) \<Rightarrow> 'j operation \<Rightarrow> 'vk \<Rightarrow> ajna_error + bool" where
  "op_verify_signature blake3 b64_dec sig_from_slice to_vec verify_strict op vk =
     (case op_canonical_bytes to_vec op of
        Inl e \<Rightarrow> Inl e
      | Inr canonical \<Rightarrow>
          (case base64_decode_signature b64_dec sig_from_slice (ap_proof (op_auth op)) of
             Inl e \<Rightarrow> Inl e
           | Inr signature \<Rightarrow> Inr (verify_strict vk (hash_for_signature blake3 canonical) signature)))"

definition op_verify_op_id ::
  "(bytes \<Rightarrow> hash) \<Rightarrow> (bytes \<Rightarrow> string) \<Rightarrow> ('j canonical_op \<Rightarrow> bytes option) \<Rightarrow> 'j operation \<Rightarrow> ajna_error + bool" where
  "op_verify_op_id blake3 b64_enc to_vec op =
     (case op_canonical_bytes to_vec op of
        Inl e \<Rightarrow> Inl e
      | Inr canonical \<Rightarrow> Inr (hash_to_base64url b64_enc (hash_operation blake3 canonical) = op_id op))"

definition op_lamport_time :: "'j operation \<Rightarrow> u64" where
  "op_lamport_time op = ce_counter (op_clock op)"

section \<open>Properties of signed operations\<close>

text \<open>
  An operation that was created by \<open>Operation::new\<close> passes both of its checks: its id is
  the hash of its contents and its proof verifies under the public key \<open>pk sk\<close> of the signing
  key. The codec is one whose decoder inverts its encoder, and the signature scheme one that
  accepts its own signatures.
\<close>

theorem op_new_verifies:
  assumes codec: "\<forall>bs. b64_dec (b64_enc bs) = Some bs"
    and scheme: "\<forall>sk m. sig_from_slice (sign sk m) = Some (sign sk m) \<and> verify_strict (pk sk) m (sign sk m)"
    and new: "op_new blake3 b64_enc to_vec sign now_ms doc parents actor clock dl sk kid = Inr op"
  shows "op_verify_op_id blake3 b64_enc to_vec op = Inr True \<and>
    op_verify_signature blake3 b64_dec sig_from_slice to_vec verify_strict op (pk sk) = Inr True"
  using new codec scheme
  by (auto simp: op_new_def Let_def op_verify_op_id_def op_verify_signature_def op_canonical_bytes_def
      op_canonical_def base64_decode_signature_def base64_encode_signature_def split: option.splits)

theorem op_new_verifies_witness:
  "let vk = (\<lambda>v m s. s = [v]);
       op = op_new (\<lambda>_. [1]) latin_enc (\<lambda>_. Some []) (\<lambda>sk m. [sk]) 7 ''did:x'' [] ''did:x''
              \<lparr>ce_actor_id = 0, ce_counter = 1\<rparr> (Deactivate None :: nat delta) 9 ''k''
   in \<exists>x. op = Inr x \<and> op_verify_op_id (\<lambda>_. [1]) latin_enc (\<lambda>_. Some []) x = Inr True \<and>
        op_verify_signature (\<lambda>_. [1]) latin_dec Some (\<lambda>_. Some []) vk x 9 = Inr True"
proof -
  let ?op = "op_new (\<lambda>_. [1]) latin_enc (\<lambda>_. Some []) (\<lambda>sk m. [sk]) 7 ''did:x'' [] ''did:x''
              \<lparr>ce_actor_id = 0, ce_counter = 1\<rparr> (Deactivate None :: nat delta) 9 ''k''"
  obtain x where x: "?op = Inr x" by (simp add: op_new_def op_canonical_bytes_def)
  have "op_verify_op_id (\<lambda>_. [1]) latin_enc (\<lambda>_. Some []) x = Inr True \<and>
      op_verify_signature (\<lambda>_. [1]) latin_dec Some (\<lambda>_. Some []) (\<lambda>v m s. s = [v]) x 9 = Inr True"
    by (rule op_new_verifies [where pk = "\<lambda>sk. sk", OF _ _ x]) (simp_all add: latin_codec)
  with x show ?thesis by (simp add: Let_def)
qed

text \<open>
  C19. The operation id binds the contents: two operations that carry the same id and both pass
  the id check agree in type, document, parents, actor, clock, delta and time, so that only the
  proof may differ. The conditions: the JSON text determines what was serialised, base64url is
  decodable, and the two tagged texts do not collide under the hash function.
\<close>

theorem op_id_binds:
  assumes codec: "\<forall>bs. b64_dec (b64_enc bs) = Some bs"
    and json: "\<forall>c c' x. to_vec c = Some x \<longrightarrow> to_vec c' = Some x \<longrightarrow> c = c'"
    and free: "\<forall>x y. to_vec (op_canonical a) = Some x \<longrightarrow> to_vec (op_canonical b) = Some y \<longrightarrow> \<not> collision blake3 (DST_AJNA_OP @ x) (DST_AJNA_OP @ y)"
    and a: "op_verify_op_id blake3 b64_enc to_vec a = Inr True"
    and b: "op_verify_op_id blake3 b64_enc to_vec b = Inr True"
    and same: "op_id a = op_id b"
  shows "b = a\<lparr>op_auth := op_auth b\<rparr>"
proof -
  from a b obtain x y where xy: "to_vec (op_canonical a) = Some x" "to_vec (op_canonical b) = Some y"
    and ids: "b64_enc (hash_operation blake3 x) = op_id a" "b64_enc (hash_operation blake3 y) = op_id b"
    by (auto simp: op_verify_op_id_def op_canonical_bytes_def hash_to_base64url_def split: option.splits)
  from ids same codec have "hash_operation blake3 x = hash_operation blake3 y" by (metis option.inject)
  with free xy have "x = y" by (auto simp: hash_operation_def hash_with_dst_def collision_def)
  with json xy have "op_canonical a = op_canonical b" by blast
  with same show ?thesis by (cases a; cases b) (simp add: op_canonical_def)
qed

text \<open>An operation whose proof is replaced keeps its id.\<close>

theorem op_id_binds_witness:
  "let op = \<lparr>op_type = OP_TYPE, op_doc = ''did:x'', op_id = latin_enc (DST_AJNA_OP @ [7]), op_parents = [], op_actor = ''did:x'',
          op_clock = \<lparr>ce_actor_id = 0, ce_counter = 1\<rparr>, op_delta = Deactivate None :: nat delta,
          op_auth = \<lparr>ap_proof = [], ap_kid = ''k''\<rparr>, op_timestamp_ms = 7\<rparr>;
       forged = op\<lparr>op_auth := \<lparr>ap_proof = ''forged'', ap_kid = ''z''\<rparr>\<rparr>
   in forged = op\<lparr>op_auth := op_auth forged\<rparr>"
proof -
  let ?op = "\<lparr>op_type = OP_TYPE, op_doc = ''did:x'', op_id = latin_enc (DST_AJNA_OP @ [7]), op_parents = [], op_actor = ''did:x'',
          op_clock = \<lparr>ce_actor_id = 0, ce_counter = 1\<rparr>, op_delta = Deactivate None :: nat delta,
          op_auth = \<lparr>ap_proof = [], ap_kid = ''k''\<rparr>, op_timestamp_ms = 7\<rparr>"
  let ?forged = "?op\<lparr>op_auth := \<lparr>ap_proof = ''forged'', ap_kid = ''z''\<rparr>\<rparr>"
  let ?v = "\<lambda>c. if c = op_canonical ?op then Some [7] else None" and ?H = "\<lambda>x::bytes. x"
  have "op_canonical ?forged = op_canonical ?op" by (simp add: op_canonical_def)
  then have ver: "op_verify_op_id ?H latin_enc ?v ?op = Inr True" "op_verify_op_id ?H latin_enc ?v ?forged = Inr True"
    by (simp_all add: op_verify_op_id_def op_canonical_bytes_def hash_operation_def hash_with_dst_def hash_to_base64url_def)
  have "?forged = ?op\<lparr>op_auth := op_auth ?forged\<rparr>"
  proof (rule op_id_binds [where b64_dec = latin_dec, OF _ _ _ ver])
    show "\<forall>bs. latin_dec (latin_enc bs) = Some bs" by (simp add: latin_codec)
    show "\<forall>c c' x. ?v c = Some x \<longrightarrow> ?v c' = Some x \<longrightarrow> c = c'" by (metis option.distinct(1))
    show "\<forall>x y. ?v (op_canonical ?op) = Some x \<longrightarrow> ?v (op_canonical ?forged) = Some y \<longrightarrow> \<not> collision ?H (DST_AJNA_OP @ x) (DST_AJNA_OP @ y)"
      by (simp add: collision_def)
  qed simp
  then show ?thesis unfolding Let_def .
qed

section \<open>Applying first-generation operations\<close>

text \<open>
  What applying an operation does to the vector clock, exactly: the counter of the node
  that made the operation advances by one, and for the two verification-method operations the
  counter of the replica that applies it advances by one as well, so that a replica applying
  its own method operation advances by two.
\<close>

theorem op_apply_clock:
  "\<exists>d'. op_apply now now' u op d = Inr d' \<and>
     (\<forall>n. vc_get (doc_vector_clock d') n =
        vc_get (doc_vector_clock d) n + of_bool (n = op_node_id op) +
        of_bool (n = doc_node_id d \<and> (case op of AddVerificationMethod _ _ _ \<Rightarrow> True
                    | RemoveVerificationMethod _ _ _ _ \<Rightarrow> True | _ \<Rightarrow> False)))"
  by (cases op) (simp_all add: op_apply_def doc_op_defs vc_get_increment)

text \<open>The effect of a service operation on an existing service map.\<close>

definition op_service_write :: "'j crdt_operation \<Rightarrow> (string \<times> 'j service lww_entry) option" where
  "op_service_write op =
     (case op of
        SetService svc ts node \<Rightarrow> Some (svc_id svc, lww_entry_with_timestamp svc ts node)
      | RemoveService sid ts node \<Rightarrow> Some (sid, lww_entry_tombstone service_default ts node)
      | _ \<Rightarrow> None)"

fun op_apply_all ::
  "(nat \<Rightarrow> timestamp) \<Rightarrow> (nat \<Rightarrow> 'u) \<Rightarrow> 'j crdt_operation list \<Rightarrow> ('u, 'j) ajna_document \<Rightarrow>
   ajna_error + ('u, 'j) ajna_document" where
  "op_apply_all clock uuids [] d = Inr d"
| "op_apply_all clock uuids (op # ops) d =
     (case op_apply (clock 0) (clock 1) (uuids 0) op d of
        Inl e \<Rightarrow> Inl e
      | Inr d' \<Rightarrow> op_apply_all (\<lambda>i. clock (i + 2)) (\<lambda>i. uuids (i + 1)) ops d')"

definition op_service_maps :: "'j crdt_operation list \<Rightarrow> (string, 'j service) lww_map list" where
  "op_service_maps ops = map (\<lambda>(k, e). \<lparr>lww_entries_of = [(k, e)]\<rparr>) (List.map_filter op_service_write ops)"

lemma op_apply_service:
  "\<exists>d'. op_apply now now' u op d = Inr d' \<and>
     (doc_service d = Some m \<longrightarrow> doc_service d' = Some (foldl lww_merge m (op_service_maps [op])))"
  by (cases op)
    (simp_all add: op_apply_def doc_op_defs op_service_maps_def List.map_filter_def op_service_write_def
      lww_merge_def opt_or_new_def lww_set_with_timestamp_def lww_remove_with_timestamp_def)

lemma op_apply_all_service:
  "doc_service d = Some m \<Longrightarrow>
     \<exists>d'. op_apply_all clock uuids ops d = Inr d' \<and> doc_service d' = Some (foldl lww_merge m (op_service_maps ops))"
proof (induction ops arbitrary: clock uuids d m)
  case Nil
  then show ?case by (simp add: op_service_maps_def List.map_filter_def)
next
  case (Cons op ops)
  from op_apply_service [of "clock 0" "clock 1" "uuids 0" op d m] Cons.prems obtain d'
    where step: "op_apply (clock 0) (clock 1) (uuids 0) op d = Inr d'"
      and svc: "doc_service d' = Some (foldl lww_merge m (op_service_maps [op]))" by blast
  have "op_service_maps (op # ops) = op_service_maps [op] @ op_service_maps ops"
    by (simp add: op_service_maps_def List.map_filter_def)
  with Cons.IH [OF svc] step show ?case by simp
qed

lemma op_service_maps_set: "set ops = set ops' \<Longrightarrow> set (op_service_maps ops) = set (op_service_maps ops')"
  by (simp add: op_service_maps_def List.map_filter_def)

definition op_recorded :: "'j service history \<Rightarrow> 'j crdt_operation \<Rightarrow> bool" where
  "op_recorded W op \<longleftrightarrow> (\<forall>k e. op_service_write op = Some (k, e) \<longrightarrow>
     W k (lww_timestamp e) (lww_node_id e) = (lww_value e, lww_is_tombstone e))"

lemma op_service_maps_inv:
  "\<forall>op\<in>set ops. op_recorded W op \<Longrightarrow> \<forall>x\<in>set (op_service_maps ops). lww_inv W x"
  by (auto simp: op_service_maps_def List.map_filter_def op_recorded_def lww_inv_def lww_wf_def)

text \<open>
  Operations on services may arrive in any order and repeatedly: a replica that has a
  service map ends with the same services for every list of operations with the same members,
  provided a node never stamps two different writes to a service with the same time.
\<close>

theorem op_services_order_independent:
  assumes m: "doc_service d = Some m" "lww_inv W m"
    and ops: "\<forall>op\<in>set ops. op_recorded W op" and same: "set ops = set ops'"
  shows "\<exists>a b. op_apply_all clock uuids ops d = Inr a \<and> op_apply_all clock' uuids' ops' d = Inr b \<and>
    rel_option lww_eq (doc_service a) (doc_service b)"
proof -
  obtain a b where ab: "op_apply_all clock uuids ops d = Inr a" "op_apply_all clock' uuids' ops' d = Inr b"
    and sa: "doc_service a = Some (foldl lww_merge m (op_service_maps ops))"
    and sb: "doc_service b = Some (foldl lww_merge m (op_service_maps ops'))"
    using op_apply_all_service [OF m(1)] by metis
  note inv = op_service_maps_inv [OF ops] op_service_maps_inv [of ops' W]
  have "lww_abs (foldl lww_merge m (op_service_maps ops)) = lww_abs (foldl lww_merge m (op_service_maps ops'))"
    using m(2) inv ops same op_service_maps_set [OF same] by (intro lww.converges [of W]) auto
  then have "rel_option lww_eq (doc_service a) (doc_service b)"
    unfolding sa sb using m(2) inv ops same by (intro lww_eq_option [of W]) (auto intro!: lww.inv_foldl)
  with ab show ?thesis by blast
qed

theorem op_services_order_independent_witness:
  "let d = (doc_new 1 1 ''did:x'' ''n1'')\<lparr>doc_service := Some lww_new\<rparr> :: (nat, nat) ajna_document;
       add = SetService service_default 5 ''n2''; rem = RemoveService [] 6 ''n2''
   in \<exists>a b. op_apply_all int (\<lambda>i. i) [add, rem] d = Inr a \<and> op_apply_all int (\<lambda>i. i) [rem, add, rem] d = Inr b \<and>
        rel_option lww_eq (doc_service a) (doc_service b)"
  unfolding Let_def
  by (rule op_services_order_independent [where m = lww_new and W = "\<lambda>_ ts _. (service_default, ts = 6)"])
    (auto simp: lww_inv_def lww_wf_def lww_new_def op_recorded_def op_service_write_def
      lww_entry_with_timestamp_def lww_entry_tombstone_def service_default_def)

text \<open>
  On a document that has no service map yet the order matters: a removal that arrives before
  the older addition it cancels is dropped, and the service lives on there, while a replica
  that receives the two in the order of their timestamps has it removed.
\<close>

theorem op_remove_before_set_diverges:
  assumes "doc_service d = None" and "ts < ts'"
  shows "\<exists>a b. op_apply_all clock uuids [SetService svc ts n, RemoveService (svc_id svc) ts' n'] d = Inr a \<and>
    op_apply_all clock uuids [RemoveService (svc_id svc) ts' n', SetService svc ts n] d = Inr b \<and>
    doc_get_service a (svc_id svc) = None \<and> doc_get_service b (svc_id svc) = Some svc"
  using assms
  by (simp add: op_apply_def doc_op_defs doc_get_service_def opt_or_new_def lww_set_with_timestamp_def
      lww_remove_with_timestamp_def lww_set_entry_def lww_new_def lww_get_def lww_wins_over_def
      lww_entry_with_timestamp_def lww_entry_tombstone_def)

theorem op_remove_before_set_diverges_witness:
  "let d = doc_new 1 1 ''did:x'' ''n1'' :: (nat, nat) ajna_document;
       ops = [SetService service_default 5 ''n2'', RemoveService [] 6 ''n2'']
   in \<exists>a b. op_apply_all int (\<lambda>i. i) ops d = Inr a \<and> op_apply_all int (\<lambda>i. i) (rev ops) d = Inr b \<and>
        doc_get_service a [] = None \<and> doc_get_service b [] = Some service_default"
  using op_remove_before_set_diverges [of "doc_new 1 1 ''did:x'' ''n1'' :: (nat, nat) ajna_document" 5 6 int "\<lambda>i. i"
      service_default "''n2''" "''n2''"]
  by (simp add: doc_new_def service_default_def)

end
