(* ===== verification/Ajna_Authorization.thy ===== *)
theory Ajna_Authorization
  imports Ajna_Operations
begin

text \<open>
  Who may change a document: \<open>did/src/ajna/authorization.rs\<close>. \<open>as_i64\<close> is the accessor of
  \<open>serde_json::Value\<close>; \<open>usize\<close> is 64 bits wide, so \<open>quorum as usize\<close> reads a negative
  policy value as a huge one.
\<close>

record ('u, 'j) authorization_context =
  ctx_did :: string
  ctx_actor :: string
  ctx_additional_signatures :: "string list"
  ctx_document :: "('u, 'j) ajna_document"

datatype authorization_result = Allowed | Denied string | RequiresQuorum nat nat nat

fun ar_is_allowed :: "authorization_result \<Rightarrow> bool" where
  "ar_is_allowed Allowed = True"
| "ar_is_allowed _ = False"

definition is_actor_authorized :: "string \<Rightarrow> ('u, 'j) ajna_document \<Rightarrow> 'j delta \<Rightarrow> bool" where
  "is_actor_authorized actor d dl =
     (if doc_controller d = None then actor = doc_id d
      else if doc_is_controller d actor then True
      else (case dl of
              VmAdd _ \<Rightarrow> actor = doc_id d \<or> doc_is_controller d actor
            | VmRemove _ \<Rightarrow> actor = doc_id d \<or> doc_is_controller d actor
            | RefAdd _ _ \<Rightarrow> actor = doc_id d \<or> doc_is_controller d actor
            | RefRemove _ _ \<Rightarrow> actor = doc_id d \<or> doc_is_controller d actor
            | ServiceAdd _ \<Rightarrow> actor = doc_id d \<or> doc_is_controller d actor
            | ServiceRemove _ \<Rightarrow> actor = doc_id d \<or> doc_is_controller d actor
            | ControllerAdd _ \<Rightarrow> doc_is_controller d actor
            | ControllerRemove _ \<Rightarrow> doc_is_controller d actor
            | PropSet _ _ _ \<Rightarrow> doc_is_controller d actor
            | Deactivate _ \<Rightarrow> actor = doc_id d \<or> doc_is_controller d actor))"

fun quorum_policy_key :: "'j delta \<Rightarrow> string" where
  "quorum_policy_key (VmAdd _) = ''auth.quorum.vm''"
| "quorum_policy_key (VmRemove _) = ''auth.quorum.vm''"
| "quorum_policy_key (RefAdd _ _) = ''auth.quorum.vm''"
| "quorum_policy_key (RefRemove _ _) = ''auth.quorum.vm''"
| "quorum_policy_key (ServiceAdd _) = ''auth.quorum.service''"
| "quorum_policy_key (ServiceRemove _) = ''auth.quorum.service''"
| "quorum_policy_key (ControllerAdd _) = ''auth.quorum.controller''"
| "quorum_policy_key (ControllerRemove _) = ''auth.quorum.controller''"
| "quorum_policy_key (PropSet _ _ _) = ''auth.quorum.policy''"
| "quorum_policy_key (Deactivate _) = ''auth.quorum.deactivate''"

definition as_usize :: "int \<Rightarrow> nat" where
  "as_usize i = unat (word_of_int i :: u64)"

definition get_quorum_requirement :: "('j \<Rightarrow> int option) \<Rightarrow> 'j delta \<Rightarrow> ('u, 'j) ajna_document \<Rightarrow> nat" where
  "get_quorum_requirement as_i64 dl d =
     (case doc_get_policy_int as_i64 d (quorum_policy_key dl) of
        Some quorum \<Rightarrow> as_usize quorum
      | None \<Rightarrow>
          (case doc_get_policy_int as_i64 d ''auth.quorum.update'' of
             Some quorum \<Rightarrow> as_usize quorum
           | None \<Rightarrow> 1))"

definition check_quorum ::
  "('j \<Rightarrow> int option) \<Rightarrow> 'j operation \<Rightarrow> ('u, 'j) authorization_context \<Rightarrow> authorization_result" where
  "check_quorum as_i64 op ctx =
     (let quorum_required = get_quorum_requirement as_i64 (op_delta op) (ctx_document ctx)
      in if quorum_required \<le> 1 then Allowed
         else let signers = insert (ctx_actor ctx) (set (ctx_additional_signatures ctx));
                  current_signatures = card signers
              in if current_signatures \<ge> quorum_required then Allowed
                 else RequiresQuorum quorum_required current_signatures (quorum_required - current_signatures))"

definition authorize_delta ::
  "'j delta \<Rightarrow> ('u, 'j) authorization_context \<Rightarrow> authorization_result" where
  "authorize_delta dl ctx =
     (let d = ctx_document ctx
      in case dl of
           VmAdd entry \<Rightarrow>
             if \<not> str_starts_with (vm_id entry) (doc_id d)
             then Denied ''Verification method must reference this DID'' else Allowed
         | VmRemove i \<Rightarrow>
             if doc_get_verification_method d i = None
             then Denied ''Verification method not found'' else Allowed
         | RefAdd _ r \<Rightarrow>
             if doc_get_verification_method d r = None
             then Denied (''Referenced verification method not found: '' @ r) else Allowed
         | RefRemove _ _ \<Rightarrow> Allowed
         | ServiceAdd entry \<Rightarrow>
             if svc_id entry = [] then Denied ''Service ID cannot be empty'' else Allowed
         | ServiceRemove _ \<Rightarrow> Allowed
         | PropSet key _ _ \<Rightarrow>
             if str_starts_with key ''auth.'' \<and> \<not> doc_is_controller d (ctx_actor ctx)
             then Denied ''Only controllers can modify auth policies'' else Allowed
         | ControllerAdd did \<Rightarrow>
             if \<not> str_starts_with did ''did:'' then Denied ''Invalid controller DID format'' else Allowed
         | ControllerRemove _ \<Rightarrow>
             (case doc_controller d of
                Some controllers \<Rightarrow>
                  if ors_len controllers \<le> 1 then Denied ''Cannot remove last controller'' else Allowed
              | None \<Rightarrow> Allowed)
         | Deactivate _ \<Rightarrow> Allowed)"

definition authorize ::
  "('j \<Rightarrow> int option) \<Rightarrow> 'j operation \<Rightarrow> ('u, 'j) authorization_context \<Rightarrow> ajna_error + authorization_result" where
  "authorize as_i64 op ctx =
     (let d = ctx_document ctx
      in if doc_is_deactivated d then Inr (Denied ''Cannot modify deactivated DID'')
         else if \<not> is_actor_authorized (ctx_actor ctx) d (op_delta op)
         then Inr (Denied (''Actor '' @ ctx_actor ctx @ '' is not authorized''))
         else let quorum_result = check_quorum as_i64 op ctx
              in if \<not> ar_is_allowed quorum_result then Inr quorum_result
                 else Inr (authorize_delta (op_delta op) ctx))"

definition can_apply ::
  "('j \<Rightarrow> int option) \<Rightarrow> 'j operation \<Rightarrow> ('u, 'j) ajna_document \<Rightarrow> ajna_error + authorization_result" where
  "can_apply as_i64 op d =
     authorize as_i64 op \<lparr>ctx_did = op_doc op, ctx_actor = op_actor op,
       ctx_additional_signatures = [], ctx_document = d\<rparr>"

section \<open>Who may do what\<close>

text \<open>
  The permission matrix: a controller may do everything; the DID itself may do everything
  while no controller was ever named, and afterwards everything but change controllers and
  policies.
\<close>

definition is_governance :: "'j delta \<Rightarrow> bool" where
  "is_governance dl = (case dl of ControllerAdd _ \<Rightarrow> True | ControllerRemove _ \<Rightarrow> True
     | PropSet _ _ _ \<Rightarrow> True | _ \<Rightarrow> False)"

definition permitted :: "string \<Rightarrow> ('u, 'j) ajna_document \<Rightarrow> 'j delta \<Rightarrow> bool" where
  "permitted actor d dl \<longleftrightarrow> doc_is_controller d actor \<or>
     actor = doc_id d \<and> (doc_controller d = None \<or> \<not> is_governance dl)"

lemma is_actor_authorized_permitted: "is_actor_authorized actor d dl = permitted actor d dl"
  by (cases dl) (auto simp: is_actor_authorized_def permitted_def is_governance_def doc_is_controller_def)

lemma check_quorum_allowed:
  "ar_is_allowed (check_quorum as_i64 op ctx) \<longleftrightarrow>
     get_quorum_requirement as_i64 (op_delta op) (ctx_document ctx)
       \<le> card (insert (ctx_actor ctx) (set (ctx_additional_signatures ctx)))"
proof -
  have "1 \<le> card (insert (ctx_actor ctx) (set (ctx_additional_signatures ctx)))"
    by (simp add: Suc_leI card_gt_0_iff)
  then show ?thesis by (auto simp: check_quorum_def Let_def)
qed

lemma authorize_delta_shape: "authorize_delta dl ctx = Allowed \<or> (\<exists>m. authorize_delta dl ctx = Denied m)"
  by (cases dl) (auto simp: authorize_delta_def Let_def split: option.splits)

text \<open>
  The decision of \<open>authorize\<close>, exactly: it never fails, and it allows an operation if and
  only if the document is active, the actor is permitted by the permission matrix, the actor
  and the additional signers together reach the quorum, and the delta's own check passes.
\<close>

theorem authorize_decision:
  "\<exists>r. authorize as_i64 op ctx = Inr r \<and>
     (r = Allowed \<longleftrightarrow> \<not> doc_is_deactivated (ctx_document ctx) \<and>
        permitted (ctx_actor ctx) (ctx_document ctx) (op_delta op) \<and>
        get_quorum_requirement as_i64 (op_delta op) (ctx_document ctx)
          \<le> card (insert (ctx_actor ctx) (set (ctx_additional_signatures ctx))) \<and>
        authorize_delta (op_delta op) ctx = Allowed)"
proof -
  have quorum: "(check_quorum as_i64 op ctx = Allowed) = ar_is_allowed (check_quorum as_i64 op ctx)"
    by (cases "check_quorum as_i64 op ctx") auto
  show ?thesis
    unfolding authorize_def Let_def is_actor_authorized_permitted check_quorum_allowed [symmetric]
    using quorum by (auto split: if_splits)
qed

text \<open>
  Nobody gets past the engine without standing: an allowed operation comes from the DID or a
  current controller; once the document names controllers, an allowed change of controllers or
  policy comes from a controller; and a deactivated document allows nothing.
\<close>

theorem authorize_needs_standing:
  assumes "authorize as_i64 op ctx = Inr Allowed"
  shows "(ctx_actor ctx = doc_id (ctx_document ctx) \<or> doc_is_controller (ctx_document ctx) (ctx_actor ctx)) \<and>
    (doc_controller (ctx_document ctx) \<noteq> None \<and> is_governance (op_delta op) \<longrightarrow>
       doc_is_controller (ctx_document ctx) (ctx_actor ctx)) \<and>
    \<not> doc_is_deactivated (ctx_document ctx)"
  using assms
  by (auto simp: authorize_def Let_def is_actor_authorized_permitted permitted_def split: if_splits)

theorem authorize_needs_standing_witness:
  "let d = (doc_new_with_genesis 1 1 id (\<lambda>_. 0) ''did:x'' ''n'' [''did:c''] [] :: (nat, int) ajna_document);
       ctx = \<lparr>ctx_did = ''did:x'', ctx_actor = ''did:c'', ctx_additional_signatures = [], ctx_document = d\<rparr>
   in doc_is_controller d ''did:c'' \<and> \<not> doc_is_deactivated d"
proof -
  let ?d = "doc_new_with_genesis 1 1 id (\<lambda>_. 0) ''did:x'' ''n'' [''did:c''] [] :: (nat, int) ajna_document"
  let ?ctx = "\<lparr>ctx_did = ''did:x'', ctx_actor = ''did:c'', ctx_additional_signatures = [], ctx_document = ?d\<rparr>"
  let ?op = "\<lparr>op_type = OP_TYPE, op_doc = ''did:x'', op_id = [], op_parents = [], op_actor = ''did:c'',
          op_clock = \<lparr>ce_actor_id = 0, ce_counter = 1\<rparr>, op_delta = ControllerAdd ''did:e'',
          op_auth = \<lparr>ap_proof = [], ap_kid = ''k''\<rparr>, op_timestamp_ms = 7\<rparr>"
  have "authorize Some ?op ?ctx = Inr Allowed" by code_simp
  from authorize_needs_standing [OF this] show ?thesis
    by (simp add: is_governance_def) (simp add: doc_new_with_genesis_def doc_new_def Let_def)
qed

text \<open>
  A policy value below zero makes a quorum that no list of fewer than \<open>2^63\<close> signers
  reaches: the cast to \<open>usize\<close> turns it into a huge number, so the operations it governs are
  refused for good, the repair of the policy included when its own quorum is the negative one.
\<close>

theorem negative_quorum_unreachable:
  assumes "doc_get_policy_int as_i64 (ctx_document ctx) (quorum_policy_key (op_delta op)) = Some q"
    and "- (2 ^ 63) \<le> q" "q < 0" and "length (ctx_additional_signatures ctx) + 1 < 2 ^ 63"
  shows "authorize as_i64 op ctx \<noteq> Inr Allowed"
proof -
  have "2 ^ 63 \<le> as_usize q"
  proof -
    from assms have "q mod 2 ^ 64 = q + 2 ^ 64"
      using mod_pos_pos_trivial [of "q + 2 ^ 64" "2 ^ 64"] by simp
    then have "uint (word_of_int q :: u64) = q + 2 ^ 64" by (simp add: unsigned_of_int take_bit_eq_mod)
    then have "int (as_usize q) = q + 2 ^ 64" by (simp add: as_usize_def)
    with assms(2) have "int (2 ^ 63) \<le> int (as_usize q)" by simp
    then show ?thesis by (simp only: of_nat_le_iff)
  qed
  moreover have "card (insert (ctx_actor ctx) (set (ctx_additional_signatures ctx)))
      \<le> length (ctx_additional_signatures ctx) + 1"
    using card_length [of "ctx_actor ctx # ctx_additional_signatures ctx"] by simp
  ultimately have "\<not> ar_is_allowed (check_quorum as_i64 op ctx)"
    using assms by (simp add: check_quorum_allowed get_quorum_requirement_def)
  then show ?thesis by (auto simp: authorize_def Let_def split: if_splits)
qed

theorem negative_quorum_unreachable_witness:
  "let d = (doc_new_with_genesis 1 1 id (\<lambda>_. 0) ''did:x'' ''n'' [''did:c''] [(''auth.quorum.policy'', -1)] :: (nat, int) ajna_document);
       ctx = \<lparr>ctx_did = ''did:x'', ctx_actor = ''did:c'', ctx_additional_signatures = [], ctx_document = d\<rparr>;
       op = \<lparr>op_type = OP_TYPE, op_doc = ''did:x'', op_id = [], op_parents = [], op_actor = ''did:c'',
          op_clock = \<lparr>ce_actor_id = 0, ce_counter = 1\<rparr>, op_delta = PropSet ''auth.quorum.policy'' 1 9,
          op_auth = \<lparr>ap_proof = [], ap_kid = ''k''\<rparr>, op_timestamp_ms = 7\<rparr>
   in authorize Some op ctx \<noteq> Inr Allowed"
  unfolding Let_def
  by (rule negative_quorum_unreachable [where q = "-1"]) (code_simp, simp_all)

text \<open>
  A governed operation cannot be applied through \<open>can_apply\<close> once its quorum is two or more:
  the context it builds carries no additional signatures, and the actor alone counts as one.
\<close>

theorem can_apply_quorum_blocked:
  assumes "2 \<le> get_quorum_requirement as_i64 (op_delta op) d"
  shows "can_apply as_i64 op d \<noteq> Inr Allowed"
proof -
  let ?ctx = "\<lparr>ctx_did = op_doc op, ctx_actor = op_actor op, ctx_additional_signatures = [], ctx_document = d\<rparr>"
  have "\<not> ar_is_allowed (check_quorum as_i64 op ?ctx)" using assms by (simp add: check_quorum_allowed)
  then show ?thesis by (auto simp: can_apply_def authorize_def Let_def split: if_splits)
qed

theorem can_apply_quorum_blocked_witness:
  "let d = (doc_new_with_genesis 1 1 id (\<lambda>_. 0) ''did:x'' ''n'' [''did:c''] [(''auth.quorum.update'', 2)] :: (nat, int) ajna_document);
       op = \<lparr>op_type = OP_TYPE, op_doc = ''did:x'', op_id = [], op_parents = [], op_actor = ''did:c'',
          op_clock = \<lparr>ce_actor_id = 0, ce_counter = 1\<rparr>, op_delta = Deactivate None,
          op_auth = \<lparr>ap_proof = [], ap_kid = ''k''\<rparr>, op_timestamp_ms = 7\<rparr>
   in can_apply Some op d \<noteq> Inr Allowed"
  unfolding Let_def by (rule can_apply_quorum_blocked) code_simp

section \<open>Controllers\<close>

definition doc_controller_count :: "('u, 'j) ajna_document \<Rightarrow> nat" where
  "doc_controller_count d = (case doc_controller d of None \<Rightarrow> 0 | Some c \<Rightarrow> ors_len c)"

lemma ors_len_add: "ors_len (ors_add e u s) > 0"
  by (cases "ors_elements_of s") (auto simp: ors_len_def ors_add_def)

lemma ors_len_remove:
  assumes "ors_inv s" and "1 < ors_len s"
  shows "0 < ors_len (ors_remove e s)"
proof -
  let ?m = "ors_elements_of s"
  have wf: "hm_wf ?m" using assms(1) by (simp add: ors_inv_def)
  have "dom (map_of (hm_remove e ?m)) = dom (map_of ?m) - {e}" by (auto split: if_splits)
  then have "length ?m - 1 \<le> length (hm_remove e ?m)"
    using wf by (simp add: hm_length_card finite_dom_map_of card_Diff_singleton_if)
  with assms(2) have "0 < length (hm_remove e ?m)" unfolding ors_len_def by linarith
  with assms(2) show ?thesis by (auto simp: ors_len_def ors_remove_def split: option.splits)
qed

lemma doc_delta_controller:
  assumes "doc_apply_delta_v2 millis now now' u dl d = Inr d'"
  shows "doc_controller d' =
    (case dl of ControllerAdd c \<Rightarrow> Some (ors_add c u (opt_or_new ors_new (doc_controller d)))
     | ControllerRemove c \<Rightarrow> map_option (ors_remove c) (doc_controller d) | _ \<Rightarrow> doc_controller d)"
proof (cases dl)
  case (RefAdd p r)
  with assms show ?thesis by (cases p) (auto simp: doc_apply_delta_v2_def doc_add_purpose_ref_def)
next
  case (RefRemove p r)
  with assms show ?thesis by (cases p) (auto simp: doc_apply_delta_v2_def doc_remove_purpose_ref_def)
next
  case (PropSet key v ts)
  with assms show ?thesis by (cases "millis (sint ts)") (auto simp: doc_apply_delta_v2_def)
qed (use assms in \<open>auto simp: doc_apply_delta_v2_def\<close>)

text \<open>A replica that applies an operation after the engine allowed it on the current document.\<close>

inductive authorized_step ::
  "(int \<Rightarrow> timestamp option) \<Rightarrow> ('j \<Rightarrow> int option) \<Rightarrow> ('u, 'j) ajna_document \<Rightarrow> ('u, 'j) ajna_document \<Rightarrow> bool"
  for millis as_i64 where
  "authorize as_i64 op ctx = Inr Allowed \<Longrightarrow> ctx_document ctx = d \<Longrightarrow> doc_fresh u d \<Longrightarrow>
   doc_apply_delta_v2 millis now now' u (op_delta op) d = Inr d' \<Longrightarrow> authorized_step millis as_i64 d d'"

lemma authorized_step_controllers:
  assumes "authorized_step millis as_i64 d d'" and "doc_wf d" and "0 < doc_controller_count d"
  shows "doc_wf d' \<and> 0 < doc_controller_count d'"
  using assms
proof (induction rule: authorized_step.induct)
  case (1 op ctx d u now now' d')
  from doc_wf_delta [OF 1(5,3,4)] have wf: "doc_wf d'" .
  from 1(6) obtain c where c: "doc_controller d = Some c" "0 < ors_len c"
    by (auto simp: doc_controller_count_def split: option.splits)
  from 1(5) c(1) have inv: "ors_inv c" by (simp add: doc_wf_def doc_refs_def)
  have "1 < ors_len c" if "op_delta op = ControllerRemove x" for x
    using 1(1,2) c(1) that
    by (auto simp: authorize_def Let_def authorize_delta_def split: if_splits)
  with c inv doc_delta_controller [OF 1(4)] have "0 < doc_controller_count d'"
    by (cases "op_delta op") (auto simp: doc_controller_count_def ors_len_add ors_len_remove)
  with wf show ?case ..
qed

text \<open>
  C20. A document with a controller is never left without one by operations that the engine
  allowed, in any sequence of them.
\<close>

theorem authorized_keeps_a_controller:
  assumes "(authorized_step millis as_i64)\<^sup>*\<^sup>* d d'" and "doc_wf d" and "0 < doc_controller_count d"
  shows "0 < doc_controller_count d'"
proof -
  from assms have "doc_wf d' \<and> 0 < doc_controller_count d'"
    by (induction rule: rtranclp_induct) (auto dest: authorized_step_controllers)
  then show ?thesis ..
qed

definition demo_controlled :: "(nat, int) ajna_document" where
  "demo_controlled = doc_new_with_genesis 1 1 id (\<lambda>_. 0) ''did:x'' ''n'' [''did:a'', ''did:b''] []"

definition demo_operation :: "string \<Rightarrow> int delta \<Rightarrow> int operation" where
  "demo_operation actor dl = \<lparr>op_type = OP_TYPE, op_doc = ''did:x'', op_id = [], op_parents = [], op_actor = actor,
     op_clock = \<lparr>ce_actor_id = 0, ce_counter = 1\<rparr>, op_delta = dl,
     op_auth = \<lparr>ap_proof = [], ap_kid = ''k''\<rparr>, op_timestamp_ms = 7\<rparr>"

definition demo_without :: "string \<Rightarrow> (nat, int) ajna_document" where
  "demo_without c = (case doc_apply_delta_v2 Some 2 3 9 (ControllerRemove c) demo_controlled of
     Inr d \<Rightarrow> d | Inl _ \<Rightarrow> demo_controlled)"

lemma demo_wf: "doc_wf demo_controlled"
  by (simp add: demo_controlled_def doc_wf_def doc_refs_def doc_new_with_genesis_def doc_new_def ors_inv_new vc_wf_new
      eval_nat_numeral Let_def enumerate_eq_zip)
    (simp add: ors_add_def ors_new_def ors_entry_or_default_def ors_inv_def ors_live_def)

lemma demo_fresh: "doc_fresh 9 demo_controlled"
  by (simp add: demo_controlled_def doc_fresh_def doc_refs_def doc_new_with_genesis_def doc_new_def Let_def
      ors_new_def ors_add_def)

theorem authorized_keeps_a_controller_witness: "0 < doc_controller_count (demo_without ''did:a'')"
proof -
  let ?op = "demo_operation ''did:b'' (ControllerRemove ''did:a'')"
  let ?ctx = "\<lparr>ctx_did = ''did:x'', ctx_actor = ''did:b'', ctx_additional_signatures = [], ctx_document = demo_controlled\<rparr>"
  have step: "authorized_step Some Some demo_controlled (demo_without ''did:a'')"
  proof (rule authorized_step.intros [where op = ?op and ctx = ?ctx and u = 9 and now = 2 and now' = 3])
    show "authorize Some ?op ?ctx = Inr Allowed" by code_simp
    show "doc_fresh 9 demo_controlled" by (rule demo_fresh)
  qed (simp_all add: demo_operation_def demo_without_def doc_apply_delta_v2_def)
  have "0 < doc_controller_count demo_controlled" by code_simp
  with step show ?thesis by (rule authorized_keeps_a_controller [OF r_into_rtranclp demo_wf])
qed

text \<open>
  Two replicas can lock a document together: each of two controllers removes the other with
  an operation the engine allows on its replica, and after the replicas merge no controller is
  left; from then on every change of controllers or policy is refused, whoever asks and
  whoever co-signs.
\<close>

theorem concurrent_removals_lock_out:
  "\<exists>(d :: (nat, int) ajna_document) a b m. authorized_step Some Some d a \<and> authorized_step Some Some d b \<and>
     doc_merge a b = Inr m \<and> doc_controller_count m = 0 \<and> doc_controller m \<noteq> None \<and>
     \<not> (\<exists>as_i64 op ctx. ctx_document ctx = m \<and> is_governance (op_delta op) \<and>
        authorize as_i64 op ctx = Inr Allowed)"
proof -
  have step: "authorized_step Some Some demo_controlled (demo_without c)"
    if "c = ''did:a'' \<and> actor = ''did:b'' \<or> c = ''did:b'' \<and> actor = ''did:a''" for c actor
  proof (rule authorized_step.intros [where op = "demo_operation actor (ControllerRemove c)" and u = 9 and now = 2 and now' = 3])
    let ?ctx = "\<lparr>ctx_did = ''did:x'', ctx_actor = actor, ctx_additional_signatures = [], ctx_document = demo_controlled\<rparr>"
    show "authorize Some (demo_operation actor (ControllerRemove c)) ?ctx = Inr Allowed"
      using that by (elim disjE conjE; hypsubst) code_simp+
    show "doc_fresh 9 demo_controlled" by (rule demo_fresh)
  qed (simp_all add: demo_operation_def demo_without_def doc_apply_delta_v2_def)
  let ?m = "doc_merged (demo_without ''did:a'') (demo_without ''did:b'')"
  have "doc_merge (demo_without ''did:a'') (demo_without ''did:b'') = Inr ?m"
    by (simp add: doc_merge_def demo_without_def doc_apply_delta_v2_def)
  moreover have "doc_controller_count ?m = 0" by code_simp
  moreover have some: "doc_controller ?m \<noteq> None" by code_simp
  moreover have none: "\<not> doc_is_controller ?m x" for x
    using \<open>doc_controller_count ?m = 0\<close> some
    by (auto simp: doc_is_controller_def doc_controller_count_def ors_contains_def ors_len_def split: option.splits)
  moreover have "authorize as_i64 op ctx \<noteq> Inr Allowed"
    if "ctx_document ctx = ?m \<and> is_governance (op_delta op)" for as_i64 and op :: "int operation" and ctx
    using that some none
    by (auto simp: authorize_def Let_def is_actor_authorized_permitted permitted_def split: if_splits)
  ultimately show ?thesis using step by blast
qed

end
