(* ===== verification/Merkle_Dag.thy ===== *)
theory Merkle_Dag
  imports Ajna_Operations
begin

text \<open>
  The operation history of a DID: \<open>did/src/ajna/merkle_dag.rs\<close>. The crates it calls are the
  fields of \<open>dag_env\<close>: the hash function, the base64url encoder, serde's JSON text of an
  operation, chrono's RFC 3339 text of a date and its conversion from milliseconds. The
  iteration order of the head set shows in \<open>get_heads\<close>, so the set is a list without
  duplicates.
\<close>

record 'j dag_env =
  env_blake3 :: "bytes \<Rightarrow> hash"
  env_b64_enc :: "bytes \<Rightarrow> string"
  env_op_json :: "'j crdt_operation \<Rightarrow> string option"
  env_rfc3339 :: "timestamp \<Rightarrow> string"
  env_millis :: "int \<Rightarrow> timestamp option"

datatype 'j operation_storage = Legacy "'j crdt_operation list" | V2 "'j operation"

record 'j dag_node =
  dn_operations :: "'j operation_storage"
  dn_timestamp :: timestamp
  dn_parents :: "string list"
  dn_hash :: string
  dn_node_id :: string

definition dn_hash_input ::
  "'j dag_env \<Rightarrow> 'j operation_storage \<Rightarrow> string list \<Rightarrow> timestamp \<Rightarrow> string \<Rightarrow> bytes" where
  "dn_hash_input env ops parents ts node =
     DST_AJNA_ROOT @
     (case ops of
        Legacy os \<Rightarrow> concat (map (\<lambda>op. case env_op_json env op of None \<Rightarrow> [] | Some s \<Rightarrow> str_bytes s) os)
      | V2 op \<Rightarrow> str_bytes (op_id op)) @
     concat (map str_bytes parents) @ str_bytes (env_rfc3339 env ts) @ str_bytes node"

definition dn_compute_hash ::
  "'j dag_env \<Rightarrow> 'j operation_storage \<Rightarrow> string list \<Rightarrow> timestamp \<Rightarrow> string \<Rightarrow> string" where
  "dn_compute_hash env ops parents ts node =
     hash_to_base64url (env_b64_enc env) (env_blake3 env (dn_hash_input env ops parents ts node))"

definition dn_new ::
  "'j dag_env \<Rightarrow> timestamp \<Rightarrow> 'j crdt_operation list \<Rightarrow> string list \<Rightarrow> string \<Rightarrow> 'j dag_node" where
  "dn_new env now ops parents node =
     \<lparr>dn_operations = Legacy ops, dn_timestamp = now, dn_parents = parents,
      dn_hash = dn_compute_hash env (Legacy ops) parents now node, dn_node_id = node\<rparr>"

text \<open>\<open>None\<close>: the millisecond count is out of chrono's range and the \<open>unwrap\<close> panics.\<close>

definition dn_from_operation_v2 :: "'j dag_env \<Rightarrow> 'j operation \<Rightarrow> string \<Rightarrow> 'j dag_node option" where
  "dn_from_operation_v2 env op node =
     (case env_millis env (op_timestamp_ms op) of
        None \<Rightarrow> None
      | Some ts \<Rightarrow>
          Some \<lparr>dn_operations = V2 op, dn_timestamp = ts, dn_parents = op_parents op,
            dn_hash = dn_compute_hash env (V2 op) (op_parents op) ts node, dn_node_id = node\<rparr>)"

definition dn_verify_hash :: "'j dag_env \<Rightarrow> 'j dag_node \<Rightarrow> bool" where
  "dn_verify_hash env n \<longleftrightarrow>
     dn_compute_hash env (dn_operations n) (dn_parents n) (dn_timestamp n) (dn_node_id n) = dn_hash n"

definition dn_get_operations :: "'j dag_node \<Rightarrow> 'j crdt_operation list" where
  "dn_get_operations n = (case dn_operations n of Legacy ops \<Rightarrow> ops | V2 _ \<Rightarrow> [])"

definition dn_get_operation_v2 :: "'j dag_node \<Rightarrow> 'j operation option" where
  "dn_get_operation_v2 n = (case dn_operations n of V2 op \<Rightarrow> Some op | Legacy _ \<Rightarrow> None)"

record 'j merkle_dag =
  dag_nodes :: "(string, 'j dag_node) hash_map"
  dag_heads :: "string list"
  dag_genesis :: "string option"

definition dag_new :: "'j merkle_dag" where
  "dag_new = \<lparr>dag_nodes = [], dag_heads = [], dag_genesis = None\<rparr>"

definition dag_contains :: "'j merkle_dag \<Rightarrow> string \<Rightarrow> bool" where
  "dag_contains g h \<longleftrightarrow> hm_contains (dag_nodes g) h"

text \<open>Insertion into and removal from the head set, in some order.\<close>

definition heads_insert :: "string \<Rightarrow> string list \<Rightarrow> string list" where
  "heads_insert h hs = (if h \<in> set hs then hs else hs @ [h])"

definition dag_add_node ::
  "'j dag_env \<Rightarrow> 'j dag_node \<Rightarrow> 'j merkle_dag \<Rightarrow> ajna_error + (string \<times> 'j merkle_dag)" where
  "dag_add_node env node g =
     (if \<not> dn_verify_hash env node then Inl (MerkleDag ''Invalid node hash'')
      else case find (\<lambda>p. \<not> dag_contains g p) (dn_parents node) of
             Some p \<Rightarrow> Inl (MerkleDag (''Parent node not found: '' @ p))
           | None \<Rightarrow>
               let h = dn_hash node;
                   genesis = (if dag_nodes g = [] then Some h else dag_genesis g);
                   heads = fold removeAll (dn_parents node) (dag_heads g)
               in Inr (h, g\<lparr>dag_genesis := genesis, dag_heads := heads_insert h heads,
                            dag_nodes := hm_insert h node (dag_nodes g)\<rparr>))"

definition dag_get_node :: "'j merkle_dag \<Rightarrow> string \<Rightarrow> 'j dag_node option" where
  "dag_get_node g h = hm_get (dag_nodes g) h"

definition dag_get_heads :: "'j merkle_dag \<Rightarrow> 'j dag_node list" where
  "dag_get_heads g = List.map_filter (hm_get (dag_nodes g)) (dag_heads g)"

definition dag_get_genesis :: "'j merkle_dag \<Rightarrow> 'j dag_node option" where
  "dag_get_genesis g = (case dag_genesis g of None \<Rightarrow> None | Some h \<Rightarrow> hm_get (dag_nodes g) h)"

text \<open>
  The recursion of \<open>visit_node\<close> is given a depth bound; \<open>None\<close> is running out of it. The
  state is \<open>(visited, temp_mark, result)\<close>. \<open>topological_sort\<close> starts with one more than
  the number of nodes, which is shown to be enough for every graph.
\<close>

fun dag_visit_node ::
  "nat \<Rightarrow> 'j merkle_dag \<Rightarrow> string \<Rightarrow> string set \<times> string set \<times> 'j dag_node list \<Rightarrow>
   (string set \<times> string set \<times> 'j dag_node list) option" where
  "dag_visit_node 0 g h st = None"
| "dag_visit_node (Suc n) g h (visited, temp_mark, result) =
     (if h \<in> visited then Some (visited, temp_mark, result)
      else if h \<in> temp_mark then Some (visited, temp_mark, result)
      else
        (case fold (\<lambda>(child_hash, child_node) st.
                 case st of None \<Rightarrow> None
                 | Some s \<Rightarrow> if h \<in> set (dn_parents child_node) then dag_visit_node n g child_hash s else Some s)
               (dag_nodes g) (Some (visited, insert h temp_mark, result)) of
           None \<Rightarrow> None
         | Some (visited', temp_mark', result') \<Rightarrow>
             Some (insert h visited', temp_mark' - {h},
               case hm_get (dag_nodes g) h of None \<Rightarrow> result' | Some node \<Rightarrow> result' @ [node])))"

definition dag_topological_sort :: "'j merkle_dag \<Rightarrow> 'j dag_node list option" where
  "dag_topological_sort g =
     (case dag_genesis g of
        None \<Rightarrow> Some []
      | Some h \<Rightarrow>
          (case dag_visit_node (Suc (length (dag_nodes g))) g h ({}, {}, []) of
             None \<Rightarrow> None
           | Some (_, _, result) \<Rightarrow> Some (rev result)))"

definition dag_compute_root :: "'j dag_env \<Rightarrow> 'j merkle_dag \<Rightarrow> string" where
  "dag_compute_root env g =
     hash_to_base64url (env_b64_enc env)
       (env_blake3 env (DST_AJNA_ROOT @ concat (map str_bytes (sort (dag_heads g)))))"

definition dag_get_all_operations :: "'j merkle_dag \<Rightarrow> 'j crdt_operation list option" where
  "dag_get_all_operations g = map_option (\<lambda>ns. concat (map dn_get_operations ns)) (dag_topological_sort g)"

definition dag_get_all_operations_v2 :: "'j merkle_dag \<Rightarrow> 'j operation list option" where
  "dag_get_all_operations_v2 g = map_option (List.map_filter dn_get_operation_v2) (dag_topological_sort g)"

definition dag_get_tips :: "'j merkle_dag \<Rightarrow> ajna_error + string list" where
  "dag_get_tips g =
     Inr (map (\<lambda>n. case dn_operations n of V2 op \<Rightarrow> op_id op | Legacy _ \<Rightarrow> dn_hash n) (dag_get_heads g))"

text \<open>
  The loop of \<open>merge\<close>: the graph reached when it stops, and whether it stopped at an error.
\<close>

fun dag_merge_loop ::
  "'j dag_env \<Rightarrow> 'j merkle_dag \<Rightarrow> 'j dag_node list \<Rightarrow> 'j merkle_dag \<Rightarrow> 'j merkle_dag \<times> (ajna_error + unit)" where
  "dag_merge_loop env other [] self = (self, Inr ())"
| "dag_merge_loop env other (node # rest) self =
     (if dag_contains self (dn_hash node) then dag_merge_loop env other rest self
      else if list_ex (\<lambda>p. \<not> dag_contains self p \<and> \<not> dag_contains other p) (dn_parents node)
      then dag_merge_loop env other rest self
      else case dag_add_node env node self of
             Inl e \<Rightarrow> (self, Inl e)
           | Inr (_, self') \<Rightarrow> dag_merge_loop env other rest self')"

definition dag_merge ::
  "'j dag_env \<Rightarrow> 'j merkle_dag \<Rightarrow> 'j merkle_dag \<Rightarrow> 'j merkle_dag \<times> (ajna_error + unit)" where
  "dag_merge env self other =
     dag_merge_loop env other (sort_key dn_timestamp (hm_values (dag_nodes other))) self"

definition dag_len :: "'j merkle_dag \<Rightarrow> nat" where
  "dag_len g = length (dag_nodes g)"

definition dag_is_empty :: "'j merkle_dag \<Rightarrow> bool" where
  "dag_is_empty g \<longleftrightarrow> dag_nodes g = []"

definition dag_node_count :: "'j merkle_dag \<Rightarrow> nat" where
  "dag_node_count g = dag_len g"

definition dag_get_all_hashes :: "'j merkle_dag \<Rightarrow> string list" where
  "dag_get_all_hashes g = hm_keys (dag_nodes g)"

section \<open>Invariant\<close>

text \<open>
  Keys are the hashes of their nodes, parents are present, the heads are the nodes without
  children, there is a genesis as soon as there is a node, and edges go upwards in some rank.
\<close>

definition dag_keys :: "'j merkle_dag \<Rightarrow> string set" where
  "dag_keys g = set (hm_keys (dag_nodes g))"

definition dag_child :: "'j merkle_dag \<Rightarrow> string \<Rightarrow> string \<Rightarrow> bool" where
  "dag_child g p c \<longleftrightarrow> (\<exists>n. hm_get (dag_nodes g) c = Some n \<and> p \<in> set (dn_parents n))"

definition dag_ranked :: "'j merkle_dag \<Rightarrow> (string \<Rightarrow> nat) \<Rightarrow> bool" where
  "dag_ranked g r \<longleftrightarrow> (\<forall>p c. dag_child g p c \<longrightarrow> r p < r c)"

definition dag_inv :: "'j dag_env \<Rightarrow> 'j merkle_dag \<Rightarrow> bool" where
  "dag_inv env g \<longleftrightarrow> hm_wf (dag_nodes g) \<and>
     (\<forall>h n. hm_get (dag_nodes g) h = Some n \<longrightarrow>
        dn_hash n = h \<and> dn_verify_hash env n \<and> set (dn_parents n) \<subseteq> dag_keys g) \<and>
     distinct (dag_heads g) \<and> set (dag_heads g) = {h \<in> dag_keys g. \<nexists>c. dag_child g h c} \<and>
     (case dag_genesis g of None \<Rightarrow> dag_nodes g = [] | Some h \<Rightarrow> h \<in> dag_keys g) \<and>
     (\<exists>r. dag_ranked g r)"

lemma dag_keys_contains: "h \<in> dag_keys g \<longleftrightarrow> dag_contains g h"
  by (simp add: dag_keys_def dag_contains_def map_of_eq_None_iff)

lemma dag_keys_get: "h \<in> dag_keys g \<longleftrightarrow> (\<exists>n. hm_get (dag_nodes g) h = Some n)"
  by (simp add: dag_keys_contains dag_contains_def)

lemma dag_keys_empty: "dag_keys g = {} \<longleftrightarrow> dag_nodes g = []"
  by (simp add: dag_keys_def)

lemma dag_inv_new: "dag_inv env dag_new"
  by (simp add: dag_inv_def dag_new_def dag_keys_def dag_ranked_def dag_child_def)

lemma dag_add_node_ok:
  "dag_add_node env node g = Inr (h, g') \<longleftrightarrow>
     h = dn_hash node \<and> dn_verify_hash env node \<and> set (dn_parents node) \<subseteq> dag_keys g \<and>
     g' = g\<lparr>dag_genesis := (if dag_nodes g = [] then Some h else dag_genesis g),
            dag_heads := heads_insert h (fold removeAll (dn_parents node) (dag_heads g)),
            dag_nodes := hm_insert h node (dag_nodes g)\<rparr>"
proof -
  have "find (\<lambda>p. \<not> dag_contains g p) (dn_parents node) = None \<longleftrightarrow> set (dn_parents node) \<subseteq> dag_keys g"
    by (auto simp: find_None_iff dag_keys_contains)
  then show ?thesis by (auto simp: dag_add_node_def Let_def split: option.splits)
qed

lemma fold_removeAll: "fold removeAll ps hs = filter (\<lambda>h. h \<notin> set ps) hs"
  by (induction ps arbitrary: hs) (auto simp: removeAll_filter_not_eq intro!: filter_cong)

lemma heads_insert_set [simp]: "set (heads_insert h hs) = insert h (set hs)"
  "distinct (heads_insert h hs) = distinct hs"
  by (auto simp: heads_insert_def)

lemma dag_add_node_fields:
  assumes "dag_add_node env node g = Inr (h, g')"
  shows "dag_nodes g' = hm_insert (dn_hash node) node (dag_nodes g)"
    "dag_heads g' = heads_insert (dn_hash node) (filter (\<lambda>h. h \<notin> set (dn_parents node)) (dag_heads g))"
    "dag_genesis g' = (if dag_nodes g = [] then Some (dn_hash node) else dag_genesis g)"
    "dn_verify_hash env node" "set (dn_parents node) \<subseteq> dag_keys g" "h = dn_hash node"
  using assms by (simp_all add: dag_add_node_ok fold_removeAll)

lemma dag_add_node_keys:
  "dag_add_node env node g = Inr (h, g') \<Longrightarrow> dag_keys g' = insert (dn_hash node) (dag_keys g)"
  by (rule set_eqI) (simp add: dag_keys_get dag_add_node_fields)

lemma dag_add_node_child:
  "dag_add_node env node g = Inr (h, g') \<Longrightarrow>
     dag_child g' p c \<longleftrightarrow> (if c = dn_hash node then p \<in> set (dn_parents node) else dag_child g p c)"
  by (simp add: dag_child_def dag_add_node_fields)

text \<open>Adding a node that is not there yet keeps the invariant.\<close>

lemma dag_inv_add_node:
  assumes inv: "dag_inv env g" and add: "dag_add_node env node g = Inr (h, g')"
    and fresh: "dn_hash node \<notin> dag_keys g"
  shows "dag_inv env g'"
proof -
  let ?h = "dn_hash node"
  note ok = dag_add_node_fields [OF add]
  have parents: "\<not> dag_child g ?h c" for c
    using inv fresh by (auto simp: dag_inv_def dag_child_def)
  have self: "?h \<notin> set (dn_parents node)" using ok fresh by auto
  have new: "\<not> dag_child g p ?h" for p using fresh by (auto simp: dag_child_def dag_keys_get)
  obtain r where r: "dag_ranked g r" using inv by (auto simp: dag_inv_def)
  define r' where "r' = r(?h := Suc (sum_list (map r (dn_parents node))))"
  have rank: "r p \<le> sum_list (map r (dn_parents node))" if "p \<in> set (dn_parents node)" for p
    using that by (simp add: member_le_sum_list)
  have "dag_ranked g' r'"
    using r rank self parents
    by (auto simp: dag_ranked_def dag_add_node_child [OF add] r'_def less_Suc_eq_le)
  moreover have "set (dag_heads g') = {x \<in> dag_keys g'. \<nexists>c. dag_child g' x c}"
  proof -
    have "(\<exists>c. dag_child g' x c) \<longleftrightarrow> x \<in> set (dn_parents node) \<or> (\<exists>c. dag_child g x c)" for x
      unfolding dag_add_node_child [OF add] using new by metis
    then show ?thesis
      using inv parents self by (auto simp: ok(2) dag_add_node_keys [OF add] dag_inv_def)
  qed
  moreover have "dn_hash n = k \<and> dn_verify_hash env n \<and> set (dn_parents n) \<subseteq> dag_keys g'"
    if "hm_get (dag_nodes g') k = Some n" for k n
    using that inv ok by (fastforce simp: dag_add_node_keys [OF add] dag_inv_def split: if_splits)
  moreover have "case dag_genesis g' of None \<Rightarrow> dag_nodes g' = [] | Some h \<Rightarrow> h \<in> dag_keys g'"
    using inv ok by (auto simp: dag_add_node_keys [OF add] dag_inv_def split: option.splits)
  moreover have "hm_wf (dag_nodes g')" "distinct (dag_heads g')"
    using inv ok by (simp_all add: dag_inv_def)
  ultimately show ?thesis unfolding dag_inv_def by blast
qed

text \<open>A history grown by adding nodes that are not there yet.\<close>

inductive dag_grows :: "'j dag_env \<Rightarrow> 'j merkle_dag \<Rightarrow> 'j merkle_dag \<Rightarrow> bool" for env where
  start: "dag_grows env g g"
| step: "dag_grows env g g' \<Longrightarrow> \<not> dag_contains g' (dn_hash node) \<Longrightarrow>
    dag_add_node env node g' = Inr (h, g'') \<Longrightarrow> dag_grows env g g''"

lemma dag_grows_inv: "dag_grows env g g' \<Longrightarrow> dag_inv env g \<Longrightarrow> dag_inv env g'"
  by (induction rule: dag_grows.induct) (auto intro: dag_inv_add_node simp: dag_keys_contains)

lemma dag_grows_keeps: "dag_grows env g g' \<Longrightarrow> hm_get (dag_nodes g) h = Some n \<Longrightarrow> hm_get (dag_nodes g') h = Some n"
  by (induction rule: dag_grows.induct) (auto simp: dag_add_node_ok dag_contains_def)

text \<open>
  C6. A history built by adding new nodes is well formed: every node verifies its hash and is
  filed under it, all parents are present, the heads are exactly the nodes nobody has as a
  parent, and the graph has no cycle; nodes already there stay unchanged.
\<close>

theorem dag_history_well_formed:
  assumes "dag_grows env dag_new g" and "dag_grows env g g'"
  shows "dag_inv env g' \<and> \<not> (\<exists>h. (dag_child g')\<^sup>+\<^sup>+ h h) \<and> map_of (dag_nodes g) \<subseteq>\<^sub>m map_of (dag_nodes g')"
proof -
  have inv: "dag_inv env g'"
    using assms by (blast intro: dag_grows_inv dag_inv_new)
  then obtain r where r: "dag_ranked g' r" by (auto simp: dag_inv_def)
  have "r a < r b" if "(dag_child g')\<^sup>+\<^sup>+ a b" for a b
    using that by (induction rule: tranclp_induct) (use r in \<open>auto simp: dag_ranked_def intro: less_trans\<close>)
  then have "\<not> (\<exists>h. (dag_child g')\<^sup>+\<^sup>+ h h)" by blast
  moreover have "map_of (dag_nodes g) \<subseteq>\<^sub>m map_of (dag_nodes g')"
    using dag_grows_keeps [OF assms(2)] by (fastforce simp: map_le_def)
  ultimately show ?thesis using inv by blast
qed

definition demo_env :: "nat dag_env" where
  "demo_env = \<lparr>env_blake3 = id, env_b64_enc = latin_enc, env_op_json = (\<lambda>_. Some ''op''),
     env_rfc3339 = (\<lambda>t. replicate (nat t) CHR ''i''), env_millis = Some\<rparr>"

definition demo_root :: "nat dag_node" where
  "demo_root = dn_new demo_env 1 [] [] ''n''"

definition demo_next :: "nat dag_node" where
  "demo_next = dn_new demo_env 2 [] [dn_hash demo_root] ''n''"

lemma dn_new_verifies [simp]: "dn_verify_hash env (dn_new env now ops ps n)"
  by (simp add: dn_verify_hash_def dn_new_def)

definition demo_g1 :: "nat merkle_dag" where
  "demo_g1 = \<lparr>dag_nodes = [(dn_hash demo_root, demo_root)], dag_heads = [dn_hash demo_root],
     dag_genesis = Some (dn_hash demo_root)\<rparr>"

definition demo_g2 :: "nat merkle_dag" where
  "demo_g2 = \<lparr>dag_nodes = [(dn_hash demo_root, demo_root), (dn_hash demo_next, demo_next)],
     dag_heads = [dn_hash demo_next], dag_genesis = Some (dn_hash demo_root)\<rparr>"

lemma demo_hashes: "dn_hash demo_root \<noteq> dn_hash demo_next" by code_simp

lemma demo_grows: "dag_grows demo_env dag_new demo_g1" "dag_grows demo_env demo_g1 demo_g2"
proof -
  have "dag_add_node demo_env demo_root dag_new = Inr (dn_hash demo_root, demo_g1)"
    by (simp add: dag_add_node_ok demo_g1_def dag_new_def heads_insert_def demo_root_def) (simp add: dn_new_def)
  then show "dag_grows demo_env dag_new demo_g1"
    by (rule dag_grows.step [OF dag_grows.start, rotated]) (simp add: dag_contains_def dag_new_def)
  have "dn_parents demo_next = [dn_hash demo_root]" by (simp add: demo_next_def dn_new_def)
  then have "dag_add_node demo_env demo_next demo_g1 = Inr (dn_hash demo_next, demo_g2)"
    using demo_hashes
    by (simp add: dag_add_node_ok demo_g1_def demo_g2_def heads_insert_def dag_keys_def) (simp add: demo_next_def)
  then show "dag_grows demo_env demo_g1 demo_g2"
    by (rule dag_grows.step [OF dag_grows.start, rotated])
      (use demo_hashes in \<open>simp add: dag_contains_def demo_g1_def\<close>)
qed

theorem dag_history_well_formed_witness:
  "dag_inv demo_env demo_g2 \<and> \<not> (\<exists>h. (dag_child demo_g2)\<^sup>+\<^sup>+ h h) \<and>
   map_of (dag_nodes demo_g1) \<subseteq>\<^sub>m map_of (dag_nodes demo_g2)"
  by (rule dag_history_well_formed [OF demo_grows])

section \<open>Topological order\<close>

text \<open>The depth bound is enough for any graph, cyclic or not.\<close>

lemma dag_visit_total:
  assumes "h \<in> dag_keys g" and "card (dag_keys g - T) < n"
  shows "\<exists>V' R'. dag_visit_node n g h (V, T, R) = Some (V', T, R')"
  using assms
proof (induction n arbitrary: h V T R)
  case 0
  then show ?case by simp
next
  case (Suc n)
  let ?f = "\<lambda>(ch, cn) st. case st of None \<Rightarrow> None
     | Some s \<Rightarrow> if h \<in> set (dn_parents cn) then dag_visit_node n g ch s else Some s"
  show ?case
  proof (cases "h \<in> V \<or> h \<in> T")
    case False
    have fin: "finite (dag_keys g - T)" by (simp add: dag_keys_def)
    have card: "card (dag_keys g - insert h T) < n"
    proof -
      have "dag_keys g - insert h T = dag_keys g - T - {h}" by blast
      with Suc.prems False fin card_Diff1_less [of "dag_keys g - T" h] show ?thesis by simp
    qed
    have "\<exists>V' R'. fold ?f ns (Some (V, insert h T, R)) = Some (V', insert h T, R')"
      if "fst ` set ns \<subseteq> dag_keys g" for ns V R
      using that
    proof (induction ns arbitrary: V R)
      case (Cons x ns)
      obtain c cn where x: "x = (c, cn)" by (cases x)
      with Cons.prems Suc.IH [of c "insert h T" V R] card
      obtain V1 R1 where "?f x (Some (V, insert h T, R)) = Some (V1, insert h T, R1)"
        by (cases "h \<in> set (dn_parents cn)") auto
      with Cons show ?case by auto
    qed simp
    from this [of "dag_nodes g" V R] obtain V' R' where
      "fold ?f (dag_nodes g) (Some (V, insert h T, R)) = Some (V', insert h T, R')"
      by (auto simp: dag_keys_def)
    with False show ?thesis by simp
  qed auto
qed

text \<open>
  A list of nodes in which every node comes before all its children, and all children of a
  listed node are listed.
\<close>

fun dag_ordered :: "'j merkle_dag \<Rightarrow> 'j dag_node list \<Rightarrow> bool" where
  "dag_ordered g [] = True"
| "dag_ordered g (n # ns) \<longleftrightarrow> hm_get (dag_nodes g) (dn_hash n) = Some n \<and> dn_hash n \<notin> dn_hash ` set ns \<and>
     {c. dag_child g (dn_hash n) c} \<subseteq> dn_hash ` set ns \<and> dag_ordered g ns"

abbreviation dag_reach :: "'j merkle_dag \<Rightarrow> string \<Rightarrow> string set" where
  "dag_reach g h \<equiv> {x. (dag_child g)\<^sup>*\<^sup>* h x}"

lemma dag_ordered_closed:
  assumes "dag_ordered g ns" and "x \<in> dn_hash ` set ns"
  shows "dag_reach g x \<subseteq> dn_hash ` set ns"
proof -
  have step: "c \<in> dn_hash ` set ns" if "dag_ordered g ns" "p \<in> dn_hash ` set ns" "dag_child g p c" for p c ns
    using that by (induction g ns rule: dag_ordered.induct) auto
  have "y \<in> dn_hash ` set ns" if "(dag_child g)\<^sup>*\<^sup>* x y" for y
    using that by (induction rule: rtranclp_induct) (use assms step in blast)+
  then show ?thesis by blast
qed

lemma dag_reach_unfold: "dag_reach g h = insert h (\<Union>c \<in> {c. dag_child g h c}. dag_reach g c)"
  by (auto intro: converse_rtranclp_into_rtranclp elim: converse_rtranclpE)

lemma dag_reach_rank: "dag_ranked g r \<Longrightarrow> x \<in> dag_reach g h \<Longrightarrow> r h \<le> r x"
proof -
  assume r: "dag_ranked g r" and "x \<in> dag_reach g h"
  then have "(dag_child g)\<^sup>*\<^sup>* h x" by simp
  then show ?thesis
    by (induction rule: rtranclp_induct) (use r in \<open>fastforce simp: dag_ranked_def\<close>)+
qed

definition dag_visit_pre ::
  "'j merkle_dag \<Rightarrow> (string \<Rightarrow> nat) \<Rightarrow> string \<Rightarrow> string set \<times> string set \<times> 'j dag_node list \<Rightarrow> bool" where
  "dag_visit_pre g r h st = (case st of (V, T, R) \<Rightarrow>
     dag_ordered g (rev R) \<and> V = dn_hash ` set R \<and> (\<forall>t\<in>T. r t < r h))"

text \<open>The children loop, given what the recursive calls do.\<close>

lemma dag_visit_children:
  fixes g :: "'j merkle_dag" and ns :: "(string \<times> 'j dag_node) list"
  assumes IH: "\<And>c V T R V' T' R'. c \<in> dag_keys g \<Longrightarrow> dag_visit_pre g r c (V, T, R) \<Longrightarrow>
      dag_visit_node n g c (V, T, R) = Some (V', T', R') \<Longrightarrow>
      dag_ordered g (rev R') \<and> V' = dn_hash ` set R' \<and> V' = V \<union> dag_reach g c \<and> T' = T"
    and r: "\<And>c cn. (c, cn) \<in> set ns \<Longrightarrow> h \<in> set (dn_parents cn) \<Longrightarrow> c \<in> dag_keys g \<and> r h < r c"
    and pre: "dag_ordered g (rev R)" "V = dn_hash ` set R" "\<forall>t\<in>T. r t \<le> r h"
    and res: "fold (\<lambda>(ch, cn) st. case st of None \<Rightarrow> None
       | Some s \<Rightarrow> if h \<in> set (dn_parents cn) then dag_visit_node n g ch s else Some s) ns (Some (V, T, R))
       = Some (V', T', R')"
  shows "dag_ordered g (rev R') \<and> V' = dn_hash ` set R' \<and> T' = T \<and>
    V' = V \<union> (\<Union>c \<in> {c. \<exists>cn. (c, cn) \<in> set ns \<and> h \<in> set (dn_parents cn)}. dag_reach g c)"
  using r pre res
proof (induction ns arbitrary: V R)
  case Nil
  then show ?case by auto
next
  case (Cons x ns)
  obtain c cn where x: "x = (c, cn)" by (cases x)
  let ?f = "\<lambda>(ch, cn :: 'j dag_node) st. case st of None \<Rightarrow> None
     | Some s \<Rightarrow> if h \<in> set (dn_parents cn) then dag_visit_node n g ch s else Some s"
  have none: "fold ?f ns None = None" for ns by (induction ns) auto
  have up: "c \<in> dag_keys g \<and> r h < r c" if "(c, cn) \<in> set ns" "h \<in> set (dn_parents cn)" for c cn
    using that Cons.prems(1) [of c cn] by simp
  show ?case
  proof (cases "h \<in> set (dn_parents cn)")
    case True
    with Cons.prems(1) x have c: "c \<in> dag_keys g" "r h < r c" by auto
    then have pre': "dag_visit_pre g r c (V, T, R)"
      using Cons.prems(2-4) by (auto simp: dag_visit_pre_def)
    obtain V1 T1 R1 where v: "dag_visit_node n g c (V, T, R) = Some (V1, T1, R1)"
      using Cons.prems(5) x True none by (cases "dag_visit_node n g c (V, T, R)") auto
    from IH [OF c(1) pre' v] have post: "dag_ordered g (rev R1)" "V1 = dn_hash ` set R1"
      "V1 = V \<union> dag_reach g c" "T1 = T" by auto
    have fold: "fold ?f ns (Some (V1, T, R1)) = Some (V', T', R')"
      using Cons.prems(5) x True v post(4) by simp
    have all: "dag_ordered g (rev R') \<and> V' = dn_hash ` set R' \<and> T' = T \<and>
      V' = V1 \<union> (\<Union>c \<in> {c. \<exists>cn. (c, cn) \<in> set ns \<and> h \<in> set (dn_parents cn)}. dag_reach g c)"
      by (rule Cons.IH [OF up post(1,2) Cons.prems(4) fold])
    have eq: "{c. \<exists>cn. (c, cn) \<in> set (x # ns) \<and> h \<in> set (dn_parents cn)} =
      insert c {c. \<exists>cn. (c, cn) \<in> set ns \<and> h \<in> set (dn_parents cn)}" using x True by auto
    from all show ?thesis unfolding eq UN_insert Un_assoc [symmetric] post(3) by blast
  next
    case False
    have fold: "fold ?f ns (Some (V, T, R)) = Some (V', T', R')" using Cons.prems(5) x False by simp
    have eq: "{c. \<exists>cn. (c, cn) \<in> set (x # ns) \<and> h \<in> set (dn_parents cn)} =
      {c. \<exists>cn. (c, cn) \<in> set ns \<and> h \<in> set (dn_parents cn)}" using x False by auto
    show ?thesis unfolding eq by (rule Cons.IH [OF up Cons.prems(2-4) fold])
  qed
qed

lemma dag_visit_correct:
  assumes inv: "hm_wf (dag_nodes g)" "\<And>h n. hm_get (dag_nodes g) h = Some n \<Longrightarrow> dn_hash n = h"
    and r: "dag_ranked g r"
    and "h \<in> dag_keys g" and "dag_visit_pre g r h (V, T, R)"
    and "dag_visit_node n g h (V, T, R) = Some (V', T', R')"
  shows "dag_ordered g (rev R') \<and> V' = dn_hash ` set R' \<and> V' = V \<union> dag_reach g h \<and> T' = T"
  using assms(4-)
proof (induction n arbitrary: h V T R V' T' R')
  case 0
  then show ?case by simp
next
  case (Suc n)
  note pre = Suc.prems(2) [unfolded dag_visit_pre_def prod.case]
  show ?case
  proof (cases "h \<in> V")
    case True
    with pre have "dag_reach g h \<subseteq> V" using dag_ordered_closed [of g "rev R" h] by simp
    with True Suc.prems pre show ?thesis by auto
  next
    case False
    have notT: "h \<notin> T" using pre by auto
    let ?fold = "fold (\<lambda>(ch, cn) st. case st of None \<Rightarrow> None
       | Some s \<Rightarrow> if h \<in> set (dn_parents cn) then dag_visit_node n g ch s else Some s)
       (dag_nodes g) (Some (V, insert h T, R))"
    obtain V1 T1 R1 where f: "?fold = Some (V1, T1, R1)"
      using Suc.prems(3) False notT by (cases ?fold) auto
    obtain node where node: "hm_get (dag_nodes g) h = Some node" using Suc.prems(1) by (auto simp: dag_keys_get)
    have res: "V' = insert h V1" "T' = T1 - {h}" "R' = R1 @ [node]"
      using Suc.prems(3) False notT f node by auto
    have child: "dag_child g h c \<longleftrightarrow> (\<exists>cn. (c, cn) \<in> set (dag_nodes g) \<and> h \<in> set (dn_parents cn))" for c
      using inv(1) by (auto simp: dag_child_def hm_get_iff_mem)
    have "dag_ordered g (rev R1) \<and> V1 = dn_hash ` set R1 \<and> T1 = insert h T \<and>
      V1 = V \<union> (\<Union>c \<in> {c. \<exists>cn. (c, cn) \<in> set (dag_nodes g) \<and> h \<in> set (dn_parents cn)}. dag_reach g c)"
    proof (rule dag_visit_children [OF _ _ _ _ _ f, where r = r])
      show "c \<in> dag_keys g \<and> r h < r c" if "(c, cn) \<in> set (dag_nodes g)" "h \<in> set (dn_parents cn)" for c cn
        using that r child [of c] by (force simp: dag_ranked_def dag_keys_def)
      show "\<forall>t\<in>insert h T. r t \<le> r h" using pre by auto
    qed (use Suc.IH pre in auto)
    then have post: "dag_ordered g (rev R1)" "V1 = dn_hash ` set R1" "T1 = insert h T"
      "V1 = V \<union> (\<Union>c \<in> {c. dag_child g h c}. dag_reach g c)" unfolding child by blast+
    have "h \<notin> dag_reach g c" if "dag_child g h c" for c
      using dag_reach_rank [OF r, of h c] r that by (force simp: dag_ranked_def)
    with post(4) False have "h \<notin> V1" by auto
    moreover have "{c. dag_child g h c} \<subseteq> V1" using post(4) by auto
    ultimately have "dag_ordered g (rev R')"
      using res post(1,2) node inv(2) [OF node] by simp
    moreover have "V' = dn_hash ` set R'" using res post(2) inv(2) [OF node] by simp
    moreover have "V' = V \<union> dag_reach g h"
      using res(1) post(4) dag_reach_unfold [of g h] by blast
    moreover have "T' = T" using res(2) post(3) notT by auto
    ultimately show ?thesis by blast
  qed
qed

lemma dag_ordered_split:
  assumes "dag_ordered g (xs @ n # ys)"
  shows "hm_get (dag_nodes g) (dn_hash n) = Some n"
    "\<And>p. p \<in> set (dn_parents n) \<Longrightarrow> p \<in> dn_hash ` set (xs @ n # ys) \<Longrightarrow> p \<in> dn_hash ` set xs"
proof -
  have "hm_get (dag_nodes g) (dn_hash n) = Some n \<and>
    (\<forall>p \<in> set (dn_parents n). p \<in> dn_hash ` set (xs @ n # ys) \<longrightarrow> p \<in> dn_hash ` set xs)"
    using assms
  proof (induction xs)
    case Nil
    then have n: "hm_get (dag_nodes g) (dn_hash n) = Some n" by simp
    have "p \<notin> dn_hash ` set (n # ys)" if "p \<in> set (dn_parents n)" for p
    proof
      assume p: "p \<in> dn_hash ` set (n # ys)"
      have "dag_child g p (dn_hash n)" using n that by (auto simp: dag_child_def)
      moreover have "c \<in> dn_hash ` set ns" if "dag_ordered g (m # ns)" "p \<in> dn_hash ` set (m # ns)" "dag_child g p c" for m ns p c
        using that by (induction ns arbitrary: m) auto
      ultimately have "dn_hash n \<in> dn_hash ` set ys" using Nil p by (metis append_Nil)
      with Nil show False by simp
    qed
    with n show ?case by simp
  next
    case (Cons m xs)
    then show ?case by auto
  qed
  then show "hm_get (dag_nodes g) (dn_hash n) = Some n"
    "\<And>p. p \<in> set (dn_parents n) \<Longrightarrow> p \<in> dn_hash ` set (xs @ n # ys) \<Longrightarrow> p \<in> dn_hash ` set xs" by blast+
qed

lemma dag_inv_parents:
  "dag_inv env g \<Longrightarrow> hm_get (dag_nodes g) h = Some n \<Longrightarrow> p \<in> set (dn_parents n) \<Longrightarrow> p \<in> dag_keys g"
  unfolding dag_inv_def by blast

lemma dag_ordered_distinct: "dag_ordered g ns \<Longrightarrow> distinct (map dn_hash ns)"
  by (induction ns) auto

text \<open>
  C21. The topological sort of a well-formed history always finishes. It lists, once each, the
  nodes that descend from the genesis node, and each of them after all of its listed parents;
  when the genesis is the only node without parents, that is every node of the history.
\<close>

theorem dag_topological_sort_correct:
  assumes inv: "dag_inv env g" and gen: "dag_genesis g = Some root"
  shows "\<exists>ns. dag_topological_sort g = Some ns \<and> distinct (map dn_hash ns) \<and>
    dn_hash ` set ns = {h. (dag_child g)\<^sup>*\<^sup>* root h} \<and>
    (\<forall>xs n ys. ns = xs @ n # ys \<longrightarrow> dag_get_node g (dn_hash n) = Some n \<and>
       (\<forall>p \<in> set (dn_parents n). p \<in> dn_hash ` set ns \<longrightarrow> p \<in> dn_hash ` set xs)) \<and>
    ((\<forall>h n. dag_get_node g h = Some n \<and> dn_parents n = [] \<longrightarrow> h = root) \<longrightarrow>
       dn_hash ` set ns = dag_keys g)"
proof -
  obtain r where r: "dag_ranked g r" using inv by (auto simp: dag_inv_def)
  have root: "root \<in> dag_keys g" using inv gen by (simp add: dag_inv_def)
  have "card (dag_keys g - {}) < Suc (length (dag_nodes g))"
    using card_length [of "hm_keys (dag_nodes g)"] by (simp add: dag_keys_def)
  from dag_visit_total [OF root this] obtain V R where
    v: "dag_visit_node (Suc (length (dag_nodes g))) g root ({}, {}, []) = Some (V, {}, R)" by blast
  have post: "dag_ordered g (rev R) \<and> V = dn_hash ` set R \<and> V = {} \<union> dag_reach g root \<and> {} = ({} :: string set)"
    by (rule dag_visit_correct [OF _ _ r root _ v]) (use inv in \<open>auto simp: dag_inv_def dag_visit_pre_def\<close>)
  have sort: "dag_topological_sort g = Some (rev R)" using gen v by (simp add: dag_topological_sort_def)
  have all: "dag_reach g root = dag_keys g"
    if only: "\<forall>h n. dag_get_node g h = Some n \<and> dn_parents n = [] \<longrightarrow> h = root"
  proof
    have "x \<in> dag_keys g" if "(dag_child g)\<^sup>*\<^sup>* root x" for x
      using that root by (cases rule: rtranclp.cases) (auto simp: dag_child_def dag_keys_get)
    then show "dag_reach g root \<subseteq> dag_keys g" by blast
    have "h \<in> dag_keys g \<Longrightarrow> (dag_child g)\<^sup>*\<^sup>* root h" for h
    proof (induction "r h" arbitrary: h rule: less_induct)
      case less
      then obtain n where n: "hm_get (dag_nodes g) h = Some n" by (auto simp: dag_keys_get)
      show ?case
      proof (cases "dn_parents n")
        case Nil
        with n only show ?thesis by (auto simp: dag_get_node_def)
      next
        case (Cons p ps)
        with n have p: "dag_child g p h" by (auto simp: dag_child_def)
        with r have "r p < r h" by (simp add: dag_ranked_def)
        moreover have "p \<in> dag_keys g" using dag_inv_parents [OF inv n] Cons by simp
        ultimately show ?thesis using less.hyps p by (meson rtranclp.rtrancl_into_rtrancl)
      qed
    qed
    then show "dag_keys g \<subseteq> dag_reach g root" by blast
  qed
  have order: "dag_get_node g (dn_hash n) = Some n \<and>
      (\<forall>p \<in> set (dn_parents n). p \<in> dn_hash ` set (rev R) \<longrightarrow> p \<in> dn_hash ` set xs)"
    if "rev R = xs @ n # ys" for xs n ys
    using post that dag_ordered_split [of g xs n ys] by (auto simp: dag_get_node_def)
  have set: "dn_hash ` set (rev R) = dag_reach g root" using post by (metis Un_empty_left set_rev)
  show ?thesis
  proof (intro exI [of _ "rev R"] conjI allI impI)
    show "distinct (map dn_hash (rev R))" using post by (intro dag_ordered_distinct [of g]) simp
    fix xs n ys assume eq: "rev R = xs @ n # ys"
    from order [OF this] show "dag_get_node g (dn_hash n) = Some n" by blast
    from order [OF eq] show "\<forall>p\<in>set (dn_parents n). p \<in> dn_hash ` set (rev R) \<longrightarrow> p \<in> dn_hash ` set xs" by blast
  qed (use sort all set in auto)
qed

theorem dag_topological_sort_correct_witness:
  "\<exists>ns. dag_topological_sort demo_g2 = Some ns \<and> distinct (map dn_hash ns) \<and>
     dn_hash ` set ns = {h. (dag_child demo_g2)\<^sup>*\<^sup>* (dn_hash demo_root) h}"
proof -
  have "dag_inv demo_env demo_g2"
    by (rule dag_grows_inv [OF demo_grows(2) dag_grows_inv [OF demo_grows(1) dag_inv_new]])
  moreover have "dag_genesis demo_g2 = Some (dn_hash demo_root)" by (simp add: demo_g2_def)
  ultimately show ?thesis
    by (rule exE [OF dag_topological_sort_correct]) (elim conjE, intro exI conjI)
qed

section \<open>Merging histories\<close>

lemma dag_grows_trans: "dag_grows env a b \<Longrightarrow> dag_grows env b c \<Longrightarrow> dag_grows env a c"
  by (rotate_tac 1, induction rule: dag_grows.induct) (auto intro: dag_grows.step)

definition dag_in_time :: "'j merkle_dag \<Rightarrow> bool" where
  "dag_in_time g \<longleftrightarrow> (\<forall>p c n m. dag_child g p c \<and> hm_get (dag_nodes g) p = Some n \<and>
     hm_get (dag_nodes g) c = Some m \<longrightarrow> dn_timestamp n < dn_timestamp m)"

text \<open>The loop, when the nodes that precede the rest in time are already there.\<close>

lemma dag_merge_loop_ok:
  assumes b: "dag_inv env b" "dag_in_time b"
    and "sorted (map dn_timestamp (pre @ ns))" "set (pre @ ns) = snd ` set (dag_nodes b)"
    and "dn_hash ` set pre \<subseteq> dag_keys self"
  shows "\<exists>m. dag_merge_loop env b ns self = (m, Inr ()) \<and> dag_grows env self m \<and>
    dag_keys m = dag_keys self \<union> dn_hash ` set ns \<and>
    (\<forall>n\<in>set ns. dn_hash n \<notin> dag_keys self \<longrightarrow> hm_get (dag_nodes m) (dn_hash n) = Some n)"
  using assms(3-)
proof (induction ns arbitrary: pre self)
  case Nil
  then show ?case by (auto intro: dag_grows.start)
next
  case (Cons n ns)
  have filed: "hm_get (dag_nodes b) (dn_hash x) = Some x" if "x \<in> set (pre @ n # ns)" for x
  proof -
    from that Cons.prems(2) have "x \<in> snd ` set (dag_nodes b)" by blast
    then obtain h where h: "(h, x) \<in> set (dag_nodes b)" by auto
    with b(1) have get: "hm_get (dag_nodes b) h = Some x" by (simp add: dag_inv_def hm_get_iff_mem)
    with b(1) have "dn_hash x = h" by (simp add: dag_inv_def)
    with get show ?thesis by simp
  qed
  have parents: "dn_hash ` set pre \<supseteq> set (dn_parents n)"
  proof
    fix p assume p: "p \<in> set (dn_parents n)"
    then have "p \<in> dag_keys b" using dag_inv_parents [OF b(1) filed [of n]] by simp
    then obtain x where x: "hm_get (dag_nodes b) p = Some x" by (auto simp: dag_keys_get)
    then have hx: "dn_hash x = p" using b(1) by (simp add: dag_inv_def)
    have "x \<in> set (pre @ n # ns)" using x Cons.prems(2) by (force dest: map_of_SomeD)
    moreover have "dag_child b p (dn_hash n)" using filed p by (auto simp: dag_child_def)
    then have "dn_timestamp x < dn_timestamp n" using b(2) x filed unfolding dag_in_time_def by (meson in_set_conv_decomp)
    ultimately have "x \<in> set pre" using Cons.prems(1) by (auto simp: sorted_append)
    with hx show "p \<in> dn_hash ` set pre" by auto
  qed
  show ?case
  proof (cases "dag_contains self (dn_hash n)")
    case True
    with Cons.IH [of "pre @ [n]" self] Cons.prems
    obtain m where "dag_merge_loop env b ns self = (m, Inr ())" "dag_grows env self m"
      "dag_keys m = dag_keys self \<union> dn_hash ` set ns"
      "\<forall>n\<in>set ns. dn_hash n \<notin> dag_keys self \<longrightarrow> hm_get (dag_nodes m) (dn_hash n) = Some n"
      by (auto simp: dag_keys_contains)
    with True show ?thesis by (auto simp: dag_keys_contains)
  next
    case False
    have here: "set (dn_parents n) \<subseteq> dag_keys self" using parents Cons.prems(3) by blast
    have "dn_verify_hash env n" using filed [of n] b(1) by (simp add: dag_inv_def)
    then obtain self' where add: "dag_add_node env n self = Inr (dn_hash n, self')"
      using here by (auto simp: dag_add_node_ok)
    have keys: "dag_keys self' = insert (dn_hash n) (dag_keys self)" by (rule dag_add_node_keys [OF add])
    obtain m where m: "dag_merge_loop env b ns self' = (m, Inr ())" "dag_grows env self' m"
      "dag_keys m = dag_keys self' \<union> dn_hash ` set ns"
      "\<forall>n\<in>set ns. dn_hash n \<notin> dag_keys self' \<longrightarrow> hm_get (dag_nodes m) (dn_hash n) = Some n"
      using Cons.IH [of "pre @ [n]" self'] Cons.prems keys by auto
    have "\<not> list_ex (\<lambda>p. \<not> dag_contains self p \<and> \<not> dag_contains b p) (dn_parents n)"
      using here by (auto simp: list_ex_iff dag_keys_contains)
    then have loop: "dag_merge_loop env b (n # ns) self = (m, Inr ())" using False add m(1) by simp
    have grow: "dag_grows env self m"
      using dag_grows_trans [OF dag_grows.step [OF dag_grows.start False add] m(2)] .
    have there: "hm_get (dag_nodes m) (dn_hash n) = Some n"
      using dag_grows_keeps [OF m(2), of "dn_hash n" n] dag_add_node_fields(1) [OF add] by simp
    have "hm_get (dag_nodes m) (dn_hash x) = Some x"
      if x: "x \<in> set (n # ns)" "dn_hash x \<notin> dag_keys self" for x
    proof (cases "dn_hash x = dn_hash n")
      case True
      with filed [of x] filed [of n] x(1) have "x = n" by auto
      with there show ?thesis by simp
    next
      case False
      with x keys have "x \<in> set ns" "dn_hash x \<notin> dag_keys self'" by auto
      with m(4) show ?thesis by blast
    qed
    moreover have "dag_keys m = dag_keys self \<union> dn_hash ` set (n # ns)" using m(3) keys by auto
    ultimately show ?thesis using loop grow by blast
  qed
qed

lemma dag_merge_ok:
  assumes "dag_inv env a" "dag_inv env b" "dag_in_time b"
  shows "\<exists>m. dag_merge env a b = (m, Inr ()) \<and> dag_inv env m \<and>
    map_of (dag_nodes m) = map_of (dag_nodes b) ++ map_of (dag_nodes a)"
proof -
  let ?ns = "sort_key dn_timestamp (hm_values (dag_nodes b))"
  have filed: "dn_hash n = h" if "(h, n) \<in> set (dag_nodes b)" for h n
    using assms(2) that by (simp add: dag_inv_def hm_get_iff_mem)
  then have "dn_hash ` snd ` set (dag_nodes b) = fst ` set (dag_nodes b)"
    unfolding image_image by (intro image_cong) (auto simp: case_prod_beta)
  then have keys: "dn_hash ` set ?ns = dag_keys b" by (simp add: dag_keys_def)
  from dag_merge_loop_ok [OF assms(2,3), of "[]" ?ns a] obtain m where
    m: "dag_merge env a b = (m, Inr ())" "dag_grows env a m" "dag_keys m = dag_keys a \<union> dag_keys b"
    "\<And>n. n \<in> set ?ns \<Longrightarrow> dn_hash n \<notin> dag_keys a \<Longrightarrow> hm_get (dag_nodes m) (dn_hash n) = Some n"
    by (auto simp: dag_merge_def keys [simplified])
  have "map_of (dag_nodes m) h = (map_of (dag_nodes b) ++ map_of (dag_nodes a)) h" for h
  proof (cases "hm_get (dag_nodes a) h")
    case (Some n)
    then show ?thesis using dag_grows_keeps [OF m(2)] by simp
  next
    case None
    show ?thesis
    proof (cases "hm_get (dag_nodes b) h")
      case (Some n)
      then have "n \<in> set ?ns" "dn_hash n = h" using assms(2) by (force simp: dag_inv_def dest: map_of_SomeD)+
      with m(4) [of n] None Some show ?thesis by (simp add: dag_keys_get map_add_def)
    next
      case nb: None
      with None m(3) have "h \<notin> dag_keys m" by (simp add: dag_keys_get)
      with None nb show ?thesis by (simp add: dag_keys_get map_add_def)
    qed
  qed
  then show ?thesis using m(1) dag_grows_inv [OF m(2) assms(1)] by blast
qed

lemma dag_heads_determined:
  assumes "dag_inv env g" "dag_inv env g'" "map_of (dag_nodes g) = map_of (dag_nodes g')"
  shows "sort (dag_heads g) = sort (dag_heads g')"
proof -
  have "dag_keys g = dag_keys g'" "dag_child g = dag_child g'"
    using assms(3) by (auto simp: dag_keys_get dag_child_def fun_eq_iff)
  then have "set (dag_heads g) = set (dag_heads g')" "distinct (dag_heads g)" "distinct (dag_heads g')"
    using assms(1,2) by (simp_all add: dag_inv_def)
  then show ?thesis by (intro sorted_distinct_set_unique) auto
qed

text \<open>
  C22. Two histories that agree on the nodes they share and whose parents are stamped before their
  children can be merged in either direction: both merges succeed, hold the union of the
  nodes, are well formed, and have the same Merkle root.
\<close>

theorem dag_merge_converges:
  assumes "dag_inv env a" "dag_inv env b" "dag_in_time a" "dag_in_time b"
    and agree: "\<forall>h n m. dag_get_node a h = Some n \<and> dag_get_node b h = Some m \<longrightarrow> n = m"
  shows "\<exists>m m'. dag_merge env a b = (m, Inr ()) \<and> dag_merge env b a = (m', Inr ()) \<and>
    dag_inv env m \<and> dag_inv env m' \<and> dag_keys m = dag_keys a \<union> dag_keys b \<and>
    map_of (dag_nodes m) = map_of (dag_nodes m') \<and> dag_compute_root env m = dag_compute_root env m'"
proof -
  obtain m m' where m: "dag_merge env a b = (m, Inr ())" "dag_inv env m"
      "map_of (dag_nodes m) = map_of (dag_nodes b) ++ map_of (dag_nodes a)"
    and m': "dag_merge env b a = (m', Inr ())" "dag_inv env m'"
      "map_of (dag_nodes m') = map_of (dag_nodes a) ++ map_of (dag_nodes b)"
    using dag_merge_ok [OF assms(1,2,4)] dag_merge_ok [OF assms(2,1,3)] by blast
  have eq: "map_of (dag_nodes m) = map_of (dag_nodes m')"
    unfolding m(3) m'(3) using agree
    by (auto simp: map_add_def dag_get_node_def fun_eq_iff split: option.splits)
  have "dag_keys m = dag_keys a \<union> dag_keys b"
    using arg_cong [OF m(3), of dom] by (simp add: dag_keys_def dom_map_of_conv_image_fst Un_commute)
  moreover have "dag_compute_root env m = dag_compute_root env m'"
    using dag_heads_determined [OF m(2) m'(2) eq] by (simp add: dag_compute_root_def)
  ultimately show ?thesis using m m' eq by blast
qed

lemma dag_inv_demo: "dag_inv demo_env demo_g1" "dag_inv demo_env demo_g2"
  using dag_grows_inv [OF demo_grows(1) dag_inv_new] dag_grows_inv [OF demo_grows(2)] by blast+

lemma demo_in_time: "dag_in_time demo_g1" "dag_in_time demo_g2"
  using demo_hashes
  by (auto simp: dag_in_time_def dag_child_def demo_g1_def demo_g2_def split: if_splits)
    (simp_all add: demo_root_def demo_next_def dn_new_def)

theorem dag_merge_converges_witness:
  "\<exists>m m'. dag_merge demo_env demo_g1 demo_g2 = (m, Inr ()) \<and> dag_merge demo_env demo_g2 demo_g1 = (m', Inr ()) \<and>
     dag_compute_root demo_env m = dag_compute_root demo_env m'"
proof -
  have "\<forall>h n m. dag_get_node demo_g1 h = Some n \<and> dag_get_node demo_g2 h = Some m \<longrightarrow> n = m"
    by (auto simp: dag_get_node_def demo_g1_def demo_g2_def split: if_splits)
  from dag_merge_converges [OF dag_inv_demo demo_in_time this] show ?thesis by blast
qed

text \<open>
  The root binds the history below it. \<open>dag_root_input\<close> is what is hashed for it; the heads in it
  have one length, so they can be read off, and every node is an ancestor of a head.
\<close>

definition dag_root_input :: "'j merkle_dag \<Rightarrow> bytes" where
  "dag_root_input g = DST_AJNA_ROOT @ concat (map str_bytes (sort (dag_heads g)))"

lemma concat_same_length:
  assumes "\<forall>x\<in>set xs \<union> set ys. length x = n" "0 < n" "concat xs = concat ys"
  shows "xs = ys"
  using assms
proof (induction xs arbitrary: ys)
  case Nil
  then show ?case by (cases ys) auto
next
  case (Cons x xs)
  then obtain y ys' where ys: "ys = y # ys'" by (cases ys) auto
  with Cons.prems have "x = y" "concat xs = concat ys'" by (simp_all add: append_eq_append_conv)
  with Cons ys show ?case by auto
qed

lemma dag_below_heads:
  assumes g: "dag_inv env g" and g': "dag_inv env g'" and heads: "set (dag_heads g) \<subseteq> dag_keys g'"
    and agree: "\<forall>h n m. dag_get_node g h = Some n \<and> dag_get_node g' h = Some m \<longrightarrow> n = m"
  shows "dag_keys g \<subseteq> dag_keys g'"
proof
  fix h assume "h \<in> dag_keys g"
  from g obtain r where r: "dag_ranked g r" by (auto simp: dag_inv_def)
  have fin: "finite (dag_keys g)" by (simp add: dag_keys_def)
  define M where "M = Max (r ` dag_keys g)"
  have top: "r c \<le> M" if "c \<in> dag_keys g" for c using that fin by (simp add: M_def)
  from \<open>h \<in> dag_keys g\<close> show "h \<in> dag_keys g'"
  proof (induction "M - r h" arbitrary: h rule: less_induct)
    case less
    show ?case
    proof (cases "\<exists>c. dag_child g h c")
      case False
      then have "h \<in> set (dag_heads g)" using g less.prems by (simp add: dag_inv_def)
      then show ?thesis using heads by blast
    next
      case True
      then obtain c n where c: "dag_child g h c" "hm_get (dag_nodes g) c = Some n" "h \<in> set (dn_parents n)" by (auto simp: dag_child_def)
      then have ck: "c \<in> dag_keys g" by (auto simp: dag_keys_get)
      have "r h < r c" using r c(1) by (simp add: dag_ranked_def)
      then have "M - r c < M - r h" using top [OF ck] by simp
      from less.hyps [OF this ck] obtain m where m: "hm_get (dag_nodes g') c = Some m" by (auto simp: dag_keys_get)
      with agree c(2) have "m = n" by (auto simp: dag_get_node_def)
      then show ?thesis using g' m c(3) unfolding dag_inv_def by blast
    qed
  qed
qed

lemma dag_root_binds:
  assumes g: "dag_inv env g" and g': "dag_inv env g'"
    and agree: "\<forall>h n m. dag_get_node g h = Some n \<and> dag_get_node g' h = Some m \<longrightarrow> n = m"
    and len: "\<forall>x. length (env_b64_enc env (env_blake3 env x)) = n" "0 < n" and codec: "inj (env_b64_enc env)"
    and free: "\<not> collision (env_blake3 env) (dag_root_input g) (dag_root_input g')"
  shows "dag_compute_root env g = dag_compute_root env g' \<longleftrightarrow> map_of (dag_nodes g) = map_of (dag_nodes g')"
proof
  assume "map_of (dag_nodes g) = map_of (dag_nodes g')"
  then show "dag_compute_root env g = dag_compute_root env g'"
    using dag_heads_determined [OF g g'] by (simp add: dag_compute_root_def)
next
  assume "dag_compute_root env g = dag_compute_root env g'"
  then have "env_blake3 env (dag_root_input g) = env_blake3 env (dag_root_input g')"
    using codec by (simp add: dag_compute_root_def dag_root_input_def hash_to_base64url_def inj_eq)
  with free have "concat (map str_bytes (sort (dag_heads g))) = concat (map str_bytes (sort (dag_heads g')))"
    by (simp add: collision_def dag_root_input_def)
  moreover have key: "length h = n" if "dag_inv env f" "h \<in> set (dag_heads f)" for f h
  proof -
    from that obtain m where "hm_get (dag_nodes f) h = Some m" by (auto simp: dag_inv_def dag_keys_get)
    with that(1) have "dn_hash m = h" "dn_verify_hash env m" by (auto simp: dag_inv_def)
    then have "h = env_b64_enc env (env_blake3 env (dn_hash_input env (dn_operations m) (dn_parents m) (dn_timestamp m) (dn_node_id m)))"
      by (simp add: dn_verify_hash_def dn_compute_hash_def hash_to_base64url_def)
    then show ?thesis using len(1) by blast
  qed
  ultimately have "map str_bytes (sort (dag_heads g)) = map str_bytes (sort (dag_heads g'))"
    using key [OF g] key [OF g'] len(2) by (intro concat_same_length [of _ _ n]) (auto simp: str_bytes_def)
  moreover have "inj str_bytes" by (rule inj_on_inverseI [where g = bytes_str]) simp
  ultimately have "sort (dag_heads g) = sort (dag_heads g')" by (simp add: inj_map_eq_map)
  then have heads: "set (dag_heads g) = set (dag_heads g')" by (metis set_sort)
  have sub: "set (dag_heads g) \<subseteq> dag_keys g'" "set (dag_heads g') \<subseteq> dag_keys g" using heads g g' by (auto simp: dag_inv_def)
  have "dag_keys g = dag_keys g'"
    using dag_below_heads [OF g g' sub(1) agree] dag_below_heads [OF g' g sub(2)] agree by blast
  then have "hm_get (dag_nodes g) h = hm_get (dag_nodes g') h" for h
    using agree dag_keys_get [of h g] dag_keys_get [of h g'] unfolding dag_get_node_def
    by (cases "hm_get (dag_nodes g) h"; cases "hm_get (dag_nodes g') h") auto
  then show "map_of (dag_nodes g) = map_of (dag_nodes g')" by (simp add: fun_eq_iff)
qed

text \<open>
  A merge can fail on clock skew alone: a well-formed history whose child carries an earlier
  timestamp than its parent cannot be merged into an empty one, because nodes are added in
  timestamp order and the child's parent is then missing.
\<close>

theorem dag_merge_clock_skew:
  "\<exists>b :: nat merkle_dag. dag_inv demo_env b \<and> (\<exists>e. dag_merge demo_env dag_new b = (dag_new, Inl e))"
proof -
  let ?c = "dn_new demo_env 0 [] [dn_hash demo_root] ''n''"
  let ?b = "demo_g1\<lparr>dag_nodes := [(dn_hash demo_root, demo_root), (dn_hash ?c, ?c)], dag_heads := [dn_hash ?c]\<rparr>"
  have ne: "dn_hash ?c \<noteq> dn_hash demo_root" by code_simp
  have "dag_add_node demo_env ?c demo_g1 = Inr (dn_hash ?c, ?b)"
    using ne by (simp add: dag_add_node_ok demo_g1_def heads_insert_def dag_keys_def) (simp add: dn_new_def)
  then have "dag_grows demo_env demo_g1 ?b"
    by (rule dag_grows.step [OF dag_grows.start, rotated]) (use ne in \<open>simp add: dag_contains_def demo_g1_def\<close>)
  with dag_inv_demo(1) have "dag_inv demo_env ?b" by (blast intro: dag_grows_inv)
  moreover have "\<exists>e. dag_merge demo_env dag_new ?b = (dag_new, Inl e)"
  proof -
    have "sort_key dn_timestamp (hm_values (dag_nodes ?b)) = [?c, demo_root]"
      by (simp add: demo_root_def dn_new_def)
    moreover have "dag_add_node demo_env ?c dag_new = Inl (MerkleDag (''Parent node not found: '' @ dn_hash demo_root))"
      by (simp add: dag_add_node_def) (simp add: dn_new_def dag_contains_def dag_new_def)
    moreover have "dag_contains ?b (dn_hash demo_root)" by (simp add: dag_contains_def)
    ultimately show ?thesis
      by (simp add: dag_merge_def) (simp add: dn_new_def dag_contains_def dag_new_def)
  qed
  ultimately show ?thesis by blast
qed

text \<open>
  The hash of a node does not bind its shape: its parts are hashed one after the other without
  lengths or tags. A node that holds a signed operation and has no parents has the same hash,
  under every hash function, as an empty legacy node whose parent is that operation's id, and
  both pass the hash check.
\<close>

theorem dn_hash_ambiguous:
  "\<exists>a b :: 'j dag_node. a \<noteq> b \<and> dn_hash a = dn_hash b \<and> dn_verify_hash env a \<and> dn_verify_hash env b \<and>
     dn_operations a = V2 op \<and> dn_parents a = [] \<and> dn_operations b = Legacy [] \<and> dn_parents b = [op_id op]"
proof -
  let ?h = "dn_compute_hash env (V2 op) [] 0 node"
  have same: "dn_compute_hash env (Legacy []) [op_id op] 0 node = ?h"
    by (simp add: dn_compute_hash_def dn_hash_input_def)
  let ?a = "\<lparr>dn_operations = V2 op, dn_timestamp = 0, dn_parents = [], dn_hash = ?h, dn_node_id = node\<rparr>"
  let ?b = "\<lparr>dn_operations = Legacy [], dn_timestamp = 0, dn_parents = [op_id op], dn_hash = ?h, dn_node_id = node\<rparr>"
  show ?thesis
    by (rule exI [of _ ?a], rule exI [of _ ?b]) (simp add: dn_verify_hash_def same)
qed

text \<open>
  Adding a node a second time damages the head set: in a well-formed history, adding again a
  node that already has children succeeds and makes it a head beside its own descendants.
\<close>

theorem dag_readd_makes_head:
  assumes inv: "dag_inv env g" and node: "dag_get_node g h = Some node" and child: "dag_child g h c"
  shows "\<exists>g'. dag_add_node env node g = Inr (h, g') \<and> h \<in> set (dag_heads g') \<and>
    map_of (dag_nodes g') = map_of (dag_nodes g) \<and> \<not> dag_inv env g'"
proof -
  have n: "hm_get (dag_nodes g) h = Some node" using node by (simp add: dag_get_node_def)
  with inv have h: "dn_hash node = h" "dn_verify_hash env node" "set (dn_parents node) \<subseteq> dag_keys g"
    by (auto simp: dag_inv_def)
  then obtain g' where add: "dag_add_node env node g = Inr (h, g')" by (auto simp: dag_add_node_ok)
  note f = dag_add_node_fields [OF add]
  have same: "map_of (dag_nodes g') = map_of (dag_nodes g)" using f(1) h(1) n by (auto simp: fun_eq_iff)
  have head: "h \<in> set (dag_heads g')" using f(2) h(1) by simp
  have "dag_child g' h c" using child same by (simp add: dag_child_def)
  with head have "\<not> dag_inv env g'" by (auto simp: dag_inv_def)
  with add head same show ?thesis by blast
qed

theorem dag_readd_makes_head_witness:
  "\<exists>g'. dag_add_node demo_env demo_root demo_g2 = Inr (dn_hash demo_root, g') \<and> dn_hash demo_root \<in> set (dag_heads g')"
proof -
  have "dag_get_node demo_g2 (dn_hash demo_root) = Some demo_root" by (simp add: dag_get_node_def demo_g2_def)
  moreover have "dag_child demo_g2 (dn_hash demo_root) (dn_hash demo_next)"
    using demo_hashes by (simp add: dag_child_def demo_g2_def) (simp add: demo_next_def dn_new_def)
  ultimately show ?thesis using dag_readd_makes_head [OF dag_inv_demo(2)] by blast
qed

end
