(* ===== verification/Ajna_Anchoring.thy ===== *)
theory Ajna_Anchoring
  imports Ajna_Crypto Ajna_Document
begin

text \<open>
  Anchoring of Merkle roots: \<open>did/src/ajna/anchoring.rs\<close>. A timestamp counts nanoseconds, so
  that \<open>num_seconds\<close> of a duration is the truncated division by \<open>10^9\<close>. \<open>rfc3339\<close> is
  chrono's text of a date and \<open>hex_encode\<close> the hex crate. Each operation is one transition of
  the service; the locks it takes are released before it returns.
\<close>

record anchor_record =
  an_did :: string
  an_merkle_root :: string
  an_tx_hash :: string
  an_block_number :: u64
  an_timestamp :: timestamp
  an_network :: string
  an_operation_count :: "nat option"
  an_signature :: "string option"

definition an_new :: "timestamp \<Rightarrow> string \<Rightarrow> string \<Rightarrow> string \<Rightarrow> u64 \<Rightarrow> string \<Rightarrow> anchor_record" where
  "an_new now did root tx block network =
     \<lparr>an_did = did, an_merkle_root = root, an_tx_hash = tx, an_block_number = block, an_timestamp = now,
      an_network = network, an_operation_count = None, an_signature = None\<rparr>"

definition an_with_operation_count :: "nat \<Rightarrow> anchor_record \<Rightarrow> anchor_record" where
  "an_with_operation_count c a = a\<lparr>an_operation_count := Some c\<rparr>"

definition an_with_signature :: "string \<Rightarrow> anchor_record \<Rightarrow> anchor_record" where
  "an_with_signature sig a = a\<lparr>an_signature := Some sig\<rparr>"

record anchoring_service =
  as_anchors :: "(string, anchor_record) hash_map"
  as_history :: "(string, anchor_record list) hash_map"
  as_network :: string
  as_min_anchor_interval :: u64

definition as_new :: "string \<Rightarrow> u64 \<Rightarrow> anchoring_service" where
  "as_new network interval =
     \<lparr>as_anchors = [], as_history = [], as_network = network, as_min_anchor_interval = interval\<rparr>"

definition num_seconds :: "int \<Rightarrow> int" where
  "num_seconds d = (if 0 \<le> d then d div 10 ^ 9 else - ((- d) div 10 ^ 9))"

definition as_should_anchor :: "timestamp \<Rightarrow> anchoring_service \<Rightarrow> string \<Rightarrow> bool" where
  "as_should_anchor now s did =
     (case hm_get (as_anchors s) did of
        None \<Rightarrow> True
      | Some last_anchor \<Rightarrow>
          num_seconds (now - an_timestamp last_anchor) \<ge> sint (as_min_anchor_interval s))"

definition as_total_anchors :: "anchoring_service \<Rightarrow> nat" where
  "as_total_anchors s = sum_list (map length (hm_values (as_history s)))"

definition as_create_mock_tx_hash ::
  "(bytes \<Rightarrow> hash) \<Rightarrow> (bytes \<Rightarrow> string) \<Rightarrow> (timestamp \<Rightarrow> string) \<Rightarrow> timestamp \<Rightarrow> string \<Rightarrow> string \<Rightarrow> string" where
  "as_create_mock_tx_hash blake3 hex_encode rfc3339 now did root =
     hex_encode (blake3 (str_bytes ''AJNA/MOCK_TX/V1'' @ str_bytes did @ str_bytes root @ str_bytes (rfc3339 now)))"

definition as_get_mock_block_number :: "anchoring_service \<Rightarrow> u64" where
  "as_get_mock_block_number s = 1000000 + of_nat (as_total_anchors s)"

text \<open>The three clock readings: the interval check, the transaction hash, the record.\<close>

definition as_submit_anchor ::
  "(bytes \<Rightarrow> hash) \<Rightarrow> (bytes \<Rightarrow> string) \<Rightarrow> (timestamp \<Rightarrow> string) \<Rightarrow> timestamp \<Rightarrow> timestamp \<Rightarrow> timestamp \<Rightarrow>
   string \<Rightarrow> string \<Rightarrow> nat \<Rightarrow> anchoring_service \<Rightarrow> ajna_error + (anchor_record \<times> anchoring_service)" where
  "as_submit_anchor blake3 hex_encode rfc3339 now now' now'' did root count s =
     (if \<not> as_should_anchor now s did
      then Inl (InvalidOperation (''Too soon to anchor '' @ did @ ''. Min interval: '' @
             nat_str (unat (as_min_anchor_interval s)) @ '' seconds''))
      else
        let anchor = an_with_operation_count count
              (an_new now'' did root (as_create_mock_tx_hash blake3 hex_encode rfc3339 now' did root)
                 (as_get_mock_block_number s) (as_network s));
            hist = (case hm_get (as_history s) did of None \<Rightarrow> [] | Some h \<Rightarrow> h)
        in Inr (anchor, s\<lparr>as_anchors := hm_insert did anchor (as_anchors s),
                          as_history := hm_insert did (hist @ [anchor]) (as_history s)\<rparr>))"

definition as_get_anchor :: "anchoring_service \<Rightarrow> string \<Rightarrow> anchor_record option" where
  "as_get_anchor s did = hm_get (as_anchors s) did"

definition as_get_anchor_history :: "anchoring_service \<Rightarrow> string \<Rightarrow> anchor_record list" where
  "as_get_anchor_history s did = (case hm_get (as_history s) did of None \<Rightarrow> [] | Some h \<Rightarrow> h)"

definition as_verify_anchor :: "anchoring_service \<Rightarrow> string \<Rightarrow> string \<Rightarrow> bool option" where
  "as_verify_anchor s did root = map_option (\<lambda>a. an_merkle_root a = root) (hm_get (as_anchors s) did)"

definition as_is_anchored :: "anchoring_service \<Rightarrow> string \<Rightarrow> bool" where
  "as_is_anchored s did \<longleftrightarrow> hm_contains (as_anchors s) did"

record anchor_stats =
  st_total_dids_anchored :: nat
  st_total_anchors :: nat
  st_network :: string

definition as_stats :: "anchoring_service \<Rightarrow> anchor_stats" where
  "as_stats s = \<lparr>st_total_dids_anchored = length (as_anchors s), st_total_anchors = as_total_anchors s,
     st_network = as_network s\<rparr>"

section \<open>Reachable states\<close>

inductive as_step :: "anchoring_service \<Rightarrow> anchoring_service \<Rightarrow> bool" where
  "as_submit_anchor blake3 hex rfc now now' now'' did root count s = Inr (a, s') \<Longrightarrow> now \<le> now'' \<Longrightarrow> as_step s s'"

text \<open>
  The current anchor of a DID is the last of its history; consecutive anchors of a DID lie at
  least the configured interval apart.
\<close>

definition as_inv :: "anchoring_service \<Rightarrow> bool" where
  "as_inv s \<longleftrightarrow> hm_wf (as_anchors s) \<and> hm_wf (as_history s) \<and>
     (\<forall>did. case hm_get (as_history s) did of
        None \<Rightarrow> hm_get (as_anchors s) did = None
      | Some h \<Rightarrow> h \<noteq> [] \<and> hm_get (as_anchors s) did = Some (last h) \<and>
          (\<forall>a\<in>set h. an_did a = did) \<and>
          successively (\<lambda>a b. sint (as_min_anchor_interval s) \<le> num_seconds (an_timestamp b - an_timestamp a)) h)"

lemma num_seconds_mono: "a \<le> b \<Longrightarrow> num_seconds a \<le> num_seconds b"
proof -
  assume ab: "a \<le> b"
  consider "0 \<le> a" | "a < 0" "0 \<le> b" | "b < 0" by linarith
  then show ?thesis
  proof cases
    case 1
    with ab show ?thesis by (simp add: num_seconds_def zdiv_mono1)
  next
    case 2
    then have "0 \<le> b div 10 ^ 9" "0 \<le> (- a) div 10 ^ 9" by (simp_all add: pos_imp_zdiv_nonneg_iff)
    with 2 show ?thesis by (simp add: num_seconds_def)
  next
    case 3
    with ab have "(- b) div 10 ^ 9 \<le> (- a) div 10 ^ 9" by (intro zdiv_mono1) auto
    with 3 ab show ?thesis by (simp add: num_seconds_def)
  qed
qed

lemma total_insert_new:
  "hm_get m k = None \<Longrightarrow> sum_list (map length (hm_values (hm_insert k v m))) = sum_list (map length (hm_values m)) + length v"
  by (induction m) (auto split: if_splits)

lemma total_insert_old:
  "hm_get m k = Some w \<Longrightarrow>
     sum_list (map length (hm_values (hm_insert k (w @ v) m))) = sum_list (map length (hm_values m)) + length v"
  by (induction m) (auto split: if_splits)

lemma as_inv_new: "as_inv (as_new network interval)"
  by (simp add: as_inv_def as_new_def)

lemma as_inv_submit:
  assumes inv: "as_inv s" and now: "now \<le> now''"
    and ok: "as_submit_anchor blake3 hex rfc now now' now'' did root count s = Inr (a, s')"
  shows "as_inv s'"
proof -
  let ?far = "\<lambda>a b. sint (as_min_anchor_interval s) \<le> num_seconds (an_timestamp b - an_timestamp a)"
  define hist where "hist = as_get_anchor_history s did"
  have may: "as_should_anchor now s did"
    and s': "s' = s\<lparr>as_anchors := hm_insert did a (as_anchors s), as_history := hm_insert did (hist @ [a]) (as_history s)\<rparr>"
    and a: "an_did a = did" "an_timestamp a = now''"
    using ok by (auto simp: as_submit_anchor_def Let_def an_with_operation_count_def an_new_def hist_def
        as_get_anchor_history_def split: if_splits)
  have old: "(\<forall>x\<in>set hist. an_did x = did) \<and> successively ?far hist \<and>
      (hist \<noteq> [] \<longrightarrow> hm_get (as_anchors s) did = Some (last hist))"
    using inv [unfolded as_inv_def, THEN conjunct2, THEN conjunct2, rule_format, of did]
    by (auto simp: hist_def as_get_anchor_history_def split: option.splits)
  have "?far (last hist) a" if "hist \<noteq> []"
    using may old that num_seconds_mono [of "now - an_timestamp (last hist)" "now'' - an_timestamp (last hist)"] now a(2)
    by (auto simp: as_should_anchor_def)
  with old have far: "successively ?far (hist @ [a])" by (auto simp: successively_append_iff)
  have "hm_wf (as_anchors s')" "hm_wf (as_history s')" using inv s' by (simp_all add: as_inv_def)
  moreover have "case hm_get (as_history s') d of
        None \<Rightarrow> hm_get (as_anchors s') d = None
      | Some h \<Rightarrow> h \<noteq> [] \<and> hm_get (as_anchors s') d = Some (last h) \<and>
          (\<forall>a\<in>set h. an_did a = d) \<and>
          successively (\<lambda>a b. sint (as_min_anchor_interval s') \<le> num_seconds (an_timestamp b - an_timestamp a)) h" for d
  proof (cases "d = did")
    case True
    then show ?thesis using far old a(1) by (simp add: s')
  next
    case False
    then show ?thesis
      using inv [unfolded as_inv_def, THEN conjunct2, THEN conjunct2, rule_format, of d]
      by (simp add: s' split: option.splits)
  qed
  ultimately show ?thesis unfolding as_inv_def by blast
qed

text \<open>
  However often anchors are submitted, the anchor a DID is verified against is the last entry
  of its history, every entry of a history belongs to its DID, and no two consecutive anchors
  of a DID are closer than the configured interval.
\<close>

theorem as_history_correct:
  assumes "as_step\<^sup>*\<^sup>* (as_new network interval) s" and "as_get_anchor_history s did \<noteq> []"
  shows "as_get_anchor s did = Some (last (as_get_anchor_history s did)) \<and>
    (\<forall>a\<in>set (as_get_anchor_history s did). an_did a = did) \<and>
    successively (\<lambda>a b. sint interval \<le> num_seconds (an_timestamp b - an_timestamp a)) (as_get_anchor_history s did)"
proof -
  have "as_inv s \<and> as_min_anchor_interval s = interval"
    using assms(1)
  proof (induction rule: rtranclp_induct)
    case base
    then show ?case using as_inv_new by (simp add: as_new_def)
  next
    case (step y z)
    then show ?case
      by (auto elim!: as_step.cases dest: as_inv_submit)
        (auto simp: as_submit_anchor_def Let_def split: if_splits)
  qed
  then have inv: "as_inv s" and i: "as_min_anchor_interval s = interval" by auto
  show ?thesis
    using inv [unfolded as_inv_def, THEN conjunct2, THEN conjunct2, rule_format, of did] assms(2) i
    by (auto simp: as_get_anchor_history_def as_get_anchor_def split: option.splits)
qed

definition demo_anchor :: "timestamp \<Rightarrow> string \<Rightarrow> anchoring_service \<Rightarrow> anchoring_service" where
  "demo_anchor now root s =
     (case as_submit_anchor id latin_enc (\<lambda>_. []) now now now ''did:x'' root 1 s of Inr (_, s') \<Rightarrow> s' | Inl _ \<Rightarrow> s)"

theorem as_history_correct_witness:
  "let s = demo_anchor 10000000000 ''r2'' (demo_anchor 0 ''r1'' (as_new ''net'' 10))
   in map an_merkle_root (as_get_anchor_history s ''did:x'') = [''r1'', ''r2''] \<and>
      as_get_anchor s ''did:x'' = Some (last (as_get_anchor_history s ''did:x''))"
proof -
  let ?s0 = "as_new ''net'' 10" and ?s1 = "demo_anchor 0 ''r1'' (as_new ''net'' 10)"
  let ?s2 = "demo_anchor 10000000000 ''r2'' ?s1"
  have hist: "map an_merkle_root (as_get_anchor_history ?s2 ''did:x'') = [''r1'', ''r2'']" by code_simp
  have step: "as_step s (demo_anchor t r s)" if "as_should_anchor t s ''did:x''" for t r s
    using that by (intro as_step.intros [of id latin_enc "\<lambda>_. []" t t t "''did:x''" r 1])
      (simp_all add: demo_anchor_def as_submit_anchor_def Let_def)
  have "as_should_anchor 0 ?s0 ''did:x''" "as_should_anchor 10000000000 ?s1 ''did:x''" by code_simp+
  then have "as_step\<^sup>*\<^sup>* ?s0 ?s2" using step by (meson rtranclp.rtrancl_into_rtrancl rtranclp.rtrancl_refl)
  moreover have "as_get_anchor_history ?s2 ''did:x'' \<noteq> []" using hist by auto
  ultimately show ?thesis using as_history_correct [of "''net''" 10 ?s2 "''did:x''"] hist by (simp add: Let_def)
qed

end
