(* ===== verification/Ajna_Method.thy ===== *)
theory Ajna_Method
  imports Ajna_Authorization Merkle_Dag Ajna_Anchoring
begin

text \<open>
  The DID method: \<open>did/src/ajna/method.rs\<close>. The registry and the histories are hash maps behind
  locks. An operation is one transition; since its writes stay when a later part of it fails, it
  returns the state it leaves together with its result. \<open>clk\<close> and \<open>uuids\<close> supply the
  clock readings and the drawn uuids in order, \<open>dbg\<close> is the derived \<open>Debug\<close> text of an
  authorization result.
\<close>

record ('u, 'j) ajna_method =
  am_registry :: "(string, ('u, 'j) ajna_document) hash_map"
  am_history :: "(string, 'j merkle_dag) hash_map"
  am_anchoring :: "anchoring_service option"
  am_node_id :: string

type_synonym ('u, 'j, 'a) am_result = "('u, 'j) ajna_method \<times> (ajna_error fault + 'a)"

definition am_new :: "string \<Rightarrow> ('u, 'j) ajna_method" where
  "am_new node = \<lparr>am_registry = [], am_history = [], am_anchoring = None, am_node_id = node\<rparr>"

definition am_with_anchoring :: "string \<Rightarrow> string \<Rightarrow> u64 \<Rightarrow> ('u, 'j) ajna_method" where
  "am_with_anchoring node network interval =
     \<lparr>am_registry = [], am_history = [], am_anchoring = Some (as_new network interval), am_node_id = node\<rparr>"

definition am_set_anchoring :: "anchoring_service \<Rightarrow> ('u, 'j) ajna_method \<Rightarrow> ('u, 'j) ajna_method" where
  "am_set_anchoring s m = m\<lparr>am_anchoring := Some s\<rparr>"

definition am_create :: "timestamp \<Rightarrow> timestamp \<Rightarrow> string \<Rightarrow> ('u, 'j) ajna_method \<Rightarrow> ('u, 'j, ('u, 'j) ajna_document) am_result" where
  "am_create now now' did m =
     (if hm_contains (am_registry m) did
      then (m, Inl (Raised (InvalidOperation (''DID already exists: '' @ did))))
      else let d = doc_new now now' did (am_node_id m)
           in (m\<lparr>am_registry := hm_insert did d (am_registry m),
                 am_history := hm_insert did dag_new (am_history m)\<rparr>, Inr d))"

definition am_create_with_genesis ::
  "timestamp \<Rightarrow> timestamp \<Rightarrow> (nat \<Rightarrow> 'u) \<Rightarrow> (nat \<Rightarrow> timestamp) \<Rightarrow> string \<Rightarrow> string list \<Rightarrow> (string \<times> 'j) list \<Rightarrow>
   ('u, 'j) ajna_method \<Rightarrow> ('u, 'j, ('u, 'j) ajna_document) am_result" where
  "am_create_with_genesis now now' uuids clk did initial_controllers initial_policy m =
     (if hm_contains (am_registry m) did
      then (m, Inl (Raised (InvalidOperation (''DID already exists: '' @ did))))
      else let d = doc_new_with_genesis now now' uuids clk did (am_node_id m) initial_controllers initial_policy
           in (m\<lparr>am_registry := hm_insert did d (am_registry m),
                 am_history := hm_insert did dag_new (am_history m)\<rparr>, Inr d))"

definition am_resolve :: "('u, 'j) ajna_method \<Rightarrow> string \<Rightarrow> ajna_error + ('u, 'j) ajna_document" where
  "am_resolve m did = (case hm_get (am_registry m) did of None \<Rightarrow> Inl (DidNotFound did) | Some d \<Rightarrow> Inr d)"

definition am_deactivate ::
  "(int \<Rightarrow> timestamp option) \<Rightarrow> timestamp \<Rightarrow> timestamp \<Rightarrow> 'u \<Rightarrow> string \<Rightarrow> string option \<Rightarrow>
   ('u, 'j) ajna_method \<Rightarrow> ('u, 'j, ('u, 'j) ajna_document) am_result" where
  "am_deactivate millis now now' u did reason m =
     (case am_resolve m did of
        Inl e \<Rightarrow> (m, Inl (Raised e))
      | Inr d \<Rightarrow>
          if doc_is_deactivated d
          then (m, Inl (Raised (InvalidOperation (''DID already deactivated: '' @ did))))
          else case doc_apply_delta_v2 millis now now' u (Deactivate reason) d of
                 Inl f \<Rightarrow> (m, Inl f)
               | Inr d' \<Rightarrow> (m\<lparr>am_registry := hm_insert did d' (am_registry m)\<rparr>, Inr d'))"

definition am_dag :: "('u, 'j) ajna_method \<Rightarrow> string \<Rightarrow> 'j merkle_dag" where
  "am_dag m did = (case hm_get (am_history m) did of None \<Rightarrow> dag_new | Some g \<Rightarrow> g)"

text \<open>
  \<open>apply_operation_v2\<close> takes its locks one after the other: the document is copied under the read
  lock of the registry, checked and changed; the copy is written back under the write lock; the
  history is written under a lock of its own. Other calls run between these parts.
\<close>

definition v2_prepare ::
  "'j dag_env \<Rightarrow> ('j \<Rightarrow> int option) \<Rightarrow> (authorization_result \<Rightarrow> string) \<Rightarrow> timestamp \<Rightarrow> timestamp \<Rightarrow> 'u \<Rightarrow>
   'j operation \<Rightarrow> ('u, 'j) ajna_method \<Rightarrow> ajna_error fault + ('u, 'j) ajna_document" where
  "v2_prepare env as_i64 dbg now now' u op m =
     (case am_resolve m (op_doc op) of
        Inl e \<Rightarrow> Inl (Raised e)
      | Inr d \<Rightarrow>
          (case can_apply as_i64 op d of
             Inl e \<Rightarrow> Inl (Raised e)
           | Inr auth_result \<Rightarrow>
               if \<not> ar_is_allowed auth_result
               then Inl (Raised (InvalidOperation (''Operation not authorized: '' @ dbg auth_result)))
               else case doc_apply_delta_v2 (env_millis env) now now' u (op_delta op) d of
                      Inl f \<Rightarrow> Inl f
                    | Inr d1 \<Rightarrow> Inr (d1\<lparr>doc_vector_clock := vc_increment (op_actor op) (doc_vector_clock d1)\<rparr>)))"

definition v2_write_registry :: "'j operation \<Rightarrow> ('u, 'j) ajna_document \<Rightarrow> ('u, 'j) ajna_method \<Rightarrow> ('u, 'j) ajna_method" where
  "v2_write_registry op d m = m\<lparr>am_registry := hm_insert (op_doc op) d (am_registry m)\<rparr>"

definition v2_write_history :: "'j dag_env \<Rightarrow> 'j operation \<Rightarrow> ('u, 'j) ajna_method \<Rightarrow> ('u, 'j, unit) am_result" where
  "v2_write_history env op m =
     (let dag = am_dag m (op_doc op);
          m = m\<lparr>am_history := hm_insert (op_doc op) dag (am_history m)\<rparr>
      in case dn_from_operation_v2 env op (am_node_id m) of
           None \<Rightarrow> (m, Inl Panicked)
         | Some node \<Rightarrow>
             (case dag_add_node env node dag of
                Inl e \<Rightarrow> (m, Inl (Raised e))
              | Inr (_, dag') \<Rightarrow> (m\<lparr>am_history := hm_insert (op_doc op) dag' (am_history m)\<rparr>, Inr ())))"

definition am_apply_operation_v2 ::
  "'j dag_env \<Rightarrow> ('j \<Rightarrow> int option) \<Rightarrow> (authorization_result \<Rightarrow> string) \<Rightarrow> timestamp \<Rightarrow> timestamp \<Rightarrow> 'u \<Rightarrow>
   'j operation \<Rightarrow> ('u, 'j) ajna_method \<Rightarrow> ('u, 'j, ('u, 'j) ajna_document) am_result" where
  "am_apply_operation_v2 env as_i64 dbg now now' u op m =
     (case v2_prepare env as_i64 dbg now now' u op m of
        Inl f \<Rightarrow> (m, Inl f)
      | Inr d \<Rightarrow>
          (case v2_write_history env op (v2_write_registry op d m) of
             (m', Inl f) \<Rightarrow> (m', Inl f)
           | (m', Inr _) \<Rightarrow> (m', Inr d)))"

lemmas am_apply_v2_defs = am_apply_operation_v2_def v2_prepare_def v2_write_registry_def v2_write_history_def

text \<open>
  The tail that \<open>apply_operation\<close>, \<open>apply_operations\<close> and \<open>merge_update\<close> share: write the
  document, then append a node below the current heads.
\<close>

definition am_commit ::
  "'j dag_env \<Rightarrow> timestamp \<Rightarrow> string \<Rightarrow> 'j crdt_operation list \<Rightarrow> string \<Rightarrow> ('u, 'j) ajna_document \<Rightarrow>
   ('u, 'j) ajna_method \<Rightarrow> ('u, 'j, ('u, 'j) ajna_document) am_result" where
  "am_commit env now did ops node_id d m =
     (let dag = am_dag m did;
          m = m\<lparr>am_registry := hm_insert did d (am_registry m), am_history := hm_insert did dag (am_history m)\<rparr>;
          parents = map dn_hash (dag_get_heads dag);
          node = dn_new env now ops parents node_id
      in case dag_add_node env node dag of
           Inl e \<Rightarrow> (m, Inl (Raised e))
         | Inr (_, dag') \<Rightarrow> (m\<lparr>am_history := hm_insert did dag' (am_history m)\<rparr>, Inr d))"

text \<open>\<open>resolve\<close>, or \<open>create\<close> when the DID is not registered.\<close>

definition am_get_or_create ::
  "(nat \<Rightarrow> timestamp) \<Rightarrow> string \<Rightarrow> ('u, 'j) ajna_method \<Rightarrow> ('u, 'j, ('u, 'j) ajna_document) am_result" where
  "am_get_or_create clk did m =
     (case am_resolve m did of Inr d \<Rightarrow> (m, Inr d) | Inl _ \<Rightarrow> am_create (clk 0) (clk 1) did m)"

definition am_apply_operation ::
  "'j dag_env \<Rightarrow> (nat \<Rightarrow> timestamp) \<Rightarrow> (nat \<Rightarrow> 'u) \<Rightarrow> string \<Rightarrow> 'j crdt_operation \<Rightarrow>
   ('u, 'j) ajna_method \<Rightarrow> ('u, 'j, ('u, 'j) ajna_document) am_result" where
  "am_apply_operation env clk uuids did op m =
     (case am_get_or_create clk did m of
        (m, Inl f) \<Rightarrow> (m, Inl f)
      | (m, Inr d) \<Rightarrow>
          (case op_apply (clk 2) (clk 3) (uuids 0) op d of
             Inl e \<Rightarrow> (m, Inl (Raised e))
           | Inr d' \<Rightarrow> am_commit env (clk 4) did [op] (am_node_id m) d' m))"

definition am_apply_operations ::
  "'j dag_env \<Rightarrow> (nat \<Rightarrow> timestamp) \<Rightarrow> (nat \<Rightarrow> 'u) \<Rightarrow> timestamp \<Rightarrow> string \<Rightarrow> 'j crdt_operation list \<Rightarrow>
   ('u, 'j) ajna_method \<Rightarrow> ('u, 'j, ('u, 'j) ajna_document) am_result" where
  "am_apply_operations env clk uuids now did ops m =
     (case am_resolve m did of
        Inl e \<Rightarrow> (m, Inl (Raised e))
      | Inr d \<Rightarrow>
          (case op_apply_all clk uuids ops d of
             Inl e \<Rightarrow> (m, Inl (Raised e))
           | Inr d' \<Rightarrow> am_commit env now did ops (am_node_id m) d' m))"

text \<open>The nested loops over the received clock: each counter is counted up.\<close>

definition vc_count_up :: "(string \<times> u64) list \<Rightarrow> vector_clock \<Rightarrow> vector_clock" where
  "vc_count_up clock c = fold (\<lambda>(node, t). vc_increment node ^^ unat t) clock c"

definition am_merge_update ::
  "'j dag_env \<Rightarrow> (nat \<Rightarrow> timestamp) \<Rightarrow> (nat \<Rightarrow> 'u) \<Rightarrow> timestamp \<Rightarrow> 'j did_update \<Rightarrow>
   ('u, 'j) ajna_method \<Rightarrow> ('u, 'j, ('u, 'j) ajna_document) am_result" where
  "am_merge_update env clk uuids now upd m =
     (case am_get_or_create clk (upd_did upd) m of
        (m, Inl f) \<Rightarrow> (m, Inl f)
      | (m, Inr d) \<Rightarrow>
          (case op_apply_all (\<lambda>i. clk (i + 2)) uuids (upd_operations upd) d of
             Inl e \<Rightarrow> (m, Inl (Raised e))
           | Inr d' \<Rightarrow>
               am_commit env now (upd_did upd) (upd_operations upd) (upd_origin_node upd)
                 (d'\<lparr>doc_vector_clock := vc_count_up (upd_clock upd) (doc_vector_clock d')\<rparr>) m))"

text \<open>\<open>Panicked\<close> stands for an exhausted depth bound of the sort; it never occurs on a well-formed history.\<close>

definition am_get_history :: "('u, 'j) ajna_method \<Rightarrow> string \<Rightarrow> ajna_error fault + 'j crdt_operation list" where
  "am_get_history m did =
     (case hm_get (am_history m) did of
        None \<Rightarrow> Inl (Raised (DidNotFound did))
      | Some g \<Rightarrow> (case dag_get_all_operations g of None \<Rightarrow> Inl Panicked | Some ops \<Rightarrow> Inr ops))"

definition am_get_merkle_root :: "'j dag_env \<Rightarrow> ('u, 'j) ajna_method \<Rightarrow> string \<Rightarrow> ajna_error + string" where
  "am_get_merkle_root env m did =
     (case hm_get (am_history m) did of None \<Rightarrow> Inl (DidNotFound did) | Some g \<Rightarrow> Inr (dag_compute_root env g))"

definition am_list_dids :: "('u, 'j) ajna_method \<Rightarrow> string list" where
  "am_list_dids m = hm_keys (am_registry m)"

definition am_count :: "('u, 'j) ajna_method \<Rightarrow> nat" where
  "am_count m = length (am_registry m)"

definition am_exists :: "('u, 'j) ajna_method \<Rightarrow> string \<Rightarrow> bool" where
  "am_exists m did \<longleftrightarrow> hm_contains (am_registry m) did"

definition am_export_update :: "timestamp \<Rightarrow> ('u, 'j) ajna_method \<Rightarrow> string \<Rightarrow> ajna_error fault + 'j did_update" where
  "am_export_update now m did =
     (case am_resolve m did of
        Inl e \<Rightarrow> Inl (Raised e)
      | Inr d \<Rightarrow>
          (case am_get_history m did of
             Inl f \<Rightarrow> Inl f
           | Inr ops \<Rightarrow>
               Inr \<lparr>upd_did = did, upd_operations = ops,
                 upd_clock = map (\<lambda>n. (n, vc_get (doc_vector_clock d) n)) (vc_node_ids (doc_vector_clock d)),
                 upd_timestamp = now, upd_origin_node = am_node_id m, upd_signature = None\<rparr>))"

text \<open>Each update of the list with the clock readings, uuids and final reading its merge uses.\<close>

fun am_import_updates ::
  "'j dag_env \<Rightarrow> ('j did_update \<times> (nat \<Rightarrow> timestamp) \<times> (nat \<Rightarrow> 'u) \<times> timestamp) list \<Rightarrow> nat \<Rightarrow>
   ('u, 'j) ajna_method \<Rightarrow> ('u, 'j) ajna_method \<times> nat" where
  "am_import_updates env [] count m = (m, count)"
| "am_import_updates env ((upd, clk, uuids, now) # rest) count m =
     (case am_merge_update env clk uuids now upd m of
        (m', Inr _) \<Rightarrow> am_import_updates env rest (count + 1) m'
      | (m', Inl _) \<Rightarrow> am_import_updates env rest count m')"

definition am_anchor ::
  "'j dag_env \<Rightarrow> (bytes \<Rightarrow> string) \<Rightarrow> timestamp \<Rightarrow> timestamp \<Rightarrow> timestamp \<Rightarrow> string \<Rightarrow> ('u, 'j) ajna_method \<Rightarrow>
   ('u, 'j, anchor_record) am_result" where
  "am_anchor env hex now now' now'' did m =
     (case am_anchoring m of
        None \<Rightarrow> (m, Inl (Raised (InvalidOperation ''Anchoring service not configured'')))
      | Some s \<Rightarrow>
          (case am_get_merkle_root env m did of
             Inl e \<Rightarrow> (m, Inl (Raised e))
           | Inr root \<Rightarrow>
               (case am_get_history m did of
                  Inl f \<Rightarrow> (m, Inl f)
                | Inr ops \<Rightarrow>
                    (case as_submit_anchor (env_blake3 env) hex (env_rfc3339 env) now now' now'' did root (length ops) s of
                       Inl e \<Rightarrow> (m, Inl (Raised e))
                     | Inr (a, s') \<Rightarrow> (m\<lparr>am_anchoring := Some s'\<rparr>, Inr a)))))"

definition am_get_anchor :: "('u, 'j) ajna_method \<Rightarrow> string \<Rightarrow> anchor_record option" where
  "am_get_anchor m did = (case am_anchoring m of None \<Rightarrow> None | Some s \<Rightarrow> as_get_anchor s did)"

definition am_get_anchor_history :: "('u, 'j) ajna_method \<Rightarrow> string \<Rightarrow> anchor_record list" where
  "am_get_anchor_history m did = (case am_anchoring m of None \<Rightarrow> [] | Some s \<Rightarrow> as_get_anchor_history s did)"

definition am_verify_against_anchor :: "'j dag_env \<Rightarrow> ('u, 'j) ajna_method \<Rightarrow> string \<Rightarrow> bool option" where
  "am_verify_against_anchor env m did =
     (case am_anchoring m of
        None \<Rightarrow> None
      | Some s \<Rightarrow> (case am_get_merkle_root env m did of Inl _ \<Rightarrow> None | Inr root \<Rightarrow> as_verify_anchor s did root))"

definition am_is_anchored :: "('u, 'j) ajna_method \<Rightarrow> string \<Rightarrow> bool" where
  "am_is_anchored m did = (case am_anchoring m of None \<Rightarrow> False | Some s \<Rightarrow> as_is_anchored s did)"

definition am_resolve_with_anchor :: "('u, 'j) ajna_method \<Rightarrow> string \<Rightarrow> ajna_error + ('u, 'j) ajna_document" where
  "am_resolve_with_anchor m did =
     (case am_resolve m did of
        Inl e \<Rightarrow> Inl e
      | Inr d \<Rightarrow>
          Inr (case am_get_anchor m did of
                 None \<Rightarrow> d
               | Some a \<Rightarrow>
                   d\<lparr>doc_blockchain_anchor := Some \<lparr>ba_network = an_network a, ba_tx_hash = an_tx_hash a,
                       ba_block_number = an_block_number a, ba_timestamp = an_timestamp a,
                       ba_merkle_root = an_merkle_root a\<rparr>\<rparr>))"

definition am_has_anchoring :: "('u, 'j) ajna_method \<Rightarrow> bool" where
  "am_has_anchoring m \<longleftrightarrow> am_anchoring m \<noteq> None"

section \<open>Anchors\<close>

text \<open>
  C23. An anchor binds the whole history: right after anchoring a DID its history verifies against
  the anchor; and while that anchor is the recorded one, verification succeeds exactly when the
  history has the nodes it had then, none added, removed or changed. The conditions: both histories
  are well formed and agree on the nodes they share, hash texts have one length and can be decoded,
  and the inputs of the two roots do not collide.
\<close>

theorem anchor_binds_history:
  assumes anchor: "am_anchor env hex now now' now'' did m = (m1, Inr a)"
    and later: "am_anchoring m2 = Some s" "hm_get (as_anchors s) did = Some a"
    and g: "hm_get (am_history m) did = Some g" "dag_inv env g" and g2: "hm_get (am_history m2) did = Some g2" "dag_inv env g2"
    and agree: "\<forall>h n n'. dag_get_node g h = Some n \<and> dag_get_node g2 h = Some n' \<longrightarrow> n = n'"
    and len: "\<forall>x. length (env_b64_enc env (env_blake3 env x)) = k" "0 < k" and codec: "inj (env_b64_enc env)"
    and free: "\<not> collision (env_blake3 env) (dag_root_input g) (dag_root_input g2)"
  shows "am_verify_against_anchor env m1 did = Some True \<and>
    am_verify_against_anchor env m2 did = Some (map_of (dag_nodes g2) = map_of (dag_nodes g))"
proof -
  from anchor obtain s0 root c s' where s0: "am_anchoring m = Some s0" and root: "am_get_merkle_root env m did = Inr root"
    and sub: "as_submit_anchor (env_blake3 env) hex (env_rfc3339 env) now now' now'' did root c s0 = Inr (a, s')"
    and m1: "m1 = m\<lparr>am_anchoring := Some s'\<rparr>"
    by (auto simp: am_anchor_def split: option.splits sum.splits intro: that)
  from sub have a: "an_merkle_root a = root" "hm_get (as_anchors s') did = Some a"
    by (auto simp: as_submit_anchor_def Let_def an_with_operation_count_def an_new_def split: if_splits)
  have roots: "root = dag_compute_root env g" "am_get_merkle_root env m2 did = Inr (dag_compute_root env g2)"
    using root g(1) g2(1) by (simp_all add: am_get_merkle_root_def)
  have "am_get_merkle_root env m1 did = Inr root" using root by (simp add: m1 am_get_merkle_root_def)
  then have "am_verify_against_anchor env m1 did = Some True"
    using a by (simp add: am_verify_against_anchor_def as_verify_anchor_def m1)
  moreover have "am_verify_against_anchor env m2 did = Some (dag_compute_root env g = dag_compute_root env g2)"
    using later a(1) roots by (simp add: am_verify_against_anchor_def as_verify_anchor_def)
  moreover note dag_root_binds [OF g(2) g2(2) agree len codec free]
  ultimately show ?thesis by auto
qed

section \<open>Signed operations\<close>

text \<open>
  What the engine asks of a signed operation, spelled out: the document is active, the permission
  matrix permits the actor, the actor alone reaches the quorum, and the delta's own check passes.
\<close>

definition v2_allowed :: "('j \<Rightarrow> int option) \<Rightarrow> 'j operation \<Rightarrow> ('u, 'j) ajna_document \<Rightarrow> bool" where
  "v2_allowed as_i64 op d \<longleftrightarrow> \<not> doc_is_deactivated d \<and> permitted (op_actor op) d (op_delta op) \<and>
     get_quorum_requirement as_i64 (op_delta op) d \<le> 1 \<and>
     authorize_delta (op_delta op) \<lparr>ctx_did = op_doc op, ctx_actor = op_actor op, ctx_additional_signatures = [], ctx_document = d\<rparr> = Allowed"

lemma can_apply_allowed: "can_apply as_i64 op d = Inr Allowed \<longleftrightarrow> v2_allowed as_i64 op d"
  using authorize_decision [of as_i64 op "\<lparr>ctx_did = op_doc op, ctx_actor = op_actor op, ctx_additional_signatures = [], ctx_document = d\<rparr>"]
  by (auto simp: can_apply_def v2_allowed_def)

text \<open>A change of a document by one such operation, and the interleavings of applications of signed operations.\<close>

inductive v2_change :: "'j dag_env \<Rightarrow> ('j \<Rightarrow> int option) \<Rightarrow> string \<Rightarrow> ('u, 'j) ajna_document \<Rightarrow> ('u, 'j) ajna_document \<Rightarrow> bool"
  for env as_i64 did where
  "v2_allowed as_i64 op d \<Longrightarrow> op_doc op = did \<Longrightarrow> doc_apply_delta_v2 (env_millis env) now now' u (op_delta op) d = Inr d' \<Longrightarrow>
   v2_change env as_i64 did d (d'\<lparr>doc_vector_clock := vc_increment (op_actor op) (doc_vector_clock d')\<rparr>)"

inductive v2_step ::
  "'j dag_env \<Rightarrow> ('j \<Rightarrow> int option) \<Rightarrow> ('u, 'j) ajna_method \<times> ('j operation \<times> ('u, 'j) ajna_document) list \<Rightarrow>
   ('u, 'j) ajna_method \<times> ('j operation \<times> ('u, 'j) ajna_document) list \<Rightarrow> bool"
  for env as_i64 where
  prepare: "v2_prepare env as_i64 dbg now now' u op m = Inr d \<Longrightarrow> v2_step env as_i64 (m, ts) (m, ts @ [(op, d)])"
| commit: "v2_step env as_i64 (m, ts @ (op, d) # ts') (v2_write_registry op d m, ts @ ts')"
| append: "v2_step env as_i64 (m, ts) (fst (v2_write_history env op m), ts)"

lemma v2_prepare_change:
  assumes "v2_prepare env as_i64 dbg now now' u op m = Inr d'"
  shows "\<exists>d. hm_get (am_registry m) (op_doc op) = Some d \<and> v2_change env as_i64 (op_doc op) d d'"
proof -
  from assms obtain d r d1 where d: "am_resolve m (op_doc op) = Inr d" and r: "can_apply as_i64 op d = Inr r" "ar_is_allowed r"
    and d1: "doc_apply_delta_v2 (env_millis env) now now' u (op_delta op) d = Inr d1"
    and d': "d' = d1\<lparr>doc_vector_clock := vc_increment (op_actor op) (doc_vector_clock d1)\<rparr>"
    by (auto simp: v2_prepare_def split: sum.splits if_splits)
  from r have "v2_allowed as_i64 op d" by (cases r) (simp_all flip: can_apply_allowed)
  with d1 d' have "v2_change env as_i64 (op_doc op) d d'" by (auto intro: v2_change.intros)
  moreover have "hm_get (am_registry m) (op_doc op) = Some d" using d by (simp add: am_resolve_def split: option.splits)
  ultimately show ?thesis by blast
qed

lemma v2_write_history_registry [simp]: "am_registry (fst (v2_write_history env op m)) = am_registry m"
  by (simp add: v2_write_history_def Let_def split: option.split sum.split prod.split)

text \<open>Applied without interruption, an operation takes these steps.\<close>

lemma apply_v2_steps:
  assumes "am_apply_operation_v2 env as_i64 dbg now now' u op m = (m', r)"
  shows "(v2_step env as_i64)\<^sup>*\<^sup>* (m, []) (m', [])"
proof (cases "v2_prepare env as_i64 dbg now now' u op m")
  case (Inl f)
  then show ?thesis using assms by (simp add: am_apply_operation_v2_def)
next
  case (Inr d)
  then have m': "m' = fst (v2_write_history env op (v2_write_registry op d m))"
    using assms by (auto simp: am_apply_operation_v2_def split: prod.splits sum.splits)
  have "v2_step env as_i64 (m, []) (m, [(op, d)])" using v2_step.prepare [OF Inr, of "[]"] by simp
  moreover have "v2_step env as_i64 (m, [(op, d)]) (v2_write_registry op d m, [])" using v2_step.commit [of env as_i64 m "[]" op d "[]"] by simp
  ultimately show ?thesis using v2_step.append [of env as_i64 "v2_write_registry op d m" "[]" op] unfolding m' by simp
qed

text \<open>
  C24. Signed operations change the registry only as the authorization engine allows, however their
  applications interleave between the locks: every registered document is reached from the one
  registered at the start by a chain of changes, each by an operation on that DID which, on the very
  document it was applied to, found it active, its actor permitted, the quorum reached and the
  delta's own check passed. The actor is the one the operation states; its signature is not checked
  here.
\<close>

theorem signed_changes_authorized:
  assumes "(v2_step env as_i64)\<^sup>*\<^sup>* (m, []) (m', ts)" and "hm_get (am_registry m') did = Some d'"
  shows "\<exists>d. hm_get (am_registry m) did = Some d \<and> (v2_change env as_i64 did)\<^sup>*\<^sup>* d d'"
proof -
  define from_start where "from_start did d' \<longleftrightarrow> (\<exists>d. hm_get (am_registry m) did = Some d \<and> (v2_change env as_i64 did)\<^sup>*\<^sup>* d d')" for did d'
  have "(\<forall>did d'. hm_get (am_registry (fst x)) did = Some d' \<longrightarrow> from_start did d') \<and> (\<forall>(op, d)\<in>set (snd x). from_start (op_doc op) d)"
    if "(v2_step env as_i64)\<^sup>*\<^sup>* (m, []) x" for x
    using that
  proof (induction rule: rtranclp_induct)
    case base
    then show ?case by (auto simp: from_start_def)
  next
    case (step x y)
    from step.hyps(2) step.IH show ?case
    proof cases
      case (prepare dbg now now' u op n d ts)
      from v2_prepare_change [OF prepare(3)] obtain d0 where "hm_get (am_registry n) (op_doc op) = Some d0" "v2_change env as_i64 (op_doc op) d0 d" by blast
      with step.IH prepare(1) have "from_start (op_doc op) d" by (fastforce simp: from_start_def)
      with step.IH prepare(1,2) show ?thesis by auto
    next
      case (commit n ts op d ts')
      with step.IH show ?thesis by (auto simp: v2_write_registry_def split: if_splits)
    next
      case (append n ts op)
      with step.IH show ?thesis by simp
    qed
  qed
  from this [OF assms(1)] assms(2) show ?thesis by (simp add: from_start_def)
qed

text \<open>
  The copies are not compared with the registry when they are written back: of two operations that
  interleave, the later write undoes the earlier one, even a deactivation.
\<close>

lemma interleaved_write_undoes_deactivation:
  assumes "v2_prepare env as_i64 dbg n1 n2 u op m = Inr d" "op_delta op = Deactivate x"
    and "v2_prepare env as_i64 dbg' n1' n2' u' op' m = Inr d'" "op_doc op' = op_doc op" "\<not> doc_is_deactivated d'"
  shows "\<exists>m'. (v2_step env as_i64)\<^sup>*\<^sup>* (m, []) (m', []) \<and> am_resolve m' (op_doc op) = Inr d' \<and> \<not> doc_is_deactivated d'"
proof -
  let ?m = "v2_write_registry op' d' (v2_write_registry op d m)"
  have "v2_step env as_i64 (m, []) (m, [(op, d)])" using v2_step.prepare [OF assms(1), of "[]"] by simp
  moreover have "v2_step env as_i64 (m, [(op, d)]) (m, [(op, d), (op', d')])" using v2_step.prepare [OF assms(3), of "[(op, d)]"] by simp
  moreover have "v2_step env as_i64 (m, [(op, d), (op', d')]) (v2_write_registry op d m, [(op', d')])"
    using v2_step.commit [of env as_i64 m "[]" op d "[(op', d')]"] by simp
  moreover have "v2_step env as_i64 (v2_write_registry op d m, [(op', d')]) (?m, [])"
    using v2_step.commit [of env as_i64 "v2_write_registry op d m" "[]" op' d' "[]"] by simp
  ultimately have "(v2_step env as_i64)\<^sup>*\<^sup>* (m, []) (?m, [])" by (meson converse_rtranclp_into_rtranclp rtranclp.rtrancl_refl)
  moreover have "am_resolve ?m (op_doc op) = Inr d'" using assms(4) by (simp add: am_resolve_def v2_write_registry_def)
  ultimately show ?thesis using assms(5) by blast
qed

text \<open>
  An operation that names the current tips of a history as its parents is refused when a tip
  is a signed operation, yet the document keeps the change: the tips are operation ids, the
  graph looks parents up by node hash, and the registry is written before the graph refuses.
\<close>

theorem am_apply_v2_tips_rejected:
  assumes d: "am_resolve m (op_doc op) = Inr d" "can_apply as_i64 op d = Inr Allowed"
    and delta: "doc_apply_delta_v2 (env_millis env) now now' u (op_delta op) d = Inr d1"
    and time: "env_millis env (op_timestamp_ms op) = Some t"
    and tips: "dag_get_tips (am_dag m (op_doc op)) = Inr (op_parents op)"
    and head: "n \<in> set (dag_get_heads (am_dag m (op_doc op)))" "dn_operations n = V2 o'"
      "op_id o' \<notin> dag_keys (am_dag m (op_doc op))"
  shows "\<exists>m' e d2. am_apply_operation_v2 env as_i64 dbg now now' u op m = (m', Inl (Raised (MerkleDag e))) \<and>
    am_resolve m' (op_doc op) = Inr d2 \<and> d2 = d1\<lparr>doc_vector_clock := vc_increment (op_actor op) (doc_vector_clock d1)\<rparr>"
proof -
  let ?g = "am_dag m (op_doc op)"
  let ?node = "\<lparr>dn_operations = V2 op, dn_timestamp = t, dn_parents = op_parents op,
     dn_hash = dn_compute_hash env (V2 op) (op_parents op) t (am_node_id m), dn_node_id = am_node_id m\<rparr>"
  let ?f = "\<lambda>n. case dn_operations n of V2 op \<Rightarrow> op_id op | Legacy _ \<Rightarrow> dn_hash n"
  have "op_parents op = map ?f (dag_get_heads ?g)" using tips by (simp add: dag_get_tips_def)
  then have "?f n \<in> set (op_parents op)" using head(1) by simp
  then have "op_id o' \<in> set (op_parents op)" using head(2) by simp
  then obtain p where "find (\<lambda>p. \<not> dag_contains ?g p) (op_parents op) = Some p"
    using head(3) by (cases "find (\<lambda>p. \<not> dag_contains ?g p) (op_parents op)") (auto simp: find_None_iff dag_keys_contains)
  then have "dag_add_node env ?node ?g = Inl (MerkleDag (''Parent node not found: '' @ p))"
    by (simp add: dag_add_node_def dn_verify_hash_def)
  moreover have "dn_from_operation_v2 env op (am_node_id m) = Some ?node"
    using time by (simp add: dn_from_operation_v2_def)
  ultimately show ?thesis
    using d delta by (simp add: am_apply_v2_defs Let_def am_resolve_def am_dag_def)
qed

section \<open>Updates from other nodes\<close>

lemma vc_get_increments: "vc_get ((vc_increment k ^^ j) c) n = vc_get c n + (if n = k then of_nat j else 0)"
  by (induction j) (auto simp: vc_get_increment)

lemma vc_get_count_up:
  "distinct (map fst clock) \<Longrightarrow>
     vc_get (vc_count_up clock c) n = vc_get c n + (case map_of clock n of None \<Rightarrow> 0 | Some t \<Rightarrow> t)"
  unfolding vc_count_up_def
proof (induction clock arbitrary: c)
  case (Cons x clock)
  obtain k t where x: "x = (k, t)" by (cases x)
  with Cons.prems have "map_of clock k = None" by (simp add: map_of_eq_None_iff)
  with Cons x show ?case by (simp add: vc_get_increments)
qed simp

text \<open>
  Receiving an update adds its counters to the replica's clock instead of taking the larger
  ones: an update without operations leaves each counter at the sum (modulo \<open>2^64\<close>) of the old
  value and the received one, so receiving it again changes the clock again.
\<close>

theorem am_merge_update_adds_clocks:
  assumes d: "am_resolve m (upd_did upd) = Inr d" and empty: "upd_operations upd = []"
    and clock: "distinct (map fst (upd_clock upd))"
    and ok: "am_merge_update env clk uuids now upd m = (m', Inr d')"
  shows "vc_get (doc_vector_clock d') n =
    vc_get (doc_vector_clock d) n + (case map_of (upd_clock upd) n of None \<Rightarrow> 0 | Some t \<Rightarrow> t)"
proof -
  have "d' = d\<lparr>doc_vector_clock := vc_count_up (upd_clock upd) (doc_vector_clock d)\<rparr>"
    using d empty ok by (auto simp: am_merge_update_def am_get_or_create_def am_commit_def Let_def split: sum.splits)
  then show ?thesis by (simp add: vc_get_count_up [OF clock])
qed

text \<open>
  The first-generation path asks nobody: on a deactivated document with a well-formed
  history, adding a verification method in anybody's name succeeds and the method is in the
  registered document afterwards.
\<close>

theorem am_apply_operation_ignores_deactivation:
  assumes d: "am_resolve m did = Inr d" "doc_is_deactivated d" and dag: "dag_inv env (am_dag m did)"
  shows "\<exists>m' d'. am_apply_operation env clk uuids did (AddVerificationMethod method ts node) m = (m', Inr d') \<and>
    am_resolve m' did = Inr d' \<and> doc_is_deactivated d' \<and> ors_contains (doc_verification_methods d') method"
proof -
  let ?op = "AddVerificationMethod method ts node" and ?g = "am_dag m did"
  have "set (map dn_hash (dag_get_heads ?g)) \<subseteq> dag_keys ?g"
    using dag by (auto simp: dag_get_heads_def List.map_filter_def dag_inv_def dag_keys_get)
  then obtain h g' where add: "dag_add_node env (dn_new env (clk 4) [?op] (map dn_hash (dag_get_heads ?g)) (am_node_id m)) ?g = Inr (h, g')"
    by (auto simp: dag_add_node_ok) (auto simp: dn_new_def)
  show ?thesis
    using d add
    by (simp add: am_apply_operation_def am_get_or_create_def op_apply_def am_commit_def Let_def am_resolve_def
        doc_add_verification_method_def doc_is_deactivated_def ors_contains_def ors_add_def)
qed

section \<open>Concrete runs\<close>

definition demo_doc :: "(nat, nat) ajna_document" where
  "demo_doc = doc_new 1 1 ''did:x'' ''n''"

definition demo_signed :: "string \<Rightarrow> string list \<Rightarrow> nat operation" where
  "demo_signed i ps = \<lparr>op_type = OP_TYPE, op_doc = ''did:x'', op_id = i, op_parents = ps, op_actor = ''did:x'',
     op_clock = \<lparr>ce_actor_id = 0, ce_counter = 1\<rparr>, op_delta = ServiceRemove ''s'',
     op_auth = \<lparr>ap_proof = [], ap_kid = ''k''\<rparr>, op_timestamp_ms = 7\<rparr>"

definition demo_method :: "(nat, nat) ajna_document \<Rightarrow> nat merkle_dag \<Rightarrow> (nat, nat) ajna_method" where
  "demo_method d g = \<lparr>am_registry = [(''did:x'', d)], am_history = [(''did:x'', g)],
     am_anchoring = Some (as_new ''net'' 10), am_node_id = ''n''\<rparr>"

lemma demo_resolve [simp]: "am_resolve (demo_method d g) ''did:x'' = Inr d"
  by (simp add: am_resolve_def demo_method_def)

lemma demo_dag [simp]: "am_dag (demo_method d g) ''did:x'' = g"
  by (simp add: am_dag_def demo_method_def)

lemma demo_can_apply: "can_apply as_i64 (demo_signed i ps) demo_doc = Inr Allowed"
  by (simp add: can_apply_def authorize_def Let_def is_actor_authorized_permitted permitted_def demo_doc_def doc_new_def
      demo_signed_def doc_is_deactivated_def check_quorum_def get_quorum_requirement_def doc_get_policy_int_def
      doc_get_policy_def authorize_delta_def)

lemma demo_signed_simps [simp]: "op_doc (demo_signed i ps) = ''did:x''" "op_parents (demo_signed i ps) = ps"
  "op_actor (demo_signed i ps) = ''did:x''" "op_delta (demo_signed i ps) = ServiceRemove ''s''"
  "op_timestamp_ms (demo_signed i ps) = 7" "op_id (demo_signed i ps) = i"
  by (simp_all add: demo_signed_def)

text \<open>A hash function with texts of one character, and a history to which a node was added after the anchor.\<close>

definition demo_short :: "nat dag_env" where
  "demo_short = \<lparr>env_blake3 = (\<lambda>bs. [of_nat (length bs)]), env_b64_enc = latin_enc, env_op_json = (\<lambda>_. Some ''op''),
     env_rfc3339 = (\<lambda>t. replicate (nat t) CHR ''i''), env_millis = Some\<rparr>"

definition demo_grown :: "nat merkle_dag" where
  "demo_grown = (let n = dn_new demo_short 1 [] [] ''n'' in \<lparr>dag_nodes = [(dn_hash n, n)], dag_heads = [dn_hash n], dag_genesis = Some (dn_hash n)\<rparr>)"

theorem anchor_binds_history_witness:
  "\<exists>m1 a s. am_anchor demo_short latin_enc 0 0 0 ''did:x'' (demo_method demo_doc dag_new) = (m1, Inr a) \<and> am_anchoring m1 = Some s \<and>
     am_verify_against_anchor demo_short m1 ''did:x'' = Some True \<and>
     am_verify_against_anchor demo_short ((demo_method demo_doc demo_grown)\<lparr>am_anchoring := Some s\<rparr>) ''did:x'' = Some False"
proof -
  let ?n = "dn_new demo_short 1 [] [] ''n''"
  obtain m1 a s where m1: "am_anchor demo_short latin_enc 0 0 0 ''did:x'' (demo_method demo_doc dag_new) = (m1, Inr a)"
    and s: "am_anchoring m1 = Some s" "hm_get (as_anchors s) ''did:x'' = Some a"
    by (simp add: am_anchor_def demo_method_def am_get_merkle_root_def am_get_history_def dag_get_all_operations_def
        dag_topological_sort_def dag_new_def as_submit_anchor_def as_should_anchor_def as_new_def Let_def)
  have "dag_add_node demo_short ?n dag_new = Inr (dn_hash ?n, demo_grown)"
    by (simp add: dag_add_node_def dag_new_def heads_insert_def demo_grown_def Let_def) (simp add: dn_new_def heads_insert_def Let_def)
  then have grown: "dag_inv demo_short demo_grown" by (rule dag_inv_add_node [OF dag_inv_new]) (simp add: dag_new_def dag_keys_def)
  have "am_verify_against_anchor demo_short m1 ''did:x'' = Some True \<and>
    am_verify_against_anchor demo_short ((demo_method demo_doc demo_grown)\<lparr>am_anchoring := Some s\<rparr>) ''did:x'' =
      Some (map_of (dag_nodes demo_grown) = map_of (dag_nodes dag_new))"
  proof (rule anchor_binds_history [OF m1 _ s(2) _ dag_inv_new _ grown, where k = 1])
    show "inj (env_b64_enc demo_short)" by (rule inj_on_inverseI [where g = "the \<circ> latin_dec"]) (simp add: demo_short_def latin_codec)
    show "\<not> collision (env_blake3 demo_short) (dag_root_input dag_new) (dag_root_input demo_grown)"
      by (simp add: collision_def demo_short_def dag_root_input_def dag_new_def demo_grown_def Let_def DST_AJNA_ROOT_def dn_new_def
          dn_compute_hash_def hash_to_base64url_def dn_hash_input_def latin_enc_def)
  qed (simp_all add: demo_method_def dag_get_node_def dag_new_def demo_short_def latin_enc_def bytes_str_def)
  with m1 s show ?thesis by (auto simp: demo_grown_def dag_new_def Let_def)
qed

theorem signed_changes_authorized_witness:
  "\<exists>m' d'. (v2_step demo_env (\<lambda>_. None))\<^sup>*\<^sup>* (demo_method demo_doc dag_new, []) (m', []) \<and> am_resolve m' ''did:x'' = Inr d' \<and> doc_updated d' = 3 \<and>
     (v2_change demo_env (\<lambda>_. None) ''did:x'')\<^sup>*\<^sup>* demo_doc d'"
proof -
  let ?m = "demo_method demo_doc dag_new" and ?op = "demo_signed ''o'' []"
  obtain m' r where run: "am_apply_operation_v2 demo_env (\<lambda>_. None) (\<lambda>_. []) 2 3 (0::nat) ?op ?m = (m', r)"
    by (cases "am_apply_operation_v2 demo_env (\<lambda>_. None) (\<lambda>_. []) 2 3 (0::nat) ?op ?m")
  then obtain d' where d': "hm_get (am_registry m') ''did:x'' = Some d'" "doc_updated d' = 3"
    by (auto simp: am_apply_v2_defs demo_can_apply doc_apply_delta_v2_def Let_def dn_from_operation_v2_def demo_env_def split: sum.splits prod.splits)
  from signed_changes_authorized [OF apply_v2_steps [OF run] d'(1)] have "(v2_change demo_env (\<lambda>_. None) ''did:x'')\<^sup>*\<^sup>* demo_doc d'"
    by (simp add: demo_method_def)
  with apply_v2_steps [OF run] d' show ?thesis by (auto simp: am_resolve_def)
qed

theorem am_apply_v2_tips_rejected_witness:
  "let node = \<lparr>dn_operations = V2 (demo_signed ''o'' []), dn_timestamp = 7, dn_parents = [], dn_hash = ''h'', dn_node_id = ''n''\<rparr>;
       g = \<lparr>dag_nodes = [(''h'', node)], dag_heads = [''h''], dag_genesis = Some ''h''\<rparr>
   in \<exists>m' e d2. am_apply_operation_v2 demo_env (\<lambda>_. None) (\<lambda>_. []) 2 3 0 (demo_signed ''p'' [''o'']) (demo_method demo_doc g)
          = (m', Inl (Raised (MerkleDag e))) \<and> am_resolve m' ''did:x'' = Inr d2 \<and> doc_updated d2 = 3"
proof -
  let ?node = "\<lparr>dn_operations = V2 (demo_signed ''o'' []), dn_timestamp = 7, dn_parents = [], dn_hash = ''h'', dn_node_id = ''n''\<rparr>"
  let ?g = "\<lparr>dag_nodes = [(''h'', ?node)], dag_heads = [''h''], dag_genesis = Some ''h''\<rparr>"
  let ?m = "demo_method demo_doc ?g" and ?op = "demo_signed ''p'' [''o'']"
  obtain d1 where d1: "doc_apply_delta_v2 (env_millis demo_env) 2 3 0 (op_delta ?op) demo_doc = Inr d1" "doc_updated d1 = 3"
    by (simp add: doc_apply_delta_v2_def)
  have "\<exists>m' e d2. am_apply_operation_v2 demo_env (\<lambda>_. None) (\<lambda>_. []) 2 3 0 ?op ?m = (m', Inl (Raised (MerkleDag e))) \<and>
    am_resolve m' (op_doc ?op) = Inr d2 \<and> d2 = d1\<lparr>doc_vector_clock := vc_increment (op_actor ?op) (doc_vector_clock d1)\<rparr>"
    by (rule am_apply_v2_tips_rejected [OF _ demo_can_apply d1(1), where t = 7 and n = ?node and o' = "demo_signed ''o'' []"])
      (simp_all add: demo_env_def dag_get_tips_def dag_get_heads_def dag_keys_def List.map_filter_def)
  with d1(2) show ?thesis by (auto simp: Let_def)
qed

theorem am_merge_update_adds_clocks_witness:
  "\<exists>m' d'. am_merge_update demo_env int id 9 (upd_new 5 ''did:x'' [] [(''n2'', 3)] ''n2'')
        (demo_method (demo_doc\<lparr>doc_vector_clock := \<lparr>clocks = [(''n2'', 3)]\<rparr>\<rparr>) dag_new) = (m', Inr d') \<and>
     vc_get (doc_vector_clock d') ''n2'' = 6"
proof -
  let ?d = "demo_doc\<lparr>doc_vector_clock := \<lparr>clocks = [(''n2'', 3)]\<rparr>\<rparr>"
  let ?m = "demo_method ?d dag_new" and ?u = "upd_new 5 ''did:x'' [] [(''n2'', 3)] ''n2'' :: nat did_update"
  have heads: "dag_get_heads dag_new = []" by (simp add: dag_get_heads_def dag_new_def List.map_filter_def)
  obtain g where "dag_add_node demo_env (dn_new demo_env 9 [] [] ''n2'') dag_new = Inr g"
    by (cases "dag_add_node demo_env (dn_new demo_env 9 [] [] ''n2'') dag_new")
      (auto simp: dag_add_node_def Let_def, simp add: dn_new_def Let_def)
  then obtain m' d' where ok: "am_merge_update demo_env int id 9 ?u ?m = (m', Inr d')"
    by (cases g) (simp add: am_merge_update_def am_get_or_create_def upd_new_def am_commit_def Let_def heads)
  have "vc_get (doc_vector_clock d') ''n2'' = vc_get (doc_vector_clock ?d) ''n2'' +
      (case map_of (upd_clock ?u) ''n2'' of None \<Rightarrow> 0 | Some t \<Rightarrow> t)"
    by (rule am_merge_update_adds_clocks [OF _ _ _ ok]) (simp_all add: upd_new_def)
  then have "vc_get (doc_vector_clock d') ''n2'' = 6" by (simp add: upd_new_def vc_get_def)
  with ok show ?thesis by blast
qed

theorem am_apply_operation_ignores_deactivation_witness:
  "let vm = vm_new_slhdsa ''did:evil'' ''k'' ''z'' None; m = demo_method (demo_doc\<lparr>doc_deactivated := Some True\<rparr>) dag_new
   in \<exists>m' d'. am_apply_operation demo_env int id ''did:x'' (AddVerificationMethod vm 2 ''evil'') m = (m', Inr d') \<and>
        am_resolve m' ''did:x'' = Inr d' \<and> doc_is_deactivated d' \<and> ors_contains (doc_verification_methods d') vm"
  unfolding Let_def
  by (rule am_apply_operation_ignores_deactivation, rule demo_resolve)
    (simp_all add: dag_inv_new doc_is_deactivated_def)

end
