(* ===== verification/Ajna_Sync.thy ===== *)
theory Ajna_Sync
  imports Ajna_Method
begin

text \<open>
  Synchronisation of operations between peers: \<open>did/src/ajna/bloom_filter.rs\<close>, \<open>op_bundle.rs\<close> and
  \<open>didcomm_sync.rs\<close>. The filter of the crate \<open>bloom\<close>, floating-point sizes, MessagePack and base64
  are arguments. The clock is \<open>clock k\<close> at its \<open>k\<close>-th reading.
\<close>

section \<open>Bloom filter\<close>

definition u32_to_le :: "u32 \<Rightarrow> bytes" where "u32_to_le w = rev (u32_to_be w)"
definition u32_from_le :: "bytes \<Rightarrow> u32" where "u32_from_le bs = u32_from_be (rev bs)"

text \<open>The crate's filter and \<open>f64\<close>: \<open>fl_min_rate x\<close> is \<open>x.min(1e-6)\<close>, \<open>fl_sizes\<close> the two formulas of \<open>new\<close>.\<close>

record ('b, 'f) bloom_env =
  bl_with_size :: "nat \<Rightarrow> u32 \<Rightarrow> 'b"
  bl_insert :: "bytes \<Rightarrow> 'b \<Rightarrow> 'b"
  bl_contains :: "'b \<Rightarrow> bytes \<Rightarrow> bool"
  fl_le_bytes :: "'f \<Rightarrow> bytes"
  fl_from_le :: "bytes \<Rightarrow> 'f"
  fl_min_rate :: "'f \<Rightarrow> 'f"
  fl_default :: 'f
  fl_sizes :: "nat \<Rightarrow> 'f \<Rightarrow> nat \<times> u32"

record ('b, 'f) bloom_filter =
  bf_inner :: 'b
  bf_false_positive_rate :: 'f
  bf_expected_items :: nat
  bf_bit_count :: nat
  bf_hash_count :: u32

definition bf_new :: "('b, 'f) bloom_env \<Rightarrow> nat \<Rightarrow> 'f \<Rightarrow> ('b, 'f) bloom_filter" where
  "bf_new env expected_items false_positive_rate =
     (let fpr = fl_min_rate env false_positive_rate; (bit_count, hash_count) = fl_sizes env expected_items fpr
      in \<lparr>bf_inner = bl_with_size env bit_count hash_count, bf_false_positive_rate = fpr, bf_expected_items = expected_items,
          bf_bit_count = bit_count, bf_hash_count = hash_count\<rparr>)"

definition bf_default_config :: "('b, 'f) bloom_env \<Rightarrow> ('b, 'f) bloom_filter" where
  "bf_default_config env = bf_new env 10000 (fl_default env)"

definition bf_insert :: "('b, 'f) bloom_env \<Rightarrow> bytes \<Rightarrow> ('b, 'f) bloom_filter \<Rightarrow> ('b, 'f) bloom_filter" where
  "bf_insert env key f = f\<lparr>bf_inner := bl_insert env key (bf_inner f)\<rparr>"

definition bf_contains :: "('b, 'f) bloom_env \<Rightarrow> ('b, 'f) bloom_filter \<Rightarrow> bytes \<Rightarrow> bool" where
  "bf_contains env f key = bl_contains env (bf_inner f) key"

definition bf_to_bytes :: "('b, 'f) bloom_env \<Rightarrow> ('b, 'f) bloom_filter \<Rightarrow> bytes" where
  "bf_to_bytes env f =
     u32_to_le (of_nat (bf_expected_items f)) @ fl_le_bytes env (bf_false_positive_rate f) @
     u32_to_le (of_nat (bf_bit_count f)) @ u32_to_le (bf_hash_count f)"

definition bf_from_bytes :: "('b, 'f) bloom_env \<Rightarrow> bytes \<Rightarrow> ajna_error + ('b, 'f) bloom_filter" where
  "bf_from_bytes env bs =
     (if length bs < 20 then Inl (InvalidBloomFilter ''Insufficient bytes for header'')
      else (let expected_items = unat (u32_from_le (take 4 bs)); fpr = fl_from_le env (take 8 (drop 4 bs));
                bit_count = unat (u32_from_le (take 4 (drop 12 bs))); hash_count = u32_from_le (take 4 (drop 16 bs))
            in Inr \<lparr>bf_inner = bl_with_size env bit_count hash_count, bf_false_positive_rate = fpr, bf_expected_items = expected_items,
                    bf_bit_count = bit_count, bf_hash_count = hash_count\<rparr>))"

definition bf_estimated_size_bytes :: "('b, 'f) bloom_filter \<Rightarrow> nat" where
  "bf_estimated_size_bytes f = 20"

definition bf_clear :: "('b, 'f) bloom_env \<Rightarrow> ('b, 'f) bloom_filter \<Rightarrow> ('b, 'f) bloom_filter" where
  "bf_clear env f = f\<lparr>bf_inner := bl_with_size env (bf_bit_count f) (bf_hash_count f)\<rparr>"

definition bf_is_empty :: "('b, 'f) bloom_filter \<Rightarrow> bool" where
  "bf_is_empty f = False"

text \<open>What the crate documents: no false negatives.\<close>

definition bloom_ok :: "('b, 'f) bloom_env \<Rightarrow> bool" where
  "bloom_ok env \<longleftrightarrow> (\<forall>b x. bl_contains env (bl_insert env x b) x) \<and>
     (\<forall>b x y. bl_contains env b y \<longrightarrow> bl_contains env (bl_insert env x b) y)"

section \<open>Bundles\<close>

definition MAX_BUNDLE_SIZE :: nat where "MAX_BUNDLE_SIZE = 128 * 1024"

record 'j op_bundle =
  ob_doc :: string
  ob_operations :: "'j operation list"
  ob_context_ops :: "'j operation list"
  ob_bundle_id :: string
  ob_created_at :: int

record 'j bundle_env =
  ue_blake3 :: "bytes \<Rightarrow> hash"
  ue_b64_enc :: "bytes \<Rightarrow> string"
  ue_b64_dec :: "string \<Rightarrow> bytes option"
  ue_to_vec :: "'j op_bundle \<Rightarrow> bytes option"
  ue_from_slice :: "bytes \<Rightarrow> 'j op_bundle option"

definition i64_to_le :: "int \<Rightarrow> bytes" where
  "i64_to_le x = rev (be_encode 8 (nat (x mod 2 ^ 64)))"

definition ob_compute_id :: "'j bundle_env \<Rightarrow> 'j op_bundle \<Rightarrow> string" where
  "ob_compute_id env b =
     ue_b64_enc env (ue_blake3 env (DST_AJNA_OP @ str_bytes (ob_doc b) @
       concat (map str_bytes (sort (map op_id (ob_operations b)))) @ i64_to_le (ob_created_at b)))"

text \<open>The parents that are not among the operations are collected, and nothing is made of them.\<close>

definition needed_parents :: "'j operation list \<Rightarrow> string set" where
  "needed_parents ops = {p. \<exists>op\<in>set ops. p \<in> set (op_parents op) \<and> p \<noteq> []} - op_id ` set ops"

definition find_minimal_context :: "'j operation list \<Rightarrow> ajna_error + 'j operation list" where
  "find_minimal_context ops = Inr []"

definition ob_to_bytes :: "'j bundle_env \<Rightarrow> 'j op_bundle \<Rightarrow> ajna_error + bytes" where
  "ob_to_bytes env b = (case ue_to_vec env b of None \<Rightarrow> Inl (SerializationError '''') | Some bs \<Rightarrow> Inr bs)"

definition ob_from_bytes :: "'j bundle_env \<Rightarrow> bytes \<Rightarrow> ajna_error + 'j op_bundle" where
  "ob_from_bytes env bs = (case ue_from_slice env bs of None \<Rightarrow> Inl (SerializationError '''') | Some b \<Rightarrow> Inr b)"

definition ob_create :: "'j bundle_env \<Rightarrow> int \<Rightarrow> string \<Rightarrow> 'j operation list \<Rightarrow> nat \<Rightarrow> ajna_error + 'j op_bundle" where
  "ob_create env now did ops max_size =
     (case find_minimal_context ops of
        Inl e \<Rightarrow> Inl e
      | Inr context_ops \<Rightarrow>
          (let b = \<lparr>ob_doc = did, ob_operations = ops, ob_context_ops = context_ops, ob_bundle_id = [], ob_created_at = now\<rparr>;
               b = b\<lparr>ob_bundle_id := ob_compute_id env b\<rparr>
           in case ob_to_bytes env b of
                Inl e \<Rightarrow> Inl e
              | Inr serialized \<Rightarrow> if length serialized > max_size then Inl (BundleTooLarge (length serialized) max_size) else Inr b))"

definition has_sufficient_context :: "'j op_bundle \<Rightarrow> bool" where
  "has_sufficient_context b \<longleftrightarrow>
     (let available_ops = op_id ` (set (ob_operations b) \<union> set (ob_context_ops b))
      in list_all (\<lambda>op. list_all (\<lambda>parent. \<not> (parent \<noteq> [] \<and> parent \<notin> available_ops)) (op_parents op)) (ob_operations b))"

definition ob_validate :: "'j bundle_env \<Rightarrow> 'j op_bundle \<Rightarrow> ajna_error + unit" where
  "ob_validate env b =
     (if ob_compute_id env b \<noteq> ob_bundle_id b then Inl InvalidBundleId
      else if \<not> has_sufficient_context b then Inl InsufficientContext else Inr ())"

text \<open>The loop of \<open>split_if_needed\<close>; \<open>k\<close> counts the readings of the clock.\<close>

fun split_loop ::
  "'j bundle_env \<Rightarrow> (nat \<Rightarrow> int) \<Rightarrow> string \<Rightarrow> nat \<Rightarrow> nat \<Rightarrow> 'j op_bundle list \<Rightarrow> 'j operation list \<Rightarrow> 'j operation list \<Rightarrow> ajna_error + 'j op_bundle list" where
  "split_loop env clock did max_size k bundles current [] =
     (if current \<noteq> [] then map_sum id (\<lambda>b. bundles @ [b]) (ob_create env (clock k) did current max_size) else Inr bundles)"
| "split_loop env clock did max_size k bundles current (op # ops) =
     (case ob_create env (clock k) did (current @ [op]) max_size of
        Inr _ \<Rightarrow> split_loop env clock did max_size (k + 1) bundles (current @ [op]) ops
      | Inl (BundleTooLarge _ _) \<Rightarrow>
          if length (current @ [op]) > 1 then
            (case ob_create env (clock (k + 1)) did current max_size of
               Inl e \<Rightarrow> Inl e
             | Inr b \<Rightarrow> split_loop env clock did max_size (k + 2) (bundles @ [b]) [op] ops)
          else Inl (InvalidOperation ''Single operation exceeds max bundle size'')
      | Inl e \<Rightarrow> Inl e)"

definition split_if_needed :: "'j bundle_env \<Rightarrow> (nat \<Rightarrow> int) \<Rightarrow> string \<Rightarrow> 'j operation list \<Rightarrow> nat \<Rightarrow> ajna_error + 'j op_bundle list" where
  "split_if_needed env clock did ops max_size =
     (case ob_create env (clock 0) did ops max_size of
        Inr b \<Rightarrow> Inr [b]
      | Inl (BundleTooLarge _ _) \<Rightarrow> split_loop env clock did max_size 1 [] [] ops
      | Inl e \<Rightarrow> Inl e)"

definition ob_total_ops :: "'j op_bundle \<Rightarrow> nat" where
  "ob_total_ops b = length (ob_operations b) + length (ob_context_ops b)"

definition ob_size_bytes :: "'j bundle_env \<Rightarrow> 'j op_bundle \<Rightarrow> ajna_error + nat" where
  "ob_size_bytes env b = map_sum id length (ob_to_bytes env b)"

section \<open>The protocol\<close>

record ('j, 'b, 'f) sync_protocol =
  sp_bloom :: "('b, 'f) bloom_filter"
  sp_known_tips :: "(string, string set) hash_map"
  sp_dags :: "(string, 'j merkle_dag) hash_map"

record announce_message =
  anm_piuri :: string
  anm_doc :: string
  anm_tips :: "string list"
  anm_bloom :: string
  anm_want :: "string list option"

record fetch_message =
  fm_piuri :: string
  fm_doc :: string
  fm_op_ids :: "string list"
  fm_max_bundle_size :: nat

record push_message =
  psm_piuri :: string
  psm_doc :: string
  psm_bundle :: bytes

text \<open>The operations of a history; the search behind it always ends.\<close>

definition dag_ops :: "'j merkle_dag \<Rightarrow> 'j operation list" where
  "dag_ops g = (case dag_get_all_operations_v2 g of None \<Rightarrow> [] | Some ops \<Rightarrow> ops)"

definition sp_new :: "('b, 'f) bloom_env \<Rightarrow> ('j, 'b, 'f) sync_protocol" where
  "sp_new env = \<lparr>sp_bloom = bf_default_config env, sp_known_tips = [], sp_dags = []\<rparr>"

definition sp_from_dag :: "('b, 'f) bloom_env \<Rightarrow> 'j merkle_dag \<Rightarrow> string \<Rightarrow> ('j, 'b, 'f) sync_protocol" where
  "sp_from_dag env g did =
     (let s = sp_new env
      in s\<lparr>sp_bloom := fold (\<lambda>op. bf_insert env (str_bytes (op_id op))) (dag_ops g) (sp_bloom s), sp_dags := hm_insert did g (sp_dags s)\<rparr>)"

definition sp_register_operation :: "('b, 'f) bloom_env \<Rightarrow> 'j operation \<Rightarrow> ('j, 'b, 'f) sync_protocol \<Rightarrow> ('j, 'b, 'f) sync_protocol" where
  "sp_register_operation env op s = s\<lparr>sp_bloom := bf_insert env (str_bytes (op_id op)) (sp_bloom s)\<rparr>"

definition sp_get_dag :: "string \<Rightarrow> ('j, 'b, 'f) sync_protocol \<Rightarrow> ajna_error + 'j merkle_dag" where
  "sp_get_dag did s = (case hm_get (sp_dags s) did of None \<Rightarrow> Inl (DidNotFound did) | Some g \<Rightarrow> Inr g)"

definition sp_get_or_create_dag :: "string \<Rightarrow> ('j, 'b, 'f) sync_protocol \<Rightarrow> ('j, 'b, 'f) sync_protocol" where
  "sp_get_or_create_dag did s = (if hm_contains (sp_dags s) did then s else s\<lparr>sp_dags := hm_insert did dag_new (sp_dags s)\<rparr>)"

definition sp_get_tips :: "string \<Rightarrow> ('j, 'b, 'f) sync_protocol \<Rightarrow> ajna_error + string list" where
  "sp_get_tips did s = (case sp_get_dag did s of Inl e \<Rightarrow> Inl e | Inr g \<Rightarrow> dag_get_tips g)"

definition announce_to_peer :: "('b, 'f) bloom_env \<Rightarrow> 'j bundle_env \<Rightarrow> string \<Rightarrow> ('j, 'b, 'f) sync_protocol \<Rightarrow> ajna_error + announce_message" where
  "announce_to_peer benv env did s =
     (case sp_get_tips did s of
        Inl e \<Rightarrow> Inl e
      | Inr tips \<Rightarrow> Inr \<lparr>anm_piuri = ''bh/opsync/1.0/announce'', anm_doc = did, anm_tips = tips,
                         anm_bloom = ue_b64_enc env (bf_to_bytes benv (sp_bloom s)), anm_want = None\<rparr>)"

definition find_missing_ops :: "('b, 'f) bloom_env \<Rightarrow> string \<Rightarrow> ('b, 'f) bloom_filter \<Rightarrow> ('j, 'b, 'f) sync_protocol \<Rightarrow> ajna_error + string list" where
  "find_missing_ops benv did peer_bloom s =
     map_sum id (\<lambda>g. map op_id (filter (\<lambda>op. \<not> bf_contains benv peer_bloom (str_bytes (op_id op))) (dag_ops g))) (sp_get_dag did s)"

definition find_missing_from_tips :: "('b, 'f) bloom_env \<Rightarrow> string list \<Rightarrow> ('j, 'b, 'f) sync_protocol \<Rightarrow> string list" where
  "find_missing_from_tips benv peer_tips s = filter (\<lambda>tip. \<not> bf_contains benv (sp_bloom s) (str_bytes tip)) peer_tips"

definition handle_announce ::
  "('b, 'f) bloom_env \<Rightarrow> 'j bundle_env \<Rightarrow> announce_message \<Rightarrow> string \<Rightarrow> ('j, 'b, 'f) sync_protocol \<Rightarrow>
     ('j, 'b, 'f) sync_protocol \<times> (ajna_error + fetch_message option)" where
  "handle_announce benv env msg peer_did s =
     (case ue_b64_dec env (anm_bloom msg) of
        None \<Rightarrow> (s, Inl (InvalidBloomFilter ''''))
      | Some peer_bloom_bytes \<Rightarrow>
          (case bf_from_bytes benv peer_bloom_bytes of
             Inl e \<Rightarrow> (s, Inl e)
           | Inr peer_bloom \<Rightarrow>
               (case find_missing_ops benv (anm_doc msg) peer_bloom s of
                  Inl e \<Rightarrow> (s, Inl e)
                | Inr _ \<Rightarrow>
                    (let missing_on_us = find_missing_from_tips benv (anm_tips msg) s;
                         s' = s\<lparr>sp_known_tips := hm_insert peer_did (set (anm_tips msg)) (sp_known_tips s)\<rparr>
                     in (s', Inr (if missing_on_us \<noteq> []
                          then Some \<lparr>fm_piuri = ''bh/opsync/1.0/fetch'', fm_doc = anm_doc msg, fm_op_ids = missing_on_us, fm_max_bundle_size = MAX_BUNDLE_SIZE\<rparr>
                          else None))))))"

definition handle_fetch :: "'j bundle_env \<Rightarrow> int \<Rightarrow> fetch_message \<Rightarrow> ('j, 'b, 'f) sync_protocol \<Rightarrow> ajna_error + push_message" where
  "handle_fetch env now msg s =
     (case sp_get_dag (fm_doc msg) s of
        Inl e \<Rightarrow> Inl e
      | Inr g \<Rightarrow>
          (let requested_ops = filter (\<lambda>op. op_id op \<in> set (fm_op_ids msg)) (dag_ops g)
           in if requested_ops = [] then Inl (InvalidOperation ''No operations found for requested IDs'')
              else case ob_create env now (fm_doc msg) requested_ops (fm_max_bundle_size msg) of
                     Inl e \<Rightarrow> Inl e
                   | Inr b \<Rightarrow> map_sum id (\<lambda>bs. \<lparr>psm_piuri = ''bh/opsync/1.0/push'', psm_doc = fm_doc msg, psm_bundle = bs\<rparr>) (ob_to_bytes env b)))"

definition handle_push ::
  "('b, 'f) bloom_env \<Rightarrow> 'j bundle_env \<Rightarrow> push_message \<Rightarrow> ('j, 'b, 'f) sync_protocol \<Rightarrow> ('j, 'b, 'f) sync_protocol \<times> (ajna_error + nat)" where
  "handle_push benv env msg s =
     (case ob_from_bytes env (psm_bundle msg) of
        Inl e \<Rightarrow> (s, Inl e)
      | Inr b \<Rightarrow>
          (case ob_validate env b of
             Inl e \<Rightarrow> (s, Inl e)
           | Inr _ \<Rightarrow>
               (let s = sp_get_or_create_dag (psm_doc msg) s;
                    applied_count = length (filter (\<lambda>op. \<not> bf_contains benv (sp_bloom s) (str_bytes (op_id op))) (ob_operations b))
                in (fold (sp_register_operation benv) (ob_operations b) s, Inr applied_count))))"

record sync_stats =
  sst_bloom_size_bytes :: nat
  sst_known_dids :: nat
  sst_known_peers :: nat
  sst_total_operations :: nat

definition sp_stats :: "('j, 'b, 'f) sync_protocol \<Rightarrow> sync_stats" where
  "sp_stats s = \<lparr>sst_bloom_size_bytes = bf_estimated_size_bytes (sp_bloom s), sst_known_dids = length (sp_dags s),
     sst_known_peers = length (sp_known_tips s), sst_total_operations = sum_list (map dag_node_count (hm_values (sp_dags s)))\<rparr>"

section \<open>Splitting\<close>

text \<open>A bundle made for \<open>did\<close>: of the right size, with its own id and without context.\<close>

definition bundle_ok :: "'j bundle_env \<Rightarrow> string \<Rightarrow> nat \<Rightarrow> 'j op_bundle \<Rightarrow> bool" where
  "bundle_ok env did max_size b \<longleftrightarrow> ob_doc b = did \<and> ob_context_ops b = [] \<and> ob_bundle_id b = ob_compute_id env b \<and>
     (\<exists>bs. ob_to_bytes env b = Inr bs \<and> length bs \<le> max_size)"

lemma ob_create_ok:
  assumes "ob_create env now did ops max_size = Inr b"
  shows "bundle_ok env did max_size b \<and> ob_operations b = ops"
  using assms by (auto simp: ob_create_def find_minimal_context_def bundle_ok_def ob_compute_id_def Let_def split: sum.splits if_splits)

text \<open>The three ways a bundle can come out, as the loop tells them apart.\<close>

lemma ob_create_cases:
  obtains b where "ob_create env now did ops max_size = Inr b"
  | "\<exists>n. ob_create env now did ops max_size = Inl (BundleTooLarge n max_size)"
  | "ob_create env now did ops max_size = Inl (SerializationError [])"
proof -
  have "(\<exists>b. ob_create env now did ops max_size = Inr b) \<or> (\<exists>n. ob_create env now did ops max_size = Inl (BundleTooLarge n max_size)) \<or>
      ob_create env now did ops max_size = Inl (SerializationError [])"
    by (simp add: ob_create_def find_minimal_context_def ob_to_bytes_def Let_def split: option.split)
  with that show ?thesis by blast
qed

lemma split_loop_ok:
  assumes "split_loop env clock did max_size k bundles current ops = Inr bs" "list_all (bundle_ok env did max_size) bundles"
  shows "list_all (bundle_ok env did max_size) bs \<and> concat (map ob_operations bs) = concat (map ob_operations bundles) @ current @ ops"
  using assms
proof (induction env clock did max_size k bundles current ops rule: split_loop.induct)
  case (1 env clock did max_size k bundles current)
  then show ?case using ob_create_ok
    by (cases "ob_create env (clock k) did current max_size") (fastforce split: if_splits)+
next
  case (2 env clock did max_size k bundles current op ops)
  show ?case
  proof (cases rule: ob_create_cases [of env "clock k" did "current @ [op]" max_size])
    case (1 b)
    with "2.IH"(2) [OF 1] "2.prems" show ?thesis by simp
  next
    case 2
    then obtain n where n: "ob_create env (clock k) did (current @ [op]) max_size = Inl (BundleTooLarge n max_size)" by blast
    with "2.prems"(1) obtain b where b: "length (current @ [op]) > 1" "ob_create env (clock (k + 1)) did current max_size = Inr b"
      "split_loop env clock did max_size (k + 2) (bundles @ [b]) [op] ops = Inr bs"
      by (auto split: if_splits sum.splits)
    have "list_all (bundle_ok env did max_size) (bundles @ [b])" "ob_operations b = current"
      using ob_create_ok [OF b(2)] "2.prems"(2) by simp_all
    with "2.IH"(1) [OF n refl b] show ?thesis by simp
  next
    case 3
    with "2.prems" show ?thesis by simp
  qed
qed

text \<open>When the size of a bundle does not depend on when it is made and every operation fits alone, splitting succeeds.\<close>

definition fits :: "'j bundle_env \<Rightarrow> string \<Rightarrow> nat \<Rightarrow> 'j operation list \<Rightarrow> bool" where
  "fits env did max_size ops \<longleftrightarrow> (\<forall>now. \<exists>b. ob_create env now did ops max_size = Inr b)"

definition size_stable :: "'j bundle_env \<Rightarrow> string \<Rightarrow> nat \<Rightarrow> bool" where
  "size_stable env did max_size \<longleftrightarrow> (\<forall>ops now. fits env did max_size ops \<or> (\<exists>n. ob_create env now did ops max_size = Inl (BundleTooLarge n max_size)))"

lemma split_loop_succeeds:
  assumes "size_stable env did max_size" "\<forall>op\<in>set ops. fits env did max_size [op]" "current = [] \<or> fits env did max_size current"
  shows "\<exists>bs. split_loop env clock did max_size k bundles current ops = Inr bs"
  using assms
proof (induction env clock did max_size k bundles current ops rule: split_loop.induct)
  case (1 env clock did max_size k bundles current)
  then show ?case by (auto simp: fits_def) (metis map_sum.simps(2))
next
  case (2 env clock did max_size k bundles current op ops)
  show ?case
  proof (cases "fits env did max_size (current @ [op])")
    case True
    then obtain b where b: "ob_create env (clock k) did (current @ [op]) max_size = Inr b" by (auto simp: fits_def)
    show ?thesis using "2.IH"(2) [OF b "2.prems"(1) _ disjI2 [OF True]] "2.prems"(2) b by simp
  next
    case False
    with "2.prems"(1) obtain n where n: "ob_create env (clock k) did (current @ [op]) max_size = Inl (BundleTooLarge n max_size)"
      by (auto simp: size_stable_def)
    have ne: "current \<noteq> []" using False "2.prems"(2) by auto
    then have len: "length (current @ [op]) > 1" by (cases current) simp_all
    from ne "2.prems"(3) obtain b where b: "ob_create env (clock (k + 1)) did current max_size = Inr b" by (auto simp: fits_def)
    from "2.IH"(1) [OF n refl len b "2.prems"(1)] "2.prems"(2) n len b show ?thesis by simp
  qed
qed

lemma split_if_needed_ok:
  assumes "split_if_needed env clock did ops max_size = Inr bs"
  shows "concat (map ob_operations bs) = ops \<and> list_all (bundle_ok env did max_size) bs"
proof (cases rule: ob_create_cases [of env "clock 0" did ops max_size])
  case (1 b)
  with assms ob_create_ok [OF 1] show ?thesis by (auto simp: split_if_needed_def)
next
  case 2
  with assms have "split_loop env clock did max_size 1 [] [] ops = Inr bs" by (auto simp: split_if_needed_def)
  from split_loop_ok [OF this] show ?thesis by simp
next
  case 3
  with assms show ?thesis by (simp add: split_if_needed_def)
qed

text \<open>
  Splitting loses nothing. The bundles that \<open>split_if_needed\<close> returns hold the given
  operations, all of them and in their order; each is within the size limit and carries the id of
  its contents. If the size of a bundle does not depend on the time and every operation fits into a
  bundle of its own, then it does return.
\<close>

theorem split_keeps_operations:
  shows "(split_if_needed env clock did ops max_size = Inr bs \<longrightarrow>
      concat (map ob_operations bs) = ops \<and> list_all (bundle_ok env did max_size) bs) \<and>
    (size_stable env did max_size \<longrightarrow> (\<forall>op\<in>set ops. fits env did max_size [op]) \<longrightarrow> (\<exists>bs. split_if_needed env clock did ops max_size = Inr bs))"
proof (intro conjI impI)
  assume "split_if_needed env clock did ops max_size = Inr bs"
  from split_if_needed_ok [OF this] show "concat (map ob_operations bs) = ops" "list_all (bundle_ok env did max_size) bs" by simp_all
next
  assume st: "size_stable env did max_size" "\<forall>op\<in>set ops. fits env did max_size [op]"
  show "\<exists>bs. split_if_needed env clock did ops max_size = Inr bs"
  proof (cases "fits env did max_size ops")
    case True
    then obtain b where "ob_create env (clock 0) did ops max_size = Inr b" by (auto simp: fits_def)
    then show ?thesis by (simp add: split_if_needed_def)
  next
    case False
    with st(1) obtain n where "ob_create env (clock 0) did ops max_size = Inl (BundleTooLarge n max_size)" by (auto simp: size_stable_def)
    with split_loop_succeeds [OF st, of "[]" clock 1 "[]"] show ?thesis by (simp add: split_if_needed_def)
  qed
qed

text \<open>An encoder that spends a byte an operation, and a limit of two operations a bundle.\<close>

definition demo_bundles :: "nat bundle_env" where
  "demo_bundles = \<lparr>ue_blake3 = id, ue_b64_enc = bytes_str, ue_b64_dec = (\<lambda>s. Some (str_bytes s)),
     ue_to_vec = (\<lambda>b. Some (map (\<lambda>_. 0) (ob_operations b))), ue_from_slice = (\<lambda>_. None)\<rparr>"

theorem split_keeps_operations_witness:
  "\<exists>bs. split_if_needed demo_bundles (\<lambda>_. 0) ''did'' [demo_signed ''a'' [], demo_signed ''b'' [], demo_signed ''c'' []] 2 = Inr bs \<and>
     concat (map ob_operations bs) = [demo_signed ''a'' [], demo_signed ''b'' [], demo_signed ''c'' []] \<and> length bs = 2"
proof -
  let ?ops = "[demo_signed ''a'' [], demo_signed ''b'' [], demo_signed ''c'' []]"
  have c: "ob_create demo_bundles now did ops 2 = (if length ops > 2 then Inl (BundleTooLarge (length ops) 2)
      else Inr \<lparr>ob_doc = did, ob_operations = ops, ob_context_ops = [], ob_bundle_id = ob_compute_id demo_bundles \<lparr>ob_doc = did, ob_operations = ops, ob_context_ops = [], ob_bundle_id = [], ob_created_at = now\<rparr>, ob_created_at = now\<rparr>)" for now did ops
    by (simp add: ob_create_def find_minimal_context_def ob_to_bytes_def demo_bundles_def ob_compute_id_def Let_def)
  have f: "fits demo_bundles ''did'' 2 ops \<longleftrightarrow> length ops \<le> 2" for ops by (auto simp: fits_def c)
  have "size_stable demo_bundles ''did'' 2" by (auto simp: size_stable_def f c)
  then obtain bs where bs: "split_if_needed demo_bundles (\<lambda>_. 0) ''did'' ?ops 2 = Inr bs"
    using split_keeps_operations [of demo_bundles "\<lambda>_. 0" "''did''" ?ops 2] by (auto simp: f)
  moreover have "concat (map ob_operations bs) = ?ops" using split_keeps_operations [of demo_bundles "\<lambda>_. 0" "''did''" ?ops 2 bs] bs by blast
  moreover have "length bs = 2" using bs by (auto simp: split_if_needed_def c)
  ultimately show ?thesis by blast
qed

section \<open>Where the protocol stops short\<close>

text \<open>A filter sent to a peer arrives empty: the crate's filter is made anew, with the sizes only.\<close>

lemma bloom_wire_forgets:
  assumes "length (fl_le_bytes benv (bf_false_positive_rate f)) = 8"
  shows "\<exists>g. bf_from_bytes benv (bf_to_bytes benv f) = Inr g \<and> bf_inner g = bl_with_size benv (bf_bit_count g) (bf_hash_count g)"
  using assms by (simp add: bf_from_bytes_def bf_to_bytes_def u32_to_le_def u32_to_be_def Let_def)

text \<open>A push changes no history: it fills the filter and may register an empty history.\<close>

lemma registered_bloom:
  assumes "bloom_ok benv"
  shows "bf_contains benv (sp_bloom s) x \<longrightarrow> bf_contains benv (sp_bloom (fold (sp_register_operation benv) ops s)) x"
    "\<forall>op\<in>set ops. bf_contains benv (sp_bloom (fold (sp_register_operation benv) ops s)) (str_bytes (op_id op))"
proof -
  have keep: "bf_contains benv (sp_bloom s) x \<Longrightarrow> bf_contains benv (sp_bloom (fold (sp_register_operation benv) ops s)) x" for ops s x
    using assms by (induction ops arbitrary: s) (auto simp: sp_register_operation_def bf_contains_def bf_insert_def bloom_ok_def)
  then show "bf_contains benv (sp_bloom s) x \<longrightarrow> bf_contains benv (sp_bloom (fold (sp_register_operation benv) ops s)) x" by blast
  show "\<forall>op\<in>set ops. bf_contains benv (sp_bloom (fold (sp_register_operation benv) ops s)) (str_bytes (op_id op))"
  proof (induction ops arbitrary: s)
    case (Cons op ops)
    have "bf_contains benv (sp_bloom (sp_register_operation benv op s)) (str_bytes (op_id op))"
      using assms by (simp add: sp_register_operation_def bf_contains_def bf_insert_def bloom_ok_def)
    with Cons keep show ?case by simp
  qed simp
qed

lemma registered_dags [simp]: "sp_dags (fold (sp_register_operation benv) ops s) = sp_dags s"
  by (induction ops arbitrary: s) (simp_all add: sp_register_operation_def)

lemma push_stores_nothing:
  assumes "handle_push benv env msg s = (s', r)"
  shows "hm_get (sp_dags s') did = hm_get (sp_dags s) did \<or> hm_get (sp_dags s) did = None \<and> hm_get (sp_dags s') did = Some dag_new"
  using assms by (auto simp: handle_push_def Let_def sp_get_or_create_dag_def split: sum.splits if_splits)

text \<open>Nevertheless its operations count as present from then on, and are never fetched again.\<close>

lemma pushed_never_fetched:
  assumes "bloom_ok benv" "handle_push benv env msg s = (s', Inr n)" "ob_from_bytes env (psm_bundle msg) = Inr b" "op \<in> set (ob_operations b)"
  shows "op_id op \<notin> set (find_missing_from_tips benv tips s')"
proof -
  have "s' = fold (sp_register_operation benv) (ob_operations b) (sp_get_or_create_dag (psm_doc msg) s)"
    using assms(2,3) by (auto simp: handle_push_def Let_def split: sum.splits)
  with registered_bloom(2) [OF assms(1)] assms(4) show ?thesis by (auto simp: find_missing_from_tips_def)
qed

text \<open>A fetched operation whose parent was not fetched with it is refused by the peer that asked for it.\<close>

lemma fetched_tip_refused:
  assumes "\<forall>b bs. ue_to_vec env b = Some bs \<longrightarrow> ue_from_slice env bs = Some b"
    and "handle_fetch env now msg peer = Inr push" "sp_get_dag (fm_doc msg) peer = Inr g"
    and "op \<in> set (dag_ops g)" "op_id op \<in> set (fm_op_ids msg)" "p \<in> set (op_parents op)" "p \<noteq> []" "p \<notin> set (fm_op_ids msg)"
  shows "handle_push benv env push s = (s, Inl InsufficientContext)"
proof -
  let ?ops = "filter (\<lambda>op. op_id op \<in> set (fm_op_ids msg)) (dag_ops g)"
  from assms(2,3) obtain b bs where b: "ob_create env now (fm_doc msg) ?ops (fm_max_bundle_size msg) = Inr b" "ob_to_bytes env b = Inr bs" "psm_bundle push = bs"
    by (cases "ob_create env now (fm_doc msg) ?ops (fm_max_bundle_size msg)"; cases "ob_to_bytes env (projr (ob_create env now (fm_doc msg) ?ops (fm_max_bundle_size msg)))")
      (auto simp: handle_fetch_def Let_def split: if_splits)
  have ok: "ob_from_bytes env bs = Inr b" using assms(1) b(2) by (auto simp: ob_from_bytes_def ob_to_bytes_def split: option.splits)
  have "op \<in> set ?ops" "p \<notin> op_id ` set ?ops" using assms(4,5,8) by auto
  then have "\<not> has_sufficient_context b" using ob_create_ok [OF b(1)] assms(6,7)
    by (auto simp: has_sufficient_context_def bundle_ok_def list_all_iff Let_def)
  then show ?thesis using ok b(3) ob_create_ok [OF b(1)] by (simp add: handle_push_def ob_validate_def bundle_ok_def)
qed

end
