(* ===== verification/Didcomm_Message.thy ===== *)
theory Didcomm_Message
  imports Idiom_Prelude
begin

text \<open>
  The DIDComm message model of \<open>didcomm/src/core/models/message.rs\<close> and what handlers receive and
  return (\<open>didcomm/src/messaging/handlers/traits.rs\<close>). JSON values are those of \<open>serde_json\<close>:
  integers as such, other numbers by their text. Objects are maps; the iteration order of their
  entries is not used here.
\<close>

datatype json =
  JNull | JBool bool | JInt int | JFloat string | JString string | JArray "json list" | JObject "(string \<times> json) list"

text \<open>\<open>Value::get\<close> by key, and the accessors; \<open>as_u64\<close> refuses negative and fractional numbers.\<close>

fun json_get :: "json \<Rightarrow> string \<Rightarrow> json option" where
  "json_get (JObject m) key = map_of m key"
| "json_get _ key = None"

fun json_as_u64 :: "json \<Rightarrow> u64 option" where
  "json_as_u64 (JInt i) = (if 0 \<le> i \<and> i < 2 ^ 64 then Some (of_int i) else None)"
| "json_as_u64 _ = None"

fun json_as_str :: "json \<Rightarrow> string option" where
  "json_as_str (JString s) = Some s"
| "json_as_str _ = None"

fun json_as_bool :: "json \<Rightarrow> bool option" where
  "json_as_bool (JBool b) = Some b"
| "json_as_bool _ = None"

fun json_as_array :: "json \<Rightarrow> json list option" where
  "json_as_array (JArray vs) = Some vs"
| "json_as_array _ = None"

definition json_set :: "string \<Rightarrow> json \<Rightarrow> json \<Rightarrow> json" where
  "json_set key v j = (case j of JObject m \<Rightarrow> JObject (AList.update key v m) | _ \<Rightarrow> j)"

record thread =
  th_thid :: "string option"
  th_pthid :: "string option"
  th_sender_order :: "u32 option"
  th_received_orders :: "(string, u32) hash_map option"

record attachment_data =
  ad_jws :: "json option"
  ad_hash :: "string option"
  ad_base64 :: "string option"
  ad_json :: "json option"
  ad_links :: "string list option"

record attachment =
  at_id :: "string option"
  at_description :: "string option"
  at_filename :: "string option"
  at_media_type :: "string option"
  at_format :: "string option"
  at_lastmod_time :: "string option"
  at_byte_count :: "nat option"
  at_data :: attachment_data

definition attachment_data_default :: attachment_data where
  "attachment_data_default = \<lparr>ad_jws = None, ad_hash = None, ad_base64 = None, ad_json = None, ad_links = None\<rparr>"

definition attachment_data_base64 :: "string \<Rightarrow> attachment_data" where
  "attachment_data_base64 d = attachment_data_default\<lparr>ad_base64 := Some d\<rparr>"

definition attachment_data_json :: "json \<Rightarrow> attachment_data" where
  "attachment_data_json v = attachment_data_default\<lparr>ad_json := Some v\<rparr>"

definition attachment_data_links :: "string list \<Rightarrow> attachment_data" where
  "attachment_data_links urls = attachment_data_default\<lparr>ad_links := Some urls\<rparr>"

definition attachment_is_external :: "attachment_data \<Rightarrow> bool" where
  "attachment_is_external d = (case ad_links d of None \<Rightarrow> False | Some l \<Rightarrow> l \<noteq> [])"

record message =
  msg_id :: string
  msg_type :: string
  msg_body :: json
  msg_from :: "string option"
  msg_to :: "string list option"
  msg_thread :: "thread option"
  msg_pthid :: "string option"
  msg_created_time :: "int option"
  msg_expires_time :: "int option"
  msg_attachments :: "attachment list option"
  msg_extra :: "(string, json) hash_map"

definition message_new :: "string \<Rightarrow> string \<Rightarrow> json \<Rightarrow> message" where
  "message_new i t body = \<lparr>msg_id = i, msg_type = t, msg_body = body, msg_from = None, msg_to = None, msg_thread = None,
     msg_pthid = None, msg_created_time = None, msg_expires_time = None, msg_attachments = None, msg_extra = []\<rparr>"

definition message_thread_id :: "message \<Rightarrow> string" where
  "message_thread_id m = (case msg_thread m of
     None \<Rightarrow> msg_id m | Some t \<Rightarrow> (case th_thid t of None \<Rightarrow> msg_id m | Some thid \<Rightarrow> thid))"

text \<open>The builder is a message under construction; \<open>build\<close> hands its fields over unchanged.\<close>

definition builder_new :: "string \<Rightarrow> string \<Rightarrow> message" where
  "builder_new uuid t = message_new uuid t (JObject [])"

definition builder_thread :: "string \<Rightarrow> message \<Rightarrow> message" where
  "builder_thread thid m = m\<lparr>msg_thread := Some \<lparr>th_thid = Some thid, th_pthid = None, th_sender_order = None, th_received_orders = None\<rparr>\<rparr>"

definition builder_thread_with_parent :: "string \<Rightarrow> string \<Rightarrow> message \<Rightarrow> message" where
  "builder_thread_with_parent thid pthid m =
     m\<lparr>msg_thread := Some \<lparr>th_thid = Some thid, th_pthid = Some pthid, th_sender_order = None, th_received_orders = None\<rparr>\<rparr>"

definition builder_add_recipient :: "string \<Rightarrow> message \<Rightarrow> message" where
  "builder_add_recipient r m = m\<lparr>msg_to := Some (opt_or_new [] (msg_to m) @ [r])\<rparr>"

definition builder_add_attachment :: "attachment \<Rightarrow> message \<Rightarrow> message" where
  "builder_add_attachment a m = m\<lparr>msg_attachments := Some (opt_or_new [] (msg_attachments m) @ [a])\<rparr>"

definition builder_add_extra :: "string \<Rightarrow> json \<Rightarrow> message \<Rightarrow> message" where
  "builder_add_extra key v m = m\<lparr>msg_extra := hm_insert key v (msg_extra m)\<rparr>"

text \<open>The lookup of a parameter in the body, and in the top-level fields when the body lacks it.\<close>

definition body_or_extra :: "message \<Rightarrow> string \<Rightarrow> json option" where
  "body_or_extra m key = (case json_get (msg_body m) key of Some v \<Rightarrow> Some v | None \<Rightarrow> hm_get (msg_extra m) key)"

section \<open>Handlers\<close>

datatype handler_error = ProcessingFailed string | InvalidMessage string | HandlerNotFound string | HandlerOther string

record message_context =
  cx_from :: "string option"
  cx_to :: "string option"
  cx_thread_id :: "string option"
  cx_parent_thread_id :: "string option"
  cx_connection_id :: "string option"
  cx_encrypted :: bool
  cx_authenticated :: bool
  cx_sender_endpoint :: "string option"
  cx_raw_plaintext :: "string option"

record inbound_message =
  in_message :: message
  in_context :: message_context

record outbound_message =
  out_message :: message
  out_to :: string
  out_from :: string
  out_connection_id :: "string option"

definition opt_string :: "string option \<Rightarrow> string" where
  "opt_string x = (case x of None \<Rightarrow> [] | Some s \<Rightarrow> s)"

lemma builder_attachments: "msg_attachments (fold builder_add_attachment as m) =
    (if as = [] then msg_attachments m else Some (opt_or_new [] (msg_attachments m) @ as))"
  by (induction as arbitrary: m) (auto simp: builder_add_attachment_def opt_or_new_def)

end
