(* ===== verification/Did_Core.thy ===== *)
theory Did_Core
  imports Ajna_Document Didcomm_Message
begin

text \<open>
  The W3C form of a DID document (\<open>did/src/core/document.rs\<close>) and the conversions of a did:ajna
  document to and from it (\<open>did/src/ajna/document.rs\<close>).
\<close>

section \<open>Documents\<close>

record core_method =
  cvm_id :: string
  cvm_type :: string
  cvm_controller :: string
  cvm_public_key_base58 :: "string option"
  cvm_public_key_multibase :: "string option"
  cvm_public_key_jwk :: "json option"

datatype verification_relationship = VrReference string | VrEmbedded core_method

record core_service =
  csv_id :: string
  csv_type :: string
  csv_endpoint :: json
  csv_properties :: "(string, json) hash_map"

record did_document =
  dd_id :: string
  dd_verification_method :: "core_method list"
  dd_authentication :: "verification_relationship list"
  dd_assertion_method :: "verification_relationship list"
  dd_key_agreement :: "verification_relationship list"
  dd_capability_invocation :: "verification_relationship list"
  dd_capability_delegation :: "verification_relationship list"
  dd_service :: "core_service list"
  dd_context :: "json option"
  dd_also_known_as :: "string list"
  dd_controller :: "json option"

definition dd_new :: "string \<Rightarrow> did_document" where
  "dd_new i = \<lparr>dd_id = i, dd_verification_method = [], dd_authentication = [], dd_assertion_method = [], dd_key_agreement = [],
     dd_capability_invocation = [], dd_capability_delegation = [], dd_service = [], dd_context = None, dd_also_known_as = [], dd_controller = None\<rparr>"

definition dd_add_verification_method :: "core_method \<Rightarrow> did_document \<Rightarrow> did_document" where
  "dd_add_verification_method m d = d\<lparr>dd_verification_method := dd_verification_method d @ [m]\<rparr>"

definition dd_add_authentication :: "verification_relationship \<Rightarrow> did_document \<Rightarrow> did_document" where
  "dd_add_authentication r d = d\<lparr>dd_authentication := dd_authentication d @ [r]\<rparr>"

definition dd_add_key_agreement :: "verification_relationship \<Rightarrow> did_document \<Rightarrow> did_document" where
  "dd_add_key_agreement r d = d\<lparr>dd_key_agreement := dd_key_agreement d @ [r]\<rparr>"

definition dd_add_service :: "core_service \<Rightarrow> did_document \<Rightarrow> did_document" where
  "dd_add_service s d = d\<lparr>dd_service := dd_service d @ [s]\<rparr>"

definition cvm_new :: "string \<Rightarrow> string \<Rightarrow> string \<Rightarrow> core_method" where
  "cvm_new i t c = \<lparr>cvm_id = i, cvm_type = t, cvm_controller = c, cvm_public_key_base58 = None, cvm_public_key_multibase = None, cvm_public_key_jwk = None\<rparr>"

definition cvm_with_public_key_base58 :: "string \<Rightarrow> core_method \<Rightarrow> core_method" where
  "cvm_with_public_key_base58 key m = m\<lparr>cvm_public_key_base58 := Some key\<rparr>"

definition cvm_with_public_key_multibase :: "string \<Rightarrow> core_method \<Rightarrow> core_method" where
  "cvm_with_public_key_multibase key m = m\<lparr>cvm_public_key_multibase := Some key\<rparr>"

definition cvm_with_public_key_jwk :: "json \<Rightarrow> core_method \<Rightarrow> core_method" where
  "cvm_with_public_key_jwk jwk m = m\<lparr>cvm_public_key_jwk := Some jwk\<rparr>"

definition csv_new :: "string \<Rightarrow> string \<Rightarrow> json \<Rightarrow> core_service" where
  "csv_new i t e = \<lparr>csv_id = i, csv_type = t, csv_endpoint = e, csv_properties = []\<rparr>"

definition csv_with_property :: "string \<Rightarrow> json \<Rightarrow> core_service \<Rightarrow> core_service" where
  "csv_with_property key v s = s\<lparr>csv_properties := hm_insert key v (csv_properties s)\<rparr>"

section \<open>From a W3C document\<close>

fun vr_reference :: "verification_relationship \<Rightarrow> string option" where
  "vr_reference (VrReference i) = Some i"
| "vr_reference (VrEmbedded _) = None"

definition references :: "verification_relationship list \<Rightarrow> string list" where
  "references rs = List.map_filter vr_reference rs"

definition has_purpose :: "core_method \<Rightarrow> verification_relationship list \<Rightarrow> bool" where
  "has_purpose vm rs \<longleftrightarrow> list_ex (\<lambda>i. str_contains i (cvm_id vm) \<or> str_ends_with (cvm_id vm) i) (references rs)"

definition vm_from_core :: "did_document \<Rightarrow> core_method \<Rightarrow> verification_method" where
  "vm_from_core d vm =
     (let purposes = (if has_purpose vm (dd_authentication d) then [''authentication''] else []) @
            (if has_purpose vm (dd_key_agreement d) then [''keyAgreement''] else []) @
            (if has_purpose vm (dd_assertion_method d) then [''assertionMethod''] else []);
          public_key = (case cvm_public_key_multibase vm of
              Some k \<Rightarrow> k
            | None \<Rightarrow> (case cvm_public_key_base58 vm of Some k \<Rightarrow> k | None \<Rightarrow> []))
      in \<lparr>vm_id = cvm_id vm, vm_type = cvm_type vm, vm_controller = cvm_controller vm,
          vm_public_key_multibase = public_key, vm_purpose = (if purposes = [] then None else Some purposes)\<rparr>)"

definition service_from_core :: "core_service \<Rightarrow> 'j service" where
  "service_from_core svc =
     \<lparr>svc_id = csv_id svc, svc_type = csv_type svc,
      svc_endpoint = (case csv_endpoint svc of
          JString s \<Rightarrow> s
        | JObject obj \<Rightarrow> (case map_of obj ''uri'' of Some (JString s) \<Rightarrow> s | _ \<Rightarrow> [])
        | _ \<Rightarrow> []),
      svc_properties = []\<rparr>"

definition refs_from_core :: "(nat \<Rightarrow> 'u) \<Rightarrow> verification_relationship list \<Rightarrow> (string, 'u) or_set option" where
  "refs_from_core uuid rs =
     (if rs = [] then None else Some (fold (\<lambda>(i, r) s. ors_add r (uuid i) s) (enumerate 0 (references rs)) ors_new))"

text \<open>\<open>uuid k i\<close> is the tag drawn for the \<open>i\<close>-th element of set \<open>k\<close>, \<open>clock i\<close> the time of the \<open>i\<close>-th service.\<close>

definition doc_from_did_core ::
  "timestamp \<Rightarrow> (nat \<Rightarrow> timestamp) \<Rightarrow> (nat \<Rightarrow> nat \<Rightarrow> 'u) \<Rightarrow> did_document \<Rightarrow> ajna_error + ('u, 'j) ajna_document" where
  "doc_from_did_core now clock uuid d =
     (let vms = fold (\<lambda>(i, vm) s. ors_add (vm_from_core d vm) (uuid 0 i) s) (enumerate 0 (dd_verification_method d)) ors_new;
          services = fold (\<lambda>(i, svc) m. lww_set (clock i) (csv_id svc) (service_from_core svc) (dd_id d) m) (enumerate 0 (dd_service d)) lww_new
      in Inr \<lparr>doc_id = dd_id d, doc_verification_methods = vms,
          doc_authentication = refs_from_core (uuid 1) (dd_authentication d),
          doc_assertion_method = refs_from_core (uuid 2) (dd_assertion_method d),
          doc_key_agreement = refs_from_core (uuid 3) (dd_key_agreement d),
          doc_capability_invocation = None, doc_capability_delegation = None, doc_controller = None,
          doc_service = (if dd_service d = [] then None else Some services), doc_policy = None, doc_deactivated = None,
          doc_vector_clock = vc_new, doc_created = now, doc_updated = now, doc_node_id = dd_id d, doc_blockchain_anchor = None\<rparr>)"

section \<open>To a W3C document\<close>

text \<open>The JSON form of a method and of a service is serde's: \<open>vm_json\<close> and \<open>svc_json\<close>.\<close>

definition purpose_entry :: "('u, 'j) ajna_document \<Rightarrow> string \<Rightarrow> (string \<times> json) list" where
  "purpose_entry d purpose =
     (let ids = map vm_id (doc_get_verification_methods_by_purpose d purpose)
      in if ids = [] then [] else [(purpose, JArray (map JString ids))])"

definition doc_to_did_document ::
  "(verification_method \<Rightarrow> json) \<Rightarrow> ('j service \<Rightarrow> json) \<Rightarrow> ('u, 'j) ajna_document \<Rightarrow> json" where
  "doc_to_did_document vm_json svc_json d =
     JObject ([(''@context'', JArray [JString ''https://www.w3.org/ns/did/v1'', JString ''https://w3id.org/security/suites/ed25519-2020/v1'']),
         (''id'', JString (doc_id d)),
         (''verificationMethod'', JArray (map vm_json (ors_elements (doc_verification_methods d)))),
         (''service'', JArray (map svc_json (case doc_service d of None \<Rightarrow> [] | Some s \<Rightarrow> lww_values s)))] @
       purpose_entry d ''authentication'' @ purpose_entry d ''assertionMethod'' @ purpose_entry d ''keyAgreement'')"

section \<open>Lookups after a conversion\<close>

lemma ors_contains_add: "ors_contains (ors_add x u s) y \<longleftrightarrow> y = x \<or> ors_contains s y"
  by (simp add: ors_contains_def ors_add_def)

lemma ors_contains_adds:
  "ors_contains (fold (\<lambda>(i, x) s. ors_add (f x) (uuid i) s) (enumerate k xs) s) y \<longleftrightarrow> y \<in> f ` set xs \<or> ors_contains s y"
  by (induction xs arbitrary: k s) (auto simp: ors_contains_add)

text \<open>Every method of the W3C document is a method of the converted one, and no other.\<close>

lemma converted_methods:
  assumes "doc_from_did_core now clock uuid d = Inr a"
  shows "ors_contains (doc_verification_methods a) vm \<longleftrightarrow> vm \<in> vm_from_core d ` set (dd_verification_method d)"
  using assms by (auto simp: doc_from_did_core_def Let_def ors_contains_adds) (simp_all add: ors_contains_def ors_new_def)

lemma converted_authentication:
  assumes "doc_from_did_core now clock uuid d = Inr a" "doc_authentication a = Some s"
  shows "ors_contains s i \<longleftrightarrow> VrReference i \<in> set (dd_authentication d)"
proof -
  have "i \<in> set (references rs) \<longleftrightarrow> VrReference i \<in> set rs" for rs
    by (induction rs) (auto simp: references_def map_filter_simps elim: vr_reference.elims split: option.splits)
  then show ?thesis using assms ors_contains_adds [of "\<lambda>x. x" "uuid 1" 0 "references (dd_authentication d)" ors_new i]
    by (auto simp: doc_from_did_core_def Let_def refs_from_core_def ors_contains_def ors_new_def split: if_splits)
qed

end
