(* ===== verification/Ajna_Resolver.thy ===== *)
theory Ajna_Resolver
  imports Ajna_Method Did_Core
begin

text \<open>
  The resolution service: \<open>did/src/ajna/resolver.rs\<close>. The registry, the anchoring service and the
  distributed hash table are shared with other tasks, so they may change between two calls; serde's
  reading of a document is an argument (\<open>re_ajna\<close>, \<open>re_core\<close>), as are the clock and the tags of a
  converted document. The theorem is about runs: what an answer, from the cache or not, stands for.
\<close>

section \<open>Verification levels\<close>

datatype verification_level = T0 | T1 | T2

primrec level_rank :: "verification_level \<Rightarrow> nat" where
  "level_rank T0 = 0"
| "level_rank T1 = 1"
| "level_rank T2 = 2"

instantiation verification_level :: linorder
begin
definition less_eq_verification_level where
  "(a :: verification_level) \<le> b \<longleftrightarrow> level_rank a \<le> level_rank b"
definition less_verification_level where
  "(a :: verification_level) < b \<longleftrightarrow> level_rank a < level_rank b"
instance
proof
  fix x y :: verification_level
  show "x \<le> y \<Longrightarrow> y \<le> x \<Longrightarrow> x = y" by (cases x; cases y) (simp_all add: less_eq_verification_level_def)
qed (auto simp: less_eq_verification_level_def less_verification_level_def)
end

lemma level_le [simp]: "T0 \<le> (l :: verification_level)" "T1 \<le> l \<longleftrightarrow> l \<noteq> T0" "T2 \<le> l \<longleftrightarrow> l = T2"
  by (cases l; simp add: less_eq_verification_level_def)+

definition satisfies :: "verification_level \<Rightarrow> verification_level \<Rightarrow> bool" where
  "satisfies self required \<longleftrightarrow> self \<ge> required"

primrec level_str :: "verification_level \<Rightarrow> string" where
  "level_str T0 = ''T0 (local)''"
| "level_str T1 = ''T1 (anchored)''"
| "level_str T2 = ''T2 (complete proof)''"

section \<open>The service\<close>

record ('u, 'j) cached_resolution =
  cr_document :: "('u, 'j) ajna_document"
  cr_level :: verification_level
  cr_cached_at :: timestamp

text \<open>\<open>num_hours\<close> of a duration in nanoseconds, rounded towards zero.\<close>

definition num_hours :: "int \<Rightarrow> int" where
  "num_hours d = (let s = num_seconds d in if 0 \<le> s then s div 3600 else - ((- s) div 3600))"

definition is_fresh :: "timestamp \<Rightarrow> ('u, 'j) cached_resolution \<Rightarrow> bool" where
  "is_fresh now c \<longleftrightarrow> num_hours (now - cr_cached_at c) < 1"

record ('u, 'j) resolution_service =
  rs_method :: "('u, 'j) ajna_method"
  rs_has_sync :: bool
  rs_dht :: "(string \<Rightarrow> json option) option"
  rs_anchoring :: "anchoring_service option"
  rs_cache :: "(string, ('u, 'j) cached_resolution) hash_map"
  rs_cache_ttl_seconds :: int

definition rs_new :: "('u, 'j) ajna_method \<Rightarrow> ('u, 'j) resolution_service" where
  "rs_new m = \<lparr>rs_method = m, rs_has_sync = False, rs_dht = None, rs_anchoring = None, rs_cache = [], rs_cache_ttl_seconds = 3600\<rparr>"

definition rs_with_sync :: "('u, 'j) ajna_method \<Rightarrow> ('u, 'j) resolution_service" where
  "rs_with_sync m = (rs_new m)\<lparr>rs_has_sync := True\<rparr>"

definition rs_with_dht :: "('u, 'j) ajna_method \<Rightarrow> (string \<Rightarrow> json option) \<Rightarrow> ('u, 'j) resolution_service" where
  "rs_with_dht m dht = (rs_new m)\<lparr>rs_dht := Some dht\<rparr>"

definition rs_with_anchoring :: "('u, 'j) ajna_method \<Rightarrow> anchoring_service \<Rightarrow> ('u, 'j) resolution_service" where
  "rs_with_anchoring m a = (rs_new m)\<lparr>rs_anchoring := Some a\<rparr>"

definition rs_full :: "('u, 'j) ajna_method \<Rightarrow> anchoring_service \<Rightarrow> ('u, 'j) resolution_service" where
  "rs_full m a = (rs_new m)\<lparr>rs_has_sync := True, rs_anchoring := Some a\<rparr>"

definition rs_with_cache_ttl :: "int \<Rightarrow> ('u, 'j) resolution_service \<Rightarrow> ('u, 'j) resolution_service" where
  "rs_with_cache_ttl ttl s = s\<lparr>rs_cache_ttl_seconds := ttl\<rparr>"

definition rs_set_dht :: "(string \<Rightarrow> json option) \<Rightarrow> ('u, 'j) resolution_service \<Rightarrow> ('u, 'j) resolution_service" where
  "rs_set_dht dht s = s\<lparr>rs_dht := Some dht\<rparr>"

record ('u, 'j) resolver_env =
  re_ajna :: "json \<Rightarrow> ('u, 'j) ajna_document option"
  re_core :: "json \<Rightarrow> did_document option"
  re_clock :: "nat \<Rightarrow> timestamp"
  re_uuid :: "nat \<Rightarrow> nat \<Rightarrow> 'u"

definition rs_check_cache ::
  "timestamp \<Rightarrow> string \<Rightarrow> verification_level \<Rightarrow> ('u, 'j) resolution_service \<Rightarrow> ('u, 'j) cached_resolution option" where
  "rs_check_cache now did required_level s =
     (case hm_get (rs_cache s) did of
        None \<Rightarrow> None
      | Some cached \<Rightarrow> if is_fresh now cached \<and> satisfies (cr_level cached) required_level then Some cached else None)"

definition rs_verify_against_anchor :: "('u, 'j) ajna_document \<Rightarrow> anchoring_service \<Rightarrow> verification_level" where
  "rs_verify_against_anchor d anchoring =
     (case as_get_anchor anchoring (doc_id d) of
        None \<Rightarrow> T0
      | Some anchor \<Rightarrow>
          (case doc_blockchain_anchor d of
             None \<Rightarrow> T0
           | Some doc_anchor \<Rightarrow> if ba_merkle_root doc_anchor = an_merkle_root anchor then T1 else T0))"

definition check_refs :: "string \<Rightarrow> ('u, 'j) ajna_document \<Rightarrow> (string, 'u) or_set option \<Rightarrow> ajna_error + unit" where
  "check_refs label d refs =
     (case refs of
        None \<Rightarrow> Inr ()
      | Some rs \<Rightarrow>
          (case find (\<lambda>r. doc_get_verification_method d r = None) (ors_elements rs) of
             None \<Rightarrow> Inr ()
           | Some r \<Rightarrow> Inl (InvalidReference (label @ '' references non-existent VM: '' @ r))))"

definition rs_validate :: "('u, 'j) ajna_document \<Rightarrow> ajna_error + unit" where
  "rs_validate d =
     (if doc_is_deactivated d then Inl DeactivatedDID
      else case check_refs ''Authentication'' d (doc_authentication d) of
             Inl e \<Rightarrow> Inl e
           | Inr _ \<Rightarrow> check_refs ''AssertionMethod'' d (doc_assertion_method d))"

definition rs_cache_resolution ::
  "timestamp \<Rightarrow> string \<Rightarrow> ('u, 'j) ajna_document \<Rightarrow> verification_level \<Rightarrow> ('u, 'j) resolution_service \<Rightarrow> ('u, 'j) resolution_service" where
  "rs_cache_resolution now did d l s =
     s\<lparr>rs_cache := hm_insert did \<lparr>cr_document = d, cr_level = l, cr_cached_at = now\<rparr> (rs_cache s)\<rparr>"

text \<open>The level a document reaches, the check against the required one, and the caching.\<close>

definition rs_level :: "verification_level \<Rightarrow> ('u, 'j) ajna_document \<Rightarrow> ('u, 'j) resolution_service \<Rightarrow> verification_level" where
  "rs_level required_level d s =
     (if required_level \<ge> T1
      then (case rs_anchoring s of None \<Rightarrow> T0 | Some anchoring \<Rightarrow> rs_verify_against_anchor d anchoring)
      else T0)"

definition rs_accept ::
  "timestamp \<Rightarrow> string \<Rightarrow> verification_level \<Rightarrow> ('u, 'j) ajna_document \<Rightarrow> ('u, 'j) resolution_service \<Rightarrow>
     ('u, 'j) resolution_service \<times> (ajna_error + ('u, 'j) ajna_document \<times> verification_level)" where
  "rs_accept now did required_level d s =
     (let l = rs_level required_level d s
      in case rs_validate d of
           Inl e \<Rightarrow> (s, Inl e)
         | Inr _ \<Rightarrow>
             if \<not> satisfies l required_level
             then (s, Inl (ResolutionFailed (''Could not achieve required verification level '' @ level_str required_level @ '' (got '' @ level_str l @ '')'')))
             else (rs_cache_resolution now did d l s, Inr (d, l)))"

definition dht_document :: "timestamp \<Rightarrow> ('u, 'j) resolver_env \<Rightarrow> json \<Rightarrow> ajna_error + ('u, 'j) ajna_document" where
  "dht_document now env v =
     (case re_ajna env v of
        Some d \<Rightarrow> Inr d
      | None \<Rightarrow>
          (case re_core env v of
             None \<Rightarrow> Inl (ResolutionFailed ''Failed to parse DID document from DHT (tried both AjnaDocument and DidDocument): '')
           | Some c \<Rightarrow>
               (case doc_from_did_core now (re_clock env) (re_uuid env) c of
                  Inl e \<Rightarrow> Inl (ResolutionFailed ''Failed to convert DidDocument to AjnaDocument: '')
                | Inr d \<Rightarrow> Inr d)))"

definition rs_resolve_via_sync ::
  "timestamp \<Rightarrow> ('u, 'j) resolver_env \<Rightarrow> string \<Rightarrow> verification_level \<Rightarrow> ('u, 'j) resolution_service \<Rightarrow>
     ('u, 'j) resolution_service \<times> (ajna_error + ('u, 'j) ajna_document \<times> verification_level)" where
  "rs_resolve_via_sync now env did required_level s =
     (case (case rs_dht s of None \<Rightarrow> None | Some dht \<Rightarrow> dht did) of
        Some v \<Rightarrow>
          (case dht_document now env v of
             Inl e \<Rightarrow> (s, Inl e)
           | Inr d \<Rightarrow> rs_accept now did required_level d s)
      | None \<Rightarrow> (s, Inl (ResolutionFailed (''DID '' @ did @ '' not found in DHT or local storage''))))"

definition rs_resolve ::
  "timestamp \<Rightarrow> ('u, 'j) resolver_env \<Rightarrow> string \<Rightarrow> verification_level \<Rightarrow> ('u, 'j) resolution_service \<Rightarrow>
     ('u, 'j) resolution_service \<times> (ajna_error + ('u, 'j) ajna_document \<times> verification_level)" where
  "rs_resolve now env did required_level s =
     (case rs_check_cache now did required_level s of
        Some cached \<Rightarrow> (s, Inr (cr_document cached, cr_level cached))
      | None \<Rightarrow>
          (case am_resolve (rs_method s) did of
             Inr d \<Rightarrow> rs_accept now did required_level d s
           | Inl _ \<Rightarrow> rs_resolve_via_sync now env did required_level s))"

definition rs_invalidate_cache :: "string \<Rightarrow> ('u, 'j) resolution_service \<Rightarrow> ('u, 'j) resolution_service" where
  "rs_invalidate_cache did s = s\<lparr>rs_cache := hm_remove did (rs_cache s)\<rparr>"

definition rs_clear_cache :: "('u, 'j) resolution_service \<Rightarrow> ('u, 'j) resolution_service" where
  "rs_clear_cache s = s\<lparr>rs_cache := []\<rparr>"

record cache_stats =
  cst_total_entries :: nat
  cst_fresh_entries :: nat
  cst_t0_entries :: nat
  cst_t1_entries :: nat
  cst_t2_entries :: nat

definition rs_cache_stats :: "timestamp \<Rightarrow> ('u, 'j) resolution_service \<Rightarrow> cache_stats" where
  "rs_cache_stats now s =
     (let cached = hm_values (rs_cache s)
      in \<lparr>cst_total_entries = length (rs_cache s), cst_fresh_entries = length (filter (is_fresh now) cached),
          cst_t0_entries = length (filter (\<lambda>c. cr_level c = T0) cached),
          cst_t1_entries = length (filter (\<lambda>c. cr_level c = T1) cached),
          cst_t2_entries = length (filter (\<lambda>c. cr_level c = T2) cached)\<rparr>)"

section \<open>What an answer stands for\<close>

text \<open>
  The document \<open>d\<close> is one the service would accept for \<open>did\<close> at level \<open>l\<close> in state \<open>s\<close>: it is registered
  under \<open>did\<close> or, when nothing is, found in the hash table; it is active and its references lead to
  methods of its own; at level \<open>T1\<close> its anchor is the one the anchoring service has.
\<close>

definition accepted :: "timestamp \<Rightarrow> ('u, 'j) resolver_env \<Rightarrow> ('u, 'j) resolution_service \<Rightarrow> string \<Rightarrow> ('u, 'j) ajna_document \<Rightarrow> verification_level \<Rightarrow> bool" where
  "accepted now env s did d l \<longleftrightarrow>
     (case hm_get (am_registry (rs_method s)) did of
        Some d' \<Rightarrow> d = d'
      | None \<Rightarrow> (\<exists>dht v. rs_dht s = Some dht \<and> dht did = Some v \<and> dht_document now env v = Inr d)) \<and>
     \<not> doc_is_deactivated d \<and>
     (\<forall>refs\<in>{doc_authentication d, doc_assertion_method d}. \<forall>rs r. refs = Some rs \<longrightarrow> ors_contains rs r \<longrightarrow> doc_get_verification_method d r \<noteq> None) \<and>
     l \<noteq> T2 \<and>
     (l = T1 \<longrightarrow> (\<exists>anchoring anchor doc_anchor. rs_anchoring s = Some anchoring \<and> as_get_anchor anchoring (doc_id d) = Some anchor \<and>
        doc_blockchain_anchor d = Some doc_anchor \<and> ba_merkle_root doc_anchor = an_merkle_root anchor))"

lemma check_refs_ok:
  "check_refs label d refs = Inr () \<longleftrightarrow> (\<forall>rs r. refs = Some rs \<longrightarrow> ors_contains rs r \<longrightarrow> doc_get_verification_method d r \<noteq> None)"
proof (cases refs)
  case (Some rs)
  have "find (\<lambda>r. doc_get_verification_method d r = None) (ors_elements rs) = None \<longleftrightarrow> (\<forall>r. ors_contains rs r \<longrightarrow> doc_get_verification_method d r \<noteq> None)"
    by (auto simp: find_None_iff ors_contains_def ors_elements_def map_of_eq_None_iff)
  then show ?thesis using Some by (cases "find (\<lambda>r. doc_get_verification_method d r = None) (ors_elements rs)") (simp_all add: check_refs_def)
qed (simp add: check_refs_def)

lemma rs_validate_ok:
  "rs_validate d = Inr () \<longleftrightarrow> \<not> doc_is_deactivated d \<and>
     (\<forall>refs\<in>{doc_authentication d, doc_assertion_method d}. \<forall>rs r. refs = Some rs \<longrightarrow> ors_contains rs r \<longrightarrow> doc_get_verification_method d r \<noteq> None)"
proof -
  have "rs_validate d = Inr () \<longleftrightarrow> \<not> doc_is_deactivated d \<and>
      check_refs ''Authentication'' d (doc_authentication d) = Inr () \<and> check_refs ''AssertionMethod'' d (doc_assertion_method d) = Inr ()"
    by (auto simp: rs_validate_def split: sum.splits)
  then show ?thesis unfolding check_refs_ok by simp
qed

lemma rs_level_ok:
  "rs_level lvl d s \<noteq> T2 \<and> (rs_level lvl d s = T1 \<longrightarrow> (\<exists>anchoring anchor doc_anchor. rs_anchoring s = Some anchoring \<and>
     as_get_anchor anchoring (doc_id d) = Some anchor \<and> doc_blockchain_anchor d = Some doc_anchor \<and> ba_merkle_root doc_anchor = an_merkle_root anchor))"
  by (auto simp: rs_level_def rs_verify_against_anchor_def split: option.splits if_splits)

lemma rs_accept_cases:
  "rs_accept now did lvl d s = (s', Inr (d', l)) \<Longrightarrow>
     d' = d \<and> rs_validate d = Inr () \<and> l = rs_level lvl d s \<and> lvl \<le> l \<and> s' = rs_cache_resolution now did d l s"
  "rs_accept now did lvl d s = (s', Inl e) \<Longrightarrow> s' = s"
  by (auto simp: rs_accept_def Let_def satisfies_def split: sum.splits if_splits)

text \<open>A call answers from the cache, or accepts a document and caches it, or fails and changes nothing.\<close>

lemma rs_resolve_cases:
  assumes "rs_resolve now env did lvl s = (s', r)"
  shows "(\<exists>c. r = Inr (cr_document c, cr_level c) \<and> s' = s \<and> hm_get (rs_cache s) did = Some c \<and> is_fresh now c \<and> lvl \<le> cr_level c) \<or>
    (\<exists>d l. r = Inr (d, l) \<and> accepted now env s did d l \<and> lvl \<le> l \<and> s' = rs_cache_resolution now did d l s) \<or>
    (\<exists>e. r = Inl e \<and> s' = s)"
proof (cases "rs_check_cache now did lvl s")
  case (Some c)
  then show ?thesis using assms by (auto simp: rs_resolve_def rs_check_cache_def satisfies_def split: option.splits if_splits)
next
  case None
  have acc: "accepted now env s did d (rs_level lvl d s)"
    if "rs_validate d = Inr ()" "case hm_get (am_registry (rs_method s)) did of Some d' \<Rightarrow> d = d' | None \<Rightarrow> (\<exists>dht v. rs_dht s = Some dht \<and> dht did = Some v \<and> dht_document now env v = Inr d)" for d
    using that rs_level_ok [of lvl d s] by (simp add: accepted_def rs_validate_ok)
  have step: ?thesis if "rs_accept now did lvl d s = (s', r)"
    "case hm_get (am_registry (rs_method s)) did of Some d' \<Rightarrow> d = d' | None \<Rightarrow> (\<exists>dht v. rs_dht s = Some dht \<and> dht did = Some v \<and> dht_document now env v = Inr d)" for d
  proof (cases r)
    case (Inl e)
    then show ?thesis using that(1) rs_accept_cases(2) [of now did lvl d s s' e] by simp
  next
    case (Inr x)
    then obtain d' l where "r = Inr (d', l)" by (cases x) simp
    then show ?thesis using that rs_accept_cases(1) [of now did lvl d s s' d' l] acc [of d] by blast
  qed
  show ?thesis
  proof (cases "hm_get (am_registry (rs_method s)) did")
    case (Some d)
    then have "rs_accept now did lvl d s = (s', r)" using assms None by (simp add: rs_resolve_def am_resolve_def)
    then show ?thesis by (rule step) (simp add: Some)
  next
    case n: None
    show ?thesis
    proof (cases "\<exists>dht v d. rs_dht s = Some dht \<and> dht did = Some v \<and> dht_document now env v = Inr d")
      case True
      then obtain dht v d where v: "rs_dht s = Some dht" "dht did = Some v" "dht_document now env v = Inr d" by blast
      then have "rs_accept now did lvl d s = (s', r)" using assms None n by (simp add: rs_resolve_def am_resolve_def rs_resolve_via_sync_def)
      then show ?thesis by (rule step) (use v n in simp)
    next
      case False
      then show ?thesis using assms None n by (auto simp: rs_resolve_def am_resolve_def rs_resolve_via_sync_def split: option.splits sum.splits)
    qed
  qed
qed

section \<open>Runs\<close>

text \<open>A call, one of the two ways to empty the cache, or a change of what the service shares with others.\<close>

datatype ('u, 'j) rs_event =
    RsResolve timestamp string verification_level
  | RsInvalidate string
  | RsClear
  | RsWorld "('u, 'j) ajna_method" "(string \<Rightarrow> json option) option" "anchoring_service option"

type_synonym ('u, 'j) rs_answer = "ajna_error + ('u, 'j) ajna_document \<times> verification_level"

fun rs_step :: "('u, 'j) resolver_env \<Rightarrow> ('u, 'j) rs_event \<Rightarrow> ('u, 'j) resolution_service \<Rightarrow> ('u, 'j) resolution_service \<times> ('u, 'j) rs_answer option" where
  "rs_step env (RsResolve now did lvl) s = map_prod id Some (rs_resolve now env did lvl s)"
| "rs_step env (RsInvalidate did) s = (rs_invalidate_cache did s, None)"
| "rs_step env RsClear s = (rs_clear_cache s, None)"
| "rs_step env (RsWorld m dht a) s = (s\<lparr>rs_method := m, rs_dht := dht, rs_anchoring := a\<rparr>, None)"

text \<open>The log of a run: the state before each event, the event and the answer.\<close>

fun rs_run :: "('u, 'j) resolver_env \<Rightarrow> ('u, 'j) rs_event list \<Rightarrow> ('u, 'j) resolution_service \<Rightarrow>
    (('u, 'j) resolution_service \<times> ('u, 'j) rs_event \<times> ('u, 'j) rs_answer option) list" where
  "rs_run env [] s = []"
| "rs_run env (e # es) s = (case rs_step env e s of (s', r) \<Rightarrow> (s, e, r) # rs_run env es s')"

text \<open>\<open>answer_backed env past did t d l\<close>: a call of \<open>past\<close> at time \<open>t\<close> accepted \<open>d\<close> for \<open>did\<close> at level \<open>l\<close>.\<close>

definition answer_backed where
  "answer_backed env past did t d l \<longleftrightarrow> (\<exists>s lvl r. (s, RsResolve t did lvl, r) \<in> set past \<and> accepted t env s did d l)"

definition cache_backed where
  "cache_backed env past s \<longleftrightarrow>
     (\<forall>did c. hm_get (rs_cache s) did = Some c \<longrightarrow> answer_backed env past did (cr_cached_at c) (cr_document c) (cr_level c))"

lemma answer_backed_mono: "answer_backed env past did t d l \<Longrightarrow> set past \<subseteq> set past' \<Longrightarrow> answer_backed env past' did t d l"
  by (auto simp: answer_backed_def)

lemma cache_backed_later: "cache_backed env past s \<Longrightarrow> rs_cache s' = rs_cache s \<Longrightarrow> cache_backed env (past @ xs) s'"
  by (auto simp: cache_backed_def intro: answer_backed_mono [where past = past])

lemma cache_backed_fewer:
  assumes "cache_backed env past s" "map_of (rs_cache s') \<subseteq>\<^sub>m map_of (rs_cache s)"
  shows "cache_backed env (past @ xs) s'"
  using assms unfolding cache_backed_def by (metis (full_types) Un_upper1 answer_backed_mono domI map_le_def set_append)

lemma rs_step_backed:
  assumes "cache_backed env past s" "rs_step env e s = (s', r)"
  shows "cache_backed env (past @ [(s, e, r)]) s'"
proof (cases e)
  case (RsResolve now did lvl)
  obtain r' where r': "rs_resolve now env did lvl s = (s', r')" "r = Some r'" using assms(2) RsResolve by (cases "rs_resolve now env did lvl s") auto
  from rs_resolve_cases [OF r'(1)] show ?thesis
  proof (elim disjE exE conjE)
    fix d l assume a: "accepted now env s did d l" "s' = rs_cache_resolution now did d l s"
    then have "answer_backed env (past @ [(s, e, r)]) did now d l" using RsResolve by (auto simp: answer_backed_def)
    moreover have "cache_backed env (past @ [(s, e, r)]) s" using assms(1) by (rule cache_backed_later) simp
    ultimately show ?thesis using a(2) by (auto simp: cache_backed_def rs_cache_resolution_def)
  qed (use assms(1) in \<open>auto intro: cache_backed_later\<close>)
qed (use assms in \<open>auto intro!: cache_backed_fewer simp: rs_invalidate_cache_def rs_clear_cache_def map_le_def split: if_splits\<close>)

lemma rs_run_backed:
  assumes "cache_backed env past s" "i < length (rs_run env es s)" "rs_run env es s ! i = (si, RsResolve now did lvl, Some (Inr (d, l)))"
  shows "lvl \<le> l \<and> (\<exists>t. num_hours (now - t) < 1 \<and> answer_backed env (past @ take (Suc i) (rs_run env es s)) did t d l)"
  using assms
proof (induction es arbitrary: past s i)
  case (Cons e es)
  obtain s' r where step: "rs_step env e s = (s', r)" by (cases "rs_step env e s")
  show ?case
  proof (cases i)
    case (Suc j)
    with Cons.IH [OF rs_step_backed [OF Cons.prems(1) step], of j] Cons.prems step show ?thesis by simp
  next
    case 0
    with Cons.prems step have e: "e = RsResolve now did lvl" "r = Some (Inr (d, l))" "si = s" by auto
    then have "rs_resolve now env did lvl s = (s', Inr (d, l))" using step by (cases "rs_resolve now env did lvl s") auto
    from rs_resolve_cases [OF this] show ?thesis
    proof (elim disjE exE conjE)
      fix c assume c: "Inr (d, l) = (Inr (cr_document c, cr_level c) :: ('a, 'b) rs_answer)" "hm_get (rs_cache s) did = Some c" "is_fresh now c" "lvl \<le> cr_level c"
      then have "answer_backed env past did (cr_cached_at c) d l" using Cons.prems(1) by (simp add: cache_backed_def)
      from answer_backed_mono [OF this, of "past @ take (Suc i) (rs_run env (e # es) s)"] c show ?thesis
        by (intro conjI exI [of _ "cr_cached_at c"]) (simp_all add: is_fresh_def)
    next
      fix d' l' assume a: "Inr (d, l) = (Inr (d', l') :: ('a, 'b) rs_answer)" "accepted now env s did d' l'" "lvl \<le> l'"
      then have "answer_backed env (past @ take (Suc i) (rs_run env (e # es) s)) did now d l"
        using 0 e step by (auto simp: answer_backed_def)
      then show ?thesis using a by (intro conjI exI [of _ now]) (simp_all add: num_hours_def num_seconds_def)
    qed simp_all
  qed
qed simp

text \<open>
  C36. Every answer was verified within the hour. In any run of the resolution service, whatever
  changes around it, a call that returns a document at a level is answered at least at the level it
  asked for, and a call of the same run for the same DID, at most an hour earlier by the clock or the
  call itself, found that document registered (or, with nothing registered, in the hash table), active,
  with references that lead to its own methods, and, at level \<open>T1\<close>, anchored with the root the anchoring service had.
\<close>

theorem resolved_recently_verified:
  assumes "rs_cache s = []" "i < length (rs_run env es s)" "rs_run env es s ! i = (si, RsResolve now did lvl, Some (Inr (d, l)))"
  shows "lvl \<le> l \<and> (\<exists>j\<le>i. \<exists>sj t lvl' r. rs_run env es s ! j = (sj, RsResolve t did lvl', r) \<and> num_hours (now - t) < 1 \<and> accepted t env sj did d l)"
proof -
  have "cache_backed env [] s" using assms(1) by (simp add: cache_backed_def)
  from rs_run_backed [OF this assms(2,3)] obtain t where t: "lvl \<le> l" "num_hours (now - t) < 1"
    "answer_backed env (take (Suc i) (rs_run env es s)) did t d l" by auto
  from t(3) obtain sj lvl' r where x: "(sj, RsResolve t did lvl', r) \<in> set (take (Suc i) (rs_run env es s))" "accepted t env sj did d l"
    by (auto simp: answer_backed_def)
  then obtain j where "j \<le> i" "rs_run env es s ! j = (sj, RsResolve t did lvl', r)"
    using assms(2) by (auto simp: in_set_conv_nth less_Suc_eq_le)
  with t x show ?thesis by blast
qed

section \<open>Two lookups of a document\<close>

definition demo_anchored :: "(nat, nat) ajna_document" where
  "demo_anchored = (doc_new 0 0 ''d'' ''n'')\<lparr>doc_blockchain_anchor := Some \<lparr>ba_network = '''', ba_tx_hash = '''', ba_block_number = 0, ba_timestamp = 0, ba_merkle_root = ''r''\<rparr>\<rparr>"

definition demo_anchors :: anchoring_service where
  "demo_anchors = (as_new ''net'' 0)\<lparr>as_anchors := [(''d'', an_new 0 ''d'' ''r'' ''tx'' 1 ''net'')]\<rparr>"

definition demo_service :: "(nat, nat) resolution_service" where
  "demo_service = rs_full ((am_new ''n'')\<lparr>am_registry := [(''d'', demo_anchored)]\<rparr>) demo_anchors"

definition demo_renv :: "(nat, nat) resolver_env" where
  "demo_renv = \<lparr>re_ajna = (\<lambda>_. Some demo_anchored), re_core = (\<lambda>_. None), re_clock = (\<lambda>_. 0), re_uuid = (\<lambda>a b. 0)\<rparr>"

definition demo_events :: "(nat, nat) rs_event list" where
  "demo_events = [RsResolve 1 ''d'' T1, RsWorld (am_new ''n'') None None, RsResolve 5 ''d'' T0]"

lemma rs_run_events: "map (\<lambda>(_, e, _). e) (rs_run env es s) = es"
  by (induction es arbitrary: s) (simp_all split: prod.split)

lemma demo_rs_run: "\<exists>si. rs_run demo_renv demo_events demo_service ! 2 = (si, RsResolve 5 ''d'' T0, Some (Inr (demo_anchored, T1)))"
proof -
  have "snd (snd (rs_run demo_renv demo_events demo_service ! 2)) = Some (Inr (demo_anchored, T1))" by code_simp
  moreover have "fst (snd (rs_run demo_renv demo_events demo_service ! 2)) = demo_events ! 2"
    using arg_cong [OF rs_run_events [of demo_renv demo_events demo_service], of "\<lambda>es. es ! 2"]
    by (simp add: split_beta demo_events_def)
  ultimately show ?thesis by (metis demo_events_def nth_Cons_0 nth_Cons_Suc numeral_2_eq_2 prod.collapse)
qed

theorem resolved_recently_verified_witness:
  "\<exists>j\<le>2. \<exists>sj t lvl' r. rs_run demo_renv demo_events demo_service ! j = (sj, RsResolve t ''d'' lvl', r) \<and>
     num_hours (5 - t) < 1 \<and> accepted t demo_renv sj ''d'' demo_anchored T1"
proof -
  obtain si where "rs_run demo_renv demo_events demo_service ! 2 = (si, RsResolve 5 ''d'' T0, Some (Inr (demo_anchored, T1)))"
    using demo_rs_run by blast
  moreover have "length (rs_run demo_renv demo_events demo_service) = 3"
    using arg_cong [OF rs_run_events [of demo_renv demo_events demo_service], of length] by (simp add: demo_events_def)
  moreover have "rs_cache demo_service = []" by (simp add: demo_service_def rs_full_def rs_new_def)
  ultimately show ?thesis using resolved_recently_verified [of demo_service 2 demo_renv demo_events si 5 "''d''" T0 demo_anchored T1] by simp
qed

section \<open>What the service does not check\<close>

text \<open>No document reaches the highest level: a call that asks for it fails, whatever the cache holds.\<close>

lemma t2_never_reached:
  assumes "\<forall>did c. hm_get (rs_cache s) did = Some c \<longrightarrow> cr_level c \<noteq> T2"
  shows "\<exists>e. snd (rs_resolve now env did T2 s) = Inl e"
  using rs_resolve_cases [of now env did T2 s "fst (rs_resolve now env did T2 s)" "snd (rs_resolve now env did T2 s)"] assms
  by (auto simp: accepted_def)

text \<open>The life time set with \<open>with_cache_ttl\<close> plays no part in an answer.\<close>

lemma cache_ttl_ignored: "snd (rs_resolve now env did lvl (rs_with_cache_ttl ttl s)) = snd (rs_resolve now env did lvl s)"
  by (simp add: rs_resolve_def rs_with_cache_ttl_def rs_check_cache_def rs_accept_def rs_level_def rs_resolve_via_sync_def Let_def
      split: option.splits sum.splits)

text \<open>A document that names another DID, found in the hash table, is returned as anchored.\<close>

lemma dht_answers_with_other_did:
  "let s = (rs_with_anchoring (am_new ''n'') demo_anchors)\<lparr>rs_dht := Some (\<lambda>_. Some JNull)\<rparr>
   in case snd (rs_resolve 1 demo_renv ''victim'' T1 s) of Inl e \<Rightarrow> False | Inr (d, l) \<Rightarrow> doc_id d = ''d'' \<and> l = T1"
  by code_simp

end
