(* ===== verification/Sid_Codec.thy ===== *)
theory Sid_Codec
  imports Byte_Codec
begin

text \<open>
  Self-certifying identifiers: \<open>crypto/src/sid/constants.rs\<close>, \<open>checksum.rs\<close>, \<open>encoding.rs\<close>, \<open>headers.rs\<close>.
  An identifier is a 128-bit number, written as 18 syllables, digits to the base 125 with the least
  significant first; the last digit is a checksum and the first three are a header. A \<open>u128\<close> is a
  natural number below \<open>2 ^ 128\<close>; \<open>checked_mul\<close> and \<open>checked_add\<close> test that bound, and unchecked
  arithmetic is reduced to it.
\<close>

type_synonym u128 = nat

definition checked_u128 :: "nat \<Rightarrow> u128 option" where
  "checked_u128 x = (if x < 2 ^ 128 then Some x else None)"

definition wrap_u128 :: "nat \<Rightarrow> u128" where
  "wrap_u128 x = x mod 2 ^ 128"

datatype sid_error =
    SidInvalidPrefix | SidInvalidSyllable string | SidInvalidLength nat nat | SidInvalidChecksum | SidInvalidFormat string
  | SidOverflow | SidInvalidVersion nat | SidReservedBitsSet | SidInvalidWord string | SidInvalidMnemonicFormat

section \<open>Syllables\<close>

definition SYLLABLES :: "string list" where
  "SYLLABLES =
  [''ka'', ''ki'', ''ku'', ''ke'', ''ko'', ''ga'', ''gi'', ''gu'', ''ge'', ''go'',
   ''ca'', ''ci'', ''cu'', ''ce'', ''co'', ''ja'', ''ji'', ''ju'', ''je'', ''jo'',
   ''ta'', ''ti'', ''tu'', ''te'', ''to'', ''da'', ''di'', ''du'', ''de'', ''do'',
   ''na'', ''ni'', ''nu'', ''ne'', ''no'', ''pa'', ''pi'', ''pu'', ''pe'', ''po'',
   ''ba'', ''bi'', ''bu'', ''be'', ''bo'', ''ma'', ''mi'', ''mu'', ''me'', ''mo'',
   ''ya'', ''yi'', ''yu'', ''ye'', ''yo'', ''ra'', ''ri'', ''ru'', ''re'', ''ro'',
   ''la'', ''li'', ''lu'', ''le'', ''lo'', ''va'', ''vi'', ''vu'', ''ve'', ''vo'',
   ''sa'', ''si'', ''su'', ''se'', ''so'', ''ha'', ''hi'', ''hu'', ''he'', ''ho'',
   ''qa'', ''qi'', ''qu'', ''qe'', ''qo'', ''wa'', ''wi'', ''wu'', ''we'', ''wo'',
   ''xa'', ''xi'', ''xu'', ''xe'', ''xo'', ''za'', ''zi'', ''zu'', ''ze'', ''zo'',
   ''fa'', ''fi'', ''fu'', ''fe'', ''fo'', ''tha'', ''thi'', ''thu'', ''the'', ''tho'',
   ''dha'', ''dhi'', ''dhu'', ''dhe'', ''dho'', ''nga'', ''ngi'', ''ngu'', ''nge'', ''ngo'',
   ''sha'', ''shi'', ''shu'', ''she'', ''sho'']"

definition index_to_syllable :: "nat \<Rightarrow> string" where
  "index_to_syllable i = SYLLABLES ! i"

text \<open>\<open>iter().position\<close>: the first index of an element.\<close>

fun position :: "('a \<Rightarrow> bool) \<Rightarrow> 'a list \<Rightarrow> nat option" where
  "position p [] = None"
| "position p (x # xs) = (if p x then Some 0 else map_option Suc (position p xs))"

definition syllable_to_index :: "string \<Rightarrow> nat option" where
  "syllable_to_index syllable = position (\<lambda>s. s = syllable) SYLLABLES"

section \<open>Checksum\<close>

definition compute_checksum :: "(bytes \<Rightarrow> bytes) \<Rightarrow> u128 \<Rightarrow> nat" where
  "compute_checksum H v = unat (H (be_encode 16 (v div 125)) ! 0) mod 125"

definition checksum_verify :: "(bytes \<Rightarrow> bytes) \<Rightarrow> u128 \<Rightarrow> bool" where
  "checksum_verify H v \<longleftrightarrow> v mod 125 = compute_checksum H v"

section \<open>Sanskrit encoding\<close>

definition SID_SYLLABLE_COUNT :: nat where "SID_SYLLABLE_COUNT = 18"

fun sid_digits :: "nat \<Rightarrow> u128 \<Rightarrow> nat list" where
  "sid_digits 0 v = []"
| "sid_digits (Suc n) v = v mod 125 # sid_digits n (v div 125)"

definition encode_sanskrit :: "u128 \<Rightarrow> string" where
  "encode_sanskrit v = concat (map index_to_syllable (sid_digits SID_SYLLABLE_COUNT v))"

text \<open>The longest syllable at the start of the text, tried from six bytes down to two.\<close>

fun find_syllable :: "nat list \<Rightarrow> string \<Rightarrow> (nat \<times> nat) option" where
  "find_syllable [] s = None"
| "find_syllable (len # lens) s =
     (case (if len \<le> length s then (case from_utf8 (str_bytes (take len s)) of None \<Rightarrow> None | Some candidate \<Rightarrow> syllable_to_index candidate) else None) of
        Some i \<Rightarrow> Some (len, i)
      | None \<Rightarrow> find_syllable lens s)"

lemma find_syllable_len: "find_syllable lens s = Some (len, i) \<Longrightarrow> len \<in> set lens \<and> len \<le> length s \<and> syllable_to_index (take len s) = Some i"
  by (induction lens s rule: find_syllable.induct)
    (auto simp: from_utf8_def split: option.splits if_splits)

declare find_syllable.simps [simp del]

function decode_loop :: "string \<Rightarrow> u128 \<Rightarrow> u128 \<Rightarrow> nat \<Rightarrow> sid_error + (u128 \<times> nat)" where
  "decode_loop s v multiplier count =
     (if s = [] then Inr (v, count)
      else case find_syllable [6, 5, 4, 3, 2] s of
             None \<Rightarrow> Inl (SidInvalidSyllable (case from_utf8 (str_bytes (take 6 s)) of None \<Rightarrow> ''???'' | Some invalid \<Rightarrow> invalid))
           | Some (len, i) \<Rightarrow>
               (case checked_u128 (i * multiplier) of
                  None \<Rightarrow> Inl SidOverflow
                | Some term \<Rightarrow>
                    (case checked_u128 (v + term) of
                       None \<Rightarrow> Inl SidOverflow
                     | Some v' \<Rightarrow>
                         (case checked_u128 (multiplier * 125) of
                            None \<Rightarrow> Inl SidOverflow
                          | Some multiplier' \<Rightarrow> decode_loop (drop len s) v' multiplier' (count + 1)))))"
  by pat_completeness auto
termination
  by (relation "measure (\<lambda>(s, _). length s)") (auto dest!: find_syllable_len)

declare decode_loop.simps [simp del]

definition decode_sanskrit :: "string \<Rightarrow> sid_error + u128" where
  "decode_sanskrit sanskrit =
     (case decode_loop sanskrit 0 1 0 of
        Inl e \<Rightarrow> Inl e
      | Inr (v, count) \<Rightarrow>
          if count \<noteq> SID_SYLLABLE_COUNT then Inl (SidInvalidLength SID_SYLLABLE_COUNT count) else Inr v)"

section \<open>Headers\<close>

fun div_times :: "nat \<Rightarrow> u128 \<Rightarrow> u128" where
  "div_times 0 v = v"
| "div_times (Suc n) v = div_times n (v div 125)"

text \<open>Reading a digit out of range panics (\<open>None\<close>).\<close>

definition extract_digit :: "u128 \<Rightarrow> nat \<Rightarrow> nat option" where
  "extract_digit sid_int i = (if i < 18 then Some (div_times (17 - i) sid_int mod 125) else None)"

datatype sid_version = V0 | V1 | V2 | V3

datatype sid_network = Mainnet | Testnet | Devnet | Staging

datatype did_kind = KindGeneric | KindPerson | KindOrganization | KindDevice | KindAgent | KindService | KindFaucet

primrec version_as_u8 :: "sid_version \<Rightarrow> nat" where
  "version_as_u8 V0 = 0" | "version_as_u8 V1 = 1" | "version_as_u8 V2 = 2" | "version_as_u8 V3 = 3"

primrec network_as_u8 :: "sid_network \<Rightarrow> nat" where
  "network_as_u8 Mainnet = 0" | "network_as_u8 Testnet = 1" | "network_as_u8 Devnet = 2" | "network_as_u8 Staging = 3"

primrec kind_as_u8 :: "did_kind \<Rightarrow> nat" where
  "kind_as_u8 KindGeneric = 0" | "kind_as_u8 KindPerson = 1" | "kind_as_u8 KindOrganization = 2" | "kind_as_u8 KindDevice = 3"
| "kind_as_u8 KindAgent = 4" | "kind_as_u8 KindService = 5" | "kind_as_u8 KindFaucet = 6"

definition version_from_u8 :: "nat \<Rightarrow> sid_error + sid_version" where
  "version_from_u8 v = (if v = 0 then Inr V0 else if v = 1 then Inr V1 else if v = 2 then Inr V2 else if v = 3 then Inr V3
     else Inl (SidInvalidVersion v))"

definition network_from_u8 :: "nat \<Rightarrow> sid_error + sid_network" where
  "network_from_u8 v = (if v = 0 then Inr Mainnet else if v = 1 then Inr Testnet else if v = 2 then Inr Devnet else if v = 3 then Inr Staging
     else if v < 8 then Inl (SidInvalidFormat (''Reserved network value: '' @ nat_str v)) else Inl (SidInvalidFormat (''Invalid network value: '' @ nat_str v)))"

definition kind_from_u8 :: "nat \<Rightarrow> sid_error + did_kind" where
  "kind_from_u8 v = (if v = 0 then Inr KindGeneric else if v = 1 then Inr KindPerson else if v = 2 then Inr KindOrganization
     else if v = 3 then Inr KindDevice else if v = 4 then Inr KindAgent else if v = 5 then Inr KindService else if v = 6 then Inr KindFaucet
     else if v < 125 then Inl (SidInvalidFormat (''Reserved DID kind: '' @ nat_str v)) else Inl (SidInvalidFormat (''Invalid DID kind: '' @ nat_str v)))"

definition NUM_SHARDS :: nat where "NUM_SHARDS = 16"

text \<open>A shard id is its value; \<open>shard_new\<close> admits values below 125.\<close>

definition shard_new :: "nat \<Rightarrow> sid_error + nat" where
  "shard_new v = (if v \<ge> 125 then Inl (SidInvalidFormat (''ShardId value too large: '' @ nat_str v)) else Inr v)"

definition for_shard :: "nat \<Rightarrow> sid_error + nat" where
  "for_shard shard = (if shard \<ge> NUM_SHARDS then Inl (SidInvalidFormat (''Shard must be 0-15, got: '' @ nat_str shard)) else Inr shard)"

definition shard_of :: "nat \<Rightarrow> nat" where
  "shard_of v = v mod NUM_SHARDS"

record sid_header =
  sh_version :: sid_version
  sh_network :: sid_network
  sh_kind :: did_kind
  sh_shard_id :: nat

definition header_with_shard :: "sid_version \<Rightarrow> sid_network \<Rightarrow> did_kind \<Rightarrow> nat \<Rightarrow> sid_error + sid_header" where
  "header_with_shard v n k shard = map_sum id (\<lambda>i. \<lparr>sh_version = v, sh_network = n, sh_kind = k, sh_shard_id = i\<rparr>) (for_shard shard)"

text \<open>\<open>d0 >> 3\<close> and \<open>d0 & 0x07\<close> of the first digit.\<close>

definition header_from_digits :: "nat \<Rightarrow> nat \<Rightarrow> nat \<Rightarrow> sid_error + sid_header" where
  "header_from_digits d0 d1 d2 =
     (case version_from_u8 (d0 div 8) of
        Inl e \<Rightarrow> Inl e
      | Inr v \<Rightarrow>
          (case network_from_u8 (d0 mod 8) of
             Inl e \<Rightarrow> Inl e
           | Inr n \<Rightarrow>
               (case kind_from_u8 d1 of
                  Inl e \<Rightarrow> Inl e
                | Inr k \<Rightarrow>
                    (case shard_new d2 of
                       Inl e \<Rightarrow> Inl e
                     | Inr i \<Rightarrow> Inr \<lparr>sh_version = v, sh_network = n, sh_kind = k, sh_shard_id = i\<rparr>))))"

definition header_to_digits :: "sid_header \<Rightarrow> nat \<times> nat \<times> nat" where
  "header_to_digits h = (version_as_u8 (sh_version h) * 8 + network_as_u8 (sh_network h), kind_as_u8 (sh_kind h), sh_shard_id h)"

definition header_from_sid_int :: "u128 \<Rightarrow> sid_error + sid_header" where
  "header_from_sid_int sid_int =
     (case (extract_digit sid_int 0, extract_digit sid_int 1, extract_digit sid_int 2) of
        (Some d0, Some d1, Some d2) \<Rightarrow> header_from_digits d0 d1 d2
      | _ \<Rightarrow> Inl SidOverflow)"

definition header_to_sid_bits :: "sid_header \<Rightarrow> u128" where
  "header_to_sid_bits h = (case header_to_digits h of (d0, d1, d2) \<Rightarrow> wrap_u128 (((d0 * 125 + d1) * 125 + d2) * 125 ^ 15))"

definition header_default :: sid_header where
  "header_default = \<lparr>sh_version = V0, sh_network = Mainnet, sh_kind = KindGeneric, sh_shard_id = 0\<rparr>"

section \<open>Syllables are uniquely decodable\<close>

lemma position_nth: "distinct xs \<Longrightarrow> i < length xs \<Longrightarrow> position (\<lambda>s. s = xs ! i) xs = Some i"
  by (induction xs arbitrary: i) (auto simp: nth_Cons' intro: less_imp_Suc_add split: nat.splits)

lemma sid_position_Some: "position p xs = Some i \<Longrightarrow> i < length xs \<and> p (xs ! i)"
  by (induction xs arbitrary: i) (auto split: if_splits)

text \<open>A syllable is consonants and one vowel, of two or three letters.\<close>

definition is_vowel :: "char \<Rightarrow> bool" where
  "is_vowel c \<longleftrightarrow> c \<in> {CHR ''a'', CHR ''e'', CHR ''i'', CHR ''o'', CHR ''u''}"

lemma syllables_shape:
  "list_all (\<lambda>s. length s \<in> {2, 3} \<and> is_vowel (last s) \<and> list_all (\<lambda>c. \<not> is_vowel c) (butlast s)) SYLLABLES"
  by (simp add: SYLLABLES_def is_vowel_def)

lemma syllables_utf8: "list_all (\<lambda>s. utf8_valid (str_bytes s)) SYLLABLES"
  by (simp add: SYLLABLES_def utf8_valid.simps)

lemma syllables_distinct: "distinct SYLLABLES"
  by (simp add: SYLLABLES_def)

lemma syllables_length [simp]: "length SYLLABLES = 125"
  by (simp add: SYLLABLES_def)

lemma syllable_facts:
  assumes "i < 125"
  shows "length (index_to_syllable i) \<in> {2, 3}" "is_vowel (last (index_to_syllable i))"
    "list_all (\<lambda>c. \<not> is_vowel c) (butlast (index_to_syllable i))" "from_utf8 (str_bytes (index_to_syllable i)) = Some (index_to_syllable i)"
    "syllable_to_index (index_to_syllable i) = Some i" "index_to_syllable i \<noteq> []"
proof -
  have m: "index_to_syllable i \<in> set SYLLABLES" using assms by (simp add: index_to_syllable_def)
  from m syllables_shape show "length (index_to_syllable i) \<in> {2, 3}" "is_vowel (last (index_to_syllable i))"
    "list_all (\<lambda>c. \<not> is_vowel c) (butlast (index_to_syllable i))" "index_to_syllable i \<noteq> []"
    unfolding list_all_iff by (metis, metis, metis, force)
  from m syllables_utf8 show "from_utf8 (str_bytes (index_to_syllable i)) = Some (index_to_syllable i)"
    by (simp add: list_all_iff from_utf8_str_bytes)
  show "syllable_to_index (index_to_syllable i) = Some i"
    using position_nth [OF syllables_distinct] assms by (simp add: syllable_to_index_def index_to_syllable_def)
qed

text \<open>A text with a vowel before its last letter is not a syllable.\<close>

lemma inner_vowel_no_syllable:
  assumes "is_vowel (s ! k)" "Suc k < length s"
  shows "syllable_to_index s = None"
proof (rule ccontr)
  assume "syllable_to_index s \<noteq> None"
  then obtain i where "i < 125" "index_to_syllable i = s"
    by (auto simp: syllable_to_index_def index_to_syllable_def dest: sid_position_Some)
  with syllable_facts(3) [of i] assms show False by (auto simp: list_all_length nth_butlast)
qed

lemma find_syllable_first:
  assumes "i < 125"
  shows "find_syllable [6, 5, 4, 3, 2] (index_to_syllable i @ s) = Some (length (index_to_syllable i), i)"
proof -
  let ?y = "index_to_syllable i"
  have long: "syllable_to_index (take len (?y @ s)) = None" if "length ?y < len" "len \<le> length (?y @ s)" for len
  proof (rule inner_vowel_no_syllable)
    have "?y \<noteq> []" using syllable_facts [OF assms] by simp
    then show "is_vowel (take len (?y @ s) ! (length ?y - 1))" using syllable_facts(2) [OF assms] that
      by (simp add: last_conv_nth nth_append)
    show "Suc (length ?y - 1) < length (take len (?y @ s))" using that \<open>?y \<noteq> []\<close> by simp
  qed
  have step: "find_syllable (len # lens) (?y @ s) = find_syllable lens (?y @ s)" if "length ?y < len" for len lens
  proof (cases "len \<le> length (?y @ s)")
    case True
    with long [OF that] have "\<forall>c. from_utf8 (str_bytes (take len (?y @ s))) = Some c \<longrightarrow> syllable_to_index c = None"
      by (metis from_utf8_Some str_bytes_inj)
    then show ?thesis by (simp add: find_syllable.simps(2) [of len] split: option.split)
  qed (simp add: find_syllable.simps(2) [of len])
  have "find_syllable (length ?y # lens) (?y @ s) = Some (length ?y, i)" for lens
    using syllable_facts [OF assms] by (simp add: find_syllable.simps)
  then show ?thesis using syllable_facts(1) [OF assms] step by auto
qed

section \<open>Digits and round trips\<close>

definition digits_val :: "nat list \<Rightarrow> nat" where
  "digits_val ds = foldr (\<lambda>d a. d + 125 * a) ds 0"

lemma digits_val_simps [simp]: "digits_val [] = 0" "digits_val (d # ds) = d + 125 * digits_val ds"
  by (simp_all add: digits_val_def)

lemma sid_digits_facts [simp]: "length (sid_digits n v) = n" "d \<in> set (sid_digits n v) \<Longrightarrow> d < 125"
  by (induction n arbitrary: v) auto

lemma digits_val_digits: "digits_val (sid_digits n v) = v mod 125 ^ n"
  by (induction n arbitrary: v) (simp_all add: mod_mult2_eq mult.commute)

lemma digits_val_less: "\<forall>d\<in>set ds. d < 125 \<Longrightarrow> digits_val ds < 125 ^ length ds"
proof (induction ds)
  case (Cons d ds)
  then have "d < 125" "digits_val ds + 1 \<le> 125 ^ length ds" by auto
  then have "d + 125 * digits_val ds < 125 * 125 ^ length ds" by linarith
  then show ?case by simp
qed simp

lemma digits_of_val: "\<forall>d\<in>set ds. d < 125 \<Longrightarrow> sid_digits (length ds) (digits_val ds) = ds"
  by (induction ds) auto

lemma decode_loop_digits:
  assumes "\<forall>d\<in>set ds. d < 125" "v < m" "m * 125 ^ length ds < 2 ^ 128"
  shows "decode_loop (concat (map index_to_syllable ds)) v m c = Inr (v + m * digits_val ds, c + length ds)"
  using assms
proof (induction ds arbitrary: v m c)
  case Nil
  then show ?case by (subst decode_loop.simps) simp
next
  case (Cons d ds)
  from Cons.prems have d: "d < 125" by simp
  have one: "(1::nat) \<le> 125 ^ length ds" by simp
  have "m * 125 \<le> m * 125 ^ length (d # ds)" using mult_le_mono2 [OF one, of "m * 125"] by (simp add: mult.assoc)
  also note Cons.prems(3)
  finally have m125: "m * 125 < 2 ^ 128" .
  have "d * m \<le> 124 * m" using d by simp
  then have sums: "v + d * m < m * 125" using Cons.prems(2) by linarith
  have IH: "decode_loop (concat (map index_to_syllable ds)) (v + d * m) (m * 125) (c + 1) = Inr (v + d * m + m * 125 * digits_val ds, c + 1 + length ds)"
    by (rule Cons.IH) (use Cons.prems sums in \<open>simp_all add: mult.assoc\<close>)
  have "decode_loop (concat (map index_to_syllable (d # ds))) v m c = decode_loop (concat (map index_to_syllable ds)) (v + d * m) (m * 125) (c + 1)"
    using find_syllable_first [OF d] syllable_facts(6) [OF d] m125 sums
    by (subst decode_loop.simps) (simp add: checked_u128_def)
  then show ?case unfolding IH by (simp add: algebra_simps)
qed

lemma decode_loop_is_digits:
  "decode_loop s v m c = Inr (v', c') \<Longrightarrow>
     \<exists>ds. (\<forall>d\<in>set ds. d < 125) \<and> s = concat (map index_to_syllable ds) \<and> v' = v + m * digits_val ds \<and> c' = c + length ds"
proof (induction s v m c arbitrary: v' c' rule: decode_loop.induct)
  case (1 s v m c)
  show ?case
  proof (cases "s = []")
    case True
    with "1.prems" show ?thesis by (subst (asm) decode_loop.simps) (auto intro!: exI [of _ "[]"])
  next
    case False
    from "1.prems" False obtain len i t v1 m1 where f: "find_syllable [6, 5, 4, 3, 2] s = Some (len, i)"
      "checked_u128 (i * m) = Some t" "checked_u128 (v + t) = Some v1" "checked_u128 (m * 125) = Some m1"
      "decode_loop (drop len s) v1 m1 (c + 1) = Inr (v', c')"
      by (subst (asm) decode_loop.simps) (auto split: option.splits prod.splits)
    from "1.IH" [OF False f(1) refl f(2,3,4,5)] obtain ds where ds: "\<forall>d\<in>set ds. d < 125"
      "drop len s = concat (map index_to_syllable ds)" "v' = v1 + m1 * digits_val ds" "c' = c + 1 + length ds" by blast
    from find_syllable_len [OF f(1)] have "syllable_to_index (take len s) = Some i" by simp
    then have i: "i < 125" "index_to_syllable i = take len s"
      by (auto simp: syllable_to_index_def index_to_syllable_def dest: sid_position_Some)
    have "v1 = v + i * m" "m1 = m * 125" using f(2,3,4) by (auto simp: checked_u128_def split: if_splits)
    with i ds show ?thesis by (intro exI [of _ "i # ds"]) (simp add: algebra_simps flip: ds(2))
  qed
qed

lemma decode_sanskrit_iff:
  "decode_sanskrit s = Inr v \<longleftrightarrow> s = encode_sanskrit v \<and> v < 125 ^ 18"
proof
  assume "s = encode_sanskrit v \<and> v < 125 ^ 18"
  then show "decode_sanskrit s = Inr v"
    using decode_loop_digits [of "sid_digits 18 v" 0 1 0] sid_digits_facts
    by (simp add: decode_sanskrit_def encode_sanskrit_def SID_SYLLABLE_COUNT_def digits_val_digits)
next
  assume "decode_sanskrit s = Inr v"
  then have "decode_loop s 0 1 0 = Inr (v, 18)"
    by (auto simp: decode_sanskrit_def SID_SYLLABLE_COUNT_def split: sum.splits prod.splits if_splits)
  from decode_loop_is_digits [OF this] obtain ds where ds: "\<forall>d\<in>set ds. d < 125" "s = concat (map index_to_syllable ds)"
    "v = digits_val ds" "length ds = 18" by auto
  then show "s = encode_sanskrit v \<and> v < 125 ^ 18"
    using digits_of_val [OF ds(1)] digits_val_less [OF ds(1)] by (simp add: encode_sanskrit_def SID_SYLLABLE_COUNT_def)
qed

text \<open>
  C38. Every identifier has one spelling. Decoding a text gives the number \<open>v\<close> exactly when the text
  is the encoding of \<open>v\<close> and \<open>v\<close> fits into 18 digits: what is encoded is read back, no other text
  is read as \<open>v\<close>, and a successful decoding never overflows.
\<close>

theorem sanskrit_roundtrip:
  "decode_sanskrit s = Inr v \<longleftrightarrow> s = encode_sanskrit v \<and> v < 125 ^ 18"
  by (rule decode_sanskrit_iff)

end
