(* ===== verification/Sid_English.thy ===== *)
theory Sid_English
  imports Sid_Wordlist
begin

unbundle bit_operations_syntax

text \<open>
  The mnemonic of twelve words: \<open>crypto/src/sid/english.rs\<close>. The 128 bits of an identifier and four
  bits of checksum are cut into twelve indices of eleven bits; the code does it on an array of 17
  bytes with shifts and masks, modelled on machine words. The proof reads the array as one sequence
  of bits, most significant first.
\<close>

section \<open>Encoding and decoding\<close>

definition AEM_TAG :: bytes where
  "AEM_TAG = str_bytes ''AJNA/AEM/V1''"

definition aem_checksum :: "(bytes \<Rightarrow> bytes) \<Rightarrow> bytes \<Rightarrow> byte" where
  "aem_checksum H bs = drop_bit 4 (H (AEM_TAG @ bs) ! 0)"

definition english_bits :: "(bytes \<Rightarrow> bytes) \<Rightarrow> u128 \<Rightarrow> bytes" where
  "english_bits H sid_int = (let bs = be_encode 16 sid_int in bs @ [push_bit 4 (aem_checksum H bs)])"

definition english_chunk :: "bytes \<Rightarrow> nat \<Rightarrow> u16" where
  "english_chunk bits i =
     (let bit_offset = i * 11; byte_idx = bit_offset div 8; bit_shift = bit_offset mod 8; bytes_available = length bits - byte_idx
      in if bytes_available \<ge> 3 then
           (let b0 = ucast (bits ! byte_idx) :: u32; b1 = ucast (bits ! (byte_idx + 1)) :: u32; b2 = ucast (bits ! (byte_idx + 2)) :: u32;
                combined = push_bit 16 b0 OR push_bit 8 b1 OR b2
            in ucast (drop_bit (24 - bit_shift - 11) combined AND 0x7FF))
         else if bytes_available \<ge> 2 then
           (let b0 = ucast (bits ! byte_idx) :: u16; b1 = ucast (bits ! (byte_idx + 1)) :: u16; combined = push_bit 8 b0 OR b1
            in drop_bit (16 - bit_shift - 11) combined AND 0x7FF)
         else (let b0 = ucast (bits ! byte_idx) :: u16 in drop_bit 5 (push_bit bit_shift b0) AND 0x7FF))"

text \<open>An index out of range would panic (\<open>None\<close>).\<close>

definition encode_english :: "(bytes \<Rightarrow> bytes) \<Rightarrow> u128 \<Rightarrow> string list option" where
  "encode_english H sid_int =
     (let ws = map (\<lambda>i. index_to_word (unat (english_chunk (english_bits H sid_int) i))) [0..<12]
      in if None \<in> set ws then None else Some (map the ws))"

definition or_at :: "nat \<Rightarrow> byte \<Rightarrow> bytes \<Rightarrow> bytes" where
  "or_at j b bits = (if j < length bits then bits[j := bits ! j OR b] else bits)"

definition put_index :: "nat \<Rightarrow> nat \<Rightarrow> bytes \<Rightarrow> bytes" where
  "put_index i index bits =
     (let bit_offset = i * 11; byte_idx = bit_offset div 8; bit_shift = bit_offset mod 8;
          v = (of_nat index :: u32) AND 0x7FF; shifted = push_bit (24 - bit_shift - 11) v
      in or_at (byte_idx + 2) (ucast (shifted AND 0xFF)) (or_at (byte_idx + 1) (ucast (drop_bit 8 shifted AND 0xFF))
           (or_at byte_idx (ucast (drop_bit 16 shifted AND 0xFF)) bits)))"

definition put_indices :: "nat list \<Rightarrow> bytes" where
  "put_indices indices = fold (\<lambda>(i, index) bits. put_index i index bits) (enumerate 0 indices) (replicate 17 0)"

fun word_indices :: "string list \<Rightarrow> sid_error + nat list" where
  "word_indices [] = Inr []"
| "word_indices (w # ws) =
     (case word_to_index w of None \<Rightarrow> Inl (SidInvalidWord w) | Some i \<Rightarrow> map_sum id ((#) i) (word_indices ws))"

definition decode_english :: "(bytes \<Rightarrow> bytes) \<Rightarrow> string list \<Rightarrow> sid_error + u128" where
  "decode_english H words =
     (if length words \<noteq> 12 then Inl (SidInvalidLength 12 (length words))
      else case word_indices words of
             Inl e \<Rightarrow> Inl e
           | Inr indices \<Rightarrow>
               (let bits = put_indices indices; data_bytes = take 16 bits
                in if drop_bit 4 (bits ! 16) \<noteq> aem_checksum H data_bytes then Inl SidInvalidChecksum else Inr (be_decode data_bytes)))"

definition validate_english :: "(bytes \<Rightarrow> bytes) \<Rightarrow> string list \<Rightarrow> sid_error + unit" where
  "validate_english H words = map_sum id (\<lambda>_. ()) (decode_english H words)"

section \<open>The array as a sequence of bits\<close>

definition abit :: "bytes \<Rightarrow> nat \<Rightarrow> bool" where
  "abit bs k \<longleftrightarrow> bit (bs ! (k div 8)) (7 - k mod 8)"

lemma abit_at: "abit bs (8 * j + r) \<longleftrightarrow> bit (bs ! (j + r div 8)) (7 - r mod 8)"
proof -
  have "(8 * j + r) div 8 = j + r div 8" "(8 * j + r) mod 8 = r mod 8" by simp_all
  then show ?thesis by (simp only: abit_def)
qed

lemma abit_eqI:
  assumes "length xs = n" "length ys = n" "\<And>k. k < 8 * n \<Longrightarrow> abit xs k = abit ys k"
  shows "xs = ys"
proof (rule nth_equalityI)
  fix j assume j: "j < length xs"
  show "xs ! j = ys ! j"
  proof (rule bit_word_eqI)
    fix m :: nat assume "m < LENGTH(8)"
    then have m: "m < 8" by simp
    have "8 * j + (7 - m) < 8 * n" using j assms(1) m by linarith
    from assms(3) [OF this] m show "bit (xs ! j) m = bit (ys ! j) m" unfolding abit_at by simp
  qed
qed (use assms in simp)

text \<open>The two masks; the simplifier reads the bits of a literal off an integer.\<close>

lemma bit_masks [simp]: "bit (0x7FF :: int) m \<longleftrightarrow> m < 11" "bit (0xFF :: int) m \<longleftrightarrow> m < 8"
proof -
  have "(0x7FF :: int) = mask 11" "(0xFF :: int) = mask 8" by (simp_all add: mask_eq_exp_minus_1)
  then show "bit (0x7FF :: int) m \<longleftrightarrow> m < 11" "bit (0xFF :: int) m \<longleftrightarrow> m < 8"
    using bit_mask_iff [of 11 m, where ?'a = int] bit_mask_iff [of 8 m, where ?'a = int] by simp_all
qed

lemma bit_byte_bound: "bit (b :: byte) m \<Longrightarrow> m < 8"
  using bit_imp_le_length [of b m] by simp

lemma bit_three:
  "bit (push_bit 16 (ucast (b0 :: byte)) OR push_bit 8 (ucast (b1 :: byte)) OR ucast (b2 :: byte) :: u32) n \<longleftrightarrow>
     (if n < 8 then bit b2 n else if n < 16 then bit b1 (n - 8) else n < 24 \<and> bit b0 (n - 16))"
  by (auto simp: bit_or_iff bit_push_bit_iff bit_ucast_iff dest: bit_byte_bound)

lemma bit_two:
  "bit (push_bit 8 (ucast (b0 :: byte)) OR ucast (b1 :: byte) :: u16) n \<longleftrightarrow> (if n < 8 then bit b1 n else n < 16 \<and> bit b0 (n - 8))"
  by (auto simp: bit_or_iff bit_push_bit_iff bit_ucast_iff dest: bit_byte_bound)

text \<open>Bit \<open>r\<close> of three bytes, counted from the most significant one.\<close>

lemma three_bytes:
  assumes "r < 24"
  shows "(if 23 - r < 8 then bit (bs ! (j + 2)) (23 - r) else if 23 - r < 16 then bit (bs ! (j + 1)) (23 - r - 8) else 23 - r < 24 \<and> bit (bs ! j) (23 - r - 16)) \<longleftrightarrow>
    abit bs (8 * j + r)"
proof -
  have "r < 8 \<or> (\<exists>r'. r = 8 + r' \<and> r' < 8) \<or> (\<exists>r'. r = 16 + r' \<and> r' < 8)" using assms by presburger
  then consider "r < 8" | r' where "r = 8 + r'" "r' < 8" | r' where "r = 16 + r'" "r' < 8" by blast
  then show ?thesis
  proof cases
    case 1
    then have "\<not> 23 - r < 8" "\<not> 23 - r < 16" "23 - r < 24" "23 - r - 16 = 7 - r" by linarith+
    then show ?thesis unfolding abit_at using 1 by simp
  next
    case (2 r')
    then have "\<not> 23 - r < 8" "23 - r < 16" "23 - r - 8 = 7 - r'" "r div 8 = 1" "r mod 8 = r'" by (linarith, linarith, linarith, presburger, presburger)
    then show ?thesis unfolding abit_at by simp
  next
    case (3 r')
    then have "23 - r < 8" "23 - r = 7 - r'" "r div 8 = 2" "r mod 8 = r'" by (linarith, linarith, presburger, presburger)
    then show ?thesis unfolding abit_at by simp
  qed
qed

text \<open>A chunk holds eleven consecutive bits.\<close>

lemma chunk_bit:
  assumes "i < 12" "m < 11" "length bits = 17"
  shows "bit (english_chunk bits i) m \<longleftrightarrow> abit bits (11 * i + (10 - m))"
proof -
  define j s where "j = i * 11 div 8" and "s = i * 11 mod 8"
  have s: "s < 8" by (simp add: s_def)
  have "11 * i = 8 * j + s" by (simp add: j_def s_def)
  then have k: "11 * i + (10 - m) = 8 * j + (s + (10 - m))" by simp
  show ?thesis
  proof (cases "i = 11")
    case True
    have "english_chunk bits 11 = drop_bit 4 (push_bit 8 (ucast (bits ! 15)) OR ucast (bits ! 16)) AND 0x7FF"
      by (simp add: english_chunk_def Let_def assms(3))
    then have "bit (english_chunk bits i) m \<longleftrightarrow> (if 4 + m < 8 then bit (bits ! 16) (4 + m) else bit (bits ! 15) (4 + m - 8))"
      using assms(2) unfolding True by (simp only: bit_and_iff bit_drop_bit_eq o_apply bit_two) auto
    also have "\<dots> \<longleftrightarrow> abit bits (8 * 15 + (11 - m))"
      using three_bytes [of "11 - m" bits 15] assms(2) by (auto split: if_splits)
    finally show ?thesis using True assms(2) by simp
  next
    case False
    then have j: "j \<le> 13" using assms(1) unfolding j_def by linarith
    have n: "24 - s - 11 + m = 23 - (s + (10 - m))" using s assms(2) by linarith
    have "bit (english_chunk bits i) m \<longleftrightarrow> bit (push_bit 16 (ucast (bits ! j)) OR push_bit 8 (ucast (bits ! (j + 1))) OR ucast (bits ! (j + 2)) :: u32) (24 - s - 11 + m)"
    proof -
      have "3 \<le> 17 - j" using j by simp
      then have "english_chunk bits i = ucast (drop_bit (24 - s - 11) (push_bit 16 (ucast (bits ! j)) OR push_bit 8 (ucast (bits ! (j + 1))) OR ucast (bits ! (j + 2)) :: u32) AND 0x7FF)"
        unfolding english_chunk_def Let_def j_def [symmetric] s_def [symmetric] assms(3) by (simp only: if_True)
      then show ?thesis using assms(2) by (simp only: bit_ucast_iff bit_and_iff bit_drop_bit_eq o_apply) simp
    qed
    also have "\<dots> \<longleftrightarrow> abit bits (8 * j + (s + (10 - m)))"
      unfolding bit_three n by (rule three_bytes) (use s in linarith)
    finally show ?thesis by (simp only: k)
  qed
qed

section \<open>Decoding the bits\<close>

lemma or_at_facts [simp]: "length (or_at j b bits) = length bits"
  "k < length bits \<Longrightarrow> or_at j b bits ! k = (if k = j then bits ! k OR b else bits ! k)"
  by (auto simp: or_at_def)

lemma put_index_length [simp]: "length (put_index i index bits) = length bits"
  by (simp add: put_index_def Let_def)

text \<open>Three bytes cut from a word of 24 bits, or-ed into the array at byte \<open>j\<close>.\<close>

lemma or_three:
  fixes w :: u32
  assumes "k < 8 * length bits"
  shows "abit (or_at (j + 2) (ucast (w AND 0xFF)) (or_at (j + 1) (ucast (drop_bit 8 w AND 0xFF)) (or_at j (ucast (drop_bit 16 w AND 0xFF)) bits))) k \<longleftrightarrow>
    abit bits k \<or> (8 * j \<le> k \<and> k < 8 * j + 24 \<and> bit w (23 - (k - 8 * j)))"
proof -
  define q r where "q = k div 8" and "r = k mod 8"
  have q: "q < length bits" "r < 8" and k: "k = 8 * q + r" using assms by (auto simp: q_def r_def)
  have w: "bit (ucast (w AND 0xFF) :: byte) (7 - r) \<longleftrightarrow> bit w (7 - r)"
    "bit (ucast (drop_bit 8 w AND 0xFF) :: byte) (7 - r) \<longleftrightarrow> bit w (15 - r)"
    "bit (ucast (drop_bit 16 w AND 0xFF) :: byte) (7 - r) \<longleftrightarrow> bit w (23 - r)"
    using q(2) by (auto simp: bit_ucast_iff bit_and_iff bit_drop_bit_eq)
  consider "q < j \<or> j + 3 \<le> q" | "q = j" | "q = j + 1" | "q = j + 2" by linarith
  then show ?thesis
  proof cases
    case 1
    then have "\<not> (8 * j \<le> k \<and> k < 8 * j + 24)" "q \<noteq> j" "q \<noteq> j + 1" "q \<noteq> j + 2" using q(2) k by auto
    then show ?thesis using q(1) by (auto simp: abit_def bit_or_iff q_def [symmetric] r_def [symmetric])
  next
    case 2
    then have "23 - (k - 8 * j) = 23 - r" "8 * j \<le> k" "k < 8 * j + 24" using q(2) k by auto
    then show ?thesis using q(1) 2 w(3) by (simp add: abit_def bit_or_iff q_def [symmetric] r_def [symmetric])
  next
    case 3
    then have "23 - (k - 8 * j) = 15 - r" "8 * j \<le> k" "k < 8 * j + 24" using q(2) k by auto
    then show ?thesis using q(1) 3 w(2) by (simp add: abit_def bit_or_iff q_def [symmetric] r_def [symmetric])
  next
    case 4
    then have "23 - (k - 8 * j) = 7 - r" "8 * j \<le> k" "k < 8 * j + 24" using q(2) k by auto
    then show ?thesis using q(1) 4 w(1) by (simp add: abit_def bit_or_iff q_def [symmetric] r_def [symmetric])
  qed
qed

lemma put_index_bit:
  assumes "k < 8 * length bits"
  shows "abit (put_index i index bits) k \<longleftrightarrow> abit bits k \<or> (11 * i \<le> k \<and> k < 11 * i + 11 \<and> bit (of_nat index :: u32) (10 - (k - 11 * i)))"
proof -
  define j s where "j = i * 11 div 8" and "s = i * 11 mod 8"
  have s: "s < 8" "11 * i = 8 * j + s" by (simp_all add: j_def s_def)
  let ?w = "push_bit (24 - s - 11) ((of_nat index :: u32) AND 0x7FF)"
  have "abit (put_index i index bits) k \<longleftrightarrow> abit bits k \<or> (8 * j \<le> k \<and> k < 8 * j + 24 \<and> bit ?w (23 - (k - 8 * j)))"
    unfolding put_index_def Let_def j_def [symmetric] s_def [symmetric] by (rule or_three [OF assms])
  also have "8 * j \<le> k \<and> k < 8 * j + 24 \<and> bit ?w (23 - (k - 8 * j)) \<longleftrightarrow> 11 * i \<le> k \<and> k < 11 * i + 11 \<and> bit (of_nat index :: u32) (10 - (k - 11 * i))"
  proof (cases "8 * j + s \<le> k \<and> k < 8 * j + s + 11")
    case True
    then have "23 - (k - 8 * j) - (24 - s - 11) = 10 - (k - (8 * j + s))" "24 - s - 11 \<le> 23 - (k - 8 * j)" using s(1) by linarith+
    then show ?thesis using True s by (auto simp: bit_push_bit_iff bit_and_iff)
  next
    case False
    have "bit ?w n \<longrightarrow> 13 - s \<le> n \<and> n < 24 - s" for n
      using s(1) by (auto simp: bit_push_bit_iff bit_and_iff)
    from this [of "23 - (k - 8 * j)"] False s show ?thesis by auto
  qed
  finally show ?thesis .
qed

lemma put_indices_bit:
  assumes "k < 136" "length indices \<le> 12"
  shows "abit (put_indices indices) k \<longleftrightarrow> k div 11 < length indices \<and> bit (of_nat (indices ! (k div 11)) :: u32) (10 - k mod 11)"
    "length (put_indices indices) = 17"
proof -
  have "length (fold (\<lambda>(i, index) bits. put_index i index bits) xs bits) = length bits" for xs bits
    by (induction xs arbitrary: bits) auto
  then show "length (put_indices indices) = 17" by (simp add: put_indices_def)
  have "abit (fold (\<lambda>(i, index) bits. put_index i index bits) (enumerate n indices) bits) k \<longleftrightarrow>
      abit bits k \<or> (n \<le> k div 11 \<and> k div 11 < n + length indices \<and> bit (of_nat (indices ! (k div 11 - n)) :: u32) (10 - k mod 11))"
    if "length bits = 17" for bits n
    using that
  proof (induction indices arbitrary: n bits)
    case (Cons index indices)
    have here: "11 * n \<le> k \<and> k < 11 * n + 11 \<longleftrightarrow> k div 11 = n" by linarith
    have "abit (put_index n index bits) k \<longleftrightarrow> abit bits k \<or> (k div 11 = n \<and> bit (of_nat index :: u32) (10 - k mod 11))"
      using put_index_bit [of k bits n index] Cons.prems assms(1) here by (auto simp: minus_mult_div_eq_mod mult.commute)
    with Cons show ?case by (auto simp: nth_Cons' Suc_le_eq)
  qed auto
  from this [of "replicate 17 0" 0] assms(1) show "abit (put_indices indices) k \<longleftrightarrow> k div 11 < length indices \<and> bit (of_nat (indices ! (k div 11)) :: u32) (10 - k mod 11)"
    by (simp add: put_indices_def abit_def)
qed

section \<open>Round trip\<close>

lemma chunk_high: "11 \<le> m \<Longrightarrow> \<not> bit (english_chunk bits i) m"
  by (auto simp: english_chunk_def Let_def bit_ucast_iff bit_and_iff)

lemma high_bits_less:
  assumes "\<forall>m\<ge>11. \<not> bit (w :: u16) m"
  shows "unat w < 2048"
proof -
  have "take_bit 11 w = w" by (rule bit_word_eqI) (use assms in \<open>auto simp: bit_take_bit_iff not_le\<close>)
  then have "unat w = take_bit 11 (unat w)" by (metis unsigned_take_bit_eq)
  then show ?thesis using take_bit_nat_less_exp [of 11 "unat w"] by simp
qed

lemma chunk_less: "unat (english_chunk bits i) < 2048"
  by (rule high_bits_less) (simp add: chunk_high)

lemma bit_of_nat_16: "m < 11 \<Longrightarrow> bit (of_nat n :: u32) m \<longleftrightarrow> bit (of_nat n :: u16) m"
  by (simp add: bit_of_nat_iff possible_bit_word)

text \<open>Cutting an array whose last four bits are zero into chunks and putting them together again.\<close>

lemma put_chunks:
  assumes "length bits = 17" "\<forall>k. 132 \<le> k \<and> k < 136 \<longrightarrow> \<not> abit bits k"
  shows "put_indices (map (\<lambda>i. unat (english_chunk bits i)) [0..<12]) = bits"
proof (rule abit_eqI)
  let ?is = "map (\<lambda>i. unat (english_chunk bits i)) [0..<12]"
  show "length (put_indices ?is) = 17" by (rule put_indices_bit(2) [of 0]) simp_all
  fix k :: nat assume k: "k < 8 * 17"
  show "abit (put_indices ?is) k = abit bits k"
  proof (cases "k < 132")
    case True
    then have d: "k div 11 < 12" by linarith
    have r: "10 - k mod 11 < 11" "11 * (k div 11) + (10 - (10 - k mod 11)) = k" by simp_all
    have "abit (put_indices ?is) k \<longleftrightarrow> bit (of_nat (unat (english_chunk bits (k div 11))) :: u32) (10 - k mod 11)"
      using put_indices_bit(1) [of k ?is] k d by simp
    also have "\<dots> \<longleftrightarrow> abit bits k"
      unfolding bit_of_nat_16 [OF r(1)] using chunk_bit [OF d r(1) assms(1)] r(2) by simp
    finally show ?thesis .
  next
    case False
    then have "\<not> k div 11 < 12" by linarith
    then show ?thesis using put_indices_bit(1) [of k ?is] assms(2) k False by simp
  qed
qed (rule assms(1))

text \<open>The other way: eleven-bit indices are the chunks of the array they were put into.\<close>

lemma chunks_put:
  assumes "length indices = 12" "\<forall>i\<in>set indices. i < 2048" "i < 12"
  shows "unat (english_chunk (put_indices indices) i) = indices ! i"
proof -
  have small: "indices ! i < 2048" using assms by simp
  have "english_chunk (put_indices indices) i = of_nat (indices ! i)"
  proof (rule bit_word_eqI)
    fix m :: nat
    show "bit (english_chunk (put_indices indices) i) m = bit (of_nat (indices ! i) :: u16) m"
    proof (cases "m < 11")
      case True
      let ?k = "11 * i + (10 - m)"
      have "(11 * i + r) div 11 = i" "(11 * i + r) mod 11 = r" if "r < 11" for r :: nat using that by simp_all
      then have "?k div 11 = i" "?k mod 11 = 10 - m" by simp_all
      moreover have "10 - (10 - m) = m" "?k < 136" using True assms(3) by simp_all
      ultimately show ?thesis using chunk_bit [OF assms(3) True put_indices_bit(2) [of 0 indices]] put_indices_bit(1) [of ?k indices] assms(1,3) bit_of_nat_16 [OF True]
        by simp
    next
      case False
      have "\<not> bit (indices ! i) m" using small False bit_take_bit_iff [of 11 "indices ! i" m] take_bit_nat_eq_self [of "indices ! i" 11] by auto
      then show ?thesis using chunk_high [of m] False by (simp add: bit_of_nat_iff possible_bit_word)
    qed
  qed
  then show ?thesis using small by (simp add: unsigned_of_nat take_bit_nat_eq_self)
qed

lemma english_bits_facts:
  "length (english_bits H v) = 17" "take 16 (english_bits H v) = be_encode 16 v" "drop_bit 4 (english_bits H v ! 16) = aem_checksum H (be_encode 16 v)"
  "132 \<le> k \<Longrightarrow> k < 136 \<Longrightarrow> \<not> abit (english_bits H v) k"
proof -
  show "length (english_bits H v) = 17" "take 16 (english_bits H v) = be_encode 16 v" by (simp_all add: english_bits_def Let_def)
  have at: "english_bits H v ! 16 = push_bit 4 (aem_checksum H (be_encode 16 v))" by (simp add: english_bits_def Let_def nth_append)
  have high: "bit (aem_checksum H bs) m \<Longrightarrow> m < 4" for bs m
    by (auto simp: aem_checksum_def bit_drop_bit_eq dest!: bit_byte_bound)
  show "drop_bit 4 (english_bits H v ! 16) = aem_checksum H (be_encode 16 v)"
    unfolding at by (rule bit_word_eqI) (auto simp: bit_drop_bit_eq bit_push_bit_iff dest: high)
  show "\<not> abit (english_bits H v) k" if "132 \<le> k" "k < 136"
  proof -
    have "k div 8 = 16" "7 - k mod 8 < 4" using that by presburger+
    then show ?thesis by (simp add: abit_def at bit_push_bit_iff)
  qed
qed

lemma word_indices_iff:
  "word_indices ws = Inr is \<longleftrightarrow> map Some ws = map index_to_word is"
proof (induction ws arbitrary: "is")
  case (Cons w ws)
  show ?case
  proof (cases "word_to_index w")
    case None
    then have "index_to_word i \<noteq> Some w" for i using word_to_index_iff [of w i] by simp
    with None show ?thesis by (auto simp: Cons_eq_map_conv) (metis)
  next
    case (Some i)
    have u: "index_to_word j = Some w \<longleftrightarrow> j = i" for j using Some word_to_index_iff [of w j] by auto
    show ?thesis
    proof (cases "word_indices ws")
      case (Inl e)
      then have "map Some ws \<noteq> map index_to_word is'" for is' using Cons [of is'] by auto
      with Some Inl show ?thesis by (auto simp: Cons_eq_map_conv)
    next
      case (Inr is')
      then have "map Some ws = map index_to_word js \<longleftrightarrow> js = is'" for js using Cons [of js] by auto
      with Some Inr u show ?thesis by (auto simp: Cons_eq_map_conv) metis+
    qed
  qed
qed auto

lemma encode_english_iff:
  "encode_english H v = Some ws \<longleftrightarrow> map Some ws = map (\<lambda>i. index_to_word (unat (english_chunk (english_bits H v) i))) [0..<12]"
proof -
  have "(if None \<in> set xs then None else Some (map the xs)) = Some ws \<longleftrightarrow> map Some ws = xs" for xs :: "string option list"
  proof -
    have "None \<notin> set xs \<Longrightarrow> map Some (map the xs) = xs" by (induction xs) auto
    then show ?thesis by (auto simp: comp_def)
  qed
  then show ?thesis by (simp only: encode_english_def Let_def)
qed

text \<open>
  C39. The mnemonic is a faithful second spelling. Every 128-bit number has its twelve words, the
  encoder never panics, and reading twelve words gives the number \<open>v\<close> exactly when they are the words of \<open>v\<close>.
\<close>

theorem english_roundtrip:
  "(\<exists>ws. encode_english H v = Some ws \<and> length ws = 12) \<and>
   (decode_english H ws = Inr v \<longleftrightarrow> encode_english H v = Some ws \<and> v < 2 ^ 128)"
proof (intro conjI iffI)
  let ?is = "map (\<lambda>i. unat (english_chunk (english_bits H v) i)) [0..<12]"
  have "\<exists>w. index_to_word (unat (english_chunk (english_bits H v) i)) = Some w" for i using chunk_less by (simp add: index_to_word_def)
  then show "\<exists>ws. encode_english H v = Some ws \<and> length ws = 12"
    by (intro exI [of _ "map (\<lambda>i. the (index_to_word (unat (english_chunk (english_bits H v) i)))) [0..<12]"])
      (auto simp: encode_english_iff comp_def intro!: map_cong)
  assume e: "encode_english H v = Some ws \<and> v < 2 ^ 128"
  then have "length ws = 12" "word_indices ws = Inr ?is"
    by (auto simp: encode_english_iff word_indices_iff comp_def dest: arg_cong [where f = length])
  moreover have "put_indices ?is = english_bits H v" by (rule put_chunks) (auto simp: english_bits_facts)
  moreover have "be_decode (be_encode 16 v) = v" using e by simp
  ultimately show "decode_english H ws = Inr v" by (simp only: decode_english_def Let_def sum.case english_bits_facts if_False if_True not_True_eq_False simp_thms)
next
  assume d: "decode_english H ws = Inr v"
  then obtain "is" where ws: "length ws = 12" "word_indices ws = Inr is" and
    v: "drop_bit 4 (put_indices is ! 16) = aem_checksum H (take 16 (put_indices is))" "v = be_decode (take 16 (put_indices is))"
    by (auto simp: decode_english_def Let_def split: sum.splits if_splits)
  have "is": "length is = 12" "map Some ws = map index_to_word is" using ws word_indices_iff [of ws "is"] by (auto dest: arg_cong [where f = length])
  have small: "\<forall>i\<in>set is. i < 2048"
  proof
    fix i assume "i \<in> set is"
    then have "index_to_word i \<in> Some ` set ws" using arg_cong [OF "is"(2), of set] by auto
    then show "i < 2048" by (auto simp: index_to_word_def split: if_splits)
  qed
  let ?b = "put_indices is"
  have len: "length ?b = 17" by (rule put_indices_bit(2) [of 0]) (simp_all add: "is")
  show "v < 2 ^ 128" using be_decode_less [of "take 16 ?b"] len v(2) by simp
  have enc: "be_encode 16 v = take 16 ?b" using be_encode_decode [of "take 16 ?b"] len v(2) by simp
  have "english_bits H v = ?b"
  proof (rule abit_eqI)
    fix k :: nat assume k: "k < 8 * 17"
    show "abit (english_bits H v) k = abit ?b k"
    proof (cases "k < 128")
      case True
      then have "k div 8 < 16" by linarith
      then show ?thesis by (simp add: abit_def english_bits_def Let_def enc nth_append len)
    next
      case False
      then have q: "k div 8 = 16" using k by linarith
      have at: "english_bits H v ! 16 = push_bit 4 (drop_bit 4 (?b ! 16))" by (simp add: english_bits_def Let_def enc nth_append len v(1))
      show ?thesis
      proof (cases "k < 132")
        case True
        then have "4 \<le> 7 - k mod 8" using False by presburger
        then show ?thesis using q at by (auto simp: abit_def bit_push_bit_iff bit_drop_bit_eq)
      next
        case F: False
        then have "\<not> k div 11 < 12" by linarith
        then have "\<not> abit ?b k" using put_indices_bit(1) [of k "is"] k "is"(1) by simp
        then show ?thesis using english_bits_facts(4) [of k H v] F k by simp
      qed
    qed
  qed (simp_all add: english_bits_facts len)
  then show "encode_english H v = Some ws"
    unfolding encode_english_iff "is"(2) by (intro nth_equalityI) (simp_all add: "is"(1) chunks_put [OF "is"(1) small])
qed

end
