(* ===== verification/Ajna_Did.thy ===== *)
theory Ajna_Did
  imports Sid_English Ajna_Document
begin

text \<open>
  Identifiers and DIDs: \<open>crypto/src/sid/mod.rs\<close> and \<open>did/src/ajna/did_syntax.rs\<close>. The random number of
  \<open>generate\<close> and the hash function are arguments. \<open>trim\<close> and \<open>split_whitespace\<close> of the standard library
  work on UTF-8 text; \<open>ws_len\<close> knows the encodings of the Unicode white space characters.
\<close>

section \<open>White space\<close>

definition byte_at :: "string \<Rightarrow> nat \<Rightarrow> nat" where
  "byte_at s i = (if i < length s then of_char (s ! i) else 256)"

text \<open>The number of bytes of the white space character at the start of the text, 0 if there is none.\<close>

definition ws_len :: "string \<Rightarrow> nat" where
  "ws_len s =
     (let a = byte_at s 0; b = byte_at s 1; c = byte_at s 2
      in if 9 \<le> a \<and> a \<le> 13 \<or> a = 32 then 1
         else if a = 0xC2 \<and> (b = 0x85 \<or> b = 0xA0) then 2
         else if a = 0xE1 \<and> b = 0x9A \<and> c = 0x80 \<or>
            a = 0xE2 \<and> b = 0x80 \<and> (0x80 \<le> c \<and> c \<le> 0x8A \<or> c = 0xA8 \<or> c = 0xA9 \<or> c = 0xAF) \<or>
            a = 0xE2 \<and> b = 0x81 \<and> c = 0x9F \<or> a = 0xE3 \<and> b = 0x80 \<and> c = 0x80 then 3
         else 0)"

function trim_start :: "string \<Rightarrow> string" where
  "trim_start s = (if s \<noteq> [] \<and> ws_len s > 0 then trim_start (drop (ws_len s) s) else s)"
  by pat_completeness auto
termination by (relation "measure length") auto

declare trim_start.simps [simp del]

fun trim_end :: "string \<Rightarrow> string" where
  "trim_end [] = []"
| "trim_end (c # cs) = (if trim_start (c # cs) = [] then [] else c # trim_end cs)"

definition str_trim :: "string \<Rightarrow> string" where
  "str_trim s = trim_end (trim_start s)"

text \<open>The words between white space: \<open>w\<close> collects the current one.\<close>

function split_words :: "string \<Rightarrow> string \<Rightarrow> string list" where
  "split_words w s =
     (if s = [] then (if w = [] then [] else [w])
      else if ws_len s > 0 then (if w = [] then [] else [w]) @ split_words [] (drop (ws_len s) s)
      else split_words (w @ [hd s]) (tl s))"
  by pat_completeness auto
termination by (relation "measure (\<lambda>(w, s). length s)") auto

declare split_words.simps [simp del]

definition split_whitespace :: "string \<Rightarrow> string list" where
  "split_whitespace s = split_words [] s"

definition strip_prefix :: "string \<Rightarrow> string \<Rightarrow> string" where
  "strip_prefix p s = (if str_starts_with s p then drop (length p) s else s)"

section \<open>Identifiers\<close>

record sid =
  sid_inner :: u128

definition DID_PREFIX :: string where "DID_PREFIX = ''did:ajna:''"

definition sid_from_u128 :: "u128 \<Rightarrow> sid" where
  "sid_from_u128 v = \<lparr>sid_inner = v\<rparr>"

definition sid_as_bytes :: "sid \<Rightarrow> bytes" where
  "sid_as_bytes s = be_encode 16 (sid_inner s)"

definition sid_from_bytes :: "bytes \<Rightarrow> sid" where
  "sid_from_bytes bs = \<lparr>sid_inner = be_decode bs\<rparr>"

definition sid_to_sanskrit :: "sid \<Rightarrow> string" where
  "sid_to_sanskrit s = encode_sanskrit (sid_inner s)"

definition sid_from_sanskrit :: "(bytes \<Rightarrow> bytes) \<Rightarrow> string \<Rightarrow> sid_error + sid" where
  "sid_from_sanskrit H sanskrit =
     (case decode_sanskrit sanskrit of
        Inl e \<Rightarrow> Inl e
      | Inr v \<Rightarrow> if \<not> checksum_verify H v then Inl SidInvalidChecksum else Inr \<lparr>sid_inner = v\<rparr>)"

definition sid_to_did :: "sid \<Rightarrow> string" where
  "sid_to_did s = DID_PREFIX @ sid_to_sanskrit s"

definition sid_from_did :: "(bytes \<Rightarrow> bytes) \<Rightarrow> string \<Rightarrow> sid_error + sid" where
  "sid_from_did H did = (if \<not> str_starts_with did DID_PREFIX then Inl SidInvalidPrefix else sid_from_sanskrit H (drop 9 did))"

text \<open>The digits of the payload, least significant first, appended to the number.\<close>

fun push_payload :: "nat \<Rightarrow> u128 \<Rightarrow> u128 \<Rightarrow> u128" where
  "push_payload 0 n sid_int = sid_int"
| "push_payload (Suc k) n sid_int = push_payload k (n div 125) (wrap_u128 (wrap_u128 (sid_int * 125) + n mod 125))"

definition sid_build :: "(bytes \<Rightarrow> bytes) \<Rightarrow> sid_header \<Rightarrow> u128 \<Rightarrow> sid" where
  "sid_build H header masked =
     (case header_to_digits header of
        (d0, d1, d2) \<Rightarrow>
          (let sid_int = wrap_u128 (wrap_u128 (0 * 125) + d0);
               sid_int = wrap_u128 (wrap_u128 (sid_int * 125) + d1);
               sid_int = wrap_u128 (wrap_u128 (sid_int * 125) + d2);
               sid_int = push_payload 14 masked sid_int;
               sid_int = wrap_u128 (sid_int * 125)
           in \<lparr>sid_inner = wrap_u128 (sid_int + compute_checksum H sid_int)\<rparr>))"

definition sid_generate_with_header :: "(bytes \<Rightarrow> bytes) \<Rightarrow> u128 \<Rightarrow> sid_header \<Rightarrow> sid" where
  "sid_generate_with_header H random header = sid_build H header (random mod 2 ^ 98)"

definition sid_generate :: "(bytes \<Rightarrow> bytes) \<Rightarrow> u128 \<Rightarrow> sid" where
  "sid_generate H random = sid_generate_with_header H random header_default"

definition sid_from_seed_with_header :: "(bytes \<Rightarrow> bytes) \<Rightarrow> bytes \<Rightarrow> sid_header \<Rightarrow> sid" where
  "sid_from_seed_with_header H seed header = sid_build H header (be_decode (take 16 (H seed)) mod 2 ^ 98)"

definition sid_from_seed :: "(bytes \<Rightarrow> bytes) \<Rightarrow> bytes \<Rightarrow> sid" where
  "sid_from_seed H seed = sid_from_seed_with_header H seed header_default"

definition sid_verify_checksum :: "(bytes \<Rightarrow> bytes) \<Rightarrow> sid \<Rightarrow> bool" where
  "sid_verify_checksum H s = checksum_verify H (sid_inner s)"

text \<open>\<open>expect\<close> panics (\<open>None\<close>) when the header is not valid.\<close>

definition sid_get_header :: "sid \<Rightarrow> sid_header option" where
  "sid_get_header s = (case header_from_sid_int (sid_inner s) of Inl _ \<Rightarrow> None | Inr h \<Rightarrow> Some h)"

definition sid_get_version :: "sid \<Rightarrow> sid_version option" where "sid_get_version s = map_option sh_version (sid_get_header s)"
definition sid_get_network :: "sid \<Rightarrow> sid_network option" where "sid_get_network s = map_option sh_network (sid_get_header s)"
definition sid_get_kind :: "sid \<Rightarrow> did_kind option" where "sid_get_kind s = map_option sh_kind (sid_get_header s)"
definition sid_get_shard_id :: "sid \<Rightarrow> nat option" where "sid_get_shard_id s = map_option (\<lambda>h. shard_of (sh_shard_id h)) (sid_get_header s)"

definition sid_to_english :: "(bytes \<Rightarrow> bytes) \<Rightarrow> sid \<Rightarrow> string list option" where
  "sid_to_english H s = encode_english H (sid_inner s)"

definition sid_from_english :: "(bytes \<Rightarrow> bytes) \<Rightarrow> string list \<Rightarrow> sid_error + sid" where
  "sid_from_english H ws =
     (case decode_english H ws of
        Inl e \<Rightarrow> Inl e
      | Inr v \<Rightarrow> if \<not> checksum_verify H v then Inl SidInvalidChecksum else Inr \<lparr>sid_inner = v\<rparr>)"

fun join_spaces :: "string list \<Rightarrow> string" where
  "join_spaces [] = []"
| "join_spaces [w] = w"
| "join_spaces (w # ws) = w @ '' '' @ join_spaces ws"

definition sid_to_english_phrase :: "(bytes \<Rightarrow> bytes) \<Rightarrow> sid \<Rightarrow> string option" where
  "sid_to_english_phrase H s = map_option (\<lambda>ws. ''ajna-words:'' @ join_spaces ws) (sid_to_english H s)"

definition sid_from_english_phrase :: "(bytes \<Rightarrow> bytes) \<Rightarrow> string \<Rightarrow> sid_error + sid" where
  "sid_from_english_phrase H phrase =
     (let phrase = str_trim phrase; phrase = str_trim (strip_prefix ''ajna-words:'' phrase); ws = split_whitespace phrase
      in if length ws \<noteq> 12 then Inl (SidInvalidLength 12 (length ws)) else sid_from_english H ws)"

definition sid_from_str :: "(bytes \<Rightarrow> bytes) \<Rightarrow> string \<Rightarrow> sid_error + sid" where
  "sid_from_str H s =
     (let s = str_trim s
      in if str_starts_with s DID_PREFIX then sid_from_did H s
         else if str_starts_with s ''ajna-words:'' \<or> CHR '' '' \<in> set s then sid_from_english_phrase H s
         else sid_from_sanskrit H s)"

section \<open>DIDs\<close>

record ajna_did =
  ad_sid :: sid
  ad_fragment :: "string option"

definition ad_generate :: "(bytes \<Rightarrow> bytes) \<Rightarrow> u128 \<Rightarrow> sid_network \<Rightarrow> did_kind \<Rightarrow> ajna_did" where
  "ad_generate H random network kind =
     \<lparr>ad_sid = sid_generate_with_header H random \<lparr>sh_version = V0, sh_network = network, sh_kind = kind, sh_shard_id = 0\<rparr>, ad_fragment = None\<rparr>"

definition ad_from_sid :: "sid \<Rightarrow> ajna_did" where
  "ad_from_sid s = \<lparr>ad_sid = s, ad_fragment = None\<rparr>"

definition ad_from_sanskrit :: "(bytes \<Rightarrow> bytes) \<Rightarrow> string \<Rightarrow> ajna_error + ajna_did" where
  "ad_from_sanskrit H sanskrit =
     (case sid_from_sanskrit H sanskrit of Inl e \<Rightarrow> Inl (InvalidDid ''Invalid Sanskrit SID: '') | Inr s \<Rightarrow> Inr (ad_from_sid s))"

definition ad_from_english :: "(bytes \<Rightarrow> bytes) \<Rightarrow> string list \<Rightarrow> ajna_error + ajna_did" where
  "ad_from_english H ws =
     (case sid_from_english H ws of Inl e \<Rightarrow> Inl (InvalidDid ''Invalid English mnemonic: '') | Inr s \<Rightarrow> Inr (ad_from_sid s))"

definition ad_parse :: "(bytes \<Rightarrow> bytes) \<Rightarrow> string \<Rightarrow> ajna_error + ajna_did" where
  "ad_parse H did_string =
     (if \<not> str_starts_with did_string DID_PREFIX
      then Inl (InvalidDid (''DID must start with '' @ quoted DID_PREFIX @ '': '' @ did_string))
      else (let remainder = drop (length DID_PREFIX) did_string;
                (sanskrit, fragment) = (case position (\<lambda>c. c = CHR ''#'') remainder of
                    Some i \<Rightarrow> (take i remainder, Some (drop (i + 1) remainder))
                  | None \<Rightarrow> (remainder, None))
            in case sid_from_sanskrit H sanskrit of
                 Inl e \<Rightarrow> Inl (InvalidDid ''Invalid Sanskrit SID: '')
               | Inr s \<Rightarrow> Inr \<lparr>ad_sid = s, ad_fragment = fragment\<rparr>))"

definition ad_metadata :: "ajna_did \<Rightarrow> (sid_version \<times> sid_network \<times> did_kind) option" where
  "ad_metadata d = map_option (\<lambda>h. (sh_version h, sh_network h, sh_kind h)) (sid_get_header (ad_sid d))"

definition ad_with_fragment :: "string \<Rightarrow> ajna_did \<Rightarrow> ajna_did" where
  "ad_with_fragment fragment d = d\<lparr>ad_fragment := Some fragment\<rparr>"

definition ad_display :: "ajna_did \<Rightarrow> string" where
  "ad_display d = sid_to_did (ad_sid d) @ (case ad_fragment d of None \<Rightarrow> [] | Some frag \<Rightarrow> ''#'' @ frag)"

section \<open>What \<open>generate\<close> builds\<close>

lemma wrap_small [simp]: "x < 2 ^ 128 \<Longrightarrow> wrap_u128 x = x"
  by (simp add: wrap_u128_def)

lemma push_payload_val:
  assumes "x < 125 ^ m" "k + m \<le> 18"
  shows "push_payload k n x div 125 ^ k = x \<and> push_payload k n x < 125 ^ (k + m)"
  using assms
proof (induction k arbitrary: n x m)
  case (Suc k)
  have "(125::nat) ^ Suc m \<le> 125 ^ 18" using Suc.prems(2) by (intro power_increasing) simp_all
  moreover have "x * 125 + n mod 125 < 125 ^ Suc m"
  proof -
    have "x + 1 \<le> 125 ^ m" "n mod 125 < 125" using Suc.prems(1) by simp_all
    then show ?thesis by simp
  qed
  moreover have "(125::nat) ^ 18 < 2 ^ 128" by simp
  ultimately have y: "x * 125 + n mod 125 < 125 ^ Suc m" "x * 125 + n mod 125 < 2 ^ 128" by linarith+
  then have "x * 125 < 2 ^ 128" by linarith
  with y(2) have w: "wrap_u128 (wrap_u128 (x * 125) + n mod 125) = x * 125 + n mod 125" by simp
  from Suc.IH [OF y(1), of "n div 125"] Suc.prems(2)
  have "push_payload k (n div 125) (x * 125 + n mod 125) div 125 ^ k = x * 125 + n mod 125"
    "push_payload k (n div 125) (x * 125 + n mod 125) < 125 ^ (Suc k + m)" by simp_all
  moreover have "y div 125 ^ Suc k = y div 125 ^ k div 125" for y :: nat by (metis div_mult2_eq power_Suc2)
  ultimately show ?case unfolding push_payload.simps w by simp
qed simp

lemma header_digits_less:
  assumes "sh_shard_id h < 125" "header_to_digits h = (d0, d1, d2)"
  shows "d0 < 125" "d1 < 125" "d2 < 125" "header_from_digits d0 d1 d2 = Inr h"
  using assms
  by (cases h; cases "sh_version h"; cases "sh_network h"; cases "sh_kind h";
      simp add: header_to_digits_def header_from_digits_def version_from_u8_def network_from_u8_def kind_from_u8_def shard_new_def; fail)+

lemma div_times_power: "div_times n v = v div 125 ^ n"
  by (induction n arbitrary: v) (simp_all add: div_mult2_eq)

text \<open>A built identifier: it fits, its checksum verifies and it has the header it was built with.\<close>

lemma sid_build_ok:
  assumes "sh_shard_id h < 125"
  shows "sid_inner (sid_build H h masked) < 125 ^ 18 \<and> checksum_verify H (sid_inner (sid_build H h masked)) \<and>
    header_from_sid_int (sid_inner (sid_build H h masked)) = Inr h"
proof -
  obtain d0 d1 d2 where d: "header_to_digits h = (d0, d1, d2)" by (cases "header_to_digits h")
  note dl = header_digits_less [OF assms d]
  define x where "x = (d0 * 125 + d1) * 125 + d2"
  have x: "x < 125 ^ 3" using dl unfolding x_def by simp
  define p where "p = push_payload 14 masked x"
  from push_payload_val [OF x, of 14 masked] have p: "p div 125 ^ 14 = x" "p < 125 ^ 17" by (simp_all add: p_def)
  define c where "c = compute_checksum H (p * 125)"
  have c: "c < 125" by (simp add: c_def compute_checksum_def)
  have small: "p * 125 + c < 125 ^ 18" using p(2) c by simp
  have b: "sid_inner (sid_build H h masked) = p * 125 + c"
  proof -
    have "(125::nat) ^ 18 < 2 ^ 128" by simp
    with small have "p * 125 + c < 2 ^ 128" "p * 125 < 2 ^ 128" by linarith+
    moreover have "wrap_u128 (wrap_u128 (wrap_u128 (wrap_u128 (wrap_u128 (wrap_u128 (0 * 125) + d0) * 125) + d1) * 125) + d2) = x"
      using dl by (simp add: x_def wrap_u128_def)
    ultimately show ?thesis by (simp add: sid_build_def d Let_def flip: p_def c_def)
  qed
  have div: "(p * 125 + c) div 125 = p" "(p * 125 + c) mod 125 = c" using c by simp_all
  have gen: "b < 125 \<Longrightarrow> (a * 125 + b) div 125 = a" "b < 125 \<Longrightarrow> (a * 125 + b) mod 125 = b" for a b :: nat by simp_all
  have "(p * 125 + c) div 125 ^ 15 = x" using p(1) div(1) div_mult2_eq [of "p * 125 + c" 125 "125 ^ 14"] by simp
  then have "(p * 125 + c) div 125 ^ 16 = x div 125" "(p * 125 + c) div 125 ^ 17 = x div 125 div 125"
    using div_mult2_eq [of "p * 125 + c" "125 ^ 15" 125] div_mult2_eq [of "p * 125 + c" "125 ^ 15" "125 * 125"] div_mult2_eq [of x 125 125]
    by simp_all
  moreover have "x div 125 = d0 * 125 + d1" "x mod 125 = d2" "(d0 * 125 + d1) div 125 = d0" "(d0 * 125 + d1) mod 125 = d1" "d0 mod 125 = d0"
    using gen [of d2 "d0 * 125 + d1"] gen [of d1 d0] dl(1-3) by (simp_all only: x_def mod_less)
  ultimately have "header_from_sid_int (p * 125 + c) = header_from_digits d0 d1 d2"
    using \<open>(p * 125 + c) div 125 ^ 15 = x\<close> by (simp add: header_from_sid_int_def extract_digit_def div_times_power)
  then show ?thesis using b small dl(4) div c_def by (simp add: checksum_verify_def compute_checksum_def)
qed

section \<open>Texts\<close>

lemma encode_no_mark: "CHR ''#'' \<notin> set (encode_sanskrit v)"
proof -
  have "list_all (\<lambda>s. CHR ''#'' \<notin> set s) SYLLABLES" by (simp add: SYLLABLES_def)
  then show ?thesis using sid_digits_facts(2) [of _ SID_SYLLABLE_COUNT v]
    by (auto simp: encode_sanskrit_def index_to_syllable_def list_all_length)
qed

lemma position_append: "\<forall>y\<in>set xs. \<not> P y \<Longrightarrow> position P (xs @ ys) = map_option ((+) (length xs)) (position P ys)"
  by (cases "position P ys"; induction xs) auto

lemma sid_from_sanskrit_iff:
  "sid_from_sanskrit H t = Inr s \<longleftrightarrow> t = sid_to_sanskrit s \<and> sid_inner s < 125 ^ 18 \<and> sid_verify_checksum H s"
proof -
  have "sid_from_sanskrit H t = Inr s \<longleftrightarrow> decode_sanskrit t = Inr (sid_inner s) \<and> checksum_verify H (sid_inner s)"
    by (cases s) (auto simp: sid_from_sanskrit_def split: sum.splits)
  then show ?thesis using decode_sanskrit_iff by (auto simp: sid_to_sanskrit_def sid_verify_checksum_def)
qed

lemma ad_parse_display:
  assumes "sid_inner (ad_sid d) < 125 ^ 18" "sid_verify_checksum H (ad_sid d)"
  shows "ad_parse H (ad_display d) = Inr d"
proof -
  let ?t = "sid_to_sanskrit (ad_sid d)"
  have no: "\<forall>c\<in>set ?t. c \<noteq> CHR ''#''" using encode_no_mark by (auto simp: sid_to_sanskrit_def)
  have s: "sid_from_sanskrit H ?t = Inr (ad_sid d)" using assms by (simp add: sid_from_sanskrit_iff)
  have pre: "str_starts_with (DID_PREFIX @ x) DID_PREFIX" "drop (length DID_PREFIX) (DID_PREFIX @ x) = x" for x by (simp_all add: str_starts_with_def)
  show ?thesis
  proof (cases "ad_fragment d")
    case None
    then show ?thesis using s pre position_append [OF no, of "[]"] by (cases d) (simp add: ad_parse_def ad_display_def sid_to_did_def Let_def)
  next
    case (Some f)
    then have "ad_display d = DID_PREFIX @ ?t @ ''#'' @ f" by (simp add: ad_display_def sid_to_did_def)
    moreover have "position (\<lambda>c. c = CHR ''#'') (?t @ ''#'' @ f) = Some (length ?t)" using position_append [OF no, of "''#'' @ f"] by simp
    ultimately show ?thesis using s pre Some by (cases d) (simp add: ad_parse_def Let_def)
  qed
qed

text \<open>
  C37. A generated DID can be used. Whatever number is drawn and whatever header is asked for, the
  DID that is generated is printed, with any fragment, to a text that is parsed to the same DID; its
  checksum verifies, and version, network, kind and shard are read back from it as they were given.
\<close>

theorem generated_did_roundtrip:
  assumes "sh_shard_id h < 125" and "d = \<lparr>ad_sid = sid_generate_with_header H random h, ad_fragment = fragment\<rparr>"
  shows "ad_parse H (ad_display d) = Inr d \<and> sid_verify_checksum H (ad_sid d) \<and> sid_get_header (ad_sid d) = Some h \<and>
    sid_from_did H (sid_to_did (ad_sid d)) = Inr (ad_sid d)"
proof -
  from sid_build_ok [OF assms(1)] have b: "sid_inner (ad_sid d) < 125 ^ 18" "sid_verify_checksum H (ad_sid d)" "sid_get_header (ad_sid d) = Some h"
    by (simp_all add: assms(2) sid_generate_with_header_def sid_verify_checksum_def sid_get_header_def)
  moreover have "sid_from_did H (sid_to_did (ad_sid d)) = sid_from_sanskrit H (sid_to_sanskrit (ad_sid d))"
    by (simp add: sid_from_did_def sid_to_did_def str_starts_with_def DID_PREFIX_def)
  ultimately show ?thesis using ad_parse_display [OF b(1,2)] by (simp add: sid_from_sanskrit_iff)
qed

theorem generated_did_roundtrip_witness:
  "let h = \<lparr>sh_version = V0, sh_network = Testnet, sh_kind = KindDevice, sh_shard_id = 9\<rparr>;
       d = \<lparr>ad_sid = sid_generate_with_header (\<lambda>_. [7]) 123456789 h, ad_fragment = Some ''key-1''\<rparr>
   in sh_shard_id h < 125 \<and> ad_parse (\<lambda>_. [7]) (ad_display d) = Inr d \<and> sid_get_header (ad_sid d) = Some h"
  using generated_did_roundtrip [of "\<lparr>sh_version = V0, sh_network = Testnet, sh_kind = KindDevice, sh_shard_id = 9\<rparr>"] by (simp add: Let_def)

text \<open>A DID with a valid checksum is parsed whatever its header, and reading the header then panics.\<close>

lemma parsed_header_panics:
  "\<exists>d. ad_parse H (ad_display d) = Inr d \<and> ad_metadata d = None"
proof -
  define p :: nat where "p = 124 * 125 ^ 16"
  define v where "v = p * 125 + compute_checksum H (p * 125)"
  have c: "compute_checksum H (p * 125) < 125" by (simp add: compute_checksum_def)
  have div: "v div 125 = p" "v mod 125 = compute_checksum H (p * 125)" using c by (simp_all add: v_def)
  have "v < 125 ^ 18" using c by (simp add: v_def p_def)
  moreover have "checksum_verify H v" using div by (simp add: checksum_verify_def compute_checksum_def)
  moreover have "v div 125 ^ 17 mod 125 = 124"
  proof -
    have "v div 125 ^ 17 = p div 125 ^ 16" using div(1) div_mult2_eq [of v 125 "125 ^ 16"] by simp
    then show ?thesis by (simp add: p_def)
  qed
  then have "sid_get_header \<lparr>sid_inner = v\<rparr> = None"
    by (simp add: sid_get_header_def header_from_sid_int_def extract_digit_def div_times_power header_from_digits_def version_from_u8_def)
  ultimately show ?thesis using ad_parse_display [of "\<lparr>ad_sid = \<lparr>sid_inner = v\<rparr>, ad_fragment = None\<rparr>" H]
    by (intro exI [of _ "\<lparr>ad_sid = \<lparr>sid_inner = v\<rparr>, ad_fragment = None\<rparr>"]) (simp add: sid_verify_checksum_def ad_metadata_def)
qed

text \<open>A number of more than 18 digits is printed as another one: \<open>from_u128\<close> admits it.\<close>

lemma large_number_misprinted: "encode_sanskrit (v + 125 ^ 18 * k) = encode_sanskrit v"
proof -
  have "sid_digits n (v + 125 ^ n * k) = sid_digits n v" for n v
  proof (induction n arbitrary: v)
    case (Suc n)
    have "(v + 125 ^ Suc n * k) mod 125 = v mod 125" "(v + 125 ^ Suc n * k) div 125 = v div 125 + 125 ^ n * k" by (simp_all add: mult.assoc)
    with Suc show ?case by simp
  qed simp
  then show ?thesis by (simp only: encode_sanskrit_def SID_SYLLABLE_COUNT_def)
qed

end
