(* ===== verification/Dcx_Frame.thy ===== *)
theory Dcx_Frame
  imports Byte_Codec
begin

text \<open>
  The DCX frame codec: \<open>didcomm/src/dcx/frame/\<close>, \<open>crypto/aead.rs\<close>, \<open>crypto/nonce.rs\<close>,
  \<open>padding.rs\<close> and \<open>errors.rs\<close>. ChaCha20-Poly1305 is a crate: its two functions are the
  fields of \<open>aead\<close>. A fixed-size array is a byte list; \<open>header_wf\<close> and \<open>body_wf\<close> state
  what the array and string types guarantee. \<open>u16::MAX as usize\<close> casts and the \<open>as u16\<close>
  truncations are words.
\<close>

section \<open>Errors and constants\<close>

datatype frame_error =
    TooShort nat nat
  | TooLarge nat
  | UnknownType byte
  | UnsupportedVersion byte
  | NonceMismatch
  | MalformedPayload string
  | AeadFailed

definition HEADER_LEN :: nat where "HEADER_LEN = 42"
definition NONCE_LEN :: nat where "NONCE_LEN = 12"
definition TAG_LEN :: nat where "TAG_LEN = 16"
definition MAX_FRAME_SIZE :: nat where "MAX_FRAME_SIZE = 1024 * 1024"
definition FRAME_VERSION :: byte where "FRAME_VERSION = 0x01"

definition FRAME_TYPE_DATA :: byte where "FRAME_TYPE_DATA = 0x01"
definition FRAME_TYPE_DATA_FORWARD :: byte where "FRAME_TYPE_DATA_FORWARD = 0x02"
definition FRAME_TYPE_ACK :: byte where "FRAME_TYPE_ACK = 0x03"
definition FRAME_TYPE_PING :: byte where "FRAME_TYPE_PING = 0x04"
definition FRAME_TYPE_PONG :: byte where "FRAME_TYPE_PONG = 0x05"
definition FRAME_TYPE_ROTATE_NOTIFY :: byte where "FRAME_TYPE_ROTATE_NOTIFY = 0x06"
definition FRAME_TYPE_CHANNEL_CLOSE :: byte where "FRAME_TYPE_CHANNEL_CLOSE = 0x07"
definition FRAME_TYPE_FLOW_WINDOW :: byte where "FRAME_TYPE_FLOW_WINDOW = 0x08"
definition FRAME_TYPE_ERROR :: byte where "FRAME_TYPE_ERROR = 0x09"
definition FRAME_TYPE_CHANNEL_CONFIRM :: byte where "FRAME_TYPE_CHANNEL_CONFIRM = 0x0A"

lemmas frame_type_consts = FRAME_TYPE_DATA_def FRAME_TYPE_DATA_FORWARD_def FRAME_TYPE_ACK_def FRAME_TYPE_PING_def
  FRAME_TYPE_PONG_def FRAME_TYPE_ROTATE_NOTIFY_def FRAME_TYPE_CHANNEL_CLOSE_def FRAME_TYPE_FLOW_WINDOW_def
  FRAME_TYPE_ERROR_def FRAME_TYPE_CHANNEL_CONFIRM_def

datatype frame_type =
  FtData | FtDataForward | FtAck | FtPing | FtPong | FtRotateNotify | FtChannelClose | FtFlowWindow
| FtError | FtChannelConfirm

definition frame_type_from_u8 :: "byte \<Rightarrow> frame_type option" where
  "frame_type_from_u8 b =
     (if b = FRAME_TYPE_DATA then Some FtData
      else if b = FRAME_TYPE_DATA_FORWARD then Some FtDataForward
      else if b = FRAME_TYPE_ACK then Some FtAck
      else if b = FRAME_TYPE_PING then Some FtPing
      else if b = FRAME_TYPE_PONG then Some FtPong
      else if b = FRAME_TYPE_ROTATE_NOTIFY then Some FtRotateNotify
      else if b = FRAME_TYPE_CHANNEL_CLOSE then Some FtChannelClose
      else if b = FRAME_TYPE_FLOW_WINDOW then Some FtFlowWindow
      else if b = FRAME_TYPE_ERROR then Some FtError
      else if b = FRAME_TYPE_CHANNEL_CONFIRM then Some FtChannelConfirm
      else None)"

section \<open>Frames\<close>

record frame_header =
  fh_frame_type :: byte
  fh_version :: byte
  fh_channel_id :: bytes
  fh_routing_prefix :: bytes
  fh_msg_id :: u64

datatype frame_body =
    Data bytes bytes
  | DataForward bytes string bytes
  | Ack u64 byte
  | Ping bytes
  | Pong bytes
  | RotateNotify u32 u32 bytes
  | ChannelClose u16 string
  | FlowWindow u32
  | Error u16 string
  | ChannelConfirm bytes

record frame =
  fr_header :: frame_header
  fr_body :: frame_body

definition fh_encode_aad :: "frame_header \<Rightarrow> bytes" where
  "fh_encode_aad h =
     [fh_frame_type h, fh_version h] @ fh_channel_id h @ fh_routing_prefix h @ u64_to_be (fh_msg_id h)"

definition nonce_for_msg_id :: "u64 \<Rightarrow> bytes" where
  "nonce_for_msg_id msg_id = replicate 4 0 @ u64_to_be msg_id"

section \<open>Padding\<close>

definition DEFAULT_PADDING_BOUNDARY :: nat where "DEFAULT_PADDING_BOUNDARY = 64"
definition FRAME_OVERHEAD_BYTES :: nat where "FRAME_OVERHEAD_BYTES = 42 + 12 + 2 + 2 + 16"

text \<open>\<open>% 0\<close> panics in the code; the only caller passes 64.\<close>

definition padding_length :: "nat \<Rightarrow> nat \<Rightarrow> nat" where
  "padding_length payload_length boundary =
     (let total = FRAME_OVERHEAD_BYTES + payload_length;
          remainder = total mod boundary
      in if remainder = 0 then 0 else boundary - remainder)"

section \<open>Authenticated encryption\<close>

record aead =
  ae_encrypt :: "bytes \<Rightarrow> bytes \<Rightarrow> bytes \<Rightarrow> bytes \<Rightarrow> bytes option"
  ae_decrypt :: "bytes \<Rightarrow> bytes \<Rightarrow> bytes \<Rightarrow> bytes \<Rightarrow> bytes option"

datatype aead_error = EncryptFailed | DecryptFailed

definition aead_seal :: "aead \<Rightarrow> bytes \<Rightarrow> bytes \<Rightarrow> bytes \<Rightarrow> bytes \<Rightarrow> aead_error + bytes" where
  "aead_seal ae key nonce aad plaintext =
     (case ae_encrypt ae key nonce aad plaintext of None \<Rightarrow> Inl EncryptFailed | Some ct \<Rightarrow> Inr ct)"

definition aead_open :: "aead \<Rightarrow> bytes \<Rightarrow> bytes \<Rightarrow> bytes \<Rightarrow> bytes \<Rightarrow> aead_error + bytes" where
  "aead_open ae key nonce aad ct =
     (case ae_decrypt ae key nonce aad ct of None \<Rightarrow> Inl DecryptFailed | Some pt \<Rightarrow> Inr pt)"

section \<open>Encoding\<close>

definition encode_body :: "frame_body \<Rightarrow> frame_error + bytes" where
  "encode_body body =
     (case body of
        Data payload padding \<Rightarrow>
          if length payload > 65535 then Inl (MalformedPayload ''application_payload exceeds u16::MAX'')
          else if length padding > 65535 then Inl (MalformedPayload ''padding exceeds u16::MAX'')
          else Inr (u16_to_be (of_nat (length payload)) @ payload @ u16_to_be (of_nat (length padding)) @ padding)
      | DataForward inner_jwe next_endpoint padding \<Rightarrow>
          if length inner_jwe > 4294967295 then Inl (MalformedPayload ''inner_jwe exceeds u32::MAX'')
          else if length next_endpoint > 65535 then Inl (MalformedPayload ''next_endpoint exceeds u16::MAX'')
          else Inr (u32_to_be (of_nat (length inner_jwe)) @ inner_jwe @
                    u16_to_be (of_nat (length next_endpoint)) @ str_bytes next_endpoint @
                    u16_to_be (of_nat (length padding)) @ padding)
      | Ack acked status \<Rightarrow> Inr (u64_to_be acked @ [status])
      | Ping nonce_data \<Rightarrow> Inr nonce_data
      | Pong nonce_data \<Rightarrow> Inr nonce_data
      | RotateNotify old new chan \<Rightarrow> Inr (u32_to_be old @ u32_to_be new @ chan)
      | ChannelClose reason message \<Rightarrow>
          if length message > 65535 then Inl (MalformedPayload ''close message exceeds u16::MAX'')
          else Inr (u16_to_be reason @ u16_to_be (of_nat (length message)) @ str_bytes message)
      | FlowWindow credit \<Rightarrow> Inr (u32_to_be credit)
      | Error code message \<Rightarrow>
          if length message > 65535 then Inl (MalformedPayload ''error message exceeds u16::MAX'')
          else Inr (u16_to_be code @ u16_to_be (of_nat (length message)) @ str_bytes message)
      | ChannelConfirm h \<Rightarrow> Inr h)"

definition pack :: "aead \<Rightarrow> frame_header \<Rightarrow> frame_body \<Rightarrow> bytes \<Rightarrow> frame_error + bytes" where
  "pack ae header body k_send =
     (let aad = fh_encode_aad header;
          nonce = nonce_for_msg_id (fh_msg_id header)
      in case encode_body body of
           Inl e \<Rightarrow> Inl e
         | Inr plaintext \<Rightarrow>
             (case aead_seal ae k_send nonce aad plaintext of
                Inl _ \<Rightarrow> Inl AeadFailed
              | Inr ct \<Rightarrow>
                  let total_len = HEADER_LEN + NONCE_LEN + length ct
                  in if total_len > MAX_FRAME_SIZE then Inl (TooLarge total_len)
                     else Inr (aad @ nonce @ ct)))"

section \<open>Decoding\<close>

definition decode_header :: "bytes \<Rightarrow> frame_error + (frame_header \<times> bytes)" where
  "decode_header bs =
     (if length bs > MAX_FRAME_SIZE then Inl (TooLarge (length bs))
      else if length bs < HEADER_LEN + NONCE_LEN + TAG_LEN
      then Inl (TooShort (length bs) (HEADER_LEN + NONCE_LEN + TAG_LEN))
      else let frame_type = bs ! 0; version = bs ! 1
           in if frame_type_from_u8 frame_type = None then Inl (UnknownType frame_type)
              else if version \<noteq> FRAME_VERSION then Inl (UnsupportedVersion version)
              else Inr (\<lparr>fh_frame_type = frame_type, fh_version = version, fh_channel_id = slice 2 18 bs,
                         fh_routing_prefix = slice 18 34 bs, fh_msg_id = u64_from_be (slice 34 42 bs)\<rparr>,
                        drop HEADER_LEN bs))"

definition decode_data_body :: "bytes \<Rightarrow> frame_error + frame_body" where
  "decode_data_body pt =
     (if length pt < 4 then Inl (MalformedPayload ''data: too short'')
      else let payload_len = unat (u16_from_be (slice 0 2 pt))
           in if length pt < 2 + payload_len + 2
              then Inl (MalformedPayload ''data: declared payload_length exceeds plaintext'')
              else let payload_end = 2 + payload_len;
                       padding_len = unat (u16_from_be [pt ! payload_end, pt ! (payload_end + 1)]);
                       padding_start = payload_end + 2
                   in if length pt < padding_start + padding_len
                      then Inl (MalformedPayload ''data: declared padding_length exceeds plaintext'')
                      else Inr (Data (slice 2 payload_end pt) (slice padding_start (padding_start + padding_len) pt)))"

text \<open>The text of the UTF-8 error that follows the message is left out.\<close>

definition decode_data_forward_body :: "bytes \<Rightarrow> frame_error + frame_body" where
  "decode_data_forward_body pt =
     (if length pt < 4 then Inl (MalformedPayload ''data_forward: too short'')
      else let jwe_len = unat (u32_from_be (slice 0 4 pt))
           in if length pt < 4 + jwe_len + 2
              then Inl (MalformedPayload ''data_forward: declared jwe length exceeds plaintext'')
              else let jwe_end = 4 + jwe_len;
                       endpoint_len = unat (u16_from_be [pt ! jwe_end, pt ! (jwe_end + 1)]);
                       endpoint_start = jwe_end + 2
                   in if length pt < endpoint_start + endpoint_len + 2
                      then Inl (MalformedPayload ''data_forward: declared endpoint length exceeds plaintext'')
                      else let endpoint_end = endpoint_start + endpoint_len
                           in case from_utf8 (slice endpoint_start endpoint_end pt) of
                                None \<Rightarrow> Inl (MalformedPayload ''next_endpoint not UTF-8: '')
                              | Some next_endpoint \<Rightarrow>
                                  let padding_len = unat (u16_from_be [pt ! endpoint_end, pt ! (endpoint_end + 1)]);
                                      padding_start = endpoint_end + 2
                                  in if length pt < padding_start + padding_len
                                     then Inl (MalformedPayload ''data_forward: declared padding length exceeds plaintext'')
                                     else Inr (DataForward (slice 4 jwe_end pt) next_endpoint
                                                 (slice padding_start (padding_start + padding_len) pt)))"

definition decode_ack_body :: "bytes \<Rightarrow> frame_error + frame_body" where
  "decode_ack_body pt =
     (if length pt \<noteq> 9 then Inl (MalformedPayload (''ack: expected 9 bytes, got '' @ nat_str (length pt)))
      else Inr (Ack (u64_from_be (slice 0 8 pt)) (pt ! 8)))"

definition decode_ping_body :: "bytes \<Rightarrow> frame_error + frame_body" where
  "decode_ping_body pt =
     (if length pt \<noteq> 8 then Inl (MalformedPayload (''ping: expected 8 bytes, got '' @ nat_str (length pt)))
      else Inr (Ping pt))"

definition decode_pong_body :: "bytes \<Rightarrow> frame_error + frame_body" where
  "decode_pong_body pt =
     (if length pt \<noteq> 8 then Inl (MalformedPayload (''pong: expected 8 bytes, got '' @ nat_str (length pt)))
      else Inr (Pong pt))"

definition decode_rotate_notify_body :: "bytes \<Rightarrow> frame_error + frame_body" where
  "decode_rotate_notify_body pt =
     (if length pt \<noteq> 4 + 4 + 16
      then Inl (MalformedPayload (''rotate_notify: expected 24 bytes, got '' @ nat_str (length pt)))
      else Inr (RotateNotify (u32_from_be (slice 0 4 pt)) (u32_from_be (slice 4 8 pt)) (slice 8 24 pt)))"

definition decode_channel_close_body :: "bytes \<Rightarrow> frame_error + frame_body" where
  "decode_channel_close_body pt =
     (if length pt < 4 then Inl (MalformedPayload ''channel_close: too short'')
      else let reason_code = u16_from_be (slice 0 2 pt); msg_len = unat (u16_from_be (slice 2 4 pt))
           in if length pt < 4 + msg_len
              then Inl (MalformedPayload ''channel_close: declared message length exceeds plaintext'')
              else case from_utf8 (slice 4 (4 + msg_len) pt) of
                     None \<Rightarrow> Inl (MalformedPayload ''close message not UTF-8: '')
                   | Some message \<Rightarrow> Inr (ChannelClose reason_code message))"

definition decode_flow_window_body :: "bytes \<Rightarrow> frame_error + frame_body" where
  "decode_flow_window_body pt =
     (if length pt \<noteq> 4 then Inl (MalformedPayload (''flow_window: expected 4 bytes, got '' @ nat_str (length pt)))
      else Inr (FlowWindow (u32_from_be (slice 0 4 pt))))"

definition decode_error_body :: "bytes \<Rightarrow> frame_error + frame_body" where
  "decode_error_body pt =
     (if length pt < 4 then Inl (MalformedPayload ''error: too short'')
      else let error_code = u16_from_be (slice 0 2 pt); msg_len = unat (u16_from_be (slice 2 4 pt))
           in if length pt < 4 + msg_len
              then Inl (MalformedPayload ''error: declared message length exceeds plaintext'')
              else case from_utf8 (slice 4 (4 + msg_len) pt) of
                     None \<Rightarrow> Inl (MalformedPayload ''error message not UTF-8: '')
                   | Some message \<Rightarrow> Inr (Error error_code message))"

definition decode_channel_confirm_body :: "bytes \<Rightarrow> frame_error + frame_body" where
  "decode_channel_confirm_body pt =
     (if length pt \<noteq> 32
      then Inl (MalformedPayload (''channel_confirm: expected 32 bytes, got '' @ nat_str (length pt)))
      else Inr (ChannelConfirm pt))"

definition decode_body :: "byte \<Rightarrow> bytes \<Rightarrow> frame_error + frame_body" where
  "decode_body frame_type plaintext =
     (case frame_type_from_u8 frame_type of
        Some FtData \<Rightarrow> decode_data_body plaintext
      | Some FtDataForward \<Rightarrow> decode_data_forward_body plaintext
      | Some FtAck \<Rightarrow> decode_ack_body plaintext
      | Some FtPing \<Rightarrow> decode_ping_body plaintext
      | Some FtPong \<Rightarrow> decode_pong_body plaintext
      | Some FtRotateNotify \<Rightarrow> decode_rotate_notify_body plaintext
      | Some FtChannelClose \<Rightarrow> decode_channel_close_body plaintext
      | Some FtFlowWindow \<Rightarrow> decode_flow_window_body plaintext
      | Some FtError \<Rightarrow> decode_error_body plaintext
      | Some FtChannelConfirm \<Rightarrow> decode_channel_confirm_body plaintext
      | None \<Rightarrow> Inl (UnknownType frame_type))"

definition decode_and_verify :: "aead \<Rightarrow> frame_header \<Rightarrow> bytes \<Rightarrow> bytes \<Rightarrow> frame_error + frame_body" where
  "decode_and_verify ae header tail k_recv =
     (if length tail < NONCE_LEN + TAG_LEN then Inl (TooShort (length tail) (NONCE_LEN + TAG_LEN))
      else let wire_nonce = slice 0 NONCE_LEN tail;
               expected_nonce = nonce_for_msg_id (fh_msg_id header)
           in if wire_nonce \<noteq> expected_nonce then Inl NonceMismatch
              else let aad = fh_encode_aad header
                   in case aead_open ae k_recv wire_nonce aad (drop NONCE_LEN tail) of
                        Inl _ \<Rightarrow> Inl AeadFailed
                      | Inr plaintext \<Rightarrow> decode_body (fh_frame_type header) plaintext)"

definition decode_full :: "aead \<Rightarrow> bytes \<Rightarrow> bytes \<Rightarrow> frame_error + (frame_header \<times> frame_body)" where
  "decode_full ae bs k_recv =
     (case decode_header bs of
        Inl e \<Rightarrow> Inl e
      | Inr (header, tail) \<Rightarrow>
          (case decode_and_verify ae header tail k_recv of
             Inl e \<Rightarrow> Inl e | Inr body \<Rightarrow> Inr (header, body)))"

definition frame_encode :: "aead \<Rightarrow> frame \<Rightarrow> bytes \<Rightarrow> frame_error + bytes" where
  "frame_encode ae f k_send = pack ae (fr_header f) (fr_body f) k_send"

definition frame_decode :: "aead \<Rightarrow> bytes \<Rightarrow> bytes \<Rightarrow> frame_error + frame" where
  "frame_decode ae bs k_recv =
     (case decode_full ae bs k_recv of
        Inl e \<Rightarrow> Inl e | Inr (header, body) \<Rightarrow> Inr \<lparr>fr_header = header, fr_body = body\<rparr>)"

section \<open>What the types guarantee\<close>

definition header_wf :: "frame_header \<Rightarrow> bool" where
  "header_wf h \<longleftrightarrow> length (fh_channel_id h) = 16 \<and> length (fh_routing_prefix h) = 16"

fun body_type :: "frame_body \<Rightarrow> byte" where
  "body_type (Data _ _) = FRAME_TYPE_DATA"
| "body_type (DataForward _ _ _) = FRAME_TYPE_DATA_FORWARD"
| "body_type (Ack _ _) = FRAME_TYPE_ACK"
| "body_type (Ping _) = FRAME_TYPE_PING"
| "body_type (Pong _) = FRAME_TYPE_PONG"
| "body_type (RotateNotify _ _ _) = FRAME_TYPE_ROTATE_NOTIFY"
| "body_type (ChannelClose _ _) = FRAME_TYPE_CHANNEL_CLOSE"
| "body_type (FlowWindow _) = FRAME_TYPE_FLOW_WINDOW"
| "body_type (Error _ _) = FRAME_TYPE_ERROR"
| "body_type (ChannelConfirm _) = FRAME_TYPE_CHANNEL_CONFIRM"

text \<open>Arrays have their length and strings are UTF-8; the padding of a forward fits its length field.\<close>

fun body_wf :: "frame_body \<Rightarrow> bool" where
  "body_wf (DataForward _ e p) \<longleftrightarrow> utf8_valid (str_bytes e) \<and> length p \<le> 65535"
| "body_wf (Ping n) \<longleftrightarrow> length n = 8"
| "body_wf (Pong n) \<longleftrightarrow> length n = 8"
| "body_wf (RotateNotify _ _ c) \<longleftrightarrow> length c = 16"
| "body_wf (ChannelClose _ m) \<longleftrightarrow> utf8_valid (str_bytes m)"
| "body_wf (Error _ m) \<longleftrightarrow> utf8_valid (str_bytes m)"
| "body_wf (ChannelConfirm h) \<longleftrightarrow> length h = 32"
| "body_wf _ \<longleftrightarrow> True"

section \<open>Bodies\<close>

lemma unat_u16_len: "n \<le> 65535 \<Longrightarrow> unat (of_nat n :: u16) = n"
  by (simp add: unsigned_of_nat take_bit_eq_mod)

lemma unat_u32_len: "n \<le> 4294967295 \<Longrightarrow> unat (of_nat n :: u32) = n"
  by (simp add: unsigned_of_nat take_bit_eq_mod)

lemma pair_slice: "e + 2 \<le> length pt \<Longrightarrow> [pt ! e, pt ! Suc e] = slice e (e + 2) pt"
  by (simp add: slice_def take_Suc_conv_app_nth numeral_2_eq_2)

lemma decode_encode_data:
  assumes "length p \<le> 65535" "length q \<le> 65535"
  shows "decode_data_body (u16_to_be (of_nat (length p)) @ p @ u16_to_be (of_nat (length q)) @ q) = Inr (Data p q)"
proof -
  let ?pt = "u16_to_be (of_nat (length p)) @ p @ u16_to_be (of_nat (length q)) @ q"
  have "slice 0 2 ?pt = u16_to_be (of_nat (length p))" by (simp add: slice_def)
  moreover have "[?pt ! (2 + length p), ?pt ! (2 + length p + 1)] = u16_to_be (of_nat (length q))"
    using pair_slice [of "2 + length p" ?pt] by (simp add: slice_def)
  moreover have "slice 2 (2 + length p) ?pt = p" by (simp add: slice_def)
  moreover have "slice (2 + length p + 2) (2 + length p + 2 + length q) ?pt = q" by (simp add: slice_def)
  ultimately show ?thesis using assms unfolding decode_data_body_def Let_def by (simp add: unat_u16_len)
qed

lemma decode_encode_data_forward:
  assumes "length j \<le> 4294967295" "length e \<le> 65535" "length q \<le> 65535" "utf8_valid (str_bytes e)"
  shows "decode_data_forward_body (u32_to_be (of_nat (length j)) @ j @ u16_to_be (of_nat (length e)) @ str_bytes e @
    u16_to_be (of_nat (length q)) @ q) = Inr (DataForward j e q)"
proof -
  let ?pt = "u32_to_be (of_nat (length j)) @ j @ u16_to_be (of_nat (length e)) @ str_bytes e @ u16_to_be (of_nat (length q)) @ q"
  let ?a = "4 + length j"
  let ?b = "?a + 2 + length e"
  have "slice 0 4 ?pt = u32_to_be (of_nat (length j))" by (simp add: slice_def)
  moreover have "[?pt ! ?a, ?pt ! (?a + 1)] = u16_to_be (of_nat (length e))"
    using pair_slice [of ?a ?pt] by (simp add: slice_def)
  moreover have "slice (?a + 2) ?b ?pt = str_bytes e" by (simp add: slice_def)
  moreover have "[?pt ! ?b, ?pt ! (?b + 1)] = u16_to_be (of_nat (length q))"
    using pair_slice [of ?b ?pt] by (simp add: slice_def)
  moreover have "slice 4 ?a ?pt = j" by (simp add: slice_def)
  moreover have "slice (?b + 2) (?b + 2 + length q) ?pt = q" by (simp add: slice_def)
  ultimately show ?thesis
    using assms unfolding decode_data_forward_body_def Let_def
    by (simp add: unat_u16_len unat_u32_len from_utf8_str_bytes)
qed

lemma decode_encode_message:
  assumes "length m \<le> 65535" "utf8_valid (str_bytes m)"
  shows "decode_channel_close_body (u16_to_be c @ u16_to_be (of_nat (length m)) @ str_bytes m) = Inr (ChannelClose c m)"
    "decode_error_body (u16_to_be c @ u16_to_be (of_nat (length m)) @ str_bytes m) = Inr (Error c m)"
  using assms
  by (simp_all add: decode_channel_close_body_def decode_error_body_def slice_def unat_u16_len from_utf8_str_bytes)

lemma frame_type_from_consts [simp]:
  "frame_type_from_u8 FRAME_TYPE_DATA = Some FtData"
  "frame_type_from_u8 FRAME_TYPE_DATA_FORWARD = Some FtDataForward"
  "frame_type_from_u8 FRAME_TYPE_ACK = Some FtAck" "frame_type_from_u8 FRAME_TYPE_PING = Some FtPing"
  "frame_type_from_u8 FRAME_TYPE_PONG = Some FtPong"
  "frame_type_from_u8 FRAME_TYPE_ROTATE_NOTIFY = Some FtRotateNotify"
  "frame_type_from_u8 FRAME_TYPE_CHANNEL_CLOSE = Some FtChannelClose"
  "frame_type_from_u8 FRAME_TYPE_FLOW_WINDOW = Some FtFlowWindow"
  "frame_type_from_u8 FRAME_TYPE_ERROR = Some FtError"
  "frame_type_from_u8 FRAME_TYPE_CHANNEL_CONFIRM = Some FtChannelConfirm"
  by (simp_all add: frame_type_from_u8_def frame_type_consts)

lemma frame_type_from_body: "frame_type_from_u8 (body_type b) \<noteq> None"
  by (cases b) simp_all

lemma decode_encode_body:
  assumes wf: "body_wf b" and enc: "encode_body b = Inr pt"
  shows "decode_body (body_type b) pt = Inr b"
proof (cases b)
  case (Data p q)
  with assms show ?thesis
    by (auto simp: decode_body_def encode_body_def decode_encode_data split: if_splits)
next
  case (DataForward j e q)
  with assms show ?thesis
    by (auto simp: decode_body_def encode_body_def decode_encode_data_forward split: if_splits)
next
  case (ChannelClose c m)
  with assms show ?thesis
    by (auto simp: decode_body_def encode_body_def decode_encode_message split: if_splits)
next
  case (Error c m)
  with assms show ?thesis
    by (auto simp: decode_body_def encode_body_def decode_encode_message split: if_splits)
next
  case (RotateNotify g g' c)
  with assms show ?thesis
    by (auto simp: decode_body_def encode_body_def decode_rotate_notify_body_def slice_def)
qed (use assms in \<open>auto simp: decode_body_def encode_body_def decode_ack_body_def nth_append
      decode_ping_body_def decode_pong_body_def decode_flow_window_body_def decode_channel_confirm_body_def slice_def\<close>)

interpretation body: wire_codec encode_body "decode_body t" "\<lambda>b. body_wf b \<and> body_type b = t" for t
  by unfold_locales (auto dest: decode_encode_body)

section \<open>Frames on the wire\<close>

text \<open>
  What the crate documents: opening a sealed message gives the message back and a sealed
  message is longer by the tag; and a message that opens is the sealing of what it opens to.
\<close>

definition aead_correct :: "aead \<Rightarrow> bool" where
  "aead_correct ae \<longleftrightarrow> (\<forall>k n a p c. ae_encrypt ae k n a p = Some c \<longrightarrow>
     ae_decrypt ae k n a c = Some p \<and> length c = length p + TAG_LEN)"

definition aead_tight :: "aead \<Rightarrow> bool" where
  "aead_tight ae \<longleftrightarrow> (\<forall>k n a p c. ae_decrypt ae k n a c = Some p \<longrightarrow> ae_encrypt ae k n a p = Some c)"

definition aead_total :: "aead \<Rightarrow> bool" where
  "aead_total ae \<longleftrightarrow> (\<forall>k n a p. ae_encrypt ae k n a p \<noteq> None)"

text \<open>A header for its body, with the current version.\<close>

definition frame_wf :: "frame \<Rightarrow> bool" where
  "frame_wf f \<longleftrightarrow> header_wf (fr_header f) \<and> body_wf (fr_body f) \<and> fh_version (fr_header f) = FRAME_VERSION \<and>
     fh_frame_type (fr_header f) = body_type (fr_body f)"

lemma nonce_length [simp]: "length (nonce_for_msg_id m) = NONCE_LEN"
  by (simp add: nonce_for_msg_id_def NONCE_LEN_def)

lemma nonce_inj: "nonce_for_msg_id a = nonce_for_msg_id b \<longleftrightarrow> a = b"
  by (simp add: nonce_for_msg_id_def u64_to_be_inj)

lemma aad_length: "header_wf h \<Longrightarrow> length (fh_encode_aad h) = HEADER_LEN"
  by (simp add: fh_encode_aad_def header_wf_def HEADER_LEN_def)

lemma decode_header_aad:
  assumes wf: "header_wf h" and v: "fh_version h = FRAME_VERSION"
    and t: "frame_type_from_u8 (fh_frame_type h) \<noteq> None"
    and len: "length tail \<ge> NONCE_LEN + TAG_LEN" "HEADER_LEN + length tail \<le> MAX_FRAME_SIZE"
  shows "decode_header (fh_encode_aad h @ tail) = Inr (h, tail)"
proof -
  let ?bs = "fh_encode_aad h @ tail"
  have bytes: "?bs ! 0 = fh_frame_type h" "?bs ! 1 = fh_version h" "slice 2 18 ?bs = fh_channel_id h"
    "slice 18 34 ?bs = fh_routing_prefix h" "slice 34 42 ?bs = u64_to_be (fh_msg_id h)"
    using wf by (simp_all add: fh_encode_aad_def header_wf_def slice_def)
  have "length ?bs = HEADER_LEN + length tail" "drop HEADER_LEN ?bs = tail"
    using aad_length [OF wf] by simp_all
  with bytes v t len show ?thesis unfolding decode_header_def Let_def bytes by simp
qed

lemma decode_header_ok:
  assumes "decode_header bs = Inr (h, tail)"
  shows "bs = fh_encode_aad h @ tail" "header_wf h" "fh_version h = FRAME_VERSION"
    "frame_type_from_u8 (fh_frame_type h) \<noteq> None" "NONCE_LEN + TAG_LEN \<le> length tail" "length bs \<le> MAX_FRAME_SIZE"
proof -
  have len: "70 \<le> length bs" "length bs \<le> MAX_FRAME_SIZE" and h: "h = \<lparr>fh_frame_type = bs ! 0, fh_version = bs ! 1,
      fh_channel_id = slice 2 18 bs, fh_routing_prefix = slice 18 34 bs, fh_msg_id = u64_from_be (slice 34 42 bs)\<rparr>"
    and tail: "tail = drop 42 bs" and t: "frame_type_from_u8 (bs ! 0) \<noteq> None" "bs ! 1 = FRAME_VERSION"
    using assms by (auto simp: decode_header_def Let_def HEADER_LEN_def NONCE_LEN_def TAG_LEN_def split: if_splits)
  have eight: "length (slice 34 42 bs) = 8" using len by (simp add: slice_def)
  then have be: "u64_to_be (u64_from_be (slice 34 42 bs)) = slice 34 42 bs"
    using be_decode_less [of "slice 34 42 bs"] be_encode_decode [of "slice 34 42 bs"]
    by (simp add: u64_to_be_def u64_from_be_def unsigned_of_nat take_bit_eq_mod)
  have two: "[bs ! 0, bs ! 1] = take 2 bs" using len by (cases bs; cases "tl bs") (auto simp: numeral_2_eq_2)
  have glue: "take a xs @ drop a xs = xs" for a and xs :: bytes by simp
  have "take 2 bs @ slice 2 18 bs @ slice 18 34 bs @ slice 34 42 bs @ drop 42 bs = bs"
    using glue [of 2 bs] glue [of 16 "drop 2 bs"] glue [of 16 "drop 18 bs"] glue [of 8 "drop 34 bs"]
    by (simp add: slice_def)
  then show "bs = fh_encode_aad h @ tail" using two by (simp add: h tail fh_encode_aad_def be)
  show "header_wf h" using len by (simp add: h header_wf_def slice_def)
  show "fh_version h = FRAME_VERSION" "frame_type_from_u8 (fh_frame_type h) \<noteq> None"
    "NONCE_LEN + TAG_LEN \<le> length tail" "length bs \<le> MAX_FRAME_SIZE"
    using len t by (simp_all add: h tail NONCE_LEN_def TAG_LEN_def)
qed

lemma frame_decode_parts:
  assumes "frame_decode ae bs k = Inr f"
  obtains tail where "decode_header bs = Inr (fr_header f, tail)" "decode_and_verify ae (fr_header f) tail k = Inr (fr_body f)"
  using assms by (auto simp: frame_decode_def decode_full_def split: sum.splits)

lemma frame_decode_encode:
  assumes ae: "aead_correct ae" and wf: "frame_wf f" and enc: "frame_encode ae f k = Inr bs"
  shows "frame_decode ae bs k = Inr f"
proof -
  let ?h = "fr_header f" and ?b = "fr_body f"
  let ?n = "nonce_for_msg_id (fh_msg_id ?h)"
  obtain pt ct where pt: "encode_body ?b = Inr pt" and ct: "ae_encrypt ae k ?n (fh_encode_aad ?h) pt = Some ct"
    and size: "HEADER_LEN + NONCE_LEN + length ct \<le> MAX_FRAME_SIZE" and bs: "bs = fh_encode_aad ?h @ ?n @ ct"
    using enc by (auto simp: frame_encode_def pack_def Let_def aead_seal_def split: sum.splits option.splits if_splits)
  have open': "ae_decrypt ae k ?n (fh_encode_aad ?h) ct = Some pt" "length ct = length pt + TAG_LEN"
    using ae ct by (auto simp: aead_correct_def)
  have head: "decode_header bs = Inr (?h, ?n @ ct)"
    unfolding bs using wf size open'(2) frame_type_from_body [of ?b]
    by (intro decode_header_aad) (auto simp: frame_wf_def)
  have "decode_body (fh_frame_type ?h) pt = Inr ?b"
    using wf pt by (intro body.dec_enc) (auto simp: frame_wf_def)
  then have "decode_and_verify ae ?h (?n @ ct) k = Inr ?b"
    using open' by (simp add: decode_and_verify_def Let_def slice_def aead_open_def)
  then show ?thesis by (simp add: frame_decode_def decode_full_def head)
qed

text \<open>
  C26. A well-formed frame survives the wire: encoded under a key it decodes under the same key to
  the same header and body, and the encoding never exceeds the maximal frame size. Well-formed, which
  the encoder does not check, means: a header of the current version and of the body's type, fields
  of their Rust types (texts that are UTF-8, arrays and integers of their sizes), and at most 65535
  bytes of forward padding.
\<close>

theorem frame_roundtrip:
  assumes "aead_correct ae" and "frame_wf f" and "frame_encode ae f k = Inr bs"
  shows "frame_decode ae bs k = Inr f \<and> length bs \<le> MAX_FRAME_SIZE"
proof -
  have "frame_decode ae bs k = Inr f" by (rule frame_decode_encode [OF assms])
  then obtain tail where "decode_header bs = Inr (fr_header f, tail)" by (rule frame_decode_parts)
  from decode_header_ok(6) [OF this] show ?thesis using \<open>frame_decode ae bs k = Inr f\<close> by blast
qed

text \<open>An instance of the hypotheses: a cipher that appends a fixed tag.\<close>

definition tag_aead :: aead where
  "tag_aead = \<lparr>ae_encrypt = (\<lambda>k n a p. Some (p @ replicate 16 7)),
     ae_decrypt = (\<lambda>k n a c. if 16 \<le> length c \<and> drop (length c - 16) c = replicate 16 7 then Some (take (length c - 16) c) else None)\<rparr>"

lemma tag_aead_ok: "aead_correct tag_aead" "aead_tight tag_aead"
  by (auto simp: aead_correct_def aead_tight_def tag_aead_def TAG_LEN_def split: if_splits) (metis append_take_drop_id)

definition demo_frame :: frame where
  "demo_frame = \<lparr>fr_header = \<lparr>fh_frame_type = FRAME_TYPE_CHANNEL_CLOSE, fh_version = FRAME_VERSION,
       fh_channel_id = replicate 16 1, fh_routing_prefix = replicate 16 2, fh_msg_id = 258\<rparr>,
     fr_body = ChannelClose 1 ''bye''\<rparr>"

lemma demo_frame_encodes:
  "frame_wf demo_frame" "frame_encode tag_aead demo_frame k =
     Inr (fh_encode_aad (fr_header demo_frame) @ nonce_for_msg_id 258 @ u16_to_be 1 @ u16_to_be 3 @ str_bytes ''bye'' @ replicate 16 7)"
  by (simp_all add: demo_frame_def frame_wf_def header_wf_def utf8_valid.simps frame_encode_def pack_def
      encode_body_def aead_seal_def tag_aead_def MAX_FRAME_SIZE_def HEADER_LEN_def NONCE_LEN_def)

theorem frame_roundtrip_witness:
  "\<exists>bs. frame_encode tag_aead demo_frame [] = Inr bs \<and> frame_decode tag_aead bs [] = Inr demo_frame"
  using frame_roundtrip [OF tag_aead_ok(1) demo_frame_encodes] demo_frame_encodes(2) by blast

lemma decode_verified:
  assumes ae: "aead_tight ae" and head: "decode_header bs = Inr (h, tail)" and ver: "decode_and_verify ae h tail k = Inr body"
  shows "\<exists>pt ct. bs = fh_encode_aad h @ nonce_for_msg_id (fh_msg_id h) @ ct \<and>
    ae_encrypt ae k (nonce_for_msg_id (fh_msg_id h)) (fh_encode_aad h) pt = Some ct \<and>
    decode_body (fh_frame_type h) pt = Inr body"
proof -
  let ?n = "nonce_for_msg_id (fh_msg_id h)"
  from ver obtain pt where n: "slice 0 NONCE_LEN tail = ?n"
    and pt: "ae_decrypt ae k ?n (fh_encode_aad h) (drop NONCE_LEN tail) = Some pt"
    and body: "decode_body (fh_frame_type h) pt = Inr body"
    by (auto simp: decode_and_verify_def Let_def aead_open_def split: if_splits sum.splits option.splits)
  have "tail = ?n @ drop NONCE_LEN tail" using n by (metis append_take_drop_id diff_zero drop0 slice_def)
  moreover have "ae_encrypt ae k ?n (fh_encode_aad h) pt = Some (drop NONCE_LEN tail)"
    using ae pt by (simp add: aead_tight_def)
  ultimately show ?thesis using body decode_header_ok(1) [OF head] by metis
qed

text \<open>
  C9. Nothing but an encryption is accepted: whenever a byte string decodes, it is exactly the
  encoded header, the nonce derived from the header's message id, and the encryption under the
  receiver's key, that nonce and that header of a plaintext that decodes to the returned body.
  No part of a frame is outside the authenticated encryption.
\<close>

theorem frame_decode_authentic:
  assumes ae: "aead_tight ae" and dec: "frame_decode ae bs k = Inr f"
  shows "\<exists>pt ct. bs = fh_encode_aad (fr_header f) @ nonce_for_msg_id (fh_msg_id (fr_header f)) @ ct \<and>
    ae_encrypt ae k (nonce_for_msg_id (fh_msg_id (fr_header f))) (fh_encode_aad (fr_header f)) pt = Some ct \<and>
    decode_body (fh_frame_type (fr_header f)) pt = Inr (fr_body f) \<and>
    header_wf (fr_header f) \<and> fh_version (fr_header f) = FRAME_VERSION"
proof -
  from dec obtain tail where head: "decode_header bs = Inr (fr_header f, tail)"
    and ver: "decode_and_verify ae (fr_header f) tail k = Inr (fr_body f)"
    by (rule frame_decode_parts)
  from decode_verified [OF ae head ver] decode_header_ok(2,3) [OF head] show ?thesis by metis
qed

theorem frame_decode_authentic_witness:
  "\<exists>pt ct. ae_encrypt tag_aead [] (nonce_for_msg_id 258) (fh_encode_aad (fr_header demo_frame)) pt = Some ct \<and>
     decode_body FRAME_TYPE_CHANNEL_CLOSE pt = Inr (ChannelClose 1 ''bye'')"
proof -
  obtain bs where "frame_encode tag_aead demo_frame [] = Inr bs" using demo_frame_encodes(2) by blast
  then have "frame_decode tag_aead bs [] = Inr demo_frame"
    by (rule frame_decode_encode [OF tag_aead_ok(1) demo_frame_encodes(1)])
  from frame_decode_authentic [OF tag_aead_ok(2) this] show ?thesis by (auto simp: demo_frame_def)
qed

section \<open>Padding\<close>

text \<open>
  Padding hides the payload's length: the padding is shorter than the boundary, and a DATA
  frame whose padding has the computed length occupies a multiple of the boundary on the wire.
\<close>

theorem padded_data_frame_aligned:
  assumes ae: "aead_correct ae" and h: "header_wf h" and "0 < boundary"
    and pad: "length q = padding_length (length p) boundary"
    and ok: "pack ae h (Data p q) k = Inr bs"
  shows "boundary dvd length bs \<and> length q < boundary"
proof -
  obtain ct where ct: "ae_encrypt ae k (nonce_for_msg_id (fh_msg_id h)) (fh_encode_aad h)
      (u16_to_be (of_nat (length p)) @ p @ u16_to_be (of_nat (length q)) @ q) = Some ct"
    and bs: "bs = fh_encode_aad h @ nonce_for_msg_id (fh_msg_id h) @ ct"
    using ok by (auto simp: pack_def Let_def encode_body_def aead_seal_def split: option.splits if_splits)
  have "length ct = 4 + length p + length q + TAG_LEN" using ae ct by (force simp: aead_correct_def)
  then have len: "length bs = FRAME_OVERHEAD_BYTES + length p + length q"
    using bs h by (simp add: aad_length FRAME_OVERHEAD_BYTES_def HEADER_LEN_def NONCE_LEN_def TAG_LEN_def)
  let ?t = "FRAME_OVERHEAD_BYTES + length p"
  have "?t mod boundary < boundary" using assms(3) by simp
  moreover have "boundary dvd ?t + (boundary - ?t mod boundary)"
  proof -
    have "?t + (boundary - ?t mod boundary) = (?t - ?t mod boundary) + boundary"
      using \<open>?t mod boundary < boundary\<close> mod_less_eq_dividend [of ?t boundary] by linarith
    moreover have "boundary dvd ?t - ?t mod boundary" by (rule dvd_minus_mod)
    ultimately show ?thesis by (metis dvd_add dvd_refl)
  qed
  ultimately show ?thesis
  proof (cases "?t mod boundary = 0")
    case True
    then have "length q = 0" using pad by (simp add: padding_length_def)
    with True show ?thesis using len assms(3) by (metis add_0_right mod_0_imp_dvd)
  next
    case False
    then have q: "length q = boundary - ?t mod boundary" using pad by (simp only: padding_length_def Let_def if_False)
    then have "length q < boundary" using False assms(3) by simp
    with \<open>boundary dvd ?t + (boundary - ?t mod boundary)\<close> show ?thesis unfolding len q by blast
  qed
qed

theorem padded_data_frame_aligned_witness:
  "\<exists>bs. pack tag_aead (fr_header demo_frame) (Data [1, 2, 3] (replicate 51 0)) [] = Inr bs \<and> 64 dvd length bs"
proof -
  have pad: "length (replicate 51 (0::byte)) = padding_length (length [1, 2, 3 :: byte]) 64"
    by (simp add: padding_length_def FRAME_OVERHEAD_BYTES_def)
  obtain bs where ok: "pack tag_aead (fr_header demo_frame) (Data [1, 2, 3] (replicate 51 0)) [] = Inr bs"
    by (simp add: pack_def encode_body_def aead_seal_def tag_aead_def MAX_FRAME_SIZE_def HEADER_LEN_def NONCE_LEN_def)
  have "header_wf (fr_header demo_frame)" by (simp add: demo_frame_def header_wf_def)
  from padded_data_frame_aligned [OF tag_aead_ok(1) this _ pad ok] ok show ?thesis by auto
qed

text \<open>
  The padding of a forwarded frame is the one length that is not checked: 65536 bytes of
  padding are encoded with the length field 0, and the receiver decodes a frame without padding.
\<close>

theorem data_forward_padding_wraps:
  assumes "length j \<le> 4294967295" "length e \<le> 65535" "utf8_valid (str_bytes e)" "length q = 65536"
  shows "\<exists>pt. encode_body (DataForward j e q) = Inr pt \<and>
    decode_body FRAME_TYPE_DATA_FORWARD pt = Inr (DataForward j e []) \<and> DataForward j e q \<noteq> DataForward j e []"
proof -
  have wrap: "(of_nat (length q) :: u16) = 0" using assms(4) by (simp add: word_eq_iff_unsigned unsigned_of_nat)
  let ?pt = "u32_to_be (of_nat (length j)) @ j @ u16_to_be (of_nat (length e)) @ str_bytes e @ u16_to_be 0 @ q"
  let ?a = "4 + length j"
  let ?b = "?a + 2 + length e"
  have "slice 0 4 ?pt = u32_to_be (of_nat (length j))" by (simp add: slice_def)
  moreover have "[?pt ! ?a, ?pt ! (?a + 1)] = u16_to_be (of_nat (length e))"
    using pair_slice [of ?a ?pt] by (simp add: slice_def)
  moreover have "slice (?a + 2) ?b ?pt = str_bytes e" by (simp add: slice_def)
  moreover have "[?pt ! ?b, ?pt ! (?b + 1)] = u16_to_be 0"
    using pair_slice [of ?b ?pt] by (simp add: slice_def)
  moreover have "slice 4 ?a ?pt = j" by (simp add: slice_def)
  moreover have "slice (?b + 2) (?b + 2 + 0) ?pt = []" by (simp add: slice_def)
  ultimately have "decode_data_forward_body ?pt = Inr (DataForward j e [])"
    using assms unfolding decode_data_forward_body_def Let_def
    by (simp add: unat_u16_len unat_u32_len from_utf8_str_bytes)
  moreover have "encode_body (DataForward j e q) = Inr ?pt"
    using assms wrap by (simp only: encode_body_def frame_body.case) simp
  moreover have "q \<noteq> []" using assms(4) by auto
  ultimately show ?thesis by (auto simp: decode_body_def)
qed

theorem data_forward_padding_wraps_witness:
  "\<exists>pt. encode_body (DataForward [1] ''ws'' (replicate 65536 0)) = Inr pt \<and>
     decode_body FRAME_TYPE_DATA_FORWARD pt = Inr (DataForward [1] ''ws'' [])"
  using data_forward_padding_wraps [of "[1]" "''ws''" "replicate 65536 0"] by (auto simp: utf8_valid.simps)

end
