(* ===== verification/Dcx_Channel.thy ===== *)
theory Dcx_Channel
  imports Dcx_Frame
begin

text \<open>
  DCX channels: \<open>didcomm/src/dcx/channel/\<close> (state, persistence, manager), \<open>crypto/kdf.rs\<close>,
  \<open>routing.rs\<close>, \<open>session.rs\<close> and the channel and provider errors of \<open>errors.rs\<close>. SHA-256,
  HKDF and X25519 are crates, the fields of \<open>crypto_suite\<close>; the counter store is
  implemented by the hosting agent, and is here the durable map its trait documents. A channel
  behind an \<open>Arc<Mutex<..>>\<close> is a cell of the manager's heap: two handles may share a cell,
  and a replaced channel lives on in its cell.
\<close>

datatype channel_error =
    UnknownChannel bytes | Replay u64 u64 | FlowViolation u32 | DowngradeDetected | InvalidTransition string

datatype provider_error =
    NoSession string | HandshakeTimeout | HandshakeRejected string | LowOrderX25519 | Internal string
  | NotImplemented string

section \<open>Key derivation and identifiers\<close>

record crypto_suite =
  cs_sha256 :: "bytes \<Rightarrow> bytes"
  cs_hkdf :: "bytes option \<Rightarrow> bytes \<Rightarrow> bytes \<Rightarrow> nat \<Rightarrow> bytes"
  cs_dh :: "bytes \<Rightarrow> bytes \<Rightarrow> bytes"

record directional_keys =
  dk_send :: bytes
  dk_recv :: bytes

text \<open>HKDF-SHA256 refuses only outputs of more than \<open>255 * 32\<close> bytes, so the \<open>expect\<close> never panics.\<close>

definition hkdf_expand :: "crypto_suite \<Rightarrow> bytes option \<Rightarrow> bytes \<Rightarrow> string \<Rightarrow> nat \<Rightarrow> bytes option" where
  "hkdf_expand cs salt ikm info n = (if n > 255 * 32 then None else Some (cs_hkdf cs salt ikm (str_bytes info) n))"

definition hkdf_expand32 :: "crypto_suite \<Rightarrow> bytes \<Rightarrow> string \<Rightarrow> bytes" where
  "hkdf_expand32 cs ikm info = the (hkdf_expand cs None ikm info 32)"

definition derive_directional_keys :: "crypto_suite \<Rightarrow> bytes \<Rightarrow> bool \<Rightarrow> directional_keys" where
  "derive_directional_keys cs kek is_initiator =
     (if is_initiator
      then \<lparr>dk_send = hkdf_expand32 cs kek ''dcx/1.0/initiator-out'', dk_recv = hkdf_expand32 cs kek ''dcx/1.0/initiator-in''\<rparr>
      else \<lparr>dk_send = hkdf_expand32 cs kek ''dcx/1.0/initiator-in'', dk_recv = hkdf_expand32 cs kek ''dcx/1.0/initiator-out''\<rparr>)"

definition derive_routing_prefix :: "crypto_suite \<Rightarrow> string \<Rightarrow> bytes" where
  "derive_routing_prefix cs kid = take 16 (cs_sha256 cs (str_bytes kid))"

definition derive_channel_id :: "crypto_suite \<Rightarrow> string \<Rightarrow> string \<Rightarrow> u32 \<Rightarrow> bytes" where
  "derive_channel_id cs provider_id connection_id generation =
     take 16 (cs_sha256 cs (str_bytes ''dcx/1.0/channel_id'' @ str_bytes provider_id @ str_bytes connection_id @
                u32_to_be generation))"

record session_keys =
  sk_kek :: bytes
  sk_auth_key :: bytes
  sk_generation :: u32
  sk_peer_kid :: string
  sk_connection_id :: string
  sk_is_initiator :: bool

datatype session_event =
    Established string u32 string
  | Rotated string u32 u32
  | Closed string string

section \<open>A channel\<close>

datatype channel_state =
  Inactive | Establishing | ActiveUnconfirmed | AwaitingConfirm | Confirmed | Rotating | Upgrading

record channel =
  ch_channel_id :: bytes
  ch_connection_id :: string
  ch_peer_did :: string
  ch_peer_kid :: string
  ch_peer_routing_prefix :: bytes
  ch_provider_id :: string
  ch_generation :: u32
  ch_k_send :: bytes
  ch_k_recv :: bytes
  ch_auth_key :: bytes
  ch_msg_id_send :: u64
  ch_send_reserved :: u64
  ch_msg_id_recv :: u64
  ch_received_any :: bool
  ch_state :: channel_state

definition ch_from_session_keys :: "crypto_suite \<Rightarrow> session_keys \<Rightarrow> string \<Rightarrow> string \<Rightarrow> bool \<Rightarrow> channel" where
  "ch_from_session_keys cs session peer_did provider_id is_initiator =
     (let dir = derive_directional_keys cs (sk_kek session) is_initiator
      in \<lparr>ch_channel_id = derive_channel_id cs provider_id (sk_connection_id session) (sk_generation session),
          ch_connection_id = sk_connection_id session, ch_peer_did = peer_did,
          ch_peer_kid = sk_peer_kid session, ch_peer_routing_prefix = derive_routing_prefix cs (sk_peer_kid session),
          ch_provider_id = provider_id, ch_generation = sk_generation session,
          ch_k_send = dk_send dir, ch_k_recv = dk_recv dir, ch_auth_key = sk_auth_key session,
          ch_msg_id_send = 0, ch_send_reserved = 0, ch_msg_id_recv = 0, ch_received_any = False,
          ch_state = ActiveUnconfirmed\<rparr>)"

record persisted_counters =
  pc_send_reserved :: u64
  pc_msg_id_recv :: u64
  pc_received_any :: bool

definition pc_default :: persisted_counters where
  "pc_default = \<lparr>pc_send_reserved = 0, pc_msg_id_recv = 0, pc_received_any = False\<rparr>"

definition ch_resume ::
  "crypto_suite \<Rightarrow> session_keys \<Rightarrow> string \<Rightarrow> string \<Rightarrow> bool \<Rightarrow> persisted_counters \<Rightarrow> channel" where
  "ch_resume cs session peer_did provider_id is_initiator persisted =
     (ch_from_session_keys cs session peer_did provider_id is_initiator)
       \<lparr>ch_send_reserved := pc_send_reserved persisted, ch_msg_id_send := pc_send_reserved persisted,
        ch_msg_id_recv := pc_msg_id_recv persisted, ch_received_any := pc_received_any persisted\<rparr>"

definition saturating_add :: "u64 \<Rightarrow> u64 \<Rightarrow> u64" where
  "saturating_add a b = (if unat a + unat b < 2 ^ 64 then a + b else - 1)"

definition ch_needs_send_reservation :: "channel \<Rightarrow> bool" where
  "ch_needs_send_reservation c \<longleftrightarrow> ch_msg_id_send c \<ge> ch_send_reserved c"

definition ch_reserve_send :: "u64 \<Rightarrow> channel \<Rightarrow> channel \<times> u64" where
  "ch_reserve_send batch c =
     (let c' = c\<lparr>ch_send_reserved := saturating_add (ch_msg_id_send c) (max batch 1)\<rparr> in (c', ch_send_reserved c'))"

definition ch_next_send_msg_id :: "channel \<Rightarrow> channel \<times> u64" where
  "ch_next_send_msg_id c = (c\<lparr>ch_msg_id_send := saturating_add (ch_msg_id_send c) 1\<rparr>, ch_msg_id_send c)"

definition ch_observe_recv :: "u64 \<Rightarrow> channel \<Rightarrow> channel_error + channel" where
  "ch_observe_recv msg_id c =
     (if ch_received_any c \<and> msg_id \<le> ch_msg_id_recv c then Inl (Replay msg_id (ch_msg_id_recv c))
      else Inr (c\<lparr>ch_msg_id_recv := msg_id, ch_received_any := True\<rparr>))"

definition ch_set_state :: "channel_state \<Rightarrow> channel \<Rightarrow> channel_error + channel" where
  "ch_set_state s c = Inr (c\<lparr>ch_state := s\<rparr>)"

section \<open>The durable counters\<close>

definition SEND_RESERVATION_BATCH :: u64 where "SEND_RESERVATION_BATCH = 1024"

type_synonym counter_store = "(bytes, persisted_counters) hash_map"

definition store_load :: "counter_store \<Rightarrow> bytes \<Rightarrow> persisted_counters option" where
  "store_load s cid = hm_get s cid"

definition store_get :: "counter_store \<Rightarrow> bytes \<Rightarrow> persisted_counters" where
  "store_get s cid = (case hm_get s cid of None \<Rightarrow> pc_default | Some p \<Rightarrow> p)"

definition store_save_send_reserved :: "bytes \<Rightarrow> u64 \<Rightarrow> counter_store \<Rightarrow> counter_store" where
  "store_save_send_reserved cid r s = hm_insert cid ((store_get s cid)\<lparr>pc_send_reserved := r\<rparr>) s"

definition store_save_recv :: "bytes \<Rightarrow> u64 \<Rightarrow> counter_store \<Rightarrow> counter_store" where
  "store_save_recv cid r s =
     (let p = store_get s cid
      in hm_insert cid (p\<lparr>pc_msg_id_recv := (if pc_received_any p then max (pc_msg_id_recv p) r else r),
                         pc_received_any := True\<rparr>) s)"

section \<open>The channel manager\<close>

record channel_manager =
  cm_heap :: "(nat, channel) hash_map"
  cm_next :: nat
  cm_by_channel_id :: "(bytes, nat) hash_map"
  cm_by_peer_did :: "(string, bytes) hash_map"
  cm_by_routing_prefix :: "(bytes, bytes) hash_map"

definition cm_new :: channel_manager where
  "cm_new = \<lparr>cm_heap = [], cm_next = 0, cm_by_channel_id = [], cm_by_peer_did = [], cm_by_routing_prefix = []\<rparr>"

definition cm_insert :: "channel \<Rightarrow> channel_manager \<Rightarrow> channel_manager" where
  "cm_insert c m =
     (let arc = cm_next m
      in m\<lparr>cm_heap := hm_insert arc c (cm_heap m), cm_next := arc + 1,
           cm_by_channel_id := hm_insert (ch_channel_id c) arc (cm_by_channel_id m),
           cm_by_peer_did := hm_insert (ch_peer_did c) (ch_channel_id c) (cm_by_peer_did m),
           cm_by_routing_prefix := hm_insert (ch_peer_routing_prefix c) (ch_channel_id c) (cm_by_routing_prefix m)\<rparr>)"

definition cm_get_by_channel_id :: "channel_manager \<Rightarrow> bytes \<Rightarrow> nat option" where
  "cm_get_by_channel_id m cid = hm_get (cm_by_channel_id m) cid"

definition cm_get_by_peer_did :: "channel_manager \<Rightarrow> string \<Rightarrow> nat option" where
  "cm_get_by_peer_did m did =
     (case hm_get (cm_by_peer_did m) did of None \<Rightarrow> None | Some cid \<Rightarrow> hm_get (cm_by_channel_id m) cid)"

definition cm_get_by_routing_prefix :: "channel_manager \<Rightarrow> bytes \<Rightarrow> nat option" where
  "cm_get_by_routing_prefix m prefix =
     (case hm_get (cm_by_routing_prefix m) prefix of None \<Rightarrow> None | Some cid \<Rightarrow> hm_get (cm_by_channel_id m) cid)"

definition cm_remove :: "bytes \<Rightarrow> channel_manager \<Rightarrow> channel_manager" where
  "cm_remove cid m =
     (case hm_get (cm_by_channel_id m) cid of
        None \<Rightarrow> m
      | Some arc \<Rightarrow>
          let m = m\<lparr>cm_by_channel_id := hm_remove cid (cm_by_channel_id m)\<rparr>
          in (case hm_get (cm_heap m) arc of
                None \<Rightarrow> m
              | Some ch \<Rightarrow>
                  m\<lparr>cm_by_peer_did := hm_remove (ch_peer_did ch) (cm_by_peer_did m),
                    cm_by_routing_prefix := hm_remove (ch_peer_routing_prefix ch) (cm_by_routing_prefix m)\<rparr>))"

definition cm_len :: "channel_manager \<Rightarrow> nat" where
  "cm_len m = length (cm_by_channel_id m)"

definition cm_is_empty :: "channel_manager \<Rightarrow> bool" where
  "cm_is_empty m \<longleftrightarrow> cm_by_channel_id m = []"

text \<open>The channel in a cell, and writing back what a holder of its lock changed.\<close>

definition cm_cell :: "channel_manager \<Rightarrow> nat \<Rightarrow> channel option" where
  "cm_cell m arc = hm_get (cm_heap m) arc"

definition cm_write :: "nat \<Rightarrow> channel \<Rightarrow> channel_manager \<Rightarrow> channel_manager" where
  "cm_write arc c m = m\<lparr>cm_heap := hm_insert arc c (cm_heap m)\<rparr>"

section \<open>Receiving\<close>

text \<open>The message ids of a list that a channel accepts when they arrive one after the other.\<close>

fun ch_observe_all :: "u64 list \<Rightarrow> channel \<Rightarrow> channel \<times> u64 list" where
  "ch_observe_all [] c = (c, [])"
| "ch_observe_all (i # is) c =
     (case ch_observe_recv i c of
        Inl _ \<Rightarrow> ch_observe_all is c
      | Inr c' \<Rightarrow> let (c'', acc) = ch_observe_all is c' in (c'', i # acc))"

lemma ch_observe_all_above:
  "ch_observe_all is c = (c', acc) \<Longrightarrow>
     sorted_wrt (<) acc \<and> (ch_received_any c \<longrightarrow> (\<forall>i\<in>set acc. ch_msg_id_recv c < i))"
proof (induction "is" arbitrary: c c' acc)
  case (Cons i "is")
  show ?case
  proof (cases "ch_observe_recv i c")
    case (Inl e)
    with Cons show ?thesis by auto
  next
    case (Inr d)
    obtain acc' where rest: "ch_observe_all is d = (c', acc')" and acc: "acc = i # acc'"
      using Cons.prems Inr by (auto split: prod.splits)
    have d: "ch_msg_id_recv d = i" "ch_received_any d" "ch_received_any c \<longrightarrow> ch_msg_id_recv c < i"
      using Inr by (auto simp: ch_observe_recv_def split: if_splits)
    have "sorted_wrt (<) acc'" "\<forall>j\<in>set acc'. i < j" using Cons.IH [OF rest] d(1,2) by auto
    with acc d(3) show ?thesis by auto
  qed
qed simp

text \<open>
  C15. Replay protection of a channel: whatever message ids arrive, and in whatever order, the
  accepted ones are strictly increasing, so none is accepted twice, and on a resumed channel
  all of them lie above the stored mark.
\<close>

theorem ch_no_replay:
  "sorted_wrt (<) (snd (ch_observe_all is c)) \<and> distinct (snd (ch_observe_all is c)) \<and>
   \<not> (ch_received_any c \<and> (\<exists>i\<in>set (snd (ch_observe_all is c)). i \<le> ch_msg_id_recv c))"
proof -
  obtain c' acc where run: "ch_observe_all is c = (c', acc)" by (cases "ch_observe_all is c")
  have above: "sorted_wrt (<) acc" "ch_received_any c \<longrightarrow> (\<forall>i\<in>set acc. ch_msg_id_recv c < i)"
    using ch_observe_all_above [OF run] by auto
  have "distinct acc" using above(1) by (simp add: strict_sorted_iff)
  with above run show ?thesis by (auto simp: not_le)
qed

text \<open>An arriving id above the mark is accepted: the protection does not refuse fresh frames.\<close>

lemma ch_observe_fresh: "ch_received_any c \<longrightarrow> ch_msg_id_recv c < i \<Longrightarrow> \<exists>c'. ch_observe_recv i c = Inr c'"
  by (auto simp: ch_observe_recv_def)

section \<open>Keys of the two ends\<close>

lemma directional_keys_mirror:
  "dk_send (derive_directional_keys cs kek b) = dk_recv (derive_directional_keys cs kek (\<not> b))"
  "dk_recv (derive_directional_keys cs kek b) = dk_send (derive_directional_keys cs kek (\<not> b))"
  by (simp_all add: derive_directional_keys_def)

section \<open>The manager's indices\<close>

lemma cm_insert_lookup:
  "cm_get_by_channel_id (cm_insert c m) (ch_channel_id c) = Some (cm_next m)"
  "cm_get_by_peer_did (cm_insert c m) (ch_peer_did c) = Some (cm_next m)"
  "cm_get_by_routing_prefix (cm_insert c m) (ch_peer_routing_prefix c) = Some (cm_next m)"
  "cm_cell (cm_insert c m) (cm_next m) = Some c"
  by (simp_all add: cm_insert_def Let_def cm_get_by_channel_id_def cm_get_by_peer_did_def
      cm_get_by_routing_prefix_def cm_cell_def)

text \<open>
  Removing a superseded channel cuts off its successor: when a peer has a newer channel, with
  another channel id, the removal of the older one also deletes the peer's and the prefix's index
  entries, so the newer channel is still registered but no longer found by peer or prefix.
\<close>

theorem cm_remove_drops_newer:
  assumes "ch_peer_did old = ch_peer_did new" "ch_peer_routing_prefix old = ch_peer_routing_prefix new"
    and "ch_channel_id old \<noteq> ch_channel_id new"
  shows "let m' = cm_remove (ch_channel_id old) (cm_insert new (cm_insert old m))
    in cm_get_by_channel_id m' (ch_channel_id new) = Some (cm_next m + 1) \<and>
       cm_get_by_peer_did m' (ch_peer_did new) = None \<and>
       cm_get_by_routing_prefix m' (ch_peer_routing_prefix new) = None"
  using assms
  by (simp add: cm_insert_def cm_remove_def Let_def cm_get_by_channel_id_def cm_get_by_peer_did_def
      cm_get_by_routing_prefix_def)

definition demo_suite :: crypto_suite where
  "demo_suite = \<lparr>cs_sha256 = (\<lambda>bs. take 32 (rev bs @ replicate 32 0)),
     cs_hkdf = (\<lambda>salt ikm info n. take n (rev info @ ikm @ replicate n 0)),
     cs_dh = (\<lambda>s p. map2 (\<lambda>a b. a + b) s p)\<rparr>"

definition demo_session :: "u32 \<Rightarrow> session_keys" where
  "demo_session gen = \<lparr>sk_kek = replicate 32 5, sk_auth_key = replicate 32 6, sk_generation = gen,
     sk_peer_kid = ''kid'', sk_connection_id = ''conn'', sk_is_initiator = True\<rparr>"

lemma demo_channel_id: "hd (derive_channel_id demo_suite p c g) = of_nat (unat g)"
proof -
  have four: "(4::nat) = Suc (Suc (Suc (Suc 0)))" by simp
  obtain a b d where "u32_to_be g = [a, b, d, of_nat (unat g)]"
    by (simp add: u32_to_be_def four del: Suc_eq_numeral)
  then show ?thesis by (simp add: derive_channel_id_def demo_suite_def)
qed

theorem cm_remove_drops_newer_witness:
  "let old = ch_from_session_keys demo_suite (demo_session 0) ''did:p'' ''c'' True;
       new = ch_from_session_keys demo_suite (demo_session 1) ''did:p'' ''c'' True;
       m' = cm_remove (ch_channel_id old) (cm_insert new (cm_insert old cm_new))
   in cm_get_by_channel_id m' (ch_channel_id new) = Some 1 \<and> cm_get_by_peer_did m' ''did:p'' = None"
proof -
  let ?old = "ch_from_session_keys demo_suite (demo_session 0) ''did:p'' ''c'' True"
  let ?new = "ch_from_session_keys demo_suite (demo_session 1) ''did:p'' ''c'' True"
  have "hd (ch_channel_id ?old) = 0" "hd (ch_channel_id ?new) = 1"
    by (simp_all add: ch_from_session_keys_def Let_def demo_channel_id demo_session_def)
  then have "ch_channel_id ?old \<noteq> ch_channel_id ?new" by auto
  moreover have "ch_peer_did ?old = ''did:p''" "ch_peer_did ?new = ''did:p''"
    "ch_peer_routing_prefix ?old = ch_peer_routing_prefix ?new"
    by (simp_all add: ch_from_session_keys_def Let_def demo_session_def)
  ultimately show ?thesis
    using cm_remove_drops_newer [of ?old ?new cm_new] by (simp add: Let_def cm_new_def)
qed

section \<open>The manager's invariant\<close>

text \<open>Every registered id resolves to a cell that holds a channel of that id.\<close>

definition cm_inv :: "channel_manager \<Rightarrow> bool" where
  "cm_inv m \<longleftrightarrow>
     (\<forall>cid arc. cm_get_by_channel_id m cid = Some arc \<longrightarrow>
        arc < cm_next m \<and> (\<exists>c. cm_cell m arc = Some c \<and> ch_channel_id c = cid))"

definition cm_channel :: "channel_manager \<Rightarrow> bytes \<Rightarrow> channel option" where
  "cm_channel m cid = (case cm_get_by_channel_id m cid of None \<Rightarrow> None | Some arc \<Rightarrow> cm_cell m arc)"

lemmas cm_defs = cm_insert_def cm_remove_def cm_get_by_channel_id_def cm_get_by_peer_did_def
  cm_get_by_routing_prefix_def cm_cell_def cm_write_def cm_channel_def

lemma cm_inv_new: "cm_inv cm_new"
  by (simp add: cm_inv_def cm_new_def cm_get_by_channel_id_def)

lemma cm_inv_insert: "cm_inv m \<Longrightarrow> cm_inv (cm_insert c m)"
  by (fastforce simp: cm_inv_def cm_defs Let_def)

lemma cm_inv_remove: "cm_inv m \<Longrightarrow> cm_inv (cm_remove cid m)"
  by (fastforce simp: cm_inv_def cm_defs Let_def split: option.splits if_splits)

lemma cm_inv_write:
  assumes "cm_inv m" and "cm_get_by_channel_id m (ch_channel_id c) = Some arc"
  shows "cm_inv (cm_write arc c m)"
  unfolding cm_inv_def
proof (intro allI impI)
  fix cid a
  assume reg: "cm_get_by_channel_id (cm_write arc c m) cid = Some a"
  then have reg': "cm_get_by_channel_id m cid = Some a" by (simp add: cm_defs)
  then obtain d where d: "a < cm_next m" "cm_cell m a = Some d" "ch_channel_id d = cid"
    using assms(1) by (auto simp: cm_inv_def)
  show "a < cm_next (cm_write arc c m) \<and> (\<exists>c'. cm_cell (cm_write arc c m) a = Some c' \<and> ch_channel_id c' = cid)"
  proof (cases "a = arc")
    case True
    obtain e where "cm_cell m arc = Some e" "ch_channel_id e = ch_channel_id c" using assms by (auto simp: cm_inv_def)
    with True d show ?thesis by (simp add: cm_defs)
  next
    case False
    with d show ?thesis by (simp add: cm_defs)
  qed
qed

lemma cm_channel_new [simp]: "cm_channel cm_new cid = None"
  by (simp add: cm_new_def cm_defs)

lemma cm_channel_insert:
  assumes "cm_inv m"
  shows "cm_channel (cm_insert c m) cid = (if cid = ch_channel_id c then Some c else cm_channel m cid)"
  using assms by (auto simp: cm_inv_def cm_defs Let_def split: option.splits)

lemma cm_channel_remove:
  "cm_channel (cm_remove cid' m) cid = (if cid = cid' then None else cm_channel m cid)"
  by (auto simp: cm_defs Let_def split: option.splits)

lemma cm_channel_write:
  assumes "cm_inv m" and "cm_get_by_channel_id m (ch_channel_id c) = Some arc"
  shows "cm_channel (cm_write arc c m) cid = (if cid = ch_channel_id c then Some c else cm_channel m cid)"
proof (cases "cm_get_by_channel_id m cid")
  case None
  with assms(2) show ?thesis by (auto simp: cm_defs)
next
  case (Some a)
  have "a = arc \<longleftrightarrow> cid = ch_channel_id c"
  proof
    assume "a = arc"
    then show "cid = ch_channel_id c" using assms Some unfolding cm_inv_def by (metis option.inject)
  next
    assume "cid = ch_channel_id c"
    then show "a = arc" using assms(2) Some by simp
  qed
  with Some show ?thesis by (auto simp: cm_defs)
qed

lemma cm_by_peer_registered:
  assumes "cm_inv m" and "cm_get_by_peer_did m d = Some arc"
  obtains c where "cm_cell m arc = Some c" "cm_get_by_channel_id m (ch_channel_id c) = Some arc"
  using assms by (auto simp: cm_inv_def cm_defs split: option.splits)

lemma cm_channel_registered:
  assumes "cm_inv m" and "cm_get_by_channel_id m (ch_channel_id c) = Some arc" and "cm_cell m arc = Some c"
  shows "cm_channel m (ch_channel_id c) = Some c"
  using assms by (simp add: cm_channel_def)

end
