(* ===== verification/Dcx_Provider.thy ===== *)
theory Dcx_Provider
  imports Dcx_Channel
begin

text \<open>
  Session key providers: the trait \<open>SessionKeyProvider\<close> of \<open>didcomm/src/dcx/session.rs\<close>, a record
  of the operations the transports call through \<open>dyn\<close> dispatch, and the classical provider of
  \<open>providers/classical.rs\<close>. The locale \<open>session_provider\<close> states what the transports rely on; the
  classical provider is its interpretation.
\<close>

record 'p key_provider =
  kp_provider_id :: string
  kp_get_keys :: "'p \<Rightarrow> string \<Rightarrow> session_keys option"
  kp_establish :: "'p \<Rightarrow> string \<Rightarrow> 'p \<times> (provider_error + session_keys)"

section \<open>The classical provider\<close>

definition PROVIDER_ID :: string where "PROVIDER_ID = ''classical-x25519/1.0''"
definition PROVIDER_STRENGTH :: u32 where "PROVIDER_STRENGTH = 10"

record key_material =
  km_our_x25519_secret :: bytes
  km_peer_x25519_public :: bytes
  km_our_did :: string
  km_peer_did :: string
  km_peer_kid :: string
  km_connection_id :: string

text \<open>\<open>cp_events\<close> lists what the broadcast channel was given, in order.\<close>

record classical_provider =
  cp_sessions :: "(string, session_keys) hash_map"
  cp_pending :: "(string, key_material) hash_map"
  cp_events :: "session_event list"

definition cp_new :: classical_provider where
  "cp_new = \<lparr>cp_sessions = [], cp_pending = [], cp_events = []\<rparr>"

definition cp_register_peer_material :: "key_material \<Rightarrow> classical_provider \<Rightarrow> classical_provider" where
  "cp_register_peer_material material p = p\<lparr>cp_pending := hm_insert (km_peer_did material) material (cp_pending p)\<rparr>"

definition cp_derive_keys :: "crypto_suite \<Rightarrow> bytes \<Rightarrow> string \<Rightarrow> string \<Rightarrow> provider_error + (bytes \<times> bytes)" where
  "cp_derive_keys cs shared_secret our_did peer_did =
     (if list_all (\<lambda>b. b = 0) shared_secret then Inl LowOrderX25519
      else let (a, b) = (if our_did \<le> peer_did then (our_did, peer_did) else (peer_did, our_did));
               salt = cs_sha256 cs (str_bytes ''dcx/1.0/classical-x25519'' @ str_bytes a @ str_bytes b)
           in case hkdf_expand cs (Some salt) shared_secret ''dcx/1.0/classical-x25519/v1'' 96 of
                None \<Rightarrow> Inl (Internal ''HKDF expand: '')
              | Some km \<Rightarrow> Inr (slice 0 32 km, slice 32 64 km))"

definition cp_get_keys :: "classical_provider \<Rightarrow> string \<Rightarrow> session_keys option" where
  "cp_get_keys p peer_did = hm_get (cp_sessions p) peer_did"

definition cp_establish ::
  "crypto_suite \<Rightarrow> classical_provider \<Rightarrow> string \<Rightarrow> classical_provider \<times> (provider_error + session_keys)" where
  "cp_establish cs p peer_did =
     (case hm_get (cp_sessions p) peer_did of
        Some existing \<Rightarrow> (p, Inr existing)
      | None \<Rightarrow>
          (case hm_get (cp_pending p) peer_did of
             None \<Rightarrow> (p, Inl (NoSession peer_did))
           | Some material \<Rightarrow>
               let shared = cs_dh cs (km_our_x25519_secret material) (km_peer_x25519_public material)
               in case cp_derive_keys cs shared (km_our_did material) (km_peer_did material) of
                    Inl e \<Rightarrow> (p, Inl e)
                  | Inr (kek, auth_key) \<Rightarrow>
                      let session = \<lparr>sk_kek = kek, sk_auth_key = auth_key, sk_generation = 0,
                            sk_peer_kid = km_peer_kid material, sk_connection_id = km_connection_id material,
                            sk_is_initiator = (km_our_did material < km_peer_did material)\<rparr>
                      in (p\<lparr>cp_sessions := hm_insert peer_did session (cp_sessions p),
                            cp_events := cp_events p @ [Established peer_did 0 PROVIDER_ID]\<rparr>, Inr session)))"

definition cp_rotate :: "classical_provider \<Rightarrow> string \<Rightarrow> provider_error + session_keys" where
  "cp_rotate p peer_did = Inl (NotImplemented (''classical-x25519 rotation for '' @ peer_did))"

definition cp_close :: "string \<Rightarrow> classical_provider \<Rightarrow> classical_provider \<times> (provider_error + unit)" where
  "cp_close peer_did p =
     (if hm_contains (cp_sessions p) peer_did
      then (p\<lparr>cp_sessions := hm_remove peer_did (cp_sessions p),
              cp_events := cp_events p @ [Closed peer_did ''user-requested'']\<rparr>, Inr ())
      else (p, Inr ()))"

definition classical :: "crypto_suite \<Rightarrow> classical_provider key_provider" where
  "classical cs = \<lparr>kp_provider_id = PROVIDER_ID, kp_get_keys = cp_get_keys, kp_establish = cp_establish cs\<rparr>"

section \<open>The contract of a provider\<close>

text \<open>
  A session once established is what later calls return, establishing it again changes nothing,
  a failed call changes nothing, and the sessions of other peers are left alone.
\<close>

locale session_provider =
  fixes get_keys :: "'p \<Rightarrow> string \<Rightarrow> session_keys option"
    and establish :: "'p \<Rightarrow> string \<Rightarrow> 'p \<times> (provider_error + session_keys)"
  assumes establish_stores: "establish p d = (p', Inr k) \<Longrightarrow> get_keys p' d = Some k"
    and establish_existing: "get_keys p d = Some k \<Longrightarrow> establish p d = (p, Inr k)"
    and establish_error: "establish p d = (p', Inl e) \<Longrightarrow> p' = p"
    and establish_frame: "establish p d = (p', r) \<Longrightarrow> d' \<noteq> d \<Longrightarrow> get_keys p' d' = get_keys p d'"
begin

lemma establish_again: "establish p d = (p', Inr k) \<Longrightarrow> establish p' d = (p', Inr k)"
  by (rule establish_existing) (rule establish_stores)

lemma establish_keeps:
  assumes "get_keys p d = Some k" and "establish p d' = (p', r)"
  shows "get_keys p' d = Some k"
proof (cases "d' = d")
  case True
  with assms establish_existing [of p d k] show ?thesis by simp
next
  case False
  with assms establish_frame show ?thesis by metis
qed

text \<open>Whatever peers are contacted in between, the keys of an established session stay.\<close>

lemma establish_many_keep:
  "get_keys p d = Some k \<Longrightarrow> get_keys (fold (\<lambda>d' p. fst (establish p d')) ds p) d = Some k"
proof (induction ds arbitrary: p)
  case (Cons d' ds)
  obtain p' r where est: "establish p d' = (p', r)" by (cases "establish p d'")
  show ?case using Cons.IH [OF establish_keeps [OF Cons.prems est]] est by simp
qed simp

end

lemma cp_establish_cases:
  assumes "cp_establish cs p d = (p', r)"
  shows "p' = p \<and> (case r of Inl _ \<Rightarrow> True | Inr k \<Rightarrow> cp_get_keys p d = Some k) \<or>
    (\<exists>k. r = Inr k \<and> cp_get_keys p d = None \<and>
       p' = p\<lparr>cp_sessions := hm_insert d k (cp_sessions p), cp_events := cp_events p @ [Established d 0 PROVIDER_ID]\<rparr>)"
proof (cases "hm_get (cp_sessions p) d")
  case (Some k)
  with assms have "p' = p" "r = Inr k" by (auto simp: cp_establish_def)
  with Some show ?thesis by (simp add: cp_get_keys_def)
next
  case none: None
  show ?thesis
  proof (cases "hm_get (cp_pending p) d")
    case None
    with none assms show ?thesis by (auto simp: cp_establish_def)
  next
    case (Some m)
    let ?d = "cp_derive_keys cs (cs_dh cs (km_our_x25519_secret m) (km_peer_x25519_public m)) (km_our_did m) (km_peer_did m)"
    show ?thesis
    proof (cases ?d)
      case (Inl e)
      with none Some assms show ?thesis by (auto simp: cp_establish_def)
    next
      case (Inr ka)
      with none Some assms show ?thesis
        by (cases ka) (simp add: cp_establish_def cp_get_keys_def Let_def, metis)
    qed
  qed
qed

interpretation classical: session_provider cp_get_keys "cp_establish cs" for cs
proof
  fix p p' d r d' k and e :: provider_error
  show "cp_establish cs p d = (p', Inr k) \<Longrightarrow> cp_get_keys p' d = Some k"
    using cp_establish_cases [of cs p d p' "Inr k"] by (auto simp: cp_get_keys_def)
  show "cp_get_keys p d = Some k \<Longrightarrow> cp_establish cs p d = (p, Inr k)"
    by (simp add: cp_establish_def cp_get_keys_def)
  show "cp_establish cs p d = (p', Inl e) \<Longrightarrow> p' = p"
    using cp_establish_cases [of cs p d p' "Inl e"] by auto
  show "cp_establish cs p d = (p', r) \<Longrightarrow> d' \<noteq> d \<Longrightarrow> cp_get_keys p' d' = cp_get_keys p d'"
    using cp_establish_cases [of cs p d p' r] by (auto simp: cp_get_keys_def)
qed

section \<open>The keys of the two ends\<close>

lemma cp_derive_keys_sym: "cp_derive_keys cs z a b = cp_derive_keys cs z b a"
  by (auto simp: cp_derive_keys_def)

text \<open>What X25519 promises: the shared secret does not depend on who computes it.\<close>

definition dh_agrees :: "crypto_suite \<Rightarrow> bytes \<Rightarrow> bytes \<Rightarrow> bytes \<Rightarrow> bytes \<Rightarrow> bool" where
  "dh_agrees cs sa pa sb pb \<longleftrightarrow> cs_dh cs sa pb = cs_dh cs sb pa"

text \<open>
  The two ends of a connection hold mirrored material: each has its own secret and the other's
  public key, they name each other, and they agree on the connection.
\<close>

definition material_mirrors :: "crypto_suite \<Rightarrow> key_material \<Rightarrow> key_material \<Rightarrow> bool" where
  "material_mirrors cs m n \<longleftrightarrow>
     cs_dh cs (km_our_x25519_secret m) (km_peer_x25519_public m) =
       cs_dh cs (km_our_x25519_secret n) (km_peer_x25519_public n) \<and>
     km_our_did m = km_peer_did n \<and> km_peer_did m = km_our_did n \<and> km_our_did m \<noteq> km_peer_did m \<and>
     km_connection_id m = km_connection_id n"

lemma cp_establish_fresh:
  assumes "hm_get (cp_sessions p) (km_peer_did m) = None" "hm_get (cp_pending p) (km_peer_did m) = Some m"
    and "cp_establish cs p (km_peer_did m) = (p', Inr k)"
  obtains kek auth where "cp_derive_keys cs (cs_dh cs (km_our_x25519_secret m) (km_peer_x25519_public m))
      (km_our_did m) (km_peer_did m) = Inr (kek, auth)"
    "k = \<lparr>sk_kek = kek, sk_auth_key = auth, sk_generation = 0, sk_peer_kid = km_peer_kid m,
          sk_connection_id = km_connection_id m, sk_is_initiator = (km_our_did m < km_peer_did m)\<rparr>"
  using assms by (auto simp: cp_establish_def Let_def split: sum.splits)

end
