(* ===== verification/Dcx_Transport.thy ===== *)
theory Dcx_Transport
  imports Dcx_Provider
begin

text \<open>
  The DCX transports and the runtime that ties them together: \<open>didcomm/src/dcx/transports/\<close>
  (\<open>outbound.rs\<close>, \<open>inbound.rs\<close>) and \<open>agent_integration.rs\<close>. One record holds what the two
  transports and the runtime share: the channel manager, the state of the provider, the counter
  store, and the two ends the code writes to: the sender of the WebSocket loop and the
  dispatcher. \<open>dx_wire\<close> and \<open>dx_dispatched\<close> list what they were given, in order; a wire entry
  is the key, the header and the encoded frame.
\<close>

datatype outbound_error = Provider provider_error | FrameCodec frame_error | WsUnavailable string
datatype inbound_outcome = Handled | NotDcx | DcxError frame_error

record 'p dcx =
  dx_channels :: channel_manager
  dx_provider :: 'p
  dx_store :: "counter_store option"
  dx_ws_open :: bool
  dx_wire :: "(bytes \<times> frame_header \<times> bytes) list"
  dx_dispatched :: "(bytes \<times> u64 \<times> frame_body) list"

section \<open>Sending\<close>

text \<open>The channel for freshly established keys: resumed when the store knows its id, new otherwise.\<close>

definition dx_build_channel ::
  "crypto_suite \<Rightarrow> string \<Rightarrow> counter_store option \<Rightarrow> session_keys \<Rightarrow> string \<Rightarrow> channel" where
  "dx_build_channel cs provider_id store keys peer_did =
     (let base = ch_from_session_keys cs keys peer_did provider_id (sk_is_initiator keys)
      in case store of
           None \<Rightarrow> base
         | Some st \<Rightarrow>
             (case store_load st (derive_channel_id cs provider_id (sk_connection_id keys) (sk_generation keys)) of
                Some persisted \<Rightarrow> ch_resume cs keys peer_did provider_id (sk_is_initiator keys) persisted
              | None \<Rightarrow> base))"

definition dx_register :: "channel \<Rightarrow> 'p dcx \<Rightarrow> 'p dcx" where
  "dx_register c s = s\<lparr>dx_channels := cm_insert c (dx_channels s)\<rparr>"

text \<open>The first half of \<open>send_to_peer\<close>: find the peer's channel, or make one.\<close>

definition dx_acquire ::
  "crypto_suite \<Rightarrow> 'p key_provider \<Rightarrow> string \<Rightarrow> 'p dcx \<Rightarrow> 'p dcx \<times> (outbound_error + nat)" where
  "dx_acquire cs kp peer_did s =
     (case cm_get_by_peer_did (dx_channels s) peer_did of
        Some arc \<Rightarrow> (s, Inr arc)
      | None \<Rightarrow>
          (case kp_establish kp (dx_provider s) peer_did of
             (p, Inl e) \<Rightarrow> (s\<lparr>dx_provider := p\<rparr>, Inl (Provider e))
           | (p, Inr keys) \<Rightarrow>
               let s = dx_register (dx_build_channel cs (kp_provider_id kp) (dx_store s) keys peer_did) (s\<lparr>dx_provider := p\<rparr>)
               in (case cm_get_by_peer_did (dx_channels s) peer_did of
                     None \<Rightarrow> (s, Inl (WsUnavailable ''channel registration race''))
                   | Some arc \<Rightarrow> (s, Inr arc))))"

text \<open>Making sure that a block of ids is reserved, and recorded durably, before an id is used.\<close>

definition dx_reserve :: "nat \<Rightarrow> channel \<Rightarrow> 'p dcx \<Rightarrow> 'p dcx \<times> channel" where
  "dx_reserve arc c s =
     (if ch_needs_send_reservation c
      then let (c, new_ceiling) = ch_reserve_send SEND_RESERVATION_BATCH c;
               s = s\<lparr>dx_channels := cm_write arc c (dx_channels s)\<rparr>
           in (case dx_store s of
                 None \<Rightarrow> (s, c)
               | Some st \<Rightarrow> (s\<lparr>dx_store := Some (store_save_send_reserved (ch_channel_id c) new_ceiling st)\<rparr>, c))
      else (s, c))"

definition dx_data_frame :: "channel \<Rightarrow> u64 \<Rightarrow> bytes \<Rightarrow> frame" where
  "dx_data_frame c msg_id payload =
     \<lparr>fr_header = \<lparr>fh_frame_type = FRAME_TYPE_DATA, fh_version = FRAME_VERSION, fh_channel_id = ch_channel_id c,
        fh_routing_prefix = ch_peer_routing_prefix c, fh_msg_id = msg_id\<rparr>,
      fr_body = Data payload (replicate (padding_length (length payload) DEFAULT_PADDING_BOUNDARY) 0)\<rparr>"

text \<open>The second half, under the channel's lock: reserve, take the next id, encode, hand over.\<close>

definition dx_transmit :: "aead \<Rightarrow> nat \<Rightarrow> bytes \<Rightarrow> 'p dcx \<Rightarrow> 'p dcx \<times> (outbound_error + unit)" where
  "dx_transmit ae arc payload s =
     (case cm_cell (dx_channels s) arc of
        None \<Rightarrow> (s, Inr ())
      | Some c \<Rightarrow>
          let (s, c) = dx_reserve arc c s;
              (c, msg_id) = ch_next_send_msg_id c;
              s = s\<lparr>dx_channels := cm_write arc c (dx_channels s)\<rparr>;
              frame = dx_data_frame c msg_id payload
          in (case frame_encode ae frame (ch_k_send c) of
                Inl e \<Rightarrow> (s, Inl (FrameCodec e))
              | Inr bs \<Rightarrow>
                  if dx_ws_open s then (s\<lparr>dx_wire := dx_wire s @ [(ch_k_send c, fr_header frame, bs)]\<rparr>, Inr ())
                  else (s, Inl (WsUnavailable ''ws pickup loop closed''))))"

text \<open>
  One call of \<open>send_to_peer\<close>, run to its end. The lookup of a channel and its registration are
  separate awaits, and \<open>send_step\<close> below has them as separate steps; the frame is handed to the
  socket after the channel was released, so that frames of overlapping calls may reach the wire in
  another order than their ids.
\<close>

definition dx_send_to_peer ::
  "crypto_suite \<Rightarrow> aead \<Rightarrow> 'p key_provider \<Rightarrow> string \<Rightarrow> bytes \<Rightarrow> 'p dcx \<Rightarrow> 'p dcx \<times> (outbound_error + unit)" where
  "dx_send_to_peer cs ae kp peer_did payload s =
     (case dx_acquire cs kp peer_did s of
        (s, Inl e) \<Rightarrow> (s, Inl e)
      | (s, Inr arc) \<Rightarrow> dx_transmit ae arc payload s)"

section \<open>Receiving\<close>

definition dx_try_handle :: "aead \<Rightarrow> bytes \<Rightarrow> 'p dcx \<Rightarrow> 'p dcx \<times> inbound_outcome" where
  "dx_try_handle ae bs s =
     (case decode_header bs of
        Inl _ \<Rightarrow> (s, NotDcx)
      | Inr (header, tail) \<Rightarrow>
          (case cm_get_by_channel_id (dx_channels s) (fh_channel_id header) of
             None \<Rightarrow> (s, DcxError (MalformedPayload ''unknown channel''))
           | Some arc \<Rightarrow>
               (case cm_cell (dx_channels s) arc of
                  None \<Rightarrow> (s, DcxError (MalformedPayload ''unknown channel''))
                | Some c \<Rightarrow>
                    (case decode_and_verify ae header tail (ch_k_recv c) of
                       Inl e \<Rightarrow> (s, DcxError e)
                     | Inr body \<Rightarrow>
                         (case ch_observe_recv (fh_msg_id header) c of
                            Inl _ \<Rightarrow> (s, DcxError (MalformedPayload ''replay rejected''))
                          | Inr c \<Rightarrow>
                              let s = s\<lparr>dx_channels := cm_write arc c (dx_channels s)\<rparr>;
                                  s = (case dx_store s of
                                         None \<Rightarrow> s
                                       | Some st \<Rightarrow> s\<lparr>dx_store := Some (store_save_recv (fh_channel_id header) (fh_msg_id header) st)\<rparr>)
                              in (s\<lparr>dx_dispatched := dx_dispatched s @ [(fh_channel_id header, fh_msg_id header, body)]\<rparr>, Handled))))))"

section \<open>The runtime\<close>

definition rt_new :: "classical_provider dcx" where
  "rt_new = \<lparr>dx_channels = cm_new, dx_provider = cp_new, dx_store = None, dx_ws_open = True, dx_wire = [],
     dx_dispatched = []\<rparr>"

text \<open>The store sits in a \<open>OnceLock\<close>: the first one stays.\<close>

definition rt_set_counter_store :: "counter_store \<Rightarrow> 'p dcx \<Rightarrow> 'p dcx" where
  "rt_set_counter_store st s = (case dx_store s of None \<Rightarrow> s\<lparr>dx_store := Some st\<rparr> | Some _ \<Rightarrow> s)"

definition rt_register_classical_peer :: "key_material \<Rightarrow> classical_provider dcx \<Rightarrow> classical_provider dcx" where
  "rt_register_classical_peer m s = s\<lparr>dx_provider := cp_register_peer_material m (dx_provider s)\<rparr>"

text \<open>
  \<open>ensure_channel\<close> asks a post-quantum provider first when one is set and has a session with the
  peer. That provider is code outside the repository: its operations and state are an argument.
\<close>

definition rt_ensure_channel ::
  "crypto_suite \<Rightarrow> ('q key_provider \<times> 'q) option \<Rightarrow> string \<Rightarrow> classical_provider dcx \<Rightarrow> classical_provider dcx" where
  "rt_ensure_channel cs pq peer_did s =
     (if cm_get_by_peer_did (dx_channels s) peer_did \<noteq> None then s
      else let (provider_id, s, established) =
             (case pq of
                Some (kp, q) \<Rightarrow>
                  if kp_get_keys kp q peer_did \<noteq> None
                  then (kp_provider_id kp, s, snd (kp_establish kp q peer_did))
                  else (PROVIDER_ID, s\<lparr>dx_provider := fst (cp_establish cs (dx_provider s) peer_did)\<rparr>,
                        snd (cp_establish cs (dx_provider s) peer_did))
              | None \<Rightarrow> (PROVIDER_ID, s\<lparr>dx_provider := fst (cp_establish cs (dx_provider s) peer_did)\<rparr>,
                        snd (cp_establish cs (dx_provider s) peer_did)))
           in (case established of
                 Inl _ \<Rightarrow> s
               | Inr keys \<Rightarrow> dx_register (dx_build_channel cs provider_id (dx_store s) keys peer_did) s))"

section \<open>Runs\<close>

text \<open>
  What happens to an agent over its life: it sends, receives, prepares channels, is given peer
  material, closes sessions, loses its WebSocket, and restarts. A restart loses everything but
  the durable store; the wire log is what an observer of the network has recorded.
\<close>

datatype 'q dcx_event =
    EvSend string bytes
  | EvReceive bytes
  | EvEnsure "('q key_provider \<times> 'q) option" string
  | EvMaterial key_material
  | EvClose string
  | EvRemove bytes
  | EvWs bool
  | EvRestart

fun dcx_exec :: "crypto_suite \<Rightarrow> aead \<Rightarrow> 'q dcx_event \<Rightarrow> classical_provider dcx \<Rightarrow> classical_provider dcx" where
  "dcx_exec cs ae (EvSend peer payload) s = fst (dx_send_to_peer cs ae (classical cs) peer payload s)"
| "dcx_exec cs ae (EvReceive bs) s = fst (dx_try_handle ae bs s)"
| "dcx_exec cs ae (EvEnsure pq peer) s = rt_ensure_channel cs pq peer s"
| "dcx_exec cs ae (EvMaterial m) s = rt_register_classical_peer m s"
| "dcx_exec cs ae (EvClose peer) s = s\<lparr>dx_provider := fst (cp_close peer (dx_provider s))\<rparr>"
| "dcx_exec cs ae (EvRemove cid) s = s\<lparr>dx_channels := cm_remove cid (dx_channels s)\<rparr>"
| "dcx_exec cs ae (EvWs up) s = s\<lparr>dx_ws_open := up\<rparr>"
| "dcx_exec cs ae EvRestart s = s\<lparr>dx_channels := cm_new, dx_provider := cp_new\<rparr>"

definition dcx_run ::
  "crypto_suite \<Rightarrow> aead \<Rightarrow> 'q dcx_event list \<Rightarrow> classical_provider dcx \<Rightarrow> classical_provider dcx" where
  "dcx_run cs ae evs s = fold (dcx_exec cs ae) evs s"

section \<open>The invariant of a runtime with a store\<close>

text \<open>An id is used up once the counter has passed it, or the counter is stuck at its maximum.\<close>

definition used_up :: "u64 \<Rightarrow> u64 \<Rightarrow> bool" where
  "used_up i counter \<longleftrightarrow> i < counter \<or> counter = - 1"

definition ids_sent :: "'p dcx \<Rightarrow> bytes \<Rightarrow> u64 list" where
  "ids_sent s cid = map (\<lambda>(k, h, bs). fh_msg_id h) (filter (\<lambda>(k, h, bs). fh_channel_id h = cid) (dx_wire s))"

definition ids_dispatched :: "'p dcx \<Rightarrow> bytes \<Rightarrow> u64 list" where
  "ids_dispatched s cid = map (\<lambda>d. fst (snd d)) (filter (\<lambda>d. fst d = cid) (dx_dispatched s))"

lemma ids_of_channels [simp]:
  "ids_sent (s\<lparr>dx_channels := m\<rparr>) = ids_sent s" "ids_dispatched (s\<lparr>dx_channels := m\<rparr>) = ids_dispatched s"
  "ids_sent (s\<lparr>dx_store := x\<rparr>) = ids_sent s" "ids_dispatched (s\<lparr>dx_store := x\<rparr>) = ids_dispatched s"
  by (simp_all add: ids_sent_def ids_dispatched_def fun_eq_iff)

definition durable_ok :: "persisted_counters \<Rightarrow> u64 list \<Rightarrow> u64 list \<Rightarrow> bool" where
  "durable_ok p sent received \<longleftrightarrow>
     sorted_wrt used_up sent \<and> (\<forall>i\<in>set sent. used_up i (pc_send_reserved p)) \<and>
     sorted_wrt (<) received \<and> (\<forall>i\<in>set received. pc_received_any p \<and> i \<le> pc_msg_id_recv p)"

definition channel_ok :: "persisted_counters \<Rightarrow> u64 list \<Rightarrow> channel \<Rightarrow> bool" where
  "channel_ok p sent c \<longleftrightarrow>
     ch_send_reserved c = pc_send_reserved p \<and> ch_msg_id_send c \<le> ch_send_reserved c \<and>
     (\<forall>i\<in>set sent. used_up i (ch_msg_id_send c)) \<and>
     ch_received_any c = pc_received_any p \<and> ch_msg_id_recv c = pc_msg_id_recv p"

definition dcx_inv :: "'p dcx \<Rightarrow> bool" where
  "dcx_inv s \<longleftrightarrow> cm_inv (dx_channels s) \<and>
     (\<exists>st. dx_store s = Some st \<and>
        (\<forall>cid. durable_ok (store_get st cid) (ids_sent s cid) (ids_dispatched s cid)) \<and>
        (\<forall>cid c. cm_channel (dx_channels s) cid = Some c \<longrightarrow> channel_ok (store_get st cid) (ids_sent s cid) c))"

lemma used_up_mono: "used_up i a \<Longrightarrow> a \<le> b \<Longrightarrow> used_up i b"
  by (auto simp: used_up_def word_order.extremum_unique)

lemma unat_u64_less: "unat (a :: u64) < 2 ^ 64"
proof -
  have "unat a < 2 ^ LENGTH(64)" by (rule unsigned_less)
  then show ?thesis by simp
qed

lemma unat_u64_max: "unat (- 1 :: u64) = 2 ^ 64 - 1"
  by (simp add: unsigned_minus_1_eq_mask mask_eq_exp_minus_1)

lemma saturating_add_ge: "a \<le> saturating_add a b"
  using unat_u64_less [of a] by (auto simp: saturating_add_def word_le_nat_alt unat_word_ariths unat_u64_max)

lemma saturating_add_gr: "0 < b \<Longrightarrow> used_up a (saturating_add a b)"
proof -
  assume "0 < b"
  then have "0 < unat b" by (simp add: word_less_nat_alt)
  then show ?thesis by (auto simp: used_up_def saturating_add_def word_less_nat_alt unat_word_ariths)
qed

lemma saturating_succ_le: "used_up a b \<Longrightarrow> saturating_add a 1 \<le> b"
  using unat_u64_less [of a] unat_u64_less [of b]
  by (auto simp: used_up_def saturating_add_def word_le_nat_alt word_less_nat_alt unat_word_ariths unat_u64_max)

lemma store_get_save_send [simp]:
  "store_get (store_save_send_reserved cid r st) cid' =
     (if cid' = cid then (store_get st cid)\<lparr>pc_send_reserved := r\<rparr> else store_get st cid')"
  by (simp add: store_save_send_reserved_def store_get_def)

lemma store_get_save_recv [simp]:
  "store_get (store_save_recv cid r st) cid' =
     (if cid' = cid then (store_get st cid)
        \<lparr>pc_msg_id_recv := (if pc_received_any (store_get st cid) then max (pc_msg_id_recv (store_get st cid)) r else r),
         pc_received_any := True\<rparr>
      else store_get st cid')"
  by (simp add: store_save_recv_def store_get_def Let_def)

text \<open>A channel built from the store agrees with it.\<close>

lemma build_channel_ok:
  assumes "\<forall>i\<in>set sent. used_up i (pc_send_reserved (store_get st cid))"
    and "cid = derive_channel_id cs pid (sk_connection_id keys) (sk_generation keys)"
  shows "ch_channel_id (dx_build_channel cs pid (Some st) keys d) = cid"
    "channel_ok (store_get st cid) sent (dx_build_channel cs pid (Some st) keys d)"
    "ch_peer_did (dx_build_channel cs pid (Some st) keys d) = d"
  using assms
  by (auto simp: dx_build_channel_def channel_ok_def Let_def ch_resume_def ch_from_session_keys_def store_load_def
      store_get_def pc_default_def split: option.splits)

section \<open>Every step keeps the invariant\<close>

lemma dcx_inv_new: "dcx_inv (rt_set_counter_store [] rt_new)"
  by (simp add: dcx_inv_def rt_set_counter_store_def rt_new_def cm_inv_new ids_sent_def ids_dispatched_def durable_ok_def)

text \<open>The invariant reads the manager, the store and the two logs only.\<close>

lemma dcx_inv_cong:
  fixes s :: "'p dcx" and s' :: "'q dcx"
  assumes "dx_channels s' = dx_channels s" "dx_store s' = dx_store s" "dx_wire s' = dx_wire s"
    "dx_dispatched s' = dx_dispatched s"
  shows "dcx_inv s' = dcx_inv s"
  using assms by (simp add: dcx_inv_def ids_sent_def ids_dispatched_def)

lemma dcx_inv_register:
  assumes inv: "dcx_inv s"
  shows "dcx_inv (dx_register (dx_build_channel cs pid (dx_store s) keys d) s)"
proof -
  let ?cid = "derive_channel_id cs pid (sk_connection_id keys) (sk_generation keys)"
  from inv obtain st where st: "dx_store s = Some st"
    and dur: "\<forall>cid. durable_ok (store_get st cid) (ids_sent s cid) (ids_dispatched s cid)"
    and ch: "\<forall>cid c. cm_channel (dx_channels s) cid = Some c \<longrightarrow> channel_ok (store_get st cid) (ids_sent s cid) c"
    and m: "cm_inv (dx_channels s)" by (auto simp: dcx_inv_def)
  let ?c = "dx_build_channel cs pid (Some st) keys d"
  have c: "ch_channel_id ?c = ?cid" "channel_ok (store_get st ?cid) (ids_sent s ?cid) ?c"
    using dur build_channel_ok [of "ids_sent s ?cid" st ?cid cs pid keys d] by (auto simp: durable_ok_def)
  from st dur ch m c show ?thesis
    by (auto simp: dcx_inv_def dx_register_def cm_inv_insert cm_channel_insert)
qed

lemma dcx_inv_acquire: "dcx_inv s \<Longrightarrow> dcx_inv (fst (dx_acquire cs kp d s))"
proof -
  assume inv: "dcx_inv s"
  show ?thesis
  proof (cases "cm_get_by_peer_did (dx_channels s) d")
    case None
    obtain p r where est: "kp_establish kp (dx_provider s) d = (p, r)" by (cases "kp_establish kp (dx_provider s) d")
    have p: "dcx_inv (s\<lparr>dx_provider := p\<rparr>)" using inv by (subst dcx_inv_cong [of _ s]) simp_all
    show ?thesis
    proof (cases r)
      case (Inl e)
      with None est p show ?thesis by (simp add: dx_acquire_def)
    next
      case (Inr keys)
      with None est dcx_inv_register [OF p, of cs "kp_provider_id kp" keys d] show ?thesis
        by (simp add: dx_acquire_def Let_def split: option.splits)
    qed
  qed (use inv in \<open>simp add: dx_acquire_def\<close>)
qed

text \<open>What an acquired handle points to.\<close>

lemma dx_acquire_handle:
  assumes inv: "dcx_inv s" and acq: "dx_acquire cs kp d s = (s', Inr arc)"
  obtains c where "cm_cell (dx_channels s') arc = Some c"
    "cm_get_by_channel_id (dx_channels s') (ch_channel_id c) = Some arc"
proof -
  have "dcx_inv s'" using dcx_inv_acquire [OF inv, of cs kp d] acq by simp
  then have "cm_inv (dx_channels s')" by (simp add: dcx_inv_def)
  moreover have "cm_get_by_peer_did (dx_channels s') d = Some arc"
    using acq by (auto simp: dx_acquire_def Let_def split: option.splits prod.splits sum.splits)
  ultimately show ?thesis using that by (rule cm_by_peer_registered)
qed

text \<open>A step that works on one registered channel keeps the invariant when it does so for that channel.\<close>

lemma dcx_inv_step:
  assumes inv: "dcx_inv s" and reg: "cm_get_by_channel_id (dx_channels s) (ch_channel_id c) = Some arc"
    and ch: "dx_channels s' = cm_write arc c (dx_channels s)"
    and st: "dx_store s = Some st" "dx_store s' = Some st'"
    and frame: "\<And>cid. cid \<noteq> ch_channel_id c \<Longrightarrow>
      store_get st' cid = store_get st cid \<and> ids_sent s' cid = ids_sent s cid \<and> ids_dispatched s' cid = ids_dispatched s cid"
    and dur: "durable_ok (store_get st' (ch_channel_id c)) (ids_sent s' (ch_channel_id c)) (ids_dispatched s' (ch_channel_id c))"
    and cok: "channel_ok (store_get st' (ch_channel_id c)) (ids_sent s' (ch_channel_id c)) c"
  shows "dcx_inv s'"
proof -
  have m: "cm_inv (dx_channels s)" using inv by (simp add: dcx_inv_def)
  have "durable_ok (store_get st' cid) (ids_sent s' cid) (ids_dispatched s' cid)" for cid
    using inv st(1) frame [of cid] dur by (cases "cid = ch_channel_id c") (auto simp: dcx_inv_def)
  moreover have "channel_ok (store_get st' cid) (ids_sent s' cid) d" if "cm_channel (dx_channels s') cid = Some d" for cid d
    using that inv st(1) frame [of cid] cok
    by (cases "cid = ch_channel_id c") (auto simp: dcx_inv_def ch cm_channel_write [OF m reg])
  ultimately show ?thesis using st(2) cm_inv_write [OF m reg] by (auto simp: dcx_inv_def ch)
qed

lemma channel_ok_reserve:
  assumes "channel_ok p sent c" and "ch_needs_send_reservation c"
  shows "channel_ok (p\<lparr>pc_send_reserved := snd (ch_reserve_send b c)\<rparr>) sent (fst (ch_reserve_send b c))"
  using assms by (simp add: channel_ok_def ch_reserve_send_def Let_def saturating_add_ge)

lemma ch_reserve_send_fields [simp]:
  "ch_channel_id (fst (ch_reserve_send b c)) = ch_channel_id c"
  "ch_msg_id_send (fst (ch_reserve_send b c)) = ch_msg_id_send c"
  "ch_k_send (fst (ch_reserve_send b c)) = ch_k_send c"
  "ch_peer_routing_prefix (fst (ch_reserve_send b c)) = ch_peer_routing_prefix c"
  by (simp_all add: ch_reserve_send_def Let_def)

text \<open>After the reservation the channel may use its next id.\<close>

lemma dcx_inv_reserve:
  assumes inv: "dcx_inv s" and cell: "cm_cell (dx_channels s) arc = Some c"
    and reg: "cm_get_by_channel_id (dx_channels s) (ch_channel_id c) = Some arc"
    and res: "dx_reserve arc c s = (s', c')"
  shows "dcx_inv s'" "cm_cell (dx_channels s') arc = Some c'" "ch_channel_id c' = ch_channel_id c"
    "cm_get_by_channel_id (dx_channels s') (ch_channel_id c) = Some arc"
    "used_up (ch_msg_id_send c') (ch_send_reserved c')" "dx_wire s' = dx_wire s"
    "dx_dispatched s' = dx_dispatched s" "ch_k_send c' = ch_k_send c"
proof -
  from inv obtain st where st: "dx_store s = Some st"
    and dur: "durable_ok (store_get st (ch_channel_id c)) (ids_sent s (ch_channel_id c)) (ids_dispatched s (ch_channel_id c))"
    and cok: "channel_ok (store_get st (ch_channel_id c)) (ids_sent s (ch_channel_id c)) c"
    using cell reg by (auto simp: dcx_inv_def cm_channel_def)
  show "cm_cell (dx_channels s') arc = Some c'" "ch_channel_id c' = ch_channel_id c"
    "cm_get_by_channel_id (dx_channels s') (ch_channel_id c) = Some arc"
    "dx_wire s' = dx_wire s" "dx_dispatched s' = dx_dispatched s" "ch_k_send c' = ch_k_send c"
    using res cell reg st
    by (auto simp: dx_reserve_def ch_reserve_send_def Let_def cm_defs split: if_splits)
  show "used_up (ch_msg_id_send c') (ch_send_reserved c')"
    using res st saturating_add_gr [of "max SEND_RESERVATION_BATCH 1" "ch_msg_id_send c"]
    by (auto simp: dx_reserve_def ch_reserve_send_def Let_def ch_needs_send_reservation_def less_max_iff_disj
        used_up_def split: if_splits)
  show "dcx_inv s'"
  proof (cases "ch_needs_send_reservation c")
    case False
    with res inv show ?thesis by (simp add: dx_reserve_def)
  next
    case True
    let ?r = "ch_reserve_send SEND_RESERVATION_BATCH c"
    let ?st = "store_save_send_reserved (ch_channel_id c) (snd ?r) st"
    have s': "s' = s\<lparr>dx_channels := cm_write arc (fst ?r) (dx_channels s), dx_store := Some ?st\<rparr>"
      using res st True by (auto simp: dx_reserve_def Let_def case_prod_beta)

    have "pc_send_reserved (store_get st (ch_channel_id c)) \<le> snd ?r"
      using cok True saturating_add_ge [of "ch_msg_id_send c"] order_trans
      by (fastforce simp: channel_ok_def ch_needs_send_reservation_def ch_reserve_send_def Let_def)
    then have "durable_ok (store_get ?st (ch_channel_id c)) (ids_sent s (ch_channel_id c)) (ids_dispatched s (ch_channel_id c))"
      using dur by (auto simp: durable_ok_def intro: used_up_mono)
    moreover have "channel_ok (store_get ?st (ch_channel_id c)) (ids_sent s (ch_channel_id c)) (fst ?r)"
      using channel_ok_reserve [OF cok True] by simp
    ultimately show ?thesis
      using reg by (intro dcx_inv_step [OF inv, where c = "fst ?r" and arc = arc and st = st and st' = ?st])
        (simp_all add: s' st)
  qed
qed

lemma sorted_wrt_snoc: "sorted_wrt P (xs @ [x]) \<longleftrightarrow> sorted_wrt P xs \<and> (\<forall>y\<in>set xs. P y x)"
  by (auto simp: sorted_wrt_append)

lemma sorted_wrt_middle: "sorted_wrt P (xs @ y # ys) \<Longrightarrow> x \<in> set xs \<Longrightarrow> P x y"
  by (simp add: sorted_wrt_append)

lemma dcx_inv_transmit:
  assumes inv: "dcx_inv s" and cell: "cm_cell (dx_channels s) arc = Some c"
    and reg: "cm_get_by_channel_id (dx_channels s) (ch_channel_id c) = Some arc"
  shows "dcx_inv (fst (dx_transmit ae arc payload s))"
proof -
  obtain r c1 where res: "dx_reserve arc c s = (r, c1)" by (cases "dx_reserve arc c s")
  note r = dcx_inv_reserve [OF inv cell reg res]
  let ?m = "ch_msg_id_send c1" and ?cid = "ch_channel_id c"
  let ?c2 = "c1\<lparr>ch_msg_id_send := saturating_add ?m 1\<rparr>"
  let ?s2 = "r\<lparr>dx_channels := cm_write arc ?c2 (dx_channels r)\<rparr>"
  let ?f = "dx_data_frame ?c2 ?m payload"
  let ?s3 = "\<lambda>bs. ?s2\<lparr>dx_wire := dx_wire ?s2 @ [(ch_k_send ?c2, fr_header ?f, bs)]\<rparr>"
  from r(1) obtain st where st: "dx_store r = Some st"
    and dur: "durable_ok (store_get st ?cid) (ids_sent r ?cid) (ids_dispatched r ?cid)"
    and cok: "channel_ok (store_get st ?cid) (ids_sent r ?cid) c1"
    using r(2,4) by (auto simp: dcx_inv_def cm_channel_def)
  have below: "\<forall>i\<in>set (ids_sent r ?cid @ [?m]). used_up i (saturating_add ?m 1)"
    using cok saturating_add_gr [of 1 ?m] used_up_mono [OF _ saturating_add_ge] by (auto simp: channel_ok_def)
  have le: "saturating_add ?m 1 \<le> ch_send_reserved c1" by (rule saturating_succ_le) (rule r(5))
  have id2: "ch_channel_id ?c2 = ?cid" using r(3) by simp
  have quiet: "dcx_inv ?s2"
    using r(3,4) st dur cok below le
    by (intro dcx_inv_step [OF r(1), where c = ?c2 and arc = arc and st = st and st' = st])
      (simp_all add: channel_ok_def)
  have loud: "dcx_inv (?s3 bs)" for bs
  proof (rule dcx_inv_step [OF r(1), where c = ?c2 and arc = arc and st = st and st' = st])
    have sent: "ids_sent (?s3 bs) cid = ids_sent r cid @ (if cid = ?cid then [?m] else [])" for cid
      using r(3) by (simp add: ids_sent_def dx_data_frame_def)
    have disp: "ids_dispatched (?s3 bs) = ids_dispatched r" by (simp add: ids_dispatched_def fun_eq_iff)
    show "cm_get_by_channel_id (dx_channels r) (ch_channel_id ?c2) = Some arc" using r(3,4) by simp
    show "store_get st cid = store_get st cid \<and> ids_sent (?s3 bs) cid = ids_sent r cid \<and>
        ids_dispatched (?s3 bs) cid = ids_dispatched r cid" if "cid \<noteq> ch_channel_id ?c2" for cid
      using that sent [of cid] disp r(3) by simp
    have "used_up ?m (pc_send_reserved (store_get st ?cid))" using r(5) cok by (simp add: channel_ok_def)
    moreover have "\<forall>i\<in>set (ids_sent r ?cid). used_up i ?m" using cok by (simp add: channel_ok_def)
    ultimately show "durable_ok (store_get st (ch_channel_id ?c2)) (ids_sent (?s3 bs) (ch_channel_id ?c2))
        (ids_dispatched (?s3 bs) (ch_channel_id ?c2))"
      using dur unfolding id2 sent disp by (auto simp: durable_ok_def sorted_wrt_snoc)
    show "channel_ok (store_get st (ch_channel_id ?c2)) (ids_sent (?s3 bs) (ch_channel_id ?c2)) ?c2"
      using cok below le unfolding id2 sent by (simp add: channel_ok_def)
  qed (simp_all add: st)
  show ?thesis
    using quiet loud cell
    by (simp add: dx_transmit_def res ch_next_send_msg_id_def Let_def split: sum.splits)
qed

lemma dcx_inv_send: "dcx_inv s \<Longrightarrow> dcx_inv (fst (dx_send_to_peer cs ae kp d payload s))"
proof -
  assume inv: "dcx_inv s"
  obtain s' r where acq: "dx_acquire cs kp d s = (s', r)" by (cases "dx_acquire cs kp d s")
  have inv': "dcx_inv s'" using dcx_inv_acquire [OF inv, of cs kp d] acq by simp
  show ?thesis
  proof (cases r)
    case (Inl e)
    with acq inv' show ?thesis by (simp add: dx_send_to_peer_def)
  next
    case (Inr arc)
    with acq obtain c where "cm_cell (dx_channels s') arc = Some c"
        "cm_get_by_channel_id (dx_channels s') (ch_channel_id c) = Some arc"
      using dx_acquire_handle [OF inv, of cs kp d s' arc] by metis
    with acq Inr inv' show ?thesis by (simp add: dx_send_to_peer_def dcx_inv_transmit)
  qed
qed

lemma dcx_inv_receive: "dcx_inv s \<Longrightarrow> dcx_inv (fst (dx_try_handle ae bs s))"
proof -
  assume inv: "dcx_inv s"
  show ?thesis
  proof (cases "snd (dx_try_handle ae bs s) = Handled")
    case False
    then have "fst (dx_try_handle ae bs s) = s"
      by (auto simp: dx_try_handle_def Let_def split: sum.splits option.splits)
    with inv show ?thesis by simp
  next
    case True
    then obtain h tail arc c body c' where hd: "decode_header bs = Inr (h, tail)"
      and reg: "cm_get_by_channel_id (dx_channels s) (fh_channel_id h) = Some arc"
      and cell: "cm_cell (dx_channels s) arc = Some c"
      and body: "decode_and_verify ae h tail (ch_k_recv c) = Inr body"
      and obs: "ch_observe_recv (fh_msg_id h) c = Inr c'"
      by (auto simp: dx_try_handle_def Let_def split: sum.splits option.splits)
    let ?cid = "fh_channel_id h" and ?i = "fh_msg_id h"
    from inv obtain st where st: "dx_store s = Some st"
      and dur: "durable_ok (store_get st ?cid) (ids_sent s ?cid) (ids_dispatched s ?cid)"
      and cok: "channel_ok (store_get st ?cid) (ids_sent s ?cid) c"
      using cell reg by (auto simp: dcx_inv_def cm_channel_def)
    have cid: "ch_channel_id c = ?cid"
      using inv cell reg unfolding dcx_inv_def cm_inv_def by (metis option.inject)
    have c': "c' = c\<lparr>ch_msg_id_recv := ?i, ch_received_any := True\<rparr>"
      and fresh: "ch_received_any c \<longrightarrow> ch_msg_id_recv c < ?i"
      using obs by (auto simp: ch_observe_recv_def split: if_splits)
    have cid': "ch_channel_id c' = ?cid" by (simp add: c' cid)
    let ?st = "store_save_recv ?cid ?i st"
    let ?s = "s\<lparr>dx_channels := cm_write arc c' (dx_channels s), dx_store := Some ?st,
      dx_dispatched := dx_dispatched s @ [(?cid, ?i, body)]\<rparr>"
    have run: "fst (dx_try_handle ae bs s) = ?s"
      by (simp add: dx_try_handle_def hd reg cell body obs Let_def st)
    have sent: "ids_sent ?s = ids_sent s" by (simp add: ids_sent_def fun_eq_iff)
    have disp: "ids_dispatched ?s cid = ids_dispatched s cid @ (if cid = ?cid then [?i] else [])" for cid
      by (simp add: ids_dispatched_def)
    have mark: "pc_msg_id_recv (store_get ?st ?cid) = ?i" "pc_received_any (store_get ?st ?cid)"
      using cok fresh by (auto simp: channel_ok_def)
    have above: "\<forall>j\<in>set (ids_dispatched s ?cid). j < ?i"
      using dur cok fresh by (fastforce simp: durable_ok_def channel_ok_def)
    have "dcx_inv ?s"
    proof (rule dcx_inv_step [OF inv, where c = c' and arc = arc and st = st and st' = ?st])
      show "durable_ok (store_get ?st (ch_channel_id c')) (ids_sent ?s (ch_channel_id c')) (ids_dispatched ?s (ch_channel_id c'))"
        using dur above mark unfolding sent disp by (auto simp: c' cid durable_ok_def sorted_wrt_snoc)
      show "channel_ok (store_get ?st (ch_channel_id c')) (ids_sent ?s (ch_channel_id c')) c'"
        using cok mark unfolding sent by (auto simp: c' cid channel_ok_def)
    qed (use reg cid' in \<open>simp_all add: st sent disp\<close>)
    with run show ?thesis by simp
  qed
qed

lemma dcx_inv_ensure: "dcx_inv s \<Longrightarrow> dcx_inv (rt_ensure_channel cs pq d s)"
proof -
  assume inv: "dcx_inv s"
  have "dcx_inv (s\<lparr>dx_provider := p\<rparr>)" for p using inv by (subst dcx_inv_cong [of _ s]) simp_all
  from dcx_inv_register [OF this] dcx_inv_register [OF inv] this inv show ?thesis
    by (auto simp: rt_ensure_channel_def Let_def split: option.splits sum.splits)
qed

lemma dcx_inv_exec: "dcx_inv s \<Longrightarrow> dcx_inv (dcx_exec cs ae ev s)"
proof (induction cs ae ev s rule: dcx_exec.induct)
  case (4 cs ae m s)
  then show ?case unfolding dcx_exec.simps rt_register_classical_peer_def by (subst dcx_inv_cong [of _ s]) simp_all
next
  case (5 cs ae peer s)
  then show ?case unfolding dcx_exec.simps by (subst dcx_inv_cong [of _ s]) simp_all
next
  case (6 cs ae cid s)
  then show ?case by (auto simp: dcx_inv_def cm_inv_remove cm_channel_remove)
next
  case (7 cs ae up s)
  then show ?case unfolding dcx_exec.simps by (subst dcx_inv_cong [of _ s]) simp_all
next
  case (8 cs ae s)
  then have "dcx_inv (s\<lparr>dx_channels := cm_new\<rparr>)" by (auto simp: dcx_inv_def cm_inv_new)
  then show ?case unfolding dcx_exec.simps by (subst dcx_inv_cong [of _ "s\<lparr>dx_channels := cm_new\<rparr>"]) simp_all
qed (simp_all add: dcx_inv_send dcx_inv_receive dcx_inv_ensure)

lemma dcx_inv_run: "dcx_inv (dcx_run cs ae evs (rt_set_counter_store [] rt_new))"
  unfolding dcx_run_def by (rule fold_keeps [of dcx_inv]) (simp_all add: dcx_inv_new dcx_inv_exec)

section \<open>No nonce and no frame twice\<close>

text \<open>
  C2. Across sends, receptions, prepared and removed channels, closed sessions, lost connections
  and restarts, in any order, a runtime with a counter store never hands two frames of one
  channel to the network under the same message id, and hence never under the same nonce: the
  ids of a channel's frames are strictly increasing on the wire, until the counter is stuck at
  its 64-bit maximum, which is then the only id that can repeat.
\<close>

theorem wire_ids_increase:
  assumes "i < j" and "j < length w" and "w = dx_wire (dcx_run cs ae evs (rt_set_counter_store [] rt_new))"
    and "w ! i = (k, h, bs)" and "w ! j = (k', h', bs')" and "fh_channel_id h = fh_channel_id h'"
  shows "fh_msg_id h < fh_msg_id h' \<or> fh_msg_id h' = - 1"
proof -
  let ?s = "dcx_run cs ae evs (rt_set_counter_store [] rt_new)" and ?cid = "fh_channel_id h'"
  let ?P = "\<lambda>(k, h, bs). fh_channel_id h = ?cid"
  have "sorted_wrt used_up (ids_sent ?s ?cid)"
    using dcx_inv_run [of cs ae evs] by (auto simp: dcx_inv_def durable_ok_def)
  then have sorted: "sorted_wrt (\<lambda>x y. used_up (fh_msg_id (fst (snd x))) (fh_msg_id (fst (snd y)))) (filter ?P w)"
    by (simp add: ids_sent_def assms(3) sorted_wrt_map case_prod_beta)
  have "w = take j w @ w ! j # drop (Suc j) w" using assms(2) by (simp add: id_take_nth_drop)
  then have "filter ?P w = filter ?P (take j w) @ w ! j # filter ?P (drop (Suc j) w)"
    using assms(5) by (metis (mono_tags, lifting) case_prod_conv filter.simps(2) filter_append)
  with sorted have "\<forall>x\<in>set (filter ?P (take j w)). used_up (fh_msg_id (fst (snd x))) (fh_msg_id h')"
    using assms(5) sorted_wrt_middle by fastforce
  moreover have "w ! i \<in> set (filter ?P (take j w))"
    using assms(1,2,4,6) by (simp add: in_set_conv_nth) (metis nth_take order.strict_trans)
  ultimately show ?thesis using assms(4) by (force simp: used_up_def)
qed

text \<open>
  The same holds of what arrives: across restarts a runtime with a counter store never gives a
  frame to the application twice, whatever an attacker replays; the message ids dispatched on a
  channel are strictly increasing.
\<close>

theorem dispatched_ids_increase:
  "let s = dcx_run cs ae evs (rt_set_counter_store [] rt_new)
   in sorted_wrt (<) (ids_dispatched s cid) \<and> distinct (map (\<lambda>(c, i, b). (c, i)) (dx_dispatched s))"
proof -
  let ?s = "dcx_run cs ae evs (rt_set_counter_store [] rt_new)"
  have sorted: "sorted_wrt (<) (ids_dispatched ?s cid)" for cid
    using dcx_inv_run [of cs ae evs] by (auto simp: dcx_inv_def durable_ok_def)
  then have dis: "distinct (ids_dispatched ?s cid)" for cid by (simp add: strict_sorted_iff)
  have "distinct (map (\<lambda>(c, i, b). (c, i)) ds)"
    if "\<And>cid. distinct (map (\<lambda>d. fst (snd d)) (filter (\<lambda>d. fst d = cid) ds))" for ds :: "(bytes \<times> u64 \<times> frame_body) list"
    using that
  proof (induction ds)
    case (Cons x ds)
    obtain c i b where x: "x = (c, i, b)" by (cases x)
    have "distinct (map (\<lambda>d. fst (snd d)) (filter (\<lambda>d. fst d = cid) ds))" for cid
      using Cons.prems [of cid] by (cases "c = cid") (simp_all add: x)
    moreover have "(c, i) \<notin> set (map (\<lambda>(c, i, b). (c, i)) ds)"
      using Cons.prems [of c] by (force simp: x)
    ultimately show ?case using Cons.IH by (simp add: x)
  qed simp
  from this [of "dx_dispatched ?s"] dis sorted show ?thesis by (simp add: ids_dispatched_def Let_def)
qed

section \<open>Delivery\<close>

text \<open>One end can send to the other: keys and ids match, and the receiver is behind the sender.\<close>

definition dx_linked :: "string \<Rightarrow> nat \<Rightarrow> 'p dcx \<Rightarrow> 'q dcx \<Rightarrow> bool" where
  "dx_linked d n A B \<longleftrightarrow> dx_ws_open A \<and>
     (\<exists>arc a arc' b. cm_get_by_peer_did (dx_channels A) d = Some arc \<and> cm_cell (dx_channels A) arc = Some a \<and>
        cm_get_by_channel_id (dx_channels B) (ch_channel_id a) = Some arc' \<and> cm_cell (dx_channels B) arc' = Some b \<and>
        ch_k_send a = ch_k_recv b \<and> length (ch_channel_id a) = 16 \<and> length (ch_peer_routing_prefix a) = 16 \<and>
        unat (ch_msg_id_send a) = n \<and> (ch_received_any b \<longrightarrow> ch_msg_id_recv b < ch_msg_id_send a))"

definition the_body :: "bytes \<Rightarrow> frame_body" where
  "the_body p = Data p (replicate (padding_length (length p) DEFAULT_PADDING_BOUNDARY) 0)"

lemma padding_length_less: "0 < b \<Longrightarrow> padding_length n b < b"
  by (simp add: padding_length_def Let_def)

lemma data_frame_encodes:
  assumes "aead_correct ae" "aead_total ae" "length p \<le> 65535"
  shows "\<exists>bs. frame_encode ae (dx_data_frame c i p) k = Inr bs"
proof -
  let ?q = "replicate (padding_length (length p) DEFAULT_PADDING_BOUNDARY) (0::byte)"
  let ?pt = "u16_to_be (of_nat (length p)) @ p @ u16_to_be (of_nat (length ?q)) @ ?q"
  let ?f = "dx_data_frame c i p"
  have q: "length ?q < 64" using padding_length_less [of 64] by (simp add: DEFAULT_PADDING_BOUNDARY_def)
  obtain ct where ct: "ae_encrypt ae k (nonce_for_msg_id i) (fh_encode_aad (fr_header ?f)) ?pt = Some ct"
    using assms(2) unfolding aead_total_def by (meson not_None_eq)
  then have "length ct = length ?pt + TAG_LEN" using assms(1) by (auto simp: aead_correct_def)
  then have "HEADER_LEN + NONCE_LEN + length ct \<le> MAX_FRAME_SIZE"
    using assms(3) q by (simp add: HEADER_LEN_def NONCE_LEN_def TAG_LEN_def MAX_FRAME_SIZE_def)
  with ct assms(3) q show ?thesis
    by (simp add: frame_encode_def pack_def encode_body_def dx_data_frame_def aead_seal_def Let_def)
qed

lemma dx_send_linked:
  assumes ae: "aead_correct ae" "aead_total ae" and lk: "dx_linked d n A (B :: 'q dcx)" and p: "length p \<le> 65535"
    and n: "n < 2 ^ 64 - 1"
  obtains A' k h bs B' where "dx_send_to_peer cs ae kp d p A = (A', Inr ())" "dx_wire A' = dx_wire A @ [(k, h, bs)]"
    "dx_try_handle ae bs B = (B', Handled)" "dx_linked d (Suc n) A' B'"
    "dx_dispatched B' = dx_dispatched B @ [(fh_channel_id h, of_nat n, the_body p)]"
proof -
  from lk obtain arc a arc' b where A: "cm_get_by_peer_did (dx_channels A) d = Some arc"
      "cm_cell (dx_channels A) arc = Some a" "dx_ws_open A" "ch_k_send a = ch_k_recv b"
    and B: "cm_get_by_channel_id (dx_channels B) (ch_channel_id a) = Some arc'" "cm_cell (dx_channels B) arc' = Some b"
    and len: "length (ch_channel_id a) = 16" "length (ch_peer_routing_prefix a) = 16"
    and i: "unat (ch_msg_id_send a) = n" and fresh: "ch_received_any b \<longrightarrow> ch_msg_id_recv b < ch_msg_id_send a"
    by (auto simp: dx_linked_def)
  let ?i = "ch_msg_id_send a"
  have i': "?i = of_nat n" using i by (simp add: i [symmetric])
  have next': "unat (saturating_add ?i 1) = Suc n" "?i < saturating_add ?i 1"
    using i n by (simp_all add: saturating_add_def word_less_nat_alt unat_word_ariths)
  obtain r a1 where res: "dx_reserve arc a A = (r, a1)" by (cases "dx_reserve arc a A")
  have a1: "\<exists>x. a1 = a\<lparr>ch_send_reserved := x\<rparr>" and r: "dx_channels r = cm_write arc a1 (dx_channels A) \<or> r = A"
    "dx_ws_open r = dx_ws_open A" "dx_wire r = dx_wire A"
    using res by (auto simp: dx_reserve_def ch_reserve_send_def Let_def split: if_splits option.splits
        intro: exI [of _ "ch_send_reserved a"])
  let ?a2 = "a1\<lparr>ch_msg_id_send := saturating_add ?i 1\<rparr>"
  let ?f = "dx_data_frame ?a2 ?i p"
  obtain bs where enc: "frame_encode ae ?f (ch_k_send a) = Inr bs" using data_frame_encodes [OF ae p] by blast
  let ?A = "r\<lparr>dx_channels := cm_write arc ?a2 (dx_channels r), dx_wire := dx_wire r @ [(ch_k_send a, fr_header ?f, bs)]\<rparr>"
  have send: "dx_send_to_peer cs ae kp d p A = (?A, Inr ())"
    using A a1 enc r(2) by (auto simp: dx_send_to_peer_def dx_acquire_def dx_transmit_def res ch_next_send_msg_id_def Let_def)
  have wf: "frame_wf ?f"
    using len a1 p padding_length_less [of 64 "length p"]
    by (auto simp: frame_wf_def dx_data_frame_def header_wf_def DEFAULT_PADDING_BOUNDARY_def)
  obtain tail where dec: "decode_header bs = Inr (fr_header ?f, tail)"
      "decode_and_verify ae (fr_header ?f) tail (ch_k_recv b) = Inr (fr_body ?f)"
    using frame_decode_parts [OF frame_decode_encode [OF ae(1) wf enc]] A(4) by metis
  let ?b = "b\<lparr>ch_msg_id_recv := ?i, ch_received_any := True\<rparr>"
  have obs: "ch_observe_recv ?i b = Inr ?b" using fresh by (auto simp: ch_observe_recv_def)
  have h: "fh_channel_id (fr_header ?f) = ch_channel_id a" "fh_msg_id (fr_header ?f) = ?i" "fr_body ?f = the_body p"
    using a1 by (auto simp: dx_data_frame_def the_body_def)
  obtain B' where recv: "dx_try_handle ae bs B = (B', Handled)"
    "dx_dispatched B' = dx_dispatched B @ [(ch_channel_id a, ?i, the_body p)]"
    "dx_channels B' = cm_write arc' ?b (dx_channels B)"
    using B dec obs h by (simp add: dx_try_handle_def Let_def split: option.splits)
  have "dx_linked d (Suc n) ?A B'"
    unfolding dx_linked_def
    using A B len next' recv(3) a1 r
    by (auto simp: cm_defs split: option.splits)
  with send recv r(3) h that [of ?A "ch_k_send a" "fr_header ?f" bs B'] show thesis by (simp add: i')
qed

text \<open>Sending a list of payloads, and handing a list of frames to the receiver.\<close>

definition dx_send_all ::
  "crypto_suite \<Rightarrow> aead \<Rightarrow> 'p key_provider \<Rightarrow> string \<Rightarrow> bytes list \<Rightarrow> 'p dcx \<Rightarrow> 'p dcx" where
  "dx_send_all cs ae kp d ps s = fold (\<lambda>p s. fst (dx_send_to_peer cs ae kp d p s)) ps s"

definition dx_handle_all :: "aead \<Rightarrow> bytes list \<Rightarrow> 'p dcx \<Rightarrow> 'p dcx" where
  "dx_handle_all ae fs s = fold (\<lambda>bs s. fst (dx_try_handle ae bs s)) fs s"

lemma dx_linked_delivers:
  assumes ae: "aead_correct ae" "aead_total ae"
  shows "dx_linked d n A B \<Longrightarrow> \<forall>p\<in>set ps. length p \<le> 65535 \<Longrightarrow> n + length ps < 2 ^ 64 \<Longrightarrow>
    \<exists>w. dx_wire (dx_send_all cs ae kp d ps A) = dx_wire A @ w \<and>
      map (\<lambda>(c, i, b). b) (dx_dispatched (dx_handle_all ae (map (\<lambda>(k, h, bs). bs) w) B)) =
      map (\<lambda>(c, i, b). b) (dx_dispatched B) @ map the_body ps"
proof (induction ps arbitrary: n A B)
  case Nil
  then show ?case by (simp add: dx_send_all_def dx_handle_all_def)
next
  case (Cons p ps)
  have "length p \<le> 65535" "n < 2 ^ 64 - 1" using Cons.prems by auto
  from dx_send_linked [OF ae Cons.prems(1) this, of cs kp]
  obtain A' k h bs B' where one: "dx_send_to_peer cs ae kp d p A = (A', Inr ())" "dx_wire A' = dx_wire A @ [(k, h, bs)]"
    "dx_try_handle ae bs B = (B', Handled)" "dx_linked d (Suc n) A' B'"
    "dx_dispatched B' = dx_dispatched B @ [(fh_channel_id h, of_nat n, the_body p)]" .
  obtain w where "dx_wire (dx_send_all cs ae kp d ps A') = dx_wire A' @ w"
    "map (\<lambda>(c, i, b). b) (dx_dispatched (dx_handle_all ae (map (\<lambda>(k, h, bs). bs) w) B')) =
       map (\<lambda>(c, i, b). b) (dx_dispatched B') @ map the_body ps"
    using Cons.IH [OF one(4)] Cons.prems by auto
  then show ?case
    using one by (intro exI [of _ "(k, h, bs) # w"]) (simp add: dx_send_all_def dx_handle_all_def)
qed

definition rt_connected :: "crypto_suite \<Rightarrow> key_material \<Rightarrow> classical_provider dcx" where
  "rt_connected cs m = rt_ensure_channel cs (None :: (unit key_provider \<times> unit) option) (km_peer_did m) (rt_register_classical_peer m rt_new)"

lemma cp_derive_keys_ok:
  assumes "\<not> list_all (\<lambda>b. b = 0) z"
  obtains kek auth where "cp_derive_keys cs z a b = Inr (kek, auth)" "cp_derive_keys cs z b a = Inr (kek, auth)"
proof -
  have "\<exists>ka. cp_derive_keys cs z a b = Inr ka"
    using assms by (simp add: cp_derive_keys_def hkdf_expand_def Let_def split: prod.splits)
  then show ?thesis using that cp_derive_keys_sym [of cs z a b] by auto
qed

lemma rt_connected_channel:
  assumes "cp_derive_keys cs (cs_dh cs (km_our_x25519_secret m) (km_peer_x25519_public m)) (km_our_did m) (km_peer_did m) = Inr (kek, auth)"
  shows "\<exists>c. dx_channels (rt_connected cs m) = cm_insert c cm_new \<and> ch_peer_did c = km_peer_did m \<and>
    ch_channel_id c = derive_channel_id cs PROVIDER_ID (km_connection_id m) 0 \<and>
    ch_peer_routing_prefix c = derive_routing_prefix cs (km_peer_kid m) \<and>
    ch_k_send c = dk_send (derive_directional_keys cs kek (km_our_did m < km_peer_did m)) \<and>
    ch_k_recv c = dk_recv (derive_directional_keys cs kek (km_our_did m < km_peer_did m)) \<and>
    ch_msg_id_send c = 0 \<and> \<not> ch_received_any c"
    "dx_wire (rt_connected cs m) = []" "dx_dispatched (rt_connected cs m) = []" "dx_ws_open (rt_connected cs m)"
proof -
  let ?keys = "\<lparr>sk_kek = kek, sk_auth_key = auth, sk_generation = 0, sk_peer_kid = km_peer_kid m,
    sk_connection_id = km_connection_id m, sk_is_initiator = (km_our_did m < km_peer_did m)\<rparr>"
  let ?c = "ch_from_session_keys cs ?keys (km_peer_did m) PROVIDER_ID (km_our_did m < km_peer_did m)"
  have none: "cm_get_by_peer_did cm_new d = None" for d by (simp add: cm_new_def cm_get_by_peer_did_def)
  have run: "rt_connected cs m = dx_register ?c (rt_new\<lparr>dx_provider := fst (cp_establish cs
      (cp_register_peer_material m cp_new) (km_peer_did m))\<rparr>)"
    using assms none
    by (simp add: rt_connected_def rt_ensure_channel_def rt_register_classical_peer_def rt_new_def cp_establish_def
        cp_register_peer_material_def cp_new_def Let_def dx_build_channel_def)
  then show "dx_wire (rt_connected cs m) = []" "dx_dispatched (rt_connected cs m) = []" "dx_ws_open (rt_connected cs m)"
    by (simp_all add: dx_register_def rt_new_def)
  have "dx_channels (rt_connected cs m) = cm_insert ?c cm_new" by (simp add: run dx_register_def rt_new_def)
  then show "\<exists>c. dx_channels (rt_connected cs m) = cm_insert c cm_new \<and> ch_peer_did c = km_peer_did m \<and>
    ch_channel_id c = derive_channel_id cs PROVIDER_ID (km_connection_id m) 0 \<and>
    ch_peer_routing_prefix c = derive_routing_prefix cs (km_peer_kid m) \<and>
    ch_k_send c = dk_send (derive_directional_keys cs kek (km_our_did m < km_peer_did m)) \<and>
    ch_k_recv c = dk_recv (derive_directional_keys cs kek (km_our_did m < km_peer_did m)) \<and>
    ch_msg_id_send c = 0 \<and> \<not> ch_received_any c"
    by (intro exI [of _ ?c]) (simp add: ch_from_session_keys_def Let_def)
qed

lemma rt_connected_linked:
  assumes sha: "\<forall>x. length (cs_sha256 cs x) = 32" and mir: "material_mirrors cs m n"
    and z: "\<not> list_all (\<lambda>b. b = 0) (cs_dh cs (km_our_x25519_secret m) (km_peer_x25519_public m))"
  shows "dx_linked (km_peer_did m) 0 (rt_connected cs m) (rt_connected cs n)"
proof -
  let ?z = "cs_dh cs (km_our_x25519_secret m) (km_peer_x25519_public m)"
  have z': "cs_dh cs (km_our_x25519_secret n) (km_peer_x25519_public n) = ?z"
    and did: "km_our_did n = km_peer_did m" "km_peer_did n = km_our_did m" "km_our_did m \<noteq> km_peer_did m"
    and conn: "km_connection_id n = km_connection_id m" using mir by (auto simp: material_mirrors_def)
  obtain kek auth where k: "cp_derive_keys cs ?z (km_our_did m) (km_peer_did m) = Inr (kek, auth)"
      "cp_derive_keys cs ?z (km_peer_did m) (km_our_did m) = Inr (kek, auth)" by (rule cp_derive_keys_ok [OF z])
  have role: "(km_peer_did m < km_our_did m) = (\<not> km_our_did m < km_peer_did m)" using did(3) by auto
  from rt_connected_channel(1) [OF k(1)] obtain a where a: "dx_channels (rt_connected cs m) = cm_insert a cm_new"
    "ch_peer_did a = km_peer_did m" "ch_channel_id a = derive_channel_id cs PROVIDER_ID (km_connection_id m) 0"
    "ch_peer_routing_prefix a = derive_routing_prefix cs (km_peer_kid m)"
    "ch_k_send a = dk_send (derive_directional_keys cs kek (km_our_did m < km_peer_did m))" "ch_msg_id_send a = 0" by auto
  from rt_connected_channel(1) [of cs n kek auth] obtain b where b: "dx_channels (rt_connected cs n) = cm_insert b cm_new"
    "ch_channel_id b = derive_channel_id cs PROVIDER_ID (km_connection_id m) 0" "\<not> ch_received_any b"
    "ch_k_recv b = dk_recv (derive_directional_keys cs kek (km_peer_did m < km_our_did m))"
    using k(2) by (auto simp: z' did conn)
  have "ch_k_send a = ch_k_recv b" unfolding a b role by (rule directional_keys_mirror)
  moreover have "cm_get_by_peer_did (dx_channels (rt_connected cs m)) (km_peer_did m) = Some (cm_next cm_new)"
    "cm_cell (dx_channels (rt_connected cs m)) (cm_next cm_new) = Some a"
    "cm_get_by_channel_id (dx_channels (rt_connected cs n)) (ch_channel_id a) = Some (cm_next cm_new)"
    "cm_cell (dx_channels (rt_connected cs n)) (cm_next cm_new) = Some b"
    using cm_insert_lookup [of a cm_new] cm_insert_lookup [of b cm_new] a b by simp_all
  moreover have "length (ch_channel_id a) = 16" "length (ch_peer_routing_prefix a) = 16"
    using sha by (simp_all add: a derive_channel_id_def derive_routing_prefix_def)
  ultimately show ?thesis
    unfolding dx_linked_def using rt_connected_channel(4) [OF k(1)] a(6) b(3) by fastforce
qed

text \<open>
  C16. Delivery: two agents that registered mirrored key material and prepared their channels
  derive matching keys and the same channel id without exchanging a byte, and then whatever
  payloads of at most 65535 bytes one sends, in whatever number, the other dispatches exactly
  these payloads, in order.
\<close>

theorem dcx_delivers:
  assumes "aead_correct ae" "aead_total ae" "\<forall>x. length (cs_sha256 cs x) = 32" "material_mirrors cs m n"
    and "\<not> list_all (\<lambda>b. b = 0) (cs_dh cs (km_our_x25519_secret m) (km_peer_x25519_public m))"
    and "\<forall>p\<in>set ps. length p \<le> 65535" "length ps < 2 ^ 64"
    and "A = dx_send_all cs ae (classical cs) (km_peer_did m) ps (rt_connected cs m)"
  shows "map (\<lambda>(c, i, b). b) (dx_dispatched (dx_handle_all ae (map (\<lambda>(k, h, bs). bs) (dx_wire A)) (rt_connected cs n))) =
    map (\<lambda>p. Data p (replicate (padding_length (length p) DEFAULT_PADDING_BOUNDARY) 0)) ps"
proof -
  let ?z = "cs_dh cs (km_our_x25519_secret m) (km_peer_x25519_public m)"
  obtain kek auth where k: "cp_derive_keys cs ?z (km_our_did m) (km_peer_did m) = Inr (kek, auth)"
    "cp_derive_keys cs ?z (km_peer_did m) (km_our_did m) = Inr (kek, auth)" by (rule cp_derive_keys_ok [OF assms(5)])
  have n: "cp_derive_keys cs (cs_dh cs (km_our_x25519_secret n) (km_peer_x25519_public n)) (km_our_did n) (km_peer_did n) = Inr (kek, auth)"
    using assms(4) k(2) by (simp add: material_mirrors_def)
  from dx_linked_delivers [OF assms(1,2) rt_connected_linked [OF assms(3-5)] assms(6), of cs "classical cs"]
  obtain w where w: "dx_wire A = dx_wire (rt_connected cs m) @ w"
    "map (\<lambda>(c, i, b). b) (dx_dispatched (dx_handle_all ae (map (\<lambda>(k, h, bs). bs) w) (rt_connected cs n))) =
       map (\<lambda>(c, i, b). b) (dx_dispatched (rt_connected cs n)) @ map the_body ps"
    using assms(7,8) by auto
  show ?thesis
    using w rt_connected_channel(2) [OF k(1)] rt_connected_channel(3) [OF n] by (simp add: the_body_def [abs_def])
qed

definition demo_crypto :: crypto_suite where
  "demo_crypto = \<lparr>cs_sha256 = (\<lambda>bs. take 32 (rev bs @ replicate 32 0)),
     cs_hkdf = (\<lambda>salt ikm info n. take n (rev info @ ikm @ replicate n 0)),
     cs_dh = (\<lambda>s p. [hd s + hd p])\<rparr>"

definition demo_alice :: key_material where
  "demo_alice = \<lparr>km_our_x25519_secret = [3], km_peer_x25519_public = [4], km_our_did = ''did:a'', km_peer_did = ''did:b'',
     km_peer_kid = ''did:b#1'', km_connection_id = ''c''\<rparr>"

definition demo_bob :: key_material where
  "demo_bob = \<lparr>km_our_x25519_secret = [4], km_peer_x25519_public = [3], km_our_did = ''did:b'', km_peer_did = ''did:a'',
     km_peer_kid = ''did:a#1'', km_connection_id = ''c''\<rparr>"

lemma demo_pair:
  "material_mirrors demo_crypto demo_alice demo_bob" "\<forall>x. length (cs_sha256 demo_crypto x) = 32"
  "\<not> list_all (\<lambda>b. b = 0) (cs_dh demo_crypto (km_our_x25519_secret demo_alice) (km_peer_x25519_public demo_alice))"
  by (auto simp: material_mirrors_def demo_crypto_def demo_alice_def demo_bob_def min_def)

lemma tag_aead_total: "aead_total tag_aead"
  by (simp add: aead_total_def tag_aead_def)

theorem dcx_delivers_witness:
  "map (\<lambda>(c, i, b). b) (dx_dispatched (dx_handle_all tag_aead (map (\<lambda>(k, h, bs). bs)
     (dx_wire (dx_send_all demo_crypto tag_aead (classical demo_crypto) ''did:b'' [[1, 2], [3]] (rt_connected demo_crypto demo_alice))))
     (rt_connected demo_crypto demo_bob))) = [Data [1, 2] (replicate 52 0), Data [3] (replicate 53 0)]"
  using dcx_delivers [OF tag_aead_ok(1) tag_aead_total demo_pair(2,1,3), of "[[1, 2], [3]]"]
  by (simp add: padding_length_def FRAME_OVERHEAD_BYTES_def DEFAULT_PADDING_BOUNDARY_def demo_alice_def)

text \<open>A run with a restart: the first frame after it continues above the reserved block.\<close>

definition demo_events :: "unit dcx_event list" where
  "demo_events = [EvMaterial demo_alice, EvSend ''did:b'' [1], EvRestart, EvMaterial demo_alice, EvSend ''did:b'' [2]]"

lemma demo_run:
  "\<exists>k p bs bs'. dx_wire (dcx_run demo_crypto tag_aead demo_events (rt_set_counter_store [] rt_new)) =
     [(k, \<lparr>fh_frame_type = FRAME_TYPE_DATA, fh_version = FRAME_VERSION,
           fh_channel_id = derive_channel_id demo_crypto PROVIDER_ID ''c'' 0, fh_routing_prefix = p, fh_msg_id = 0\<rparr>, bs),
      (k, \<lparr>fh_frame_type = FRAME_TYPE_DATA, fh_version = FRAME_VERSION,
           fh_channel_id = derive_channel_id demo_crypto PROVIDER_ID ''c'' 0, fh_routing_prefix = p, fh_msg_id = 1024\<rparr>, bs')]"
proof -
  have mx: "max (1024 :: u64) 1 = 1024" by (simp add: max_def word_le_nat_alt)
  define E where "E = (\<lambda>c i p k. projr (frame_encode tag_aead (dx_data_frame c i p) k))"
  have E: "frame_encode tag_aead (dx_data_frame c i p) k = Inr (E c i p k)" if "length p \<le> 65535" for c i p k
    using data_frame_encodes [OF tag_aead_ok(1) tag_aead_total that, of c i k] by (auto simp: E_def)
  have hdr: "fr_header (dx_data_frame c i p) = \<lparr>fh_frame_type = FRAME_TYPE_DATA, fh_version = FRAME_VERSION,
      fh_channel_id = ch_channel_id c, fh_routing_prefix = ch_peer_routing_prefix c, fh_msg_id = i\<rparr>" for c i p
    by (simp add: dx_data_frame_def)
  obtain kek auth where k: "cp_derive_keys demo_crypto (cs_dh demo_crypto [3] [4]) ''did:a'' ''did:b'' = Inr (kek, auth)"
    using cp_derive_keys_ok [of "cs_dh demo_crypto [3] [4]" demo_crypto "''did:a''" "''did:b''"]
    by (metis demo_pair(3) demo_alice_def key_material.select_convs(1,2))
  show ?thesis
    by (simp add: dcx_run_def demo_events_def dx_send_to_peer_def dx_acquire_def dx_transmit_def dx_reserve_def
        rt_set_counter_store_def rt_new_def cm_defs cm_new_def rt_register_classical_peer_def
        cp_register_peer_material_def cp_new_def classical_def cp_establish_def demo_alice_def k Let_def E
        dx_register_def dx_build_channel_def ch_from_session_keys_def ch_resume_def store_load_def
        store_save_send_reserved_def store_get_def pc_default_def ch_needs_send_reservation_def ch_reserve_send_def
        ch_next_send_msg_id_def SEND_RESERVATION_BATCH_def saturating_add_def mx hdr)
qed

theorem wire_ids_increase_witness:
  "\<exists>w h h' k bs bs'. w = dx_wire (dcx_run demo_crypto tag_aead demo_events (rt_set_counter_store [] rt_new)) \<and>
     w ! 0 = (k, h, bs) \<and> w ! 1 = (k, h', bs') \<and> fh_msg_id h = 0 \<and> fh_msg_id h' = 1024 \<and>
     (fh_msg_id h < fh_msg_id h' \<or> fh_msg_id h' = - 1)"
proof -
  let ?w = "dx_wire (dcx_run demo_crypto tag_aead demo_events (rt_set_counter_store [] rt_new))"
  obtain k p bs bs' where w: "?w =
     [(k, \<lparr>fh_frame_type = FRAME_TYPE_DATA, fh_version = FRAME_VERSION,
           fh_channel_id = derive_channel_id demo_crypto PROVIDER_ID ''c'' 0, fh_routing_prefix = p, fh_msg_id = 0\<rparr>, bs),
      (k, \<lparr>fh_frame_type = FRAME_TYPE_DATA, fh_version = FRAME_VERSION,
           fh_channel_id = derive_channel_id demo_crypto PROVIDER_ID ''c'' 0, fh_routing_prefix = p, fh_msg_id = 1024\<rparr>, bs')]"
    using demo_run by blast
  from wire_ids_increase [of 0 1 ?w, OF _ _ refl] show ?thesis unfolding w by fastforce
qed

section \<open>What an accepted frame proves\<close>

text \<open>
  C25. Only authentic frames have an effect: a received byte string that is not handled leaves the
  whole runtime unchanged, and one that is handled is exactly the encryption, under the receive
  key of a registered channel and the nonce of its message id, of a plaintext that decodes to
  the body given to the application, on the channel the header names.
\<close>

theorem dx_handle_authentic:
  assumes ae: "aead_tight ae" and run: "dx_try_handle ae bs s = (s', out)"
  shows "(out \<noteq> Handled \<longrightarrow> s' = s) \<and>
    (out = Handled \<longrightarrow> (\<exists>h c pt ct body. cm_channel (dx_channels s) (fh_channel_id h) = Some c \<and>
       bs = fh_encode_aad h @ nonce_for_msg_id (fh_msg_id h) @ ct \<and>
       ae_encrypt ae (ch_k_recv c) (nonce_for_msg_id (fh_msg_id h)) (fh_encode_aad h) pt = Some ct \<and>
       decode_body (fh_frame_type h) pt = Inr body \<and>
       dx_dispatched s' = dx_dispatched s @ [(fh_channel_id h, fh_msg_id h, body)]))"
proof (cases "out = Handled")
  case False
  with run show ?thesis by (auto simp: dx_try_handle_def Let_def split: sum.splits option.splits)
next
  case True
  with run obtain h tail arc c body where hd: "decode_header bs = Inr (h, tail)"
    and ch: "cm_get_by_channel_id (dx_channels s) (fh_channel_id h) = Some arc" "cm_cell (dx_channels s) arc = Some c"
    and ver: "decode_and_verify ae h tail (ch_k_recv c) = Inr body"
    and disp: "dx_dispatched s' = dx_dispatched s @ [(fh_channel_id h, fh_msg_id h, body)]"
    by (auto simp: dx_try_handle_def Let_def split: sum.splits option.splits)
  obtain pt ct where "bs = fh_encode_aad h @ nonce_for_msg_id (fh_msg_id h) @ ct"
    "ae_encrypt ae (ch_k_recv c) (nonce_for_msg_id (fh_msg_id h)) (fh_encode_aad h) pt = Some ct"
    "decode_body (fh_frame_type h) pt = Inr body"
    using decode_verified [OF ae hd ver] by blast
  moreover have "cm_channel (dx_channels s) (fh_channel_id h) = Some c" using ch by (simp add: cm_channel_def)
  ultimately show ?thesis using True disp by blast
qed

section \<open>Concurrent senders\<close>

text \<open>
  \<open>send_to_peer\<close> as the sequence of its awaits: other tasks run between two of them. The channel's
  lock covers the last step only.
\<close>

datatype send_task =
  TStart | TEstablish | TBuild session_keys | TRegister channel | TLocked nat | TDone "outbound_error + unit"

fun send_step ::
  "crypto_suite \<Rightarrow> aead \<Rightarrow> 'p key_provider \<Rightarrow> string \<Rightarrow> bytes \<Rightarrow> send_task \<times> 'p dcx \<Rightarrow> send_task \<times> 'p dcx" where
  "send_step cs ae kp d payload (TStart, s) =
     (case cm_get_by_peer_did (dx_channels s) d of Some arc \<Rightarrow> (TLocked arc, s) | None \<Rightarrow> (TEstablish, s))"
| "send_step cs ae kp d payload (TEstablish, s) =
     (case kp_establish kp (dx_provider s) d of
        (p, Inl e) \<Rightarrow> (TDone (Inl (Provider e)), s\<lparr>dx_provider := p\<rparr>)
      | (p, Inr keys) \<Rightarrow> (TBuild keys, s\<lparr>dx_provider := p\<rparr>))"
| "send_step cs ae kp d payload (TBuild keys, s) =
     (TRegister (dx_build_channel cs (kp_provider_id kp) (dx_store s) keys d), s)"
| "send_step cs ae kp d payload (TRegister c, s) =
     (let s = dx_register c s
      in case cm_get_by_peer_did (dx_channels s) d of
           None \<Rightarrow> (TDone (Inl (WsUnavailable ''channel registration race'')), s)
         | Some arc \<Rightarrow> (TLocked arc, s))"
| "send_step cs ae kp d payload (TLocked arc, s) =
     (let (s, r) = dx_transmit ae arc payload s in (TDone r, s))"
| "send_step cs ae kp d payload (TDone r, s) = (TDone r, s)"

text \<open>Without other tasks the steps are the whole call.\<close>

lemma send_steps_alone:
  "((send_step cs ae kp d payload) ^^ 5) (TStart, s) =
     (let (s', r) = dx_send_to_peer cs ae kp d payload s in (TDone r, s'))"
  by (simp add: numeral_eq_Suc dx_send_to_peer_def dx_acquire_def Let_def split: option.splits prod.splits sum.splits)

text \<open>Two calls for one peer; a schedule says which of them moves.\<close>

fun two_senders ::
  "crypto_suite \<Rightarrow> aead \<Rightarrow> 'p key_provider \<Rightarrow> string \<Rightarrow> bytes \<Rightarrow> bytes \<Rightarrow> bool list \<Rightarrow>
   send_task \<times> send_task \<times> 'p dcx \<Rightarrow> send_task \<times> send_task \<times> 'p dcx" where
  "two_senders cs ae kp d x y [] st = st"
| "two_senders cs ae kp d x y (b # sched) (t, u, s) =
     (if b then let (t', s') = send_step cs ae kp d x (t, s) in two_senders cs ae kp d x y sched (t', u, s')
      else let (u', s') = send_step cs ae kp d y (u, s) in two_senders cs ae kp d x y sched (t, u', s'))"

text \<open>The effect of a transmission that goes out.\<close>

lemma dx_transmit_wire:
  assumes "aead_correct ae" "aead_total ae" "length p \<le> 65535" "cm_cell (dx_channels s) arc = Some c" "dx_ws_open s"
  shows "\<exists>bs. dx_wire (fst (dx_transmit ae arc p s)) =
    dx_wire s @ [(ch_k_send c, fr_header (dx_data_frame c (ch_msg_id_send c) p), bs)]"
    "dx_ws_open (fst (dx_transmit ae arc p s))"
proof -
  obtain r c1 where res: "dx_reserve arc c s = (r, c1)" by (cases "dx_reserve arc c s")
  have c1: "\<exists>x. c1 = c\<lparr>ch_send_reserved := x\<rparr>" and r: "dx_ws_open r" "dx_wire r = dx_wire s"
    using res assms(5) by (auto simp: dx_reserve_def ch_reserve_send_def Let_def split: if_splits option.splits
        intro: exI [of _ "ch_send_reserved c"])
  let ?c2 = "c1\<lparr>ch_msg_id_send := saturating_add (ch_msg_id_send c1) 1\<rparr>"
  obtain bs where "frame_encode ae (dx_data_frame ?c2 (ch_msg_id_send c1) p) (ch_k_send ?c2) = Inr bs"
    using data_frame_encodes [OF assms(1-3)] by blast
  with assms(4) res r c1
  show "\<exists>bs. dx_wire (fst (dx_transmit ae arc p s)) =
      dx_wire s @ [(ch_k_send c, fr_header (dx_data_frame c (ch_msg_id_send c) p), bs)]"
    "dx_ws_open (fst (dx_transmit ae arc p s))"
    by (auto simp: dx_transmit_def ch_next_send_msg_id_def Let_def dx_data_frame_def)
qed

text \<open>
  The first messages to a peer, sent concurrently, can go out under one nonce: the lookup of a
  channel and its registration are separate steps without a lock around them, so two calls of
  \<open>send_to_peer\<close> can both build a channel, from the same keys and the same stored counters, and
  each starts at the same message id. The two frames then carry the same header and are
  encrypted under the same key and nonce, whatever the payloads, with a counter store or without.
\<close>

theorem concurrent_sends_reuse_nonce:
  assumes ae: "aead_correct ae" "aead_total ae" and len: "length x \<le> 65535" "length y \<le> 65535"
    and open': "dx_ws_open s" and new: "cm_get_by_peer_did (dx_channels s) d = None"
    and est: "cp_establish cs (dx_provider s) d = (p, Inr keys)"
  shows "\<exists>k h bs bs'. \<exists>sched. dx_wire (snd (snd (two_senders cs ae (classical cs) d x y sched (TStart, TStart, s)))) =
    dx_wire s @ [(k, h, bs), (k, h, bs')]"
proof -
  let ?c = "dx_build_channel cs PROVIDER_ID (dx_store s) keys d"
  have again: "cp_establish cs p d = (p, Inr keys)" by (rule classical.establish_again [OF est])
  have did: "ch_peer_did ?c = d"
    by (simp add: dx_build_channel_def Let_def ch_resume_def ch_from_session_keys_def split: option.splits)
  let ?s1 = "dx_register ?c (s\<lparr>dx_provider := p\<rparr>)" and ?a1 = "cm_next (dx_channels s)"
  let ?s2 = "fst (dx_transmit ae ?a1 x ?s1)"
  let ?s3 = "dx_register ?c ?s2" and ?a2 = "cm_next (dx_channels ?s2)"
  let ?s4 = "fst (dx_transmit ae ?a2 y ?s3)"
  have reg: "cm_get_by_peer_did (dx_channels (dx_register ?c t)) d = Some (cm_next (dx_channels t))"
    "cm_cell (dx_channels (dx_register ?c t)) (cm_next (dx_channels t)) = Some ?c" for t :: "classical_provider dcx"
    using cm_insert_lookup [of ?c "dx_channels t"] by (simp_all add: dx_register_def did)
  have "dx_ws_open ?s1" using open' by (simp add: dx_register_def)
  note one = dx_transmit_wire [OF ae len(1) reg(2) [of "s\<lparr>dx_provider := p\<rparr>", simplified] this]
  then have "dx_ws_open ?s3" by (simp add: dx_register_def)
  note two = dx_transmit_wire [OF ae len(2) reg(2) [of ?s2] this]
  have hdr: "fr_header (dx_data_frame ?c i x) = fr_header (dx_data_frame ?c i y)" for i by (simp add: dx_data_frame_def)
  have "\<exists>k h bs bs'. dx_wire ?s4 = dx_wire s @ [(k, h, bs), (k, h, bs')]"
    using one(1) two(1) by (force simp: dx_register_def hdr)
  moreover have "snd (snd (two_senders cs ae (classical cs) d x y
      [True, True, True, False, False, False, True, True, False, False] (TStart, TStart, s))) = ?s4"
    using new est again reg(1) [of "s\<lparr>dx_provider := p\<rparr>"] reg(1) [of ?s2]
    by (simp add: classical_def Let_def case_prod_beta)
  ultimately show ?thesis by metis
qed

lemma demo_establish:
  "\<exists>p keys. cp_establish demo_crypto (dx_provider (rt_register_classical_peer demo_alice rt_new)) ''did:b'' = (p, Inr keys)"
proof -
  obtain kek auth where "cp_derive_keys demo_crypto (cs_dh demo_crypto [3] [4]) ''did:a'' ''did:b'' = Inr (kek, auth)"
    using cp_derive_keys_ok [of "cs_dh demo_crypto [3] [4]" demo_crypto "''did:a''" "''did:b''"]
    by (metis demo_pair(3) demo_alice_def key_material.select_convs(1,2))
  then show ?thesis
    by (simp add: cp_establish_def rt_register_classical_peer_def rt_new_def cp_register_peer_material_def cp_new_def
        demo_alice_def Let_def)
qed

theorem concurrent_sends_reuse_nonce_witness:
  "\<exists>k h bs bs' sched. dx_wire (snd (snd (two_senders demo_crypto tag_aead (classical demo_crypto) ''did:b'' [1] [2] sched
     (TStart, TStart, rt_register_classical_peer demo_alice rt_new)))) = [(k, h, bs), (k, h, bs')]"
proof -
  let ?s = "rt_register_classical_peer demo_alice rt_new"
  obtain p keys where est: "cp_establish demo_crypto (dx_provider ?s) ''did:b'' = (p, Inr keys)" using demo_establish by blast
  have "dx_ws_open ?s" "cm_get_by_peer_did (dx_channels ?s) ''did:b'' = None" "dx_wire ?s = []"
    by (simp_all add: rt_register_classical_peer_def rt_new_def cm_new_def cm_defs)
  with concurrent_sends_reuse_nonce [OF tag_aead_ok(1) tag_aead_total, of "[1]" "[2]" ?s "''did:b''" demo_crypto p keys] est
  show ?thesis by auto
qed

theorem dx_handle_authentic_witness:
  "\<exists>h c pt ct. cm_channel (dx_channels (rt_connected demo_crypto demo_bob)) (fh_channel_id h) = Some c \<and>
     ae_encrypt tag_aead (ch_k_recv c) (nonce_for_msg_id (fh_msg_id h)) (fh_encode_aad h) pt = Some ct"
proof -
  obtain A' k h bs B' where "dx_try_handle tag_aead bs (rt_connected demo_crypto demo_bob) = (B', Handled)"
    by (rule dx_send_linked [OF tag_aead_ok(1) tag_aead_total rt_connected_linked [OF demo_pair(2,1,3)], where p = "[1]"]) auto
  from dx_handle_authentic [OF tag_aead_ok(2) this] show ?thesis by blast
qed

section \<open>Keys do not depend on the connection\<close>

text \<open>
  The counters belong to the channel id, the key does not: when a peer's material is registered
  again with another connection id and the same X25519 keys, the first frame goes out under the
  same key and with message id 0 again, even though the runtime has a durable store. The pair of
  key and nonce repeats whenever the two connection ids have different channel ids.
\<close>

theorem new_connection_reuses_nonce:
  assumes ae: "aead_correct ae" "aead_total ae" and len: "length x \<le> 65535" "length y \<le> 65535"
    and z: "\<not> list_all (\<lambda>b. b = 0) (cs_dh cs (km_our_x25519_secret m) (km_peer_x25519_public m))"
    and ids: "derive_channel_id cs PROVIDER_ID (km_connection_id m) 0 \<noteq> derive_channel_id cs PROVIDER_ID conn' 0"
    and evs: "evs = [EvMaterial m, EvSend (km_peer_did m) x, EvRestart,
      EvMaterial (m\<lparr>km_connection_id := conn'\<rparr>), EvSend (km_peer_did m) y]"
  shows "\<exists>k h h' bs bs'. dx_wire (dcx_run cs ae evs (rt_set_counter_store [] rt_new)) = [(k, h, bs), (k, h', bs')] \<and>
    fh_msg_id h = 0 \<and> fh_msg_id h' = 0"
proof -
  define E where "E = (\<lambda>c i p k. projr (frame_encode ae (dx_data_frame c i p) k))"
  have E: "frame_encode ae (dx_data_frame c i p) k = Inr (E c i p k)" if "length p \<le> 65535" for c i p k
    using data_frame_encodes [OF ae that, of c i k] by (auto simp: E_def)
  have hdr: "fh_msg_id (fr_header (dx_data_frame c i p)) = i" for c i p by (simp add: dx_data_frame_def)
  have mx: "max (1024 :: u64) 1 = 1024" by (simp add: max_def word_le_nat_alt)
  obtain kek auth where k: "cp_derive_keys cs (cs_dh cs (km_our_x25519_secret m) (km_peer_x25519_public m))
    (km_our_did m) (km_peer_did m) = Inr (kek, auth)" by (rule cp_derive_keys_ok [OF z])
  show ?thesis
    using ids ids [symmetric] len
    by (simp add: evs dcx_run_def dx_send_to_peer_def dx_acquire_def dx_transmit_def dx_reserve_def
        rt_set_counter_store_def rt_new_def cm_defs cm_new_def rt_register_classical_peer_def
        cp_register_peer_material_def cp_new_def classical_def cp_establish_def k Let_def E
        dx_register_def dx_build_channel_def ch_from_session_keys_def ch_resume_def store_load_def
        store_save_send_reserved_def store_get_def pc_default_def ch_needs_send_reservation_def ch_reserve_send_def
        ch_next_send_msg_id_def SEND_RESERVATION_BATCH_def saturating_add_def mx hdr)
qed

theorem new_connection_reuses_nonce_witness:
  "\<exists>k h h' bs bs'. dx_wire (dcx_run demo_crypto tag_aead
     [EvMaterial demo_alice, EvSend ''did:b'' [1], EvRestart, EvMaterial (demo_alice\<lparr>km_connection_id := ''d''\<rparr>), EvSend ''did:b'' [2]]
     (rt_set_counter_store [] rt_new)) = [(k, h, bs), (k, h', bs')] \<and> fh_msg_id h = 0 \<and> fh_msg_id h' = 0"
proof -
  have five: "length (u32_to_be 0) = 4" by simp
  have "derive_channel_id demo_crypto PROVIDER_ID c 0 ! 4 = last (str_bytes c)" if "c \<noteq> []" for c
    using that by (cases c rule: rev_cases)
      (simp_all add: derive_channel_id_def demo_crypto_def nth_append rev_nth five)
  from this [of "''c''"] this [of "''d''"]
  have "derive_channel_id demo_crypto PROVIDER_ID ''c'' 0 \<noteq> derive_channel_id demo_crypto PROVIDER_ID ''d'' 0" by auto
  with new_connection_reuses_nonce [OF tag_aead_ok(1) tag_aead_total, of "[1]" "[2]" demo_crypto demo_alice "''d''"] demo_pair(3)
  show ?thesis by (simp add: demo_alice_def)
qed

end
