(* ===== verification/Storage_Provider.thy ===== *)
theory Storage_Provider
  imports Idiom_Prelude
begin

text \<open>
  Record storage: the trait \<open>StorageProvider\<close> with \<open>Record\<close> and \<open>Query\<close> of
  \<open>core/agent_core/src/traits/storage.rs\<close> and the in-memory backend of \<open>storage/src/memory.rs\<close>.
  The trait is called through \<open>dyn\<close>: a backend is a record of operations on a state of its own
  type. The locale \<open>storage_provider\<close> states what clients rely on, for backends that may fail;
  the in-memory backend is its interpretation.
\<close>

type_synonym tags = "(string, string) hash_map"

record storage_record =
  rec_category :: string
  rec_name :: string
  rec_value :: "8 word list"
  rec_tags :: tags

definition record_new :: "string \<Rightarrow> string \<Rightarrow> 8 word list \<Rightarrow> storage_record" where
  "record_new category name value = \<lparr>rec_category = category, rec_name = name, rec_value = value, rec_tags = []\<rparr>"

definition record_with_tags :: "tags \<Rightarrow> storage_record \<Rightarrow> storage_record" where
  "record_with_tags ts r = r\<lparr>rec_tags := ts\<rparr>"

definition record_add_tag :: "string \<Rightarrow> string \<Rightarrow> storage_record \<Rightarrow> storage_record" where
  "record_add_tag k v r = r\<lparr>rec_tags := hm_insert k v (rec_tags r)\<rparr>"

record query =
  q_tags :: tags
  q_limit :: "nat option"
  q_skip :: "nat option"

definition query_new :: query where
  "query_new = \<lparr>q_tags = [], q_limit = None, q_skip = None\<rparr>"

definition query_with_tag :: "string \<Rightarrow> string \<Rightarrow> query \<Rightarrow> query" where
  "query_with_tag k v q = q\<lparr>q_tags := hm_insert k v (q_tags q)\<rparr>"

definition query_with_limit :: "nat \<Rightarrow> query \<Rightarrow> query" where
  "query_with_limit n q = q\<lparr>q_limit := Some n\<rparr>"

definition query_with_skip :: "nat \<Rightarrow> query \<Rightarrow> query" where
  "query_with_skip n q = q\<lparr>q_skip := Some n\<rparr>"

datatype agent_error = AgentStorage string

fun agent_error_str :: "agent_error \<Rightarrow> string" where
  "agent_error_str (AgentStorage m) = ''Storage error: '' @ m"

record 's storage_ops =
  st_save :: "storage_record \<Rightarrow> 's \<Rightarrow> 's \<times> (agent_error + unit)"
  st_find :: "string \<Rightarrow> string \<Rightarrow> 's \<Rightarrow> agent_error + storage_record option"
  st_find_all :: "string \<Rightarrow> query \<Rightarrow> 's \<Rightarrow> agent_error + storage_record list"
  st_update :: "storage_record \<Rightarrow> 's \<Rightarrow> 's \<times> (agent_error + unit)"
  st_delete :: "string \<Rightarrow> string \<Rightarrow> 's \<Rightarrow> 's \<times> (agent_error + unit)"

text \<open>The trait's default \<open>count\<close>.\<close>

definition storage_count :: "'s storage_ops \<Rightarrow> string \<Rightarrow> query \<Rightarrow> 's \<Rightarrow> agent_error + nat" where
  "storage_count ops category q s = map_sum id length (st_find_all ops category q s)"

section \<open>The in-memory backend\<close>

type_synonym memory_storage = "(string, (string, storage_record) hash_map) hash_map"

definition mem_category :: "memory_storage \<Rightarrow> string \<Rightarrow> (string, storage_record) hash_map" where
  "mem_category d category = (case hm_get d category of None \<Rightarrow> [] | Some m \<Rightarrow> m)"

text \<open>\<open>entry(..).or_default()\<close> leaves an empty category behind even when the call then fails.\<close>

definition mem_save :: "storage_record \<Rightarrow> memory_storage \<Rightarrow> memory_storage \<times> (agent_error + unit)" where
  "mem_save r d =
     (let category_map = mem_category d (rec_category r)
      in if hm_contains category_map (rec_name r)
         then (hm_insert (rec_category r) category_map d,
               Inl (AgentStorage (''Record already exists: '' @ rec_category r @ ''/'' @ rec_name r)))
         else (hm_insert (rec_category r) (hm_insert (rec_name r) r category_map) d, Inr ()))"

definition mem_find :: "string \<Rightarrow> string \<Rightarrow> memory_storage \<Rightarrow> agent_error + storage_record option" where
  "mem_find category name d = Inr (case hm_get d category of None \<Rightarrow> None | Some cat \<Rightarrow> hm_get cat name)"

definition mem_matches :: "query \<Rightarrow> storage_record \<Rightarrow> bool" where
  "mem_matches q r = list_all (\<lambda>(key, value). hm_get (rec_tags r) key = Some value) (q_tags q)"

definition mem_find_all :: "string \<Rightarrow> query \<Rightarrow> memory_storage \<Rightarrow> agent_error + storage_record list" where
  "mem_find_all category q d =
     (case hm_get d category of
        None \<Rightarrow> Inr []
      | Some category_map \<Rightarrow>
          let results = filter (mem_matches q) (hm_values category_map);
              limited = (\<lambda>rs. case q_limit q of None \<Rightarrow> rs | Some limit \<Rightarrow> take limit rs)
          in (case q_skip q of
                None \<Rightarrow> Inr (limited results)
              | Some skip \<Rightarrow> if skip < length results then Inr (limited (drop skip results)) else Inr []))"

definition mem_update :: "storage_record \<Rightarrow> memory_storage \<Rightarrow> memory_storage \<times> (agent_error + unit)" where
  "mem_update r d =
     (case hm_get d (rec_category r) of
        Some cat \<Rightarrow>
          if hm_contains cat (rec_name r)
          then (hm_insert (rec_category r) (hm_insert (rec_name r) r cat) d, Inr ())
          else (d, Inl (AgentStorage (''Record not found: '' @ rec_category r @ ''/'' @ rec_name r)))
      | None \<Rightarrow> (d, Inl (AgentStorage (''Record not found: '' @ rec_category r @ ''/'' @ rec_name r))))"

definition mem_delete :: "string \<Rightarrow> string \<Rightarrow> memory_storage \<Rightarrow> memory_storage \<times> (agent_error + unit)" where
  "mem_delete category name d =
     (case hm_get d category of
        None \<Rightarrow> (d, Inr ())
      | Some cat \<Rightarrow> (hm_insert category (hm_remove name cat) d, Inr ()))"

definition mem_delete_all :: "string \<Rightarrow> memory_storage \<Rightarrow> memory_storage \<times> (agent_error + unit)" where
  "mem_delete_all category d = (hm_remove category d, Inr ())"

definition mem_count :: "string \<Rightarrow> query \<Rightarrow> memory_storage \<Rightarrow> agent_error + nat" where
  "mem_count category q d =
     (case hm_get d category of
        None \<Rightarrow> Inr 0
      | Some category_map \<Rightarrow>
          if q_tags q = [] then Inr (length category_map)
          else Inr (length (filter (mem_matches q) (hm_values category_map))))"

definition mem_total_count :: "memory_storage \<Rightarrow> nat" where
  "mem_total_count d = sum_list (map length (hm_values d))"

definition memory_ops :: "memory_storage storage_ops" where
  "memory_ops = \<lparr>st_save = mem_save, st_find = mem_find, st_find_all = mem_find_all, st_update = mem_update, st_delete = mem_delete\<rparr>"

section \<open>The contract of a backend\<close>

text \<open>
  What a successful call does, and that a failed one changes nothing that a lookup sees. A read
  that succeeds returns what was last written; the unrestricted query lists every record of a
  category once.
\<close>

locale storage_provider =
  fixes ops :: "'s storage_ops"
    and inv :: "'s \<Rightarrow> bool"
    and content :: "'s \<Rightarrow> string \<Rightarrow> string \<Rightarrow> storage_record option"
  assumes save_ok: "inv s \<Longrightarrow> st_save ops r s = (s', Inr ()) \<Longrightarrow>
      inv s' \<and> content s (rec_category r) (rec_name r) = None \<and>
      content s' = (content s)(rec_category r := (content s (rec_category r))(rec_name r \<mapsto> r))"
    and save_err: "inv s \<Longrightarrow> st_save ops r s = (s', Inl e) \<Longrightarrow> inv s' \<and> content s' = content s"
    and update_ok: "inv s \<Longrightarrow> st_update ops r s = (s', Inr ()) \<Longrightarrow>
      inv s' \<and> content s (rec_category r) (rec_name r) \<noteq> None \<and>
      content s' = (content s)(rec_category r := (content s (rec_category r))(rec_name r \<mapsto> r))"
    and update_err: "inv s \<Longrightarrow> st_update ops r s = (s', Inl e) \<Longrightarrow> inv s' \<and> content s' = content s"
    and delete_ok: "inv s \<Longrightarrow> st_delete ops c n s = (s', Inr ()) \<Longrightarrow>
      inv s' \<and> content s' = (content s)(c := (content s c)(n := None))"
    and delete_err: "inv s \<Longrightarrow> st_delete ops c n s = (s', Inl e) \<Longrightarrow> inv s' \<and> content s' = content s"
    and find_ok: "inv s \<Longrightarrow> st_find ops c n s = Inr x \<Longrightarrow> x = content s c n"
    and find_all_ok: "inv s \<Longrightarrow> st_find_all ops c query_new s = Inr rs \<Longrightarrow>
      distinct (map rec_name rs) \<and> (\<forall>n r. content s c n = Some r \<longleftrightarrow> r \<in> set rs \<and> rec_name r = n)"
begin

lemma save_find:
  assumes "inv s" and "st_save ops r s = (s', Inr ())" and "st_find ops (rec_category r) (rec_name r) s' = Inr x"
  shows "x = Some r"
  using save_ok [OF assms(1,2)] find_ok [of s' "rec_category r" "rec_name r" x] assms(3) by simp

lemma save_duplicate:
  assumes "inv s" and "st_save ops r s = (s', Inr ())"
  shows "\<exists>e. snd (st_save ops r s') = Inl e"
proof (cases "st_save ops r s'")
  case (Pair s'' res)
  have "inv s'" "content s' (rec_category r) (rec_name r) = Some r" using save_ok [OF assms] by auto
  then have "res \<noteq> Inr ()" using Pair save_ok [of s' r s''] by auto
  then show ?thesis using Pair by (cases res) auto
qed

lemma delete_find:
  assumes "inv s" and "st_delete ops c n s = (s', Inr ())" and "st_find ops c n s' = Inr x"
  shows "x = None"
  using delete_ok [OF assms(1,2)] find_ok [of s' c n x] assms(3) by simp

text \<open>A write never touches what is stored under another name.\<close>

lemma writes_frame:
  assumes "inv s" and "(c, n) \<noteq> (rec_category r, rec_name r)"
  shows "content (fst (st_save ops r s)) c n = content s c n" "content (fst (st_update ops r s)) c n = content s c n"
proof -
  obtain s1 r1 where s1: "st_save ops r s = (s1, r1)" by (cases "st_save ops r s")
  then show "content (fst (st_save ops r s)) c n = content s c n"
    using assms save_ok [of s r s1] save_err [of s r s1] by (cases r1) auto
  obtain s2 r2 where s2: "st_update ops r s = (s2, r2)" by (cases "st_update ops r s")
  then show "content (fst (st_update ops r s)) c n = content s c n"
    using assms update_ok [of s r s2] update_err [of s r s2] by (cases r2) auto
qed

end

definition mem_inv :: "memory_storage \<Rightarrow> bool" where
  "mem_inv d \<longleftrightarrow> (\<forall>c m. hm_get d c = Some m \<longrightarrow> hm_wf m \<and> (\<forall>n r. hm_get m n = Some r \<longrightarrow> rec_name r = n))"

definition mem_content :: "memory_storage \<Rightarrow> string \<Rightarrow> string \<Rightarrow> storage_record option" where
  "mem_content d c n = hm_get (mem_category d c) n"

lemma mem_content_insert:
  "mem_content (hm_insert c m d) = (mem_content d)(c := map_of m)"
  by (auto simp: mem_content_def mem_category_def fun_eq_iff)

lemma mem_inv_insert:
  assumes "mem_inv d" "hm_wf m" "\<forall>n r. hm_get m n = Some r \<longrightarrow> rec_name r = n"
  shows "mem_inv (hm_insert c m d)"
  using assms by (auto simp: mem_inv_def)

lemma mem_inv_category:
  assumes "mem_inv d"
  shows "hm_wf (mem_category d c)" "hm_get (mem_category d c) n = Some r \<Longrightarrow> rec_name r = n"
  using assms by (auto simp: mem_inv_def mem_category_def split: option.splits)

lemma mem_find_all_new: "mem_find_all c query_new d = Inr (hm_values (mem_category d c))"
  by (simp add: mem_find_all_def query_new_def mem_category_def mem_matches_def Let_def split: option.splits)

interpretation memory: storage_provider memory_ops mem_inv mem_content
proof
  fix d d' r c n e x rs
  assume inv: "mem_inv d"
  show "st_save memory_ops r d = (d', Inr ()) \<Longrightarrow>
      mem_inv d' \<and> mem_content d (rec_category r) (rec_name r) = None \<and>
      mem_content d' = (mem_content d)(rec_category r := (mem_content d (rec_category r))(rec_name r \<mapsto> r))"
    using mem_inv_category [OF inv]
    by (auto simp: memory_ops_def mem_save_def Let_def mem_content_insert mem_content_def [of d] fun_eq_iff
        intro!: mem_inv_insert inv split: if_splits)
  show "st_save memory_ops r d = (d', Inl e) \<Longrightarrow> mem_inv d' \<and> mem_content d' = mem_content d"
    using mem_inv_category [OF inv]
    by (auto simp: memory_ops_def mem_save_def Let_def mem_content_insert mem_content_def [of d] fun_eq_iff
        intro!: mem_inv_insert inv split: if_splits)
  show "st_update memory_ops r d = (d', Inr ()) \<Longrightarrow>
      mem_inv d' \<and> mem_content d (rec_category r) (rec_name r) \<noteq> None \<and>
      mem_content d' = (mem_content d)(rec_category r := (mem_content d (rec_category r))(rec_name r \<mapsto> r))"
    using mem_inv_category [OF inv, of "rec_category r"]
    by (auto simp: memory_ops_def mem_update_def mem_content_insert mem_content_def [of d] mem_category_def fun_eq_iff
        intro!: mem_inv_insert inv split: if_splits option.splits)
  show "st_update memory_ops r d = (d', Inl e) \<Longrightarrow> mem_inv d' \<and> mem_content d' = mem_content d"
    using inv by (auto simp: memory_ops_def mem_update_def split: if_splits option.splits)
  show "st_delete memory_ops c n d = (d', Inr ()) \<Longrightarrow>
      mem_inv d' \<and> mem_content d' = (mem_content d)(c := (mem_content d c)(n := None))"
    using mem_inv_category [OF inv, of c] inv
    by (cases "hm_get d c")
      (auto simp: memory_ops_def mem_delete_def mem_content_insert mem_content_def mem_category_def fun_eq_iff
        intro!: mem_inv_insert split: if_splits)
  show "st_delete memory_ops c n d = (d', Inl e) \<Longrightarrow> mem_inv d' \<and> mem_content d' = mem_content d"
    by (auto simp: memory_ops_def mem_delete_def split: option.splits)
  show "st_find memory_ops c n d = Inr x \<Longrightarrow> x = mem_content d c n"
    by (auto simp: memory_ops_def mem_find_def mem_content_def mem_category_def split: option.splits)
  show "st_find_all memory_ops c query_new d = Inr rs \<Longrightarrow>
      distinct (map rec_name rs) \<and> (\<forall>n r. mem_content d c n = Some r \<longleftrightarrow> r \<in> set rs \<and> rec_name r = n)"
  proof -
    assume "st_find_all memory_ops c query_new d = Inr rs"
    then have rs: "rs = hm_values (mem_category d c)" by (simp add: memory_ops_def mem_find_all_new)
    let ?m = "mem_category d c"
    have wf: "hm_wf ?m" by (rule mem_inv_category(1) [OF inv])
    have names: "\<And>n r. (n, r) \<in> set ?m \<Longrightarrow> rec_name r = n"
      using mem_inv_category(2) [OF inv, of c] hm_get_iff_mem [OF wf] by metis
    have "map rec_name rs = hm_keys ?m" using names by (auto simp: rs)
    moreover have "mem_content d c n = Some r \<longleftrightarrow> r \<in> set rs \<and> rec_name r = n" for n r
      using names by (force simp: mem_content_def hm_get_iff_mem [OF wf] rs image_iff)
    ultimately show ?thesis using wf by simp
  qed
qed

section \<open>Queries by tag\<close>

text \<open>A backend that also answers queries for one tag exactly.\<close>

locale tagged_provider = storage_provider +
  assumes find_tag_ok: "inv s \<Longrightarrow> st_find_all ops c (query_with_tag k v query_new) s = Inr rs \<Longrightarrow>
      (\<forall>n r. content s c n = Some r \<and> hm_get (rec_tags r) k = Some v \<longleftrightarrow> r \<in> set rs \<and> rec_name r = n)"

interpretation tagged_memory: tagged_provider memory_ops mem_inv mem_content
proof
  fix d c k v rs
  assume inv: "mem_inv d" and run: "st_find_all memory_ops c (query_with_tag k v query_new) d = Inr rs"
  have rs: "rs = filter (\<lambda>r. hm_get (rec_tags r) k = Some v) (hm_values (mem_category d c))"
  proof -
    have "mem_matches (query_with_tag k v query_new) = (\<lambda>r. hm_get (rec_tags r) k = Some v)"
      by (rule ext) (simp add: mem_matches_def query_with_tag_def query_new_def)
    then show ?thesis
      using run by (auto simp: memory_ops_def mem_find_all_def mem_category_def Let_def query_with_tag_def query_new_def split: option.splits)
  qed
  show "\<forall>n r. mem_content d c n = Some r \<and> hm_get (rec_tags r) k = Some v \<longleftrightarrow> r \<in> set rs \<and> rec_name r = n"
    using mem_inv_category(2) [OF inv, of c] hm_get_iff_mem [OF mem_inv_category(1) [OF inv, of c]]
    by (force simp: mem_content_def rs image_iff)
qed

section \<open>Decoded records\<close>

text \<open>
  Repositories keep values of a type as the JSON text of records of one category; a value's id is
  the record's name. \<open>stored_view\<close> is what such a category holds, \<open>load_map\<close> the cache built from
  it on the first access.
\<close>

record 'a serde =
  sd_to_vec :: "'a \<Rightarrow> bytes option"
  sd_from_slice :: "bytes \<Rightarrow> 'a option"

definition serde_ok :: "'a serde \<Rightarrow> bool" where
  "serde_ok sd \<longleftrightarrow> (\<forall>x bs. sd_to_vec sd x = Some bs \<longrightarrow> sd_from_slice sd bs = Some x)"

definition stored_view :: "'a serde \<Rightarrow> (string \<Rightarrow> storage_record option) \<Rightarrow> string \<Rightarrow> 'a option" where
  "stored_view sd cat n = Option.bind (cat n) (\<lambda>r. sd_from_slice sd (rec_value r))"

definition load_map :: "'a serde \<Rightarrow> ('a \<Rightarrow> string) \<Rightarrow> storage_record list \<Rightarrow> (string, 'a) hash_map" where
  "load_map sd key rs = fold (\<lambda>r m. case sd_from_slice sd (rec_value r) of None \<Rightarrow> m | Some x \<Rightarrow> hm_insert (key x) x m) rs []"

lemma load_map_wf: "hm_wf (load_map sd key rs)"
  unfolding load_map_def by (rule fold_keeps [where P = hm_wf]) (auto split: option.splits)

lemma load_map_get:
  assumes "distinct (map rec_name rs)" "\<And>r x. r \<in> set rs \<Longrightarrow> sd_from_slice sd (rec_value r) = Some x \<Longrightarrow> key x = rec_name r"
  shows "hm_get (load_map sd key rs) k = Option.bind (find (\<lambda>r. rec_name r = k) rs) (\<lambda>r. sd_from_slice sd (rec_value r))"
proof -
  have "hm_get (fold (\<lambda>r m. case sd_from_slice sd (rec_value r) of None \<Rightarrow> m | Some x \<Rightarrow> hm_insert (key x) x m) rs m) k =
      (case Option.bind (find (\<lambda>r. rec_name r = k) rs) (\<lambda>r. sd_from_slice sd (rec_value r)) of None \<Rightarrow> hm_get m k | Some x \<Rightarrow> Some x)" for m
    using assms
  proof (induction rs arbitrary: m)
    case (Cons r rs)
    have "find (\<lambda>r'. rec_name r' = rec_name r) rs = None" using Cons.prems(1) by (simp add: find_None_iff) (metis imageI)
    then have none: "find (\<lambda>r'. rec_name r' = k) rs = None" if "rec_name r = k" using that by simp
    have key: "key x = rec_name r" if "sd_from_slice sd (rec_value r) = Some x" for x using Cons.prems(2) [of r x] that by simp
    have ih: "hm_get (fold (\<lambda>r m. case sd_from_slice sd (rec_value r) of None \<Rightarrow> m | Some x \<Rightarrow> hm_insert (key x) x m) rs m') k =
      (case Option.bind (find (\<lambda>r. rec_name r = k) rs) (\<lambda>r. sd_from_slice sd (rec_value r)) of None \<Rightarrow> hm_get m' k | Some x \<Rightarrow> Some x)" for m'
      using Cons.IH [of m'] Cons.prems by simp
    show ?case
      by (cases "sd_from_slice sd (rec_value r)"; cases "rec_name r = k")
         (simp_all add: ih none key split: option.split)
  qed simp
  then show ?thesis by (simp add: load_map_def split: option.splits)
qed

context storage_provider
begin

lemma load_map_view:
  assumes "inv s" "st_find_all ops c query_new s = Inr rs"
    and "\<And>n x. stored_view sd (content s c) n = Some x \<Longrightarrow> key x = n"
  shows "hm_get (load_map sd key rs) = stored_view sd (content s c)"
proof
  fix k
  have d: "distinct (map rec_name rs)" and c: "\<And>n r. content s c n = Some r \<longleftrightarrow> r \<in> set rs \<and> rec_name r = n"
    using find_all_ok [OF assms(1,2)] by auto
  have k: "key x = rec_name r" if "r \<in> set rs" "sd_from_slice sd (rec_value r) = Some x" for r x
    using assms(3) [of "rec_name r" x] c [of "rec_name r" r] that by (simp add: stored_view_def)
  have "find (\<lambda>r. rec_name r = k) rs = content s c k"
  proof (cases "find (\<lambda>r. rec_name r = k) rs")
    case None
    then have "\<nexists>r. content s c k = Some r" using c by (auto simp: find_None_iff)
    with None show ?thesis by simp
  next
    case (Some r)
    then have "content s c k = Some r" using find_SomeD [OF Some] c [of k r] by simp
    with Some show ?thesis by simp
  qed
  then show "hm_get (load_map sd key rs) k = stored_view sd (content s c) k"
    by (simp add: load_map_get [OF d k] stored_view_def)
qed

end

end
