(* ===== verification/Pickup_Queue.thy ===== *)
theory Pickup_Queue
  imports Storage_Provider
begin

text \<open>
  The mediator's message queue: \<open>protocols/pickup/src/domain/queued_message.rs\<close> and the in-memory
  repository of \<open>repository/message_queue.rs\<close>. Clock and UUIDs are arguments. The abstract queue
  is a list of messages per connection, in order of arrival; \<open>mq_abs\<close> reads it off the two
  hash maps of the repository, and every operation refines an operation on such lists.
\<close>

datatype queued_message_state = Pending | Sending

record queued_message =
  qm_id :: string
  qm_connection_id :: string
  qm_recipient_keys :: "string list"
  qm_encrypted_message :: string
  qm_received_at :: timestamp
  qm_state :: queued_message_state

definition qm_new :: "string \<Rightarrow> timestamp \<Rightarrow> string \<Rightarrow> string list \<Rightarrow> string \<Rightarrow> queued_message" where
  "qm_new uuid now connection_id recipient_keys encrypted_message =
     \<lparr>qm_id = uuid, qm_connection_id = connection_id, qm_recipient_keys = recipient_keys,
      qm_encrypted_message = encrypted_message, qm_received_at = now, qm_state = Pending\<rparr>"

definition mark_sending :: "queued_message \<Rightarrow> queued_message" where
  "mark_sending m = m\<lparr>qm_state := Sending\<rparr>"

definition mark_pending :: "queued_message \<Rightarrow> queued_message" where
  "mark_pending m = m\<lparr>qm_state := Pending\<rparr>"

definition matches_recipient_key :: "string option \<Rightarrow> queued_message \<Rightarrow> bool" where
  "matches_recipient_key key m =
     (case key of Some k \<Rightarrow> list_ex (\<lambda>rk. rk = k) (qm_recipient_keys m) | None \<Rightarrow> True)"

definition qm_byte_size :: "queued_message \<Rightarrow> nat" where
  "qm_byte_size m = length (qm_encrypted_message m)"

section \<open>The in-memory repository\<close>

record message_queue =
  mq_messages :: "(string, queued_message) hash_map"
  mq_by_connection :: "(string, string list) hash_map"

definition mq_new :: message_queue where
  "mq_new = \<lparr>mq_messages = [], mq_by_connection = []\<rparr>"

definition mq_ids :: "message_queue \<Rightarrow> string \<Rightarrow> string list" where
  "mq_ids q connection_id = (case hm_get (mq_by_connection q) connection_id of None \<Rightarrow> [] | Some ids \<Rightarrow> ids)"

definition mq_add_message :: "queued_message \<Rightarrow> message_queue \<Rightarrow> message_queue \<times> string" where
  "mq_add_message m q =
     (q\<lparr>mq_messages := hm_insert (qm_id m) m (mq_messages q),
        mq_by_connection := hm_insert (qm_connection_id m) (mq_ids q (qm_connection_id m) @ [qm_id m]) (mq_by_connection q)\<rparr>,
      qm_id m)"

text \<open>The chain of filters that four of the operations share.\<close>

definition mq_pending :: "message_queue \<Rightarrow> string list \<Rightarrow> string option \<Rightarrow> queued_message list" where
  "mq_pending q ids recipient_key =
     filter (matches_recipient_key recipient_key)
       (filter (\<lambda>m. qm_state m = Pending) (List.map_filter (hm_get (mq_messages q)) ids))"

definition mq_get_pending_count :: "message_queue \<Rightarrow> string \<Rightarrow> string option \<Rightarrow> nat" where
  "mq_get_pending_count q connection_id recipient_key =
     (case hm_get (mq_by_connection q) connection_id of
        None \<Rightarrow> 0 | Some ids \<Rightarrow> length (mq_pending q ids recipient_key))"

definition mq_get_total_bytes :: "message_queue \<Rightarrow> string \<Rightarrow> string option \<Rightarrow> nat" where
  "mq_get_total_bytes q connection_id recipient_key =
     (case hm_get (mq_by_connection q) connection_id of
        None \<Rightarrow> 0 | Some ids \<Rightarrow> sum_list (map qm_byte_size (mq_pending q ids recipient_key)))"

definition mq_get_oldest_message_time :: "message_queue \<Rightarrow> string \<Rightarrow> string option \<Rightarrow> timestamp option" where
  "mq_get_oldest_message_time q connection_id recipient_key =
     (case hm_get (mq_by_connection q) connection_id of
        None \<Rightarrow> None
      | Some ids \<Rightarrow>
          (case map qm_received_at (mq_pending q ids recipient_key) of [] \<Rightarrow> None | t # ts \<Rightarrow> Some (fold min ts t)))"

definition mq_set_state :: "(queued_message \<Rightarrow> queued_message) \<Rightarrow> string \<Rightarrow> message_queue \<Rightarrow> message_queue" where
  "mq_set_state f mid q =
     (case hm_get (mq_messages q) mid of
        None \<Rightarrow> q | Some stored \<Rightarrow> q\<lparr>mq_messages := hm_insert mid (f stored) (mq_messages q)\<rparr>)"

definition mq_take_from_queue ::
  "string \<Rightarrow> string option \<Rightarrow> u32 \<Rightarrow> message_queue \<Rightarrow> message_queue \<times> queued_message list" where
  "mq_take_from_queue connection_id recipient_key limit q =
     (case hm_get (mq_by_connection q) connection_id of
        None \<Rightarrow> (q, [])
      | Some ids \<Rightarrow>
          let pending = sort_key qm_received_at (mq_pending q ids recipient_key);
              taken = take (unat limit) pending
          in (fold (\<lambda>m. mq_set_state mark_sending (qm_id m)) taken q, taken))"

definition mq_remove_message :: "string \<Rightarrow> message_queue \<Rightarrow> message_queue" where
  "mq_remove_message mid q =
     (case hm_get (mq_messages q) mid of
        None \<Rightarrow> q
      | Some m \<Rightarrow>
          let q = q\<lparr>mq_messages := hm_remove mid (mq_messages q)\<rparr>
          in (case hm_get (mq_by_connection q) (qm_connection_id m) of
                None \<Rightarrow> q
              | Some ids \<Rightarrow>
                  q\<lparr>mq_by_connection := hm_insert (qm_connection_id m) (filter (\<lambda>i. i \<noteq> mid) ids) (mq_by_connection q)\<rparr>))"

definition mq_remove_messages :: "string list \<Rightarrow> message_queue \<Rightarrow> message_queue" where
  "mq_remove_messages message_ids q = fold mq_remove_message message_ids q"

definition mq_return_to_pending :: "string list \<Rightarrow> message_queue \<Rightarrow> message_queue" where
  "mq_return_to_pending message_ids q = fold (mq_set_state mark_pending) message_ids q"

definition mq_find_by_id :: "message_queue \<Rightarrow> string \<Rightarrow> queued_message option" where
  "mq_find_by_id q message_id = hm_get (mq_messages q) message_id"

definition mq_clear_connection :: "string \<Rightarrow> message_queue \<Rightarrow> message_queue \<times> nat" where
  "mq_clear_connection connection_id q =
     (case hm_get (mq_by_connection q) connection_id of
        None \<Rightarrow> (q, 0)
      | Some ids \<Rightarrow>
          (q\<lparr>mq_by_connection := hm_remove connection_id (mq_by_connection q),
             mq_messages := fold hm_remove ids (mq_messages q)\<rparr>, length ids))"

text \<open>\<open>cutoff\<close> is \<open>now - max_age\<close>.\<close>

definition mq_delete_expired :: "timestamp \<Rightarrow> message_queue \<Rightarrow> message_queue \<times> nat" where
  "mq_delete_expired cutoff q =
     (let expired = map (\<lambda>m. (qm_id m, qm_connection_id m))
            (filter (\<lambda>m. qm_received_at m < cutoff) (hm_values (mq_messages q)));
          step = (\<lambda>(mid, conn) q.
            let q = q\<lparr>mq_messages := hm_remove mid (mq_messages q)\<rparr>
            in (case hm_get (mq_by_connection q) conn of
                  None \<Rightarrow> q
                | Some ids \<Rightarrow> q\<lparr>mq_by_connection := hm_insert conn (filter (\<lambda>i. i \<noteq> mid) ids) (mq_by_connection q)\<rparr>))
      in (fold step expired q, length expired))"

definition mq_delete_expired_for_connection :: "string \<Rightarrow> timestamp \<Rightarrow> message_queue \<Rightarrow> message_queue \<times> nat" where
  "mq_delete_expired_for_connection connection_id cutoff q =
     (case hm_get (mq_by_connection q) connection_id of
        None \<Rightarrow> (q, 0)
      | Some ids \<Rightarrow>
          let expired_ids = map qm_id (filter (\<lambda>m. qm_received_at m < cutoff)
                (List.map_filter (hm_get (mq_messages q)) ids))
          in (q\<lparr>mq_messages := fold hm_remove expired_ids (mq_messages q),
                mq_by_connection := hm_insert connection_id (filter (\<lambda>i. \<not> List.member expired_ids i) ids) (mq_by_connection q)\<rparr>,
              length expired_ids))"

section \<open>The abstract queue\<close>

type_synonym abstract_queue = "string \<Rightarrow> queued_message list"

definition mq_abs :: "message_queue \<Rightarrow> abstract_queue" where
  "mq_abs q connection_id = List.map_filter (hm_get (mq_messages q)) (mq_ids q connection_id)"

definition mq_inv :: "message_queue \<Rightarrow> bool" where
  "mq_inv q \<longleftrightarrow> hm_wf (mq_messages q) \<and> (\<forall>c. distinct (mq_ids q c)) \<and>
     (\<forall>i m. hm_get (mq_messages q) i = Some m \<longrightarrow> qm_id m = i \<and> i \<in> set (mq_ids q (qm_connection_id m))) \<and>
     (\<forall>c. \<forall>i\<in>set (mq_ids q c). \<exists>m. hm_get (mq_messages q) i = Some m \<and> qm_connection_id m = c)"

definition q_deliverable :: "string option \<Rightarrow> queued_message list \<Rightarrow> queued_message list" where
  "q_deliverable key ms = filter (\<lambda>m. qm_state m = Pending \<and> matches_recipient_key key m) ms"

definition q_batch :: "string option \<Rightarrow> nat \<Rightarrow> queued_message list \<Rightarrow> queued_message list" where
  "q_batch key n ms = take n (sort_key qm_received_at (q_deliverable key ms))"

definition q_mark :: "(queued_message \<Rightarrow> queued_message) \<Rightarrow> string set \<Rightarrow> abstract_queue \<Rightarrow> abstract_queue" where
  "q_mark f ids Q = (\<lambda>c. map (\<lambda>m. if qm_id m \<in> ids then f m else m) (Q c))"

definition q_drop :: "string set \<Rightarrow> abstract_queue \<Rightarrow> abstract_queue" where
  "q_drop ids Q = (\<lambda>c. filter (\<lambda>m. qm_id m \<notin> ids) (Q c))"

lemma mq_new_inv: "mq_inv mq_new"
  by (simp add: mq_inv_def mq_new_def mq_ids_def)

lemma mq_inv_get:
  assumes "mq_inv q" "hm_get (mq_messages q) i = Some m"
  shows "qm_id m = i" "i \<in> set (mq_ids q (qm_connection_id m))"
  using assms by (auto simp: mq_inv_def)

lemma mq_inv_ids:
  assumes "mq_inv q" "i \<in> set (mq_ids q c)"
  obtains m where "hm_get (mq_messages q) i = Some m" "qm_connection_id m = c" "qm_id m = i"
  using assms unfolding mq_inv_def by metis

lemma map_filter_append: "List.map_filter g (xs @ ys) = List.map_filter g xs @ List.map_filter g ys"
  by (induction xs) (auto simp: map_filter_simps split: option.splits)

lemma map_filter_all: "\<forall>i\<in>set ids. g i \<noteq> None \<Longrightarrow> List.map_filter g ids = map (\<lambda>i. the (g i)) ids"
  by (induction ids) (auto simp: map_filter_simps)

lemma mq_abs_map: "mq_inv q \<Longrightarrow> mq_abs q c = map (\<lambda>i. the (hm_get (mq_messages q) i)) (mq_ids q c)"
  unfolding mq_abs_def by (rule map_filter_all) (metis mq_inv_ids option.distinct(1))

lemma mq_abs_ids:
  assumes "mq_inv q"
  shows "map qm_id (mq_abs q c) = mq_ids q c"
proof -
  have "qm_id (the (hm_get (mq_messages q) i)) = i" if "i \<in> set (mq_ids q c)" for i
    using mq_inv_ids [OF assms that] by (metis option.sel)
  then show ?thesis by (simp add: mq_abs_map [OF assms] o_def map_idI)
qed

lemma mq_abs_mem:
  assumes inv: "mq_inv q"
  shows "m \<in> set (mq_abs q c) \<longleftrightarrow> hm_get (mq_messages q) (qm_id m) = Some m \<and> qm_connection_id m = c"
proof
  assume "m \<in> set (mq_abs q c)"
  then obtain i where i: "i \<in> set (mq_ids q c)" "m = the (hm_get (mq_messages q) i)" by (auto simp: mq_abs_map [OF inv])
  from mq_inv_ids [OF inv i(1)] i(2) show "hm_get (mq_messages q) (qm_id m) = Some m \<and> qm_connection_id m = c"
    by (metis option.sel)
next
  assume "hm_get (mq_messages q) (qm_id m) = Some m \<and> qm_connection_id m = c"
  with mq_inv_get(2) [OF inv, of "qm_id m" m] show "m \<in> set (mq_abs q c)" by (force simp: mq_abs_map [OF inv])
qed

lemma mq_abs_eqI:
  assumes "\<And>c. mq_ids q' c = mq_ids q c" "\<And>i. hm_get (mq_messages q') i = map_option (F i) (hm_get (mq_messages q) i)"
    and "mq_inv q"
  shows "mq_abs q' c = map (\<lambda>m. F (qm_id m) m) (mq_abs q c)"
proof -
  have "List.map_filter (\<lambda>i. map_option (F i) (hm_get (mq_messages q) i)) ids =
      map (\<lambda>m. F (qm_id m) m) (List.map_filter (hm_get (mq_messages q)) ids)" for ids
    using mq_inv_get(1) [OF assms(3)] by (induction ids) (auto simp: map_filter_simps split: option.splits)
  then show ?thesis by (simp add: mq_abs_def assms(1,2))
qed

lemma mq_ids_simps [simp]:
  "mq_ids (q\<lparr>mq_messages := x\<rparr>) c = mq_ids q c"
  "mq_ids (q\<lparr>mq_by_connection := hm_insert d ids (mq_by_connection q)\<rparr>) c = (if c = d then ids else mq_ids q c)"
  "mq_ids (q\<lparr>mq_messages := x, mq_by_connection := hm_insert d ids (mq_by_connection q)\<rparr>) c = (if c = d then ids else mq_ids q c)"
  by (simp_all add: mq_ids_def)

section \<open>Every operation refines its abstract counterpart\<close>

lemma mq_add_refines:
  assumes inv: "mq_inv q" and fresh: "hm_get (mq_messages q) (qm_id m) = None"
  shows "mq_inv (fst (mq_add_message m q))"
    "mq_abs (fst (mq_add_message m q)) = (mq_abs q)(qm_connection_id m := mq_abs q (qm_connection_id m) @ [m])"
proof -
  have notin: "qm_id m \<notin> set (mq_ids q c)" for c
    using mq_inv_ids [OF inv, of "qm_id m" c] fresh by (metis option.distinct(1))
  show "mq_inv (fst (mq_add_message m q))"
    using inv notin by (auto simp: mq_inv_def mq_add_message_def) metis
  have "List.map_filter (\<lambda>i. if i = qm_id m then Some m else hm_get (mq_messages q) i) ids = List.map_filter (hm_get (mq_messages q)) ids"
    if "qm_id m \<notin> set ids" for ids
    using that by (induction ids) (auto simp: map_filter_simps split: option.splits)
  with notin show "mq_abs (fst (mq_add_message m q)) = (mq_abs q)(qm_connection_id m := mq_abs q (qm_connection_id m) @ [m])"
    by (auto simp: mq_abs_def mq_add_message_def fun_eq_iff map_filter_append map_filter_simps)
qed

lemma mq_pending_abs: "mq_pending q (mq_ids q c) key = q_deliverable key (mq_abs q c)"
  by (simp add: mq_pending_def q_deliverable_def mq_abs_def conj_commute)

lemma mq_counts_refine:
  "mq_get_pending_count q c key = length (q_deliverable key (mq_abs q c))"
  "mq_get_total_bytes q c key = sum_list (map qm_byte_size (q_deliverable key (mq_abs q c)))"
proof -
  have *: "hm_get (mq_by_connection q) c = None \<Longrightarrow> q_deliverable key (mq_abs q c) = []"
    by (simp add: mq_abs_def mq_ids_def q_deliverable_def map_filter_simps)
  have **: "hm_get (mq_by_connection q) c = Some ids \<Longrightarrow> q_deliverable key (mq_abs q c) = mq_pending q ids key" for ids
    using mq_pending_abs [of q c key] by (simp add: mq_ids_def)
  show "mq_get_pending_count q c key = length (q_deliverable key (mq_abs q c))"
    "mq_get_total_bytes q c key = sum_list (map qm_byte_size (q_deliverable key (mq_abs q c)))"
    using * ** by (auto simp: mq_get_pending_count_def mq_get_total_bytes_def split: option.splits)
qed

lemma mq_inv_update:
  assumes inv: "mq_inv q" and wf: "hm_wf (mq_messages q')" and ids: "\<And>c. mq_ids q' c = mq_ids q c"
    and get: "\<And>i. hm_get (mq_messages q') i = map_option (F i) (hm_get (mq_messages q) i)"
    and F: "\<And>i m. qm_id (F i m) = qm_id m" "\<And>i m. qm_connection_id (F i m) = qm_connection_id m"
  shows "mq_inv q'"
  unfolding mq_inv_def
proof (intro conjI allI ballI impI)
  show "hm_wf (mq_messages q')" by (rule wf)
  show "distinct (mq_ids q' c)" for c using inv by (simp add: ids mq_inv_def)
  fix i m
  assume "hm_get (mq_messages q') i = Some m"
  then obtain m0 where "hm_get (mq_messages q) i = Some m0" "m = F i m0" by (auto simp: get)
  then show "qm_id m = i" "i \<in> set (mq_ids q' (qm_connection_id m))" using mq_inv_get [OF inv] by (auto simp: F ids)
next
  fix c i
  assume "i \<in> set (mq_ids q' c)"
  then obtain m where "hm_get (mq_messages q) i = Some m" "qm_connection_id m = c" using mq_inv_ids [OF inv] by (metis ids)
  then show "\<exists>m. hm_get (mq_messages q') i = Some m \<and> qm_connection_id m = c" by (auto simp: get F)
qed

lemma mq_set_state_get:
  "hm_get (mq_messages (mq_set_state f i q)) j = map_option (\<lambda>m. if j = i then f m else m) (hm_get (mq_messages q) j)"
  "mq_ids (mq_set_state f i q) c = mq_ids q c"
  by (cases "j = i"; auto simp: mq_set_state_def option.map_ident split: option.splits)
    (auto simp: mq_set_state_def split: option.splits)

lemma mq_set_state_refines:
  assumes inv: "mq_inv q" and f: "\<And>m. qm_id (f m) = qm_id m" "\<And>m. qm_connection_id (f m) = qm_connection_id m"
  shows "mq_inv (mq_set_state f i q)" "mq_abs (mq_set_state f i q) = q_mark f {i} (mq_abs q)"
proof -
  show "mq_inv (mq_set_state f i q)"
  proof (rule mq_inv_update [OF inv, where F = "\<lambda>j m. if j = i then f m else m"])
    show "hm_wf (mq_messages (mq_set_state f i q))"
      using inv by (auto simp: mq_set_state_def mq_inv_def split: option.splits)
  qed (simp_all add: f mq_set_state_get)
  have "mq_abs (mq_set_state f i q) c = map (\<lambda>m. (if qm_id m = i then f m else m)) (mq_abs q c)" for c
    using inv by (intro mq_abs_eqI [where F = "\<lambda>j m. if j = i then f m else m"]) (simp_all add: mq_set_state_get)
  then show "mq_abs (mq_set_state f i q) = q_mark f {i} (mq_abs q)" by (simp add: q_mark_def fun_eq_iff)
qed

lemma q_mark_mark:
  assumes "\<And>m. qm_id (f m) = qm_id m" "\<And>m. f (f m) = f m"
  shows "q_mark f A (q_mark f B Q) = q_mark f (A \<union> B) Q"
  using assms by (auto simp: q_mark_def fun_eq_iff)

lemma mark_fields [simp]:
  "qm_id (mark_sending m) = qm_id m" "qm_connection_id (mark_sending m) = qm_connection_id m"
  "qm_id (mark_pending m) = qm_id m" "qm_connection_id (mark_pending m) = qm_connection_id m"
  "mark_sending (mark_sending m) = mark_sending m" "mark_pending (mark_pending m) = mark_pending m"
  "mark_pending (mark_sending m) = mark_pending m" "qm_state (mark_sending m) = Sending" "qm_state (mark_pending m) = Pending"
  by (simp_all add: mark_sending_def mark_pending_def)

lemma mq_set_states_refine:
  assumes f: "\<And>m. qm_id (f m) = qm_id m" "\<And>m. qm_connection_id (f m) = qm_connection_id m" "\<And>m. f (f m) = f m"
  shows "mq_inv q \<Longrightarrow> mq_inv (fold (mq_set_state f) is q) \<and> mq_abs (fold (mq_set_state f) is q) = q_mark f (set is) (mq_abs q)"
proof (induction "is" arbitrary: q)
  case Nil
  then show ?case by (simp add: q_mark_def)
next
  case (Cons i "is")
  from mq_set_state_refines [OF Cons.prems f(1,2), of i] Cons.IH [of "mq_set_state f i q"] show ?case
    using q_mark_mark [OF f(1,3), of "set is" "{i}" "mq_abs q"] by (simp add: insert_commute)
qed

lemma mq_take_refines:
  assumes inv: "mq_inv q" and run: "mq_take_from_queue c key limit q = (q', taken)"
  shows "mq_inv q'" "taken = q_batch key (unat limit) (mq_abs q c)"
    "mq_abs q' = q_mark mark_sending (qm_id ` set taken) (mq_abs q)"
proof -
  have fold_map: "fold (\<lambda>m. mq_set_state mark_sending (qm_id m)) ms q = fold (mq_set_state mark_sending) (map qm_id ms) q" for ms q
    by (simp add: fold_map o_def)
  have "mq_inv q' \<and> taken = q_batch key (unat limit) (mq_abs q c) \<and> mq_abs q' = q_mark mark_sending (qm_id ` set taken) (mq_abs q)"
  proof (cases "hm_get (mq_by_connection q) c")
    case None
    with run inv show ?thesis
      by (auto simp: mq_take_from_queue_def mq_abs_def mq_ids_def q_batch_def q_deliverable_def map_filter_simps q_mark_def)
  next
    case (Some ids)
    then have "mq_pending q ids key = q_deliverable key (mq_abs q c)" using mq_pending_abs [of q c key] by (simp add: mq_ids_def)
    with run Some have "taken = q_batch key (unat limit) (mq_abs q c)"
      "q' = fold (mq_set_state mark_sending) (map qm_id taken) q"
      by (auto simp: mq_take_from_queue_def Let_def q_batch_def fold_map)
    with mq_set_states_refine [of mark_sending q "map qm_id taken"] inv show ?thesis by simp
  qed
  then show "mq_inv q'" "taken = q_batch key (unat limit) (mq_abs q c)"
    "mq_abs q' = q_mark mark_sending (qm_id ` set taken) (mq_abs q)" by auto
qed

lemma mq_return_refines:
  "mq_inv q \<Longrightarrow> mq_inv (mq_return_to_pending is q) \<and> mq_abs (mq_return_to_pending is q) = q_mark mark_pending (set is) (mq_abs q)"
  unfolding mq_return_to_pending_def by (rule mq_set_states_refine) simp_all

lemma mq_drop_refines:
  assumes inv: "mq_inv q" and wf: "hm_wf (mq_messages q')"
    and ids: "\<And>c. mq_ids q' c = filter (\<lambda>i. i \<notin> A) (mq_ids q c)"
    and get: "\<And>i. hm_get (mq_messages q') i = (if i \<in> A then None else hm_get (mq_messages q) i)"
  shows "mq_inv q'" "mq_abs q' = q_drop A (mq_abs q)"
proof -
  show "mq_inv q'"
    unfolding mq_inv_def
  proof (intro conjI allI ballI impI)
    show "distinct (mq_ids q' c)" for c using inv by (simp add: ids mq_inv_def)
    show "qm_id m = i" "i \<in> set (mq_ids q' (qm_connection_id m))" if "hm_get (mq_messages q') i = Some m" for i m
      using that mq_inv_get [OF inv, of i m] by (auto simp: get ids split: if_splits)
    show "\<exists>m. hm_get (mq_messages q') i = Some m \<and> qm_connection_id m = c" if "i \<in> set (mq_ids q' c)" for i c
      using that mq_inv_ids [OF inv, of i c] by (auto simp: get ids)
  qed (rule wf)
  have "List.map_filter (\<lambda>i. if i \<in> A then None else hm_get (mq_messages q) i) (filter (\<lambda>i. i \<notin> A) is) =
      filter (\<lambda>m. qm_id m \<notin> A) (List.map_filter (hm_get (mq_messages q)) is)" for "is"
    using mq_inv_get(1) [OF inv] by (induction "is") (auto simp: map_filter_simps split: option.splits)
  then show "mq_abs q' = q_drop A (mq_abs q)" by (simp add: mq_abs_def q_drop_def ids get fun_eq_iff)
qed

lemma mq_remove_message_refines:
  assumes inv: "mq_inv q"
  shows "mq_inv (mq_remove_message i q)" "mq_abs (mq_remove_message i q) = q_drop {i} (mq_abs q)"
proof -
  have wf: "hm_wf (mq_messages (mq_remove_message i q))"
    using inv by (auto simp: mq_remove_message_def mq_inv_def Let_def split: option.splits)
  have get: "hm_get (mq_messages (mq_remove_message i q)) j = (if j \<in> {i} then None else hm_get (mq_messages q) j)" for j
    by (auto simp: mq_remove_message_def Let_def split: option.splits)
  have ids: "mq_ids (mq_remove_message i q) c = filter (\<lambda>j. j \<notin> {i}) (mq_ids q c)" for c
  proof (cases "hm_get (mq_messages q) i")
    case None
    then have "i \<notin> set (mq_ids q c)" using mq_inv_ids [OF inv, of i c] by (metis option.distinct(1))
    then have "filter (\<lambda>j. j \<noteq> i) (mq_ids q c) = mq_ids q c" by (auto simp: filter_id_conv)
    with None show ?thesis by (simp add: mq_remove_message_def)
  next
    case (Some m)
    have other: "c \<noteq> qm_connection_id m \<Longrightarrow> filter (\<lambda>j. j \<noteq> i) (mq_ids q c) = mq_ids q c"
      using mq_inv_ids [OF inv, of i c] Some by (auto simp: filter_id_conv)
    show ?thesis
    proof (cases "hm_get (mq_by_connection q) (qm_connection_id m)")
      case None
      then have "i \<notin> set (mq_ids q (qm_connection_id m))" by (simp add: mq_ids_def)
      with mq_inv_get(2) [OF inv Some] show ?thesis by blast
    next
      case (Some ids)
      with \<open>hm_get (mq_messages q) i = Some m\<close> other show ?thesis
        by (auto simp: mq_remove_message_def Let_def mq_ids_def)
    qed
  qed
  show "mq_inv (mq_remove_message i q)" "mq_abs (mq_remove_message i q) = q_drop {i} (mq_abs q)"
    using mq_drop_refines [OF inv wf ids get] by auto
qed

lemma q_drop_drop: "q_drop A (q_drop B Q) = q_drop (A \<union> B) Q"
  by (auto simp: q_drop_def fun_eq_iff intro: filter_cong)

lemma mq_remove_refines:
  "mq_inv q \<Longrightarrow> mq_inv (mq_remove_messages is q) \<and> mq_abs (mq_remove_messages is q) = q_drop (set is) (mq_abs q)"
  unfolding mq_remove_messages_def
proof (induction "is" arbitrary: q)
  case Nil
  then show ?case by (simp add: q_drop_def)
next
  case (Cons i "is")
  from mq_remove_message_refines [OF Cons.prems, of i] Cons.IH [of "mq_remove_message i q"] show ?case
    by (simp add: q_drop_drop insert_commute)
qed

lemma mq_ids_disjoint: "mq_inv q \<Longrightarrow> i \<in> set (mq_ids q c) \<Longrightarrow> i \<in> set (mq_ids q c') \<Longrightarrow> c' = c"
  by (metis mq_inv_ids option.inject)

lemma mq_clear_refines:
  assumes inv: "mq_inv q"
  shows "mq_inv (fst (mq_clear_connection c q)) \<and> mq_abs (fst (mq_clear_connection c q)) = (mq_abs q)(c := []) \<and>
    snd (mq_clear_connection c q) = length (mq_abs q c)"
proof -
  let ?q = "fst (mq_clear_connection c q)" and ?A = "set (mq_ids q c)"
  have cut: "filter (\<lambda>i. i \<notin> ?A) (mq_ids q d) = (if d = c then [] else mq_ids q d)" for d
    using mq_ids_disjoint [OF inv] by (auto simp: filter_id_conv filter_empty_conv)
  have ids: "mq_ids ?q d = filter (\<lambda>i. i \<notin> ?A) (mq_ids q d)" for d
    unfolding cut by (auto simp: mq_clear_connection_def mq_ids_def split: option.splits)
  have get: "hm_get (mq_messages ?q) i = (if i \<in> ?A then None else hm_get (mq_messages q) i)" for i
    by (auto simp: mq_clear_connection_def mq_ids_def hm_remove_all split: option.splits)
  have wf: "hm_wf (mq_messages ?q)"
    using inv by (auto simp: mq_clear_connection_def mq_inv_def hm_remove_all split: option.splits)
  have len: "length (mq_abs q c) = length (mq_ids q c)" by (simp add: mq_abs_map [OF inv])
  have "mq_abs ?q d = ((mq_abs q)(c := [])) d" for d
    using mq_abs_map [OF mq_drop_refines(1) [OF inv wf ids get], of d] cut [of d] mq_abs_map [OF inv, of d]
      mq_ids_disjoint [OF inv] by (auto simp: ids get)
  then show ?thesis
    using mq_drop_refines(1) [OF inv wf ids get] len by (auto simp: mq_clear_connection_def mq_ids_def split: option.splits)
qed

lemma mq_expired_connection_refines:
  assumes inv: "mq_inv q"
  shows "mq_inv (fst (mq_delete_expired_for_connection c t q)) \<and>
    mq_abs (fst (mq_delete_expired_for_connection c t q)) = (mq_abs q)(c := filter (\<lambda>m. \<not> qm_received_at m < t) (mq_abs q c))"
proof (cases "hm_get (mq_by_connection q) c")
  case None
  then have "mq_abs q c = []" by (simp add: mq_abs_def mq_ids_def map_filter_simps)
  with None inv show ?thesis by (auto simp: mq_delete_expired_for_connection_def)
next
  case (Some ns)
  then have ids: "ns = mq_ids q c" by (simp add: mq_ids_def)
  let ?q = "fst (mq_delete_expired_for_connection c t q)"
  let ?A = "{i \<in> set ns. qm_received_at (the (hm_get (mq_messages q) i)) < t}"
  have ex: "set (map qm_id (filter (\<lambda>m. qm_received_at m < t) (List.map_filter (hm_get (mq_messages q)) ns))) = ?A"
  proof -
    have abs: "List.map_filter (hm_get (mq_messages q)) ns = mq_abs q c" by (simp add: mq_abs_def ids)
    have mem: "i \<in> set ns \<longleftrightarrow> (\<exists>m\<in>set (mq_abs q c). qm_id m = i)" for i
      unfolding ids mq_abs_ids [OF inv, of c, symmetric] by auto
    have "the (hm_get (mq_messages q) (qm_id m)) = m" if "m \<in> set (mq_abs q c)" for m
      using that mq_abs_mem [OF inv] by (metis option.sel)
    then show ?thesis unfolding abs by (auto simp: mem)
  qed
  have q: "?q = q\<lparr>mq_messages := fold hm_remove (map qm_id (filter (\<lambda>m. qm_received_at m < t) (List.map_filter (hm_get (mq_messages q)) ns))) (mq_messages q),
      mq_by_connection := hm_insert c (filter (\<lambda>i. i \<notin> ?A) ns) (mq_by_connection q)\<rparr>"
    using Some by (simp only: mq_delete_expired_for_connection_def option.case Let_def fst_conv List.member_iff ex)
  have other: "d \<noteq> c \<Longrightarrow> filter (\<lambda>i. i \<notin> ?A) (mq_ids q d) = mq_ids q d" for d
    using mq_ids_disjoint [OF inv] by (auto simp: filter_id_conv ids)
  have i': "mq_ids ?q d = filter (\<lambda>i. i \<notin> ?A) (mq_ids q d)" for d unfolding q using other [of d] by (simp add: ids)
  have g': "hm_get (mq_messages ?q) i = (if i \<in> ?A then None else hm_get (mq_messages q) i)" for i
  proof -
    have "mq_messages ?q = fold hm_remove (map qm_id (filter (\<lambda>m. qm_received_at m < t)
        (List.map_filter (hm_get (mq_messages q)) ns))) (mq_messages q)" unfolding q by simp
    then show ?thesis by (simp only: hm_remove_all ex)
  qed
  have w': "hm_wf (mq_messages ?q)" unfolding q using inv by (simp add: hm_remove_all mq_inv_def)
  note drop = mq_drop_refines [OF inv w' i' g']
  have "q_drop ?A (mq_abs q) d = ((mq_abs q)(c := filter (\<lambda>m. \<not> qm_received_at m < t) (mq_abs q c))) d" for d
  proof (cases "d = c")
    case True
    then show ?thesis using mq_abs_mem [OF inv, of _ c] mq_inv_get(2) [OF inv]
      by (fastforce simp: q_drop_def ids intro!: filter_cong)
  next
    case False
    then have "qm_id m \<notin> ?A" if "m \<in> set (mq_abs q d)" for m
      using that mq_abs_ids [OF inv, of d] mq_ids_disjoint [OF inv, of "qm_id m" d c] by (auto simp: ids) (metis image_eqI list.set_map)
    with False show ?thesis by (auto simp: q_drop_def filter_id_conv)
  qed
  with drop show ?thesis by auto
qed

lemma mq_values_mem:
  assumes inv: "mq_inv q"
  shows "m \<in> set (hm_values (mq_messages q)) \<longleftrightarrow> hm_get (mq_messages q) (qm_id m) = Some m"
proof -
  have wf: "hm_wf (mq_messages q)" using inv by (simp add: mq_inv_def)
  show ?thesis
  proof
    assume "m \<in> set (hm_values (mq_messages q))"
    then obtain i where "(i, m) \<in> set (mq_messages q)" by auto
    then have "hm_get (mq_messages q) i = Some m" by (simp add: hm_get_iff_mem [OF wf])
    with mq_inv_get(1) [OF inv this] show "hm_get (mq_messages q) (qm_id m) = Some m" by simp
  next
    assume "hm_get (mq_messages q) (qm_id m) = Some m"
    then have "(qm_id m, m) \<in> set (mq_messages q)" by (simp add: hm_get_iff_mem [OF wf])
    then show "m \<in> set (hm_values (mq_messages q))" by force
  qed
qed

lemma mq_expired_refines:
  assumes inv: "mq_inv q"
  shows "mq_inv (fst (mq_delete_expired t q)) \<and>
    mq_abs (fst (mq_delete_expired t q)) = (\<lambda>c. filter (\<lambda>m. \<not> qm_received_at m < t) (mq_abs q c))"
proof -
  define step :: "string \<times> string \<Rightarrow> message_queue \<Rightarrow> message_queue" where "step = (\<lambda>(mid, conn) q.
      let q = q\<lparr>mq_messages := hm_remove mid (mq_messages q)\<rparr>
      in (case hm_get (mq_by_connection q) conn of
            None \<Rightarrow> q
          | Some ids \<Rightarrow> q\<lparr>mq_by_connection := hm_insert conn (filter (\<lambda>i. i \<noteq> mid) ids) (mq_by_connection q)\<rparr>))"
  have step: "hm_get (mq_messages (step e q)) i = (if i = fst e then None else hm_get (mq_messages q) i)"
    "mq_ids (step e q) c = (if c = snd e then filter (\<lambda>i. i \<noteq> fst e) (mq_ids q c) else mq_ids q c)"
    "hm_wf (mq_messages q) \<Longrightarrow> hm_wf (mq_messages (step e q))" for e q i c
    by (auto simp: step_def mq_ids_def Let_def split: prod.splits option.splits)
  have folded: "hm_get (mq_messages (fold step es q)) i = (if i \<in> fst ` set es then None else hm_get (mq_messages q) i)"
    "mq_ids (fold step es q) c = filter (\<lambda>i. (i, c) \<notin> set es) (mq_ids q c)"
    "hm_wf (mq_messages q) \<Longrightarrow> hm_wf (mq_messages (fold step es q))" for es q i c
  proof -
    show "hm_get (mq_messages (fold step es q)) i = (if i \<in> fst ` set es then None else hm_get (mq_messages q) i)"
      by (induction es arbitrary: q) (auto simp: step)
    show "mq_ids (fold step es q) c = filter (\<lambda>i. (i, c) \<notin> set es) (mq_ids q c)"
    proof (induction es arbitrary: q)
      case (Cons e es)
      then show ?case by (cases e) (auto simp: step conj_commute intro: filter_cong)
    qed simp
    show "hm_wf (mq_messages q) \<Longrightarrow> hm_wf (mq_messages (fold step es q))"
      by (rule fold_keeps [of "\<lambda>q. hm_wf (mq_messages q)"]) (simp_all add: step)
  qed
  let ?ex = "map (\<lambda>m. (qm_id m, qm_connection_id m)) (filter (\<lambda>m. qm_received_at m < t) (hm_values (mq_messages q)))"
  let ?A = "fst ` set ?ex"
  have q: "fst (mq_delete_expired t q) = fold step ?ex q" by (simp add: mq_delete_expired_def step_def Let_def)
  note vals = mq_values_mem [OF inv]
  have A: "i \<in> ?A \<longleftrightarrow> (\<exists>m. hm_get (mq_messages q) i = Some m \<and> qm_received_at m < t)" for i
  proof -
    have "i \<in> ?A \<longleftrightarrow> (\<exists>m\<in>set (hm_values (mq_messages q)). qm_received_at m < t \<and> qm_id m = i)"
      by (simp only: set_map set_filter image_image fst_conv) blast
    also have "\<dots> \<longleftrightarrow> (\<exists>m. hm_get (mq_messages q) (qm_id m) = Some m \<and> qm_received_at m < t \<and> qm_id m = i)"
      unfolding Bex_def vals by blast
    also have "\<dots> \<longleftrightarrow> (\<exists>m. hm_get (mq_messages q) i = Some m \<and> qm_received_at m < t)"
      using mq_inv_get(1) [OF inv] by metis
    finally show ?thesis .
  qed
  have pair: "(i, c) \<in> set ?ex \<longleftrightarrow> i \<in> ?A" if mem: "i \<in> set (mq_ids q c)" for i c
  proof -
    obtain m where m: "hm_get (mq_messages q) i = Some m" "qm_connection_id m = c" "qm_id m = i"
      by (rule mq_inv_ids [OF inv mem])
    have "(i, c) \<in> set ?ex \<longleftrightarrow> (\<exists>m'. hm_get (mq_messages q) (qm_id m') = Some m' \<and> qm_received_at m' < t \<and> i = qm_id m' \<and> c = qm_connection_id m')"
      unfolding vals [symmetric] by (simp only: set_map set_filter image_iff mem_Collect_eq prod.inject Bex_def) blast
    also have "\<dots> \<longleftrightarrow> qm_received_at m < t" using m by (metis option.inject)
    finally show ?thesis unfolding A using m by simp
  qed
  have wf: "hm_wf (mq_messages (fold step ?ex q))" using inv by (intro folded(3)) (simp add: mq_inv_def)
  have ids: "mq_ids (fold step ?ex q) c = filter (\<lambda>i. i \<notin> ?A) (mq_ids q c)" for c
    unfolding folded(2) by (rule filter_cong) (use pair in auto)
  note drop = mq_drop_refines [OF inv wf ids folded(1)]
  have "q_drop ?A (mq_abs q) = (\<lambda>c. filter (\<lambda>m. \<not> qm_received_at m < t) (mq_abs q c))"
    unfolding q_drop_def A by (intro ext filter_cong) (use mq_abs_mem [OF inv] in auto)
  with drop show ?thesis unfolding q by simp
qed

end
