(* ===== verification/Pickup_Mediator.thy ===== *)
theory Pickup_Mediator
  imports Pickup_Queue Didcomm_Message Byte_Codec
begin

text \<open>
  The message pickup protocol: the messages, the mediator's service and handlers and the
  recipient's service of \<open>protocols/pickup/src\<close>. The service is generic in the repository: its
  operations are the record \<open>mq_ops\<close>, and the locale \<open>message_repository\<close> states what the service
  relies on, in terms of the abstract queue. The in-memory repository is an interpretation.
  Base64 is a crate, given by its two directions; UUIDs and the clock are arguments.
\<close>

datatype pickup_error = NotFound string | QueueError string | Protocol string | PickupStorage string | Serialization string

record 's mq_ops =
  qo_add_message :: "queued_message \<Rightarrow> 's \<Rightarrow> 's \<times> (pickup_error fault + string)"
  qo_get_pending_count :: "string \<Rightarrow> string option \<Rightarrow> 's \<Rightarrow> 's \<times> (pickup_error fault + nat)"
  qo_get_total_bytes :: "string \<Rightarrow> string option \<Rightarrow> 's \<Rightarrow> 's \<times> (pickup_error fault + nat)"
  qo_get_oldest_message_time :: "string \<Rightarrow> string option \<Rightarrow> 's \<Rightarrow> 's \<times> (pickup_error fault + timestamp option)"
  qo_take_from_queue :: "string \<Rightarrow> string option \<Rightarrow> u32 \<Rightarrow> 's \<Rightarrow> 's \<times> (pickup_error fault + queued_message list)"
  qo_remove_messages :: "string list \<Rightarrow> 's \<Rightarrow> 's \<times> (pickup_error fault + unit)"
  qo_return_to_pending :: "string list \<Rightarrow> 's \<Rightarrow> 's \<times> (pickup_error fault + unit)"
  qo_clear_connection :: "string \<Rightarrow> 's \<Rightarrow> 's \<times> (pickup_error fault + nat)"
  qo_delete_expired_for_connection :: "string \<Rightarrow> timestamp \<Rightarrow> 's \<Rightarrow> 's \<times> (pickup_error fault + nat)"

definition memory_queue_ops :: "message_queue mq_ops" where
  "memory_queue_ops =
     \<lparr>qo_add_message = (\<lambda>m q. let (q', i) = mq_add_message m q in (q', Inr i)),
      qo_get_pending_count = (\<lambda>c k q. (q, Inr (mq_get_pending_count q c k))),
      qo_get_total_bytes = (\<lambda>c k q. (q, Inr (mq_get_total_bytes q c k))),
      qo_get_oldest_message_time = (\<lambda>c k q. (q, Inr (mq_get_oldest_message_time q c k))),
      qo_take_from_queue = (\<lambda>c k n q. let (q', ms) = mq_take_from_queue c k n q in (q', Inr ms)),
      qo_remove_messages = (\<lambda>ids q. (mq_remove_messages ids q, Inr ())),
      qo_return_to_pending = (\<lambda>ids q. (mq_return_to_pending ids q, Inr ())),
      qo_clear_connection = (\<lambda>c q. let (q', n) = mq_clear_connection c q in (q', Inr n)),
      qo_delete_expired_for_connection = (\<lambda>c t q. let (q', n) = mq_delete_expired_for_connection c t q in (q', Inr n))\<rparr>"

section \<open>Messages\<close>

record status_request =
  sr_id :: string
  sr_recipient_key :: "string option"

record delivery_request =
  dr_id :: string
  dr_limit :: u32
  dr_recipient_key :: "string option"

record messages_received =
  mr_id :: string
  mr_thread :: "thread option"
  mr_message_id_list :: "string list"

record status_message =
  sm_id :: string
  sm_thread :: thread
  sm_message_count :: nat
  sm_recipient_key :: "string option"
  sm_longest_waited_seconds :: "nat option"
  sm_total_bytes :: "nat option"
  sm_live_delivery :: "bool option"

record message_delivery =
  md_id :: string
  md_thread :: "thread option"
  md_recipient_key :: "string option"
  md_attachments :: "attachment list"

definition thread_of :: "string \<Rightarrow> thread" where
  "thread_of thid = \<lparr>th_thid = Some thid, th_pthid = None, th_sender_order = None, th_received_orders = None\<rparr>"

definition status_message_new :: "string \<Rightarrow> string \<Rightarrow> nat \<Rightarrow> status_message" where
  "status_message_new uuid thread_id n =
     \<lparr>sm_id = uuid, sm_thread = thread_of thread_id, sm_message_count = n, sm_recipient_key = None,
      sm_longest_waited_seconds = None, sm_total_bytes = None, sm_live_delivery = None\<rparr>"

definition message_delivery_new :: "string \<Rightarrow> string \<Rightarrow> attachment list \<Rightarrow> message_delivery" where
  "message_delivery_new uuid thread_id as =
     \<lparr>md_id = uuid, md_thread = Some (thread_of thread_id), md_recipient_key = None, md_attachments = as\<rparr>"

definition delivery_message_ids :: "message_delivery \<Rightarrow> string list" where
  "delivery_message_ids d = List.map_filter at_id (md_attachments d)"

definition messages_received_thread_id :: "messages_received \<Rightarrow> string option" where
  "messages_received_thread_id a = (case mr_thread a of None \<Rightarrow> None | Some t \<Rightarrow> th_thid t)"

section \<open>The mediator's service\<close>

definition pm_queue_message ::
  "'s mq_ops \<Rightarrow> string \<Rightarrow> timestamp \<Rightarrow> string \<Rightarrow> string list \<Rightarrow> string \<Rightarrow> 's \<Rightarrow> 's \<times> (pickup_error fault + string)" where
  "pm_queue_message ops uuid now connection_id recipient_keys encrypted_message s =
     qo_add_message ops (qm_new uuid now connection_id recipient_keys encrypted_message) s"

text \<open>A timestamp of the queue counts nanoseconds; \<open>num_seconds\<close> drops the fraction.\<close>

definition NANOS_PER_SECOND :: int where "NANOS_PER_SECOND = 1000000000"

definition pm_process_status_request ::
  "'s mq_ops \<Rightarrow> string \<Rightarrow> timestamp \<Rightarrow> status_request \<Rightarrow> string \<Rightarrow> 's \<Rightarrow> 's \<times> (pickup_error fault + status_message)" where
  "pm_process_status_request ops uuid now request connection_id s =
     (let key = sr_recipient_key request
      in case qo_get_pending_count ops connection_id key s of
           (s, Inl e) \<Rightarrow> (s, Inl e)
         | (s, Inr message_count) \<Rightarrow>
             (case qo_get_total_bytes ops connection_id key s of
                (s, Inl e) \<Rightarrow> (s, Inl e)
              | (s, Inr total_bytes) \<Rightarrow>
                  (case qo_get_oldest_message_time ops connection_id key s of
                     (s, Inl e) \<Rightarrow> (s, Inl e)
                   | (s, Inr oldest_time) \<Rightarrow>
                       let waited = map_option (\<lambda>t. nat (max ((now - t) div NANOS_PER_SECOND) 0)) oldest_time;
                           r = status_message_new uuid (sr_id request) message_count;
                           r = (case key of None \<Rightarrow> r | Some k \<Rightarrow> r\<lparr>sm_recipient_key := Some k\<rparr>);
                           r = (case waited of None \<Rightarrow> r | Some w \<Rightarrow> r\<lparr>sm_longest_waited_seconds := Some w\<rparr>);
                           r = (if total_bytes > 0 then r\<lparr>sm_total_bytes := Some total_bytes\<rparr> else r)
                       in (s, Inr r))))"

definition pm_attachment :: "(bytes \<Rightarrow> string) \<Rightarrow> queued_message \<Rightarrow> attachment" where
  "pm_attachment b64 m =
     \<lparr>at_id = Some (qm_id m), at_description = None, at_filename = None,
      at_media_type = Some ''application/didcomm-encrypted+json'', at_format = None, at_lastmod_time = None,
      at_byte_count = Some (length (qm_encrypted_message m)),
      at_data = attachment_data_base64 (b64 (str_bytes (qm_encrypted_message m)))\<rparr>"

definition pm_process_delivery_request ::
  "'s mq_ops \<Rightarrow> (bytes \<Rightarrow> string) \<Rightarrow> string \<Rightarrow> delivery_request \<Rightarrow> string \<Rightarrow> 's \<Rightarrow> 's \<times> (pickup_error fault + message_delivery)" where
  "pm_process_delivery_request ops b64 uuid request connection_id s =
     (case qo_take_from_queue ops connection_id (dr_recipient_key request) (dr_limit request) s of
        (s, Inl e) \<Rightarrow> (s, Inl e)
      | (s, Inr messages) \<Rightarrow>
          let r = message_delivery_new uuid (dr_id request) (map (pm_attachment b64) messages)
          in (s, Inr (case dr_recipient_key request of None \<Rightarrow> r | Some k \<Rightarrow> r\<lparr>md_recipient_key := Some k\<rparr>)))"

definition pm_process_messages_received ::
  "'s mq_ops \<Rightarrow> string \<Rightarrow> messages_received \<Rightarrow> string \<Rightarrow> 's \<Rightarrow> 's \<times> (pickup_error fault + status_message)" where
  "pm_process_messages_received ops uuid ack connection_id s =
     (case qo_remove_messages ops (mr_message_id_list ack) s of
        (s, Inl e) \<Rightarrow> (s, Inl e)
      | (s, Inr _) \<Rightarrow>
          (case qo_get_pending_count ops connection_id None s of
             (s, Inl e) \<Rightarrow> (s, Inl e)
           | (s, Inr message_count) \<Rightarrow>
               let thread_id = (case messages_received_thread_id ack of None \<Rightarrow> mr_id ack | Some t \<Rightarrow> t)
               in (s, Inr (status_message_new uuid thread_id message_count))))"

definition pm_pending_count :: "'s mq_ops \<Rightarrow> string \<Rightarrow> 's \<Rightarrow> 's \<times> (pickup_error fault + nat)" where
  "pm_pending_count ops connection_id s = qo_get_pending_count ops connection_id None s"

definition pm_return_messages_to_pending :: "'s mq_ops \<Rightarrow> string list \<Rightarrow> 's \<Rightarrow> 's \<times> (pickup_error fault + unit)" where
  "pm_return_messages_to_pending ops message_ids s = qo_return_to_pending ops message_ids s"

definition pm_clear_queue :: "'s mq_ops \<Rightarrow> string \<Rightarrow> 's \<Rightarrow> 's \<times> (pickup_error fault + nat)" where
  "pm_clear_queue ops connection_id s = qo_clear_connection ops connection_id s"

text \<open>\<open>cutoff\<close> is the present minus the age.\<close>

definition pm_delete_expired_for_connection :: "'s mq_ops \<Rightarrow> string \<Rightarrow> timestamp \<Rightarrow> 's \<Rightarrow> 's \<times> (pickup_error fault + nat)" where
  "pm_delete_expired_for_connection ops connection_id cutoff s = qo_delete_expired_for_connection ops connection_id cutoff s"

section \<open>The mediator's handlers\<close>

definition parse_status_request :: "message \<Rightarrow> status_request" where
  "parse_status_request m = \<lparr>sr_id = msg_id m, sr_recipient_key = Option.bind (body_or_extra m ''recipient_key'') json_as_str\<rparr>"

text \<open>\<open>l as u32\<close> keeps the low 32 bits.\<close>

definition parse_delivery_request :: "message \<Rightarrow> delivery_request" where
  "parse_delivery_request m =
     \<lparr>dr_id = msg_id m,
      dr_limit = (case Option.bind (body_or_extra m ''limit'') json_as_u64 of None \<Rightarrow> 10 | Some l \<Rightarrow> ucast l),
      dr_recipient_key = Option.bind (body_or_extra m ''recipient_key'') json_as_str\<rparr>"

definition parse_messages_received :: "message \<Rightarrow> messages_received" where
  "parse_messages_received m =
     \<lparr>mr_id = msg_id m, mr_thread = msg_thread m,
      mr_message_id_list = (case Option.bind (body_or_extra m ''message_id_list'') json_as_array of
         None \<Rightarrow> [] | Some vs \<Rightarrow> List.map_filter json_as_str vs)\<rparr>"

definition STATUS_TYPE :: string where "STATUS_TYPE = ''https://didcomm.org/messagepickup/2.0/status''"
definition DELIVERY_TYPE :: string where "DELIVERY_TYPE = ''https://didcomm.org/messagepickup/2.0/delivery''"

definition json_opt :: "string \<Rightarrow> ('v \<Rightarrow> json) \<Rightarrow> 'v option \<Rightarrow> json \<Rightarrow> json" where
  "json_opt key f x j = (case x of None \<Rightarrow> j | Some v \<Rightarrow> json_set key (f v) j)"

definition build_status_response :: "status_message \<Rightarrow> message" where
  "build_status_response r =
     (let body = json_opt ''live_delivery'' JBool (sm_live_delivery r)
            (json_opt ''total_bytes'' (JInt \<circ> int) (sm_total_bytes r)
              (json_opt ''longest_waited_seconds'' (JInt \<circ> int) (sm_longest_waited_seconds r)
                (json_opt ''recipient_key'' JString (sm_recipient_key r)
                  (JObject [(''message_count'', JInt (int (sm_message_count r)))]))));
          m = (builder_new (sm_id r) STATUS_TYPE)\<lparr>msg_body := body\<rparr>
      in case th_thid (sm_thread r) of None \<Rightarrow> m | Some thid \<Rightarrow> builder_thread thid m)"

definition build_delivery_response :: "message_delivery \<Rightarrow> string \<Rightarrow> message" where
  "build_delivery_response r thread_id =
     (let body = (case md_recipient_key r of None \<Rightarrow> JObject [] | Some key \<Rightarrow> json_set ''recipient_key'' (JString key) (JObject []));
          m = builder_thread thread_id ((builder_new (md_id r) DELIVERY_TYPE)\<lparr>msg_body := body\<rparr>)
      in fold builder_add_attachment (md_attachments r) m)"

definition reply :: "inbound_message \<Rightarrow> string \<Rightarrow> message \<Rightarrow> outbound_message" where
  "reply i connection_id m =
     \<lparr>out_message = m, out_to = opt_string (cx_from (in_context i)), out_from = opt_string (cx_to (in_context i)),
      out_connection_id = Some connection_id\<rparr>"

text \<open>The text of a service error is not modelled; a panic in the service is one of the handler.\<close>

definition handler_result :: "('m \<Rightarrow> outbound_message) \<Rightarrow> 's \<times> (pickup_error fault + 'm) \<Rightarrow> 's \<times> (handler_error fault + outbound_message option)" where
  "handler_result f x =
     (case x of
        (s, Inl Panicked) \<Rightarrow> (s, Inl Panicked)
      | (s, Inl (Raised _)) \<Rightarrow> (s, Inl (Raised (ProcessingFailed '''')))
      | (s, Inr m) \<Rightarrow> (s, Inr (Some (f m))))"

definition missing_connection :: "handler_error fault" where
  "missing_connection = Raised (InvalidMessage ''Missing connection ID'')"

definition handle_status_request ::
  "'s mq_ops \<Rightarrow> string \<Rightarrow> timestamp \<Rightarrow> inbound_message \<Rightarrow> 's \<Rightarrow> 's \<times> (handler_error fault + outbound_message option)" where
  "handle_status_request ops uuid now i s =
     (case cx_connection_id (in_context i) of
        None \<Rightarrow> (s, Inl missing_connection)
      | Some c \<Rightarrow> handler_result (\<lambda>r. reply i c (build_status_response r))
          (pm_process_status_request ops uuid now (parse_status_request (in_message i)) c s))"

definition handle_delivery_request ::
  "'s mq_ops \<Rightarrow> (bytes \<Rightarrow> string) \<Rightarrow> string \<Rightarrow> inbound_message \<Rightarrow> 's \<Rightarrow> 's \<times> (handler_error fault + outbound_message option)" where
  "handle_delivery_request ops b64 uuid i s =
     (case cx_connection_id (in_context i) of
        None \<Rightarrow> (s, Inl missing_connection)
      | Some c \<Rightarrow> handler_result (\<lambda>r. reply i c (build_delivery_response r (msg_id (in_message i))))
          (pm_process_delivery_request ops b64 uuid (parse_delivery_request (in_message i)) c s))"

definition handle_messages_received ::
  "'s mq_ops \<Rightarrow> string \<Rightarrow> inbound_message \<Rightarrow> 's \<Rightarrow> 's \<times> (handler_error fault + outbound_message option)" where
  "handle_messages_received ops uuid i s =
     (case cx_connection_id (in_context i) of
        None \<Rightarrow> (s, Inl missing_connection)
      | Some c \<Rightarrow> handler_result (\<lambda>r. reply i c (build_status_response r))
          (pm_process_messages_received ops uuid (parse_messages_received (in_message i)) c s))"

text \<open>The live-delivery handler counts an unreadable queue as empty and answers without a thread.\<close>

definition handle_live_delivery_change ::
  "'s mq_ops \<Rightarrow> string \<Rightarrow> inbound_message \<Rightarrow> 's \<Rightarrow> 's \<times> (handler_error fault + outbound_message option)" where
  "handle_live_delivery_change ops uuid i s =
     (let live = (case Option.bind (body_or_extra (in_message i) ''live_delivery'') json_as_bool of None \<Rightarrow> False | Some b \<Rightarrow> b)
      in case cx_connection_id (in_context i) of
           None \<Rightarrow> (s, Inl missing_connection)
         | Some c \<Rightarrow>
             (case qo_get_pending_count ops c None s of
                (s, Inl Panicked) \<Rightarrow> (s, Inl Panicked)
              | (s, r) \<Rightarrow>
                  let n = (case r of Inl _ \<Rightarrow> 0 | Inr n \<Rightarrow> n);
                      st = (status_message_new uuid (msg_id (in_message i)) n)\<lparr>sm_live_delivery := Some live\<rparr>
                  in (s, Inr (Some (reply i c ((build_status_response st)\<lparr>msg_thread := None\<rparr>))))))"

section \<open>The recipient's service\<close>

record delivered_message =
  dm_id :: string
  dm_encrypted_message :: bytes

text \<open>\<open>json_bytes\<close> is \<open>serde_json::to_vec\<close>.\<close>

definition pr_decode_attachment ::
  "(string \<Rightarrow> bytes option) \<Rightarrow> (json \<Rightarrow> bytes option) \<Rightarrow> attachment \<Rightarrow> pickup_error + delivered_message" where
  "pr_decode_attachment unb64 json_bytes a =
     (let d = at_data a;
          data = (case ad_base64 d of
             Some b \<Rightarrow> (case unb64 b of None \<Rightarrow> Inl (Protocol ''Invalid base64: '') | Some bs \<Rightarrow> Inr bs)
           | None \<Rightarrow>
               (case ad_json d of
                  Some j \<Rightarrow> (case json_bytes j of None \<Rightarrow> Inl (Serialization '''') | Some bs \<Rightarrow> Inr bs)
                | None \<Rightarrow>
                    if attachment_is_external d then Inl (Protocol ''Link attachments not supported for message delivery'')
                    else Inl (Protocol ''Attachment carries no data'')))
      in case data of Inl e \<Rightarrow> Inl e | Inr bs \<Rightarrow> Inr \<lparr>dm_id = opt_string (at_id a), dm_encrypted_message = bs\<rparr>)"

fun pr_decode_all ::
  "(string \<Rightarrow> bytes option) \<Rightarrow> (json \<Rightarrow> bytes option) \<Rightarrow> attachment list \<Rightarrow> pickup_error + delivered_message list" where
  "pr_decode_all unb64 json_bytes [] = Inr []"
| "pr_decode_all unb64 json_bytes (a # as) =
     (case pr_decode_attachment unb64 json_bytes a of
        Inl e \<Rightarrow> Inl e
      | Inr m \<Rightarrow> (case pr_decode_all unb64 json_bytes as of Inl e \<Rightarrow> Inl e | Inr ms \<Rightarrow> Inr (m # ms)))"

definition pr_process_delivery ::
  "(string \<Rightarrow> bytes option) \<Rightarrow> (json \<Rightarrow> bytes option) \<Rightarrow> message_delivery \<Rightarrow> pickup_error + delivered_message list" where
  "pr_process_delivery unb64 json_bytes d = pr_decode_all unb64 json_bytes (md_attachments d)"

text \<open>The recipient keeps the last count it was told.\<close>

record pickup_status =
  ps_message_count :: nat
  ps_recipient_key :: "string option"
  ps_longest_waited_seconds :: "nat option"
  ps_total_bytes :: "nat option"
  ps_live_delivery :: bool

definition pr_process_status :: "status_message \<Rightarrow> nat \<Rightarrow> nat \<times> pickup_status" where
  "pr_process_status m last_message_count =
     (sm_message_count m,
      \<lparr>ps_message_count = sm_message_count m, ps_recipient_key = sm_recipient_key m,
       ps_longest_waited_seconds = sm_longest_waited_seconds m, ps_total_bytes = sm_total_bytes m,
       ps_live_delivery = (case sm_live_delivery m of None \<Rightarrow> False | Some b \<Rightarrow> b)\<rparr>)"

definition pr_create_messages_received :: "string \<Rightarrow> string list \<Rightarrow> string option \<Rightarrow> messages_received" where
  "pr_create_messages_received uuid message_ids thread_id =
     \<lparr>mr_id = uuid, mr_thread = map_option thread_of thread_id, mr_message_id_list = message_ids\<rparr>"

section \<open>The contract of a repository\<close>

text \<open>
  \<open>queue\<close> is the abstract queue of a repository state. A call that succeeds does what the abstract
  queue prescribes; of calls that fail only counting and expiry promise to change nothing. A message's id is unique among all
  connections.
\<close>

definition q_unique :: "abstract_queue \<Rightarrow> bool" where
  "q_unique Q \<longleftrightarrow> (\<forall>c. distinct (map qm_id (Q c))) \<and>
     (\<forall>c c'. \<forall>m\<in>set (Q c). \<forall>m'\<in>set (Q c'). qm_id m = qm_id m' \<longrightarrow> c = c')"

lemma q_unique_own:
  assumes "q_unique Q" "A \<subseteq> set (Q c)" "m \<in> set (Q d)"
  shows "qm_id m \<in> qm_id ` A \<longleftrightarrow> d = c \<and> m \<in> A"
proof
  assume "qm_id m \<in> qm_id ` A"
  then obtain m' where m': "m' \<in> A" "qm_id m = qm_id m'" by blast
  then have mem: "m' \<in> set (Q c)" using assms(2) by blast
  then have "d = c" using assms(1,3) m'(2) unfolding q_unique_def by blast
  moreover have "inj_on qm_id (set (Q c))" using assms(1) by (simp add: q_unique_def distinct_map)
  ultimately show "d = c \<and> m \<in> A" using assms(3) mem m' inj_onD by fastforce
qed simp

locale message_repository =
  fixes ops :: "'s mq_ops" and inv :: "'s \<Rightarrow> bool" and queue :: "'s \<Rightarrow> abstract_queue"
  assumes unique: "inv s \<Longrightarrow> q_unique (queue s)"
    and add: "inv s \<Longrightarrow> \<forall>c. \<forall>m'\<in>set (queue s c). qm_id m' \<noteq> qm_id m \<Longrightarrow> qo_add_message ops m s = (s', Inr i) \<Longrightarrow>
      inv s' \<and> i = qm_id m \<and> queue s' = (queue s)(qm_connection_id m := queue s (qm_connection_id m) @ [m])"
    and count: "inv s \<Longrightarrow> qo_get_pending_count ops c key s = (s', Inr n) \<Longrightarrow>
      inv s' \<and> queue s' = queue s \<and> n = length (q_deliverable key (queue s c))"
    and take: "inv s \<Longrightarrow> qo_take_from_queue ops c key limit s = (s', Inr ms) \<Longrightarrow>
      inv s' \<and> ms = q_batch key (unat limit) (queue s c) \<and> queue s' = q_mark mark_sending (qm_id ` set ms) (queue s)"
    and remove: "inv s \<Longrightarrow> qo_remove_messages ops ids s = (s', Inr ()) \<Longrightarrow> inv s' \<and> queue s' = q_drop (set ids) (queue s)"
    and expire: "inv s \<Longrightarrow> qo_delete_expired_for_connection ops c t s = (s', Inr n) \<Longrightarrow>
      inv s' \<and> queue s' = (queue s)(c := filter (\<lambda>m. \<not> qm_received_at m < t) (queue s c)) \<and>
      n = length (filter (\<lambda>m. qm_received_at m < t) (queue s c))"
    and failed_read: "inv s \<Longrightarrow> qo_get_pending_count ops c key s = (s', Inl e) \<Longrightarrow> inv s' \<and> queue s' = queue s"
    and failed_expire: "inv s \<Longrightarrow> qo_delete_expired_for_connection ops c t s = (s', Inl e) \<Longrightarrow> inv s' \<and> queue s' = queue s"
begin

lemma delivery:
  assumes "inv s" and "pm_process_delivery_request ops b64 uuid req c s = (s', Inr d)"
    and "ms = q_batch (dr_recipient_key req) (unat (dr_limit req)) (queue s c)"
  shows "inv s'" "queue s' = q_mark mark_sending (qm_id ` set ms) (queue s)" "md_attachments d = map (pm_attachment b64) ms"
proof -
  obtain r where r: "qo_take_from_queue ops c (dr_recipient_key req) (dr_limit req) s = (s', Inr r)"
    and d: "md_attachments d = map (pm_attachment b64) r"
    using assms(2) by (auto simp: pm_process_delivery_request_def message_delivery_new_def Let_def
        split: prod.splits sum.splits option.splits)
  with take [OF assms(1) r] assms(3)
  show "inv s'" "queue s' = q_mark mark_sending (qm_id ` set ms) (queue s)" "md_attachments d = map (pm_attachment b64) ms"
    by simp_all
qed

lemma acknowledgement:
  assumes "inv s" and "pm_process_messages_received ops uuid ack c s = (s', Inr st)"
  shows "inv s'" "queue s' = q_drop (set (mr_message_id_list ack)) (queue s)"
    "sm_message_count st = length (q_deliverable None (queue s' c))"
proof -
  obtain s1 n where 1: "qo_remove_messages ops (mr_message_id_list ack) s = (s1, Inr ())"
    and 2: "qo_get_pending_count ops c None s1 = (s', Inr n)" and 3: "sm_message_count st = n"
    using assms(2) by (auto simp: pm_process_messages_received_def status_message_new_def Let_def split: prod.splits sum.splits)
  from remove [OF assms(1) 1] count [OF _ 2] 3
  show "inv s'" "queue s' = q_drop (set (mr_message_id_list ack)) (queue s)"
    "sm_message_count st = length (q_deliverable None (queue s' c))" by auto
qed

text \<open>A delivery followed by the acknowledgement of what it carried.\<close>

lemma round_trip:
  assumes inv: "inv s" and del: "pm_process_delivery_request ops b64 uuid req c s = (s1, Inr d)"
    and ack: "pm_process_messages_received ops uuid' (pr_create_messages_received uuid'' (delivery_message_ids d) t) c s1 = (s2, Inr st)"
    and ms: "ms = q_batch (dr_recipient_key req) (unat (dr_limit req)) (queue s c)"
  shows "inv s2" "queue s2 = (queue s)(c := filter (\<lambda>m. m \<notin> set ms) (queue s c))"
proof -
  note d = delivery [OF inv del ms]
  have ids: "delivery_message_ids d = map qm_id ms"
    by (simp add: delivery_message_ids_def d(3) map_filter_map_filter pm_attachment_def map_filter_all o_def List.map_filter_def)
  note a = acknowledgement [OF d(1) ack, unfolded pr_create_messages_received_def messages_received.simps ids]
  show "inv s2" by (rule a(1))
  have sub: "set ms \<subseteq> set (queue s c)"
    by (auto simp: ms q_batch_def q_deliverable_def dest!: in_set_takeD)
  have "queue s2 d' = ((queue s)(c := filter (\<lambda>m. m \<notin> set ms) (queue s c))) d'" for d'
  proof -
    have own: "qm_id m \<in> qm_id ` set ms \<longleftrightarrow> d' = c \<and> m \<in> set ms" if "m \<in> set (queue s d')" for m
      by (rule q_unique_own [OF unique [OF inv] sub that])
    have "queue s2 d' = map (\<lambda>m. if qm_id m \<in> qm_id ` set ms then mark_sending m else m)
        (filter (\<lambda>m. qm_id m \<notin> qm_id ` set ms) (queue s d'))"
      unfolding a(2) d(2) q_drop_def q_mark_def by (simp add: filter_map o_def if_distrib [of qm_id])
    also have "\<dots> = filter (\<lambda>m. qm_id m \<notin> qm_id ` set ms) (queue s d')" by (rule map_idI) auto
    also have "\<dots> = filter (\<lambda>m. \<not> (d' = c \<and> m \<in> set ms)) (queue s d')" by (rule filter_cong) (use own in auto)
    finally show ?thesis by simp
  qed
  then show "queue s2 = (queue s)(c := filter (\<lambda>m. m \<notin> set ms) (queue s c))" by blast
qed

end

interpretation memory_queue: message_repository memory_queue_ops mq_inv mq_abs
proof
  fix q q' m i c key n limit ids and ms :: "queued_message list"
  assume inv: "mq_inv q"
  have mem: "hm_get (mq_messages q) (qm_id m) = Some m \<and> qm_connection_id m = c" if "m \<in> set (mq_abs q c)" for m c
    using that mq_abs_mem [OF inv] by blast
  show "q_unique (mq_abs q)"
    unfolding q_unique_def
  proof (intro conjI allI ballI impI)
    show "distinct (map qm_id (mq_abs q c))" for c
      unfolding mq_abs_ids [OF inv] using inv by (simp add: mq_inv_def)
    show "c = c'" if "m \<in> set (mq_abs q c)" "m' \<in> set (mq_abs q c')" "qm_id m = qm_id m'" for c c' m m'
      using mem [OF that(1)] mem [OF that(2)] that(3) by (metis option.inject)
  qed
  show "mq_inv q' \<and> i = qm_id m \<and> mq_abs q' = (mq_abs q)(qm_connection_id m := mq_abs q (qm_connection_id m) @ [m])"
    if "\<forall>c. \<forall>m'\<in>set (mq_abs q c). qm_id m' \<noteq> qm_id m" "qo_add_message memory_queue_ops m q = (q', Inr i)"
  proof -
    have "hm_get (mq_messages q) (qm_id m) = None"
    proof (cases "hm_get (mq_messages q) (qm_id m)")
      case (Some m')
      then have "m' \<in> set (mq_abs q (qm_connection_id m'))" "qm_id m' = qm_id m"
        using mq_inv_get(1) [OF inv Some] by (simp_all add: mq_abs_mem [OF inv])
      with that(1) show ?thesis by blast
    qed
    with mq_add_refines [OF inv, of m] that(2) show ?thesis
      by (auto simp: memory_queue_ops_def mq_add_message_def Let_def)
  qed
  show "qo_get_pending_count memory_queue_ops c key q = (q', Inr n) \<Longrightarrow>
      mq_inv q' \<and> mq_abs q' = mq_abs q \<and> n = length (q_deliverable key (mq_abs q c))"
    using inv by (auto simp: memory_queue_ops_def mq_counts_refine)
  show "qo_take_from_queue memory_queue_ops c key limit q = (q', Inr ms) \<Longrightarrow>
      mq_inv q' \<and> ms = q_batch key (unat limit) (mq_abs q c) \<and> mq_abs q' = q_mark mark_sending (qm_id ` set ms) (mq_abs q)"
    using mq_take_refines [OF inv, of c key limit q' ms]
    by (simp add: memory_queue_ops_def Let_def split: prod.splits)
  show "qo_remove_messages memory_queue_ops ids q = (q', Inr ()) \<Longrightarrow> mq_inv q' \<and> mq_abs q' = q_drop (set ids) (mq_abs q)"
    using mq_remove_refines [OF inv, of ids] by (auto simp: memory_queue_ops_def)
  fix t e
  have len: "snd (mq_delete_expired_for_connection c t q) = length (filter (\<lambda>m. qm_received_at m < t) (mq_abs q c))"
    by (auto simp: mq_delete_expired_for_connection_def mq_abs_def mq_ids_def Let_def map_filter_simps split: option.splits)
  show "qo_delete_expired_for_connection memory_queue_ops c t q = (q', Inr n) \<Longrightarrow>
      mq_inv q' \<and> mq_abs q' = (mq_abs q)(c := filter (\<lambda>m. \<not> qm_received_at m < t) (mq_abs q c)) \<and>
      n = length (filter (\<lambda>m. qm_received_at m < t) (mq_abs q c))"
    using mq_expired_connection_refines [OF inv, of c t] len by (auto simp: memory_queue_ops_def case_prod_beta Let_def)
  show "qo_get_pending_count memory_queue_ops c key q = (q', Inl e) \<Longrightarrow> mq_inv q' \<and> mq_abs q' = mq_abs q"
    "qo_delete_expired_for_connection memory_queue_ops c t q = (q', Inl e) \<Longrightarrow> mq_inv q' \<and> mq_abs q' = mq_abs q"
    by (simp_all add: memory_queue_ops_def case_prod_beta Let_def)
qed

section \<open>Picking up everything\<close>

text \<open>
  A recipient that keeps asking for up to \<open>limit\<close> messages, decodes them and acknowledges what it
  decoded, for a number of rounds. It stops at the first error.
\<close>

definition pickup_round ::
  "(bytes \<Rightarrow> string) \<Rightarrow> (string \<Rightarrow> bytes option) \<Rightarrow> u32 \<Rightarrow> string \<Rightarrow> message_queue \<Rightarrow> (message_queue \<times> bytes list) option" where
  "pickup_round b64 unb64 limit c q =
     (case pm_process_delivery_request memory_queue_ops b64 ''d'' \<lparr>dr_id = ''r'', dr_limit = limit, dr_recipient_key = None\<rparr> c q of
        (q1, Inl _) \<Rightarrow> None
      | (q1, Inr d) \<Rightarrow>
          (case pr_process_delivery unb64 (\<lambda>_. None) d of
             Inl _ \<Rightarrow> None
           | Inr dms \<Rightarrow>
               (case pm_process_messages_received memory_queue_ops ''s'' (pr_create_messages_received ''a'' (map dm_id dms) None) c q1 of
                  (q2, Inl _) \<Rightarrow> None
                | (q2, Inr _) \<Rightarrow> Some (q2, map dm_encrypted_message dms))))"

fun pickup_rounds ::
  "(bytes \<Rightarrow> string) \<Rightarrow> (string \<Rightarrow> bytes option) \<Rightarrow> u32 \<Rightarrow> string \<Rightarrow> nat \<Rightarrow> message_queue \<Rightarrow> (message_queue \<times> bytes list) option" where
  "pickup_rounds b64 unb64 limit c 0 q = Some (q, [])"
| "pickup_rounds b64 unb64 limit c (Suc n) q =
     (case pickup_round b64 unb64 limit c q of
        None \<Rightarrow> None
      | Some (q', got) \<Rightarrow>
          (case pickup_rounds b64 unb64 limit c n q' of None \<Rightarrow> None | Some (q'', rest) \<Rightarrow> Some (q'', got @ rest)))"

lemma pr_decode_delivery:
  assumes "\<And>bs. unb64 (b64 bs) = Some bs"
  shows "pr_decode_all unb64 jb (map (pm_attachment b64) ms) =
    Inr (map (\<lambda>m. \<lparr>dm_id = qm_id m, dm_encrypted_message = str_bytes (qm_encrypted_message m)\<rparr>) ms)"
  by (induction ms) (simp_all add: pr_decode_attachment_def pm_attachment_def attachment_data_base64_def
      attachment_data_default_def opt_string_def Let_def assms)

lemma pickup_round_ok:
  assumes inv: "mq_inv q" and b64: "\<And>bs. unb64 (b64 bs) = Some bs"
    and ms: "ms = q_batch None (unat limit) (mq_abs q c)"
  obtains q' where "pickup_round b64 unb64 limit c q = Some (q', map (\<lambda>m. str_bytes (qm_encrypted_message m)) ms)"
    "mq_inv q'" "mq_abs q' = (mq_abs q)(c := filter (\<lambda>m. m \<notin> set ms) (mq_abs q c))"
proof -
  let ?req = "\<lparr>dr_id = ''r'', dr_limit = limit, dr_recipient_key = None\<rparr>"
  obtain q1 d where del: "pm_process_delivery_request memory_queue_ops b64 ''d'' ?req c q = (q1, Inr d)"
    by (cases "mq_take_from_queue c None limit q") (simp add: pm_process_delivery_request_def memory_queue_ops_def Let_def)
  have d: "md_attachments d = map (pm_attachment b64) ms"
    by (rule memory_queue.delivery(3) [OF inv del]) (simp add: ms)
  let ?dms = "map (\<lambda>m. \<lparr>dm_id = qm_id m, dm_encrypted_message = str_bytes (qm_encrypted_message m)\<rparr>) ms"
  have dec: "pr_process_delivery unb64 (\<lambda>_. None) d = Inr ?dms"
    using pr_decode_delivery [OF b64] by (simp add: pr_process_delivery_def d)
  have ids: "map dm_id ?dms = delivery_message_ids d"
    by (simp add: delivery_message_ids_def d pm_attachment_def List.map_filter_def o_def)
  obtain q2 st where ack: "pm_process_messages_received memory_queue_ops ''s''
      (pr_create_messages_received ''a'' (delivery_message_ids d) None) c q1 = (q2, Inr st)"
    by (simp add: pm_process_messages_received_def memory_queue_ops_def Let_def)
  have "pickup_round b64 unb64 limit c q = Some (q2, map (\<lambda>m. str_bytes (qm_encrypted_message m)) ms)"
    using ids by (simp add: pickup_round_def del dec ack o_def)
  with memory_queue.round_trip [OF inv del ack, of ms] ms that show thesis by simp
qed

lemma filter_not_take: "distinct xs \<Longrightarrow> filter (\<lambda>x. x \<notin> set (take n xs)) xs = drop n xs"
proof -
  assume dis: "distinct xs"
  have "set (take n xs) \<inter> set (drop n xs) = {}" using dis by (metis append_take_drop_id distinct_append)
  then have "filter (\<lambda>x. x \<notin> set (take n xs)) (drop n xs) = drop n xs" by (auto simp: filter_id_conv)
  moreover have "filter (\<lambda>x. x \<notin> set (take n xs)) xs =
      filter (\<lambda>x. x \<notin> set (take n xs)) (take n xs) @ filter (\<lambda>x. x \<notin> set (take n xs)) (drop n xs)"
    by (metis append_take_drop_id filter_append)
  ultimately show ?thesis by simp
qed

text \<open>
  C11. A recipient that keeps asking gets everything: with any positive limit, as many rounds of
  request, decoding and acknowledgement as there are messages waiting never fail, hand over
  exactly the waiting messages, in the order in which the mediator received them, and leave the
  connection's queue empty and every other connection's queue untouched.
\<close>

theorem pickup_drains:
  assumes "mq_inv q" and "\<And>bs. unb64 (b64 bs) = Some bs" and "0 < limit"
    and "list_all (\<lambda>m. qm_state m = Pending) (mq_abs q c)" and "length (mq_abs q c) \<le> n"
  shows "\<exists>q'. pickup_rounds b64 unb64 limit c n q =
      Some (q', map (\<lambda>m. str_bytes (qm_encrypted_message m)) (sort_key qm_received_at (mq_abs q c))) \<and>
    mq_inv q' \<and> mq_abs q' = (mq_abs q)(c := [])"
  using assms(1,4,5)
proof (induction n arbitrary: q)
  case 0
  then show ?case by auto
next
  case (Suc n)
  let ?Q = "mq_abs q c" and ?ms = "q_batch None (unat limit) (mq_abs q c)"
  have all: "q_deliverable None ?Q = ?Q"
    using Suc.prems(2) by (auto simp: q_deliverable_def list_all_iff matches_recipient_key_def filter_id_conv)
  have ms: "?ms = take (unat limit) (sort_key qm_received_at ?Q)" by (simp add: q_batch_def all)
  obtain q' where q': "pickup_round b64 unb64 limit c q = Some (q', map (\<lambda>m. str_bytes (qm_encrypted_message m)) ?ms)"
    "mq_inv q'" "mq_abs q' = (mq_abs q)(c := filter (\<lambda>m. m \<notin> set ?ms) ?Q)"
    by (rule pickup_round_ok [OF Suc.prems(1) assms(2) refl])
  have dis: "distinct ?Q" using memory_queue.unique [OF Suc.prems(1)] by (simp add: q_unique_def distinct_map)
  have rest: "sort_key qm_received_at (filter (\<lambda>m. m \<notin> set ?ms) ?Q) = drop (unat limit) (sort_key qm_received_at ?Q)"
    unfolding filter_sort [symmetric] ms by (rule filter_not_take) (simp add: dis)
  have "0 < unat limit" using assms(3) by (simp add: word_less_nat_alt)
  then have "length (filter (\<lambda>m. m \<notin> set ?ms) ?Q) \<le> n"
    using Suc.prems(3) arg_cong [OF rest, of length] by simp
  moreover have "list_all (\<lambda>m. qm_state m = Pending) (filter (\<lambda>m. m \<notin> set ?ms) ?Q)"
    using Suc.prems(2) by (auto simp: list_all_iff)
  ultimately obtain q'' where r: "pickup_rounds b64 unb64 limit c n q' = Some (q'', map (\<lambda>m. str_bytes (qm_encrypted_message m))
      (drop (unat limit) (sort_key qm_received_at ?Q)))" "mq_inv q''" "mq_abs q'' = (mq_abs q)(c := [])"
    using Suc.IH [OF q'(2)] unfolding q'(3) fun_upd_same fun_upd_upd rest by blast
  have "pickup_rounds b64 unb64 limit c (Suc n) q = Some (q'', map (\<lambda>m. str_bytes (qm_encrypted_message m)) (sort_key qm_received_at ?Q))"
    unfolding pickup_rounds.simps q'(1) ms option.case prod.case r(1) by (simp flip: map_append)
  with r(2,3) show ?case by blast
qed

definition demo_queue :: message_queue where
  "demo_queue = fst (mq_add_message (qm_new ''m2'' 5 ''c'' [] ''B'') (fst (mq_add_message (qm_new ''m1'' 7 ''c'' [] ''A'') mq_new)))"

lemma demo_queue_ok: "mq_inv demo_queue" "mq_abs demo_queue ''c'' = [qm_new ''m1'' 7 ''c'' [] ''A'', qm_new ''m2'' 5 ''c'' [] ''B'']"
proof -
  let ?m1 = "qm_new ''m1'' 7 ''c'' [] ''A''" and ?m2 = "qm_new ''m2'' 5 ''c'' [] ''B''"
  have 1: "mq_inv (fst (mq_add_message ?m1 mq_new))" by (rule mq_add_refines(1) [OF mq_new_inv]) (simp add: mq_new_def)
  then show "mq_inv demo_queue" unfolding demo_queue_def
    by (rule mq_add_refines(1)) (simp add: mq_new_def mq_add_message_def qm_new_def)
  show "mq_abs demo_queue ''c'' = [?m1, ?m2]"
    by (simp add: demo_queue_def mq_add_message_def mq_new_def mq_abs_def mq_ids_def qm_new_def map_filter_simps)
qed

theorem pickup_drains_witness:
  "\<exists>q'. pickup_rounds bytes_str (\<lambda>s. Some (str_bytes s)) 1 ''c'' 2 demo_queue = Some (q', [str_bytes ''B'', str_bytes ''A'']) \<and>
     mq_abs q' ''c'' = []"
proof -
  have "str_bytes (bytes_str bs) = bs" for bs by (induction bs) (simp_all add: str_bytes_def bytes_str_def)
  then obtain q' where "pickup_rounds bytes_str (\<lambda>s. Some (str_bytes s)) 1 ''c'' 2 demo_queue =
      Some (q', map (\<lambda>m. str_bytes (qm_encrypted_message m)) (sort_key qm_received_at (mq_abs demo_queue ''c'')))"
    "mq_abs q' = (mq_abs demo_queue)(''c'' := [])"
    using pickup_drains [OF demo_queue_ok(1), of "\<lambda>s. Some (str_bytes s)" bytes_str 1 "''c''" 2]
    by (auto simp: demo_queue_ok(2) qm_new_def)
  then show ?thesis by (simp add: demo_queue_ok(2) qm_new_def sort_key_def)
qed

section \<open>What the protocol does not check\<close>

text \<open>
  An acknowledgement is not limited to the sender's own messages: a message waiting for one
  connection is deleted when any other connection names its id, although it was never delivered.
\<close>

theorem acknowledgement_removes_foreign:
  assumes "mq_inv q" and "m \<in> set (mq_abs q victim)" and "qm_id m \<in> set (mr_message_id_list ack)"
  shows "m \<notin> set (mq_abs (fst (pm_process_messages_received memory_queue_ops uuid ack sender q)) victim)"
proof -
  obtain q' st where run: "pm_process_messages_received memory_queue_ops uuid ack sender q = (q', Inr st)"
    by (simp add: pm_process_messages_received_def memory_queue_ops_def Let_def)
  from memory_queue.acknowledgement(2) [OF assms(1) run] assms(3) run show ?thesis by (simp add: q_drop_def)
qed

theorem acknowledgement_removes_foreign_witness:
  "qm_new ''m1'' 7 ''c'' [] ''A'' \<in> set (mq_abs demo_queue ''c'') \<and>
   qm_new ''m1'' 7 ''c'' [] ''A'' \<notin> set (mq_abs (fst (pm_process_messages_received memory_queue_ops ''u''
     (pr_create_messages_received ''a'' [''m1''] None) ''attacker'' demo_queue)) ''c'')"
  using acknowledgement_removes_foreign [OF demo_queue_ok(1), of "qm_new ''m1'' 7 ''c'' [] ''A''" "''c''"
      "pr_create_messages_received ''a'' [''m1''] None" "''u''" "''attacker''"]
  by (simp add: demo_queue_ok(2) pr_create_messages_received_def qm_new_def)

text \<open>
  The requested limit is reduced to its low 32 bits: a delivery request whose limit is a multiple
  of \<open>2 ^ 32\<close> is answered without a single message, however many are waiting, and changes nothing.
\<close>

theorem delivery_limit_wraps:
  assumes "json_get (msg_body (in_message i)) ''limit'' = Some (JInt (k * 2 ^ 32))" and "0 \<le> k" "k < 2 ^ 32"
    and "cx_connection_id (in_context i) = Some c"
  shows "\<exists>r. handle_delivery_request memory_queue_ops b64 uuid i q = (q, Inr (Some r)) \<and> msg_attachments (out_message r) = None"
proof -
  have "k * 2 ^ 32 < 2 ^ 64" using assms(3) by simp
  moreover have "(ucast (of_int (k * 2 ^ 32) :: u64) :: u32) = 0"
  proof -
    have "(ucast (of_int n :: u64) :: u32) = of_int n" for n by (simp only: unsigned_of_int) (simp add: word_of_int_eq_iff)
    moreover have "(of_int (k * 2 ^ 32) :: u32) = of_int 0"
      by (subst word_of_int_eq_iff) (simp add: take_bit_eq_mod)
    ultimately show ?thesis by (simp only: of_int_0)
  qed
  ultimately have zero: "dr_limit (parse_delivery_request (in_message i)) = 0"
    using assms(1,2) by (simp add: parse_delivery_request_def body_or_extra_def)
  obtain q' ms where take: "mq_take_from_queue c (dr_recipient_key (parse_delivery_request (in_message i))) 0 q = (q', ms)"
    by (cases "mq_take_from_queue c (dr_recipient_key (parse_delivery_request (in_message i))) 0 q")
  then have "q' = q" "ms = []" by (auto simp: mq_take_from_queue_def Let_def split: option.splits)
  with take zero assms(4) show ?thesis
    by (auto simp: handle_delivery_request_def pm_process_delivery_request_def memory_queue_ops_def handler_result_def
        message_delivery_new_def build_delivery_response_def reply_def builder_thread_def builder_new_def message_new_def
        Let_def split: option.splits)
qed

definition demo_request :: "int \<Rightarrow> inbound_message" where
  "demo_request n = \<lparr>in_message = message_new ''r'' ''t'' (JObject [(''limit'', JInt n)]),
     in_context = \<lparr>cx_from = Some ''did:a'', cx_to = Some ''did:m'', cx_thread_id = None, cx_parent_thread_id = None,
       cx_connection_id = Some ''c'', cx_encrypted = True, cx_authenticated = True, cx_sender_endpoint = None, cx_raw_plaintext = None\<rparr>\<rparr>"

theorem delivery_limit_wraps_witness:
  "\<exists>r. handle_delivery_request memory_queue_ops bytes_str ''u'' (demo_request 4294967296) demo_queue = (demo_queue, Inr (Some r)) \<and>
     msg_attachments (out_message r) = None"
  using delivery_limit_wraps [of "demo_request 4294967296" 1 "''c''" bytes_str "''u''" demo_queue]
  by (simp add: demo_request_def message_new_def)

end
