(* ===== verification/Pickup_Storage.thy ===== *)
theory Pickup_Storage
  imports Pickup_Mediator
begin

text \<open>
  The durable message queue: \<open>protocols/pickup/src/repository/storage_backed_message_queue.rs\<close>, a
  write-through cache over a storage provider. \<open>serde_json\<close> is a crate: the codec of a queued
  message is a pair of functions. The two caches are options, \<open>None\<close> until the first access, and
  \<open>unwrap\<close> of an empty one panics.
\<close>

record qm_codec =
  qc_to_vec :: "queued_message \<Rightarrow> bytes option"
  qc_from_slice :: "bytes \<Rightarrow> queued_message option"

definition qm_codec_ok :: "qm_codec \<Rightarrow> bool" where
  "qm_codec_ok qc \<longleftrightarrow> (\<forall>m bs. qc_to_vec qc m = Some bs \<longrightarrow> qc_from_slice qc bs = Some m)"

definition MESSAGE_QUEUE_CATEGORY :: string where "MESSAGE_QUEUE_CATEGORY = ''message_queue''"

record 's stored_queue =
  sq_storage :: 's
  sq_messages :: "(string, queued_message) hash_map option"
  sq_by_connection :: "(string, string list) hash_map option"

definition sq_new :: "'s \<Rightarrow> 's stored_queue" where
  "sq_new st = \<lparr>sq_storage = st, sq_messages = None, sq_by_connection = None\<rparr>"

section \<open>Storage access\<close>

fun state_string :: "queued_message_state \<Rightarrow> string" where
  "state_string Pending = ''pending''"
| "state_string Sending = ''sending''"

definition sq_build_tags :: "queued_message \<Rightarrow> tags" where
  "sq_build_tags m = [(''connection_id'', qm_connection_id m), (''state'', state_string (qm_state m))]"

definition sq_record :: "queued_message \<Rightarrow> bytes \<Rightarrow> storage_record" where
  "sq_record m value = record_with_tags (sq_build_tags m) (record_new MESSAGE_QUEUE_CATEGORY (qm_id m) value)"

definition sq_persist :: "'s storage_ops \<Rightarrow> qm_codec \<Rightarrow> queued_message \<Rightarrow> 's \<Rightarrow> 's \<times> (pickup_error + unit)" where
  "sq_persist ops qc m st =
     (case qc_to_vec qc m of
        None \<Rightarrow> (st, Inl (PickupStorage ''Failed to serialize message: ''))
      | Some value \<Rightarrow>
          (case st_save ops (sq_record m value) st of
             (st, Inl _) \<Rightarrow> (st, Inl (PickupStorage ''Failed to store queued message: ''))
           | (st, Inr _) \<Rightarrow> (st, Inr ())))"

definition sq_update_in_storage :: "'s storage_ops \<Rightarrow> qm_codec \<Rightarrow> queued_message \<Rightarrow> 's \<Rightarrow> 's \<times> (pickup_error + unit)" where
  "sq_update_in_storage ops qc m st =
     (case qc_to_vec qc m of
        None \<Rightarrow> (st, Inl (PickupStorage ''Failed to serialize message: ''))
      | Some value \<Rightarrow>
          (case st_update ops (sq_record m value) st of
             (st, Inl _) \<Rightarrow> (st, Inl (PickupStorage ''Failed to update queued message: ''))
           | (st, Inr _) \<Rightarrow> (st, Inr ())))"

definition sq_delete_from_storage :: "'s storage_ops \<Rightarrow> string \<Rightarrow> 's \<Rightarrow> 's \<times> (pickup_error + unit)" where
  "sq_delete_from_storage ops mid st =
     (case st_delete ops MESSAGE_QUEUE_CATEGORY mid st of
        (st, Inl _) \<Rightarrow> (st, Inl (PickupStorage ''Failed to delete queued message: ''))
      | (st, Inr _) \<Rightarrow> (st, Inr ()))"

section \<open>Loading\<close>

definition sq_index :: "qm_codec \<Rightarrow> storage_record list \<Rightarrow> message_queue" where
  "sq_index qc records =
     fold (\<lambda>r q. case qc_from_slice qc (rec_value r) of None \<Rightarrow> q | Some m \<Rightarrow> fst (mq_add_message m q)) records mq_new"

text \<open>Messages that were being sent when the process died are pending again.\<close>

definition sq_orphans :: "message_queue \<Rightarrow> string list" where
  "sq_orphans q = map fst (filter (\<lambda>(i, m). qm_state m = Sending) (mq_messages q))"

definition sq_write_back ::
  "'s storage_ops \<Rightarrow> qm_codec \<Rightarrow> (string, queued_message) hash_map \<Rightarrow> string list \<Rightarrow> 's \<Rightarrow> 's" where
  "sq_write_back ops qc messages ids st =
     fold (\<lambda>i st. case hm_get messages i of None \<Rightarrow> st | Some m \<Rightarrow> fst (sq_update_in_storage ops qc m st)) ids st"

text \<open>
  \<open>ensure_loaded\<close> releases the lock of the first cache before it fills the second one: the two
  halves are separate steps. The connection index is handed from the first to the second.
\<close>

definition sq_load_messages ::
  "'s storage_ops \<Rightarrow> qm_codec \<Rightarrow> 's stored_queue \<Rightarrow> 's stored_queue \<times> (pickup_error + (string, string list) hash_map option)" where
  "sq_load_messages ops qc s =
     (if sq_messages s \<noteq> None then (s, Inr None)
      else (case st_find_all ops MESSAGE_QUEUE_CATEGORY query_new (sq_storage s) of
              Inl _ \<Rightarrow> (s, Inl (PickupStorage ''Failed to load message queue records: ''))
            | Inr records \<Rightarrow>
                let q = sq_index qc records;
                    orphan_ids = sq_orphans q;
                    q = fold (mq_set_state mark_pending) orphan_ids q;
                    st = sq_write_back ops qc (mq_messages q) orphan_ids (sq_storage s)
                in (s\<lparr>sq_storage := st, sq_messages := Some (mq_messages q)\<rparr>, Inr (Some (mq_by_connection q)))))"

definition sq_load_index :: "(string, string list) hash_map option \<Rightarrow> 's stored_queue \<Rightarrow> 's stored_queue" where
  "sq_load_index conn_map s = (case conn_map of None \<Rightarrow> s | Some m \<Rightarrow> s\<lparr>sq_by_connection := Some m\<rparr>)"

definition sq_ensure_loaded :: "'s storage_ops \<Rightarrow> qm_codec \<Rightarrow> 's stored_queue \<Rightarrow> 's stored_queue \<times> (pickup_error + unit)" where
  "sq_ensure_loaded ops qc s =
     (case sq_load_messages ops qc s of
        (s, Inl e) \<Rightarrow> (s, Inl e)
      | (s, Inr conn_map) \<Rightarrow> (sq_load_index conn_map s, Inr ()))"

text \<open>The caches as the in-memory repository, which \<open>unwrap\<close> reads; and a write of both.\<close>

definition sq_cache :: "'s stored_queue \<Rightarrow> message_queue option" where
  "sq_cache s =
     (case (sq_messages s, sq_by_connection s) of
        (Some m, Some c) \<Rightarrow> Some \<lparr>mq_messages = m, mq_by_connection = c\<rparr> | _ \<Rightarrow> None)"

definition sq_set_cache :: "message_queue \<Rightarrow> 's stored_queue \<Rightarrow> 's stored_queue" where
  "sq_set_cache q s = s\<lparr>sq_messages := Some (mq_messages q), sq_by_connection := Some (mq_by_connection q)\<rparr>"

definition sq_with_cache ::
  "'s storage_ops \<Rightarrow> qm_codec \<Rightarrow> (message_queue \<Rightarrow> 's stored_queue \<Rightarrow> 's stored_queue \<times> (pickup_error fault + 'a)) \<Rightarrow>
   's stored_queue \<Rightarrow> 's stored_queue \<times> (pickup_error fault + 'a)" where
  "sq_with_cache ops qc f s =
     (case sq_ensure_loaded ops qc s of
        (s, Inl e) \<Rightarrow> (s, Inl (Raised e))
      | (s, Inr _) \<Rightarrow> (case sq_cache s of None \<Rightarrow> (s, Inl Panicked) | Some q \<Rightarrow> f q s))"

section \<open>Operations\<close>

definition sq_add_message ::
  "'s storage_ops \<Rightarrow> qm_codec \<Rightarrow> queued_message \<Rightarrow> 's stored_queue \<Rightarrow> 's stored_queue \<times> (pickup_error fault + string)" where
  "sq_add_message ops qc m s =
     (case sq_ensure_loaded ops qc s of
        (s, Inl e) \<Rightarrow> (s, Inl (Raised e))
      | (s, Inr _) \<Rightarrow>
          (case sq_persist ops qc m (sq_storage s) of
             (st, Inl e) \<Rightarrow> (s\<lparr>sq_storage := st\<rparr>, Inl (Raised e))
           | (st, Inr _) \<Rightarrow>
               let s = s\<lparr>sq_storage := st\<rparr>
               in (case sq_cache s of
                     None \<Rightarrow> (s, Inl Panicked)
                   | Some q \<Rightarrow> (sq_set_cache (fst (mq_add_message m q)) s, Inr (qm_id m)))))"

definition sq_get_pending_count ::
  "'s storage_ops \<Rightarrow> qm_codec \<Rightarrow> string \<Rightarrow> string option \<Rightarrow> 's stored_queue \<Rightarrow> 's stored_queue \<times> (pickup_error fault + nat)" where
  "sq_get_pending_count ops qc c key = sq_with_cache ops qc (\<lambda>q s. (s, Inr (mq_get_pending_count q c key)))"

definition sq_get_total_bytes ::
  "'s storage_ops \<Rightarrow> qm_codec \<Rightarrow> string \<Rightarrow> string option \<Rightarrow> 's stored_queue \<Rightarrow> 's stored_queue \<times> (pickup_error fault + nat)" where
  "sq_get_total_bytes ops qc c key = sq_with_cache ops qc (\<lambda>q s. (s, Inr (mq_get_total_bytes q c key)))"

definition sq_get_oldest_message_time ::
  "'s storage_ops \<Rightarrow> qm_codec \<Rightarrow> string \<Rightarrow> string option \<Rightarrow> 's stored_queue \<Rightarrow> 's stored_queue \<times> (pickup_error fault + timestamp option)" where
  "sq_get_oldest_message_time ops qc c key = sq_with_cache ops qc (\<lambda>q s. (s, Inr (mq_get_oldest_message_time q c key)))"

definition sq_take_from_queue ::
  "'s storage_ops \<Rightarrow> qm_codec \<Rightarrow> string \<Rightarrow> string option \<Rightarrow> u32 \<Rightarrow> 's stored_queue \<Rightarrow>
   's stored_queue \<times> (pickup_error fault + queued_message list)" where
  "sq_take_from_queue ops qc c key limit =
     sq_with_cache ops qc (\<lambda>q s.
       let (q', taken) = mq_take_from_queue c key limit q;
           s = sq_set_cache q' s
       in (s\<lparr>sq_storage := sq_write_back ops qc (mq_messages q') (map qm_id taken) (sq_storage s)\<rparr>, Inr taken))"

definition sq_delete_all :: "'s storage_ops \<Rightarrow> string list \<Rightarrow> 's \<Rightarrow> 's" where
  "sq_delete_all ops ids st = fold (\<lambda>i st. fst (sq_delete_from_storage ops i st)) ids st"

definition sq_remove_messages ::
  "'s storage_ops \<Rightarrow> qm_codec \<Rightarrow> string list \<Rightarrow> 's stored_queue \<Rightarrow> 's stored_queue \<times> (pickup_error fault + unit)" where
  "sq_remove_messages ops qc ids =
     sq_with_cache ops qc (\<lambda>q s.
       (sq_set_cache (mq_remove_messages ids q) s\<lparr>sq_storage := sq_delete_all ops ids (sq_storage s)\<rparr>, Inr ()))"

definition sq_return_to_pending ::
  "'s storage_ops \<Rightarrow> qm_codec \<Rightarrow> string list \<Rightarrow> 's stored_queue \<Rightarrow> 's stored_queue \<times> (pickup_error fault + unit)" where
  "sq_return_to_pending ops qc ids s =
     (case sq_ensure_loaded ops qc s of
        (s, Inl e) \<Rightarrow> (s, Inl (Raised e))
      | (s, Inr _) \<Rightarrow>
          (case sq_messages s of
             None \<Rightarrow> (s, Inl Panicked)
           | Some m \<Rightarrow>
               let m' = mq_messages (mq_return_to_pending ids \<lparr>mq_messages = m, mq_by_connection = []\<rparr>)
               in (s\<lparr>sq_messages := Some m', sq_storage := sq_write_back ops qc m' ids (sq_storage s)\<rparr>, Inr ())))"

definition sq_find_by_id ::
  "'s storage_ops \<Rightarrow> qm_codec \<Rightarrow> string \<Rightarrow> 's stored_queue \<Rightarrow> 's stored_queue \<times> (pickup_error fault + queued_message option)" where
  "sq_find_by_id ops qc mid s =
     (case sq_ensure_loaded ops qc s of
        (s, Inl e) \<Rightarrow> (s, Inl (Raised e))
      | (s, Inr _) \<Rightarrow> (case sq_messages s of None \<Rightarrow> (s, Inl Panicked) | Some m \<Rightarrow> (s, Inr (hm_get m mid))))"

definition sq_clear_connection ::
  "'s storage_ops \<Rightarrow> qm_codec \<Rightarrow> string \<Rightarrow> 's stored_queue \<Rightarrow> 's stored_queue \<times> (pickup_error fault + nat)" where
  "sq_clear_connection ops qc c =
     sq_with_cache ops qc (\<lambda>q s.
       let (q', n) = mq_clear_connection c q
       in (sq_set_cache q' s\<lparr>sq_storage := sq_delete_all ops (mq_ids q c) (sq_storage s)\<rparr>, Inr n))"

definition sq_delete_expired ::
  "'s storage_ops \<Rightarrow> qm_codec \<Rightarrow> timestamp \<Rightarrow> 's stored_queue \<Rightarrow> 's stored_queue \<times> (pickup_error fault + nat)" where
  "sq_delete_expired ops qc cutoff s =
     (case sq_ensure_loaded ops qc s of
        (s, Inl e) \<Rightarrow> (s, Inl (Raised e))
      | (s, Inr _) \<Rightarrow>
          let expired_ids = (case sq_messages s of None \<Rightarrow> []
                | Some m \<Rightarrow> map qm_id (filter (\<lambda>msg. qm_received_at msg < cutoff) (hm_values m)))
          in if expired_ids = [] then (s, Inr 0)
             else (case sq_cache s of
                     None \<Rightarrow> (s, Inl Panicked)
                   | Some q \<Rightarrow>
                       (sq_set_cache (mq_remove_messages expired_ids q)
                          s\<lparr>sq_storage := sq_delete_all ops expired_ids (sq_storage s)\<rparr>, Inr (length expired_ids))))"

text \<open>The ids are collected from the caches as they are, and both caches are unwrapped only to delete.\<close>

definition sq_delete_expired_for_connection ::
  "'s storage_ops \<Rightarrow> qm_codec \<Rightarrow> string \<Rightarrow> timestamp \<Rightarrow> 's stored_queue \<Rightarrow> 's stored_queue \<times> (pickup_error fault + nat)" where
  "sq_delete_expired_for_connection ops qc c cutoff s =
     (case sq_ensure_loaded ops qc s of
        (s, Inl e) \<Rightarrow> (s, Inl (Raised e))
      | (s, Inr _) \<Rightarrow>
          (case Option.bind (sq_by_connection s) (\<lambda>m. hm_get m c) of
             None \<Rightarrow> (s, Inr 0)
           | Some ids \<Rightarrow>
               let expired_ids = map qm_id (filter (\<lambda>msg. qm_received_at msg < cutoff)
                     (List.map_filter (\<lambda>i. Option.bind (sq_messages s) (\<lambda>m. hm_get m i)) ids))
               in if expired_ids = [] then (s, Inr 0)
                  else (case sq_cache s of
                          None \<Rightarrow> (s, Inl Panicked)
                        | Some q \<Rightarrow>
                            (sq_set_cache (fst (mq_delete_expired_for_connection c cutoff q))
                               s\<lparr>sq_storage := sq_delete_all ops expired_ids (sq_storage s)\<rparr>, Inr (length expired_ids)))))"

definition sq_warm_up :: "'s storage_ops \<Rightarrow> qm_codec \<Rightarrow> 's stored_queue \<Rightarrow> 's stored_queue \<times> (pickup_error + nat)" where
  "sq_warm_up ops qc s =
     (case sq_ensure_loaded ops qc s of
        (s, Inl e) \<Rightarrow> (s, Inl e)
      | (s, Inr _) \<Rightarrow> (s, Inr (case sq_messages s of None \<Rightarrow> 0 | Some m \<Rightarrow> length m)))"

section \<open>Runs with crashes\<close>

datatype sq_event =
    SqAdd queued_message
  | SqTake string "string option" u32
  | SqRemove "string list"
  | SqReturn "string list"
  | SqCount string "string option"
  | SqClear string
  | SqExpire timestamp
  | SqExpireConnection string timestamp
  | SqWarmUp
  | SqCrash

text \<open>A crash loses the caches and keeps the storage.\<close>

definition sq_crash :: "'s stored_queue \<Rightarrow> 's stored_queue" where
  "sq_crash s = sq_new (sq_storage s)"

fun sq_exec :: "'s storage_ops \<Rightarrow> qm_codec \<Rightarrow> sq_event \<Rightarrow> 's stored_queue \<Rightarrow> 's stored_queue" where
  "sq_exec ops qc (SqAdd m) s = fst (sq_add_message ops qc m s)"
| "sq_exec ops qc (SqTake c key n) s = fst (sq_take_from_queue ops qc c key n s)"
| "sq_exec ops qc (SqRemove ids) s = fst (sq_remove_messages ops qc ids s)"
| "sq_exec ops qc (SqReturn ids) s = fst (sq_return_to_pending ops qc ids s)"
| "sq_exec ops qc (SqCount c key) s = fst (sq_get_pending_count ops qc c key s)"
| "sq_exec ops qc (SqClear c) s = fst (sq_clear_connection ops qc c s)"
| "sq_exec ops qc (SqExpire t) s = fst (sq_delete_expired ops qc t s)"
| "sq_exec ops qc (SqExpireConnection c t) s = fst (sq_delete_expired_for_connection ops qc c t s)"
| "sq_exec ops qc SqWarmUp s = fst (sq_warm_up ops qc s)"
| "sq_exec ops qc SqCrash s = sq_crash s"

text \<open>Whether an event may delete a given message.\<close>

fun sq_deletes :: "queued_message \<Rightarrow> sq_event \<Rightarrow> bool" where
  "sq_deletes m (SqRemove ids) \<longleftrightarrow> qm_id m \<in> set ids"
| "sq_deletes m (SqClear c) \<longleftrightarrow> qm_connection_id m = c"
| "sq_deletes m (SqExpire t) \<longleftrightarrow> qm_received_at m < t"
| "sq_deletes m (SqExpireConnection c t) \<longleftrightarrow> qm_connection_id m = c \<and> qm_received_at m < t"
| "sq_deletes m _ \<longleftrightarrow> False"

section \<open>What the storage holds\<close>

text \<open>The message stored under an id, up to its delivery state.\<close>

definition durable_at :: "qm_codec \<Rightarrow> (string \<Rightarrow> string \<Rightarrow> storage_record option) \<Rightarrow> string \<Rightarrow> queued_message option" where
  "durable_at qc content i =
     (case content MESSAGE_QUEUE_CATEGORY i of None \<Rightarrow> None | Some r \<Rightarrow> map_option mark_pending (qc_from_slice qc (rec_value r)))"

definition durable_ids :: "(string \<Rightarrow> queued_message option) \<Rightarrow> bool" where
  "durable_ids D \<longleftrightarrow> (\<forall>i m. D i = Some m \<longrightarrow> qm_id m = i)"

definition cache_durable :: "(string \<Rightarrow> queued_message option) \<Rightarrow> message_queue \<Rightarrow> bool" where
  "cache_durable D q \<longleftrightarrow> mq_inv q \<and> (\<forall>i m. hm_get (mq_messages q) i = Some m \<longrightarrow> D i = Some (mark_pending m))"

lemma sq_record_fields [simp]:
  "rec_category (sq_record m v) = MESSAGE_QUEUE_CATEGORY" "rec_name (sq_record m v) = qm_id m" "rec_value (sq_record m v) = v"
  by (simp_all add: sq_record_def record_with_tags_def record_new_def)

lemma mark_pending_new: "qm_state m = Pending \<Longrightarrow> mark_pending m = m"
  by (simp add: mark_pending_def)

lemma mq_set_states_get:
  assumes "\<And>m. f (f m) = f m"
  shows "hm_get (mq_messages (fold (mq_set_state f) is q)) j = map_option (\<lambda>m. if j \<in> set is then f m else m) (hm_get (mq_messages q) j)"
  by (induction "is" arbitrary: q) (auto simp: mq_set_state_get option.map_comp o_def assms option.map_ident intro!: option.map_cong)

lemma sq_index_get:
  assumes "distinct (map rec_name rs)" "\<forall>r\<in>set rs. \<forall>m. qc_from_slice qc (rec_value r) = Some m \<longrightarrow> qm_id m = rec_name r"
    and "mq_inv q" "\<forall>r\<in>set rs. hm_get (mq_messages q) (rec_name r) = None"
    and "q' = fold (\<lambda>r q. case qc_from_slice qc (rec_value r) of None \<Rightarrow> q | Some m \<Rightarrow> fst (mq_add_message m q)) rs q"
  shows "mq_inv q' \<and> (\<forall>i m. hm_get (mq_messages q') i = Some m \<longleftrightarrow>
    hm_get (mq_messages q) i = Some m \<or> (\<exists>r\<in>set rs. rec_name r = i \<and> qc_from_slice qc (rec_value r) = Some m))"
  using assms
proof (induction rs arbitrary: q)
  case (Cons r rs)
  define q1 where "q1 = (case qc_from_slice qc (rec_value r) of None \<Rightarrow> q | Some m \<Rightarrow> fst (mq_add_message m q))"
  have get1: "hm_get (mq_messages q1) i = Some m \<longleftrightarrow>
      hm_get (mq_messages q) i = Some m \<or> rec_name r = i \<and> qc_from_slice qc (rec_value r) = Some m" for i m
    using Cons.prems(2,4) by (auto simp: q1_def mq_add_message_def split: option.splits)
  have inv1: "mq_inv q1"
    using Cons.prems(2-4) by (auto simp: q1_def intro: mq_add_refines(1) split: option.splits)
  have fresh: "\<forall>r'\<in>set rs. hm_get (mq_messages q1) (rec_name r') = None"
    using Cons.prems(1,4) get1 by (auto simp: not_None_eq [symmetric] simp del: not_None_eq)
  have "q' = fold (\<lambda>r q. case qc_from_slice qc (rec_value r) of None \<Rightarrow> q | Some m \<Rightarrow> fst (mq_add_message m q)) rs q1"
    using Cons.prems(5) by (simp add: q1_def)
  from Cons.IH [OF _ _ inv1 fresh this] Cons.prems(1,2) get1 show ?case by auto
qed simp

lemma mq_remove_get:
  "hm_get (mq_messages (mq_remove_messages ids q)) i = (if i \<in> set ids then None else hm_get (mq_messages q) i)"
proof -
  have "hm_get (mq_messages (mq_remove_message j q)) i = (if i = j then None else hm_get (mq_messages q) i)" for j q
    by (auto simp: mq_remove_message_def Let_def split: option.splits)
  then show ?thesis unfolding mq_remove_messages_def by (induction ids arbitrary: q) auto
qed

lemma mq_clear_get:
  "hm_get (mq_messages (fst (mq_clear_connection c q))) i = (if i \<in> set (mq_ids q c) then None else hm_get (mq_messages q) i)"
  by (auto simp: mq_clear_connection_def mq_ids_def hm_remove_all split: option.splits)

text \<open>The operations on the cache keep it inside what the storage holds.\<close>

lemma cache_durable_mark:
  assumes "cache_durable D q" and f: "f = mark_sending \<or> f = mark_pending"
  shows "cache_durable D (fold (mq_set_state f) is q)"
proof -
  have f': "\<And>m. qm_id (f m) = qm_id m" "\<And>m. qm_connection_id (f m) = qm_connection_id m" "\<And>m. f (f m) = f m"
    "\<And>m. mark_pending (f m) = mark_pending m"
    using f by auto
  have "mq_inv (fold (mq_set_state f) is q)" using mq_set_states_refine [OF f'(1-3)] assms(1) by (simp add: cache_durable_def)
  then show ?thesis
    using assms(1) by (auto simp: cache_durable_def mq_set_states_get f'(3,4))
qed

lemma cache_durable_take:
  assumes "cache_durable D q" and "mq_take_from_queue c key limit q = (q', taken)"
  shows "cache_durable D q'"
proof -
  have fm: "fold (\<lambda>m. mq_set_state mark_sending (qm_id m)) ms q = fold (mq_set_state mark_sending) (map qm_id ms) q" for ms
    by (simp add: fold_map o_def)
  from cache_durable_mark [OF assms(1), of mark_sending] assms show ?thesis
    by (auto simp: mq_take_from_queue_def Let_def fm simp del: fold_map split: option.splits)
qed

lemma cache_durable_drop:
  assumes "cache_durable D q" and "mq_inv q'" and "\<And>i. hm_get (mq_messages q') i = (if i \<in> A then None else hm_get (mq_messages q) i)"
    and "\<And>i. i \<notin> A \<Longrightarrow> D' i = D i"
  shows "cache_durable D' q'"
  using assms by (auto simp: cache_durable_def split: if_splits)

lemma cache_durable_add:
  assumes "cache_durable D q" and "D (qm_id m) = None"
  shows "cache_durable (D(qm_id m \<mapsto> mark_pending m)) (fst (mq_add_message m q))"
proof -
  have "hm_get (mq_messages q) (qm_id m) = None"
    using assms by (cases "hm_get (mq_messages q) (qm_id m)") (auto simp: cache_durable_def)
  with assms show ?thesis by (auto simp: cache_durable_def mq_add_refines(1)) (auto simp: mq_add_message_def split: if_splits)
qed

definition sq_inv ::
  "('s \<Rightarrow> bool) \<Rightarrow> ('s \<Rightarrow> string \<Rightarrow> string \<Rightarrow> storage_record option) \<Rightarrow> qm_codec \<Rightarrow> 's stored_queue \<Rightarrow> bool" where
  "sq_inv sinv content qc s \<longleftrightarrow>
     (let D = durable_at qc (content (sq_storage s))
      in sinv (sq_storage s) \<and> durable_ids D \<and>
         (case (sq_messages s, sq_by_connection s) of
            (None, None) \<Rightarrow> True
          | (Some m, Some c) \<Rightarrow> cache_durable D \<lparr>mq_messages = m, mq_by_connection = c\<rparr>
          | _ \<Rightarrow> False))"

lemma sq_set_cache_storage: "(sq_set_cache q t)\<lparr>sq_storage := st\<rparr> = sq_set_cache q (t\<lparr>sq_storage := st\<rparr>)"
  by (simp add: sq_set_cache_def)

lemma sq_inv_cached:
  "sq_inv sinv content qc (sq_set_cache q s) \<longleftrightarrow>
     sinv (sq_storage s) \<and> durable_ids (durable_at qc (content (sq_storage s))) \<and> cache_durable (durable_at qc (content (sq_storage s))) q"
  by (cases q) (simp add: sq_inv_def sq_set_cache_def Let_def)

context storage_provider
begin

text \<open>How each access to the storage changes what it holds.\<close>

lemma update_keeps_durable:
  assumes "inv st" and "qm_codec_ok qc" and "durable_at qc (content st) (qm_id m) = Some (mark_pending m)"
    and "sq_update_in_storage ops qc m st = (st', r)"
  shows "inv st' \<and> durable_at qc (content st') = durable_at qc (content st)"
proof (cases "qc_to_vec qc m")
  case None
  with assms show ?thesis by (simp add: sq_update_in_storage_def)
next
  case (Some v)
  obtain st1 r1 where up: "st_update ops (sq_record m v) st = (st1, r1)" by (cases "st_update ops (sq_record m v) st")
  with Some assms(4) have st': "st' = st1" by (auto simp: sq_update_in_storage_def split: sum.splits)
  show ?thesis
  proof (cases r1)
    case (Inl e)
    with update_err [OF assms(1)] up st' show ?thesis by auto
  next
    case (Inr u)
    have "qc_from_slice qc v = Some m" using assms(2) Some by (simp add: qm_codec_ok_def)
    with update_ok [OF assms(1), of "sq_record m v" st1] up Inr st' assms(3) show ?thesis
      by (auto simp: durable_at_def fun_eq_iff)
  qed
qed

lemma write_back_keeps_durable:
  assumes "qm_codec_ok qc" and "\<forall>i m. hm_get msgs i = Some m \<longrightarrow> qm_id m = i \<and> D i = Some (mark_pending m)"
  shows "inv st \<Longrightarrow> durable_at qc (content st) = D \<Longrightarrow>
    inv (sq_write_back ops qc msgs ids st) \<and> durable_at qc (content (sq_write_back ops qc msgs ids st)) = D"
  unfolding sq_write_back_def
proof (induction ids arbitrary: st)
  case (Cons i ids)
  let ?st = "case hm_get msgs i of None \<Rightarrow> st | Some m \<Rightarrow> fst (sq_update_in_storage ops qc m st)"
  have "inv ?st \<and> durable_at qc (content ?st) = D"
  proof (cases "hm_get msgs i")
    case (Some m)
    obtain st' r where up: "sq_update_in_storage ops qc m st = (st', r)" by (cases "sq_update_in_storage ops qc m st")
    have "durable_at qc (content st) (qm_id m) = Some (mark_pending m)" using assms(2) Some Cons.prems(2) by simp
    from update_keeps_durable [OF Cons.prems(1) assms(1) this up] Some up Cons.prems(2) show ?thesis by simp
  qed (use Cons.prems in simp)
  with Cons.IH [of ?st] show ?case by simp
qed simp

lemma delete_all_durable:
  "inv st \<Longrightarrow> inv (sq_delete_all ops ids st) \<and>
     (\<forall>i. i \<notin> set ids \<longrightarrow> durable_at qc (content (sq_delete_all ops ids st)) i = durable_at qc (content st) i) \<and>
     (\<forall>i. durable_at qc (content (sq_delete_all ops ids st)) i \<in> {None, durable_at qc (content st) i})"
  unfolding sq_delete_all_def
proof (induction ids arbitrary: st)
  case (Cons i ids)
  obtain st' r where del: "st_delete ops MESSAGE_QUEUE_CATEGORY i st = (st', r)"
    by (cases "st_delete ops MESSAGE_QUEUE_CATEGORY i st")
  then have st': "fst (sq_delete_from_storage ops i st) = st'" by (auto simp: sq_delete_from_storage_def split: sum.splits)
  have "inv st' \<and> (content st' = content st \<or>
      content st' = (content st)(MESSAGE_QUEUE_CATEGORY := (content st MESSAGE_QUEUE_CATEGORY)(i := None)))"
    using delete_ok [OF Cons.prems] delete_err [OF Cons.prems] del by (cases r) auto
  then have one: "inv st'" "\<forall>j. j \<noteq> i \<longrightarrow> durable_at qc (content st') j = durable_at qc (content st) j"
    "\<forall>j. durable_at qc (content st') j \<in> {None, durable_at qc (content st) j}"
    by (auto simp: durable_at_def)
  from Cons.IH [OF one(1)] one(2,3) show ?case unfolding fold_simps(2) st' by (simp add: o_def) (metis)
qed simp

lemma persist_durable:
  assumes "inv st" and "qm_codec_ok qc" and "sq_persist ops qc m st = (st', r)"
  shows "inv st' \<and> (case r of
      Inl _ \<Rightarrow> durable_at qc (content st') = durable_at qc (content st)
    | Inr _ \<Rightarrow> durable_at qc (content st) (qm_id m) = None \<and>
        durable_at qc (content st') = (durable_at qc (content st))(qm_id m \<mapsto> mark_pending m))"
proof (cases "qc_to_vec qc m")
  case None
  with assms show ?thesis by (auto simp: sq_persist_def)
next
  case (Some v)
  obtain st1 r1 where save: "st_save ops (sq_record m v) st = (st1, r1)" by (cases "st_save ops (sq_record m v) st")
  have codec: "qc_from_slice qc v = Some m" using assms(2) Some by (simp add: qm_codec_ok_def)
  show ?thesis
  proof (cases r1)
    case (Inl e)
    with save_err [OF assms(1)] save Some assms(3) show ?thesis by (auto simp: sq_persist_def)
  next
    case (Inr u)
    with save Some assms(3) have "st' = st1" "r = Inr ()" by (auto simp: sq_persist_def)
    with save_ok [OF assms(1), of "sq_record m v" st1] save Inr codec show ?thesis
      by (auto simp: durable_at_def fun_eq_iff)
  qed
qed

lemma index_durable:
  assumes "inv st" and rs: "st_find_all ops MESSAGE_QUEUE_CATEGORY query_new st = Inr rs"
    and D: "durable_at qc (content st) = D" "durable_ids D"
  shows "mq_inv (sq_index qc rs)" "map_option mark_pending (hm_get (mq_messages (sq_index qc rs)) i) = D i"
proof -
  let ?C = MESSAGE_QUEUE_CATEGORY
  have names: "distinct (map rec_name rs)" "\<And>n r. content st ?C n = Some r \<longleftrightarrow> r \<in> set rs \<and> rec_name r = n"
    using find_all_ok [OF assms(1) rs] by auto
  have ids: "\<forall>r\<in>set rs. \<forall>m. qc_from_slice qc (rec_value r) = Some m \<longrightarrow> qm_id m = rec_name r"
  proof (intro ballI allI impI)
    fix r m
    assume "r \<in> set rs" "qc_from_slice qc (rec_value r) = Some m"
    moreover from this have "content st ?C (rec_name r) = Some r" using names(2) by blast
    ultimately have "D (rec_name r) = Some (mark_pending m)" by (simp add: D(1) [symmetric] durable_at_def)
    then show "qm_id m = rec_name r" using D(2) by (force simp: durable_ids_def)
  qed
  have idx: "mq_inv (sq_index qc rs)" "\<And>i m. hm_get (mq_messages (sq_index qc rs)) i = Some m \<longleftrightarrow>
      (\<exists>r\<in>set rs. rec_name r = i \<and> qc_from_slice qc (rec_value r) = Some m)"
    using sq_index_get [OF names(1) ids mq_new_inv _ refl] by (auto simp: sq_index_def mq_new_def)
  show "mq_inv (sq_index qc rs)" by (rule idx(1))
  show "map_option mark_pending (hm_get (mq_messages (sq_index qc rs)) i) = D i"
  proof (cases "content st ?C i")
    case None
    then have "\<not> (\<exists>r\<in>set rs. rec_name r = i)" using names(2) [of i] by auto
    then have "hm_get (mq_messages (sq_index qc rs)) i = None" using idx(2) [of i] by (cases "hm_get (mq_messages (sq_index qc rs)) i") auto
    with None show ?thesis by (simp add: D(1) [symmetric] durable_at_def)
  next
    case (Some r)
    then have only: "r' \<in> set rs \<and> rec_name r' = i \<longleftrightarrow> r' = r" for r' using names(2) [of i r'] by auto
    have "hm_get (mq_messages (sq_index qc rs)) i = Some m \<longleftrightarrow> qc_from_slice qc (rec_value r) = Some m" for m
      using idx(2) [of i m] only by metis
    then have "hm_get (mq_messages (sq_index qc rs)) i = qc_from_slice qc (rec_value r)"
      by (cases "qc_from_slice qc (rec_value r)") auto
    with Some show ?thesis by (simp add: D(1) [symmetric] durable_at_def)
  qed
qed

text \<open>A load that succeeds makes the cache what the storage holds, with everything pending.\<close>

lemma ensure_loaded_durable:
  assumes "inv (sq_storage s)" and qc: "qm_codec_ok qc" and D: "durable_at qc (content (sq_storage s)) = D" "durable_ids D"
    and none: "sq_messages s = None" and run: "sq_ensure_loaded ops qc s = (s', Inr ())"
  obtains q where "sq_cache s' = Some q" "cache_durable D q" "\<forall>i. hm_get (mq_messages q) i = D i"
    "inv (sq_storage s')" "durable_at qc (content (sq_storage s')) = D"
proof -
  from run none obtain rs where rs: "st_find_all ops MESSAGE_QUEUE_CATEGORY query_new (sq_storage s) = Inr rs"
    by (auto simp: sq_ensure_loaded_def sq_load_messages_def Let_def split: sum.splits prod.splits)
  define q0 where "q0 = sq_index qc rs"
  define q where "q = fold (mq_set_state mark_pending) (sq_orphans q0) q0"
  have s': "s' = s\<lparr>sq_storage := sq_write_back ops qc (mq_messages q) (sq_orphans q0) (sq_storage s),
      sq_messages := Some (mq_messages q), sq_by_connection := Some (mq_by_connection q)\<rparr>"
    using run none rs by (simp add: sq_ensure_loaded_def sq_load_messages_def sq_load_index_def q0_def q_def Let_def)
  note idx = index_durable [OF assms(1) rs D, folded q0_def]
  have orphan: "qm_state m = Pending" if "hm_get (mq_messages q0) i = Some m" "i \<notin> set (sq_orphans q0)" for i m
    using that by (cases "qm_state m") (auto simp: sq_orphans_def image_iff dest!: map_of_SomeD)
  have get: "hm_get (mq_messages q) i = D i" for i
    unfolding idx(2) [of i, symmetric] q_def using orphan [of i]
    by (cases "hm_get (mq_messages q0) i") (auto simp: mq_set_states_get mark_pending_new)
  have inv: "mq_inv q" using mq_set_states_refine [of mark_pending q0] idx(1) by (simp add: q_def)
  have pend: "mark_pending m = m" if "D i = Some m" for i m
    using that by (auto simp: D(1) [symmetric] durable_at_def split: option.splits)
  have cd: "cache_durable D q" using inv get pend by (auto simp: cache_durable_def)
  have "\<forall>i m. hm_get (mq_messages q) i = Some m \<longrightarrow> qm_id m = i \<and> D i = Some (mark_pending m)"
    using mq_inv_get(1) [OF inv] get pend by auto
  from write_back_keeps_durable [OF qc this assms(1) D(1), of "sq_orphans q0"] cd get that [of q] show thesis
    by (simp add: s' sq_cache_def)
qed

end

context storage_provider
begin

lemma sq_inv_loaded:
  assumes si: "sq_inv inv content qc s" and qc: "qm_codec_ok qc" and run: "sq_ensure_loaded ops qc s = (s', r)"
  shows "sq_inv inv content qc s' \<and> durable_at qc (content (sq_storage s')) = durable_at qc (content (sq_storage s)) \<and>
    (r = Inr () \<longrightarrow> (\<exists>q. sq_cache s' = Some q \<and> cache_durable (durable_at qc (content (sq_storage s))) q))"
proof (cases "sq_messages s")
  case (Some m)
  with si obtain c where "sq_by_connection s = Some c" by (auto simp: sq_inv_def Let_def split: option.splits)
  moreover have "s' = s" "r = Inr ()" using Some run by (auto simp: sq_ensure_loaded_def sq_load_messages_def sq_load_index_def)
  ultimately show ?thesis using si Some by (simp add: sq_inv_def sq_cache_def Let_def)
next
  case None
  show ?thesis
  proof (cases r)
    case (Inl e)
    with None run have "s' = s" by (auto simp: sq_ensure_loaded_def sq_load_messages_def Let_def split: sum.splits)
    with si Inl show ?thesis by simp
  next
    case (Inr u)
    let ?D = "durable_at qc (content (sq_storage s))"
    have "inv (sq_storage s)" "durable_ids ?D" using si by (simp_all add: sq_inv_def Let_def)
    then obtain q where "sq_cache s' = Some q" "cache_durable ?D q" "inv (sq_storage s')" "durable_at qc (content (sq_storage s')) = ?D"
      using ensure_loaded_durable [of s qc ?D s'] qc None run Inr by (metis (full_types) old.unit.exhaust)
    moreover have "sq_inv inv content qc s'"
      using calculation \<open>durable_ids ?D\<close> by (auto simp: sq_inv_def Let_def sq_cache_def split: option.splits)
    ultimately show ?thesis by blast
  qed
qed

text \<open>One step on the cache: what it does to the invariant and to the stored messages.\<close>

lemma sq_return_with_cache:
  assumes si: "sq_inv inv content qc s" and qc: "qm_codec_ok qc"
  shows "sq_return_to_pending ops qc ids s = sq_with_cache ops qc (\<lambda>q s.
    let q' = mq_return_to_pending ids q
    in (sq_set_cache q' s\<lparr>sq_storage := sq_write_back ops qc (mq_messages q') ids (sq_storage s)\<rparr>, Inr ())) s"
proof -
  obtain s' r where run: "sq_ensure_loaded ops qc s = (s', r)" by (cases "sq_ensure_loaded ops qc s")
  show ?thesis
  proof (cases r)
    case (Inl e)
    with run show ?thesis by (simp add: sq_return_to_pending_def sq_with_cache_def)
  next
    case (Inr u)
    with sq_inv_loaded [OF si qc run] obtain q where q: "sq_cache s' = Some q" by auto
    then have s': "sq_messages s' = Some (mq_messages q)" "sq_by_connection s' = Some (mq_by_connection q)"
      by (auto simp: sq_cache_def split: option.splits)
    have "mq_by_connection (mq_return_to_pending ids q) = mq_by_connection q"
      unfolding mq_return_to_pending_def by (rule fold_keeps [where P = "\<lambda>x. mq_by_connection x = mq_by_connection q"]) (auto simp: mq_set_state_def split: option.split)
    moreover have "mq_messages (mq_return_to_pending ids \<lparr>mq_messages = mq_messages q, mq_by_connection = []\<rparr>) = mq_messages (mq_return_to_pending ids q)"
    proof -
      have step: "mq_messages (mq_set_state f i x) = (case hm_get (mq_messages x) i of None \<Rightarrow> mq_messages x | Some m \<Rightarrow> hm_insert i (f m) (mq_messages x))"
        for f i x by (simp add: mq_set_state_def split: option.split)
      have "mq_messages (fold (mq_set_state f) is x) =
          fold (\<lambda>i ms. case hm_get ms i of None \<Rightarrow> ms | Some m \<Rightarrow> hm_insert i (f m) ms) is (mq_messages x)" for f "is" x
        by (induction "is" arbitrary: x) (simp_all add: step)
      then show ?thesis unfolding mq_return_to_pending_def by simp
    qed
    ultimately show ?thesis using Inr run q s' by (simp add: sq_return_to_pending_def sq_with_cache_def sq_set_cache_def Let_def)
  qed
qed

lemma with_cache_step:
  assumes si: "sq_inv inv content qc s" and qc: "qm_codec_ok qc"
    and f: "\<And>q t. inv (sq_storage t) \<Longrightarrow> durable_ids (durable_at qc (content (sq_storage t))) \<Longrightarrow>
      cache_durable (durable_at qc (content (sq_storage t))) q \<Longrightarrow> sq_inv inv content qc t \<Longrightarrow> sq_cache t = Some q \<Longrightarrow>
      sq_inv inv content qc (fst (f q t)) \<and> (keep \<longrightarrow> durable_at qc (content (sq_storage t)) i = d \<longrightarrow> durable_at qc (content (sq_storage (fst (f q t)))) i = d)"
  shows "sq_inv inv content qc (fst (sq_with_cache ops qc f s)) \<and>
    (keep \<longrightarrow> durable_at qc (content (sq_storage s)) i = d \<longrightarrow> durable_at qc (content (sq_storage (fst (sq_with_cache ops qc f s)))) i = d)"
proof -
  obtain s' r where run: "sq_ensure_loaded ops qc s = (s', r)" by (cases "sq_ensure_loaded ops qc s")
  note l = sq_inv_loaded [OF si qc run]
  show ?thesis
  proof (cases r)
    case (Inl e)
    with l run show ?thesis by (simp add: sq_with_cache_def)
  next
    case (Inr u)
    with l obtain q where q: "sq_cache s' = Some q" "cache_durable (durable_at qc (content (sq_storage s))) q" by auto
    moreover have "inv (sq_storage s')" "durable_ids (durable_at qc (content (sq_storage s')))"
      using l by (auto simp: sq_inv_def Let_def)
    ultimately show ?thesis using f [of s' q] l Inr run by (simp add: sq_with_cache_def)
  qed
qed

end

lemma mark_pending_eq_fields:
  assumes "mark_pending a = mark_pending b"
  shows "qm_id a = qm_id b" "qm_connection_id a = qm_connection_id b" "qm_received_at a = qm_received_at b"
proof -
  have f: "qm_id (mark_pending x) = qm_id x" "qm_connection_id (mark_pending x) = qm_connection_id x"
    "qm_received_at (mark_pending x) = qm_received_at x" for x by (simp_all add: mark_pending_def)
  show "qm_id a = qm_id b" "qm_connection_id a = qm_connection_id b" "qm_received_at a = qm_received_at b"
    using f assms by metis+
qed

lemma cached_is_stored:
  assumes "cache_durable D q" "D (qm_id m) = Some (mark_pending m)" "hm_get (mq_messages q) (qm_id m) = Some m'"
  shows "qm_connection_id m' = qm_connection_id m" "qm_received_at m' = qm_received_at m"
proof -
  have "mark_pending m' = mark_pending m" using assms by (auto simp: cache_durable_def)
  from mark_pending_eq_fields [OF this]
  show "qm_connection_id m' = qm_connection_id m" "qm_received_at m' = qm_received_at m" by auto
qed

context storage_provider
begin

text \<open>What is kept of one stored message by a step; \<open>sq_keeps\<close> reads the storage before and after.\<close>

lemma step_mark:
  assumes qc: "qm_codec_ok qc" and t: "inv (sq_storage t)" "durable_ids (durable_at qc (content (sq_storage t)))"
    and q': "cache_durable (durable_at qc (content (sq_storage t))) q'"
    and s': "s' = sq_set_cache q' t\<lparr>sq_storage := sq_write_back ops qc (mq_messages q') ids (sq_storage t)\<rparr>"
  shows "sq_inv inv content qc s'" "durable_at qc (content (sq_storage s')) = durable_at qc (content (sq_storage t))"
proof -
  have "\<forall>i m. hm_get (mq_messages q') i = Some m \<longrightarrow> qm_id m = i \<and> durable_at qc (content (sq_storage t)) i = Some (mark_pending m)"
    using q' mq_inv_get(1) by (auto simp: cache_durable_def)
  from write_back_keeps_durable [OF qc this t(1) refl, of ids] t q' 
  show "sq_inv inv content qc s'" "durable_at qc (content (sq_storage s')) = durable_at qc (content (sq_storage t))"
    unfolding s' sq_set_cache_storage by (simp_all add: sq_inv_cached) (simp add: sq_set_cache_def)
qed

lemma step_delete:
  assumes t: "inv (sq_storage t)" "durable_ids (durable_at qc (content (sq_storage t)))"
    and q: "cache_durable (durable_at qc (content (sq_storage t))) q" "mq_inv q'"
    and get: "\<And>i. hm_get (mq_messages q') i = (if i \<in> set ids then None else hm_get (mq_messages q) i)"
    and s': "s' = sq_set_cache q' t\<lparr>sq_storage := sq_delete_all ops ids (sq_storage t)\<rparr>"
  shows "sq_inv inv content qc s'"
    "i \<notin> set ids \<Longrightarrow> durable_at qc (content (sq_storage s')) i = durable_at qc (content (sq_storage t)) i"
proof -
  let ?D = "durable_at qc (content (sq_storage t))" and ?st = "sq_delete_all ops ids (sq_storage t)"
  let ?D' = "durable_at qc (content ?st)"
  have d: "inv ?st" "\<And>i. i \<notin> set ids \<Longrightarrow> ?D' i = ?D i" "\<And>i. ?D' i \<in> {None, ?D i}"
    using delete_all_durable [OF t(1), of ids qc] by auto
  have "durable_ids ?D'" using t(2) d(3) unfolding durable_ids_def by (metis empty_iff insert_iff option.distinct(1))
  moreover have "cache_durable ?D' q'" by (rule cache_durable_drop [OF q get d(2)])
  ultimately show "sq_inv inv content qc s'" using d(1) unfolding s' sq_set_cache_storage by (simp add: sq_inv_cached)
  show "i \<notin> set ids \<Longrightarrow> durable_at qc (content (sq_storage s')) i = ?D i" using d(2) by (simp add: s' sq_set_cache_def)
qed

lemma sq_add_keeps:
  assumes si: "sq_inv inv content qc s" and qc: "qm_codec_ok qc" and run: "sq_add_message ops qc m s = (s', r)"
  shows "sq_inv inv content qc s'"
    "durable_at qc (content (sq_storage s)) i = Some d \<Longrightarrow> durable_at qc (content (sq_storage s')) i = Some d"
    "r = Inr j \<Longrightarrow> durable_at qc (content (sq_storage s')) (qm_id m) = Some (mark_pending m)"
proof -
  let ?D = "durable_at qc (content (sq_storage s))"
  obtain s1 r1 where load: "sq_ensure_loaded ops qc s = (s1, r1)" by (cases "sq_ensure_loaded ops qc s")
  note l = sq_inv_loaded [OF si qc load]
  have "sq_inv inv content qc s' \<and> (?D i = Some d \<longrightarrow> durable_at qc (content (sq_storage s')) i = Some d) \<and>
      (r = Inr j \<longrightarrow> durable_at qc (content (sq_storage s')) (qm_id m) = Some (mark_pending m))"
  proof (cases r1)
    case (Inl e)
    with load run l show ?thesis by (auto simp: sq_add_message_def)
  next
    case (Inr u)
    with l obtain q where q: "sq_cache s1 = Some q" "cache_durable ?D q" by auto
    have t: "inv (sq_storage s1)" "durable_ids ?D" "durable_at qc (content (sq_storage s1)) = ?D" using l by (auto simp: sq_inv_def Let_def)
    obtain st r2 where per: "sq_persist ops qc m (sq_storage s1) = (st, r2)" by (cases "sq_persist ops qc m (sq_storage s1)")
    note p = persist_durable [OF t(1) qc per]
    show ?thesis
    proof (cases r2)
      case e: (Inl e)
      with p t load Inr per run have "s' = s1\<lparr>sq_storage := st\<rparr>" "r = Inl (Raised e)" "inv st" "durable_at qc (content st) = ?D"
        by (auto simp: sq_add_message_def)
      moreover have "sq_inv inv content qc (s1\<lparr>sq_storage := st\<rparr>)"
        using l t calculation(3,4) by (auto simp: sq_inv_def Let_def)
      ultimately show ?thesis by simp
    next
      case (Inr u')
      have new: "?D (qm_id m) = None" "durable_at qc (content st) = ?D(qm_id m \<mapsto> mark_pending m)" "inv st"
        using p Inr t(3) by auto
      have "sq_cache (s1\<lparr>sq_storage := st\<rparr>) = Some q" using q(1) by (simp add: sq_cache_def)
      then have s': "s' = sq_set_cache (fst (mq_add_message m q)) (s1\<lparr>sq_storage := st\<rparr>)"
        using run load \<open>r1 = Inr u\<close> per Inr by (auto simp: sq_add_message_def Let_def)
      have "durable_ids (?D(qm_id m \<mapsto> mark_pending m))" using t(2) by (simp add: durable_ids_def)
      with cache_durable_add [OF q(2) new(1)] new show ?thesis
        by (auto simp: s' sq_inv_cached) (auto simp: sq_set_cache_def)
    qed
  qed
  then show "sq_inv inv content qc s'"
    "?D i = Some d \<Longrightarrow> durable_at qc (content (sq_storage s')) i = Some d"
    "r = Inr j \<Longrightarrow> durable_at qc (content (sq_storage s')) (qm_id m) = Some (mark_pending m)" by auto
qed

end

context storage_provider
begin

lemma sq_exec_cache_keeps:
  assumes si: "sq_inv inv content qc s" and qc: "qm_codec_ok qc"
    and ev: "ev = SqTake c key n \<or> ev = SqRemove ids \<or> ev = SqReturn ids \<or> ev = SqCount c key \<or> ev = SqClear c"
  shows "sq_inv inv content qc (sq_exec ops qc ev s) \<and>
    (\<not> sq_deletes m ev \<longrightarrow> durable_at qc (content (sq_storage s)) (qm_id m) = Some (mark_pending m) \<longrightarrow>
     durable_at qc (content (sq_storage (sq_exec ops qc ev s))) (qm_id m) = Some (mark_pending m))"
  using ev
proof (elim disjE)
  assume ev: "ev = SqTake c key n"
  show ?thesis unfolding ev sq_exec.simps sq_take_from_queue_def
  proof (rule with_cache_step [OF si qc], goal_cases)
    case (1 q t)
    obtain q' taken where take: "mq_take_from_queue c key n q = (q', taken)" by (cases "mq_take_from_queue c key n q")
    from step_mark [OF qc 1(1,2) cache_durable_take [OF 1(3) take] refl, of "map qm_id taken"] take show ?case
      by (simp add: Let_def sq_set_cache_storage) (simp add: sq_set_cache_def)
  qed
next
  assume ev: "ev = SqRemove ids"
  show ?thesis unfolding ev sq_exec.simps sq_remove_messages_def
  proof (rule with_cache_step [OF si qc], goal_cases)
    case (1 q t)
    have "mq_inv (mq_remove_messages ids q)" using 1(3) mq_remove_refines [of q ids] by (simp add: cache_durable_def)
    from step_delete [OF 1(1-3) this mq_remove_get refl] show ?case by simp
  qed
next
  assume ev: "ev = SqReturn ids"
  show ?thesis unfolding ev sq_exec.simps sq_return_with_cache [OF si qc]
  proof (rule with_cache_step [OF si qc], goal_cases)
    case (1 q t)
    have "cache_durable (durable_at qc (content (sq_storage t))) (mq_return_to_pending ids q)"
      using cache_durable_mark [OF 1(3), of mark_pending] by (simp add: mq_return_to_pending_def)
    from step_mark [OF qc 1(1,2) this refl, of ids] show ?case by (simp add: Let_def)
  qed
next
  assume ev: "ev = SqCount c key"
  show ?thesis unfolding ev sq_exec.simps sq_get_pending_count_def
    by (rule with_cache_step [OF si qc]) simp
next
  assume ev: "ev = SqClear c"
  show ?thesis unfolding ev sq_exec.simps sq_clear_connection_def
  proof (rule with_cache_step [OF si qc], goal_cases)
    case (1 q t)
    have inv: "mq_inv q" using 1(3) by (simp add: cache_durable_def)
    have "qm_id m \<notin> set (mq_ids q c)" if "durable_at qc (content (sq_storage t)) (qm_id m) = Some (mark_pending m)"
        "qm_connection_id m \<noteq> c"
      using cached_is_stored(1) [OF 1(3) that(1)] that(2) by (auto elim: mq_inv_ids [OF inv])
    moreover have "mq_inv (fst (mq_clear_connection c q))" using mq_clear_refines [OF inv] by simp
    ultimately show ?case
      using step_delete [OF 1(1-3) _ mq_clear_get refl] by (simp add: Let_def case_prod_beta)
  qed
qed

lemma sq_expire_keeps:
  assumes si: "sq_inv inv content qc s" and qc: "qm_codec_ok qc"
  shows "sq_inv inv content qc (sq_exec ops qc (SqExpire cutoff) s) \<and>
    (\<not> qm_received_at m < cutoff \<longrightarrow> durable_at qc (content (sq_storage s)) (qm_id m) = Some (mark_pending m) \<longrightarrow>
     durable_at qc (content (sq_storage (sq_exec ops qc (SqExpire cutoff) s))) (qm_id m) = Some (mark_pending m))"
proof -
  obtain s1 r1 where load: "sq_ensure_loaded ops qc s = (s1, r1)" by (cases "sq_ensure_loaded ops qc s")
  note l = sq_inv_loaded [OF si qc load]
  show ?thesis
  proof (cases r1)
    case (Inl e)
    with l load show ?thesis by (simp add: sq_delete_expired_def)
  next
    case (Inr u)
    with l obtain q where q: "sq_cache s1 = Some q" "cache_durable (durable_at qc (content (sq_storage s1))) q" by auto
    have inv: "mq_inv q" using q(2) by (simp add: cache_durable_def)
    have t: "inv (sq_storage s1)" "durable_ids (durable_at qc (content (sq_storage s1)))" using l by (auto simp: sq_inv_def Let_def)
    define ex where "ex = map qm_id (filter (\<lambda>msg. qm_received_at msg < cutoff) (hm_values (mq_messages q)))"
    have msgs: "sq_messages s1 = Some (mq_messages q)" using q(1) by (auto simp: sq_cache_def split: option.splits)
    have "mq_inv (mq_remove_messages ex q)" using mq_remove_refines [OF inv] by simp
    note del = step_delete [OF t q(2) this mq_remove_get refl]
    have keep: "qm_id m \<notin> set ex" if "durable_at qc (content (sq_storage s1)) (qm_id m) = Some (mark_pending m)" "\<not> qm_received_at m < cutoff"
    proof
      assume mem: "qm_id m \<in> set ex"
      define vs where "vs = hm_values (mq_messages q)"
      obtain m' where "m' \<in> set vs" "qm_id m' = qm_id m" "qm_received_at m' < cutoff"
        using mem unfolding ex_def vs_def [symmetric] by force
      then have "m' \<in> set (hm_values (mq_messages q))" "qm_id m' = qm_id m" "qm_received_at m' < cutoff"
        by (simp_all only: vs_def)
      with mq_values_mem [OF inv, of m'] cached_is_stored(2) [OF q(2) that(1), of m'] that(2) show False by simp
    qed
    have "sq_exec ops qc (SqExpire cutoff) s =
        (if ex = [] then s1 else sq_set_cache (mq_remove_messages ex q) s1\<lparr>sq_storage := sq_delete_all ops ex (sq_storage s1)\<rparr>)"
      using Inr load q(1) msgs by (simp add: sq_delete_expired_def ex_def Let_def)
    then show ?thesis using l del keep by auto
  qed
qed

lemma sq_expire_connection_keeps:
  assumes si: "sq_inv inv content qc s" and qc: "qm_codec_ok qc"
  shows "sq_inv inv content qc (sq_exec ops qc (SqExpireConnection c cutoff) s) \<and>
    (\<not> (qm_connection_id m = c \<and> qm_received_at m < cutoff) \<longrightarrow> durable_at qc (content (sq_storage s)) (qm_id m) = Some (mark_pending m) \<longrightarrow>
     durable_at qc (content (sq_storage (sq_exec ops qc (SqExpireConnection c cutoff) s))) (qm_id m) = Some (mark_pending m))"
proof -
  obtain s1 r1 where load: "sq_ensure_loaded ops qc s = (s1, r1)" by (cases "sq_ensure_loaded ops qc s")
  note l = sq_inv_loaded [OF si qc load]
  show ?thesis
  proof (cases r1)
    case (Inl e)
    with l load show ?thesis by (simp add: sq_delete_expired_for_connection_def)
  next
    case (Inr u)
    with l obtain q where q: "sq_cache s1 = Some q" "cache_durable (durable_at qc (content (sq_storage s1))) q" by auto
    have inv: "mq_inv q" using q(2) by (simp add: cache_durable_def)
    have t: "inv (sq_storage s1)" "durable_ids (durable_at qc (content (sq_storage s1)))" using l by (auto simp: sq_inv_def Let_def)
    have caches: "sq_messages s1 = Some (mq_messages q)" "sq_by_connection s1 = Some (mq_by_connection q)"
      using q(1) by (auto simp: sq_cache_def split: option.splits)
    show ?thesis
    proof (cases "hm_get (mq_by_connection q) c")
      case None
      with l load Inr caches show ?thesis by (simp add: sq_delete_expired_for_connection_def)
    next
      case (Some ids)
      define ex where "ex = map qm_id (filter (\<lambda>msg. qm_received_at msg < cutoff) (List.map_filter (hm_get (mq_messages q)) ids))"
      have get: "hm_get (mq_messages (fst (mq_delete_expired_for_connection c cutoff q))) i = (if i \<in> set ex then None else hm_get (mq_messages q) i)" for i
        using Some by (simp add: mq_delete_expired_for_connection_def Let_def hm_remove_all(1) ex_def)
      have "mq_inv (fst (mq_delete_expired_for_connection c cutoff q))" using mq_expired_connection_refines [OF inv] by simp
      note del = step_delete [OF t q(2) this get refl]
      have abs: "List.map_filter (hm_get (mq_messages q)) ids = mq_abs q c" using Some by (simp add: mq_abs_def mq_ids_def)
      have keep: "qm_id m \<notin> set ex" if "durable_at qc (content (sq_storage s1)) (qm_id m) = Some (mark_pending m)" "\<not> (qm_connection_id m = c \<and> qm_received_at m < cutoff)"
      proof
        assume "qm_id m \<in> set ex"
        then obtain m' where "m' \<in> set (mq_abs q c)" "qm_id m' = qm_id m" "qm_received_at m' < cutoff"
          unfolding ex_def abs by force
        with mq_abs_mem [OF inv, of m' c] cached_is_stored [OF q(2) that(1), of m'] that(2) show False by auto
      qed
      have "sq_exec ops qc (SqExpireConnection c cutoff) s = (if ex = [] then s1
          else sq_set_cache (fst (mq_delete_expired_for_connection c cutoff q)) s1\<lparr>sq_storage := sq_delete_all ops ex (sq_storage s1)\<rparr>)"
        using Inr load q(1) caches Some by (simp add: sq_delete_expired_for_connection_def ex_def Let_def)
      then show ?thesis using l del keep by auto
    qed
  qed
qed

lemma sq_exec_keeps:
  assumes si: "sq_inv inv content qc s" and qc: "qm_codec_ok qc"
  shows "sq_inv inv content qc (sq_exec ops qc ev s) \<and>
    (\<not> sq_deletes m ev \<longrightarrow> durable_at qc (content (sq_storage s)) (qm_id m) = Some (mark_pending m) \<longrightarrow>
     durable_at qc (content (sq_storage (sq_exec ops qc ev s))) (qm_id m) = Some (mark_pending m))"
proof (cases ev)
  case (SqAdd m')
  with sq_add_keeps(1,2) [OF si qc, of m' "fst (sq_add_message ops qc m' s)" "snd (sq_add_message ops qc m' s)"] show ?thesis by simp
next
  case SqCrash
  then show ?thesis using si by (simp add: sq_crash_def sq_inv_def sq_new_def Let_def)
next
  case (SqExpire t)
  with sq_expire_keeps [OF si qc] show ?thesis by simp
next
  case (SqExpireConnection c t)
  with sq_expire_connection_keeps [OF si qc] show ?thesis by simp
next
  case SqWarmUp
  obtain s1 r1 where "sq_ensure_loaded ops qc s = (s1, r1)" by (cases "sq_ensure_loaded ops qc s")
  with SqWarmUp sq_inv_loaded [OF si qc this] show ?thesis by (cases r1) (auto simp: sq_warm_up_def)
qed (use sq_exec_cache_keeps [OF si qc] in blast)+

lemma sq_run_keeps:
  assumes qc: "qm_codec_ok qc"
  shows "sq_inv inv content qc s \<Longrightarrow> sq_inv inv content qc (fold (sq_exec ops qc) evs s) \<and>
    (list_all (\<lambda>ev. \<not> sq_deletes m ev) evs \<longrightarrow> durable_at qc (content (sq_storage s)) (qm_id m) = Some (mark_pending m) \<longrightarrow>
     durable_at qc (content (sq_storage (fold (sq_exec ops qc) evs s))) (qm_id m) = Some (mark_pending m))"
proof (induction evs arbitrary: s)
  case (Cons ev evs)
  from sq_exec_keeps [OF Cons.prems qc, of ev m] Cons.IH [of "sq_exec ops qc ev s"] show ?case by auto
qed simp

end

section \<open>No message is lost\<close>

text \<open>
  C3. A message that was accepted is not lost: once \<open>add_message\<close> has returned its id, then
  whatever deliveries, returns, counts, further messages, deletions of other messages, failures
  of the storage and crashes follow, the queue that a restart loads contains the message, pending
  again, so that it will be delivered; only an acknowledgement naming it, the clearing of its
  connection or its expiry removes it. The storage may be any provider that keeps its contract.
\<close>

theorem stored_message_survives:
  assumes "storage_provider ops sinv content" and "qm_codec_ok qc" and "sinv st"
    and "\<forall>n. content st MESSAGE_QUEUE_CATEGORY n = None" and "qm_state m = Pending"
    and "sq_add_message ops qc m (fold (sq_exec ops qc) evs (sq_new st)) = (s, Inr i)"
    and "list_all (\<lambda>ev. \<not> sq_deletes m ev) evs'"
    and "sq_find_by_id ops qc (qm_id m) (sq_crash (fold (sq_exec ops qc) evs' s)) = (s', Inr found)"
  shows "found = Some m"
proof -
  let ?s = "sq_crash (fold (sq_exec ops qc) evs' s)"
  let ?D = "durable_at qc (content (sq_storage ?s))"
  have "durable_at qc (content st) = (\<lambda>i. None)" using assms(4) by (simp add: durable_at_def fun_eq_iff)
  then have "sq_inv sinv content qc (sq_new st)" using assms(3) by (simp add: sq_inv_def sq_new_def durable_ids_def Let_def)
  then have "sq_inv sinv content qc (fold (sq_exec ops qc) evs (sq_new st))"
    using storage_provider.sq_run_keeps [OF assms(1,2)] by blast
  note add = storage_provider.sq_add_keeps [OF assms(1) this assms(2,6)]
  note run = storage_provider.sq_run_keeps [OF assms(1,2) add(1), of evs' m]
  have inv: "sq_inv sinv content qc ?s" and stored: "?D (qm_id m) = Some m"
    using run add(3) assms(7) mark_pending_new [OF assms(5)] by (auto simp: sq_crash_def sq_new_def sq_inv_def Let_def)
  obtain s2 where load: "sq_ensure_loaded ops qc ?s = (s2, Inr ())"
    using assms(8) by (auto simp: sq_find_by_id_def split: prod.splits sum.splits)
  have "sinv (sq_storage ?s)" "durable_ids ?D" "sq_messages ?s = None"
    using inv by (simp_all add: sq_inv_def Let_def sq_crash_def sq_new_def)
  from storage_provider.ensure_loaded_durable [OF assms(1) this(1) assms(2) refl this(2,3) load]
  obtain q where "sq_cache s2 = Some q" "hm_get (mq_messages q) (qm_id m) = Some m" using stored by metis
  then have "sq_messages s2 = Some (mq_messages q)" by (auto simp: sq_cache_def split: option.splits)
  with load assms(8) \<open>hm_get (mq_messages q) (qm_id m) = Some m\<close> show ?thesis by (simp add: sq_find_by_id_def)
qed

definition demo_message :: queued_message where
  "demo_message = qm_new ''m1'' 7 ''c'' [] ''A''"

definition demo_codec :: qm_codec where
  "demo_codec = \<lparr>qc_to_vec = (\<lambda>m. if m = demo_message then Some [1] else if m = mark_sending demo_message then Some [2] else None),
     qc_from_slice = (\<lambda>bs. if bs = [1] then Some demo_message else if bs = [2] then Some (mark_sending demo_message) else None)\<rparr>"

lemma demo_codec_ok: "qm_codec_ok demo_codec"
  by (simp add: qm_codec_ok_def demo_codec_def)

lemma demo_stored:
  "sq_add_message memory_ops demo_codec demo_message (sq_new []) =
     (sq_set_cache (fst (mq_add_message demo_message mq_new)) (sq_new [(''message_queue'', [(''m1'', sq_record demo_message [1])])]), Inr ''m1'')"
  by (simp add: sq_add_message_def sq_ensure_loaded_def sq_load_messages_def sq_new_def memory_ops_def mem_find_all_new
      mem_category_def sq_index_def sq_orphans_def sq_write_back_def sq_load_index_def mq_new_def sq_persist_def demo_codec_def
      mem_save_def MESSAGE_QUEUE_CATEGORY_def sq_cache_def sq_set_cache_def Let_def demo_message_def qm_new_def sq_record_def record_new_def record_with_tags_def)

lemma demo_reload:
  "sq_find_by_id memory_ops demo_codec ''m1'' (sq_new [(''message_queue'', [(''m1'', sq_record demo_message [1])])]) =
     (sq_set_cache (fst (mq_add_message demo_message mq_new)) (sq_new [(''message_queue'', [(''m1'', sq_record demo_message [1])])]), Inr (Some demo_message))"
  by (simp add: sq_find_by_id_def sq_ensure_loaded_def sq_load_messages_def sq_new_def memory_ops_def mem_find_all_new
      mem_category_def sq_index_def sq_orphans_def sq_write_back_def sq_load_index_def mq_new_def demo_codec_def
      MESSAGE_QUEUE_CATEGORY_def Let_def demo_message_def qm_new_def sq_record_def record_new_def record_with_tags_def
      mq_add_message_def mq_ids_def sq_set_cache_def)

theorem stored_message_survives_witness:
  "\<exists>s s'. sq_add_message memory_ops demo_codec demo_message (sq_new []) = (s, Inr ''m1'') \<and>
     sq_find_by_id memory_ops demo_codec ''m1'' (sq_crash s) = (s', Inr (Some demo_message))"
proof -
  let ?s = "sq_set_cache (fst (mq_add_message demo_message mq_new)) (sq_new [(''message_queue'', [(''m1'', sq_record demo_message [1])])])"
  have crash: "sq_crash ?s = sq_new [(''message_queue'', [(''m1'', sq_record demo_message [1])])]"
    by (simp add: sq_crash_def sq_set_cache_def sq_new_def)
  have id: "qm_id demo_message = ''m1''" "qm_state demo_message = Pending" by (simp_all add: demo_message_def qm_new_def)
  have "mem_inv []" "\<forall>n. mem_content [] MESSAGE_QUEUE_CATEGORY n = None" by (simp_all add: mem_inv_def mem_content_def mem_category_def)
  from stored_message_survives [OF memory.storage_provider_axioms demo_codec_ok this id(2), of "[]" ?s "''m1''" "[]"]
    demo_stored demo_reload id(1) crash show ?thesis by auto
qed

text \<open>
  The first access races with a second one: a task that loads the queue has filled the message
  cache and released its lock before the connection index exists. Any other task that asks for a
  count at that moment finds the queue loaded, unwraps the missing index, and panics.
\<close>

theorem loading_race_panics:
  assumes "sq_messages s = None" "sq_by_connection s = None"
    and "sq_load_messages ops qc s = (s1, Inr conn_map)"
  shows "sq_get_pending_count ops qc c key s1 = (s1, Inl Panicked) \<and>
    (\<exists>n. snd (sq_get_pending_count ops qc c key (sq_load_index conn_map s1)) = Inr n)"
proof -
  obtain m c' where s1: "sq_messages s1 = Some m" "sq_by_connection s1 = None" "conn_map = Some c'"
    using assms by (auto simp: sq_load_messages_def Let_def split: sum.splits)
  then have "sq_ensure_loaded ops qc s1 = (s1, Inr ())"
    "sq_ensure_loaded ops qc (sq_load_index conn_map s1) = (sq_load_index conn_map s1, Inr ())"
    by (simp_all add: sq_ensure_loaded_def sq_load_messages_def sq_load_index_def)
  with s1 show ?thesis by (simp add: sq_get_pending_count_def sq_with_cache_def sq_cache_def sq_load_index_def)
qed

theorem loading_race_panics_witness:
  "\<exists>s1. fst (sq_load_messages memory_ops demo_codec (sq_new [])) = s1 \<and>
     sq_get_pending_count memory_ops demo_codec ''c'' None s1 = (s1, Inl Panicked)"
proof -
  obtain s1 cm where "sq_load_messages memory_ops demo_codec (sq_new []) = (s1, Inr cm)"
    by (simp add: sq_load_messages_def sq_new_def memory_ops_def mem_find_all_new Let_def)
  from loading_race_panics [OF _ _ this] this show ?thesis by (simp add: sq_new_def)
qed

end
