(* ===== verification/Fallible.thy ===== *)
theory Fallible
  imports Idiom_Prelude
begin

text \<open>
  Fallible programs over a state: an \<open>async fn(&self, ..) -> Result<A, E>\<close> whose writes persist
  when it returns an error is a function from the state to the new state and the result. The
  combinators are Rust's: \<open>seq\<close> is \<open>?\<close> followed by the rest of the body, \<open>ignore\<close> is
  \<open>let _ = ..\<close>. Properties are stated as triples with a postcondition for each outcome.
\<close>

type_synonym ('s, 'e, 'a) prog = "'s \<Rightarrow> 's \<times> ('e + 'a)"

definition ok :: "'a \<Rightarrow> ('s, 'e, 'a) prog" where
  "ok a s = (s, Inr a)"

definition raise :: "'e \<Rightarrow> ('s, 'e, 'a) prog" where
  "raise e s = (s, Inl e)"

definition read :: "('s \<Rightarrow> 'a) \<Rightarrow> ('s, 'e, 'a) prog" where
  "read f s = (s, Inr (f s))"

definition modify :: "('s \<Rightarrow> 's) \<Rightarrow> ('s, 'e, unit) prog" where
  "modify f s = (f s, Inr ())"

definition result :: "'e + 'a \<Rightarrow> ('s, 'e, 'a) prog" where
  "result r s = (s, r)"

definition seq :: "('s, 'e, 'a) prog \<Rightarrow> ('a \<Rightarrow> ('s, 'e, 'b) prog) \<Rightarrow> ('s, 'e, 'b) prog" where
  "seq m f s = (case m s of (s', Inl e) \<Rightarrow> (s', Inl e) | (s', Inr a) \<Rightarrow> f a s')"

definition ignore :: "('s, 'e, 'a) prog \<Rightarrow> ('s, 'f, unit) prog" where
  "ignore m s = (fst (m s), Inr ())"

text \<open>\<open>ok_or\<close>, and a guard with an early return.\<close>

definition ok_or :: "'e \<Rightarrow> 'a option \<Rightarrow> 'e + 'a" where
  "ok_or e x = (case x of None \<Rightarrow> Inl e | Some a \<Rightarrow> Inr a)"

definition guard :: "bool \<Rightarrow> 'e \<Rightarrow> ('s, 'e, unit) prog" where
  "guard b e s = (s, if b then Inr () else Inl e)"

lemma prog_simps [simp]:
  "ok a s = (s, Inr a)" "raise e s = (s, Inl e)" "read f s = (s, Inr (f s))" "modify g s = (g s, Inr ())"
  "result r s = (s, r)" "guard True e s = (s, Inr ())" "guard False e s = (s, Inl e)"
  by (simp_all add: ok_def raise_def read_def modify_def result_def guard_def)

lemma ok_or_simps [simp]:
  "ok_or e None = Inl e" "ok_or e (Some a) = Inr a" "ok_or e x = Inr a \<longleftrightarrow> x = Some a"
  by (auto simp: ok_or_def split: option.splits)

lemma seq_ok: "m s = (s', Inr a) \<Longrightarrow> seq m f s = f a s'"
  by (simp add: seq_def)

lemma seq_err: "m s = (s', Inl e) \<Longrightarrow> seq m f s = (s', Inl e)"
  by (simp add: seq_def)

lemma seq_Inr:
  assumes "seq m f s = (s', Inr b)"
  obtains s1 a where "m s = (s1, Inr a)" "f a s1 = (s', Inr b)"
  using assms by (auto simp: seq_def split: prod.splits sum.splits)

lemma seq_assoc: "seq (seq m f) g = seq m (\<lambda>a. seq (f a) g)"
  by (rule ext) (simp add: seq_def split: prod.splits sum.splits)

lemma seq_ok_left [simp]: "seq (ok a) f = f a"
  by (rule ext) (simp add: seq_def)

lemma seq_raise_left [simp]: "seq (raise e) f = raise e"
  by (rule ext) (simp add: seq_def)

lemma seq_ok_right [simp]: "seq m ok = m"
  by (rule ext) (simp add: seq_def split: prod.splits sum.splits)

section \<open>Triples\<close>

definition triple :: "('s \<Rightarrow> bool) \<Rightarrow> ('s, 'e, 'a) prog \<Rightarrow> ('a \<Rightarrow> 's \<Rightarrow> bool) \<Rightarrow> ('s \<Rightarrow> bool) \<Rightarrow> bool" where
  "triple P m Q R \<longleftrightarrow> (\<forall>s. P s \<longrightarrow> (case m s of (s', Inl e) \<Rightarrow> R s' | (s', Inr a) \<Rightarrow> Q a s'))"

abbreviation keeps :: "('s \<Rightarrow> bool) \<Rightarrow> ('s, 'e, 'a) prog \<Rightarrow> bool" where
  "keeps P m \<equiv> triple P m (\<lambda>_. P) P"

named_theorems hoare \<open>rules for triples, one per combinator\<close>

lemma triple_seq [hoare]:
  "triple P m Q R \<Longrightarrow> (\<And>a. triple (Q a) (f a) Q' R) \<Longrightarrow> triple P (seq m f) Q' R"
  by (fastforce simp: triple_def seq_def split: prod.splits sum.splits)

lemma triple_conseq:
  "triple P m Q R \<Longrightarrow> (\<And>s. P' s \<Longrightarrow> P s) \<Longrightarrow> (\<And>a s. Q a s \<Longrightarrow> Q' a s) \<Longrightarrow> (\<And>s. R s \<Longrightarrow> R' s) \<Longrightarrow> triple P' m Q' R'"
  by (fastforce simp: triple_def split: prod.splits sum.splits)

lemma triple_pre: "triple P m Q R \<Longrightarrow> (\<And>s. P' s \<Longrightarrow> P s) \<Longrightarrow> triple P' m Q R"
  by (rule triple_conseq)

lemma triple_both: "triple P m (\<lambda>_. Q) Q \<longleftrightarrow> (\<forall>s. P s \<longrightarrow> Q (fst (m s)))"
  unfolding triple_def by (intro iff_allI imp_cong refl) (simp split: prod.split sum.split)

lemmas keeps_iff = triple_both [where P = P and Q = P for P]

lemma keeps_seq [hoare]: "keeps P m \<Longrightarrow> (\<And>a. keeps P (f a)) \<Longrightarrow> keeps P (seq m f)"
  by (rule triple_seq)

lemma keeps_basic [hoare, simp]:
  "keeps P (ok a)" "keeps P (raise e)" "keeps P (read f)" "keeps P (result r)" "keeps P (guard b e)"
  by (auto simp: triple_def guard_def split: sum.splits)

lemma keeps_ignore [hoare]: "keeps P m \<Longrightarrow> keeps P (ignore m)"
  by (simp add: keeps_iff ignore_def)

lemma keeps_if [hoare]: "keeps P m \<Longrightarrow> keeps P m' \<Longrightarrow> keeps P (if b then m else m')"
  by simp

lemma keeps_fst: "keeps P m \<Longrightarrow> P s \<Longrightarrow> P (fst (m s))"
  by (simp add: keeps_iff)

lemma triple_ok [hoare]: "(\<And>s. P s \<Longrightarrow> Q a s) \<Longrightarrow> triple P (ok a) Q R"
  by (simp add: triple_def)

text \<open>Steps that only test or compute hand their outcome on as a fact.\<close>

lemma triple_guard_seq [hoare]:
  "(b \<Longrightarrow> triple P m Q R) \<Longrightarrow> (\<And>s. P s \<Longrightarrow> R s) \<Longrightarrow> triple P (seq (guard b e) (\<lambda>_. m)) Q R"
  by (cases b) (simp_all add: triple_def seq_def)

lemma triple_result_seq [hoare]:
  "(\<And>a. r = Inr a \<Longrightarrow> triple P (f a) Q R) \<Longrightarrow> (\<And>s. P s \<Longrightarrow> R s) \<Longrightarrow> triple P (seq (result r) f) Q R"
  by (cases r) (simp_all add: triple_def seq_def)

lemma triple_read_seq [hoare]: "(\<And>a. triple P (f a) Q R) \<Longrightarrow> triple P (seq (read g) f) Q R"
  by (simp add: triple_def seq_def)

lemma triple_ignore_seq:
  "triple P m (\<lambda>_. Q) Q \<Longrightarrow> triple Q k Q' R \<Longrightarrow> triple P (seq (ignore m) (\<lambda>_. k)) Q' R"
  unfolding triple_both by (simp add: triple_def seq_def ignore_def)

lemma triple_fst: "triple P m (\<lambda>_. Q) Q \<Longrightarrow> P s \<Longrightarrow> Q (fst (m s))"
  by (simp add: triple_both)

lemma tripleD_Inr: "triple P m Q R \<Longrightarrow> P s \<Longrightarrow> m s = (s', Inr a) \<Longrightarrow> Q a s'"
  by (fastforce simp: triple_def)

lemma tripleD_Inl: "triple P m Q R \<Longrightarrow> P s \<Longrightarrow> m s = (s', Inl e) \<Longrightarrow> R s'"
  by (fastforce simp: triple_def)

end
