(* ===== verification/Signing_Counter.thy ===== *)
theory Signing_Counter
  imports Fallible Storage_Provider Byte_Codec
begin

text \<open>
  The monotonic counters of the signing protocol: \<open>protocols/signing/src/counter.rs\<close> and
  \<open>errors.rs\<close>. A counter is stored as the decimal text of a \<open>u64\<close>; \<open>str::parse\<close> and
  \<open>to_string\<close> are those of the standard library. The unchecked \<open>+= 1\<close> wraps.
\<close>

datatype signing_error =
    InvalidMessageType string | InvalidBody string | SessionNotFound string
  | InvalidStateTransition string string | ThresholdNotMet u32 u32 | HpkeError string
  | CounterReplay u64 u64 | TokenVerificationFailed string | SignatureError string
  | StorageError string | SerializationError string | SessionExpired | Unauthorized string
  | DuplicateSigner string | UnknownSigner string | SigningInternal string

section \<open>Decimal text\<close>

datatype int_error = IntEmpty | IntInvalidDigit | IntPosOverflow

fun int_error_str :: "int_error \<Rightarrow> string" where
  "int_error_str IntEmpty = ''cannot parse integer from empty string''"
| "int_error_str IntInvalidDigit = ''invalid digit found in string''"
| "int_error_str IntPosOverflow = ''number too large to fit in target type''"

definition digit_step :: "nat \<Rightarrow> nat \<Rightarrow> char \<Rightarrow> int_error + nat" where
  "digit_step bound acc c =
     (let d = of_char c :: nat
      in if d < 48 \<or> 57 < d then Inl IntInvalidDigit
         else if 10 * acc + (d - 48) \<ge> bound then Inl IntPosOverflow else Inr (10 * acc + (d - 48)))"

fun parse_digits :: "nat \<Rightarrow> nat \<Rightarrow> string \<Rightarrow> int_error + nat" where
  "parse_digits bound acc [] = Inr acc"
| "parse_digits bound acc (c # s) =
     (case digit_step bound acc c of Inl e \<Rightarrow> Inl e | Inr acc \<Rightarrow> parse_digits bound acc s)"

definition parse_u64 :: "string \<Rightarrow> int_error + u64" where
  "parse_u64 s = map_sum id of_nat
     (if s = [] then Inl IntEmpty
      else if s = ''+'' \<or> s = ''-'' then Inl IntInvalidDigit
      else if hd s = CHR ''+'' then parse_digits (2 ^ 64) 0 (tl s)
      else parse_digits (2 ^ 64) 0 s)"

definition u64_str :: "u64 \<Rightarrow> string" where
  "u64_str v = nat_str (unat v)"

section \<open>The counter manager\<close>

definition COUNTER_CATEGORY :: string where "COUNTER_CATEGORY = ''signing_counter''"

record 's counter_manager =
  ctr_storage :: 's
  ctr_counters :: "(string, u64) hash_map"

definition ctr_new :: "'s \<Rightarrow> 's counter_manager" where
  "ctr_new st = \<lparr>ctr_storage = st, ctr_counters = []\<rparr>"

definition ctr_key :: "string \<Rightarrow> string \<Rightarrow> string" where
  "ctr_key subject_did device_id = subject_did @ '':'' @ device_id"

definition ctr_decode :: "bytes \<Rightarrow> signing_error + u64" where
  "ctr_decode value =
     (case from_utf8 value of
        None \<Rightarrow> Inl (StorageError ''invalid utf-8 sequence'')
      | Some t \<Rightarrow> (case parse_u64 t of Inl e \<Rightarrow> Inl (StorageError (int_error_str e)) | Inr v \<Rightarrow> Inr v))"

definition ctr_cache :: "string \<Rightarrow> u64 \<Rightarrow> 's counter_manager \<Rightarrow> 's counter_manager" where
  "ctr_cache key value s = s\<lparr>ctr_counters := hm_insert key value (ctr_counters s)\<rparr>"

definition ctr_load :: "'s storage_ops \<Rightarrow> string \<Rightarrow> 's counter_manager \<Rightarrow> signing_error + u64" where
  "ctr_load ops key s =
     (case st_find ops COUNTER_CATEGORY key (ctr_storage s) of
        Inl e \<Rightarrow> Inl (StorageError (agent_error_str e))
      | Inr None \<Rightarrow> Inr 0
      | Inr (Some record) \<Rightarrow> ctr_decode (rec_value record))"

definition ctr_current :: "'s storage_ops \<Rightarrow> string \<Rightarrow> string \<Rightarrow> ('s counter_manager, signing_error, u64) prog" where
  "ctr_current ops subject_did device_id s =
     (let key = ctr_key subject_did device_id
      in case hm_get (ctr_counters s) key of
           Some value \<Rightarrow> (s, Inr value)
         | None \<Rightarrow> (case ctr_load ops key s of
                      Inl e \<Rightarrow> (s, Inl e)
                    | Inr value \<Rightarrow> (ctr_cache key value s, Inr value)))"

definition ctr_record :: "string \<Rightarrow> u64 \<Rightarrow> string \<Rightarrow> string \<Rightarrow> storage_record" where
  "ctr_record key value subject_did device_id =
     record_add_tag ''device_id'' device_id (record_add_tag ''did'' subject_did
       (record_new COUNTER_CATEGORY key (str_bytes (u64_str value))))"

definition update_or_save :: "'s storage_ops \<Rightarrow> storage_record \<Rightarrow> ('s, signing_error, unit) prog" where
  "update_or_save ops record st =
     (case st_update ops record st of
        (st, Inr _) \<Rightarrow> (st, Inr ())
      | (st, Inl _) \<Rightarrow> (case st_save ops record st of
                            (st, Inr _) \<Rightarrow> (st, Inr ())
                          | (st, Inl e) \<Rightarrow> (st, Inl (StorageError (agent_error_str e)))))"

definition ctr_persist ::
  "'s storage_ops \<Rightarrow> string \<Rightarrow> u64 \<Rightarrow> string \<Rightarrow> string \<Rightarrow> ('s counter_manager, signing_error, unit) prog" where
  "ctr_persist ops key value subject_did device_id s =
     (case update_or_save ops (ctr_record key value subject_did device_id) (ctr_storage s) of
        (st, r) \<Rightarrow> (s\<lparr>ctr_storage := st\<rparr>, r))"

text \<open>
  \<open>next\<close> reads the stored counter when the cached one is 0, and takes 0 when that read fails in
  any way. The cache is advanced before the write.
\<close>

definition ctr_next :: "'s storage_ops \<Rightarrow> string \<Rightarrow> string \<Rightarrow> ('s counter_manager, signing_error, u64) prog" where
  "ctr_next ops subject_did device_id s =
     (let key = ctr_key subject_did device_id;
          cached = (case hm_get (ctr_counters s) key of None \<Rightarrow> 0 | Some v \<Rightarrow> v);
          current = (if cached \<noteq> 0 then cached
                     else case st_find ops COUNTER_CATEGORY key (ctr_storage s) of
                            Inr (Some record) \<Rightarrow> (case ctr_decode (rec_value record) of Inr v \<Rightarrow> v | Inl _ \<Rightarrow> cached)
                          | _ \<Rightarrow> cached);
          value = current + 1
      in seq (modify (ctr_cache key value)) (\<lambda>_.
         seq (ctr_persist ops key value subject_did device_id) (\<lambda>_. ok value)) s)"

definition ctr_verify :: "'s storage_ops \<Rightarrow> string \<Rightarrow> string \<Rightarrow> u64 \<Rightarrow> ('s counter_manager, signing_error, bool) prog" where
  "ctr_verify ops subject_did device_id counter =
     seq (ctr_current ops subject_did device_id) (\<lambda>last_seen. ok (counter > last_seen))"

text \<open>\<open>accept\<close> starts from 0 when nothing is cached, and leaves that 0 in the cache.\<close>

definition ctr_accept :: "'s storage_ops \<Rightarrow> string \<Rightarrow> string \<Rightarrow> u64 \<Rightarrow> ('s counter_manager, signing_error, unit) prog" where
  "ctr_accept ops subject_did device_id counter s =
     (let key = ctr_key subject_did device_id;
          current = (case hm_get (ctr_counters s) key of None \<Rightarrow> 0 | Some v \<Rightarrow> v)
      in if counter \<le> current then (ctr_cache key current s, Inl (CounterReplay counter current))
         else seq (modify (ctr_cache key counter)) (\<lambda>_. ctr_persist ops key counter subject_did device_id) s)"

text \<open>The process restarts: the storage stays, the cache is gone.\<close>

definition ctr_restart :: "'s counter_manager \<Rightarrow> 's counter_manager" where
  "ctr_restart s = ctr_new (ctr_storage s)"

section \<open>Reading back what was written\<close>

lemma parse_digits_append:
  "parse_digits b acc (s @ [c]) = (case parse_digits b acc s of Inl e \<Rightarrow> Inl e | Inr r \<Rightarrow> digit_step b r c)"
  by (induction s arbitrary: acc) (auto split: sum.splits)

lemma digit_step_digit: "10 * acc + d < b \<Longrightarrow> d < 10 \<Longrightarrow> digit_step b acc (char_of (d + 48)) = Inr (10 * acc + d)"
  by (simp add: digit_step_def Let_def)

lemma parse_digits_nat_str: "n < b \<Longrightarrow> parse_digits b 0 (nat_str n) = Inr n"
proof (induction n rule: nat_str.induct)
  case (1 n)
  show ?case
  proof (cases "n < 10")
    case True
    then show ?thesis using 1(2) digit_step_digit [of 0 n b] by (simp add: nat_str.simps [of n])
  next
    case False
    then have "parse_digits b 0 (nat_str (n div 10)) = Inr (n div 10)" using 1 by simp
    moreover have "10 * (n div 10) + n mod 10 = n" by simp
    ultimately show ?thesis using False 1(2) digit_step_digit [of "n div 10" "n mod 10" b]
      by (simp add: nat_str.simps [of n] parse_digits_append)
  qed
qed

lemma nat_str_digits: "c \<in> set (nat_str n) \<Longrightarrow> 48 \<le> (of_char c :: nat) \<and> (of_char c :: nat) \<le> 57"
  by (induction n rule: nat_str.induct) (subst (asm) (2) nat_str.simps, auto split: if_splits)

lemma nat_str_not_empty [simp]: "nat_str n \<noteq> []"
  by (subst nat_str.simps) simp

lemma parse_u64_str: "parse_u64 (u64_str v) = Inr v"
proof -
  have "unat v < 2 ^ 64" using unsigned_less [of v, where ?'a = nat] by simp
  then have p: "parse_digits (2 ^ 64) 0 (nat_str (unat v)) = Inr (unat v)" by (rule parse_digits_nat_str)
  have "hd (nat_str (unat v)) \<in> set (nat_str (unat v))" by simp
  then have h: "48 \<le> (of_char (hd (nat_str (unat v))) :: nat)" using nat_str_digits by blast
  then have "hd (nat_str (unat v)) \<noteq> CHR ''+''" "hd (nat_str (unat v)) \<noteq> CHR ''-''" by auto
  then have "nat_str (unat v) \<noteq> ''+''" "nat_str (unat v) \<noteq> ''-''" "hd (nat_str (unat v)) \<noteq> CHR ''+''" by auto
  then show ?thesis unfolding parse_u64_def u64_str_def using p by simp
qed

lemma utf8_valid_ascii: "\<forall>b\<in>set bs. b < 0x80 \<Longrightarrow> utf8_valid bs"
  by (induction bs) (auto simp: utf8_valid.simps(2))

lemma utf8_u64_str: "utf8_valid (str_bytes (u64_str v))"
proof (rule utf8_valid_ascii, rule ballI)
  fix b assume "b \<in> set (str_bytes (u64_str v))"
  then obtain c where c: "c \<in> set (nat_str (unat v))" "b = of_char c" by (auto simp: str_bytes_def u64_str_def)
  from nat_str_digits [OF c(1)] have "unat b \<le> 57" using c(2) by (simp add: unat_of_char)
  then show "b < 0x80" by (simp add: word_less_nat_alt)
qed

lemma ctr_decode_written [simp]: "ctr_decode (str_bytes (u64_str v)) = Inr v"
  by (simp add: ctr_decode_def from_utf8_str_bytes [OF utf8_u64_str] parse_u64_str)

section \<open>Counters only grow\<close>

context storage_provider
begin

lemma update_or_save_cases:
  assumes "inv st" and "update_or_save ops r st = (st', res)"
  shows "inv st'"
    "is_ok res \<Longrightarrow> content st' = (content st)(rec_category r := (content st (rec_category r))(rec_name r \<mapsto> r))"
    "\<not> is_ok res \<Longrightarrow> content st' = content st"
proof -
  obtain u ur where u: "st_update ops r st = (u, ur)" by (cases "st_update ops r st")
  have U: "inv u" "ur = Inr () \<Longrightarrow> content u = (content st)(rec_category r := (content st (rec_category r))(rec_name r \<mapsto> r))"
    "ur \<noteq> Inr () \<Longrightarrow> content u = content st"
    using u update_ok [OF assms(1), of r u] update_err [OF assms(1), of r u] by (cases ur; auto)+
  obtain w wr where w: "st_save ops r u = (w, wr)" by (cases "st_save ops r u")
  have W: "inv w" "wr = Inr () \<Longrightarrow> content w = (content u)(rec_category r := (content u (rec_category r))(rec_name r \<mapsto> r))"
    "wr \<noteq> Inr () \<Longrightarrow> content w = content u"
    using w save_ok [OF U(1), of r w] save_err [OF U(1), of r w] by (cases wr; auto)+
  show "inv st'"
    "is_ok res \<Longrightarrow> content st' = (content st)(rec_category r := (content st (rec_category r))(rec_name r \<mapsto> r))"
    "\<not> is_ok res \<Longrightarrow> content st' = content st"
    using assms(2) u w U W by (cases ur; cases wr; auto simp: update_or_save_def)+
qed

end

definition ctr_stored :: "('s \<Rightarrow> string \<Rightarrow> string \<Rightarrow> storage_record option) \<Rightarrow> 's \<Rightarrow> string \<Rightarrow> u64 option" where
  "ctr_stored content st key =
     (case content st COUNTER_CATEGORY key of
        None \<Rightarrow> Some 0
      | Some r \<Rightarrow> (case ctr_decode (rec_value r) of Inl _ \<Rightarrow> None | Inr v \<Rightarrow> Some v))"

text \<open>
  The invariant: what was last granted for a key is at most what is stored, which is at most what
  is cached; \<open>B\<close> bounds them all.
\<close>

definition ctr_inv ::
  "('s \<Rightarrow> bool) \<Rightarrow> ('s \<Rightarrow> string \<Rightarrow> string \<Rightarrow> storage_record option) \<Rightarrow> nat \<Rightarrow> (string \<Rightarrow> u64) \<Rightarrow> 's counter_manager \<Rightarrow> bool" where
  "ctr_inv sinv content B h s \<longleftrightarrow> sinv (ctr_storage s) \<and>
     (\<forall>k. \<exists>v. ctr_stored content (ctr_storage s) k = Some v \<and> h k \<le> v \<and> unat v \<le> B \<and>
        (\<forall>c. hm_get (ctr_counters s) k = Some c \<longrightarrow> v \<le> c \<and> unat c \<le> B))"

text \<open>
  A token is received the way the comments on \<open>verify\<close> and \<open>accept\<close> ask of their callers: its
  counter is verified first and then accepted. The grants of a run are the counters issued and
  received. The calls of a run do not overlap.
\<close>

definition ctr_receive :: "'s storage_ops \<Rightarrow> string \<Rightarrow> string \<Rightarrow> u64 \<Rightarrow> ('s counter_manager, signing_error, bool) prog" where
  "ctr_receive ops subject_did device_id counter =
     seq (ctr_verify ops subject_did device_id counter) (\<lambda>fresh.
     if fresh then seq (ctr_accept ops subject_did device_id counter) (\<lambda>_. ok True) else ok False)"

datatype ctr_event = CtrIssue string string | CtrReceive string string u64 | CtrRestart

fun ctr_exec :: "'s storage_ops \<Rightarrow> ctr_event \<Rightarrow> 's counter_manager \<Rightarrow> 's counter_manager \<times> (string \<times> u64) list" where
  "ctr_exec ops (CtrIssue did dev) s =
     (case ctr_next ops did dev s of (s, Inr v) \<Rightarrow> (s, [(ctr_key did dev, v)]) | (s, Inl _) \<Rightarrow> (s, []))"
| "ctr_exec ops (CtrReceive did dev c) s =
     (case ctr_receive ops did dev c s of (s, Inr True) \<Rightarrow> (s, [(ctr_key did dev, c)]) | (s, _) \<Rightarrow> (s, []))"
| "ctr_exec ops CtrRestart s = (ctr_restart s, [])"

fun ctr_run :: "'s storage_ops \<Rightarrow> ctr_event list \<Rightarrow> 's counter_manager \<Rightarrow> (string \<times> u64) list" where
  "ctr_run ops [] s = []"
| "ctr_run ops (e # es) s = (case ctr_exec ops e s of (s, grants) \<Rightarrow> grants @ ctr_run ops es s)"

fun received_below :: "nat \<Rightarrow> ctr_event \<Rightarrow> bool" where
  "received_below B (CtrReceive did dev c) \<longleftrightarrow> unat c \<le> B"
| "received_below B _ \<longleftrightarrow> True"

lemma ctr_inv_mono: "ctr_inv sinv content B h s \<Longrightarrow> B \<le> B' \<Longrightarrow> ctr_inv sinv content B' h s"
  unfolding ctr_inv_def by (meson le_trans)

lemma ctr_inv_storage: "ctr_inv sinv content B h s \<Longrightarrow> sinv (ctr_storage s)"
  by (simp add: ctr_inv_def)

lemma ctr_inv_stored:
  assumes "ctr_inv sinv content B h s"
  obtains v where "ctr_stored content (ctr_storage s) k = Some v" "h k \<le> v" "unat v \<le> B"
    "\<And>c. hm_get (ctr_counters s) k = Some c \<Longrightarrow> v \<le> c \<and> unat c \<le> B"
  using assms unfolding ctr_inv_def by metis

lemma ctr_inv_cache:
  assumes "ctr_inv sinv content B h s" and "ctr_stored content (ctr_storage s) k = Some v" "v \<le> c" "unat c \<le> B"
  shows "ctr_inv sinv content B h (ctr_cache k c s)"
  using assms by (auto simp: ctr_inv_def ctr_cache_def) (metis option.inject)+

lemma ctr_inv_restart: "ctr_inv sinv content B h s \<Longrightarrow> ctr_inv sinv content B h (ctr_restart s)"
  by (fastforce simp: ctr_inv_def ctr_restart_def ctr_new_def)

context storage_provider
begin

lemma ctr_inv_persist:
  assumes "ctr_inv inv content B h s" and "hm_get (ctr_counters s) k = Some c"
    and "ctr_persist ops k c did dev s = (s', r)"
  shows "ctr_inv inv content B (if is_ok r then h(k := c) else h) s'"
proof -
  obtain st where st: "update_or_save ops (ctr_record k c did dev) (ctr_storage s) = (st, r)" "s' = s\<lparr>ctr_storage := st\<rparr>"
    using assms(3) by (auto simp: ctr_persist_def split: prod.splits)
  note us = update_or_save_cases [OF ctr_inv_storage [OF assms(1)] st(1)]
  have rec: "rec_category (ctr_record k c did dev) = COUNTER_CATEGORY" "rec_name (ctr_record k c did dev) = k"
    "rec_value (ctr_record k c did dev) = str_bytes (u64_str c)"
    by (simp_all add: ctr_record_def record_add_tag_def record_new_def)
  have "ctr_stored content st = (if is_ok r then (ctr_stored content (ctr_storage s))(k \<mapsto> c) else ctr_stored content (ctr_storage s))"
    using us(2,3) by (auto simp: fun_eq_iff ctr_stored_def rec split: if_splits)
  then show ?thesis using assms(1,2) us(1) unfolding ctr_inv_def st(2) by auto
qed

lemma ctr_current_inv:
  assumes i: "ctr_inv inv content B h s" and c: "ctr_current ops did dev s = (s', r)"
  shows "ctr_inv inv content B h s'"
    "r = Inr v \<Longrightarrow> h (ctr_key did dev) \<le> v \<and> hm_get (ctr_counters s') (ctr_key did dev) = Some v"
proof -
  let ?k = "ctr_key did dev"
  obtain w where w: "ctr_stored content (ctr_storage s) ?k = Some w" "h ?k \<le> w" "unat w \<le> B"
    "\<And>c. hm_get (ctr_counters s) ?k = Some c \<Longrightarrow> w \<le> c \<and> unat c \<le> B" by (rule ctr_inv_stored [OF i, of ?k]) blast
  have load: "x = w" if "ctr_load ops ?k s = Inr x" for x
    using that w(1) find_ok [OF ctr_inv_storage [OF i]]
    by (auto simp: ctr_load_def ctr_stored_def split: sum.splits option.splits)
  show "ctr_inv inv content B h s'"
    using c i w(1,3) load
    by (auto simp: ctr_current_def Let_def split: option.splits sum.splits intro!: ctr_inv_cache)
  show "h ?k \<le> v \<and> hm_get (ctr_counters s') ?k = Some v" if "r = Inr v"
    using c w(2,4) load that
    by (auto simp: ctr_current_def Let_def ctr_cache_def split: option.splits sum.splits intro: order_trans)
qed

end

context storage_provider
begin

lemma ctr_receive_inv:
  assumes i: "ctr_inv inv content B h s" and B: "unat c \<le> B" and r: "ctr_receive ops did dev c s = (s', r)"
  shows "if r = Inr True then h (ctr_key did dev) < c \<and> ctr_inv inv content B (h(ctr_key did dev := c)) s'
    else ctr_inv inv content B h s'"
proof -
  let ?k = "ctr_key did dev"
  obtain s1 r1 where s1: "ctr_current ops did dev s = (s1, r1)" by (cases "ctr_current ops did dev s")
  note cur = ctr_current_inv [OF i s1]
  show ?thesis
  proof (cases "\<exists>v. r1 = Inr v \<and> v < c")
    case False
    then have "s' = s1 \<and> r \<noteq> Inr True" using r s1
      by (cases r1) (auto simp: ctr_receive_def ctr_verify_def seq_def)
    then show ?thesis using cur(1) by simp
  next
    case True
    then obtain v where v: "r1 = Inr v" "v < c" by auto
    then have hv: "h ?k \<le> v" "hm_get (ctr_counters s1) ?k = Some v" using cur(2) by auto
    obtain w where w: "ctr_stored content (ctr_storage s1) ?k = Some w" "w \<le> v"
      using ctr_inv_stored [OF cur(1), of ?k] hv(2) by metis
    let ?s2 = "ctr_cache ?k c s1"
    have i2: "ctr_inv inv content B h ?s2" using ctr_inv_cache [OF cur(1) w(1) _ B] w(2) v(2) by simp
    obtain s3 r3 where s3: "ctr_persist ops ?k c did dev ?s2 = (s3, r3)" by (cases "ctr_persist ops ?k c did dev ?s2")
    have "s' = s3 \<and> (r = Inr True \<longleftrightarrow> is_ok r3)" using r s1 s3 v hv(2) not_le [THEN iffD2, OF v(2)]
      by (cases r3) (auto simp: ctr_receive_def ctr_verify_def ctr_accept_def seq_def Let_def)
    then show ?thesis using ctr_inv_persist [OF i2 _ s3] hv(1) v(2) by (auto simp: ctr_cache_def)
  qed
qed

lemma ctr_next_inv:
  assumes i: "ctr_inv inv content B h s" and B: "Suc B < 2 ^ 64" and total: "\<And>c n st. \<exists>x. st_find ops c n st = Inr x"
    and r: "ctr_next ops did dev s = (s', r)"
  shows "case r of Inr c \<Rightarrow> h (ctr_key did dev) < c \<and> ctr_inv inv content (Suc B) (h(ctr_key did dev := c)) s'
    | Inl _ \<Rightarrow> ctr_inv inv content (Suc B) h s'"
proof -
  let ?k = "ctr_key did dev"
  obtain w where w: "ctr_stored content (ctr_storage s) ?k = Some w" "h ?k \<le> w" "unat w \<le> B"
    "\<And>c. hm_get (ctr_counters s) ?k = Some c \<Longrightarrow> w \<le> c \<and> unat c \<le> B" by (rule ctr_inv_stored [OF i, of ?k]) blast
  define cached where "cached = (case hm_get (ctr_counters s) ?k of None \<Rightarrow> 0 | Some v \<Rightarrow> v)"
  define cur where "cur = (if cached \<noteq> 0 then cached
     else case st_find ops COUNTER_CATEGORY ?k (ctr_storage s) of
            Inr (Some record) \<Rightarrow> (case ctr_decode (rec_value record) of Inr v \<Rightarrow> v | Inl _ \<Rightarrow> cached)
          | _ \<Rightarrow> cached)"
  obtain x where x: "st_find ops COUNTER_CATEGORY ?k (ctr_storage s) = Inr x" using total by blast
  have cur: "w \<le> cur \<and> unat cur \<le> B"
  proof (cases "cached = 0")
    case True
    then have "cur = w" using w(1) x find_ok [OF ctr_inv_storage [OF i] x]
      by (auto simp: cur_def ctr_stored_def split: option.splits sum.splits)
    then show ?thesis using w(3) by simp
  next
    case False
    then show ?thesis using w(4) by (auto simp: cur_def cached_def split: option.splits)
  qed
  have "unat (- 1 :: u64) = 2 ^ 64 - 1" by (simp add: unsigned_minus_1_eq_mask mask_eq_exp_minus_1)
  then have nm: "cur \<noteq> - 1" using cur B by auto
  then have Suc: "unat (cur + 1) = Suc (unat cur)"
    by (metis add.commute add_eq_0_iff2 unatSuc)
  have less: "cur < cur + 1" by (rule word_less_add_one [OF nm])
  let ?s2 = "ctr_cache ?k (cur + 1) s"
  have i2: "ctr_inv inv content (Suc B) h ?s2"
    by (rule ctr_inv_cache [OF ctr_inv_mono [OF i] w(1)]) (use cur less Suc in auto)
  obtain s3 r3 where s3: "ctr_persist ops ?k (cur + 1) did dev ?s2 = (s3, r3)" by (cases "ctr_persist ops ?k (cur + 1) did dev ?s2")
  have "s' = s3 \<and> (case r3 of Inr _ \<Rightarrow> r = Inr (cur + 1) | Inl e \<Rightarrow> r = Inl e)" using r s3
    by (cases r3) (auto simp: ctr_next_def seq_def Let_def cur_def [unfolded cached_def])
  then show ?thesis using ctr_inv_persist [OF i2 _ s3] w(2) cur less
    by (cases r3) (auto simp: ctr_cache_def)
qed

lemma ctr_exec_inv:
  assumes "ctr_inv inv content B h s" "Suc B < 2 ^ 64" "received_below B e" "ctr_exec ops e s = (s', g)"
    and "\<And>c n st. \<exists>x. st_find ops c n st = Inr x"
  shows "(g = [] \<and> ctr_inv inv content (Suc B) h s') \<or>
    (\<exists>k c. g = [(k, c)] \<and> h k < c \<and> ctr_inv inv content (Suc B) (h(k := c)) s')"
proof (cases e)
  case (CtrIssue did dev)
  obtain s1 r where r: "ctr_next ops did dev s = (s1, r)" by (cases "ctr_next ops did dev s")
  show ?thesis using ctr_next_inv [OF assms(1,2,5) r] assms(4) r CtrIssue by (auto split: sum.splits)
next
  case (CtrReceive did dev c)
  obtain s1 r where r: "ctr_receive ops did dev c s = (s1, r)" by (cases "ctr_receive ops did dev c s")
  have mono: "ctr_inv inv content B h' t \<Longrightarrow> ctr_inv inv content (Suc B) h' t" for h' t
    by (erule ctr_inv_mono) simp
  show ?thesis using ctr_receive_inv [OF assms(1) _ r] assms(3,4) r CtrReceive
    by (auto split: sum.splits bool.splits if_splits intro: mono)
next
  case CtrRestart
  then show ?thesis using assms(4) ctr_inv_mono [OF ctr_inv_restart [OF assms(1)], of "Suc B"] by auto
qed

lemma ctr_run_increases:
  assumes "ctr_inv inv content B h s" "B + length es < 2 ^ 64" "\<forall>e\<in>set es. received_below B e"
    and total: "\<And>c n st. \<exists>x. st_find ops c n st = Inr x"
  shows "sorted_wrt (<) (h k # map snd (filter (\<lambda>(k', c). k' = k) (ctr_run ops es s)))"
  using assms(1-3)
proof (induction es arbitrary: s h B)
  case Nil
  then show ?case by simp
next
  case (Cons e es)
  obtain s1 g where s1: "ctr_exec ops e s = (s1, g)" by (cases "ctr_exec ops e s")
  have below: "\<forall>e\<in>set es. received_below (Suc B) e" using Cons.prems(3)
    by (auto elim!: received_below.elims)
  from ctr_exec_inv [OF Cons.prems(1) _ _ s1 total] Cons.prems(2,3)
  consider "g = []" "ctr_inv inv content (Suc B) h s1"
    | k' c where "g = [(k', c)]" "h k' < c" "ctr_inv inv content (Suc B) (h(k' := c)) s1" by auto
  then show ?case
  proof cases
    case 1
    then show ?thesis using Cons.IH [OF 1(2) _ below] Cons.prems(2) s1 by simp
  next
    case 2
    then show ?thesis using Cons.IH [OF 2(3) _ below] Cons.prems(2) s1
      by (auto simp: fun_upd_def split: if_splits)
  qed
qed

end

text \<open>
  C28. For each subject and device the counters that are issued and those that are verified and
  accepted strictly increase, through failed writes and restarts, when calls do not overlap, every
  read of the storage succeeds, each received counter is verified before it is accepted, and no
  received counter lies so high that the counter could wrap.
\<close>

theorem counters_strictly_increase:
  assumes "storage_provider ops sinv content" and "sinv st" and "content st COUNTER_CATEGORY = Map.empty"
    and "\<forall>c n st. \<exists>x. st_find ops c n st = Inr x"
    and "\<forall>e\<in>set es. received_below B e" and "B + length es < 2 ^ 64"
  shows "sorted_wrt (<) (map snd (filter (\<lambda>(k, c). k = ctr_key did dev) (ctr_run ops es (ctr_new st))))"
proof -
  have "ctr_inv sinv content B (\<lambda>_. 0) (ctr_new st)"
    using assms(2,3) by (simp add: ctr_inv_def ctr_new_def ctr_stored_def)
  from storage_provider.ctr_run_increases [OF assms(1) this assms(6,5)] assms(4)
  show ?thesis by (simp only: sorted_wrt.simps)
qed

theorem counters_strictly_increase_witness:
  "sorted_wrt (<) (map snd (filter (\<lambda>(k, c). k = ctr_key ''did:a'' ''d'')
     (ctr_run memory_ops [CtrIssue ''did:a'' ''d'', CtrRestart, CtrReceive ''did:a'' ''d'' 1, CtrReceive ''did:a'' ''d'' 7]
       (ctr_new []))))"
  by (rule counters_strictly_increase [OF memory.storage_provider_axioms, of _ _ 7])
    (auto simp: mem_inv_def mem_content_def mem_category_def memory_ops_def mem_find_def)

text \<open>
  Each condition is needed. \<open>next\<close> takes a read that fails for a counter never issued: after a
  restart it issues 1 again and overwrites the stored counter with it.
\<close>

lemma failed_read_reissues:
  assumes "st_find ops COUNTER_CATEGORY (ctr_key did dev) st = Inl e"
    and "update_or_save ops (ctr_record (ctr_key did dev) 1 did dev) st = (st', Inr ())"
  shows "\<exists>s. ctr_next ops did dev (ctr_new st) = (s, Inr 1) \<and> ctr_storage s = st'"
  using assms by (simp add: ctr_next_def ctr_new_def Let_def seq_def ctr_cache_def ctr_persist_def)

text \<open>
  \<open>current\<close> reads the storage without a lock and caches what it read: a counter issued in between is
  forgotten and issued again.
\<close>

lemma current_forgets_issued:
  assumes v: "v \<noteq> 0" and key: "key = ctr_key did dev" and load: "ctr_load ops key s = Inr v" "hm_get (ctr_counters s) key = None"
    and put: "update_or_save ops (ctr_record key (v + 1) did dev) (ctr_storage s) = (st, Inr ())"
      "update_or_save ops (ctr_record key (v + 1) did dev) st = (st', Inr ())"
  shows "\<exists>s1 s2. ctr_next ops did dev s = (s1, Inr (v + 1)) \<and> ctr_next ops did dev (ctr_cache key v s1) = (s2, Inr (v + 1))"
proof -
  obtain r where r: "st_find ops COUNTER_CATEGORY key (ctr_storage s) = Inr (Some r)" "ctr_decode (rec_value r) = Inr v"
    using load(1) v by (auto simp: ctr_load_def split: sum.splits option.splits)
  then have "ctr_next ops did dev s = (ctr_cache key (v + 1) s\<lparr>ctr_storage := st\<rparr>, Inr (v + 1))"
    using load(2) put(1) by (simp add: ctr_next_def key Let_def seq_def ctr_cache_def ctr_persist_def)
  moreover have "\<exists>s2. ctr_next ops did dev (ctr_cache key v (ctr_cache key (v + 1) s\<lparr>ctr_storage := st\<rparr>)) = (s2, Inr (v + 1))"
    using v put(2) by (simp add: ctr_next_def key Let_def seq_def ctr_cache_def ctr_persist_def)
  ultimately show ?thesis by blast
qed

text \<open>
  \<open>accept\<close> without a preceding \<open>verify\<close> does not read the stored counter: after a restart it
  accepts a counter again that it had accepted and stored before.
\<close>

theorem accept_replays_after_restart:
  "\<forall>did dev c. c > 0 \<longrightarrow> (\<exists>s s'. ctr_accept memory_ops did dev c (ctr_new []) = (s, Inr ()) \<and>
     ctr_accept memory_ops did dev c (ctr_restart s) = (s', Inr ()))"
  by (simp add: ctr_accept_def ctr_persist_def update_or_save_def ctr_restart_def ctr_new_def ctr_cache_def
      memory_ops_def mem_update_def mem_save_def mem_category_def ctr_record_def record_add_tag_def record_new_def seq_def
      Let_def)

theorem accept_replays_after_restart_witness:
  "\<exists>s s'. ctr_accept memory_ops ''did:a'' ''d'' 5 (ctr_new []) = (s, Inr ()) \<and>
     ctr_accept memory_ops ''did:a'' ''d'' 5 (ctr_restart s) = (s', Inr ())"
  using accept_replays_after_restart by (auto dest!: spec [of _ "''did:a''"] spec [of _ "''d''"] spec [of _ "5"])

text \<open>Two different pairs of subject and device share one counter.\<close>

lemma ctr_key_ambiguous: "ctr_key ''did:web:x'' ''y:z'' = ctr_key ''did:web:x:y'' ''z''"
  by (simp add: ctr_key_def)

end
