(* ===== verification/Signing_Session.thy ===== *)
theory Signing_Session
  imports Signing_Counter Didcomm_Message
begin

text \<open>
  Signing sessions and their coordinator: \<open>state.rs\<close>, \<open>models/\<close>, \<open>events.rs\<close> and
  \<open>coordinator.rs\<close> of \<open>protocols/signing/src\<close>. \<open>serde_json\<close> and \<open>base64\<close> are crates:
  the codecs are the fields of \<open>signing_env\<close>. The event bus is the list of the payloads emitted
  on it. The coordinator and its counter manager share one storage.
\<close>

section \<open>The state of a session\<close>

datatype signing_state =
  Proposed | Requested | Consented | Signing | Combining | Distributing | Completed | Declined | Failed | Abandoned

definition can_transition_to :: "signing_state \<Rightarrow> signing_state \<Rightarrow> bool" where
  "can_transition_to self next \<longleftrightarrow> (self, next) \<in> set
     [(Proposed, Requested), (Requested, Consented), (Consented, Signing), (Signing, Combining),
      (Combining, Distributing), (Combining, Completed), (Distributing, Completed),
      (Proposed, Declined), (Requested, Declined), (Consented, Declined),
      (Proposed, Failed), (Requested, Failed), (Consented, Failed), (Signing, Failed), (Combining, Failed), (Distributing, Failed),
      (Proposed, Abandoned), (Requested, Abandoned), (Consented, Abandoned), (Signing, Abandoned)]"

definition is_terminal :: "signing_state \<Rightarrow> bool" where
  "is_terminal st \<longleftrightarrow> st \<in> {Completed, Declined, Failed, Abandoned}"

definition is_active :: "signing_state \<Rightarrow> bool" where
  "is_active st \<longleftrightarrow> \<not> is_terminal st"

fun signing_state_str :: "signing_state \<Rightarrow> string" where
  "signing_state_str Proposed = ''proposed''"
| "signing_state_str Requested = ''requested''"
| "signing_state_str Consented = ''consented''"
| "signing_state_str Signing = ''signing''"
| "signing_state_str Combining = ''combining''"
| "signing_state_str Distributing = ''distributing''"
| "signing_state_str Completed = ''completed''"
| "signing_state_str Declined = ''declined''"
| "signing_state_str Failed = ''failed''"
| "signing_state_str Abandoned = ''abandoned''"

section \<open>Data\<close>

record canonicalization =
  cn_method :: string
  cn_parameters :: "(string, json) hash_map"

record object_digest =
  dg_alg :: string
  dg_value :: string

record display_hints =
  dh_title :: "string option"
  dh_preview_links :: "string list"

record signable_object =
  so_id :: string
  so_media_type :: string
  so_canonicalization :: "canonicalization option"
  so_digest :: object_digest
  so_display_hints :: "display_hints option"

record suite =
  su_id :: string

record key_binding =
  kb_controller :: string
  kb_proof_purpose :: string

record constraints =
  co_not_before :: "string option"
  co_expires_time :: "string option"
  co_use_limit :: "u32 option"
  co_policy_uri :: "string option"

record threshold_config =
  tc_scheme :: string
  tc_n :: u32
  tc_m :: u32
  tc_signers :: "string list"
  tc_aggregation :: string

record session_mode =
  sm_mode_type :: string

record session_participant =
  sp_did :: string
  sp_key_binding :: "key_binding option"
  sp_connection_id :: "string option"
  sp_consented :: bool
  sp_signed :: bool
  sp_signature :: "string option"

record signing_session =
  ss_session_id :: string
  ss_thread_id :: string
  ss_object :: signable_object
  ss_suite :: suite
  ss_constraints :: "constraints option"
  ss_mode :: session_mode
  ss_threshold :: "threshold_config option"
  ss_state :: signing_state
  ss_participants :: "session_participant list"
  ss_coordinator_did :: string
  ss_created_at :: string
  ss_updated_at :: string
  ss_expires_at :: "string option"
  ss_combined_signature :: "string option"

record authorization_token =
  tk_typ :: string
  tk_session_id :: string
  tk_scope :: string
  tk_device :: string
  tk_ctr :: u64
  tk_exp :: "string option"
  tk_cap :: u32

datatype signing_event =
    SigningStateChanged signing_session "signing_state option"
  | PartialSignatureReceived string string "u32 option"
  | ConsentReceived string string
  | SessionCompleted signing_session string
  | ThresholdMet string u32 u32

record signing_env =
  se_to_vec :: "signing_session \<Rightarrow> string + bytes"
  se_from_slice :: "bytes \<Rightarrow> string + signing_session"
  se_signatures_to_string :: "string list \<Rightarrow> string + string"
  se_b64_encode :: "bytes \<Rightarrow> string"
  se_b64_decode :: "string \<Rightarrow> string + bytes"

section \<open>The coordinator\<close>

definition CATEGORY_SESSION :: string where "CATEGORY_SESSION = ''signing_session''"

record 's coordinator =
  sc_our_did :: string
  sc_storage :: 's
  sc_sessions :: "(string, signing_session) hash_map"
  sc_counters :: "(string, u64) hash_map"
  sc_event_bus :: "signing_event list option"

definition sc_new :: "string \<Rightarrow> 's \<Rightarrow> 's coordinator" where
  "sc_new our_did st = \<lparr>sc_our_did = our_did, sc_storage = st, sc_sessions = [], sc_counters = [], sc_event_bus = None\<rparr>"

definition sc_with_event_bus :: "'s coordinator \<Rightarrow> 's coordinator" where
  "sc_with_event_bus s = s\<lparr>sc_event_bus := Some []\<rparr>"

definition sc_emit :: "signing_event \<Rightarrow> ('s coordinator, signing_error, unit) prog" where
  "sc_emit payload = modify (\<lambda>s. s\<lparr>sc_event_bus := map_option (\<lambda>evs. evs @ [payload]) (sc_event_bus s)\<rparr>)"

definition session_record :: "signing_session \<Rightarrow> bytes \<Rightarrow> storage_record" where
  "session_record session value =
     record_add_tag ''thread_id'' (ss_thread_id session)
       (record_add_tag ''coordinator_did'' (ss_coordinator_did session)
         (record_add_tag ''state'' (signing_state_str (ss_state session))
           (record_new CATEGORY_SESSION (ss_session_id session) value)))"

definition sc_save_session :: "'s storage_ops \<Rightarrow> signing_env \<Rightarrow> signing_session \<Rightarrow> ('s coordinator, signing_error, unit) prog" where
  "sc_save_session ops env session s =
     (case se_to_vec env session of
        Inl e \<Rightarrow> (s, Inl (SerializationError e))
      | Inr value \<Rightarrow>
          (case update_or_save ops (session_record session value) (sc_storage s) of
             (st, r) \<Rightarrow> (s\<lparr>sc_storage := st\<rparr>, r)))"

definition sc_cache :: "string \<Rightarrow> signing_session \<Rightarrow> ('s coordinator, signing_error, unit) prog" where
  "sc_cache session_id session = modify (\<lambda>s. s\<lparr>sc_sessions := hm_insert session_id session (sc_sessions s)\<rparr>)"

text \<open>Every writer saves the session and then caches it under its id.\<close>

definition sc_store ::
  "'s storage_ops \<Rightarrow> signing_env \<Rightarrow> string \<Rightarrow> signing_session \<Rightarrow> ('s coordinator, signing_error, unit) prog" where
  "sc_store ops env session_id session =
     seq (sc_save_session ops env session) (\<lambda>_. sc_cache session_id session)"

definition new_session ::
  "string \<Rightarrow> string \<Rightarrow> string \<Rightarrow> string \<Rightarrow> signable_object \<Rightarrow> suite \<Rightarrow> constraints option \<Rightarrow> session_mode \<Rightarrow>
   threshold_config option \<Rightarrow> session_participant list \<Rightarrow> signing_session" where
  "new_session our_did now session_id thread_id object su cons mode threshold participants =
     \<lparr>ss_session_id = session_id, ss_thread_id = thread_id, ss_object = object, ss_suite = su, ss_constraints = cons,
      ss_mode = mode, ss_threshold = threshold, ss_state = Proposed, ss_participants = participants,
      ss_coordinator_did = our_did, ss_created_at = now, ss_updated_at = now, ss_expires_at = None,
      ss_combined_signature = None\<rparr>"

definition sc_create_session ::
  "'s storage_ops \<Rightarrow> signing_env \<Rightarrow> string \<Rightarrow> string \<Rightarrow> string \<Rightarrow> signable_object \<Rightarrow> suite \<Rightarrow> constraints option \<Rightarrow>
   session_mode \<Rightarrow> threshold_config option \<Rightarrow> session_participant list \<Rightarrow> ('s coordinator, signing_error, signing_session) prog" where
  "sc_create_session ops env now session_id thread_id object su cons mode threshold participants =
     seq (read sc_our_did) (\<lambda>our_did.
     let session = new_session our_did now session_id thread_id object su cons mode threshold participants
     in seq (sc_store ops env session_id session) (\<lambda>_. ok session))"

definition sc_get_session ::
  "'s storage_ops \<Rightarrow> signing_env \<Rightarrow> string \<Rightarrow> ('s coordinator, signing_error, signing_session option) prog" where
  "sc_get_session ops env session_id s =
     (case hm_get (sc_sessions s) session_id of
        Some session \<Rightarrow> (s, Inr (Some session))
      | None \<Rightarrow>
          (case st_find ops CATEGORY_SESSION session_id (sc_storage s) of
             Inl e \<Rightarrow> (s, Inl (StorageError (agent_error_str e)))
           | Inr None \<Rightarrow> (s, Inr None)
           | Inr (Some record) \<Rightarrow>
               (case se_from_slice env (rec_value record) of
                  Inl e \<Rightarrow> (s, Inl (SerializationError e))
                | Inr session \<Rightarrow> seq (sc_cache session_id session) (\<lambda>_. ok (Some session)) s)))"

definition sc_require_session ::
  "'s storage_ops \<Rightarrow> signing_env \<Rightarrow> string \<Rightarrow> ('s coordinator, signing_error, signing_session) prog" where
  "sc_require_session ops env session_id =
     seq (sc_get_session ops env session_id) (\<lambda>x. result (ok_or (SessionNotFound session_id) x))"

definition sc_transition_state ::
  "'s storage_ops \<Rightarrow> signing_env \<Rightarrow> string \<Rightarrow> string \<Rightarrow> signing_state \<Rightarrow> ('s coordinator, signing_error, signing_session) prog" where
  "sc_transition_state ops env now session_id new_state =
     seq (sc_require_session ops env session_id) (\<lambda>session.
     seq (guard (can_transition_to (ss_state session) new_state)
            (InvalidStateTransition (signing_state_str (ss_state session)) (signing_state_str new_state))) (\<lambda>_.
     let previous_state = ss_state session;
         session = session\<lparr>ss_state := new_state, ss_updated_at := now\<rparr>
     in seq (sc_store ops env session_id session) (\<lambda>_.
        seq (sc_emit (SigningStateChanged session (Some previous_state))) (\<lambda>_. ok session))))"

fun decode_active :: "signing_env \<Rightarrow> storage_record list \<Rightarrow> signing_error + signing_session list" where
  "decode_active env [] = Inr []"
| "decode_active env (record # records) =
     (case se_from_slice env (rec_value record) of
        Inl e \<Rightarrow> Inl (SerializationError e)
      | Inr session \<Rightarrow>
          map_sum id (\<lambda>sessions. if is_active (ss_state session) then session # sessions else sessions)
            (decode_active env records))"

definition sc_active_sessions :: "'s storage_ops \<Rightarrow> signing_env \<Rightarrow> ('s coordinator, signing_error, signing_session list) prog" where
  "sc_active_sessions ops env s =
     (s, case st_find_all ops CATEGORY_SESSION query_new (sc_storage s) of
           Inl e \<Rightarrow> Inl (StorageError (agent_error_str e))
         | Inr records \<Rightarrow> decode_active env records)"

section \<open>Collecting consents and signatures\<close>

definition required_signatures :: "signing_session \<Rightarrow> u32" where
  "required_signatures session = (case ss_threshold session of Some t \<Rightarrow> tc_n t | None \<Rightarrow> 1)"

text \<open>\<open>iter_mut().find(..)\<close> followed by an assignment changes the first match.\<close>

fun update_first :: "('a \<Rightarrow> bool) \<Rightarrow> ('a \<Rightarrow> 'a) \<Rightarrow> 'a list \<Rightarrow> 'a list" where
  "update_first P f [] = []"
| "update_first P f (x # xs) = (if P x then f x # xs else x # update_first P f xs)"

definition participant_of :: "signing_session \<Rightarrow> string \<Rightarrow> session_participant option" where
  "participant_of session did = find (\<lambda>p. sp_did p = did) (ss_participants session)"

definition update_participant ::
  "string \<Rightarrow> (session_participant \<Rightarrow> session_participant) \<Rightarrow> string \<Rightarrow> signing_session \<Rightarrow> signing_session" where
  "update_participant did f now session =
     session\<lparr>ss_participants := update_first (\<lambda>p. sp_did p = did) f (ss_participants session), ss_updated_at := now\<rparr>"

definition consented_count :: "signing_session \<Rightarrow> u32" where
  "consented_count session = of_nat (length (filter sp_consented (ss_participants session)))"

definition signed_count :: "signing_session \<Rightarrow> u32" where
  "signed_count session = of_nat (length (filter sp_signed (ss_participants session)))"

definition mark_consented :: "key_binding \<Rightarrow> session_participant \<Rightarrow> session_participant" where
  "mark_consented kb p = p\<lparr>sp_consented := True, sp_key_binding := Some kb\<rparr>"

definition mark_signed :: "string \<Rightarrow> session_participant \<Rightarrow> session_participant" where
  "mark_signed signature p = p\<lparr>sp_signed := True, sp_signature := Some signature\<rparr>"

text \<open>
  Both operations read the session, change their copy and write it back; the read and the rest
  are separate definitions, since the lock is released in between.
\<close>

definition sc_record_consent ::
  "'s storage_ops \<Rightarrow> signing_env \<Rightarrow> string \<Rightarrow> string \<Rightarrow> string \<Rightarrow> key_binding \<Rightarrow> signing_session \<Rightarrow>
   ('s coordinator, signing_error, bool) prog" where
  "sc_record_consent ops env now session_id signer_did kb session =
     seq (result (ok_or (UnknownSigner signer_did) (participant_of session signer_did))) (\<lambda>participant.
     let session = update_participant signer_did (mark_consented kb) now session
     in seq (sc_store ops env session_id session) (\<lambda>_.
        seq (sc_emit (ConsentReceived session_id signer_did)) (\<lambda>_.
        ok (consented_count session \<ge> required_signatures session))))"

definition sc_accept_consent ::
  "'s storage_ops \<Rightarrow> signing_env \<Rightarrow> string \<Rightarrow> string \<Rightarrow> string \<Rightarrow> key_binding \<Rightarrow> ('s coordinator, signing_error, bool) prog" where
  "sc_accept_consent ops env now session_id signer_did kb =
     seq (sc_require_session ops env session_id) (sc_record_consent ops env now session_id signer_did kb)"

definition sc_record_signature ::
  "'s storage_ops \<Rightarrow> signing_env \<Rightarrow> string \<Rightarrow> string \<Rightarrow> string \<Rightarrow> string \<Rightarrow> signing_session \<Rightarrow>
   ('s coordinator, signing_error, bool) prog" where
  "sc_record_signature ops env now session_id signer_did signature session =
     seq (result (ok_or (UnknownSigner signer_did) (participant_of session signer_did))) (\<lambda>participant.
     seq (guard (\<not> sp_signed participant) (DuplicateSigner signer_did)) (\<lambda>_.
     let session = update_participant signer_did (mark_signed signature) now session
     in seq (sc_store ops env session_id session) (\<lambda>_.
        seq (sc_emit (PartialSignatureReceived session_id signer_did None)) (\<lambda>_.
        let signed = signed_count session; required = required_signatures session
        in seq (if signed = required then sc_emit (ThresholdMet session_id required signed) else ok ()) (\<lambda>_.
           ok (signed \<ge> required))))))"

definition sc_accept_partial_signature ::
  "'s storage_ops \<Rightarrow> signing_env \<Rightarrow> string \<Rightarrow> string \<Rightarrow> string \<Rightarrow> string \<Rightarrow> ('s coordinator, signing_error, bool) prog" where
  "sc_accept_partial_signature ops env now session_id signer_did signature =
     seq (sc_require_session ops env session_id) (sc_record_signature ops env now session_id signer_did signature)"

definition collected_signatures :: "signing_session \<Rightarrow> string list" where
  "collected_signatures session = List.map_filter sp_signature (ss_participants session)"

definition sc_combine_signatures ::
  "'s storage_ops \<Rightarrow> signing_env \<Rightarrow> string \<Rightarrow> string \<Rightarrow> ('s coordinator, signing_error, string) prog" where
  "sc_combine_signatures ops env now session_id =
     seq (sc_require_session ops env session_id) (\<lambda>session.
     let signatures = collected_signatures session
     in seq (guard (signatures \<noteq> []) (ThresholdNotMet 0 (required_signatures session))) (\<lambda>_.
        seq (result (map_sum SerializationError id (se_signatures_to_string env signatures))) (\<lambda>combined.
        let combined_b64 = se_b64_encode env (str_bytes combined);
            session = session\<lparr>ss_combined_signature := Some combined_b64, ss_updated_at := now\<rparr>
        in seq (sc_store ops env session_id session) (\<lambda>_.
           seq (sc_emit (SessionCompleted session combined_b64)) (\<lambda>_. ok combined_b64)))))"

section \<open>Tokens\<close>

definition sc_counter_next :: "'s storage_ops \<Rightarrow> string \<Rightarrow> string \<Rightarrow> ('s coordinator, signing_error, u64) prog" where
  "sc_counter_next ops subject_did device s =
     (case ctr_next ops subject_did device \<lparr>ctr_storage = sc_storage s, ctr_counters = sc_counters s\<rparr> of
        (c, r) \<Rightarrow> (s\<lparr>sc_storage := ctr_storage c, sc_counters := ctr_counters c\<rparr>, r))"

definition sc_issue_token ::
  "'s storage_ops \<Rightarrow> string \<Rightarrow> string \<Rightarrow> string \<Rightarrow> string \<Rightarrow> ('s coordinator, signing_error, authorization_token) prog" where
  "sc_issue_token ops session_id scope device subject_did =
     seq (sc_counter_next ops subject_did device) (\<lambda>ctr.
     ok \<lparr>tk_typ = ''signing-ticket'', tk_session_id = session_id, tk_scope = scope, tk_device = device, tk_ctr = ctr,
         tk_exp = None, tk_cap = 1\<rparr>)"

text \<open>The process restarts: only the storage is left.\<close>

definition sc_restart :: "'s coordinator \<Rightarrow> 's coordinator" where
  "sc_restart s = s\<lparr>sc_sessions := [], sc_counters := []\<rparr>"

section \<open>The state machine\<close>

lemma can_transition_cases [simp]:
  "can_transition_to x Proposed \<longleftrightarrow> False" "can_transition_to x Requested \<longleftrightarrow> x = Proposed"
  "can_transition_to x Consented \<longleftrightarrow> x = Requested" "can_transition_to x Signing \<longleftrightarrow> x = Consented"
  "can_transition_to x Combining \<longleftrightarrow> x = Signing" "can_transition_to x Distributing \<longleftrightarrow> x = Combining"
  "can_transition_to x Completed \<longleftrightarrow> x = Combining \<or> x = Distributing"
  by (auto simp: can_transition_to_def)

lemma terminal_no_transition: "is_terminal x \<longleftrightarrow> (\<forall>y. \<not> can_transition_to x y)"
  by (cases x) (auto simp: is_terminal_def can_transition_to_def)

fun state_rank :: "signing_state \<Rightarrow> nat" where
  "state_rank Proposed = 0" | "state_rank Requested = 1" | "state_rank Consented = 2" | "state_rank Signing = 3"
| "state_rank Combining = 4" | "state_rank Distributing = 5" | "state_rank _ = 6"

lemma transition_rank: "can_transition_to x y \<Longrightarrow> state_rank x < state_rank y"
  by (auto simp: can_transition_to_def)

lemma rank_le: "state_rank x \<le> 6"
  by (cases x) auto

lemma path_rank: "successively can_transition_to (x # xs) \<Longrightarrow> state_rank x + length xs \<le> 6"
proof (induction xs arbitrary: x)
  case (Cons y ys)
  then show ?case using transition_rank [of x y] by fastforce
qed (simp add: rank_le)

lemma terminal_states_str:
  "signing_state_str x = signing_state_str y \<Longrightarrow> x = y"
  by (cases x; cases y) simp_all

text \<open>
  A session changes its state at most six times: every chain of permitted transitions is that
  short, and it stops exactly in a terminal state.
\<close>

theorem session_transitions_end:
  assumes "successively can_transition_to (x # xs)"
  shows "length xs \<le> 6 \<and> ((\<forall>y. \<not> successively can_transition_to (x # xs @ [y])) \<longleftrightarrow> is_terminal (last (x # xs)))"
proof -
  have "successively can_transition_to ((x # xs) @ [y]) \<longleftrightarrow> can_transition_to (last (x # xs)) y" for y
    using assms by (subst successively_append_iff) auto
  then show ?thesis using path_rank [OF assms] by (simp add: terminal_no_transition)
qed

theorem session_transitions_end_witness:
  "length [Requested, Consented, Signing, Combining, Distributing, Completed] \<le> 6 \<and>
   ((\<forall>y. \<not> successively can_transition_to (Proposed # [Requested, Consented, Signing, Combining, Distributing, Completed] @ [y]))
     \<longleftrightarrow> is_terminal (last [Proposed, Requested, Consented, Signing, Combining, Distributing, Completed]))"
  by (rule session_transitions_end) simp

section \<open>The sessions a coordinator knows\<close>

text \<open>
  The view of a coordinator is what its storage says; it is coherent when the cache agrees with
  the storage and every session is stored under its own id.
\<close>

definition session_codec_ok :: "signing_env \<Rightarrow> bool" where
  "session_codec_ok env \<longleftrightarrow> (\<forall>x bs. se_to_vec env x = Inr bs \<longrightarrow> se_from_slice env bs = Inr x)"

definition sc_view ::
  "('s \<Rightarrow> string \<Rightarrow> string \<Rightarrow> storage_record option) \<Rightarrow> signing_env \<Rightarrow> 's coordinator \<Rightarrow> string \<Rightarrow> signing_session option" where
  "sc_view content env s sid =
     (case content (sc_storage s) CATEGORY_SESSION sid of
        None \<Rightarrow> None
      | Some r \<Rightarrow> (case se_from_slice env (rec_value r) of Inl _ \<Rightarrow> None | Inr x \<Rightarrow> Some x))"

definition sc_coherent ::
  "('s \<Rightarrow> bool) \<Rightarrow> ('s \<Rightarrow> string \<Rightarrow> string \<Rightarrow> storage_record option) \<Rightarrow> signing_env \<Rightarrow> 's coordinator \<Rightarrow> bool" where
  "sc_coherent sinv content env s \<longleftrightarrow> sinv (sc_storage s) \<and>
     (\<forall>sid x. hm_get (sc_sessions s) sid = Some x \<longrightarrow> sc_view content env s sid = Some x) \<and>
     (\<forall>sid x. sc_view content env s sid = Some x \<longrightarrow> ss_session_id x = sid)"

lemma sc_view_frame [simp]:
  "sc_view content env (s\<lparr>sc_sessions := m\<rparr>) = sc_view content env s"
  "sc_view content env (s\<lparr>sc_event_bus := evs\<rparr>) = sc_view content env s"
  "sc_view content env (s\<lparr>sc_counters := cs\<rparr>) = sc_view content env s"
  by (simp_all add: fun_eq_iff sc_view_def)

lemma sc_emit_eq: "sc_emit ev s = (s\<lparr>sc_event_bus := map_option (\<lambda>evs. evs @ [ev]) (sc_event_bus s)\<rparr>, Inr ())"
  by (simp add: sc_emit_def)

lemma sc_restart_coherent:
  "sc_coherent sinv content env s \<Longrightarrow> sc_coherent sinv content env (sc_restart s)"
  "sc_view content env (sc_restart s) = sc_view content env s"
  by (auto simp: sc_coherent_def sc_restart_def)

text \<open>
  Programs of the coordinator are specified by triples over the view: \<open>at P\<close> says that the
  coordinator is coherent and its view satisfies \<open>P\<close>.
\<close>

definition at_view ::
  "('s \<Rightarrow> bool) \<Rightarrow> ('s \<Rightarrow> string \<Rightarrow> string \<Rightarrow> storage_record option) \<Rightarrow> signing_env \<Rightarrow>
   ((string \<Rightarrow> signing_session option) \<Rightarrow> bool) \<Rightarrow> 's coordinator \<Rightarrow> bool" where
  "at_view sinv content env P s \<longleftrightarrow> sc_coherent sinv content env s \<and> P (sc_view content env s)"

lemma at_view_emit [hoare]: "keeps (at_view sinv content env P) (sc_emit ev)"
  by (simp add: keeps_iff at_view_def sc_emit_eq sc_coherent_def)

context storage_provider
begin

lemma sc_store_triple:
  assumes codec: "session_codec_ok env" and sid: "ss_session_id x = sid"
    and P: "\<And>v. P v \<Longrightarrow> Q (v(sid \<mapsto> x))" "\<And>v. P v \<Longrightarrow> R v"
  shows "triple (at_view inv content env P) (sc_store ops env sid x) (\<lambda>_. at_view inv content env Q) (at_view inv content env R)"
  unfolding triple_def
proof (intro allI impI)
  fix s assume s: "at_view inv content env P s"
  show "case sc_store ops env sid x s of (s', Inl e) \<Rightarrow> at_view inv content env R s' | (s', Inr a) \<Rightarrow> at_view inv content env Q s'"
  proof (cases "se_to_vec env x")
    case (Inl e)
    then show ?thesis using s P(2) by (simp add: sc_store_def seq_def sc_save_session_def at_view_def)
  next
    case (Inr bs)
    obtain st r where us: "update_or_save ops (session_record x bs) (sc_storage s) = (st, r)"
      by (cases "update_or_save ops (session_record x bs) (sc_storage s)")
    have i: "inv (sc_storage s)" using s by (simp add: at_view_def sc_coherent_def)
    note w = update_or_save_cases [OF i us]
    have rec: "rec_category (session_record x bs) = CATEGORY_SESSION" "rec_name (session_record x bs) = sid"
      "rec_value (session_record x bs) = bs"
      by (simp_all add: session_record_def record_add_tag_def record_new_def sid)
    have dec: "se_from_slice env bs = Inr x" using codec Inr by (auto simp: session_codec_ok_def)
    let ?s = "s\<lparr>sc_storage := st\<rparr>"
    let ?c = "?s\<lparr>sc_sessions := hm_insert sid x (sc_sessions s)\<rparr>"
    show ?thesis
    proof (cases r)
      case (Inl e)
      then have v: "sc_view content env ?s = sc_view content env s" using w(3) by (simp add: fun_eq_iff sc_view_def)
      then have "at_view inv content env R ?s" using s w(1) P(2) by (simp add: at_view_def sc_coherent_def)
      then show ?thesis using Inl Inr us by (simp add: sc_store_def seq_def sc_save_session_def)
    next
      case ok: (Inr a)
      then have v: "sc_view content env ?c = (sc_view content env s)(sid \<mapsto> x)" using w(2)
        by (auto simp: fun_eq_iff sc_view_def rec dec)
      then have "at_view inv content env Q ?c" using s w(1) P(1) sid by (simp add: at_view_def sc_coherent_def)
      then show ?thesis using ok Inr us by (simp add: sc_store_def seq_def sc_save_session_def sc_cache_def)
    qed
  qed
qed

lemma sc_get_session_triple:
  "triple (at_view inv content env P) (sc_get_session ops env sid) (\<lambda>r. at_view inv content env (\<lambda>v. P v \<and> r = v sid)) (at_view inv content env P)"
  unfolding triple_def
proof (intro allI impI)
  fix s assume s: "at_view inv content env P s"
  then have i: "inv (sc_storage s)" and c: "\<And>x. hm_get (sc_sessions s) sid = Some x \<Longrightarrow> sc_view content env s sid = Some x"
    by (auto simp: at_view_def sc_coherent_def)
  have put: "at_view inv content env P (s\<lparr>sc_sessions := hm_insert sid x (sc_sessions s)\<rparr>)" if "sc_view content env s sid = Some x" for x
    using s that by (auto simp: at_view_def sc_coherent_def)
  show "case sc_get_session ops env sid s of (s', Inl e) \<Rightarrow> at_view inv content env P s'
    | (s', Inr r) \<Rightarrow> at_view inv content env (\<lambda>v. P v \<and> r = v sid) s'"
    using s c find_ok [OF i, of CATEGORY_SESSION sid] put
    by (auto simp: sc_get_session_def seq_def sc_cache_def at_view_def sc_view_def split: option.splits sum.splits)
qed

lemma sc_require_session_triple:
  "triple (at_view inv content env P) (sc_require_session ops env sid)
     (\<lambda>x. at_view inv content env (\<lambda>v. P v \<and> v sid = Some x)) (at_view inv content env P)"
  unfolding sc_require_session_def
proof (rule triple_seq [OF sc_get_session_triple])
  show "triple (at_view inv content env (\<lambda>v. P v \<and> r = v sid)) (result (ok_or (SessionNotFound sid) r))
     (\<lambda>x. at_view inv content env (\<lambda>v. P v \<and> v sid = Some x)) (at_view inv content env P)" for r
    by (cases r) (auto simp: triple_def at_view_def)
qed

end

end
