(* ===== verification/Signing_Sealing.thy ===== *)
theory Signing_Sealing
  imports Signing_Counter Dcx_Channel
begin

text \<open>
  Sealed secrets of the signing protocol: \<open>hpke.rs\<close>, \<open>models/sealed_secret.rs\<close> and the two
  sealing operations of \<open>coordinator.rs\<close> in \<open>protocols/signing/src\<close>. X25519 and HKDF are the
  fields of a crypto suite, AES-256-GCM is an AEAD, and the codecs of \<open>serde_json\<close> and
  \<open>base64\<close> are functions; the ephemeral secret drawn from the system's generator is an argument.
\<close>

record hpke_env =
  hp_suite :: crypto_suite
  hp_public :: "bytes \<Rightarrow> bytes"
  hp_aead :: aead
  hp_aad_to_vec :: "string \<Rightarrow> string \<Rightarrow> string \<Rightarrow> string + bytes"
  hp_b64_encode :: "bytes \<Rightarrow> string"
  hp_b64_decode :: "string \<Rightarrow> string + bytes"

definition HPKE_INFO :: string where "HPKE_INFO = ''didcomm.org/signing/1.0/sealed-secret''"
definition HPKE_NONCE_INFO :: string where "HPKE_NONCE_INFO = ''didcomm.org/signing/1.0/nonce''"

text \<open>The outputs of 32 and 12 bytes are within what HKDF-SHA256 expands, so neither step fails.\<close>

definition hpke_derive_key_and_nonce :: "hpke_env \<Rightarrow> bytes \<Rightarrow> bytes \<Rightarrow> bytes \<Rightarrow> string \<Rightarrow> signing_error + (bytes \<times> bytes)" where
  "hpke_derive_key_and_nonce he shared_secret ephemeral_pk recipient_pk info =
     (let ikm = shared_secret @ ephemeral_pk @ recipient_pk
      in case hkdf_expand (hp_suite he) None ikm info 32 of
           None \<Rightarrow> Inl (HpkeError ''HKDF key expand: '')
         | Some aes_key \<Rightarrow>
             (case hkdf_expand (hp_suite he) None ikm HPKE_NONCE_INFO 12 of
                None \<Rightarrow> Inl (HpkeError ''HKDF nonce expand: '')
              | Some nonce_bytes \<Rightarrow> Inr (aes_key, nonce_bytes)))"

definition hpke_seal_with_info ::
  "hpke_env \<Rightarrow> bytes \<Rightarrow> bytes \<Rightarrow> bytes \<Rightarrow> bytes \<Rightarrow> string \<Rightarrow> signing_error + (bytes \<times> bytes)" where
  "hpke_seal_with_info he eph_secret recipient_pk plaintext aad info =
     (let eph_public = hp_public he eph_secret;
          shared_secret = cs_dh (hp_suite he) eph_secret recipient_pk
      in case hpke_derive_key_and_nonce he shared_secret eph_public recipient_pk info of
           Inl e \<Rightarrow> Inl e
         | Inr (aes_key, nonce) \<Rightarrow>
             (case ae_encrypt (hp_aead he) aes_key nonce aad plaintext of
                None \<Rightarrow> Inl (HpkeError ''AES encrypt: '')
              | Some ciphertext \<Rightarrow> Inr (eph_public, ciphertext)))"

definition hpke_seal :: "hpke_env \<Rightarrow> bytes \<Rightarrow> bytes \<Rightarrow> bytes \<Rightarrow> bytes \<Rightarrow> signing_error + (bytes \<times> bytes)" where
  "hpke_seal he eph_secret recipient_pk plaintext aad = hpke_seal_with_info he eph_secret recipient_pk plaintext aad HPKE_INFO"

definition hpke_unseal_with_info ::
  "hpke_env \<Rightarrow> bytes \<Rightarrow> bytes \<Rightarrow> bytes \<Rightarrow> bytes \<Rightarrow> string \<Rightarrow> signing_error + bytes" where
  "hpke_unseal_with_info he recipient_sk ephemeral_pk ciphertext aad info =
     (let shared_secret = cs_dh (hp_suite he) recipient_sk ephemeral_pk;
          recipient_pk = hp_public he recipient_sk
      in case hpke_derive_key_and_nonce he shared_secret ephemeral_pk recipient_pk info of
           Inl e \<Rightarrow> Inl e
         | Inr (aes_key, nonce) \<Rightarrow>
             (case ae_decrypt (hp_aead he) aes_key nonce aad ciphertext of
                None \<Rightarrow> Inl (HpkeError ''AES decrypt: '')
              | Some plaintext \<Rightarrow> Inr plaintext))"

definition hpke_unseal :: "hpke_env \<Rightarrow> bytes \<Rightarrow> bytes \<Rightarrow> bytes \<Rightarrow> bytes \<Rightarrow> signing_error + bytes" where
  "hpke_unseal he recipient_sk ephemeral_pk ciphertext aad = hpke_unseal_with_info he recipient_sk ephemeral_pk ciphertext aad HPKE_INFO"

record hpke_enc_params =
  ep_kem :: string
  ep_kdf :: string
  ep_aead :: string
  ep_ek_pub :: string

definition enc_params_default :: hpke_enc_params where
  "enc_params_default = \<lparr>ep_kem = ''X25519'', ep_kdf = ''HKDF-SHA256'', ep_aead = ''AES-256-GCM'', ep_ek_pub = []\<rparr>"

record hpke_aad =
  ha_ticket_digest :: string
  ha_session_id :: string
  ha_device :: string

record sealed_secret =
  sl_envelope_type :: string
  sl_suite :: string
  sl_aad :: hpke_aad
  sl_ciphertext :: string
  sl_enc :: hpke_enc_params

definition SEALED_SECRET_TYPE :: string where "SEALED_SECRET_TYPE = ''sealed-secret@1''"
definition SEALED_SECRET_SUITE :: string where "SEALED_SECRET_SUITE = ''envelope-hpke@1''"

definition create_sealed_secret ::
  "hpke_env \<Rightarrow> bytes \<Rightarrow> bytes \<Rightarrow> bytes \<Rightarrow> string \<Rightarrow> string \<Rightarrow> string \<Rightarrow> signing_error + sealed_secret" where
  "create_sealed_secret he eph_secret recipient_pk plaintext session_id device ticket_digest =
     (case hp_aad_to_vec he ticket_digest session_id device of
        Inl e \<Rightarrow> Inl (SerializationError e)
      | Inr aad_data \<Rightarrow>
          (case hpke_seal he eph_secret recipient_pk plaintext aad_data of
             Inl e \<Rightarrow> Inl e
           | Inr (eph_pk, ciphertext) \<Rightarrow>
               Inr \<lparr>sl_envelope_type = SEALED_SECRET_TYPE, sl_suite = SEALED_SECRET_SUITE,
                    sl_aad = \<lparr>ha_ticket_digest = ticket_digest, ha_session_id = session_id, ha_device = device\<rparr>,
                    sl_ciphertext = hp_b64_encode he ciphertext,
                    sl_enc = enc_params_default\<lparr>ep_ek_pub := hp_b64_encode he eph_pk\<rparr>\<rparr>))"

definition unseal_secret :: "hpke_env \<Rightarrow> sealed_secret \<Rightarrow> bytes \<Rightarrow> signing_error + bytes" where
  "unseal_secret he sealed recipient_sk =
     (case hp_aad_to_vec he (ha_ticket_digest (sl_aad sealed)) (ha_session_id (sl_aad sealed)) (ha_device (sl_aad sealed)) of
        Inl e \<Rightarrow> Inl (SerializationError e)
      | Inr aad_data \<Rightarrow>
          (case hp_b64_decode he (ep_ek_pub (sl_enc sealed)) of
             Inl e \<Rightarrow> Inl (HpkeError (''base64 decode ek_pub: '' @ e))
           | Inr eph_pk \<Rightarrow>
               (case hp_b64_decode he (sl_ciphertext sealed) of
                  Inl e \<Rightarrow> Inl (HpkeError (''base64 decode ciphertext: '' @ e))
                | Inr ciphertext \<Rightarrow>
                    if length eph_pk \<noteq> 32 then Inl (HpkeError ''invalid ephemeral public key length'')
                    else hpke_unseal he recipient_sk eph_pk ciphertext aad_data)))"

section \<open>What sealing guarantees\<close>

text \<open>
  What the crates promise: public keys have 32 bytes, the two ends of a Diffie-Hellman exchange
  agree, and decoding base64 inverts encoding.
\<close>

definition hpke_env_ok :: "hpke_env \<Rightarrow> bool" where
  "hpke_env_ok he \<longleftrightarrow>
     (\<forall>a b. cs_dh (hp_suite he) a (hp_public he b) = cs_dh (hp_suite he) b (hp_public he a)) \<and>
     (\<forall>a. length (hp_public he a) = 32) \<and> (\<forall>bs. hp_b64_decode he (hp_b64_encode he bs) = Inr bs)"

text \<open>
  A secret can be sealed for every recipient's public key, and \<open>unseal_secret\<close> with the
  recipient's secret key returns its plaintext.
\<close>

theorem sealed_secret_roundtrip:
  assumes he: "hpke_env_ok he" "aead_correct (hp_aead he)" "aead_total (hp_aead he)"
    and aad: "hp_aad_to_vec he digest session_id device = Inr aad"
  shows "\<exists>sealed. create_sealed_secret he eph (hp_public he sk) plaintext session_id device digest = Inr sealed \<and>
    unseal_secret he sealed sk = Inr plaintext"
proof -
  let ?s = "hp_suite he" and ?pk = "hp_public he sk" and ?e = "hp_public he eph"
  have agree: "cs_dh ?s sk ?e = cs_dh ?s eph ?pk" using he(1) unfolding hpke_env_ok_def by blast
  obtain k n where d: "hpke_derive_key_and_nonce he (cs_dh ?s eph ?pk) ?e ?pk HPKE_INFO = Inr (k, n)"
    by (simp add: hpke_derive_key_and_nonce_def hkdf_expand_def Let_def)
  obtain ct where ct: "ae_encrypt (hp_aead he) k n aad plaintext = Some ct" using he(3) unfolding aead_total_def by blast
  then have "ae_decrypt (hp_aead he) k n aad ct = Some plaintext" using he(2) unfolding aead_correct_def by blast
  then show ?thesis using he(1) d ct agree aad
    by (simp add: create_sealed_secret_def unseal_secret_def hpke_seal_def hpke_seal_with_info_def hpke_unseal_def
        hpke_unseal_with_info_def hpke_env_ok_def enc_params_default_def Let_def)
qed

definition demo_hpke :: hpke_env where
  "demo_hpke = \<lparr>hp_suite = \<lparr>cs_sha256 = id, cs_hkdf = (\<lambda>_ ikm info n. take n (ikm @ info)), cs_dh = (\<lambda>a b. [])\<rparr>,
     hp_public = (\<lambda>sk. take 32 (sk @ replicate 32 0)), hp_aead = tag_aead,
     hp_aad_to_vec = (\<lambda>d s v. Inr (str_bytes (d @ s @ v))), hp_b64_encode = bytes_str, hp_b64_decode = (\<lambda>t. Inr (str_bytes t))\<rparr>"

theorem sealed_secret_roundtrip_witness:
  "\<exists>sealed. create_sealed_secret demo_hpke [1] (hp_public demo_hpke [2]) [3, 4] ''s'' ''d'' ''t'' = Inr sealed \<and>
    unseal_secret demo_hpke sealed [2] = Inr [3, 4]"
proof (rule sealed_secret_roundtrip)
  show "aead_total (hp_aead demo_hpke)" by (simp add: demo_hpke_def aead_total_def tag_aead_def)
qed (auto simp: demo_hpke_def hpke_env_ok_def tag_aead_ok)

text \<open>
  A sealed secret whose bound data was changed does not open to anything that was not sealed for
  that data: what \<open>unseal_secret\<close> returns was encrypted with the digest, session and device that
  the envelope states.
\<close>

theorem unsealed_was_sealed_for:
  assumes "aead_tight (hp_aead he)" and "unseal_secret he sealed sk = Inr plaintext"
  shows "\<exists>aad k n ct. hp_aad_to_vec he (ha_ticket_digest (sl_aad sealed)) (ha_session_id (sl_aad sealed)) (ha_device (sl_aad sealed)) = Inr aad \<and>
    hp_b64_decode he (sl_ciphertext sealed) = Inr ct \<and> ae_encrypt (hp_aead he) k n aad plaintext = Some ct"
proof -
  from assms(2) obtain aad ct k n where
    "hp_aad_to_vec he (ha_ticket_digest (sl_aad sealed)) (ha_session_id (sl_aad sealed)) (ha_device (sl_aad sealed)) = Inr aad"
    "hp_b64_decode he (sl_ciphertext sealed) = Inr ct" "ae_decrypt (hp_aead he) k n aad ct = Some plaintext"
    by (auto simp: unseal_secret_def hpke_unseal_def hpke_unseal_with_info_def Let_def
        split: sum.splits option.splits prod.splits if_splits)
  then show ?thesis using assms(1) unfolding aead_tight_def by metis
qed

theorem unsealed_was_sealed_for_witness:
  "\<exists>sealed :: sealed_secret. \<exists>aad k n ct. hp_aad_to_vec demo_hpke (ha_ticket_digest (sl_aad sealed)) (ha_session_id (sl_aad sealed)) (ha_device (sl_aad sealed)) = Inr aad \<and>
    hp_b64_decode demo_hpke (sl_ciphertext sealed) = Inr ct \<and> ae_encrypt (hp_aead demo_hpke) k n aad [3] = Some ct"
proof -
  let ?s = "\<lparr>sl_envelope_type = [], sl_suite = [], sl_aad = \<lparr>ha_ticket_digest = [], ha_session_id = [], ha_device = []\<rparr>,
    sl_ciphertext = bytes_str ([3] @ replicate 16 7), sl_enc = enc_params_default\<lparr>ep_ek_pub := bytes_str (replicate 32 0)\<rparr>\<rparr>"
  have u: "unseal_secret demo_hpke ?s [2] = Inr [3]"
    by (simp add: unseal_secret_def hpke_unseal_def hpke_unseal_with_info_def hpke_derive_key_and_nonce_def hkdf_expand_def
        demo_hpke_def tag_aead_def enc_params_default_def Let_def)
  have t: "aead_tight (hp_aead demo_hpke)" by (simp add: demo_hpke_def tag_aead_ok)
  show ?thesis by (rule exI [of _ ?s], rule unsealed_was_sealed_for [OF t u])
qed

end
