(* ===== verification/Signing_Handler.thy ===== *)
theory Signing_Handler
  imports Signing_Session Signing_Sealing
begin

text \<open>
  The message handler of the signing protocol: \<open>messages/\<close>, \<open>types.rs\<close> and \<open>handler.rs\<close> of
  \<open>protocols/signing/src\<close>. The derived deserialisers of the message bodies are the fields of
  \<open>signing_codec\<close>. Clock readings are the values of \<open>nows\<close>, one per reading, and \<open>uuid\<close> is the
  id drawn for an answer. Logging is left out.
\<close>

definition PIURI_PROPOSE_SIGNING :: string where "PIURI_PROPOSE_SIGNING = ''https://didcomm.org/signing/1.0/propose-signing''"
definition PIURI_REQUEST_SIGNING :: string where "PIURI_REQUEST_SIGNING = ''https://didcomm.org/signing/1.0/request-signing''"
definition PIURI_CONSENT :: string where "PIURI_CONSENT = ''https://didcomm.org/signing/1.0/consent''"
definition PIURI_PARTIAL_SIGNATURE :: string where "PIURI_PARTIAL_SIGNATURE = ''https://didcomm.org/signing/1.0/partial-signature''"
definition PIURI_COMBINE :: string where "PIURI_COMBINE = ''https://didcomm.org/signing/1.0/combine''"
definition PIURI_PROVIDE_ARTIFACTS :: string where "PIURI_PROVIDE_ARTIFACTS = ''https://didcomm.org/signing/1.0/provide-artifacts''"
definition PIURI_ISSUE_TOKEN :: string where "PIURI_ISSUE_TOKEN = ''https://didcomm.org/signing/1.0/issue-token''"
definition PIURI_ACK :: string where "PIURI_ACK = ''https://didcomm.org/signing/1.0/ack''"
definition PIURI_DECLINE :: string where "PIURI_DECLINE = ''https://didcomm.org/signing/1.0/decline''"
definition PIURI_PROBLEM_REPORT :: string where "PIURI_PROBLEM_REPORT = ''https://didcomm.org/signing/1.0/problem-report''"

lemmas piuri_defs = PIURI_PROPOSE_SIGNING_def PIURI_REQUEST_SIGNING_def PIURI_CONSENT_def PIURI_PARTIAL_SIGNATURE_def
  PIURI_COMBINE_def PIURI_PROVIDE_ARTIFACTS_def PIURI_ISSUE_TOKEN_def PIURI_ACK_def PIURI_DECLINE_def PIURI_PROBLEM_REPORT_def

definition SUPPORTED_TYPES :: "string list" where
  "SUPPORTED_TYPES = [PIURI_PROPOSE_SIGNING, PIURI_REQUEST_SIGNING, PIURI_CONSENT, PIURI_PARTIAL_SIGNATURE, PIURI_COMBINE,
     PIURI_PROVIDE_ARTIFACTS, PIURI_ISSUE_TOKEN, PIURI_ACK, PIURI_DECLINE, PIURI_PROBLEM_REPORT]"

section \<open>Message bodies\<close>

record propose_signing =
  pp_session_id :: string
  pp_object :: signable_object
  pp_suite :: suite
  pp_key_binding :: "key_binding option"
  pp_constraints :: "constraints option"
  pp_mode :: "session_mode option"
  pp_threshold :: "threshold_config option"

record request_signing =
  rq_session_id :: string
  rq_object :: signable_object
  rq_suite :: suite
  rq_key_binding :: "key_binding option"
  rq_constraints :: "constraints option"
  rq_mode :: session_mode
  rq_threshold :: "threshold_config option"
  rq_sealed_secret :: "sealed_secret option"

record consent =
  cs_session_id :: string
  cs_signer_did :: string
  cs_key_binding :: key_binding
  cs_accepted_suite :: suite

record partial_signature =
  ps_session_id :: string
  ps_signer_did :: string
  ps_signer_index :: u32
  ps_signature :: string
  ps_suite :: suite
  ps_object_digest :: string

record combine =
  cb_session_id :: string
  cb_combined_signature :: string
  cb_suite :: suite
  cb_object_digest :: string
  cb_participant_count :: u32

record provide_artifacts =
  pa_session_id :: string
  pa_combined_signature :: string
  pa_sealed_secrets :: "sealed_secret list"

record token_signature =
  ts_suite :: string
  ts_kid :: string
  ts_value :: string

record signed_authorization_token =
  st_token :: authorization_token
  st_sig :: token_signature

record issue_token =
  it_session_id :: string
  it_token :: signed_authorization_token
  it_sealed_secret :: "sealed_secret option"

record ack =
  ak_session_id :: string
  ak_status :: string

record decline =
  dc_session_id :: string
  dc_decliner_did :: string
  dc_reason :: "string option"

record problem_report =
  pr_session_id :: string
  pr_reporter_did :: string
  pr_code :: string
  pr_description :: string
  pr_details :: "json option"

record signing_codec =
  cd_propose :: "json \<Rightarrow> string + propose_signing"
  cd_request :: "json \<Rightarrow> string + request_signing"
  cd_consent :: "json \<Rightarrow> string + consent"
  cd_partial_signature :: "json \<Rightarrow> string + partial_signature"
  cd_combine :: "json \<Rightarrow> string + combine"
  cd_provide_artifacts :: "json \<Rightarrow> string + provide_artifacts"
  cd_issue_token :: "json \<Rightarrow> string + issue_token"
  cd_ack :: "json \<Rightarrow> string + ack"
  cd_decline :: "json \<Rightarrow> string + decline"
  cd_problem_report :: "json \<Rightarrow> string + problem_report"

definition ack_value :: "ack \<Rightarrow> json" where
  "ack_value a = JObject [(''session_id'', JString (ak_session_id a)), (''status'', JString (ak_status a))]"

definition combine_value :: "combine \<Rightarrow> json" where
  "combine_value c = JObject [(''session_id'', JString (cb_session_id c)), (''combined_signature'', JString (cb_combined_signature c)),
     (''suite'', JObject [(''id'', JString (su_id (cb_suite c)))]), (''object_digest'', JString (cb_object_digest c)),
     (''participant_count'', JInt (uint (cb_participant_count c)))]"

section \<open>Errors as text\<close>

fun signing_error_str :: "signing_error \<Rightarrow> string" where
  "signing_error_str (InvalidMessageType m) = ''Invalid message type: '' @ m"
| "signing_error_str (InvalidBody m) = ''Invalid message body: '' @ m"
| "signing_error_str (SessionNotFound m) = ''Session not found: '' @ m"
| "signing_error_str (InvalidStateTransition f t) = ''Invalid state transition: '' @ f @ '' -> '' @ t"
| "signing_error_str (ThresholdNotMet have need) = ''Threshold not met: have '' @ nat_str (unat have) @ '', need '' @ nat_str (unat need)"
| "signing_error_str (HpkeError m) = ''HPKE error: '' @ m"
| "signing_error_str (CounterReplay c l) = ''Counter replay detected: counter '' @ u64_str c @ '' not greater than last seen '' @ u64_str l"
| "signing_error_str (TokenVerificationFailed m) = ''Token verification failed: '' @ m"
| "signing_error_str (SignatureError m) = ''Signature error: '' @ m"
| "signing_error_str (StorageError m) = ''Storage error: '' @ m"
| "signing_error_str (SerializationError m) = ''Serialization error: '' @ m"
| "signing_error_str SessionExpired = ''Session expired''"
| "signing_error_str (Unauthorized m) = ''Unauthorized: '' @ m"
| "signing_error_str (DuplicateSigner m) = ''Duplicate signer: '' @ m"
| "signing_error_str (UnknownSigner m) = ''Unknown signer: '' @ m"
| "signing_error_str (SigningInternal m) = ''Internal error: '' @ m"

section \<open>Handlers\<close>

type_synonym 's signing_prog = "('s coordinator, signing_error, message option) prog"

definition parse_body :: "(json \<Rightarrow> string + 'b) \<Rightarrow> inbound_message \<Rightarrow> ('s coordinator, signing_error, 'b) prog" where
  "parse_body decode i = result (map_sum SerializationError id (decode (msg_body (in_message i))))"

definition require_claimed_sender :: "inbound_message \<Rightarrow> string \<Rightarrow> signing_error + string" where
  "require_claimed_sender i claimed_did =
     (if \<not> cx_authenticated (in_context i) then Inl (Unauthorized ''signing protocol requires authcrypt'')
      else case cx_from (in_context i) of
             None \<Rightarrow> Inl (Unauthorized ''authenticated sender is missing'')
           | Some sender \<Rightarrow>
               if sender \<noteq> claimed_did
               then Inl (Unauthorized (''claimed signer '' @ claimed_did @ '' does not match authenticated sender '' @ sender))
               else Inr sender)"

definition create_response :: "string \<Rightarrow> message \<Rightarrow> string \<Rightarrow> json \<Rightarrow> ('s coordinator, signing_error, message) prog" where
  "create_response uuid request ty body =
     seq (read sc_our_did) (\<lambda>our_did.
     let response = (builder_new uuid ty)\<lparr>msg_body := body, msg_from := Some our_did\<rparr>
     in ok (builder_thread (message_thread_id request) response))"

definition unsigned_participant :: "string option \<Rightarrow> string \<Rightarrow> session_participant" where
  "unsigned_participant connection_id did =
     \<lparr>sp_did = did, sp_key_binding = None, sp_connection_id = connection_id, sp_consented = False, sp_signed = False,
      sp_signature = None\<rparr>"

definition initial_participants :: "threshold_config option \<Rightarrow> string \<Rightarrow> inbound_message \<Rightarrow> session_participant list" where
  "initial_participants threshold single i =
     (case threshold of
        Some t \<Rightarrow> map (unsigned_participant None) (tc_signers t)
      | None \<Rightarrow> [unsigned_participant (cx_connection_id (in_context i)) single])"

definition handle_propose_signing ::
  "'s storage_ops \<Rightarrow> signing_env \<Rightarrow> signing_codec \<Rightarrow> (nat \<Rightarrow> string) \<Rightarrow> string \<Rightarrow> inbound_message \<Rightarrow> 's signing_prog" where
  "handle_propose_signing ops env cd nows uuid i =
     seq (parse_body (cd_propose cd) i) (\<lambda>body.
     let from = (case cx_from (in_context i) of None \<Rightarrow> ''unknown'' | Some f \<Rightarrow> f);
         participants = initial_participants (pp_threshold body) from i;
         mode = (case pp_mode body of
                   Some m \<Rightarrow> m
                 | None \<Rightarrow> \<lparr>sm_mode_type = (if pp_threshold body \<noteq> None then ''threshold'' else ''single'')\<rparr>)
     in seq (sc_create_session ops env (nows 0) (pp_session_id body) (message_thread_id (in_message i)) (pp_object body)
               (pp_suite body) (pp_constraints body) mode (pp_threshold body) participants) (\<lambda>_.
        seq (create_response uuid (in_message i) PIURI_ACK
               (ack_value \<lparr>ak_session_id = pp_session_id body, ak_status = ''proposed''\<rparr>)) (\<lambda>response.
        ok (Some response))))"

definition handle_request_signing ::
  "'s storage_ops \<Rightarrow> signing_env \<Rightarrow> signing_codec \<Rightarrow> (nat \<Rightarrow> string) \<Rightarrow> inbound_message \<Rightarrow> 's signing_prog" where
  "handle_request_signing ops env cd nows i =
     seq (parse_body (cd_request cd) i) (\<lambda>body.
     seq (read sc_our_did) (\<lambda>our_did.
     let participants = initial_participants (rq_threshold body) our_did i
     in seq (sc_create_session ops env (nows 0) (rq_session_id body) (message_thread_id (in_message i)) (rq_object body)
               (rq_suite body) (rq_constraints body) (rq_mode body) (rq_threshold body) participants) (\<lambda>_.
        seq (sc_transition_state ops env (nows 1) (rq_session_id body) Requested) (\<lambda>_. ok None))))"

definition handle_consent ::
  "'s storage_ops \<Rightarrow> signing_env \<Rightarrow> signing_codec \<Rightarrow> (nat \<Rightarrow> string) \<Rightarrow> inbound_message \<Rightarrow> 's signing_prog" where
  "handle_consent ops env cd nows i =
     seq (parse_body (cd_consent cd) i) (\<lambda>body.
     seq (result (require_claimed_sender i (cs_signer_did body))) (\<lambda>_.
     seq (guard (kb_controller (cs_key_binding body) = cs_signer_did body)
            (Unauthorized ''key binding controller does not match signer'')) (\<lambda>_.
     seq (sc_require_session ops env (cs_session_id body)) (\<lambda>session.
     seq (guard (su_id (cs_accepted_suite body) = su_id (ss_suite session))
            (SignatureError ''accepted suite does not match signing session'')) (\<lambda>_.
     seq (sc_accept_consent ops env (nows 0) (cs_session_id body) (cs_signer_did body) (cs_key_binding body)) (\<lambda>all_consented.
     if all_consented
     then seq (sc_transition_state ops env (nows 1) (cs_session_id body) Consented) (\<lambda>_.
          seq (sc_transition_state ops env (nows 2) (cs_session_id body) Signing) (\<lambda>_. ok None))
     else ok None))))))"

fun position :: "('a \<Rightarrow> bool) \<Rightarrow> 'a list \<Rightarrow> nat option" where
  "position P [] = None"
| "position P (x # xs) = (if P x then Some 0 else map_option Suc (position P xs))"

definition expected_index :: "signing_session \<Rightarrow> string \<Rightarrow> u32 option" where
  "expected_index session did = map_option (\<lambda>index. of_nat index + 1) (position (\<lambda>p. sp_did p = did) (ss_participants session))"

definition handle_partial_signature ::
  "'s storage_ops \<Rightarrow> signing_env \<Rightarrow> signing_codec \<Rightarrow> (nat \<Rightarrow> string) \<Rightarrow> string \<Rightarrow> inbound_message \<Rightarrow> 's signing_prog" where
  "handle_partial_signature ops env cd nows uuid i =
     seq (parse_body (cd_partial_signature cd) i) (\<lambda>body.
     seq (result (require_claimed_sender i (ps_signer_did body))) (\<lambda>_.
     seq (sc_require_session ops env (ps_session_id body)) (\<lambda>session.
     seq (guard (su_id (ps_suite body) = su_id (ss_suite session) \<and> ps_object_digest body = dg_value (so_digest (ss_object session)))
            (SignatureError ''partial signature is not bound to this suite and object'')) (\<lambda>_.
     seq (result (ok_or (UnknownSigner (ps_signer_did body)) (expected_index session (ps_signer_did body)))) (\<lambda>expected.
     seq (guard (ps_signer_index body = expected)
            (SignatureError ''partial signature signer index does not match participant'')) (\<lambda>_.
     seq (result (map_sum (\<lambda>_. SignatureError ''invalid signature encoding'') id (se_b64_decode env (ps_signature body)))) (\<lambda>signature_bytes.
     seq (guard (signature_bytes \<noteq> []) (SignatureError ''empty partial signature'')) (\<lambda>_.
     seq (sc_accept_partial_signature ops env (nows 0) (ps_session_id body) (ps_signer_did body) (ps_signature body)) (\<lambda>threshold_reached.
     if threshold_reached
     then seq (sc_transition_state ops env (nows 1) (ps_session_id body) Combining) (\<lambda>_.
          seq (sc_combine_signatures ops env (nows 2) (ps_session_id body)) (\<lambda>combined.
          seq (sc_require_session ops env (ps_session_id body)) (\<lambda>session.
          let combine_body = \<lparr>cb_session_id = ps_session_id body, cb_combined_signature = combined, cb_suite = ss_suite session,
                              cb_object_digest = dg_value (so_digest (ss_object session)), cb_participant_count = signed_count session\<rparr>
          in seq (sc_transition_state ops env (nows 3) (ps_session_id body) Distributing) (\<lambda>_.
             seq (create_response uuid (in_message i) PIURI_COMBINE (combine_value combine_body)) (\<lambda>response.
             ok (Some response))))))
     else ok None)))))))))"

text \<open>\<open>handle_combine\<close> changes a copy of the session and drops it.\<close>

definition handle_combine ::
  "'s storage_ops \<Rightarrow> signing_env \<Rightarrow> signing_codec \<Rightarrow> string \<Rightarrow> inbound_message \<Rightarrow> 's signing_prog" where
  "handle_combine ops env cd uuid i =
     seq (parse_body (cd_combine cd) i) (\<lambda>body.
     seq (sc_get_session ops env (cb_session_id body)) (\<lambda>session.
     seq (create_response uuid (in_message i) PIURI_ACK (ack_value \<lparr>ak_session_id = cb_session_id body, ak_status = ''OK''\<rparr>)) (\<lambda>response.
     ok (Some response))))"

definition handle_provide_artifacts :: "signing_codec \<Rightarrow> string \<Rightarrow> inbound_message \<Rightarrow> 's signing_prog" where
  "handle_provide_artifacts cd uuid i =
     seq (parse_body (cd_provide_artifacts cd) i) (\<lambda>body.
     seq (create_response uuid (in_message i) PIURI_ACK (ack_value \<lparr>ak_session_id = pa_session_id body, ak_status = ''OK''\<rparr>)) (\<lambda>response.
     ok (Some response)))"

definition handle_issue_token :: "signing_codec \<Rightarrow> inbound_message \<Rightarrow> 's signing_prog" where
  "handle_issue_token cd i =
     seq (parse_body (cd_issue_token cd) i) (\<lambda>body.
     raise (TokenVerificationFailed ''authorization-token signature verifier is not configured''))"

definition handle_ack ::
  "'s storage_ops \<Rightarrow> signing_env \<Rightarrow> signing_codec \<Rightarrow> (nat \<Rightarrow> string) \<Rightarrow> inbound_message \<Rightarrow> 's signing_prog" where
  "handle_ack ops env cd nows i =
     seq (parse_body (cd_ack cd) i) (\<lambda>body.
     seq (sc_get_session ops env (ak_session_id body)) (\<lambda>found.
     seq (case found of
            None \<Rightarrow> ok ()
          | Some session \<Rightarrow>
              if ss_state session = Distributing
              then ignore (sc_transition_state ops env (nows 0) (ak_session_id body) Completed) else ok ()) (\<lambda>_.
     ok None)))"

definition handle_decline ::
  "'s storage_ops \<Rightarrow> signing_env \<Rightarrow> signing_codec \<Rightarrow> (nat \<Rightarrow> string) \<Rightarrow> inbound_message \<Rightarrow> 's signing_prog" where
  "handle_decline ops env cd nows i =
     seq (parse_body (cd_decline cd) i) (\<lambda>body.
     seq (ignore (sc_transition_state ops env (nows 0) (dc_session_id body) Declined)) (\<lambda>_. ok None))"

definition handle_problem_report ::
  "'s storage_ops \<Rightarrow> signing_env \<Rightarrow> signing_codec \<Rightarrow> (nat \<Rightarrow> string) \<Rightarrow> inbound_message \<Rightarrow> 's signing_prog" where
  "handle_problem_report ops env cd nows i =
     seq (parse_body (cd_problem_report cd) i) (\<lambda>body.
     seq (ignore (sc_transition_state ops env (nows 0) (pr_session_id body) Failed)) (\<lambda>_. ok None))"

definition signing_dispatch ::
  "'s storage_ops \<Rightarrow> signing_env \<Rightarrow> signing_codec \<Rightarrow> (nat \<Rightarrow> string) \<Rightarrow> string \<Rightarrow> inbound_message \<Rightarrow> 's signing_prog" where
  "signing_dispatch ops env cd nows uuid i =
     (let ty = msg_type (in_message i)
      in if ty = PIURI_PROPOSE_SIGNING then handle_propose_signing ops env cd nows uuid i
         else if ty = PIURI_REQUEST_SIGNING then handle_request_signing ops env cd nows i
         else if ty = PIURI_CONSENT then handle_consent ops env cd nows i
         else if ty = PIURI_PARTIAL_SIGNATURE then handle_partial_signature ops env cd nows uuid i
         else if ty = PIURI_COMBINE then handle_combine ops env cd uuid i
         else if ty = PIURI_PROVIDE_ARTIFACTS then handle_provide_artifacts cd uuid i
         else if ty = PIURI_ISSUE_TOKEN then handle_issue_token cd i
         else if ty = PIURI_ACK then handle_ack ops env cd nows i
         else if ty = PIURI_DECLINE then handle_decline ops env cd nows i
         else if ty = PIURI_PROBLEM_REPORT then handle_problem_report ops env cd nows i
         else raise (InvalidMessageType ty))"

definition signing_handle ::
  "'s storage_ops \<Rightarrow> signing_env \<Rightarrow> signing_codec \<Rightarrow> (nat \<Rightarrow> string) \<Rightarrow> string \<Rightarrow> inbound_message \<Rightarrow>
   ('s coordinator, handler_error, outbound_message option) prog" where
  "signing_handle ops env cd nows uuid i s =
     (if \<not> cx_authenticated (in_context i) \<or> cx_from (in_context i) = None
      then (s, Inl (ProcessingFailed ''signing protocol requires an authenticated sender''))
      else case signing_dispatch ops env cd nows uuid i s of
             (s, Inr (Some response)) \<Rightarrow>
               (s, Inr (Some \<lparr>out_message = response, out_to = opt_string (cx_from (in_context i)), out_from = sc_our_did s,
                              out_connection_id = cx_connection_id (in_context i)\<rparr>))
           | (s, Inr None) \<Rightarrow> (s, Inr None)
           | (s, Inl e) \<Rightarrow> (s, Inl (ProcessingFailed (signing_error_str e))))"

end
