(* ===== verification/Signing_Protocol.thy ===== *)
theory Signing_Protocol
  imports Signing_Handler
begin

text \<open>
  What the signing protocol guarantees. The abstract protocol is a step relation on one session,
  with a rule for each thing a message can do to it; the handlers are shown to refine it for every
  storage backend, through failing writes and restarts, and the guarantees are proved on it by rule
  induction.
\<close>

section \<open>The abstract protocol\<close>

definition consent_by :: "signing_codec \<Rightarrow> signing_session \<Rightarrow> inbound_message \<Rightarrow> string \<Rightarrow> bool" where
  "consent_by cd x i did \<longleftrightarrow> msg_type (in_message i) = PIURI_CONSENT \<and>
     cx_authenticated (in_context i) \<and> cx_from (in_context i) = Some did \<and>
     (\<exists>b. cd_consent cd (msg_body (in_message i)) = Inr b \<and> cs_session_id b = ss_session_id x \<and> cs_signer_did b = did \<and>
        kb_controller (cs_key_binding b) = did \<and> su_id (cs_accepted_suite b) = su_id (ss_suite x))"

definition signature_by :: "signing_codec \<Rightarrow> signing_session \<Rightarrow> inbound_message \<Rightarrow> string \<Rightarrow> bool" where
  "signature_by cd x i did \<longleftrightarrow> msg_type (in_message i) = PIURI_PARTIAL_SIGNATURE \<and>
     cx_authenticated (in_context i) \<and> cx_from (in_context i) = Some did \<and>
     (\<exists>b. cd_partial_signature cd (msg_body (in_message i)) = Inr b \<and> ps_session_id b = ss_session_id x \<and> ps_signer_did b = did \<and>
        su_id (ps_suite b) = su_id (ss_suite x) \<and> ps_object_digest b = dg_value (so_digest (ss_object x)))"

inductive session_step :: "signing_codec \<Rightarrow> inbound_message \<Rightarrow> signing_session \<Rightarrow> signing_session \<Rightarrow> bool"
  for cd :: signing_codec and i :: inbound_message where
  consent: "consent_by cd x i did \<Longrightarrow> participant_of x did \<noteq> None \<Longrightarrow>
    session_step cd i x (update_participant did (mark_consented kb) now x)"
| sign: "signature_by cd x i did \<Longrightarrow> participant_of x did = Some p \<Longrightarrow> \<not> sp_signed p \<Longrightarrow>
    session_step cd i x (update_participant did (mark_signed signature) now x)"
| consented: "ss_state x = Requested \<Longrightarrow> required_signatures x \<le> consented_count x \<Longrightarrow>
    session_step cd i x (x\<lparr>ss_state := Consented, ss_updated_at := now\<rparr>)"
| signing: "ss_state x = Consented \<Longrightarrow> session_step cd i x (x\<lparr>ss_state := Signing, ss_updated_at := now\<rparr>)"
| combining: "signature_by cd x i did \<Longrightarrow> participant_of x did = Some p \<Longrightarrow> \<not> sp_signed p \<Longrightarrow>
    y = update_participant did (mark_signed signature) now x \<Longrightarrow> ss_state x = Signing \<Longrightarrow> required_signatures y \<le> signed_count y \<Longrightarrow>
    session_step cd i x (y\<lparr>ss_state := Combining, ss_updated_at := now'\<rparr>)"
| combine: "collected_signatures x \<noteq> [] \<Longrightarrow>
    session_step cd i x (x\<lparr>ss_combined_signature := Some c, ss_updated_at := now\<rparr>)"
| distribute: "ss_state x = Combining \<Longrightarrow> session_step cd i x (x\<lparr>ss_state := Distributing, ss_updated_at := now\<rparr>)"
| complete: "ss_state x = Distributing \<Longrightarrow> session_step cd i x (x\<lparr>ss_state := Completed, ss_updated_at := now\<rparr>)"
| decline: "can_transition_to (ss_state x) Declined \<Longrightarrow> session_step cd i x (x\<lparr>ss_state := Declined, ss_updated_at := now\<rparr>)"
| fail: "can_transition_to (ss_state x) Failed \<Longrightarrow> session_step cd i x (x\<lparr>ss_state := Failed, ss_updated_at := now\<rparr>)"

text \<open>What a message creates: a proposed session, or a requested one.\<close>

definition session_created :: "signing_codec \<Rightarrow> inbound_message \<Rightarrow> string \<Rightarrow> signing_session \<Rightarrow> bool" where
  "session_created cd i sid y \<longleftrightarrow> ss_session_id y = sid \<and> ss_state y \<in> {Proposed, Requested} \<and> ss_combined_signature y = None \<and>
     (\<exists>single. ss_participants y = initial_participants (ss_threshold y) single i) \<and>
     (msg_type (in_message i) = PIURI_PROPOSE_SIGNING \<and>
        (\<exists>b. cd_propose cd (msg_body (in_message i)) = Inr b \<and> pp_session_id b = sid \<and> pp_threshold b = ss_threshold y \<and>
           pp_object b = ss_object y \<and> pp_suite b = ss_suite y) \<or>
      msg_type (in_message i) = PIURI_REQUEST_SIGNING \<and>
        (\<exists>b. cd_request cd (msg_body (in_message i)) = Inr b \<and> rq_session_id b = sid \<and> rq_threshold b = ss_threshold y \<and>
           rq_object b = ss_object y \<and> rq_suite b = ss_suite y))"

definition session_moves :: "signing_codec \<Rightarrow> inbound_message \<Rightarrow> string \<Rightarrow> signing_session option \<Rightarrow> signing_session option \<Rightarrow> bool" where
  "session_moves cd i sid v v' \<longleftrightarrow> v' = v \<or> (\<exists>x y. v = Some x \<and> v' = Some y \<and> (session_step cd i)\<^sup>*\<^sup>* x y) \<or>
     (\<exists>y. v' = Some y \<and> session_created cd i sid y)"

abbreviation views_move :: "signing_codec \<Rightarrow> inbound_message \<Rightarrow> (string \<Rightarrow> signing_session option) \<Rightarrow> (string \<Rightarrow> signing_session option) \<Rightarrow> bool" where
  "views_move cd i v v' \<equiv> (\<forall>sid. session_moves cd i sid (v sid) (v' sid))"

lemma session_moves_refl [simp]: "session_moves cd i sid v v"
  by (simp add: session_moves_def)

lemma session_moves_step:
  assumes "session_moves cd i sid v (Some x)" "session_step cd i x y" and "\<not> session_created cd i sid x"
  shows "session_moves cd i sid v (Some y)"
  using assms by (auto simp: session_moves_def intro: rtranclp.rtrancl_into_rtrancl)

lemma no_creation:
  "msg_type (in_message i) \<notin> {PIURI_PROPOSE_SIGNING, PIURI_REQUEST_SIGNING} \<Longrightarrow> \<not> session_created cd i sid x"
  by (auto simp: session_created_def)

section \<open>Refinement\<close>

text \<open>The rules for the coordinator's operations, with what follows them.\<close>

lemma at_view_mono: "at_view sinv content env P s \<Longrightarrow> (\<And>v. P v \<Longrightarrow> Q v) \<Longrightarrow> at_view sinv content env Q s"
  by (simp add: at_view_def)

lemma emit_seq:
  "triple (at_view sinv content env P) k Q R \<Longrightarrow> triple (at_view sinv content env P) (seq (sc_emit ev) (\<lambda>_. k)) Q R"
  by (simp add: triple_def seq_def sc_emit_eq at_view_def sc_coherent_def)

lemma maybe_emit_seq:
  "triple (at_view sinv content env P) k Q R \<Longrightarrow>
   triple (at_view sinv content env P) (seq (if b then sc_emit ev else ok ()) (\<lambda>_. k)) Q R"
  by (cases b) (simp_all add: emit_seq del: prog_simps)

context storage_provider
begin

lemma require_seq:
  assumes "\<And>x. triple (at_view inv content env (\<lambda>v. P v \<and> v sid = Some x \<and> ss_session_id x = sid)) (f x) Q (at_view inv content env R)"
    and "\<And>v. P v \<Longrightarrow> R v"
  shows "triple (at_view inv content env P) (seq (sc_require_session ops env sid) f) Q (at_view inv content env R)"
proof (rule triple_seq)
  show "triple (at_view inv content env P) (sc_require_session ops env sid)
      (\<lambda>x. at_view inv content env (\<lambda>v. P v \<and> v sid = Some x \<and> ss_session_id x = sid)) (at_view inv content env R)"
    by (rule triple_conseq [OF sc_require_session_triple [where P = P]]) (auto simp: at_view_def assms(2) sc_coherent_def)
qed (rule assms(1))

lemma store_seq:
  assumes "session_codec_ok env" "\<And>v. P v \<Longrightarrow> ss_session_id x = sid" "\<And>v. P v \<Longrightarrow> R v"
    and "triple (at_view inv content env (\<lambda>v'. \<exists>v. P v \<and> v' = v(sid \<mapsto> x))) k Q (at_view inv content env R)"
  shows "triple (at_view inv content env P) (seq (sc_store ops env sid x) (\<lambda>_. k)) Q (at_view inv content env R)"
proof (cases "ss_session_id x = sid")
  case True
  show ?thesis by (rule triple_seq [OF sc_store_triple [OF assms(1) True] assms(4)]) (use assms(3) in blast)+
next
  case False
  then show ?thesis using assms(2) by (auto simp: triple_def at_view_def)
qed

lemmas session_rules = require_seq store_seq maybe_emit_seq emit_seq triple_guard_seq triple_result_seq triple_read_seq triple_ok

lemma transition_triple:
  assumes codec: "session_codec_ok env" and P: "\<And>v. P v \<Longrightarrow> R v"
    and Q: "\<And>v x. P v \<Longrightarrow> v sid = Some x \<Longrightarrow> can_transition_to (ss_state x) st \<Longrightarrow> ss_session_id x = sid \<Longrightarrow>
      Q (v(sid \<mapsto> x\<lparr>ss_state := st, ss_updated_at := now\<rparr>))"
  shows "triple (at_view inv content env P) (sc_transition_state ops env now sid st) (\<lambda>_. at_view inv content env Q) (at_view inv content env R)"
  unfolding sc_transition_state_def Let_def
  by (intro session_rules codec; insert P Q; auto simp: at_view_def)

lemma accept_consent_triple:
  assumes codec: "session_codec_ok env" and P: "\<And>v. P v \<Longrightarrow> R v"
    and Q: "\<And>v x y. P v \<Longrightarrow> v sid = Some x \<Longrightarrow> participant_of x did \<noteq> None \<Longrightarrow> ss_session_id x = sid \<Longrightarrow>
      y = update_participant did (mark_consented kb) now x \<Longrightarrow> Q (required_signatures y \<le> consented_count y) (v(sid \<mapsto> y))"
  shows "triple (at_view inv content env P) (sc_accept_consent ops env now sid did kb) (\<lambda>b. at_view inv content env (Q b)) (at_view inv content env R)"
  unfolding sc_accept_consent_def sc_record_consent_def Let_def
  by (intro session_rules codec; insert P Q; auto simp: at_view_def update_participant_def)

lemma accept_signature_triple:
  assumes codec: "session_codec_ok env" and P: "\<And>v. P v \<Longrightarrow> R v"
    and Q: "\<And>v x y p. P v \<Longrightarrow> v sid = Some x \<Longrightarrow> participant_of x did = Some p \<Longrightarrow> \<not> sp_signed p \<Longrightarrow> ss_session_id x = sid \<Longrightarrow>
      y = update_participant did (mark_signed sg) now x \<Longrightarrow> Q (required_signatures y \<le> signed_count y) (v(sid \<mapsto> y))"
  shows "triple (at_view inv content env P) (sc_accept_partial_signature ops env now sid did sg) (\<lambda>b. at_view inv content env (Q b)) (at_view inv content env R)"
  unfolding sc_accept_partial_signature_def sc_record_signature_def Let_def
  by (intro session_rules codec; insert P Q; auto simp: at_view_def update_participant_def)

lemma combine_triple:
  assumes codec: "session_codec_ok env" and P: "\<And>v. P v \<Longrightarrow> R v"
    and Q: "\<And>v x c. P v \<Longrightarrow> v sid = Some x \<Longrightarrow> collected_signatures x \<noteq> [] \<Longrightarrow> ss_session_id x = sid \<Longrightarrow>
      Q (v(sid \<mapsto> x\<lparr>ss_combined_signature := Some c, ss_updated_at := now\<rparr>))"
  shows "triple (at_view inv content env P) (sc_combine_signatures ops env now sid) (\<lambda>_. at_view inv content env Q) (at_view inv content env R)"
  unfolding sc_combine_signatures_def Let_def
  by (intro session_rules codec; insert P Q; auto simp: at_view_def)

lemma create_triple:
  assumes codec: "session_codec_ok env" and P: "\<And>v. P v \<Longrightarrow> R v"
    and Q: "\<And>v did. P v \<Longrightarrow> Q (v(sid \<mapsto> new_session did now sid thid object su cons mode threshold participants))"
  shows "triple (at_view inv content env P) (sc_create_session ops env now sid thid object su cons mode threshold participants)
    (\<lambda>_. at_view inv content env Q) (at_view inv content env R)"
  unfolding sc_create_session_def Let_def
  by (intro session_rules codec; insert P Q; auto simp: at_view_def new_session_def)

end

text \<open>
  Each handler moves the views only as the abstract protocol allows. A step of the protocol on the
  session that was read keeps this.
\<close>

lemma views_move_step:
  assumes "views_move cd i v0 v" "v sid = Some x" "session_step cd i x y"
    and "msg_type (in_message i) \<notin> {PIURI_PROPOSE_SIGNING, PIURI_REQUEST_SIGNING}"
  shows "views_move cd i v0 (v(sid \<mapsto> y))"
  using assms session_moves_step [of cd i sid "v0 sid" x y] no_creation [OF assms(4)] by (metis fun_upd_apply)

lemma moves_step:
  assumes "views_move cd i v0 v" "v sid = Some x" "session_step cd i x y"
    and "msg_type (in_message i) \<notin> {PIURI_PROPOSE_SIGNING, PIURI_REQUEST_SIGNING}"
  shows "session_moves cd i sid (v0 sid) (Some y)"
  using views_move_step [OF assms, THEN spec, of sid] by simp

lemma parse_body_seq:
  assumes "\<And>b. decode (msg_body (in_message i)) = Inr b \<Longrightarrow> triple P (f b) Q R" "\<And>s. P s \<Longrightarrow> R s"
  shows "triple P (seq (parse_body decode i) f) Q R"
  unfolding parse_body_def
  by (rule triple_result_seq) (use assms in \<open>cases "decode (msg_body (in_message i))"; simp\<close>)+

lemma response_seq:
  "(\<And>r. triple P (f r) Q R) \<Longrightarrow> triple P (seq (create_response uuid m ty body) f) Q R"
  by (simp add: create_response_def Let_def triple_def seq_def)

lemma claimed_sender:
  "require_claimed_sender i did = Inr a \<Longrightarrow> cx_authenticated (in_context i) \<and> cx_from (in_context i) = Some did"
  by (auto simp: require_claimed_sender_def split: if_splits option.splits)

lemma types_differ:
  "PIURI_CONSENT \<notin> {PIURI_PROPOSE_SIGNING, PIURI_REQUEST_SIGNING}" "PIURI_PARTIAL_SIGNATURE \<notin> {PIURI_PROPOSE_SIGNING, PIURI_REQUEST_SIGNING}"
  "PIURI_ACK \<notin> {PIURI_PROPOSE_SIGNING, PIURI_REQUEST_SIGNING}" "PIURI_DECLINE \<notin> {PIURI_PROPOSE_SIGNING, PIURI_REQUEST_SIGNING}"
  "PIURI_PROBLEM_REPORT \<notin> {PIURI_PROPOSE_SIGNING, PIURI_REQUEST_SIGNING}"
  by (simp_all add: piuri_defs)

lemma created_by_propose:
  assumes "msg_type (in_message i) = PIURI_PROPOSE_SIGNING" "cd_propose cd (msg_body (in_message i)) = Inr b"
  shows "session_created cd i (pp_session_id b) (new_session did now (pp_session_id b) thid (pp_object b) (pp_suite b) cons mode (pp_threshold b)
    (initial_participants (pp_threshold b) single i))"
  using assms by (simp add: session_created_def new_session_def) blast

lemma created_by_request:
  assumes "msg_type (in_message i) = PIURI_REQUEST_SIGNING" "cd_request cd (msg_body (in_message i)) = Inr b" "st \<in> {Proposed, Requested}"
  shows "session_created cd i (rq_session_id b) ((new_session did now (rq_session_id b) thid (rq_object b) (rq_suite b) cons mode (rq_threshold b)
    (initial_participants (rq_threshold b) single i))\<lparr>ss_state := st, ss_updated_at := t\<rparr>)"
  using assms by (auto simp: session_created_def new_session_def)

lemma views_move_created: "session_created cd i sid y \<Longrightarrow> views_move cd i v (v(sid \<mapsto> y))"
  by (simp add: session_moves_def)

context storage_provider
begin

lemma transition_seq:
  assumes codec: "session_codec_ok env" and "\<And>v. P v \<Longrightarrow> R v"
    and "\<And>v x. P v \<Longrightarrow> v sid = Some x \<Longrightarrow> can_transition_to (ss_state x) st \<Longrightarrow> ss_session_id x = sid \<Longrightarrow>
      Q (v(sid \<mapsto> x\<lparr>ss_state := st, ss_updated_at := now\<rparr>))"
    and "\<And>x. triple (at_view inv content env Q) (f x) S (at_view inv content env R)"
  shows "triple (at_view inv content env P) (seq (sc_transition_state ops env now sid st) f) S (at_view inv content env R)"
  by (rule triple_seq [OF transition_triple [OF codec, where P = P and R = R and Q = Q] assms(4)]) (fact assms(2,3))+

lemma propose_refines:
  assumes codec: "session_codec_ok env" and ty: "msg_type (in_message i) = PIURI_PROPOSE_SIGNING"
  shows "triple (at_view inv content env (\<lambda>v. v = v0)) (handle_propose_signing ops env cd nows uuid i)
    (\<lambda>_. at_view inv content env (views_move cd i v0)) (at_view inv content env (views_move cd i v0))"
  unfolding handle_propose_signing_def Let_def
proof (rule parse_body_seq)
  fix b assume b: "cd_propose cd (msg_body (in_message i)) = Inr b"
  show "triple (at_view inv content env (\<lambda>v. v = v0))
     (seq (sc_create_session ops env (nows 0) (pp_session_id b) (message_thread_id (in_message i)) (pp_object b) (pp_suite b) (pp_constraints b)
        mode (pp_threshold b) (initial_participants (pp_threshold b) from i))
       (\<lambda>_. seq (create_response uuid (in_message i) PIURI_ACK body) (\<lambda>response. ok (Some response))))
     (\<lambda>_. at_view inv content env (views_move cd i v0)) (at_view inv content env (views_move cd i v0))" for mode "from" body
    by (rule triple_seq [OF create_triple [OF codec, where Q = "views_move cd i v0"]])
      (use created_by_propose [OF ty b] in \<open>auto intro!: response_seq triple_ok views_move_created [THEN spec] simp del: fun_upd_apply\<close>)
qed (auto simp: at_view_def)

lemma request_refines:
  assumes codec: "session_codec_ok env" and ty: "msg_type (in_message i) = PIURI_REQUEST_SIGNING"
  shows "triple (at_view inv content env (\<lambda>v. v = v0)) (handle_request_signing ops env cd nows i)
    (\<lambda>_. at_view inv content env (views_move cd i v0)) (at_view inv content env (views_move cd i v0))"
  unfolding handle_request_signing_def Let_def
proof (rule parse_body_seq, rule triple_read_seq)
  fix b our_did assume b: "cd_request cd (msg_body (in_message i)) = Inr b"
  let ?new = "\<lambda>did. new_session did (nows 0) (rq_session_id b) (message_thread_id (in_message i)) (rq_object b) (rq_suite b)
    (rq_constraints b) (rq_mode b) (rq_threshold b) (initial_participants (rq_threshold b) our_did i)"
  have created: "session_created cd i (rq_session_id b) (?new did)"
    "session_created cd i (rq_session_id b) ((?new did)\<lparr>ss_state := Requested, ss_updated_at := t\<rparr>)" for did t
    using created_by_request [OF ty b, where st = Proposed and did = did] created_by_request [OF ty b, where st = Requested and did = did]
    by (simp_all add: new_session_def)
  show "triple (at_view inv content env (\<lambda>v. v = v0))
     (seq (sc_create_session ops env (nows 0) (rq_session_id b) (message_thread_id (in_message i)) (rq_object b) (rq_suite b) (rq_constraints b)
        (rq_mode b) (rq_threshold b) (initial_participants (rq_threshold b) our_did i))
       (\<lambda>_. seq (sc_transition_state ops env (nows 1) (rq_session_id b) Requested) (\<lambda>_. ok None)))
     (\<lambda>_. at_view inv content env (views_move cd i v0)) (at_view inv content env (views_move cd i v0))"
  proof (rule triple_seq [OF create_triple [OF codec, where Q = "\<lambda>v. \<exists>did. v = v0(rq_session_id b \<mapsto> ?new did)"]])
    show "triple (at_view inv content env (\<lambda>v. \<exists>did. v = v0(rq_session_id b \<mapsto> ?new did)))
       (seq (sc_transition_state ops env (nows 1) (rq_session_id b) Requested) (\<lambda>_. ok None))
       (\<lambda>_. at_view inv content env (views_move cd i v0)) (at_view inv content env (views_move cd i v0))"
      by (rule transition_seq [OF codec, where Q = "views_move cd i v0"])
        (use created in \<open>auto intro!: triple_ok views_move_created [THEN spec] simp del: fun_upd_apply simp: fun_upd_same\<close>)
  qed auto
qed (auto simp: at_view_def)

lemma consent_refines:
  assumes codec: "session_codec_ok env" and ty: "msg_type (in_message i) = PIURI_CONSENT"
  shows "triple (at_view inv content env (\<lambda>v. v = v0)) (handle_consent ops env cd nows i)
    (\<lambda>_. at_view inv content env (views_move cd i v0)) (at_view inv content env (views_move cd i v0))"
  unfolding handle_consent_def
proof (intro parse_body_seq triple_result_seq triple_guard_seq require_seq)
  fix b a and x :: signing_session
  assume b: "cd_consent cd (msg_body (in_message i)) = Inr b" "require_claimed_sender i (cs_signer_did b) = Inr a"
    "kb_controller (cs_key_binding b) = cs_signer_did b" and suite: "su_id (cs_accepted_suite b) = su_id (ss_suite x)"
  let ?sid = "cs_session_id b"
  note nc = types_differ(1) [folded ty]
  have cby: "consent_by cd x i (cs_signer_did b)" if "ss_session_id x = ?sid"
    using b suite ty that claimed_sender [OF b(2)] by (auto simp: consent_by_def)
  let ?Q = "\<lambda>all v. views_move cd i v0 v \<and> (\<exists>y. v ?sid = Some y \<and> (all \<longrightarrow> required_signatures y \<le> consented_count y))"
  show "triple (at_view inv content env (\<lambda>v. v = v0 \<and> v ?sid = Some x \<and> ss_session_id x = ?sid))
     (seq (sc_accept_consent ops env (nows 0) ?sid (cs_signer_did b) (cs_key_binding b)) (\<lambda>all_consented.
       if all_consented then seq (sc_transition_state ops env (nows 1) ?sid Consented)
          (\<lambda>_. seq (sc_transition_state ops env (nows 2) ?sid Signing) (\<lambda>_. ok None)) else ok None))
     (\<lambda>_. at_view inv content env (views_move cd i v0)) (at_view inv content env (views_move cd i v0))"
  proof (rule triple_seq [OF accept_consent_triple [OF codec, where Q = ?Q]])
    fix v y z assume v: "v = v0 \<and> v ?sid = Some x \<and> ss_session_id x = ?sid" "v ?sid = Some y" "participant_of y (cs_signer_did b) \<noteq> None"
      and z: "z = update_participant (cs_signer_did b) (mark_consented (cs_key_binding b)) (nows 0) y"
    have "session_step cd i y z" using v cby unfolding z by (intro session_step.consent) auto
    then have "views_move cd i v0 (v(?sid \<mapsto> z))" by (intro views_move_step [of cd i v0 v ?sid y]) (use v nc in auto)
    then show "?Q (required_signatures z \<le> consented_count z) (v(?sid \<mapsto> z))" by simp
  next
    fix all
    have t: "triple (at_view inv content env (\<lambda>v. views_move cd i v0 v \<and> v ?sid \<noteq> None))
        (seq (sc_transition_state ops env (nows 2) ?sid Signing) (\<lambda>_. ok None))
        (\<lambda>_. at_view inv content env (views_move cd i v0)) (at_view inv content env (views_move cd i v0))"
      by (rule transition_seq [OF codec, where Q = "views_move cd i v0"])
        (use nc in \<open>auto intro!: triple_ok intro: moves_step session_step.signing\<close>)
    show "triple (at_view inv content env (?Q all)) (if all then seq (sc_transition_state ops env (nows 1) ?sid Consented)
          (\<lambda>_. seq (sc_transition_state ops env (nows 2) ?sid Signing) (\<lambda>_. ok None)) else ok None)
        (\<lambda>_. at_view inv content env (views_move cd i v0)) (at_view inv content env (views_move cd i v0))"
    proof (cases all)
      case True
      have "triple (at_view inv content env (?Q True)) (seq (sc_transition_state ops env (nows 1) ?sid Consented)
          (\<lambda>_. seq (sc_transition_state ops env (nows 2) ?sid Signing) (\<lambda>_. ok None)))
          (\<lambda>_. at_view inv content env (views_move cd i v0)) (at_view inv content env (views_move cd i v0))"
        by (rule transition_seq [OF codec _ _ t]) (use nc in \<open>auto intro: moves_step session_step.consented\<close>)
      then show ?thesis using True by simp
    next
      case False
      then show ?thesis by (auto intro!: triple_ok simp: at_view_def simp del: prog_simps)
    qed
  qed auto
qed (auto simp: at_view_def)

end

context storage_provider
begin

lemma partial_signature_refines:
  assumes codec: "session_codec_ok env" and ty: "msg_type (in_message i) = PIURI_PARTIAL_SIGNATURE"
  shows "triple (at_view inv content env (\<lambda>v. v = v0)) (handle_partial_signature ops env cd nows uuid i)
    (\<lambda>_. at_view inv content env (views_move cd i v0)) (at_view inv content env (views_move cd i v0))"
  unfolding handle_partial_signature_def
proof (intro parse_body_seq triple_result_seq triple_guard_seq require_seq)
  fix b a and x :: signing_session
  assume b: "cd_partial_signature cd (msg_body (in_message i)) = Inr b" "require_claimed_sender i (ps_signer_did b) = Inr a"
    and suite: "su_id (ps_suite b) = su_id (ss_suite x) \<and> ps_object_digest b = dg_value (so_digest (ss_object x))"
  let ?sid = "ps_session_id b" and ?did = "ps_signer_did b"
  let ?V = "at_view inv content env (views_move cd i v0)"
  note nc = types_differ(2) [folded ty]
  have sby: "signature_by cd x i ?did" if "ss_session_id x = ?sid"
    using b suite ty that claimed_sender [OF b(2)] by (auto simp: signature_by_def)
  let ?z = "update_participant ?did (mark_signed (ps_signature b)) (nows 0) x"
  let ?Q = "\<lambda>reached v. v0 ?sid = Some x \<and> ss_session_id x = ?sid \<and> (\<exists>p. participant_of x ?did = Some p \<and> \<not> sp_signed p) \<and>
    v = v0(?sid \<mapsto> ?z) \<and> (reached \<longrightarrow> required_signatures ?z \<le> signed_count ?z)"
  have signed: "views_move cd i v0 v" if "?Q r v" for r v
  proof -
    from that sby have "session_step cd i x ?z" by (auto intro: session_step.sign)
    then show ?thesis using that nc views_move_step [of cd i v0 v0 ?sid x ?z] by simp
  qed
  have combining: "views_move cd i v0 (v(?sid \<mapsto> ?z\<lparr>ss_state := Combining, ss_updated_at := nows 1\<rparr>))"
    if "?Q True v" "ss_state ?z = Signing" for v
  proof -
    from that obtain p where "participant_of x ?did = Some p" "\<not> sp_signed p" by blast
    moreover have "ss_state x = Signing" using that(2) by (simp add: update_participant_def)
    ultimately have "session_step cd i x (?z\<lparr>ss_state := Combining, ss_updated_at := nows 1\<rparr>)"
      using sby that by (intro session_step.combining [of cd x i ?did p ?z]) auto
    then show ?thesis using that nc views_move_step [of cd i v0 v0 ?sid x] by simp
  qed
  define finish where "finish = (\<lambda>combined.
      seq (sc_require_session ops env ?sid) (\<lambda>session.
      seq (sc_transition_state ops env (nows 3) ?sid Distributing) (\<lambda>_.
      seq (create_response uuid (in_message i) PIURI_COMBINE (combine_value
        \<lparr>cb_session_id = ?sid, cb_combined_signature = combined, cb_suite = ss_suite session,
         cb_object_digest = dg_value (so_digest (ss_object session)), cb_participant_count = signed_count session\<rparr>)) (\<lambda>response.
      ok (Some response)))))"
  have finish: "triple ?V (finish c) (\<lambda>_. ?V) ?V" for c
    unfolding finish_def
    by (intro require_seq transition_seq [OF codec, where Q = "views_move cd i v0"] response_seq triple_ok)
      (use nc in \<open>auto intro: moves_step session_step.distribute\<close>)
  have combine: "triple ?V (sc_combine_signatures ops env (nows 2) ?sid) (\<lambda>_. ?V) ?V"
    by (rule combine_triple [OF codec]) (use nc in \<open>auto intro: moves_step session_step.combine\<close>)
  have reached: "triple (at_view inv content env (?Q True)) (seq (sc_transition_state ops env (nows 1) ?sid Combining) (\<lambda>_.
      seq (sc_combine_signatures ops env (nows 2) ?sid) finish)) (\<lambda>_. ?V) ?V"
  proof (rule transition_seq [OF codec _ _ triple_seq [OF combine finish]])
    show "views_move cd i v0 v" if "?Q True v" for v by (rule signed [OF that])
    show "views_move cd i v0 (v(?sid \<mapsto> y\<lparr>ss_state := Combining, ss_updated_at := nows 1\<rparr>))"
      if q: "?Q True v" and y: "v ?sid = Some y" and t: "can_transition_to (ss_state y) Combining" for v y
    proof -
      have "y = ?z" using q y by simp
      then show ?thesis using combining [OF q] t by simp
    qed
  qed
  show "triple (at_view inv content env (\<lambda>v. v = v0 \<and> v ?sid = Some x \<and> ss_session_id x = ?sid))
     (seq (sc_accept_partial_signature ops env (nows 0) ?sid ?did (ps_signature b)) (\<lambda>reached.
       if reached then seq (sc_transition_state ops env (nows 1) ?sid Combining) (\<lambda>_.
         seq (sc_combine_signatures ops env (nows 2) ?sid) (\<lambda>combined. seq (sc_require_session ops env ?sid) (\<lambda>session.
         let combine_body = \<lparr>cb_session_id = ?sid, cb_combined_signature = combined, cb_suite = ss_suite session,
               cb_object_digest = dg_value (so_digest (ss_object session)), cb_participant_count = signed_count session\<rparr>
         in seq (sc_transition_state ops env (nows 3) ?sid Distributing) (\<lambda>_.
            seq (create_response uuid (in_message i) PIURI_COMBINE (combine_value combine_body)) (\<lambda>response. ok (Some response))))))
       else ok None)) (\<lambda>_. ?V) ?V"
    unfolding Let_def finish_def [symmetric]
  proof (rule triple_seq [OF accept_signature_triple [OF codec, where Q = ?Q]])
    fix v y z p assume v: "v = v0 \<and> v ?sid = Some x \<and> ss_session_id x = ?sid" "v ?sid = Some y" "participant_of y ?did = Some p" "\<not> sp_signed p"
      and z: "z = update_participant ?did (mark_signed (ps_signature b)) (nows 0) y"
    then show "?Q (required_signatures z \<le> signed_count z) (v(?sid \<mapsto> z))" by auto
  next
    show "triple (at_view inv content env (?Q r)) (if r then seq (sc_transition_state ops env (nows 1) ?sid Combining) (\<lambda>_.
      seq (sc_combine_signatures ops env (nows 2) ?sid) finish) else ok None) (\<lambda>_. ?V) ?V" for r
    proof (cases r)
      case True
      then show ?thesis using reached by simp
    next
      case False
      have "triple (at_view inv content env (?Q r)) (ok None) (\<lambda>_. ?V) ?V"
        by (rule triple_ok) (erule at_view_mono, erule signed)
      then show ?thesis using False by simp
    qed
  qed auto
qed (auto simp: at_view_def)

lemma transition_only_refines:
  assumes codec: "session_codec_ok env" and nc: "msg_type (in_message i) \<notin> {PIURI_PROPOSE_SIGNING, PIURI_REQUEST_SIGNING}"
    and step: "\<And>x. can_transition_to (ss_state x) st \<Longrightarrow> session_step cd i x (x\<lparr>ss_state := st, ss_updated_at := now\<rparr>)"
  shows "triple (at_view inv content env (views_move cd i v0)) (seq (ignore (sc_transition_state ops env now sid st)) (\<lambda>_. ok None))
    (\<lambda>_. at_view inv content env (views_move cd i v0)) (at_view inv content env (views_move cd i v0))"
proof (rule triple_ignore_seq)
  show "triple (at_view inv content env (views_move cd i v0)) (sc_transition_state ops env now sid st)
    (\<lambda>_. at_view inv content env (views_move cd i v0)) (at_view inv content env (views_move cd i v0))"
    by (rule transition_triple [OF codec]) (use nc step in \<open>auto intro: moves_step\<close>)
qed (rule triple_ok)

lemma ack_refines:
  assumes codec: "session_codec_ok env" and ty: "msg_type (in_message i) = PIURI_ACK"
  shows "triple (at_view inv content env (\<lambda>v. v = v0)) (handle_ack ops env cd nows i)
    (\<lambda>_. at_view inv content env (views_move cd i v0)) (at_view inv content env (views_move cd i v0))"
  unfolding handle_ack_def
proof (rule parse_body_seq)
  fix b
  let ?V = "at_view inv content env (views_move cd i v0)" and ?sid = "ak_session_id b"
  note nc = types_differ(3) [folded ty]
  have t: "triple (at_view inv content env (\<lambda>v. v = v0 \<and> Some x = v ?sid))
      (seq (if ss_state x = Distributing then ignore (sc_transition_state ops env (nows 0) ?sid Completed) else ok ()) (\<lambda>_. ok None)) (\<lambda>_. ?V) ?V" for x
  proof (cases "ss_state x = Distributing")
    case True
    have "triple (at_view inv content env (\<lambda>v. v = v0 \<and> Some x = v ?sid)) (sc_transition_state ops env (nows 0) ?sid Completed) (\<lambda>_. ?V) ?V"
    proof (rule transition_triple [OF codec])
      fix v y assume v: "v = v0 \<and> Some x = v ?sid" "v ?sid = Some y"
      then have "session_step cd i y (y\<lparr>ss_state := Completed, ss_updated_at := nows 0\<rparr>)" using True by (intro session_step.complete) simp
      then show "views_move cd i v0 (v(?sid \<mapsto> y\<lparr>ss_state := Completed, ss_updated_at := nows 0\<rparr>))"
        by (intro views_move_step [of cd i v0 v ?sid y]) (use v nc in auto)
    qed auto
    then show ?thesis using True by (simp del: prog_simps add: triple_ignore_seq [OF _ triple_ok])
  qed (auto intro!: triple_ok simp: at_view_def simp del: prog_simps)
  show "triple (at_view inv content env (\<lambda>v. v = v0)) (seq (sc_get_session ops env ?sid) (\<lambda>found.
     seq (case found of None \<Rightarrow> ok () | Some session \<Rightarrow>
       if ss_state session = Distributing then ignore (sc_transition_state ops env (nows 0) ?sid Completed) else ok ()) (\<lambda>_. ok None))) (\<lambda>_. ?V) ?V"
  proof (rule triple_seq)
    show "triple (at_view inv content env (\<lambda>v. v = v0)) (sc_get_session ops env ?sid) (\<lambda>r. at_view inv content env (\<lambda>v. v = v0 \<and> r = v ?sid)) ?V"
      by (rule triple_conseq [OF sc_get_session_triple [where P = "\<lambda>v. v = v0"]]) (auto simp: at_view_def)
    show "triple (at_view inv content env (\<lambda>v. v = v0 \<and> r = v ?sid)) (seq (case r of None \<Rightarrow> ok () | Some session \<Rightarrow>
       if ss_state session = Distributing then ignore (sc_transition_state ops env (nows 0) ?sid Completed) else ok ()) (\<lambda>_. ok None)) (\<lambda>_. ?V) ?V" for r
    proof (cases r)
      case None
      then show ?thesis by (auto intro!: triple_ok simp: at_view_def simp del: prog_simps)
    next
      case (Some x)
      then show ?thesis using t [of x] by (simp only: option.case)
    qed
  qed
qed (auto simp: at_view_def)

end

context storage_provider
begin

lemma unchanged_refines:
  assumes "keeps (at_view inv content env (\<lambda>v. v = v0)) m"
  shows "triple (at_view inv content env (\<lambda>v. v = v0)) m (\<lambda>_. at_view inv content env (views_move cd i v0)) (at_view inv content env (views_move cd i v0))"
  by (rule triple_conseq [OF assms]) (auto simp: at_view_def)

lemma get_session_keeps: "keeps (at_view inv content env P) (sc_get_session ops env sid)"
  by (rule triple_conseq [OF sc_get_session_triple [where P = P]]) (auto simp: at_view_def)

lemma dispatch_refines:
  assumes codec: "session_codec_ok env"
  shows "triple (at_view inv content env (\<lambda>v. v = v0)) (signing_dispatch ops env cd nows uuid i)
    (\<lambda>_. at_view inv content env (views_move cd i v0)) (at_view inv content env (views_move cd i v0))"
proof -
  let ?ty = "msg_type (in_message i)" and ?A = "at_view inv content env"
  let ?ok = "\<lambda>m. triple (?A (\<lambda>v. v = v0)) m (\<lambda>_. ?A (views_move cd i v0)) (?A (views_move cd i v0))"
  have combine: "?ok (handle_combine ops env cd uuid i)"
    unfolding handle_combine_def
    by (intro unchanged_refines parse_body_seq triple_seq [OF get_session_keeps] response_seq triple_ok) auto
  have artifacts: "?ok (handle_provide_artifacts cd uuid i)"
    unfolding handle_provide_artifacts_def by (intro unchanged_refines parse_body_seq response_seq triple_ok) auto
  have token: "?ok (handle_issue_token cd i)"
    unfolding handle_issue_token_def by (intro unchanged_refines parse_body_seq) auto
  have start: "triple (?A (views_move cd i v0)) m (\<lambda>_. ?A (views_move cd i v0)) (?A (views_move cd i v0)) \<Longrightarrow> ?ok m"
    for m :: "'s signing_prog" by (erule triple_pre) (auto simp: at_view_def)
  have decline: "?ok (handle_decline ops env cd nows i)" if "?ty = PIURI_DECLINE"
    unfolding handle_decline_def using types_differ(4) [folded that]
    by (intro start parse_body_seq transition_only_refines codec session_step.decline)
  have report: "?ok (handle_problem_report ops env cd nows i)" if "?ty = PIURI_PROBLEM_REPORT"
    unfolding handle_problem_report_def using types_differ(5) [folded that]
    by (intro start parse_body_seq transition_only_refines codec session_step.fail)
  have other: "?ok (raise (InvalidMessageType ?ty))" by (rule unchanged_refines) simp
  have cond: "(b \<Longrightarrow> ?ok m) \<Longrightarrow> (\<not> b \<Longrightarrow> ?ok m') \<Longrightarrow> ?ok (if b then m else m')" for b and m m' :: "'s signing_prog" by simp
  show ?thesis unfolding signing_dispatch_def Let_def
    by (intro cond propose_refines request_refines consent_refines partial_signature_refines ack_refines codec combine artifacts
        token decline report other)
qed

lemma handle_refines:
  assumes "session_codec_ok env" "sc_coherent inv content env s"
  shows "sc_coherent inv content env (fst (signing_handle ops env cd nows uuid i s))"
    "views_move cd i (sc_view content env s) (sc_view content env (fst (signing_handle ops env cd nows uuid i s)))"
proof -
  have at: "at_view inv content env (\<lambda>v. v = sc_view content env s) s" using assms(2) by (simp add: at_view_def)
  have d: "at_view inv content env (views_move cd i (sc_view content env s)) (fst (signing_dispatch ops env cd nows uuid i s))"
    by (rule triple_fst [OF dispatch_refines [OF assms(1)] at])
  have "fst (signing_handle ops env cd nows uuid i s) = s \<or>
      fst (signing_handle ops env cd nows uuid i s) = fst (signing_dispatch ops env cd nows uuid i s)"
    by (auto simp: signing_handle_def split: prod.splits sum.splits option.splits)
  then show "sc_coherent inv content env (fst (signing_handle ops env cd nows uuid i s))"
    "views_move cd i (sc_view content env s) (sc_view content env (fst (signing_handle ops env cd nows uuid i s)))"
    using d assms(2) by (auto simp: at_view_def)
qed

end

end
