(* ===== verification/Signing_Guarantees.thy ===== *)
theory Signing_Guarantees
  imports Signing_Protocol
begin

text \<open>
  Runs of a signing coordinator, message by message with restarts in between, and what holds in
  them: the handlers refine the abstract protocol, a combined signature stands for a quorum, a
  session that ended stays ended, signatures that come too early block a session, and concurrent
  handlers lose updates.
\<close>

section \<open>Runs\<close>

datatype signing_input = Deliver "nat \<Rightarrow> string" string inbound_message | Restart

fun signing_exec :: "'s storage_ops \<Rightarrow> signing_env \<Rightarrow> signing_codec \<Rightarrow> signing_input \<Rightarrow> 's coordinator \<Rightarrow> 's coordinator" where
  "signing_exec ops env cd (Deliver nows uuid i) s = fst (signing_handle ops env cd nows uuid i s)"
| "signing_exec ops env cd Restart s = sc_restart s"

abbreviation signing_run :: "'s storage_ops \<Rightarrow> signing_env \<Rightarrow> signing_codec \<Rightarrow> signing_input list \<Rightarrow> 's coordinator \<Rightarrow> 's coordinator" where
  "signing_run ops env cd evs s \<equiv> fold (signing_exec ops env cd) evs s"

fun delivered :: "signing_input list \<Rightarrow> inbound_message list" where
  "delivered [] = []"
| "delivered (Deliver nows uuid i # evs) = i # delivered evs"
| "delivered (Restart # evs) = delivered evs"

context storage_provider
begin

lemma exec_refines:
  assumes "session_codec_ok env" "sc_coherent inv content env s"
  shows "sc_coherent inv content env (signing_exec ops env cd e s)"
    "case e of Restart \<Rightarrow> sc_view content env (signing_exec ops env cd e s) = sc_view content env s
     | Deliver nows uuid i \<Rightarrow> views_move cd i (sc_view content env s) (sc_view content env (signing_exec ops env cd e s))"
  using handle_refines [OF assms] sc_restart_coherent [where s = s] assms(2) by (cases e; simp)+

lemma run_coherent:
  assumes "session_codec_ok env" "sc_coherent inv content env s"
  shows "sc_coherent inv content env (signing_run ops env cd evs s)"
  using assms(2) by (induction evs arbitrary: s) (simp_all add: exec_refines(1) [OF assms(1)])

text \<open>A property of sessions that creation establishes and every step keeps holds in every run.\<close>

lemma run_invariant:
  assumes "session_codec_ok env" "sc_coherent inv content env s" "\<forall>sid x. sc_view content env s sid = Some x \<longrightarrow> J x"
    and create: "\<And>i sid y. i \<in> set (delivered evs) \<Longrightarrow> session_created cd i sid y \<Longrightarrow> J y"
    and step: "\<And>i x y. i \<in> set (delivered evs) \<Longrightarrow> session_step cd i x y \<Longrightarrow> J x \<Longrightarrow> J y"
    and "sc_view content env (signing_run ops env cd evs s) sid = Some x"
  shows "J x"
  using assms(2-)
proof (induction evs arbitrary: s)
  case (Cons e evs)
  let ?s = "signing_exec ops env cd e s"
  have "J y" if y: "sc_view content env ?s sid = Some y" for sid y
  proof (cases e)
    case Restart
    then show ?thesis using exec_refines(2) [OF assms(1) Cons.prems(1), of cd e] Cons.prems(2) y by auto
  next
    case (Deliver nows uuid i)
    then have i: "i \<in> set (delivered (e # evs))" by simp
    have "views_move cd i (sc_view content env s) (sc_view content env ?s)"
      using exec_refines(2) [OF assms(1) Cons.prems(1), of cd e] Deliver by simp
    then have "session_moves cd i sid (sc_view content env s sid) (Some y)" using y by (auto dest: spec [of _ sid])
    then consider "sc_view content env s sid = Some y" | x where "sc_view content env s sid = Some x" "(session_step cd i)\<^sup>*\<^sup>* x y"
      | "session_created cd i sid y" unfolding session_moves_def by force
    then show ?thesis
    proof cases
      case (2 x)
      then have "J x" using Cons.prems(2) by blast
      with 2(2) show ?thesis by (induction rule: rtranclp_induct) (simp, rule Cons.prems(4) [OF i])
    qed (use Cons.prems(2,3) i in blast)+
  qed
  then have all: "\<forall>sid x. sc_view content env ?s sid = Some x \<longrightarrow> J x" by blast
  have sub: "i \<in> set (delivered evs) \<Longrightarrow> i \<in> set (delivered (e # evs))" for i by (cases e) auto
  show ?case
  proof (rule Cons.IH [OF exec_refines(1) [OF assms(1) Cons.prems(1)] all])
    show "sc_view content env (signing_run ops env cd evs ?s) sid = Some x" using Cons.prems(5) by simp
  qed (erule Cons.prems(3,4) [OF sub]; assumption)+
qed simp

end

section \<open>The quorum behind a combined signature\<close>

lemma update_participant_simps [simp]:
  "ss_session_id (update_participant did f now x) = ss_session_id x" "ss_suite (update_participant did f now x) = ss_suite x"
  "ss_object (update_participant did f now x) = ss_object x" "ss_threshold (update_participant did f now x) = ss_threshold x"
  "ss_state (update_participant did f now x) = ss_state x"
  "ss_participants (update_participant did f now x) = update_first (\<lambda>p. sp_did p = did) f (ss_participants x)"
  by (simp_all add: update_participant_def)

lemma evidence_cong:
  assumes "ss_session_id y = ss_session_id x" "ss_suite y = ss_suite x" "ss_object y = ss_object x"
  shows "signature_by cd y = signature_by cd x" "consent_by cd y = consent_by cd x"
  using assms by (simp_all add: fun_eq_iff signature_by_def consent_by_def)

lemma update_first_length [simp]: "length (update_first P f xs) = length xs"
  by (induction xs) auto

lemma update_first_set: "y \<in> set (update_first P f xs) \<Longrightarrow> y \<in> set xs \<or> (\<exists>x\<in>set xs. P x \<and> y = f x)"
  by (induction xs) (auto split: if_splits)

lemma update_first_count:
  "(\<And>x. Q x \<Longrightarrow> Q (f x)) \<Longrightarrow> length (filter Q xs) \<le> length (filter Q (update_first P f xs))"
  by (induction xs) (auto simp: le_SucI)

text \<open>Only the first participant with a DID is ever marked, so the marked ones have different DIDs.\<close>

definition marked_once :: "(session_participant \<Rightarrow> bool) \<Rightarrow> session_participant list \<Rightarrow> bool" where
  "marked_once f ps \<longleftrightarrow> sorted_wrt (\<lambda>p q. f q \<longrightarrow> sp_did p \<noteq> sp_did q) ps"

lemma marked_once_update:
  assumes "marked_once f ps" "\<And>p. sp_did (g p) = sp_did p" "\<And>p. f p \<Longrightarrow> f (g p)"
  shows "marked_once f (update_first (\<lambda>p. sp_did p = d) g ps)"
  using assms(1) by (induction ps) (auto simp: marked_once_def assms(2) dest!: update_first_set)

lemma marked_once_distinct: "marked_once f ps \<Longrightarrow> distinct (map sp_did (filter f ps))"
  by (induction ps) (auto simp: marked_once_def)

definition session_inv :: "signing_codec \<Rightarrow> inbound_message set \<Rightarrow> signing_session \<Rightarrow> bool" where
  "session_inv cd H x \<longleftrightarrow> length (ss_participants x) < 2 ^ 32 \<and>
     marked_once sp_signed (ss_participants x) \<and> marked_once sp_consented (ss_participants x) \<and>
     (\<forall>p\<in>set (ss_participants x). sp_signed p \<longrightarrow> (\<exists>i\<in>H. signature_by cd x i (sp_did p))) \<and>
     (\<forall>p\<in>set (ss_participants x). sp_consented p \<longrightarrow> (\<exists>i\<in>H. consent_by cd x i (sp_did p))) \<and>
     (ss_state x \<in> {Consented, Signing, Combining, Distributing, Completed} \<longrightarrow> required_signatures x \<le> consented_count x) \<and>
     (ss_state x \<in> {Combining, Distributing, Completed} \<longrightarrow> required_signatures x \<le> signed_count x)"

text \<open>Counts fit in 32 bits as long as a session has fewer than \<open>2 ^ 32\<close> participants.\<close>

lemma u32_count_mono: "m \<le> n \<Longrightarrow> n < 2 ^ 32 \<Longrightarrow> (of_nat m :: u32) \<le> of_nat n"
  by (simp add: word_le_nat_alt unsigned_of_nat take_bit_eq_mod)

lemma count_mono:
  assumes "length ps < 2 ^ 32" "\<And>p. f p \<Longrightarrow> f (g p)"
  shows "(of_nat (length (filter f ps)) :: u32) \<le> of_nat (length (filter f (update_first P g ps)))"
proof (rule u32_count_mono)
  show "length (filter f (update_first P g ps)) < 2 ^ 32"
    using assms(1) length_filter_le [of f "update_first P g ps"] by simp
qed (rule update_first_count, fact assms(2))

lemma session_inv_counts:
  "session_inv cd H x \<Longrightarrow> ss_state x \<in> {Consented, Signing, Combining, Distributing, Completed} \<Longrightarrow> required_signatures x \<le> consented_count x"
  "session_inv cd H x \<Longrightarrow> ss_state x \<in> {Combining, Distributing, Completed} \<Longrightarrow> required_signatures x \<le> signed_count x"
  unfolding session_inv_def by blast+

lemma session_inv_update:
  assumes x: "session_inv cd H x" and g: "\<And>p. sp_did (g p) = sp_did p" "\<And>p. sp_signed p \<Longrightarrow> sp_signed (g p)" "\<And>p. sp_consented p \<Longrightarrow> sp_consented (g p)"
    and s: "\<And>p. sp_signed (g p) \<Longrightarrow> sp_signed p \<or> (\<exists>i\<in>H. signature_by cd x i did)"
    and c: "\<And>p. sp_consented (g p) \<Longrightarrow> sp_consented p \<or> (\<exists>i\<in>H. consent_by cd x i did)"
  shows "session_inv cd H (update_participant did g now x)"
proof -
  let ?y = "update_participant did g now x"
  have ev: "signature_by cd ?y = signature_by cd x" "consent_by cd ?y = consent_by cd x" by (rule evidence_cong; simp)+
  have len: "length (ss_participants x) < 2 ^ 32" using x by (simp add: session_inv_def)
  have cnt: "consented_count x \<le> consented_count ?y" "signed_count x \<le> signed_count ?y" "required_signatures ?y = required_signatures x"
    using count_mono [OF len, of sp_consented g] count_mono [OF len, of sp_signed g] g
    by (simp_all add: consented_count_def signed_count_def required_signatures_def)
  have sg: "\<exists>i\<in>H. signature_by cd x i (sp_did p)" if "p \<in> set (update_first (\<lambda>p. sp_did p = did) g (ss_participants x))" "sp_signed p" for p
    using update_first_set [OF that(1)] that(2) s x g(1) unfolding session_inv_def by metis
  have cs: "\<exists>i\<in>H. consent_by cd x i (sp_did p)" if "p \<in> set (update_first (\<lambda>p. sp_did p = did) g (ss_participants x))" "sp_consented p" for p
    using update_first_set [OF that(1)] that(2) c x g(1) unfolding session_inv_def by metis
  have mo: "marked_once sp_signed (ss_participants ?y)" "marked_once sp_consented (ss_participants ?y)"
    using x g by (simp_all add: session_inv_def marked_once_update)
  have "required_signatures ?y \<le> consented_count ?y" if "ss_state ?y \<in> {Consented, Signing, Combining, Distributing, Completed}"
    using session_inv_counts(1) [OF x] that cnt by simp
  moreover have "required_signatures ?y \<le> signed_count ?y" if "ss_state ?y \<in> {Combining, Distributing, Completed}"
    using session_inv_counts(2) [OF x] that cnt by simp
  ultimately show ?thesis unfolding session_inv_def ev using len sg cs mo by simp
qed

lemma session_inv_state:
  assumes "session_inv cd H x" "ss_session_id y = ss_session_id x" "ss_suite y = ss_suite x" "ss_object y = ss_object x"
    "ss_participants y = ss_participants x" "ss_threshold y = ss_threshold x"
    and "ss_state y \<in> {Consented, Signing, Combining, Distributing, Completed} \<Longrightarrow> required_signatures x \<le> consented_count x"
    and "ss_state y \<in> {Combining, Distributing, Completed} \<Longrightarrow> required_signatures x \<le> signed_count x"
  shows "session_inv cd H y"
  using assms evidence_cong [OF assms(2-4), of cd]
  by (simp add: session_inv_def consented_count_def signed_count_def required_signatures_def)

lemma session_inv_step:
  assumes "session_step cd i x y" "session_inv cd H x" "i \<in> H"
  shows "session_inv cd H y"
  using assms
proof (induction rule: session_step.induct)
  case (consent x did kb now)
  then show ?case by (intro session_inv_update) (auto simp: mark_consented_def)
next
  case (sign x did p signature now)
  then show ?case by (intro session_inv_update) (auto simp: mark_signed_def)
next
  case (combining x did p y signature now now')
  then have y: "session_inv cd H y" by (auto intro!: session_inv_update simp: mark_signed_def)
  show ?case by (rule session_inv_state [OF y]) (use y combining in \<open>auto intro: session_inv_counts\<close>)
qed ((rule session_inv_state, assumption); auto intro: session_inv_counts)+

text \<open>The group a message proposes must fit the 32-bit counters.\<close>

definition small_group :: "signing_codec \<Rightarrow> inbound_message \<Rightarrow> bool" where
  "small_group cd i \<longleftrightarrow>
     (\<forall>b t. cd_propose cd (msg_body (in_message i)) = Inr b \<longrightarrow> pp_threshold b = Some t \<longrightarrow> length (tc_signers t) < 2 ^ 32) \<and>
     (\<forall>b t. cd_request cd (msg_body (in_message i)) = Inr b \<longrightarrow> rq_threshold b = Some t \<longrightarrow> length (tc_signers t) < 2 ^ 32)"

lemma initial_unmarked:
  "p \<in> set (initial_participants threshold single i) \<Longrightarrow> \<not> sp_signed p \<and> \<not> sp_consented p"
  by (auto simp: initial_participants_def unsigned_participant_def split: option.splits)

lemma unmarked_once: "(\<And>p. p \<in> set ps \<Longrightarrow> \<not> f p) \<Longrightarrow> marked_once f ps"
  by (induction ps) (auto simp: marked_once_def)

lemma session_inv_created:
  assumes "session_created cd i sid y" "small_group cd i"
  shows "session_inv cd H y"
proof -
  obtain single where ps: "ss_participants y = initial_participants (ss_threshold y) single i"
    using assms(1) by (auto simp: session_created_def)
  then have un: "p \<in> set (ss_participants y) \<Longrightarrow> \<not> sp_signed p \<and> \<not> sp_consented p" for p using initial_unmarked by metis
  have "length (ss_participants y) < 2 ^ 32"
    using assms unfolding ps by (fastforce simp: session_created_def small_group_def initial_participants_def split: option.splits)
  moreover have "ss_state y \<in> {Proposed, Requested}" using assms(1) by (simp add: session_created_def)
  ultimately show ?thesis using un unmarked_once [of "ss_participants y"] by (auto simp: session_inv_def)
qed

lemma quorum_card:
  assumes "marked_once f ps" "length ps < 2 ^ 32" "(r :: u32) \<le> of_nat (length (filter f ps))"
    and sub: "\<And>p. p \<in> set ps \<Longrightarrow> f p \<Longrightarrow> \<exists>i\<in>set ms. E i (sp_did p)"
    and sender: "\<And>i d. E i d \<Longrightarrow> cx_from (in_context i) = Some d"
  shows "unat r \<le> card {d. \<exists>i\<in>set ms. E i d}"
proof -
  have "length (filter f ps) < 2 ^ 32" by (rule le_less_trans [OF length_filter_le assms(2)])
  then have "unat r \<le> length (filter f ps)"
    using assms(3) by (simp add: word_le_nat_alt unsigned_of_nat take_bit_eq_mod)
  also have "\<dots> = card (set (map sp_did (filter f ps)))" using distinct_card [OF marked_once_distinct [OF assms(1)]] by simp
  also have "\<dots> \<le> card {d. \<exists>i\<in>set ms. E i d}"
  proof (rule card_mono)
    have "{d. \<exists>i\<in>set ms. E i d} \<subseteq> (\<lambda>i. the (cx_from (in_context i))) ` set ms" using sender by force
    then show "finite {d. \<exists>i\<in>set ms. E i d}" by (rule finite_subset) simp
  qed (use sub in auto)
  finally show ?thesis .
qed

lemma new_coherent:
  assumes "sinv st" "content st CATEGORY_SESSION = Map.empty"
  shows "sc_coherent sinv content env (sc_new did st)" "sc_view content env (sc_new did st) sid = None"
  using assms by (auto simp: sc_coherent_def sc_view_def sc_new_def)

text \<open>
  C4. A session reaches the state in which its signatures are combined only with a quorum: in every
  run of the handlers, with restarts and failing writes, a session that is being combined,
  distributed or completed has its required number of different DIDs that each sent an
  authenticated partial signature bound to this session, its suite and its object digest, and as
  many that sent an authenticated consent.
\<close>

theorem signing_quorum:
  assumes "storage_provider ops sinv content" "session_codec_ok env" "sinv st" "content st CATEGORY_SESSION = Map.empty"
    and small: "\<forall>i\<in>set (delivered evs). small_group cd i"
    and view: "sc_view content env (signing_run ops env cd evs (sc_new did st)) sid = Some x"
    and state: "ss_state x \<in> {Combining, Distributing, Completed}"
  shows "unat (required_signatures x) \<le> card {d. \<exists>i\<in>set (delivered evs). signature_by cd x i d} \<and>
    unat (required_signatures x) \<le> card {d. \<exists>i\<in>set (delivered evs). consent_by cd x i d}"
proof -
  note new = new_coherent [of sinv st content, OF assms(3,4)]
  have inv: "session_inv cd (set (delivered evs)) x"
  proof (rule storage_provider.run_invariant [OF assms(1,2) new(1) _ _ _ view])
    show "\<forall>sid x. sc_view content env (sc_new did st) sid = Some x \<longrightarrow> session_inv cd (set (delivered evs)) x" by (simp add: new(2))
  qed (use small in \<open>auto intro: session_inv_created session_inv_step\<close>)
  note cnt = session_inv_counts [OF inv]
  have "unat (required_signatures x) \<le> card {d. \<exists>i\<in>set (delivered evs). signature_by cd x i d}"
    using inv cnt(2) state
    by (intro quorum_card [of sp_signed "ss_participants x"]) (auto simp: session_inv_def signed_count_def signature_by_def)
  moreover have "unat (required_signatures x) \<le> card {d. \<exists>i\<in>set (delivered evs). consent_by cd x i d}"
    using inv cnt(1) state
    by (intro quorum_card [of sp_consented "ss_participants x"]) (auto simp: session_inv_def consented_count_def consent_by_def)
  ultimately show ?thesis ..
qed

section \<open>Ended sessions, and signatures that come too early\<close>

definition creates :: "signing_codec \<Rightarrow> inbound_message \<Rightarrow> string \<Rightarrow> bool" where
  "creates cd i sid \<longleftrightarrow>
     msg_type (in_message i) = PIURI_PROPOSE_SIGNING \<and> (\<exists>b. cd_propose cd (msg_body (in_message i)) = Inr b \<and> pp_session_id b = sid) \<or>
     msg_type (in_message i) = PIURI_REQUEST_SIGNING \<and> (\<exists>b. cd_request cd (msg_body (in_message i)) = Inr b \<and> rq_session_id b = sid)"

lemma created_creates: "session_created cd i sid y \<Longrightarrow> creates cd i sid"
  by (auto simp: session_created_def creates_def)

context storage_provider
begin

lemma run_steps:
  assumes "session_codec_ok env" "sc_coherent inv content env s" "\<forall>i\<in>set (delivered evs). \<not> creates cd i sid"
    and "sc_view content env s sid = Some x"
  shows "\<exists>y. sc_view content env (signing_run ops env cd evs s) sid = Some y \<and> (\<lambda>x y. \<exists>i. session_step cd i x y)\<^sup>*\<^sup>* x y"
  using assms(2-)
proof (induction evs arbitrary: s x)
  case (Cons e evs)
  let ?s = "signing_exec ops env cd e s"
  have "\<exists>y. sc_view content env ?s sid = Some y \<and> (\<lambda>x y. \<exists>i. session_step cd i x y)\<^sup>*\<^sup>* x y"
  proof (cases e)
    case Restart
    then show ?thesis using exec_refines(2) [OF assms(1) Cons.prems(1), of cd e] Cons.prems(3) by auto
  next
    case (Deliver nows uuid i)
    then have "session_moves cd i sid (Some x) (sc_view content env ?s sid)" "\<not> creates cd i sid"
      using exec_refines(2) [OF assms(1) Cons.prems(1), of cd e] Cons.prems(2,3) by (auto dest: spec [of _ sid])
    then show ?thesis
      by (auto simp: session_moves_def dest: created_creates elim!: rtranclp_mono [THEN predicate2D, rotated])
  qed
  then obtain y where y: "sc_view content env ?s sid = Some y" "(\<lambda>x y. \<exists>i. session_step cd i x y)\<^sup>*\<^sup>* x y" by blast
  have "\<forall>i\<in>set (delivered evs). \<not> creates cd i sid" using Cons.prems(2) by (cases e) auto
  from Cons.IH [OF exec_refines(1) [OF assms(1) Cons.prems(1)] this y(1)] show ?case
    using y(2) by (auto intro: rtranclp_trans)
qed auto

end

lemma step_state: "session_step cd i x y \<Longrightarrow> can_transition_to\<^sup>*\<^sup>* (ss_state x) (ss_state y)"
  by (induction rule: session_step.induct) auto

lemma steps_state: "(\<lambda>x y. \<exists>i. session_step cd i x y)\<^sup>*\<^sup>* x y \<Longrightarrow> can_transition_to\<^sup>*\<^sup>* (ss_state x) (ss_state y)"
  by (induction rule: rtranclp_induct) (auto intro: rtranclp_trans step_state)

lemma terminal_stays: "can_transition_to\<^sup>*\<^sup>* a b \<Longrightarrow> is_terminal a \<Longrightarrow> b = a"
  by (induction rule: converse_rtranclp_induct) (auto simp: terminal_no_transition)

text \<open>
  C27. As long as nobody proposes or requests the session again, its state moves only along permitted
  transitions; in particular a completed, declined, failed or abandoned session stays as it is.
\<close>

theorem session_lifecycle:
  assumes "storage_provider ops sinv content" "session_codec_ok env" "sc_coherent sinv content env s"
    and "\<forall>i\<in>set (delivered evs). \<not> creates cd i sid" and "sc_view content env s sid = Some x"
  shows "\<exists>y. sc_view content env (signing_run ops env cd evs s) sid = Some y \<and> can_transition_to\<^sup>*\<^sup>* (ss_state x) (ss_state y) \<and>
    (is_terminal (ss_state x) \<longrightarrow> ss_state y = ss_state x)"
  using storage_provider.run_steps [OF assms] steps_state terminal_stays by blast

text \<open>Every participant has signed, but the signatures were not combined.\<close>

definition all_signed_uncombined :: "signing_session \<Rightarrow> bool" where
  "all_signed_uncombined x \<longleftrightarrow> (\<forall>p\<in>set (ss_participants x). sp_signed p) \<and> ss_state x \<notin> {Combining, Distributing, Completed}"

lemma participant_of_in: "participant_of x did = Some p \<Longrightarrow> p \<in> set (ss_participants x)"
  by (auto simp: participant_of_def find_Some_iff)

lemma uncombined_step: "session_step cd i x y \<Longrightarrow> all_signed_uncombined x \<Longrightarrow> all_signed_uncombined y"
  by (induction rule: session_step.induct)
    (auto simp: all_signed_uncombined_def mark_consented_def can_transition_to_def dest!: update_first_set participant_of_in)

text \<open>
  \<open>handle_partial_signature\<close> records a signature in every state of the session, although only a
  session in the signing state can go on to combine. When all participants have sent theirs before
  that, the session can never be combined any more, whatever is delivered.
\<close>

theorem early_signatures_block:
  assumes "storage_provider ops sinv content" "session_codec_ok env" "sc_coherent sinv content env s"
    and "\<forall>i\<in>set (delivered evs). \<not> creates cd i sid" and "sc_view content env s sid = Some x" "all_signed_uncombined x"
  shows "\<exists>y. sc_view content env (signing_run ops env cd evs s) sid = Some y \<and> ss_state y \<notin> {Combining, Distributing, Completed}"
proof -
  obtain y where y: "sc_view content env (signing_run ops env cd evs s) sid = Some y" "(\<lambda>x y. \<exists>i. session_step cd i x y)\<^sup>*\<^sup>* x y"
    using storage_provider.run_steps [OF assms(1-5)] by blast
  from y(2) assms(6) have "all_signed_uncombined y" by (induction rule: rtranclp_induct) (auto intro: uncombined_step)
  then show ?thesis using y(1) by (auto simp: all_signed_uncombined_def)
qed

section \<open>Concurrent handlers\<close>

lemma participant_of_other: "a \<noteq> b \<Longrightarrow> participant_of (update_participant b (mark_signed g) now x) a = participant_of x a"
proof -
  assume "a \<noteq> b"
  then have "find (\<lambda>p. sp_did p = a) (update_first (\<lambda>p. sp_did p = b) (mark_signed g) ps) = find (\<lambda>p. sp_did p = a) ps" for ps
    by (induction ps) (auto simp: mark_signed_def)
  then show ?thesis by (simp add: participant_of_def)
qed

context storage_provider
begin

lemma record_signature_writes:
  assumes "session_codec_ok env" "ss_session_id x = sid"
  shows "triple (at_view inv content env (\<lambda>_. True)) (sc_record_signature ops env now sid did g x)
    (\<lambda>_. at_view inv content env (\<lambda>v. v sid = Some (update_participant did (mark_signed g) now x))) (at_view inv content env (\<lambda>_. True))"
  unfolding sc_record_signature_def Let_def
  by (intro session_rules assms(1); auto simp: at_view_def assms(2))

end

text \<open>
  Two signatures that are recorded from the same reading of the session: both calls succeed, and
  the first signature is gone.
\<close>

theorem concurrent_signatures_lost:
  assumes "storage_provider ops sinv content" "session_codec_ok env" "sc_coherent sinv content env s"
    and reads: "sc_require_session ops env sid s = (s1, Inr x)" "sc_require_session ops env sid s1 = (s2, Inr x')"
    and writes: "sc_record_signature ops env t sid a g x s2 = (s3, Inr r)" "sc_record_signature ops env t' sid b g' x' s3 = (s4, Inr r')"
    and "a \<noteq> b"
  shows "\<exists>y. sc_view content env s4 sid = Some y \<and> participant_of y a = participant_of x a \<and> participant_of x a \<noteq> None \<and>
    \<not> sp_signed (the (participant_of x a))"
proof -
  let ?A = "at_view sinv content env"
  note req = storage_provider.sc_require_session_triple [OF assms(1), of env]
  have s: "?A (\<lambda>_. True) s" using assms(3) by (simp add: at_view_def)
  have s1: "?A (\<lambda>v. v sid = Some x) s1" using tripleD_Inr [OF req s reads(1)] by (simp add: at_view_def)
  have s2: "?A (\<lambda>v. v sid = Some x \<and> v sid = Some x') s2" using tripleD_Inr [OF req s1 reads(2)] .
  then have x: "x' = x" "ss_session_id x = sid" by (auto simp: at_view_def sc_coherent_def)
  note wr = storage_provider.record_signature_writes [OF assms(1,2) x(2)]
  have s3: "?A (\<lambda>_. True) s3" using tripleD_Inr [OF wr _ writes(1)] s2 by (simp add: at_view_def)
  have "sc_view content env s4 sid = Some (update_participant b (mark_signed g') t' x)"
    using tripleD_Inr [OF wr s3 writes(2) [unfolded x(1)]] by (simp add: at_view_def)
  moreover have "participant_of x a \<noteq> None \<and> \<not> sp_signed (the (participant_of x a))"
    using writes(1) by (auto simp: sc_record_signature_def seq_def guard_def ok_or_def split: option.splits if_splits)
  ultimately show ?thesis using participant_of_other [OF assms(8)] by auto
qed

section \<open>A concrete group\<close>

text \<open>A codec for the sessions of a list, by their position.\<close>

definition list_env :: "signing_session list \<Rightarrow> signing_env" where
  "list_env xs =
     \<lparr>se_to_vec = (\<lambda>x. case position (\<lambda>y. y = x) xs of None \<Rightarrow> Inl [] | Some n \<Rightarrow> if n < 256 then Inr [of_nat n] else Inl []),
      se_from_slice = (\<lambda>bs. case bs of [b] \<Rightarrow> if unat b < length xs then Inr (xs ! unat b) else Inl [] | _ \<Rightarrow> Inl []),
      se_signatures_to_string = (\<lambda>sgs. Inr (concat sgs)), se_b64_encode = bytes_str, se_b64_decode = (\<lambda>t. Inr (str_bytes t))\<rparr>"

lemma position_Some: "position P xs = Some n \<Longrightarrow> n < length xs \<and> P (xs ! n)"
  by (induction xs arbitrary: n) (auto split: if_splits)

lemma list_env_ok: "session_codec_ok (list_env xs)"
  by (auto simp: session_codec_ok_def list_env_def unsigned_of_nat take_bit_eq_mod split: option.splits if_splits dest!: position_Some)

definition demo_group :: signing_session where
  "demo_group = \<lparr>ss_session_id = ''s'', ss_thread_id = ''m'', ss_object = \<lparr>so_id = ''o'', so_media_type = [], so_canonicalization = None,
      so_digest = \<lparr>dg_alg = [], dg_value = ''h''\<rparr>, so_display_hints = None\<rparr>, ss_suite = \<lparr>su_id = ''q''\<rparr>, ss_constraints = None,
      ss_mode = \<lparr>sm_mode_type = []\<rparr>, ss_threshold = Some \<lparr>tc_scheme = [], tc_n = 1, tc_m = 2, tc_signers = [''a'', ''b''], tc_aggregation = []\<rparr>,
      ss_state = Proposed, ss_participants = [unsigned_participant None ''a'', unsigned_participant None ''b''],
      ss_coordinator_did = ''c'', ss_created_at = ''t'', ss_updated_at = ''t'', ss_expires_at = None, ss_combined_signature = None\<rparr>"

definition demo_binding :: key_binding where "demo_binding = \<lparr>kb_controller = ''a'', kb_proof_purpose = []\<rparr>"

definition demo_consented :: signing_session where
  "demo_consented = update_participant ''a'' (mark_consented demo_binding) ''t'' (demo_group\<lparr>ss_state := Requested\<rparr>)"

definition demo_group_signed :: signing_session where
  "demo_group_signed = update_participant ''a'' (mark_signed ''g'') ''t'' (demo_consented\<lparr>ss_state := Signing\<rparr>)"

definition demo_history :: "signing_session list" where
  "demo_history = [demo_group, demo_group\<lparr>ss_state := Requested\<rparr>, demo_consented, demo_consented\<lparr>ss_state := Consented\<rparr>,
     demo_consented\<lparr>ss_state := Signing\<rparr>, demo_group_signed, demo_group_signed\<lparr>ss_state := Combining\<rparr>,
     demo_group_signed\<lparr>ss_state := Combining, ss_combined_signature := Some ''g''\<rparr>,
     demo_group_signed\<lparr>ss_state := Distributing, ss_combined_signature := Some ''g''\<rparr>]"

definition demo_bodies :: signing_codec where
  "demo_bodies =
     \<lparr>cd_propose = (\<lambda>_. Inl []),
      cd_request = (\<lambda>_. Inr \<lparr>rq_session_id = ''s'', rq_object = ss_object demo_group, rq_suite = ss_suite demo_group, rq_key_binding = None,
        rq_constraints = None, rq_mode = ss_mode demo_group, rq_threshold = ss_threshold demo_group, rq_sealed_secret = None\<rparr>),
      cd_consent = (\<lambda>_. Inr \<lparr>cs_session_id = ''s'', cs_signer_did = ''a'', cs_key_binding = demo_binding, cs_accepted_suite = ss_suite demo_group\<rparr>),
      cd_partial_signature = (\<lambda>_. Inr \<lparr>ps_session_id = ''s'', ps_signer_did = ''a'', ps_signer_index = 1, ps_signature = ''g'',
        ps_suite = ss_suite demo_group, ps_object_digest = ''h''\<rparr>),
      cd_combine = (\<lambda>_. Inl []), cd_provide_artifacts = (\<lambda>_. Inl []), cd_issue_token = (\<lambda>_. Inl []), cd_ack = (\<lambda>_. Inl []),
      cd_decline = (\<lambda>_. Inl []), cd_problem_report = (\<lambda>_. Inl [])\<rparr>"

definition demo_message_from :: "string \<Rightarrow> string \<Rightarrow> inbound_message" where
  "demo_message_from did ty = \<lparr>in_message = message_new ''m'' ty JNull,
     in_context = \<lparr>cx_from = Some did, cx_to = None, cx_thread_id = None, cx_parent_thread_id = None, cx_connection_id = None,
       cx_encrypted = True, cx_authenticated = True, cx_sender_endpoint = None, cx_raw_plaintext = None\<rparr>\<rparr>"

abbreviation demo_deliver :: "string \<Rightarrow> string \<Rightarrow> signing_input" where
  "demo_deliver did ty \<equiv> Deliver (\<lambda>_. ''t'') ''u'' (demo_message_from did ty)"

definition demo_inputs :: "signing_input list" where
  "demo_inputs = [demo_deliver ''c'' PIURI_REQUEST_SIGNING, Restart, demo_deliver ''a'' PIURI_CONSENT, demo_deliver ''a'' PIURI_PARTIAL_SIGNATURE]"

lemma demo_signing_run:
  "sc_view mem_content (list_env demo_history) (signing_run memory_ops (list_env demo_history) demo_bodies demo_inputs (sc_new ''c'' [])) ''s'' =
     Some (demo_group_signed\<lparr>ss_state := Distributing, ss_combined_signature := Some ''g''\<rparr>)"
  by code_simp

theorem signing_quorum_witness:
  "let x = demo_group_signed\<lparr>ss_state := Distributing, ss_combined_signature := Some ''g''\<rparr>
   in unat (required_signatures x) \<le> card {d. \<exists>i\<in>set (delivered demo_inputs). signature_by demo_bodies x i d} \<and>
      unat (required_signatures x) \<le> card {d. \<exists>i\<in>set (delivered demo_inputs). consent_by demo_bodies x i d}"
  unfolding Let_def
proof (rule signing_quorum [OF memory.storage_provider_axioms list_env_ok _ _ _ demo_signing_run])
  show "\<forall>i\<in>set (delivered demo_inputs). small_group demo_bodies i"
    by (simp add: demo_inputs_def small_group_def demo_bodies_def demo_group_def)
qed (simp_all add: mem_inv_def mem_content_def mem_category_def fun_eq_iff)

text \<open>A coordinator that knows one session.\<close>

definition demo_knows :: "signing_session \<Rightarrow> signing_session list \<Rightarrow> memory_storage coordinator" where
  "demo_knows x xs = fst (sc_store memory_ops (list_env (x # xs)) (ss_session_id x) x (sc_new ''c'' []))"

lemma demo_knows:
  "sc_coherent mem_inv mem_content (list_env (x # xs)) (demo_knows x xs)"
  "sc_view mem_content (list_env (x # xs)) (demo_knows x xs) (ss_session_id x) = Some x"
proof -
  let ?A = "at_view mem_inv mem_content (list_env (x # xs))"
  have stored: "sc_store memory_ops (list_env (x # xs)) (ss_session_id x) x (sc_new ''c'' []) = (demo_knows x xs, Inr ())"
    by (simp add: demo_knows_def sc_store_def sc_save_session_def sc_cache_def list_env_def update_or_save_def memory_ops_def
        mem_update_def mem_save_def mem_category_def sc_new_def session_record_def record_add_tag_def record_new_def seq_def Let_def)
  have "?A (\<lambda>_. True) (sc_new ''c'' [])"
    using new_coherent [of mem_inv "[]" mem_content]
    by (simp add: at_view_def mem_inv_def mem_content_def mem_category_def fun_eq_iff)
  from tripleD_Inr [OF memory.sc_store_triple [OF list_env_ok refl, where Q = "\<lambda>v. v (ss_session_id x) = Some x" and R = "\<lambda>_. True"] this stored]
  show "sc_coherent mem_inv mem_content (list_env (x # xs)) (demo_knows x xs)"
    "sc_view mem_content (list_env (x # xs)) (demo_knows x xs) (ss_session_id x) = Some x"
    by (simp_all add: at_view_def)
qed

theorem session_lifecycle_witness:
  "\<exists>y. sc_view mem_content (list_env (demo_group # demo_history)) (signing_run memory_ops (list_env (demo_group # demo_history)) demo_bodies
      [Restart, demo_deliver ''a'' PIURI_CONSENT] (demo_knows demo_group demo_history)) ''s'' = Some y \<and>
    can_transition_to\<^sup>*\<^sup>* (ss_state demo_group) (ss_state y) \<and> (is_terminal (ss_state demo_group) \<longrightarrow> ss_state y = ss_state demo_group)"
proof (rule session_lifecycle [OF memory.storage_provider_axioms list_env_ok demo_knows(1)])
  show "sc_view mem_content (list_env (demo_group # demo_history)) (demo_knows demo_group demo_history) ''s'' = Some demo_group"
    using demo_knows(2) [of demo_group demo_history] by (simp add: demo_group_def)
qed (simp add: creates_def demo_message_from_def message_new_def piuri_defs)

definition demo_early :: signing_session where
  "demo_early = demo_group\<lparr>ss_state := Requested, ss_participants := map (mark_signed ''g'') (ss_participants demo_group)\<rparr>"

theorem early_signatures_block_witness:
  "\<exists>y. sc_view mem_content (list_env [demo_early]) (signing_run memory_ops (list_env [demo_early])
      demo_bodies [demo_deliver ''a'' PIURI_PARTIAL_SIGNATURE] (demo_knows demo_early [])) ''s'' = Some y \<and>
    ss_state y \<notin> {Combining, Distributing, Completed}"
proof (rule early_signatures_block [OF memory.storage_provider_axioms list_env_ok demo_knows(1)])
  show "sc_view mem_content (list_env [demo_early]) (demo_knows demo_early []) ''s'' =
      Some demo_early"
    using demo_knows(2) [of demo_early "[]"] by (simp add: demo_early_def demo_group_def)
qed (simp_all add: creates_def demo_message_from_def message_new_def piuri_defs all_signed_uncombined_def demo_early_def demo_group_def mark_signed_def)

abbreviation demo_race_env :: signing_env where
  "demo_race_env \<equiv> list_env [demo_group, update_participant ''a'' (mark_signed ''g'') ''t'' demo_group, update_participant ''b'' (mark_signed ''g'') ''t'' demo_group]"

definition demo_race :: "memory_storage coordinator" where
  "demo_race = demo_knows demo_group [update_participant ''a'' (mark_signed ''g'') ''t'' demo_group, update_participant ''b'' (mark_signed ''g'') ''t'' demo_group]"

lemma demo_race_reads: "sc_require_session memory_ops demo_race_env ''s'' demo_race = (demo_race, Inr demo_group)"
  by code_simp

lemma demo_race_writes:
  "snd (sc_record_signature memory_ops demo_race_env ''t'' ''s'' ''a'' ''g'' demo_group demo_race) = Inr True"
  "snd (sc_record_signature memory_ops demo_race_env ''t'' ''s'' ''b'' ''g'' demo_group
     (fst (sc_record_signature memory_ops demo_race_env ''t'' ''s'' ''a'' ''g'' demo_group demo_race))) = Inr True"
  by code_simp+

theorem concurrent_signatures_lost_witness:
  "\<exists>s y. sc_view mem_content demo_race_env s ''s'' = Some y \<and> participant_of y ''a'' = participant_of demo_group ''a'' \<and>
    participant_of demo_group ''a'' \<noteq> None \<and> \<not> sp_signed (the (participant_of demo_group ''a''))"
proof -
  have c: "sc_coherent mem_inv mem_content demo_race_env demo_race" unfolding demo_race_def by (rule demo_knows(1))
  obtain s3 where s3: "sc_record_signature memory_ops demo_race_env ''t'' ''s'' ''a'' ''g'' demo_group demo_race = (s3, Inr True)"
    using demo_race_writes(1) by (metis prod.collapse)
  then obtain s4 where "sc_record_signature memory_ops demo_race_env ''t'' ''s'' ''b'' ''g'' demo_group s3 = (s4, Inr True)"
    using demo_race_writes(2) by (metis fst_conv prod.collapse)
  from concurrent_signatures_lost [OF memory.storage_provider_axioms list_env_ok c demo_race_reads demo_race_reads s3 this]
  show ?thesis by auto
qed

text \<open>
  \<open>handle_combine\<close> acknowledges a combined signature without keeping it: the coordinator's
  sessions are what they were.
\<close>

lemma combine_not_recorded:
  assumes "storage_provider ops sinv content" "sc_coherent sinv content env s"
  shows "sc_view content env (fst (handle_combine ops env cd uuid i s)) = sc_view content env s"
proof -
  have "keeps (at_view sinv content env (\<lambda>v. v = sc_view content env s)) (handle_combine ops env cd uuid i)"
    unfolding handle_combine_def
    by (intro parse_body_seq triple_seq [OF storage_provider.get_session_keeps [OF assms(1)]] response_seq triple_ok) auto
  from keeps_fst [OF this, of s] assms(2) show ?thesis by (simp add: at_view_def)
qed

text \<open>
  A proposal from any authenticated sender replaces an existing session with the same id, whatever
  its state: here a session that is being distributed is proposed anew.
\<close>

lemma propose_replaces_session:
  assumes "storage_provider ops sinv content" "session_codec_ok env" "sc_coherent sinv content env s"
    and "cx_authenticated (in_context i)" "cx_from (in_context i) = Some f" "msg_type (in_message i) = PIURI_PROPOSE_SIGNING"
    and "cd_propose cd (msg_body (in_message i)) = Inr b" "signing_handle ops env cd nows uuid i s = (s', Inr r)"
  shows "\<exists>y. sc_view content env s' (pp_session_id b) = Some y \<and> ss_state y = Proposed \<and> ss_object y = pp_object b"
proof -
  let ?Q = "\<lambda>v. \<exists>y. v (pp_session_id b) = Some y \<and> ss_state y = Proposed \<and> ss_object y = pp_object b"
  have t: "triple (at_view sinv content env (\<lambda>_. True)) (handle_propose_signing ops env cd nows uuid i)
      (\<lambda>_. at_view sinv content env ?Q) (at_view sinv content env (\<lambda>_. True))"
    unfolding handle_propose_signing_def Let_def
    by (intro parse_body_seq triple_seq [OF storage_provider.create_triple [OF assms(1,2), where Q = ?Q]] response_seq triple_ok)
      (auto simp: new_session_def assms(7))
  from assms(4-6,8) obtain r' where "handle_propose_signing ops env cd nows uuid i s = (s', Inr r')"
    by (auto simp: signing_handle_def signing_dispatch_def Let_def split: prod.splits sum.splits option.splits)
  from tripleD_Inr [OF t _ this] assms(3) show ?thesis by (simp add: at_view_def)
qed

end
