(* ===== verification/Workflow_Engine.thy ===== *)
theory Workflow_Engine
  imports Fallible Didcomm_Message
begin

text \<open>
  The workflow protocol's domain and engine: \<open>domain/\<close>, \<open>engine/\<close>, \<open>actions/registry.rs\<close>,
  the errors of \<open>lib.rs\<close> and the records of \<open>repository/\<close> in \<open>protocols/workflow/src\<close>.
  JMESPath is a crate: compiling and searching an expression is a function of the expression and
  the JSON environment. Action handlers registered by the agent are functions of their context,
  which return a result or run into the registry's time limit.
\<close>

section \<open>Templates\<close>

datatype state_type = StartState | NormalState | FinalState

record state_def =
  sd_name :: string
  sd_state_type :: state_type
  sd_section :: "string option"

record transition_def =
  td_from :: string
  td_to :: string
  td_on :: string
  td_guard :: "string option"
  td_action :: "string option"

record action_def =
  ac_key :: string
  ac_type_uri :: string
  ac_profile_ref :: "string option"
  ac_static_input :: "json option"

record section_def =
  sn_name :: string
  sn_order :: "int option"
  sn_icon :: "string option"

datatype attribute_spec = ContextAttr string bool | StaticAttr json bool | ComputeAttr string bool

record credential_profile =
  cp_cred_def_id :: "string option"
  cp_attribute_plan :: "(string, attribute_spec) hash_map"
  cp_to_ref :: string
  cp_options :: "json option"

record requested_predicate =
  rp_name :: string
  rp_p_type :: string
  rp_p_value :: json

record proof_profile =
  pf_cred_def_id :: "string option"
  pf_schema_id :: "string option"
  pf_requested_attributes :: "string list"
  pf_requested_predicates :: "requested_predicate list"
  pf_to_ref :: string
  pf_options :: "json option"

record catalog =
  ca_credential_profiles :: "(string, credential_profile) hash_map"
  ca_proof_profiles :: "(string, proof_profile) hash_map"
  ca_defaults :: "json option"

record ui_item =
  ui_item_type :: string
  ui_properties :: json

datatype policy_mode = SingletonPerConnection | MultiPerConnection

record instance_policy =
  ip_mode :: policy_mode
  ip_multiplicity_key :: "string option"

record workflow_template =
  wt_template_id :: string
  wt_version :: string
  wt_title :: string
  wt_instance_policy :: instance_policy
  wt_sections :: "section_def list"
  wt_states :: "state_def list"
  wt_transitions :: "transition_def list"
  wt_catalog :: catalog
  wt_actions :: "action_def list"
  wt_display_hints :: "(string, ui_item list) hash_map option"

definition start_state :: "workflow_template \<Rightarrow> state_def option" where
  "start_state t = find (\<lambda>s. sd_state_type s = StartState) (wt_states t)"

definition find_state :: "workflow_template \<Rightarrow> string \<Rightarrow> state_def option" where
  "find_state t name = find (\<lambda>s. sd_name s = name) (wt_states t)"

definition find_action :: "workflow_template \<Rightarrow> string \<Rightarrow> action_def option" where
  "find_action t key = find (\<lambda>a. ac_key a = key) (wt_actions t)"

definition transitions_from :: "workflow_template \<Rightarrow> string \<Rightarrow> string \<Rightarrow> transition_def list" where
  "transitions_from t state event = filter (\<lambda>r. td_from r = state \<and> td_on r = event) (wt_transitions t)"

section \<open>Instances\<close>

datatype instance_status = InstActive | InstPaused | InstCanceled | InstCompleted | InstError

fun instance_status_str :: "instance_status \<Rightarrow> string" where
  "instance_status_str InstActive = ''active''"
| "instance_status_str InstPaused = ''paused''"
| "instance_status_str InstCanceled = ''canceled''"
| "instance_status_str InstCompleted = ''completed''"
| "instance_status_str InstError = ''error''"

datatype workflow_role = Coordinator | Processor

type_synonym participant = string \<comment> \<open>the single field \<open>did\<close>\<close>

record history_item =
  hi_ts :: string
  hi_event :: string
  hi_from :: string
  hi_to :: string
  hi_action_key :: "string option"
  hi_msg_id :: "string option"

record instance_data =
  in_instance_id :: string
  in_template_id :: string
  in_template_version :: string
  in_connection_id :: "string option"
  in_participants :: "(string, participant) hash_map"
  in_state :: string
  in_section :: "string option"
  in_ctx :: json
  in_artifacts :: json
  in_status :: instance_status
  in_history :: "history_item list"
  in_multiplicity_key_value :: "string option"
  in_idempotency_keys :: "string list"

record instance_record =
  ir_id :: string
  ir_data :: instance_data
  ir_role :: workflow_role
  ir_created_at :: timestamp
  ir_updated_at :: timestamp

record template_record =
  tr_id :: string
  tr_template_id :: string
  tr_version :: string
  tr_title :: string
  tr_hash :: string
  tr_template :: workflow_template
  tr_created_at :: timestamp
  tr_updated_at :: timestamp

datatype workflow_error =
    InstanceNotFound string | TemplateNotFound string | InvalidTransitionFrom string string
  | InvalidStatus instance_status string | NoEnabledTransition string string | PolicyViolation string
  | ActionFailed string | ActionTimeout nat | ActionHandlerNotFound string | ValidationFailed string
  | IdempotentDuplicate string | ConnectionMismatch string string | WfSerialization string | WfRepository string | WfInternal string

section \<open>Guards and attributes\<close>

text \<open>A number is what \<open>as_f64\<close> makes of it: mantissa and exponent, or nothing.\<close>

datatype jm_variable = JmNull | JmBool bool | JmString string | JmNumber "(int \<times> int) option" | JmArray "json list" | JmObject "(string \<times> json) list" | JmExpref

datatype jm_outcome = JmCompileError | JmSearchError | JmFound jm_variable

type_synonym jmespath = "string \<Rightarrow> json \<Rightarrow> jm_outcome"

definition workflow_env :: "json \<Rightarrow> (string, participant) hash_map \<Rightarrow> json \<Rightarrow> json" where
  "workflow_env context participants artifacts =
     JObject [(''context'', context), (''participants'', JObject (map (\<lambda>(n, did). (n, JObject [(''did'', JString did)])) participants)),
              (''artifacts'', artifacts)]"

fun is_truthy :: "jm_variable \<Rightarrow> bool" where
  "is_truthy JmNull = False"
| "is_truthy (JmBool b) = b"
| "is_truthy (JmString s) = (s \<noteq> [])"
| "is_truthy (JmNumber n) = (case n of None \<Rightarrow> False | Some (m, e) \<Rightarrow> m \<noteq> 0)"
| "is_truthy (JmArray a) = (a \<noteq> [])"
| "is_truthy (JmObject a) = (a \<noteq> [])"
| "is_truthy JmExpref = True"

definition guard_eval :: "jmespath \<Rightarrow> string option \<Rightarrow> json \<Rightarrow> (string, participant) hash_map \<Rightarrow> json \<Rightarrow> bool" where
  "guard_eval jm expr context participants artifacts =
     (case expr of
        None \<Rightarrow> True
      | Some e \<Rightarrow> if e = [] then True
                  else (case jm e (workflow_env context participants artifacts) of
                          JmFound r \<Rightarrow> is_truthy r | JmSearchError \<Rightarrow> False | JmCompileError \<Rightarrow> False))"

text \<open>\<open>str::split('.')\<close>: a string without a dot is one segment, also when it is empty.\<close>

fun split_dots :: "string \<Rightarrow> string list" where
  "split_dots [] = [[]]"
| "split_dots (c # s) =
     (if c = CHR ''.'' then [] # split_dots s
      else case split_dots s of [] \<Rightarrow> [[c]] | seg # segs \<Rightarrow> (c # seg) # segs)"

fun resolve_segments :: "json \<Rightarrow> string list \<Rightarrow> json option" where
  "resolve_segments v [] = Some v"
| "resolve_segments v (seg # segs) = (case json_get v seg of None \<Rightarrow> None | Some v \<Rightarrow> resolve_segments v segs)"

definition resolve_dot_path :: "json \<Rightarrow> string \<Rightarrow> json option" where
  "resolve_dot_path value path = resolve_segments value (split_dots path)"

text \<open>\<open>to_json\<close> is the way from a JMESPath value back to JSON through its text.\<close>

definition evaluate_jmespath :: "jmespath \<Rightarrow> (jm_variable \<Rightarrow> json option) \<Rightarrow> string \<Rightarrow> json \<Rightarrow> json option" where
  "evaluate_jmespath jm to_json expr env = (case jm expr env of JmFound v \<Rightarrow> to_json v | _ \<Rightarrow> None)"

definition resolve_attribute :: "jmespath \<Rightarrow> (jm_variable \<Rightarrow> json option) \<Rightarrow> json \<Rightarrow> (string, participant) hash_map \<Rightarrow> json \<Rightarrow> attribute_spec \<Rightarrow> json" where
  "resolve_attribute jm to_json context participants artifacts spec =
     (case spec of
        ContextAttr path _ \<Rightarrow> (case resolve_dot_path context path of None \<Rightarrow> JNull | Some v \<Rightarrow> v)
      | StaticAttr value _ \<Rightarrow> value
      | ComputeAttr expr _ \<Rightarrow> (case evaluate_jmespath jm to_json expr (workflow_env context participants artifacts) of None \<Rightarrow> JNull | Some v \<Rightarrow> v))"

definition resolve_attributes ::
  "jmespath \<Rightarrow> (jm_variable \<Rightarrow> json option) \<Rightarrow> (string, attribute_spec) hash_map \<Rightarrow> json \<Rightarrow> (string, participant) hash_map \<Rightarrow> json \<Rightarrow> (string, json) hash_map" where
  "resolve_attributes jm to_json plan context participants artifacts =
     fold (\<lambda>(name, spec) r. hm_insert name (resolve_attribute jm to_json context participants artifacts spec) r) plan []"

fun json_as_object :: "json \<Rightarrow> (string \<times> json) list option" where
  "json_as_object (JObject m) = Some m"
| "json_as_object _ = None"

definition merge_json :: "json \<Rightarrow> json \<Rightarrow> json" where
  "merge_json target source =
     (case (target, source) of
        (JObject t, JObject s) \<Rightarrow> JObject (fold (\<lambda>(k, v). AList.update k v) s t)
      | _ \<Rightarrow> target)"

section \<open>Actions\<close>

record action_context =
  ax_template :: workflow_template
  ax_instance :: instance_data
  ax_action :: action_def
  ax_input :: "json option"

record action_result =
  ar_artifacts :: "json option"
  ar_context_merge :: "json option"
  ar_message_id :: "string option"

definition action_result_default :: action_result where
  "action_result_default = \<lparr>ar_artifacts = None, ar_context_merge = None, ar_message_id = None\<rparr>"

datatype action_outcome = ActionReturns "workflow_error + action_result" | ActionHangs

type_synonym action_handler = "action_context \<Rightarrow> action_outcome"

record action_registry =
  rg_handlers :: "(string, action_handler) hash_map"
  rg_timeout :: nat

definition STATE_SET_URI :: string where "STATE_SET_URI = ''https://didcomm.org/workflow/actions/state:set@1''"

definition insert_all :: "(string \<times> json) list \<Rightarrow> (string \<times> json) list \<Rightarrow> (string \<times> json) list" where
  "insert_all obj m = fold (\<lambda>(k, v). AList.update k v) obj m"

definition state_set_execute :: action_handler where
  "state_set_execute ctx =
     (let merged = (case ac_static_input (ax_action ctx) of
            None \<Rightarrow> []
          | Some static \<Rightarrow>
              let is_legacy = json_get static ''merge'' \<noteq> None \<and> (case json_as_object static of None \<Rightarrow> False | Some m \<Rightarrow> length m = 1);
                  base = (if is_legacy then the (json_get static ''merge'') else static)
              in (case json_as_object base of None \<Rightarrow> [] | Some obj \<Rightarrow> insert_all obj []));
          merged = (case ax_input ctx of
            None \<Rightarrow> merged
          | Some v \<Rightarrow> (case json_as_object v of None \<Rightarrow> merged | Some obj \<Rightarrow> insert_all obj merged))
      in ActionReturns (Inr \<lparr>ar_artifacts = None, ar_context_merge = (if merged = [] then None else Some (JObject merged)), ar_message_id = None\<rparr>))"

definition rg_register :: "string \<Rightarrow> action_handler \<Rightarrow> action_registry \<Rightarrow> action_registry" where
  "rg_register uri handler r = r\<lparr>rg_handlers := hm_insert uri handler (rg_handlers r)\<rparr>"

definition rg_new :: action_registry where
  "rg_new = rg_register STATE_SET_URI state_set_execute \<lparr>rg_handlers = [], rg_timeout = 15\<rparr>"

definition rg_with_timeout :: "nat \<Rightarrow> action_registry \<Rightarrow> action_registry" where
  "rg_with_timeout t r = r\<lparr>rg_timeout := t\<rparr>"

definition rg_execute :: "action_registry \<Rightarrow> action_def \<Rightarrow> action_context \<Rightarrow> workflow_error + action_result" where
  "rg_execute r action ctx =
     (case hm_get (rg_handlers r) (ac_type_uri action) of
        None \<Rightarrow> Inl (ActionHandlerNotFound (ac_type_uri action))
      | Some handler \<Rightarrow> (case handler ctx of ActionReturns res \<Rightarrow> res | ActionHangs \<Rightarrow> Inl (ActionTimeout (rg_timeout r))))"

section \<open>Lemmas\<close>

lemma merge_json_get:
  "json_get (merge_json (JObject t) (JObject s)) k = (case map_of (rev s) k of None \<Rightarrow> map_of t k | Some v \<Rightarrow> Some v)"
proof -
  have "map_of (fold (\<lambda>(k, v). AList.update k v) s t) k = (case map_of (rev s) k of None \<Rightarrow> map_of t k | Some v \<Rightarrow> Some v)"
    by (induction s arbitrary: t) (auto simp: map_add_def split: option.splits)
  then show ?thesis by (simp add: merge_json_def)
qed

lemma resolve_attributes_get:
  assumes "hm_wf plan"
  shows "hm_get (resolve_attributes jm to_json plan c p a) k = map_option (resolve_attribute jm to_json c p a) (hm_get plan k)"
proof -
  have "hm_get (fold (\<lambda>(n, spec) r. hm_insert n (resolve_attribute jm to_json c p a spec) r) plan r) k =
      (case hm_get plan k of None \<Rightarrow> hm_get r k | Some spec \<Rightarrow> Some (resolve_attribute jm to_json c p a spec))" for r
    using hm_fold_pointwise [OF assms, of "\<lambda>s k. hm_get s k" "\<lambda>n spec r. hm_insert n (resolve_attribute jm to_json c p a spec) r"
        "\<lambda>n spec _. Some (resolve_attribute jm to_json c p a spec)" r k] by simp
  then show ?thesis by (simp add: resolve_attributes_def split: option.splits)
qed

lemma split_dots_not_empty [simp]: "split_dots s \<noteq> []"
  by (induction s) (auto split: list.splits)

text \<open>Splitting at the dots loses nothing.\<close>

fun join_dots :: "string list \<Rightarrow> string" where
  "join_dots [] = []"
| "join_dots [s] = s"
| "join_dots (s # t # ts) = s @ ''.'' @ join_dots (t # ts)"

lemma join_split_dots: "join_dots (split_dots s) = s"
proof (induction s)
  case (Cons c s)
  obtain x xs where x: "split_dots s = x # xs" by (cases "split_dots s") auto
  show ?case using Cons x by (cases xs) auto
qed simp

lemma find_state_in: "find_state t n = Some s \<Longrightarrow> s \<in> set (wt_states t) \<and> sd_name s = n"
  by (auto simp: find_state_def find_Some_iff)

lemma find_state_some: "n \<in> sd_name ` set (wt_states t) \<Longrightarrow> \<exists>s. find_state t n = Some s"
  by (auto simp: find_state_def) (metis (mono_tags) find_None_iff not_None_eq)

end
