(* ===== verification/Workflow_Service.thy ===== *)
theory Workflow_Service
  imports Workflow_Engine
begin

text \<open>
  The workflow service: \<open>services/workflow_service.rs\<close> over the in-memory repositories of
  \<open>repository/\<close> (\<open>protocols/workflow/src\<close>). Hashing a template is a function of the template;
  \<open>nows\<close> are the readings of the clock and \<open>uuid\<close> the id drawn for a new record. The lock per
  instance serialises advances; the other operations do not take it, so an advance is split where
  they can come in between: at the lookups and at the execution of the action.
\<close>

record wf_env =
  we_jmespath :: jmespath
  we_hash :: "workflow_template \<Rightarrow> string"
  we_rfc3339 :: "timestamp \<Rightarrow> string"

datatype workflow_event =
    WfStateChanged string "string option" string string string "string option"
  | WfStatusChanged string instance_status instance_status string "string option"
  | WfCompleted string string "string option" string "string option"

record workflow =
  wf_templates :: "(string, template_record) hash_map"
  wf_instances :: "(string, instance_record) hash_map"
  wf_registry :: action_registry
  wf_event_bus :: "workflow_event list option"

type_synonym 'a wf_prog = "(workflow, workflow_error, 'a) prog"

definition wf_new :: "action_registry \<Rightarrow> workflow" where
  "wf_new r = \<lparr>wf_templates = [], wf_instances = [], wf_registry = r, wf_event_bus = None\<rparr>"

definition wf_with_event_bus :: "workflow \<Rightarrow> workflow" where
  "wf_with_event_bus s = s\<lparr>wf_event_bus := Some []\<rparr>"

section \<open>Repositories\<close>

definition tr_save :: "template_record \<Rightarrow> unit wf_prog" where
  "tr_save r = modify (\<lambda>s. s\<lparr>wf_templates := hm_insert (tr_id r) r (wf_templates s)\<rparr>)"

definition tr_update :: "template_record \<Rightarrow> unit wf_prog" where
  "tr_update r s =
     (if \<not> hm_contains (wf_templates s) (tr_id r) then (s, Inl (TemplateNotFound (tr_id r)))
      else (s\<lparr>wf_templates := hm_insert (tr_id r) r (wf_templates s)\<rparr>, Inr ()))"

text \<open>Without a version the lexicographically greatest one is taken; the sort is stable and descending.\<close>

definition tr_find :: "string \<Rightarrow> string option \<Rightarrow> workflow \<Rightarrow> template_record option" where
  "tr_find template_id version s =
     (let matches = filter (\<lambda>r. tr_template_id r = template_id) (hm_values (wf_templates s))
      in case version of
           Some v \<Rightarrow> find (\<lambda>r. tr_version r = v) matches
         | None \<Rightarrow> (case rev (sort_key tr_version (rev matches)) of [] \<Rightarrow> None | r # _ \<Rightarrow> Some r))"

definition tr_find_all :: "workflow \<Rightarrow> template_record list" where
  "tr_find_all s = hm_values (wf_templates s)"

definition tr_delete :: "string \<Rightarrow> workflow \<Rightarrow> workflow" where
  "tr_delete rid s = s\<lparr>wf_templates := hm_remove rid (wf_templates s)\<rparr>"

definition ir_save :: "instance_record \<Rightarrow> unit wf_prog" where
  "ir_save r = modify (\<lambda>s. s\<lparr>wf_instances := hm_insert (ir_id r) r (wf_instances s)\<rparr>)"

definition ir_update :: "instance_record \<Rightarrow> unit wf_prog" where
  "ir_update r s =
     (if \<not> hm_contains (wf_instances s) (ir_id r) then (s, Inl (InstanceNotFound (ir_id r)))
      else (s\<lparr>wf_instances := hm_insert (ir_id r) r (wf_instances s)\<rparr>, Inr ()))"

definition ir_find :: "string \<Rightarrow> workflow \<Rightarrow> instance_record option" where
  "ir_find instance_id s = find (\<lambda>r. in_instance_id (ir_data r) = instance_id) (hm_values (wf_instances s))"

definition ir_find_by_template_and_connection :: "string \<Rightarrow> string option \<Rightarrow> workflow \<Rightarrow> instance_record list" where
  "ir_find_by_template_and_connection template_id connection_id s =
     filter (\<lambda>r. in_template_id (ir_data r) = template_id \<and> in_connection_id (ir_data r) = connection_id) (hm_values (wf_instances s))"

definition ir_find_by_connection :: "string \<Rightarrow> workflow \<Rightarrow> instance_record list" where
  "ir_find_by_connection connection_id s =
     filter (\<lambda>r. in_connection_id (ir_data r) = Some connection_id) (hm_values (wf_instances s))"

text \<open>\<open>max_by_key\<close> returns the last of several greatest elements.\<close>

definition ir_find_latest_by_connection :: "string \<Rightarrow> workflow \<Rightarrow> instance_record option" where
  "ir_find_latest_by_connection connection_id s =
     (case ir_find_by_connection connection_id s of
        [] \<Rightarrow> None
      | r # rs \<Rightarrow> Some (fold (\<lambda>r best. if ir_created_at r \<ge> ir_created_at best then r else best) rs r))"

definition ir_find_all :: "workflow \<Rightarrow> instance_record list" where
  "ir_find_all s = hm_values (wf_instances s)"

definition ir_delete :: "string \<Rightarrow> workflow \<Rightarrow> workflow" where
  "ir_delete rid s = s\<lparr>wf_instances := hm_remove rid (wf_instances s)\<rparr>"

section \<open>Events\<close>

definition wf_emit :: "workflow_event \<Rightarrow> unit wf_prog" where
  "wf_emit ev = modify (\<lambda>s. s\<lparr>wf_event_bus := map_option (\<lambda>evs. evs @ [ev]) (wf_event_bus s)\<rparr>)"

definition emit_state_changed :: "instance_record \<Rightarrow> string option \<Rightarrow> string \<Rightarrow> unit wf_prog" where
  "emit_state_changed r previous event =
     (let d = ir_data r in wf_emit (WfStateChanged (in_instance_id d) previous (in_state d) event (in_template_id d) (in_connection_id d)))"

definition emit_status_changed :: "instance_record \<Rightarrow> instance_status \<Rightarrow> unit wf_prog" where
  "emit_status_changed r previous =
     (let d = ir_data r in wf_emit (WfStatusChanged (in_instance_id d) previous (in_status d) (in_template_id d) (in_connection_id d)))"

definition emit_completed :: "instance_record \<Rightarrow> unit wf_prog" where
  "emit_completed r =
     (let d = ir_data r in wf_emit (WfCompleted (in_instance_id d) (in_state d) (in_section d) (in_template_id d) (in_connection_id d)))"

section \<open>Templates\<close>

fun validate_transitions :: "workflow_template \<Rightarrow> transition_def list \<Rightarrow> workflow_error + unit" where
  "validate_transitions t [] = Inr ()"
| "validate_transitions t (r # rs) =
     (let names = map sd_name (wt_states t)
      in if td_from r \<notin> set names then Inl (ValidationFailed (''Transition '' @ quoted ''from'' @ '' references unknown state: '' @ quoted (td_from r)))
         else if td_to r \<notin> set names then Inl (ValidationFailed (''Transition '' @ quoted ''to'' @ '' references unknown state: '' @ quoted (td_to r)))
         else case td_action r of
                None \<Rightarrow> validate_transitions t rs
              | Some key \<Rightarrow> if find_action t key = None
                            then Inl (ValidationFailed (''Transition action references unknown action key: '' @ quoted key))
                            else validate_transitions t rs)"

definition validate_template :: "workflow_template \<Rightarrow> workflow_error + unit" where
  "validate_template t =
     (let start_count = length (filter (\<lambda>s. sd_state_type s = StartState) (wt_states t))
      in if start_count = 0 then Inl (ValidationFailed ''Template must have at least one start state'')
         else if start_count > 1 then Inl (ValidationFailed ''Template must have exactly one start state'')
         else validate_transitions t (wt_transitions t))"

definition template_record_new :: "wf_env \<Rightarrow> string \<Rightarrow> timestamp \<Rightarrow> workflow_template \<Rightarrow> template_record" where
  "template_record_new we uuid now t =
     \<lparr>tr_id = uuid, tr_template_id = wt_template_id t, tr_version = wt_version t, tr_title = wt_title t, tr_hash = we_hash we t,
      tr_template = t, tr_created_at = now, tr_updated_at = now\<rparr>"

definition publish_template :: "wf_env \<Rightarrow> string \<Rightarrow> timestamp \<Rightarrow> workflow_template \<Rightarrow> template_record wf_prog" where
  "publish_template we uuid now t =
     seq (result (validate_template t)) (\<lambda>_.
     seq (read (tr_find (wt_template_id t) (Some (wt_version t)))) (\<lambda>found.
     case found of
       Some existing \<Rightarrow>
         let existing = existing\<lparr>tr_template := t, tr_hash := we_hash we t, tr_title := wt_title t, tr_updated_at := now\<rparr>
         in seq (tr_update existing) (\<lambda>_. ok existing)
     | None \<Rightarrow> let record = template_record_new we uuid now t in seq (tr_save record) (\<lambda>_. ok record)))"

definition get_template :: "string \<Rightarrow> string option \<Rightarrow> template_record option wf_prog" where
  "get_template template_id version = read (tr_find template_id version)"

definition list_templates :: "template_record list wf_prog" where
  "list_templates = read tr_find_all"

definition delete_template :: "string \<Rightarrow> nat wf_prog" where
  "delete_template tid s =
     (let hits = filter (\<lambda>r. tr_template_id r = tid \<or> tr_id r = tid) (tr_find_all s)
      in if hits = [] then (s, Inl (TemplateNotFound tid))
         else (fold (\<lambda>r. tr_delete (tr_id r)) hits s, Inr (length hits)))"

section \<open>Starting\<close>

record start_options =
  so_template_id :: string
  so_template_version :: "string option"
  so_instance_id :: "string option"
  so_connection_id :: "string option"
  so_participants :: "(string, participant) hash_map option"
  so_context :: "json option"
  so_role :: workflow_role

definition check_instance_policy :: "workflow_template \<Rightarrow> string option \<Rightarrow> unit wf_prog" where
  "check_instance_policy t connection_id s =
     (s, if ip_mode (wt_instance_policy t) = SingletonPerConnection
         then (case connection_id of
                 None \<Rightarrow> Inr ()
               | Some conn \<Rightarrow>
                   if \<exists>r\<in>set (ir_find_by_template_and_connection (wt_template_id t) (Some conn) s).
                        in_status (ir_data r) \<in> {InstActive, InstPaused}
                   then Inl (PolicyViolation (''Singleton policy: active instance already exists for template '' @ quoted (wt_template_id t) @
                               '' on connection '' @ quoted conn))
                   else Inr ())
         else Inr ())"

definition start_data :: "workflow_template \<Rightarrow> state_def \<Rightarrow> string \<Rightarrow> start_options \<Rightarrow> instance_data" where
  "start_data t st instance_id opts =
     \<lparr>in_instance_id = instance_id, in_template_id = wt_template_id t, in_template_version = wt_version t,
      in_connection_id = so_connection_id opts, in_participants = opt_or_new [] (so_participants opts), in_state = sd_name st,
      in_section = sd_section st, in_ctx = opt_or_new (JObject []) (so_context opts), in_artifacts = JObject [], in_status = InstActive,
      in_history = [], in_multiplicity_key_value = None, in_idempotency_keys = []\<rparr>"

definition wf_start_new :: "(nat \<Rightarrow> string) \<Rightarrow> timestamp \<Rightarrow> start_options \<Rightarrow> instance_record wf_prog" where
  "wf_start_new uuids now opts =
     seq (read (tr_find (so_template_id opts) (so_template_version opts))) (\<lambda>found.
     seq (result (ok_or (TemplateNotFound (so_template_id opts)) found)) (\<lambda>record.
     let t = tr_template record
     in seq (check_instance_policy t (so_connection_id opts)) (\<lambda>_.
        seq (result (ok_or (ValidationFailed ''Template has no start state'') (start_state t))) (\<lambda>st.
        let instance_id = (case so_instance_id opts of Some i \<Rightarrow> i | None \<Rightarrow> uuids 0);
            record = \<lparr>ir_id = uuids 1, ir_data = start_data t st instance_id opts, ir_role = so_role opts, ir_created_at = now, ir_updated_at = now\<rparr>
        in seq (ir_save record) (\<lambda>_.
           seq (emit_state_changed record None ''start'') (\<lambda>_. ok record))))))"

definition wf_start :: "(nat \<Rightarrow> string) \<Rightarrow> timestamp \<Rightarrow> start_options \<Rightarrow> instance_record wf_prog" where
  "wf_start uuids now opts =
     seq (read (\<lambda>s. case so_instance_id opts of None \<Rightarrow> None | Some i \<Rightarrow> ir_find i s)) (\<lambda>existing.
     case existing of Some r \<Rightarrow> ok r | None \<Rightarrow> wf_start_new uuids now opts)"

section \<open>Advancing\<close>

definition IDEMPOTENCY_HISTORY_LIMIT :: nat where "IDEMPOTENCY_HISTORY_LIMIT = 100"

record advance_options =
  ao_instance_id :: string
  ao_event :: string
  ao_idempotency_key :: "string option"
  ao_input :: "json option"

definition require_instance :: "string \<Rightarrow> instance_record wf_prog" where
  "require_instance instance_id s = (s, ok_or (InstanceNotFound instance_id) (ir_find instance_id s))"

definition advance_allowed :: "instance_status \<Rightarrow> workflow_error + unit" where
  "advance_allowed st = (if st \<in> {InstPaused, InstCanceled, InstCompleted} then Inl (InvalidStatus st ''advance'') else Inr ())"

definition enabled_transition :: "wf_env \<Rightarrow> workflow_template \<Rightarrow> instance_data \<Rightarrow> string \<Rightarrow> transition_def option" where
  "enabled_transition we t d event =
     find (\<lambda>r. guard_eval (we_jmespath we) (td_guard r) (in_ctx d) (in_participants d) (in_artifacts d))
       (transitions_from t (in_state d) event)"

definition run_action ::
  "action_registry \<Rightarrow> bool \<Rightarrow> workflow_template \<Rightarrow> instance_data \<Rightarrow> string option \<Rightarrow> json option \<Rightarrow> workflow_error + action_result" where
  "run_action rg lenient t d action_key input =
     (case action_key of
        None \<Rightarrow> Inr action_result_default
      | Some key \<Rightarrow>
          (case find_action t key of
             None \<Rightarrow> Inr action_result_default
           | Some action \<Rightarrow>
               (case rg_execute rg action \<lparr>ax_template = t, ax_instance = d, ax_action = action, ax_input = input\<rparr> of
                  Inr res \<Rightarrow> Inr res
                | Inl e \<Rightarrow> if lenient then Inr action_result_default else Inl e)))"

text \<open>\<open>push\<close> and \<open>drain\<close>: the last hundred keys are kept.\<close>

definition push_key :: "string \<Rightarrow> string list \<Rightarrow> string list" where
  "push_key key keys =
     (let keys = keys @ [key]
      in if length keys > IDEMPOTENCY_HISTORY_LIMIT then drop (length keys - IDEMPOTENCY_HISTORY_LIMIT) keys else keys)"

definition is_final :: "workflow_template \<Rightarrow> string \<Rightarrow> bool" where
  "is_final t name = (case find_state t name of None \<Rightarrow> False | Some s \<Rightarrow> sd_state_type s = FinalState)"

definition advanced_data :: "workflow_template \<Rightarrow> string \<Rightarrow> advance_options \<Rightarrow> transition_def \<Rightarrow> action_result \<Rightarrow> instance_data \<Rightarrow> instance_data" where
  "advanced_data t ts opts r res d =
     (let d' = d\<lparr>in_state := td_to r\<rparr>;
          d' = (case find_state t (td_to r) of None \<Rightarrow> d' | Some st \<Rightarrow> d'\<lparr>in_section := sd_section st\<rparr>);
          d' = (case ar_artifacts res of None \<Rightarrow> d' | Some a \<Rightarrow> d'\<lparr>in_artifacts := merge_json (in_artifacts d') a\<rparr>);
          d' = (case ar_context_merge res of None \<Rightarrow> d' | Some c \<Rightarrow> d'\<lparr>in_ctx := merge_json (in_ctx d') c\<rparr>);
          d' = d'\<lparr>in_history := in_history d' @ [\<lparr>hi_ts = ts, hi_event = ao_event opts, hi_from = in_state d, hi_to = td_to r,
                    hi_action_key = td_action r, hi_msg_id = ar_message_id res\<rparr>]\<rparr>;
          d' = (case ao_idempotency_key opts of None \<Rightarrow> d' | Some k \<Rightarrow> d'\<lparr>in_idempotency_keys := push_key k (in_idempotency_keys d')\<rparr>)
      in if is_final t (td_to r) then d'\<lparr>in_status := InstCompleted\<rparr> else d')"

text \<open>From the record that was read to the end: the action runs here, and then the write.\<close>

definition wf_advance_write ::
  "wf_env \<Rightarrow> (nat \<Rightarrow> timestamp) \<Rightarrow> advance_options \<Rightarrow> instance_record \<Rightarrow> workflow_template \<Rightarrow> transition_def \<Rightarrow> action_result \<Rightarrow> instance_record wf_prog" where
  "wf_advance_write we nows opts record t r res =
     (let prev = in_state (ir_data record);
          record = record\<lparr>ir_data := advanced_data t (we_rfc3339 we (nows 0)) opts r res (ir_data record), ir_updated_at := nows 1\<rparr>
      in seq (ir_update record) (\<lambda>_.
         seq (emit_state_changed record (Some prev) (ao_event opts)) (\<lambda>_.
         seq (if is_final t (td_to r) then emit_completed record else ok ()) (\<lambda>_. ok record))))"

definition wf_advance_inner :: "wf_env \<Rightarrow> (nat \<Rightarrow> timestamp) \<Rightarrow> bool \<Rightarrow> advance_options \<Rightarrow> instance_record wf_prog" where
  "wf_advance_inner we nows lenient opts =
     seq (require_instance (ao_instance_id opts)) (\<lambda>record.
     let d = ir_data record
     in seq (result (advance_allowed (in_status d))) (\<lambda>_.
        if (case ao_idempotency_key opts of None \<Rightarrow> False | Some key \<Rightarrow> key \<in> set (in_idempotency_keys d)) then ok record
        else seq (read (tr_find (in_template_id d) (Some (in_template_version d)))) (\<lambda>found.
             seq (result (ok_or (TemplateNotFound (in_template_id d)) found)) (\<lambda>template_record.
             let t = tr_template template_record
             in seq (result (ok_or (NoEnabledTransition (in_state d) (ao_event opts)) (enabled_transition we t d (ao_event opts)))) (\<lambda>r.
                seq (read wf_registry) (\<lambda>rg.
                seq (result (run_action rg lenient t d (td_action r) (ao_input opts))) (\<lambda>res.
                wf_advance_write we nows opts record t r res)))))))"

definition wf_advance :: "wf_env \<Rightarrow> (nat \<Rightarrow> timestamp) \<Rightarrow> advance_options \<Rightarrow> instance_record wf_prog" where
  "wf_advance we nows opts = wf_advance_inner we nows False opts"

definition wf_advance_mirror :: "wf_env \<Rightarrow> (nat \<Rightarrow> timestamp) \<Rightarrow> advance_options \<Rightarrow> instance_record wf_prog" where
  "wf_advance_mirror we nows opts = wf_advance_inner we nows True opts"

section \<open>Status and control\<close>

record wf_status_message =
  sg_instance_id :: string
  sg_state :: string
  sg_section :: "string option"
  sg_allowed_events :: "string list"
  sg_action_menu :: "json list"
  sg_artifacts :: json
  sg_ui :: "json option"
  sg_ui_profile :: "string option"
  sg_assets :: "json option"

definition allowed_events :: "wf_env \<Rightarrow> workflow_template \<Rightarrow> instance_data \<Rightarrow> string list" where
  "allowed_events we t d =
     fold (\<lambda>r evs. if td_from r = in_state d \<and>
              guard_eval (we_jmespath we) (td_guard r) (in_ctx d) (in_participants d) (in_artifacts d) \<and> td_on r \<notin> set evs
            then evs @ [td_on r] else evs) (wt_transitions t) []"

definition wf_status :: "wf_env \<Rightarrow> string \<Rightarrow> string option \<Rightarrow> (wf_status_message \<times> instance_record) wf_prog" where
  "wf_status we instance_id ui_profile =
     seq (require_instance instance_id) (\<lambda>record.
     let d = ir_data record
     in seq (read (tr_find (in_template_id d) (Some (in_template_version d)))) (\<lambda>found.
        let evs = (case found of None \<Rightarrow> [] | Some tr \<Rightarrow> allowed_events we (tr_template tr) d)
        in ok (\<lparr>sg_instance_id = in_instance_id d, sg_state = in_state d, sg_section = in_section d, sg_allowed_events = evs,
                sg_action_menu = [], sg_artifacts = in_artifacts d, sg_ui = None, sg_ui_profile = ui_profile, sg_assets = None\<rparr>, record)))"

definition wf_set_status :: "instance_status \<Rightarrow> timestamp \<Rightarrow> string \<Rightarrow> instance_record wf_prog" where
  "wf_set_status st now instance_id =
     seq (require_instance instance_id) (\<lambda>record.
     let prev = in_status (ir_data record);
         record = record\<lparr>ir_data := (ir_data record)\<lparr>in_status := st\<rparr>, ir_updated_at := now\<rparr>
     in seq (ir_update record) (\<lambda>_. seq (emit_status_changed record prev) (\<lambda>_. ok record)))"

definition wf_pause :: "timestamp \<Rightarrow> string \<Rightarrow> instance_record wf_prog" where
  "wf_pause now instance_id = wf_set_status InstPaused now instance_id"

definition wf_resume :: "timestamp \<Rightarrow> string \<Rightarrow> instance_record wf_prog" where
  "wf_resume now instance_id = wf_set_status InstActive now instance_id"

definition wf_cancel :: "timestamp \<Rightarrow> string \<Rightarrow> instance_record wf_prog" where
  "wf_cancel now instance_id = wf_set_status InstCanceled now instance_id"

definition wf_complete :: "string \<Rightarrow> instance_record wf_prog" where
  "wf_complete instance_id =
     seq (require_instance instance_id) (\<lambda>record.
     let d = ir_data record
     in seq (read (tr_find (in_template_id d) (Some (in_template_version d)))) (\<lambda>found.
        seq (case found of
               None \<Rightarrow> ok ()
             | Some tr \<Rightarrow> guard (is_final (tr_template tr) (in_state d))
                 (InvalidStatus (in_status d) (''complete (state '' @ quoted (in_state d) @ '' is not a final state)''))) (\<lambda>_.
        ok record)))"

definition wf_get_instance :: "string \<Rightarrow> instance_record option wf_prog" where
  "wf_get_instance instance_id = read (ir_find instance_id)"

definition wf_list_instances :: "instance_record list wf_prog" where
  "wf_list_instances = read ir_find_all"

definition wf_update_context :: "timestamp \<Rightarrow> string \<Rightarrow> json \<Rightarrow> instance_record wf_prog" where
  "wf_update_context now instance_id patch =
     seq (require_instance instance_id) (\<lambda>record.
     let record = record\<lparr>ir_data := (ir_data record)\<lparr>in_ctx := merge_json (in_ctx (ir_data record)) patch\<rparr>, ir_updated_at := now\<rparr>
     in seq (ir_update record) (\<lambda>_. ok record))"

definition wf_append_artifacts :: "timestamp \<Rightarrow> string \<Rightarrow> json \<Rightarrow> instance_record wf_prog" where
  "wf_append_artifacts now instance_id artifacts =
     seq (require_instance instance_id) (\<lambda>record.
     let record = record\<lparr>ir_data := (ir_data record)\<lparr>in_artifacts := merge_json (in_artifacts (ir_data record)) artifacts\<rparr>, ir_updated_at := now\<rparr>
     in seq (ir_update record) (\<lambda>_. ok record))"

end
