(* ===== verification/Workflow_Queue.thy ===== *)
theory Workflow_Queue
  imports Fallible Didcomm_Message "HOL-Library.Multiset"
begin

text \<open>
  The command queue of the workflow protocol: \<open>repository/command_record.rs\<close>,
  \<open>repository/command_repository.rs\<close> and \<open>queue/command_queue.rs\<close> in \<open>protocols/workflow/src\<close>.
  The worker loop and the tasks it spawns run interleaved with the handlers that enqueue, so the
  queue is a state machine: one event per await point of the loop body, of a task and of an
  enqueue. The job handler is an argument of \<open>start_worker\<close>; what it returns for a command, or
  that the time limit ran out, is part of the event that ends the task. \<open>HashMap::values\<close> comes
  in no particular order, so the event of a poll also carries the order in which it came.
\<close>

section \<open>Commands\<close>

datatype command_type = CmdStart | CmdAdvance | CmdPause | CmdResume | CmdCancel | CmdComplete

datatype command_status = CmdPending | CmdProcessing | CmdCompleted | CmdFailed

fun command_type_str :: "command_type \<Rightarrow> string" where
  "command_type_str CmdStart = ''start''"
| "command_type_str CmdAdvance = ''advance''"
| "command_type_str CmdPause = ''pause''"
| "command_type_str CmdResume = ''resume''"
| "command_type_str CmdCancel = ''cancel''"
| "command_type_str CmdComplete = ''complete''"

fun command_status_str :: "command_status \<Rightarrow> string" where
  "command_status_str CmdPending = ''pending''"
| "command_status_str CmdProcessing = ''processing''"
| "command_status_str CmdCompleted = ''completed''"
| "command_status_str CmdFailed = ''failed''"

record command_record =
  cr_id :: string
  cr_cmd :: command_type
  cr_thid :: string
  cr_connection_id :: "string option"
  cr_idempotency_key :: "string option"
  cr_payload :: json
  cr_status :: command_status
  cr_attempts :: u32
  cr_last_attempt_at :: "timestamp option"
  cr_error :: "string option"
  cr_created_at :: timestamp

definition command_record_new ::
  "string \<Rightarrow> timestamp \<Rightarrow> command_type \<Rightarrow> string \<Rightarrow> string option \<Rightarrow> string option \<Rightarrow> json \<Rightarrow> command_record" where
  "command_record_new uuid now cmd thid connection_id idempotency_key payload =
     \<lparr>cr_id = uuid, cr_cmd = cmd, cr_thid = thid, cr_connection_id = connection_id, cr_idempotency_key = idempotency_key,
      cr_payload = payload, cr_status = CmdPending, cr_attempts = 0, cr_last_attempt_at = None, cr_error = None, cr_created_at = now\<rparr>"

section \<open>Repository\<close>

type_synonym command_repository = "(string, command_record) hash_map"

definition cmd_save :: "command_record \<Rightarrow> command_repository \<Rightarrow> command_repository" where
  "cmd_save r m = hm_insert (cr_id r) r m"

definition cmd_update :: "command_record \<Rightarrow> command_repository \<Rightarrow> command_repository" where
  "cmd_update r m = hm_insert (cr_id r) r m"

definition cmd_find_pending :: "command_repository \<Rightarrow> command_record list" where
  "cmd_find_pending m = filter (\<lambda>r. cr_status r = CmdPending) (hm_values m)"

definition cmd_find_by_thid :: "string \<Rightarrow> command_repository \<Rightarrow> command_record list" where
  "cmd_find_by_thid thid m = filter (\<lambda>r. cr_thid r = thid) (hm_values m)"

definition cmd_live :: "command_record \<Rightarrow> bool" where
  "cmd_live r \<longleftrightarrow> cr_status r = CmdPending \<or> cr_status r = CmdProcessing"

definition cmd_find_live :: "command_type \<Rightarrow> string \<Rightarrow> command_repository \<Rightarrow> command_record option" where
  "cmd_find_live cmd thid m = find (\<lambda>r. cr_cmd r = cmd \<and> cr_thid r = thid \<and> cmd_live r) (hm_values m)"

definition cmd_find_pending_starts :: "string \<Rightarrow> command_repository \<Rightarrow> command_record list" where
  "cmd_find_pending_starts template_id m =
     filter (\<lambda>r. cr_cmd r = CmdStart \<and> cr_status r = CmdPending \<and>
        Option.bind (json_get (cr_payload r) ''template_id'') json_as_str = Some template_id) (hm_values m)"

definition cmd_expired :: "timestamp \<Rightarrow> command_record \<Rightarrow> bool" where
  "cmd_expired before r \<longleftrightarrow> (cr_status r = CmdCompleted \<or> cr_status r = CmdFailed) \<and> cr_created_at r < before"

definition cmd_delete_completed_before :: "timestamp \<Rightarrow> command_repository \<Rightarrow> command_repository \<times> nat" where
  "cmd_delete_completed_before before m =
     (let to_delete = map cr_id (filter (cmd_expired before) (hm_values m))
      in (fold hm_remove to_delete m, length to_delete))"

definition cmd_delete :: "string \<Rightarrow> command_repository \<Rightarrow> command_repository" where
  "cmd_delete rid m = hm_remove rid m"

section \<open>Queue and worker\<close>

text \<open>Durations are in the unit of the clock, here milliseconds.\<close>

record command_queue_config =
  qc_poll_interval :: int
  qc_concurrency :: nat
  qc_processing_timeout :: int
  qc_max_attempts :: u32
  qc_completed_retention :: int
  qc_failed_retention :: int

definition command_queue_config_default :: command_queue_config where
  "command_queue_config_default = \<lparr>qc_poll_interval = 100, qc_concurrency = 3, qc_processing_timeout = 30000, qc_max_attempts = 3,
     qc_completed_retention = 3600000, qc_failed_retention = 86400000\<rparr>"

text \<open>
  \<open>cq_batch\<close> is what the loop still has to claim of its last poll, \<open>cq_running\<close> the records the
  spawned tasks hold, and \<open>cq_stopped\<close> that the loop has ended.
\<close>

record command_queue =
  cq_repository :: command_repository
  cq_config :: command_queue_config
  cq_shutdown :: bool
  cq_batch :: "command_record list"
  cq_running :: "command_record list"
  cq_stopped :: bool

definition cq_new :: "command_queue_config \<Rightarrow> command_queue" where
  "cq_new c = \<lparr>cq_repository = [], cq_config = c, cq_shutdown = False, cq_batch = [], cq_running = [], cq_stopped = False\<rparr>"

definition cq_enqueue_save ::
  "string \<Rightarrow> timestamp \<Rightarrow> command_type \<Rightarrow> string \<Rightarrow> string option \<Rightarrow> string option \<Rightarrow> json \<Rightarrow> command_queue \<Rightarrow> command_queue" where
  "cq_enqueue_save uuid now cmd thid connection_id idempotency_key payload q =
     q\<lparr>cq_repository := cmd_save (command_record_new uuid now cmd thid connection_id idempotency_key payload) (cq_repository q)\<rparr>"

definition cq_enqueue ::
  "string \<Rightarrow> timestamp \<Rightarrow> command_type \<Rightarrow> string \<Rightarrow> string option \<Rightarrow> string option \<Rightarrow> json \<Rightarrow> command_queue \<Rightarrow> command_queue" where
  "cq_enqueue uuid now cmd thid connection_id idempotency_key payload q =
     (case cmd_find_live cmd thid (cq_repository q) of
        Some _ \<Rightarrow> q
      | None \<Rightarrow> cq_enqueue_save uuid now cmd thid connection_id idempotency_key payload q)"

datatype job_outcome = JobDone | JobFailed bool string | JobTimedOut \<comment> \<open>an error says whether it is \<open>TemplateNotFound\<close>\<close>

definition claimed :: "timestamp \<Rightarrow> command_record \<Rightarrow> command_record" where
  "claimed now r = r\<lparr>cr_status := CmdProcessing, cr_attempts := cr_attempts r + 1, cr_last_attempt_at := Some now\<rparr>"

definition retried :: "u32 \<Rightarrow> string \<Rightarrow> command_record \<Rightarrow> command_record" where
  "retried max_attempts e r =
     r\<lparr>cr_status := (if cr_attempts r \<ge> max_attempts then CmdFailed else CmdPending), cr_error := Some e\<rparr>"

fun finished :: "u32 \<Rightarrow> job_outcome \<Rightarrow> command_record \<Rightarrow> command_record" where
  "finished max_attempts JobDone r = r\<lparr>cr_status := CmdCompleted\<rparr>"
| "finished max_attempts (JobFailed is_template_not_found e) r =
     (if is_template_not_found
      then (if cr_attempts r > 0 then r\<lparr>cr_attempts := cr_attempts r - 1\<rparr> else r)\<lparr>cr_status := CmdPending, cr_error := Some e\<rparr>
      else retried max_attempts e r)"
| "finished max_attempts JobTimedOut r = retried max_attempts ''Processing timeout'' r"

datatype queue_event =
    Enqueue string timestamp command_type string "string option" "string option" json
  | EnqueueSave string timestamp command_type string "string option" "string option" json
  | Poll "command_record list"
  | Claim timestamp
  | Finish string job_outcome
  | Cleanup timestamp
  | Shutdown
  | Stop

text \<open>
  \<open>Enqueue\<close> is an enqueue whose lookup and save follow each other; \<open>EnqueueSave\<close> is the save of one
  whose lookup found nothing some events earlier. An event that cannot happen in a state leaves it
  as it is.
\<close>

fun cq_step :: "queue_event \<Rightarrow> command_queue \<Rightarrow> command_queue" where
  "cq_step (Enqueue uuid now cmd thid conn key payload) q = cq_enqueue uuid now cmd thid conn key payload q"
| "cq_step (EnqueueSave uuid now cmd thid conn key payload) q = cq_enqueue_save uuid now cmd thid conn key payload q"
| "cq_step (Poll pending) q =
     (if cq_stopped q \<or> cq_batch q \<noteq> [] \<or> cq_shutdown q \<or> mset pending \<noteq> mset (cmd_find_pending (cq_repository q)) then q
      else q\<lparr>cq_batch := take (qc_concurrency (cq_config q)) pending\<rparr>)"
| "cq_step (Claim now) q =
     (case cq_batch q of
        [] \<Rightarrow> q
      | r # batch \<Rightarrow>
          let r = claimed now r
          in q\<lparr>cq_repository := cmd_update r (cq_repository q), cq_batch := batch, cq_running := cq_running q @ [r]\<rparr>)"
| "cq_step (Finish rid outcome) q =
     (case find (\<lambda>r. cr_id r = rid) (cq_running q) of
        None \<Rightarrow> q
      | Some r \<Rightarrow> q\<lparr>cq_repository := cmd_update (finished (qc_max_attempts (cq_config q)) outcome r) (cq_repository q),
                      cq_running := remove1 r (cq_running q)\<rparr>)"
| "cq_step (Cleanup now) q =
     (if cq_stopped q \<or> cq_batch q \<noteq> [] then q
      else q\<lparr>cq_repository := fst (cmd_delete_completed_before (now - qc_completed_retention (cq_config q)) (cq_repository q))\<rparr>)"
| "cq_step Shutdown q = q\<lparr>cq_shutdown := True\<rparr>"
| "cq_step Stop q = (if cq_shutdown q \<and> cq_batch q = [] then q\<lparr>cq_stopped := True\<rparr> else q)"

definition cq_run :: "queue_event list \<Rightarrow> command_queue \<Rightarrow> command_queue" where
  "cq_run evs q = fold cq_step evs q"


section \<open>Invariant\<close>

definition attempt_limit :: "command_queue_config \<Rightarrow> nat" where
  "attempt_limit c = max 1 (unat (qc_max_attempts c))"

text \<open>Whether an event ends a task with an outcome that counts: every one but a missing template.\<close>

fun counts :: "job_outcome \<Rightarrow> bool" where
  "counts (JobFailed deferred _) = (\<not> deferred)"
| "counts _ = True"

fun charge :: "queue_event \<Rightarrow> command_queue \<Rightarrow> string \<Rightarrow> nat" where
  "charge (Finish rid outcome) q k = (if k = rid \<and> counts outcome \<and> rid \<in> cr_id ` set (cq_running q) then 1 else 0)"
| "charge _ q k = 0"

fun charges :: "queue_event list \<Rightarrow> command_queue \<Rightarrow> string \<Rightarrow> nat" where
  "charges [] q k = 0"
| "charges (e # es) q k = charge e q k + charges es (cq_step e q) k"

fun event_ids :: "queue_event \<Rightarrow> string list" where
  "event_ids (Enqueue uuid _ _ _ _ _ _) = [uuid]"
| "event_ids (EnqueueSave uuid _ _ _ _ _ _) = [uuid]"
| "event_ids _ = []"

definition enqueued_ids :: "queue_event list \<Rightarrow> string list" where
  "enqueued_ids evs = concat (map event_ids evs)"

fun record_ok :: "nat \<Rightarrow> nat \<Rightarrow> command_status \<Rightarrow> nat \<Rightarrow> bool" where
  "record_ok limit n CmdPending a \<longleftrightarrow> a = n \<and> n < limit"
| "record_ok limit n CmdProcessing a \<longleftrightarrow> a = Suc n \<and> n < limit"
| "record_ok limit n CmdCompleted a \<longleftrightarrow> a = n \<and> n \<le> limit"
| "record_ok limit n CmdFailed a \<longleftrightarrow> a = n \<and> n \<le> limit"

definition repo_inv :: "string set \<Rightarrow> (string \<Rightarrow> nat) \<Rightarrow> command_queue \<Rightarrow> bool" where
  "repo_inv U ch q \<longleftrightarrow> hm_wf (cq_repository q) \<and> (\<forall>k. ch k \<le> attempt_limit (cq_config q)) \<and> (\<forall>k. k \<notin> U \<longrightarrow> ch k = 0) \<and>
     (\<forall>k r. hm_get (cq_repository q) k = Some r \<longrightarrow>
        cr_id r = k \<and> k \<in> U \<and> record_ok (attempt_limit (cq_config q)) (ch k) (cr_status r) (unat (cr_attempts r)))"

definition held :: "command_status \<Rightarrow> command_record list \<Rightarrow> command_queue \<Rightarrow> bool" where
  "held st rs q \<longleftrightarrow> distinct (map cr_id rs) \<and> (\<forall>r\<in>set rs. cr_status r = st \<and> hm_get (cq_repository q) (cr_id r) = Some r)"

definition worker_inv :: "command_queue \<Rightarrow> bool" where
  "worker_inv q \<longleftrightarrow> held CmdPending (cq_batch q) q \<and> held CmdProcessing (cq_running q) q \<and>
     (\<forall>k r. hm_get (cq_repository q) k = Some r \<longrightarrow> cr_status r = CmdProcessing \<longrightarrow> r \<in> set (cq_running q))"

lemma held_in: "held st rs q \<Longrightarrow> r \<in> set rs \<Longrightarrow> cr_status r = st \<and> hm_get (cq_repository q) (cr_id r) = Some r"
  by (simp add: held_def)

lemma held_update:
  assumes "held st rs q" "\<forall>r\<in>set rs'. r \<in> set rs \<and> hm_get m (cr_id r) = hm_get (cq_repository q) (cr_id r)"
    "distinct (map cr_id rs')" "cq_repository q' = m"
  shows "held st rs' q'"
  using assms by (simp add: held_def)

lemma cq_config_step [simp]: "cq_config (cq_step e q) = cq_config q"
  by (cases e) (auto simp: cq_enqueue_def cq_enqueue_save_def Let_def split: option.splits list.splits)

lemma cq_config_run [simp]: "cq_config (cq_run evs q) = cq_config q"
  unfolding cq_run_def by (induction evs arbitrary: q) simp_all

lemma cleanup_get:
  assumes "hm_wf m" "\<And>k r. hm_get m k = Some r \<Longrightarrow> cr_id r = k"
  shows "hm_get (fst (cmd_delete_completed_before t m)) k =
    (case hm_get m k of None \<Rightarrow> None | Some r \<Rightarrow> if cmd_expired t r then None else Some r)"
proof -
  have "k \<in> cr_id ` {r \<in> set (hm_values m). cmd_expired t r} \<longleftrightarrow> (\<exists>r. hm_get m k = Some r \<and> cmd_expired t r)"
  proof
    assume "k \<in> cr_id ` {r \<in> set (hm_values m). cmd_expired t r}"
    then obtain r k' where r: "(k', r) \<in> set m" "cmd_expired t r" "k = cr_id r" by auto
    then have "hm_get m k' = Some r" using hm_get_iff_mem [OF assms(1)] by blast
    with assms(2) [OF this] r show "\<exists>r. hm_get m k = Some r \<and> cmd_expired t r" by auto
  next
    assume "\<exists>r. hm_get m k = Some r \<and> cmd_expired t r"
    then obtain r where r: "hm_get m k = Some r" "cmd_expired t r" by blast
    with assms(2) [OF r(1)] map_of_SomeD [OF r(1)] show "k \<in> cr_id ` {r \<in> set (hm_values m). cmd_expired t r}" by force
  qed
  then show ?thesis by (auto simp: cmd_delete_completed_before_def Let_def hm_remove_all split: option.splits)
qed

lemma attempt_limit_word: "attempt_limit c < 2 ^ 32"
proof -
  have "unat (qc_max_attempts c) < 2 ^ 32" using unsigned_less [of "qc_max_attempts c"] by simp
  then show ?thesis by (simp add: attempt_limit_def)
qed

lemma unat_claim:
  assumes "unat (a :: u32) < attempt_limit c" shows "unat (a + 1) = Suc (unat a)"
  using assms attempt_limit_word [of c] by (simp add: unat_word_ariths)

lemma record_ok_claimed:
  assumes "record_ok (attempt_limit c) n CmdPending (unat (cr_attempts r))"
  shows "record_ok (attempt_limit c) n CmdProcessing (unat (cr_attempts (claimed now r)))"
  using assms unat_claim [of "cr_attempts r" c] by (simp add: claimed_def)

lemma finished_simps [simp]: "cr_id (finished m o' r) = cr_id r" "cr_id (claimed now r) = cr_id r"
  "cr_status (claimed now r) = CmdProcessing" "cr_status (finished m o' r) \<noteq> CmdProcessing"
  by (cases o'; simp add: retried_def claimed_def)+

lemma record_ok_retried:
  assumes "record_ok (attempt_limit c) n CmdProcessing (unat (cr_attempts r))" "r' = retried (qc_max_attempts c) e r"
  shows "record_ok (attempt_limit c) (Suc n) (cr_status r') (unat (cr_attempts r'))"
  using assms by (auto simp: retried_def word_le_nat_alt attempt_limit_def)

lemma record_ok_finished:
  assumes "record_ok (attempt_limit c) n CmdProcessing (unat (cr_attempts r))" "r' = finished (qc_max_attempts c) o' r"
  shows "record_ok (attempt_limit c) (n + (if counts o' then 1 else 0)) (cr_status r') (unat (cr_attempts r'))"
proof (cases o')
  case (JobFailed d e)
  have "cr_attempts r > 0" "unat (cr_attempts r - 1) = n"
    using assms(1) by (auto simp: word_gt_0_no unat_eq_0 [symmetric] word_less_nat_alt unat_minus_one)
  with JobFailed show ?thesis using assms record_ok_retried [OF assms(1)] by (cases d) simp_all
next
  case JobDone
  then show ?thesis using assms by simp
next
  case JobTimedOut
  then show ?thesis using assms record_ok_retried [OF assms(1)] by simp
qed

text \<open>Replacing one record of the repository, and what it does to the counts.\<close>

lemma repo_inv_put:
  assumes "repo_inv U ch q" "cq_repository q' = hm_insert (cr_id r) r (cq_repository q)" "cq_config q' = cq_config q"
    "\<And>k. k \<noteq> cr_id r \<Longrightarrow> ch' k = ch k" "U \<subseteq> U'" "cr_id r \<in> U'" "ch' (cr_id r) \<le> attempt_limit (cq_config q)"
    "record_ok (attempt_limit (cq_config q)) (ch' (cr_id r)) (cr_status r) (unat (cr_attempts r))"
  shows "repo_inv U' ch' q'"
  unfolding repo_inv_def
proof (intro conjI allI impI)
  show "hm_wf (cq_repository q')" using assms(1,2) by (auto simp: repo_inv_def)
  show "ch' k \<le> attempt_limit (cq_config q')" for k
    using assms(1,3,4,7) by (cases "k = cr_id r") (auto simp: repo_inv_def)
  show "k \<notin> U' \<Longrightarrow> ch' k = 0" for k
    using assms(1,4-6) by (cases "k = cr_id r") (auto simp: repo_inv_def)
  fix k x assume "hm_get (cq_repository q') k = Some x"
  then show "cr_id x = k" "k \<in> U'" "record_ok (attempt_limit (cq_config q')) (ch' k) (cr_status x) (unat (cr_attempts x))"
    using assms by (auto simp: repo_inv_def split: if_splits)
qed

lemma repo_inv_same: "repo_inv U ch q \<Longrightarrow> cq_repository q' = cq_repository q \<Longrightarrow> cq_config q' = cq_config q \<Longrightarrow> repo_inv U ch q'"
  by (simp add: repo_inv_def)

lemma repo_invD:
  assumes "repo_inv U ch q" "hm_get (cq_repository q) k = Some r"
  shows "cr_id r = k" "k \<in> U" "record_ok (attempt_limit (cq_config q)) (ch k) (cr_status r) (unat (cr_attempts r))"
  using assms by (simp_all add: repo_inv_def)

lemma attempt_limit_pos [simp]: "0 < attempt_limit c" by (simp add: attempt_limit_def)

lemma find_running:
  "find (\<lambda>r. cr_id r = rid) rs = Some r \<Longrightarrow> r \<in> set rs \<and> cr_id r = rid"
  "find (\<lambda>r. cr_id r = rid) rs = None \<longleftrightarrow> rid \<notin> cr_id ` set rs"
  by (auto simp: find_Some_iff find_None_iff)

lemma repo_inv_step:
  assumes inv: "repo_inv U ch q" "worker_inv q" and fresh: "\<And>k. k \<in> set (event_ids e) \<Longrightarrow> k \<notin> U"
  shows "repo_inv (U \<union> set (event_ids e)) (\<lambda>k. ch k + charge e q k) (cq_step e q)"
proof (cases e)
  case (Enqueue uuid now cmd thid conn key payload)
  let ?r = "command_record_new uuid now cmd thid conn key payload"
  have ch: "ch uuid = 0" using inv(1) fresh Enqueue by (simp add: repo_inv_def)
  show ?thesis
  proof (cases "cmd_find_live cmd thid (cq_repository q)")
    case None
    show ?thesis by (rule repo_inv_put [OF inv(1), where r = ?r]) (use Enqueue None ch in \<open>auto simp: cq_enqueue_def cq_enqueue_save_def cmd_save_def command_record_new_def\<close>)
  next
    case Some
    then show ?thesis using inv(1) Enqueue ch by (auto simp: cq_enqueue_def cq_enqueue_save_def repo_inv_def)
  qed
next
  case (EnqueueSave uuid now cmd thid conn key payload)
  let ?r = "command_record_new uuid now cmd thid conn key payload"
  have "ch uuid = 0" using inv(1) fresh EnqueueSave by (simp add: repo_inv_def)
  then show ?thesis by (intro repo_inv_put [OF inv(1), where r = ?r]) (use EnqueueSave in \<open>auto simp: cq_enqueue_save_def cmd_save_def command_record_new_def\<close>)
next
  case (Poll pending)
  then show ?thesis by (auto intro: repo_inv_same [OF inv(1)])
next
  case (Claim now)
  show ?thesis
  proof (cases "cq_batch q")
    case Nil
    then show ?thesis using inv(1) Claim by simp
  next
    case (Cons r batch)
    have r: "cr_status r = CmdPending" "hm_get (cq_repository q) (cr_id r) = Some r"
      using inv(2) Cons by (simp_all add: worker_inv_def held_def)
    note d = repo_invD [OF inv(1) r(2)]
    show ?thesis
      by (rule repo_inv_put [OF inv(1), where r = "claimed now r"])
        (use Claim Cons d r(1) record_ok_claimed [of "cq_config q" "ch (cr_id r)" r now] inv(1) in \<open>auto simp: cmd_update_def Let_def repo_inv_def\<close>)
  qed
next
  case (Finish rid o')
  show ?thesis
  proof (cases "find (\<lambda>r. cr_id r = rid) (cq_running q)")
    case None
    then show ?thesis using inv(1) Finish find_running(2) [of rid "cq_running q"] by auto
  next
    case (Some r)
    let ?r = "finished (qc_max_attempts (cq_config q)) o' r"
    note f = find_running(1) [OF Some]
    have r: "cr_status r = CmdProcessing" "hm_get (cq_repository q) (cr_id r) = Some r"
      using inv(2) f by (auto simp: worker_inv_def held_def)
    note d = repo_invD [OF inv(1) r(2)]
    have k: "record_ok (attempt_limit (cq_config q)) (ch (cr_id r) + (if counts o' then 1 else 0)) (cr_status ?r) (unat (cr_attempts ?r))"
      using d(3) r(1) by (intro record_ok_finished [where r = r]) auto
    have "ch (cr_id r) < attempt_limit (cq_config q)" using d(3) r(1) by simp
    then show ?thesis
      by (intro repo_inv_put [OF inv(1), where r = ?r]) (use Finish Some d f k in \<open>auto simp: cmd_update_def\<close>)
  qed
next
  case (Cleanup now)
  have k: "\<And>k r. hm_get (cq_repository q) k = Some r \<Longrightarrow> cr_id r = k" and w: "hm_wf (cq_repository q)"
    using inv(1) by (auto simp: repo_inv_def)
  show ?thesis using inv(1) Cleanup
    by (auto simp: repo_inv_def cleanup_get [OF w k] split: option.splits if_splits)
       (auto simp: cmd_delete_completed_before_def Let_def intro!: hm_remove_all(2))
qed (auto intro: repo_inv_same [OF inv(1)])

lemma held_put:
  assumes "held st rs q" "cq_repository q' = hm_insert (cr_id x) x (cq_repository q)"
    "set rs' \<subseteq> set rs" "distinct (map cr_id rs')" "cr_id x \<notin> cr_id ` set rs'"
  shows "held st rs' q'"
proof -
  have "cr_id r \<noteq> cr_id x" if "r \<in> set rs'" for r using assms(5) that by (metis imageI)
  then show ?thesis using assms(1-4) by (auto simp: held_def)
qed

lemma worker_inv_save:
  assumes inv: "repo_inv U ch q" "worker_inv q" and fresh: "uuid \<notin> U"
  shows "worker_inv (cq_enqueue_save uuid now cmd thid conn key payload q)"
proof -
  let ?r = "command_record_new uuid now cmd thid conn key payload"
  have new: "hm_get (cq_repository q) uuid = None" "cr_id ?r = uuid" "cr_status ?r = CmdPending"
    using inv(1) fresh by (auto simp: repo_inv_def command_record_new_def dest: repo_invD(2) [OF inv(1)] intro: ccontr)
  then have h: "uuid \<notin> cr_id ` set rs" if "held st rs q" for st rs using that by (fastforce simp: held_def)
  have "held st rs q \<Longrightarrow> held st rs (q\<lparr>cq_repository := hm_insert (cr_id ?r) ?r (cq_repository q)\<rparr>)" for st rs
    by (rule held_put [where x = ?r]) (auto simp: new dest: h, simp add: held_def)
  then show ?thesis using inv(2) new by (auto simp: cq_enqueue_save_def cmd_save_def worker_inv_def)
qed

lemma worker_inv_step:
  assumes inv: "repo_inv U ch q" "worker_inv q" and fresh: "\<And>k. k \<in> set (event_ids e) \<Longrightarrow> k \<notin> U"
  shows "worker_inv (cq_step e q)"
proof (cases e)
  case (Enqueue uuid now cmd thid conn key payload)
  then show ?thesis using inv(2) worker_inv_save [OF inv] fresh by (simp add: cq_enqueue_def split: option.split)
next
  case (EnqueueSave uuid now cmd thid conn key payload)
  then show ?thesis using worker_inv_save [OF inv] fresh by simp
next
  case (Poll pending)
  have "held CmdPending (take n pending) q" if "mset pending = mset (cmd_find_pending (cq_repository q))" for n
  proof -
    have w: "hm_wf (cq_repository q)" using inv(1) by (simp add: repo_inv_def)
    have ids: "map cr_id (hm_values (cq_repository q)) = hm_keys (cq_repository q)"
      using repo_invD(1) [OF inv(1)] hm_get_iff_mem [OF w] by auto
    then have "distinct (map cr_id (cmd_find_pending (cq_repository q)))"
      using w unfolding cmd_find_pending_def by (intro distinct_map_filter) metis
    then have "distinct (map cr_id pending)"
      using that by (metis mset_eq_imp_distinct_iff mset_map)
    then have d: "distinct (map cr_id (take n pending))" by (simp add: take_map [symmetric])
    have "cr_status r = CmdPending \<and> hm_get (cq_repository q) (cr_id r) = Some r" if "r \<in> set (take n pending)" for r
    proof -
      have "r \<in> set (cmd_find_pending (cq_repository q))" using in_set_takeD [OF that] \<open>mset pending = _\<close> by (metis set_mset_mset)
      then show ?thesis using hm_get_iff_mem [OF w] repo_invD(1) [OF inv(1)] by (auto simp: cmd_find_pending_def)
    qed
    with d show ?thesis by (simp add: held_def)
  qed
  then show ?thesis using inv(2) Poll by (auto simp: worker_inv_def held_def)
next
  case (Claim now)
  show ?thesis
  proof (cases "cq_batch q")
    case Nil
    then show ?thesis using inv(2) Claim by simp
  next
    case (Cons r batch)
    have hb: "held CmdPending (r # batch) q" and hr: "held CmdProcessing (cq_running q) q"
      and sr: "\<And>k r. hm_get (cq_repository q) k = Some r \<Longrightarrow> cr_status r = CmdProcessing \<Longrightarrow> r \<in> set (cq_running q)"
      using inv(2) Cons by (auto simp: worker_inv_def)
    have nr: "cr_id r \<notin> cr_id ` set (cq_running q)" using hb hr by (fastforce simp: held_def)
    have 1: "held CmdPending batch (cq_step e q)"
      by (rule held_put [OF hb, where x = "claimed now r"]) (use Claim Cons hb in \<open>auto simp: cmd_update_def Let_def held_def\<close>)
    have 2: "held CmdProcessing (cq_running q) (cq_step e q)"
      by (rule held_put [OF hr, where x = "claimed now r"]) (use Claim Cons hr nr in \<open>auto simp: cmd_update_def Let_def held_def\<close>)
    then have 3: "held CmdProcessing (cq_running q @ [claimed now r]) (cq_step e q)"
      using nr Claim Cons by (auto simp: held_def cmd_update_def Let_def)
    show ?thesis using 1 3 sr Claim Cons by (auto simp: worker_inv_def cmd_update_def Let_def split: if_splits)
  qed
next
  case (Finish rid o')
  show ?thesis
  proof (cases "find (\<lambda>r. cr_id r = rid) (cq_running q)")
    case None
    then show ?thesis using inv(2) Finish by auto
  next
    case (Some r)
    let ?r = "finished (qc_max_attempts (cq_config q)) o' r"
    have hb: "held CmdPending (cq_batch q) q" and hr: "held CmdProcessing (cq_running q) q"
      and sr: "\<And>k r. hm_get (cq_repository q) k = Some r \<Longrightarrow> cr_status r = CmdProcessing \<Longrightarrow> r \<in> set (cq_running q)"
      using inv(2) by (auto simp: worker_inv_def)
    have r: "r \<in> set (cq_running q)" using find_running(1) [OF Some] by simp
    have nb: "cr_id r \<notin> cr_id ` set (cq_batch q)" using hb hr r by (fastforce simp: held_def)
    have d: "distinct (cq_running q)" "inj_on cr_id (set (cq_running q))" using hr by (simp_all add: held_def distinct_map)
    have 1: "held CmdPending (cq_batch q) (cq_step e q)"
      by (rule held_put [OF hb, where x = ?r]) (use Finish Some hb nb in \<open>auto simp: cmd_update_def held_def\<close>)
    have 2: "held CmdProcessing (remove1 r (cq_running q)) (cq_step e q)"
      by (rule held_put [OF hr, where x = ?r])
         (use Finish Some d r in \<open>auto simp: cmd_update_def distinct_map inj_on_def\<close>)
    have "x \<in> set (remove1 r (cq_running q))"
      if "hm_get (cq_repository (cq_step e q)) k = Some x" "cr_status x = CmdProcessing" for k x
      using that Finish Some sr [of k x] d(1) repo_invD(1) [OF inv(1), of k x] finished_simps(4) [of "qc_max_attempts (cq_config q)" o' r]
      by (auto simp: cmd_update_def simp del: finished_simps(4) split: if_splits)
    with 1 2 show ?thesis using Finish Some by (auto simp: worker_inv_def)
  qed
next
  case (Cleanup now)
  have w: "hm_wf (cq_repository q)" using inv(1) by (simp add: repo_inv_def)
  note g = cleanup_get [OF w repo_invD(1) [OF inv(1)]]
  show ?thesis using inv(2) Cleanup
    by (auto simp: worker_inv_def held_def g cmd_expired_def split: option.splits if_splits)
qed (use inv(2) in \<open>auto simp: worker_inv_def held_def\<close>)

section \<open>Runs\<close>

lemma queue_inv_run:
  assumes "repo_inv U ch q" "worker_inv q" "distinct (enqueued_ids evs)" "set (enqueued_ids evs) \<inter> U = {}"
  shows "repo_inv (U \<union> set (enqueued_ids evs)) (\<lambda>k. ch k + charges evs q k) (cq_run evs q) \<and> worker_inv (cq_run evs q)"
  using assms
proof (induction evs arbitrary: U ch q)
  case (Cons e es)
  have ids: "enqueued_ids (e # es) = event_ids e @ enqueued_ids es" by (simp add: enqueued_ids_def)
  have fresh: "k \<notin> U" if "k \<in> set (event_ids e)" for k using Cons.prems(4) that by (auto simp: ids)
  have "repo_inv ((U \<union> set (event_ids e)) \<union> set (enqueued_ids es)) (\<lambda>k. (ch k + charge e q k) + charges es (cq_step e q) k)
      (cq_run es (cq_step e q)) \<and> worker_inv (cq_run es (cq_step e q))"
    by (rule Cons.IH [OF repo_inv_step [OF Cons.prems(1,2) fresh] worker_inv_step [OF Cons.prems(1,2) fresh]])
       (use Cons.prems(3,4) in \<open>auto simp: ids\<close>)
  then show ?case by (simp add: ids cq_run_def Un_assoc add.assoc)
qed (simp add: cq_run_def enqueued_ids_def)

lemma queue_inv_new: "repo_inv {} (\<lambda>_. 0) (cq_new c)" "worker_inv (cq_new c)"
  by (simp_all add: cq_new_def repo_inv_def worker_inv_def held_def)

lemma queue_inv_reachable:
  assumes "distinct (enqueued_ids evs)"
  shows "repo_inv (set (enqueued_ids evs)) (charges evs (cq_new c)) (cq_run evs (cq_new c))" "worker_inv (cq_run evs (cq_new c))"
  using queue_inv_run [OF queue_inv_new assms, of c] by simp_all

text \<open>A command that has ended is not touched again, until it is cleaned up.\<close>

lemma final_stays:
  assumes "repo_inv U ch q" "worker_inv q" "\<And>k. k \<in> set (event_ids e) \<Longrightarrow> k \<notin> U"
    and r: "hm_get (cq_repository q) k = Some r" "\<not> cmd_live r"
  shows "hm_get (cq_repository (cq_step e q)) k \<in> {None, Some r}"
proof (cases e)
  case (Enqueue uuid now cmd thid conn key payload)
  have "k \<noteq> uuid" using repo_invD(2) [OF assms(1) r(1)] assms(3) Enqueue by auto
  then show ?thesis using r Enqueue by (auto simp: cq_enqueue_def cq_enqueue_save_def cmd_save_def command_record_new_def split: option.splits)
next
  case (EnqueueSave uuid now cmd thid conn key payload)
  have "k \<noteq> uuid" using repo_invD(2) [OF assms(1) r(1)] assms(3) EnqueueSave by auto
  then show ?thesis using r EnqueueSave by (auto simp: cq_enqueue_save_def cmd_save_def command_record_new_def)
next
  case (Claim now)
  have "x \<in> set (cq_batch q) \<Longrightarrow> cr_id x \<noteq> k" for x using assms(2) r by (auto simp: worker_inv_def held_def cmd_live_def)
  then have "cq_batch q = x # xs \<Longrightarrow> cr_id x \<noteq> k" for x xs by simp
  then show ?thesis using r Claim by (cases "cq_batch q") (auto simp: cmd_update_def Let_def)
next
  case (Finish rid o')
  have "x \<in> set (cq_running q) \<Longrightarrow> cr_id x \<noteq> k" for x using assms(2) r by (auto simp: worker_inv_def held_def cmd_live_def)
  then show ?thesis using r Finish by (auto simp: cmd_update_def split: option.splits dest!: find_running(1))
next
  case (Cleanup now)
  have w: "hm_wf (cq_repository q)" using assms(1) by (simp add: repo_inv_def)
  note g = cleanup_get [OF w repo_invD(1) [OF assms(1)]]
  show ?thesis using r Cleanup by (auto simp: g)
qed (use r in auto)

lemma gone_stays:
  assumes "repo_inv U ch q" "worker_inv q" "k \<notin> set (event_ids e)" "hm_get (cq_repository q) k = None"
  shows "hm_get (cq_repository (cq_step e q)) k = None"
proof (cases e)
  case (Claim now)
  have "x \<in> set (cq_batch q) \<Longrightarrow> cr_id x \<noteq> k" for x using assms(2,4) by (auto simp: worker_inv_def held_def)
  then have "cq_batch q = x # xs \<Longrightarrow> cr_id x \<noteq> k" for x xs by simp
  then show ?thesis using assms(4) Claim by (cases "cq_batch q") (auto simp: cmd_update_def Let_def)
next
  case (Finish rid o')
  have "x \<in> set (cq_running q) \<Longrightarrow> cr_id x \<noteq> k" for x using assms(2,4) by (auto simp: worker_inv_def held_def)
  then show ?thesis using assms(4) Finish by (auto simp: cmd_update_def split: option.splits dest!: find_running(1))
next
  case (Cleanup now)
  have w: "hm_wf (cq_repository q)" using assms(1) by (simp add: repo_inv_def)
  show ?thesis using assms(4) Cleanup by (auto simp: cleanup_get [OF w repo_invD(1) [OF assms(1)]])
qed (use assms(3,4) in \<open>auto simp: cq_enqueue_def cq_enqueue_save_def cmd_save_def command_record_new_def split: option.splits\<close>)

lemma final_stays_run:
  assumes "repo_inv U ch q" "worker_inv q" "distinct (enqueued_ids evs)" "set (enqueued_ids evs) \<inter> U = {}" "k \<in> U"
    and "hm_get (cq_repository q) k \<in> {None, Some r}" "\<not> cmd_live r"
  shows "hm_get (cq_repository (cq_run evs q)) k \<in> {None, Some r}"
  using assms(1-6)
proof (induction evs arbitrary: U ch q)
  case (Cons e es)
  have ids: "enqueued_ids (e # es) = event_ids e @ enqueued_ids es" by (simp add: enqueued_ids_def)
  have fresh: "k \<notin> U" if "k \<in> set (event_ids e)" for k using Cons.prems(4) that by (auto simp: ids)
  have "hm_get (cq_repository (cq_step e q)) k \<in> {None, Some r}"
  proof (cases "hm_get (cq_repository q) k")
    case None
    then show ?thesis using gone_stays [OF Cons.prems(1,2) _ None] fresh Cons.prems(5) by blast
  next
    case (Some x)
    then show ?thesis using final_stays [OF Cons.prems(1,2) fresh, of _ k r] Cons.prems(6) assms(7) by auto
  qed
  then have "hm_get (cq_repository (cq_run es (cq_step e q))) k \<in> {None, Some r}"
    by (intro Cons.IH [OF repo_inv_step [OF Cons.prems(1,2) fresh] worker_inv_step [OF Cons.prems(1,2) fresh]])
       (use Cons.prems in \<open>auto simp: ids\<close>)
  then show ?case by (simp add: cq_run_def)
qed (simp add: cq_run_def)

lemma enqueued_ids_append [simp]: "enqueued_ids (evs @ evs') = enqueued_ids evs @ enqueued_ids evs'"
  by (simp add: enqueued_ids_def)

lemma cq_run_append: "cq_run (evs @ evs') q = cq_run evs' (cq_run evs q)"
  by (simp add: cq_run_def)

section \<open>What the queue promises\<close>

definition demo_job :: "string \<Rightarrow> queue_event" where
  "demo_job k = Enqueue k 0 CmdAdvance k None None JNull"

definition demo_record :: "string \<Rightarrow> command_record" where
  "demo_record k = command_record_new k 0 CmdAdvance k None None JNull"

definition demo_queue_run :: "queue_event list" where
  "demo_queue_run = [demo_job ''a'', demo_job ''b'', Poll [demo_record ''b'', demo_record ''a''], Claim 1, Claim 1, Finish ''b'' JobDone]"

text \<open>
  C31. As long as the ids drawn for commands differ, no command is ever executed by two tasks at
  once: the tasks in flight hold different commands, exactly the commands the repository says are
  being processed. A command that has completed or failed is never changed again in any
  continuation, only removed by the cleanup.
\<close>

theorem commands_run_once:
  fixes c :: command_queue_config
  assumes "distinct (enqueued_ids (evs @ evs'))"
  defines "q \<equiv> cq_run evs (cq_new c)"
  shows "distinct (map cr_id (cq_running q)) \<and>
    (\<forall>k r. hm_get (cq_repository q) k = Some r \<longrightarrow> (cr_status r = CmdProcessing \<longleftrightarrow> r \<in> set (cq_running q))) \<and>
    (\<forall>r. r \<in> set (cq_running q) \<longrightarrow> hm_get (cq_repository q) (cr_id r) = Some r) \<and>
    (\<forall>k r. hm_get (cq_repository q) k = Some r \<and> \<not> cmd_live r \<longrightarrow>
       hm_get (cq_repository (cq_run (evs @ evs') (cq_new c))) k \<in> {None, Some r})"
proof -
  have d: "distinct (enqueued_ids evs)" "distinct (enqueued_ids evs')" "set (enqueued_ids evs') \<inter> set (enqueued_ids evs) = {}"
    using assms(1) by auto
  note ri = queue_inv_reachable(1) [OF d(1), of c, folded q_def] and wi = queue_inv_reachable(2) [OF d(1), of c, folded q_def]
  have "hm_get (cq_repository (cq_run evs' q)) k \<in> {None, Some r}" if "hm_get (cq_repository q) k = Some r" "\<not> cmd_live r" for k r
    using final_stays_run [OF ri wi d(2,3) repo_invD(2) [OF ri that(1)]] that by blast
  then show ?thesis using wi by (auto simp: worker_inv_def held_def cq_run_append q_def)
qed

theorem commands_run_once_witness:
  "map cr_id (cq_running (cq_run demo_queue_run (cq_new command_queue_config_default))) = [''a''] \<and>
   hm_get (cq_repository (cq_run (demo_queue_run @ [Finish ''b'' JobTimedOut, Finish ''a'' JobDone]) (cq_new command_queue_config_default))) ''b''
     \<in> {None, Some ((claimed 1 (demo_record ''b''))\<lparr>cr_status := CmdCompleted\<rparr>)}"
proof -
  have "hm_get (cq_repository (cq_run demo_queue_run (cq_new command_queue_config_default))) ''b''
      = Some ((claimed 1 (demo_record ''b''))\<lparr>cr_status := CmdCompleted\<rparr>)"
    "map cr_id (cq_running (cq_run demo_queue_run (cq_new command_queue_config_default))) = [''a'']"
    "distinct (enqueued_ids (demo_queue_run @ [Finish ''b'' JobTimedOut, Finish ''a'' JobDone]))"
    "\<not> cmd_live ((claimed 1 (demo_record ''b''))\<lparr>cr_status := CmdCompleted\<rparr>)"
    by code_simp+
  then show ?thesis
    using commands_run_once [of demo_queue_run "[Finish ''b'' JobTimedOut, Finish ''a'' JobDone]" command_queue_config_default] by blast
qed

text \<open>
  C32. Retries end: in every run, a command's tasks end at most \<open>max_attempts\<close> times (once, when
  that is zero) with anything but a missing template, so its 32-bit attempt counter never exceeds
  that number and never wraps; when it has used them up it is completed or failed.
\<close>

theorem attempts_bounded:
  assumes "distinct (enqueued_ids evs)" and "hm_get (cq_repository (cq_run evs (cq_new c))) k = Some r"
  shows "charges evs (cq_new c) k \<le> max 1 (unat (qc_max_attempts c)) \<and>
    unat (cr_attempts r) = charges evs (cq_new c) k + (if cr_status r = CmdProcessing then 1 else 0) \<and>
    unat (cr_attempts r) \<le> max 1 (unat (qc_max_attempts c)) \<and>
    (charges evs (cq_new c) k = max 1 (unat (qc_max_attempts c)) \<longrightarrow> cr_status r \<in> {CmdCompleted, CmdFailed})"
proof -
  have c: "cq_config (cq_new c) = c" by (simp add: cq_new_def)
  have "record_ok (attempt_limit c) (charges evs (cq_new c) k) (cr_status r) (unat (cr_attempts r))"
    using repo_invD(3) [OF queue_inv_reachable(1) [OF assms(1)] assms(2)] by (simp add: c)
  then show ?thesis by (cases "cr_status r") (auto simp: attempt_limit_def)
qed

theorem attempts_bounded_witness:
  "charges (demo_queue_run @ [Finish ''a'' JobTimedOut]) (cq_new command_queue_config_default) ''a'' \<le> max 1 3"
proof -
  have "distinct (enqueued_ids (demo_queue_run @ [Finish ''a'' JobTimedOut]))" by code_simp
  moreover have "hm_get (cq_repository (cq_run (demo_queue_run @ [Finish ''a'' JobTimedOut]) (cq_new command_queue_config_default))) ''a''
      = Some (retried 3 ''Processing timeout'' (claimed 1 (demo_record ''a'')))" by code_simp
  moreover have "unat (qc_max_attempts command_queue_config_default) = 3" by code_simp
  ultimately show ?thesis using attempts_bounded [of "demo_queue_run @ [Finish ''a'' JobTimedOut]"] by metis
qed

text \<open>
  The configured concurrency bounds one poll, not the tasks in flight: each poll starts up to that
  many further tasks while the earlier ones still run.
\<close>

lemma concurrency_not_enforced:
  "length (cq_running (cq_run (map demo_job [''a'', ''b'', ''c'', ''d''] @ [Poll (map demo_record [''a'', ''b'', ''c'', ''d'']),
     Claim 1, Claim 1, Claim 1, Poll [demo_record ''d''], Claim 2]) (cq_new command_queue_config_default))) = 4"
  by code_simp

text \<open>
  Commands whose template never arrives are made pending again at once (the one-second pause comes
  after that), so three of them that the map lists first fill every poll: a command listed behind
  them stays pending for ever.
\<close>

definition deferring_round :: "(string \<Rightarrow> command_record) \<Rightarrow> queue_event list" where
  "deferring_round f = Poll (map f [''a'', ''b'', ''c'', ''d'']) # Claim 1 # Claim 1 # Claim 1 #
     map (\<lambda>k. Finish k (JobFailed True ''template'')) [''a'', ''b'', ''c'']"

definition deferred_record :: "string \<Rightarrow> command_record" where
  "deferred_record k = (if k = ''d'' then demo_record k else (demo_record k)\<lparr>cr_last_attempt_at := Some 1, cr_error := Some ''template''\<rparr>)"

definition deferred_queue :: command_queue where
  "deferred_queue = (cq_new command_queue_config_default)\<lparr>cq_repository := map (\<lambda>k. (k, deferred_record k)) [''a'', ''b'', ''c'', ''d'']\<rparr>"

lemma first_round: "cq_run (map demo_job [''a'', ''b'', ''c'', ''d''] @ deferring_round demo_record) (cq_new command_queue_config_default) = deferred_queue"
  by code_simp

lemma next_round: "cq_run (deferring_round deferred_record) deferred_queue = deferred_queue"
  by code_simp

lemma command_starved:
  "hm_get (cq_repository (cq_run (map demo_job [''a'', ''b'', ''c'', ''d''] @ deferring_round demo_record @
     concat (replicate n (deferring_round deferred_record))) (cq_new command_queue_config_default))) ''d'' = Some (demo_record ''d'')"
proof -
  have "cq_run (concat (replicate n (deferring_round deferred_record))) deferred_queue = deferred_queue"
    by (induction n) (simp_all add: cq_run_append next_round, simp add: cq_run_def)
  moreover have "hm_get (cq_repository deferred_queue) ''d'' = Some (demo_record ''d'')" by code_simp
  ultimately show ?thesis unfolding append_assoc [symmetric] cq_run_append [of _ "concat _"] first_round by simp
qed

end
