(* ===== verification/Workflow_Agent.thy ===== *)
theory Workflow_Agent
  imports Workflow_Service Workflow_Queue
begin

text \<open>
  What puts the workflow service and the command queue together: the messages and handlers of
  \<open>protocols/workflow/src\<close> and the agent's module \<open>agent/src/modules/workflow.rs\<close>. Deserialising a
  body and serialising a template are fields of \<open>workflow_codec\<close>; the other serialisers are
  written out. The send callback is a log of what was handed to it; a failed send is only logged
  by the program. Clock readings and ids are arguments.
\<close>

section \<open>Messages\<close>

definition WF_START :: string where "WF_START = ''https://didcomm.org/workflow/1.0/start''"
definition WF_ADVANCE :: string where "WF_ADVANCE = ''https://didcomm.org/workflow/1.0/advance''"
definition WF_STATUS :: string where "WF_STATUS = ''https://didcomm.org/workflow/1.0/status''"
definition WF_FETCH_TEMPLATE :: string where "WF_FETCH_TEMPLATE = ''https://didcomm.org/workflow/1.0/fetch-template''"
definition WF_TEMPLATE :: string where "WF_TEMPLATE = ''https://didcomm.org/workflow/1.0/template''"
definition WF_PUBLISH_TEMPLATE :: string where "WF_PUBLISH_TEMPLATE = ''https://didcomm.org/workflow/1.0/publish-template''"
definition WF_WORKFLOWS :: string where "WF_WORKFLOWS = ''https://didcomm.org/workflow/1.0/workflows''"
definition WF_PROBLEM_REPORT :: string where "WF_PROBLEM_REPORT = ''https://didcomm.org/workflow/1.0/problem-report''"

record start_message =
  sm_template_id :: string
  sm_template_version :: "string option"
  sm_instance_id :: "string option"
  sm_connection_id :: "string option"
  sm_participants :: "(string, participant) hash_map option"
  sm_context :: "json option"
  sm_allow_discover :: "bool option"
  sm_template_hash :: "string option"

record advance_message =
  am_instance_id :: string
  am_event :: string
  am_idempotency_key :: "string option"
  am_input :: "json option"

text \<open>\<open>PauseMessage\<close>, \<open>ResumeMessage\<close>, \<open>CancelMessage\<close> and \<open>CompleteMessage\<close> have the same fields.\<close>

record control_message =
  cm_instance_id :: string
  cm_reason :: "string option"

record wf_status_request =
  sr_instance_id :: string
  sr_include_actions :: bool
  sr_include_ui :: bool
  sr_ui_profile :: "string option"
  sr_viewer :: "string option"
  sr_capabilities :: "json option"

record discover_filters =
  df_template_id :: "string option"
  df_version :: "string option"
  df_tag :: "string option"
  df_text :: "string option"

record paging_params =
  pg_offset :: "nat option"
  pg_limit :: "nat option"

record discover_message =
  dm_filters :: "discover_filters option"
  dm_paging :: "paging_params option"
  dm_include_hash :: bool

record workflow_summary =
  wy_template_id :: string
  wy_versions :: "string list"
  wy_title :: "string option"
  wy_hash :: "string option"

record fetch_template_message =
  fm_template_id :: string
  fm_template_version :: "string option"
  fm_prefer_hash :: bool

record workflow_codec =
  wd_start :: "json \<Rightarrow> string + start_message"
  wd_advance :: "json \<Rightarrow> string + advance_message"
  wd_control :: "json \<Rightarrow> string + control_message"
  wd_status_request :: "json \<Rightarrow> string + wf_status_request"
  wd_discover :: "json \<Rightarrow> string + discover_message"
  wd_fetch_template :: "json \<Rightarrow> string + fetch_template_message"
  wd_template :: "json \<Rightarrow> string + workflow_template"
  wd_problem_report :: "json \<Rightarrow> string + unit"
  we_template :: "workflow_template \<Rightarrow> json"
  we_lowercase :: "string \<Rightarrow> string"
  we_status_debug :: "instance_status \<Rightarrow> string"
  we_duration_debug :: "nat \<Rightarrow> string"

text \<open>A field that is skipped when it is absent.\<close>

definition opt_field :: "string \<Rightarrow> ('a \<Rightarrow> json) \<Rightarrow> 'a option \<Rightarrow> (string \<times> json) list" where
  "opt_field key f x = (case x of None \<Rightarrow> [] | Some v \<Rightarrow> [(key, f v)])"

definition participants_value :: "(string, participant) hash_map \<Rightarrow> json" where
  "participants_value ps = JObject (map (\<lambda>(n, did). (n, JObject [(''did'', JString did)])) ps)"

definition start_value :: "start_message \<Rightarrow> json" where
  "start_value m = JObject ([(''template_id'', JString (sm_template_id m))] @ opt_field ''template_version'' JString (sm_template_version m) @
     opt_field ''instance_id'' JString (sm_instance_id m) @ opt_field ''connection_id'' JString (sm_connection_id m) @
     opt_field ''participants'' participants_value (sm_participants m) @ opt_field ''context'' (\<lambda>v. v) (sm_context m) @
     opt_field ''allow_discover'' JBool (sm_allow_discover m) @ opt_field ''template_hash'' JString (sm_template_hash m))"

definition advance_value :: "advance_message \<Rightarrow> json" where
  "advance_value m = JObject ([(''instance_id'', JString (am_instance_id m)), (''event'', JString (am_event m))] @
     opt_field ''idempotency_key'' JString (am_idempotency_key m) @ opt_field ''input'' (\<lambda>v. v) (am_input m))"

definition control_value :: "control_message \<Rightarrow> json" where
  "control_value m = JObject ((''instance_id'', JString (cm_instance_id m)) # opt_field ''reason'' JString (cm_reason m))"

definition fetch_template_value :: "fetch_template_message \<Rightarrow> json" where
  "fetch_template_value m = JObject ([(''template_id'', JString (fm_template_id m))] @
     opt_field ''template_version'' JString (fm_template_version m) @ [(''prefer_hash'', JBool (fm_prefer_hash m))])"

definition template_response_value :: "workflow_codec \<Rightarrow> workflow_template \<Rightarrow> json" where
  "template_response_value cd t = JObject [(''template'', we_template cd t)]"

definition problem_value :: "string \<Rightarrow> string option \<Rightarrow> json" where
  "problem_value code comment = JObject ((''code'', JString code) # opt_field ''comment'' JString comment)"

definition status_value :: "wf_status_message \<Rightarrow> json" where
  "status_value m = JObject ([(''instance_id'', JString (sg_instance_id m)), (''state'', JString (sg_state m))] @
     opt_field ''section'' JString (sg_section m) @
     [(''allowed_events'', JArray (map JString (sg_allowed_events m))), (''action_menu'', JArray (sg_action_menu m)), (''artifacts'', sg_artifacts m)] @
     opt_field ''ui'' (\<lambda>v. v) (sg_ui m) @ opt_field ''ui_profile'' JString (sg_ui_profile m) @ opt_field ''assets'' (\<lambda>v. v) (sg_assets m))"

definition summary_value :: "workflow_summary \<Rightarrow> json" where
  "summary_value y = JObject ([(''template_id'', JString (wy_template_id y)), (''versions'', JArray (map JString (wy_versions y)))] @
     opt_field ''title'' JString (wy_title y) @ opt_field ''hash'' JString (wy_hash y))"

definition paging_value :: "paging_params \<Rightarrow> json" where
  "paging_value p = JObject (opt_field ''offset'' (\<lambda>n. JInt (int n)) (pg_offset p) @ opt_field ''limit'' (\<lambda>n. JInt (int n)) (pg_limit p))"

definition workflows_value :: "workflow_summary list \<Rightarrow> paging_params option \<Rightarrow> json" where
  "workflows_value ws paging = JObject ((''workflows'', JArray (map summary_value ws)) # opt_field ''paging'' paging_value paging)"

section \<open>Errors as text\<close>

fun workflow_error_str :: "workflow_codec \<Rightarrow> workflow_error \<Rightarrow> string" where
  "workflow_error_str cd (InstanceNotFound m) = ''Workflow instance not found: '' @ m"
| "workflow_error_str cd (TemplateNotFound m) = ''Workflow template not found: '' @ m"
| "workflow_error_str cd (InvalidTransitionFrom f e) = ''Invalid state transition: from '' @ quoted f @ '' on event '' @ quoted e"
| "workflow_error_str cd (InvalidStatus s o') = ''Instance is '' @ we_status_debug cd s @ '', cannot '' @ o'"
| "workflow_error_str cd (NoEnabledTransition s e) = ''No enabled transitions for event '' @ quoted e @ '' in state '' @ quoted s"
| "workflow_error_str cd (PolicyViolation m) = ''Instance policy violation: '' @ m"
| "workflow_error_str cd (ActionFailed m) = ''Action execution failed: '' @ m"
| "workflow_error_str cd (ActionTimeout t) = ''Action timeout after '' @ we_duration_debug cd t"
| "workflow_error_str cd (ActionHandlerNotFound m) = ''Action handler not found for typeURI: '' @ m"
| "workflow_error_str cd (ValidationFailed m) = ''Template validation failed: '' @ m"
| "workflow_error_str cd (IdempotentDuplicate m) = ''Idempotent operation: already processed with key '' @ quoted m"
| "workflow_error_str cd (ConnectionMismatch e a) = ''Connection binding mismatch: expected '' @ e @ '', got '' @ a"
| "workflow_error_str cd (WfSerialization m) = ''Serialization error: '' @ m"
| "workflow_error_str cd (WfRepository m) = ''Repository error: '' @ m"
| "workflow_error_str cd (WfInternal m) = ''Internal error: '' @ m"

section \<open>State\<close>

text \<open>
  \<open>wm_sent\<close> is what the send callback received, if one is installed; \<open>wm_resends\<close> are the tasks
  that re-deliver an advance, each with the deliveries it still has to make.
\<close>

record workflow_module =
  wm_service :: workflow
  wm_queue :: command_queue
  wm_sent :: "(string \<times> string \<times> json) list option"
  wm_resends :: "(nat \<times> string \<times> json) list"

type_synonym 'a wm_prog = "(workflow_module, workflow_error, 'a) prog"
type_synonym wm_handler = "(workflow_module, handler_error, outbound_message option) prog"

definition AUTO_ADVANCE_RESEND_DELAYS_MS :: "u64 list" where
  "AUTO_ADVANCE_RESEND_DELAYS_MS = [1500, 3500]"

definition wm_new :: workflow_module where
  "wm_new = \<lparr>wm_service = wf_new rg_new, wm_queue = cq_new command_queue_config_default, wm_sent = None, wm_resends = []\<rparr>"

definition wm_with_event_bus :: "workflow_module \<Rightarrow> workflow_module" where
  "wm_with_event_bus m = m\<lparr>wm_service := wf_with_event_bus (wm_service m)\<rparr>"

definition wm_register_action :: "string \<Rightarrow> action_handler \<Rightarrow> workflow_module \<Rightarrow> workflow_module" where
  "wm_register_action uri h m = m\<lparr>wm_service := (wm_service m)\<lparr>wf_registry := rg_register uri h (wf_registry (wm_service m))\<rparr>\<rparr>"

definition wm_set_send_callback :: "workflow_module \<Rightarrow> workflow_module" where
  "wm_set_send_callback m = m\<lparr>wm_sent := Some (opt_or_new [] (wm_sent m))\<rparr>"

definition wm_notify_peer :: "string \<Rightarrow> string \<Rightarrow> json \<Rightarrow> workflow_module \<Rightarrow> workflow_module" where
  "wm_notify_peer connection_id type_uri body m = m\<lparr>wm_sent := map_option (\<lambda>l. l @ [(connection_id, type_uri, body)]) (wm_sent m)\<rparr>"

text \<open>A call into the service.\<close>

definition on_service :: "'a wf_prog \<Rightarrow> 'a wm_prog" where
  "on_service p m = (case p (wm_service m) of (s, r) \<Rightarrow> (m\<lparr>wm_service := s\<rparr>, r))"

section \<open>Handlers\<close>

definition parse_message :: "(json \<Rightarrow> string + 'b) \<Rightarrow> inbound_message \<Rightarrow> (workflow_module, handler_error, 'b) prog" where
  "parse_message decode i = result (map_sum InvalidMessage (\<lambda>b. b) (decode (msg_body (in_message i))))"

definition answer :: "inbound_message \<Rightarrow> string \<Rightarrow> string \<Rightarrow> json \<Rightarrow> wm_handler" where
  "answer i uuid ty body =
     ok (case (cx_to (in_context i), cx_from (in_context i)) of
           (Some from, Some to) \<Rightarrow> Some \<lparr>out_message = message_new uuid ty body, out_to = to, out_from = from,
                                           out_connection_id = cx_connection_id (in_context i)\<rparr>
         | _ \<Rightarrow> None)"

definition enqueue_command ::
  "string \<Rightarrow> timestamp \<Rightarrow> command_type \<Rightarrow> string \<Rightarrow> string option \<Rightarrow> inbound_message \<Rightarrow> json \<Rightarrow> (workflow_module, handler_error, unit) prog" where
  "enqueue_command uuid now cmd thid key i payload =
     modify (\<lambda>m. m\<lparr>wm_queue := cq_enqueue uuid now cmd thid (cx_connection_id (in_context i)) key payload (wm_queue m)\<rparr>)"

definition start_handler :: "workflow_codec \<Rightarrow> (nat \<Rightarrow> string) \<Rightarrow> timestamp \<Rightarrow> inbound_message \<Rightarrow> wm_handler" where
  "start_handler cd uuids now i =
     seq (parse_message (wd_start cd) i) (\<lambda>msg.
     let instance_id = (case sm_instance_id msg of Some k \<Rightarrow> k | None \<Rightarrow> uuids 0)
     in seq (enqueue_command (uuids 1) now CmdStart instance_id None i (start_value msg)) (\<lambda>_.
        if opt_or_new True (sm_allow_discover msg)
        then seq (read (\<lambda>m. tr_find (sm_template_id msg) (sm_template_version msg) (wm_service m))) (\<lambda>found.
             if found = None
             then answer i (uuids 2) WF_FETCH_TEMPLATE
                    (fetch_template_value \<lparr>fm_template_id = sm_template_id msg, fm_template_version = sm_template_version msg, fm_prefer_hash = False\<rparr>)
             else ok None)
        else ok None))"

definition advance_handler :: "workflow_codec \<Rightarrow> string \<Rightarrow> timestamp \<Rightarrow> inbound_message \<Rightarrow> wm_handler" where
  "advance_handler cd uuid now i =
     seq (parse_message (wd_advance cd) i) (\<lambda>msg.
     seq (enqueue_command uuid now CmdAdvance (am_instance_id msg) (am_idempotency_key msg) i (advance_value msg)) (\<lambda>_. ok None))"

definition control_handler :: "command_type \<Rightarrow> workflow_codec \<Rightarrow> string \<Rightarrow> timestamp \<Rightarrow> inbound_message \<Rightarrow> wm_handler" where
  "control_handler cmd cd uuid now i =
     seq (parse_message (wd_control cd) i) (\<lambda>msg.
     seq (enqueue_command uuid now cmd (cm_instance_id msg) None i (control_value msg)) (\<lambda>_. ok None))"

definition pause_handler :: "workflow_codec \<Rightarrow> string \<Rightarrow> timestamp \<Rightarrow> inbound_message \<Rightarrow> wm_handler" where
  "pause_handler = control_handler CmdPause"

definition resume_handler :: "workflow_codec \<Rightarrow> string \<Rightarrow> timestamp \<Rightarrow> inbound_message \<Rightarrow> wm_handler" where
  "resume_handler = control_handler CmdResume"

definition cancel_handler :: "workflow_codec \<Rightarrow> string \<Rightarrow> timestamp \<Rightarrow> inbound_message \<Rightarrow> wm_handler" where
  "cancel_handler = control_handler CmdCancel"

definition complete_handler :: "workflow_codec \<Rightarrow> string \<Rightarrow> timestamp \<Rightarrow> inbound_message \<Rightarrow> wm_handler" where
  "complete_handler = control_handler CmdComplete"

text \<open>\<open>map_err(|e| ProcessingFailed(e.to_string()))\<close> around a call into the service.\<close>

definition processing :: "workflow_codec \<Rightarrow> 'a wf_prog \<Rightarrow> (workflow_module, handler_error, 'a) prog" where
  "processing cd p m = (case on_service p m of (m, r) \<Rightarrow> (m, map_sum (\<lambda>e. ProcessingFailed (workflow_error_str cd e)) (\<lambda>a. a) r))"

definition status_handler :: "wf_env \<Rightarrow> workflow_codec \<Rightarrow> string \<Rightarrow> inbound_message \<Rightarrow> wm_handler" where
  "status_handler we cd uuid i =
     (if Option.bind (json_get (msg_body (in_message i)) ''state'') json_as_str \<noteq> None then ok None
      else seq (parse_message (wd_status_request cd) i) (\<lambda>req.
           seq (processing cd (wf_status we (sr_instance_id req) (sr_ui_profile req))) (\<lambda>(msg, record).
           answer i uuid WF_STATUS (status_value msg))))"

definition publish_template_handler :: "wf_env \<Rightarrow> workflow_codec \<Rightarrow> string \<Rightarrow> timestamp \<Rightarrow> inbound_message \<Rightarrow> wm_handler" where
  "publish_template_handler we cd uuid now i =
     seq (parse_message (wd_template cd) i) (\<lambda>t. seq (processing cd (publish_template we uuid now t)) (\<lambda>_. ok None))"

definition template_handler :: "wf_env \<Rightarrow> workflow_codec \<Rightarrow> string \<Rightarrow> timestamp \<Rightarrow> inbound_message \<Rightarrow> wm_handler" where
  "template_handler we cd uuid now i =
     seq (parse_message (wd_template cd) i) (\<lambda>t. seq (processing cd (publish_template we uuid now t)) (\<lambda>_. ok None))"

definition fetch_template_handler :: "workflow_codec \<Rightarrow> string \<Rightarrow> inbound_message \<Rightarrow> wm_handler" where
  "fetch_template_handler cd uuid i =
     seq (parse_message (wd_fetch_template cd) i) (\<lambda>msg.
     seq (processing cd (get_template (fm_template_id msg) (fm_template_version msg))) (\<lambda>found.
     case found of
       Some record \<Rightarrow> answer i uuid WF_TEMPLATE (template_response_value cd (tr_template record))
     | None \<Rightarrow> answer i uuid WF_PROBLEM_REPORT
                 (problem_value ''invalid_template'' (Some (''Template '' @ quoted (fm_template_id msg) @ '' not found'')))))"

definition discover_matches :: "workflow_codec \<Rightarrow> discover_message \<Rightarrow> template_record \<Rightarrow> bool" where
  "discover_matches cd msg r =
     (case dm_filters msg of
        None \<Rightarrow> True
      | Some f \<Rightarrow>
          (case df_template_id f of None \<Rightarrow> True | Some k \<Rightarrow> tr_template_id r = k) \<and>
          (case df_text f of None \<Rightarrow> True | Some t \<Rightarrow> str_contains (we_lowercase cd (tr_title r)) (we_lowercase cd t)))"

text \<open>The three maps of the handler: versions in the order met, the last title and hash.\<close>

definition group_templates :: "template_record list \<Rightarrow> (string, string list \<times> string \<times> string) hash_map" where
  "group_templates rs =
     fold (\<lambda>r g. hm_insert (tr_template_id r)
        ((case hm_get g (tr_template_id r) of None \<Rightarrow> [] | Some (vs, _) \<Rightarrow> vs) @ [tr_version r], tr_title r, tr_hash r) g) rs []"

definition discover_workflows :: "workflow_codec \<Rightarrow> discover_message \<Rightarrow> template_record list \<Rightarrow> workflow_summary list" where
  "discover_workflows cd msg all =
     (let ws = map (\<lambda>(k, vs, title, hash). \<lparr>wy_template_id = k, wy_versions = vs, wy_title = Some title,
                  wy_hash = (if dm_include_hash msg then Some hash else None)\<rparr>) (group_templates (filter (discover_matches cd msg) all))
      in case dm_paging msg of
           None \<Rightarrow> ws
         | Some p \<Rightarrow> (let ws = (case pg_offset p of None \<Rightarrow> ws | Some n \<Rightarrow> drop n ws)
                       in case pg_limit p of None \<Rightarrow> ws | Some n \<Rightarrow> take n ws))"

definition discover_handler :: "workflow_codec \<Rightarrow> string \<Rightarrow> inbound_message \<Rightarrow> wm_handler" where
  "discover_handler cd uuid i =
     seq (parse_message (wd_discover cd) i) (\<lambda>msg.
     seq (processing cd list_templates) (\<lambda>all.
     answer i uuid WF_WORKFLOWS (workflows_value (discover_workflows cd msg all) (dm_paging msg))))"

definition problem_report_handler :: "workflow_codec \<Rightarrow> inbound_message \<Rightarrow> wm_handler" where
  "problem_report_handler cd i = seq (parse_message (wd_problem_report cd) i) (\<lambda>_. ok None)"

section \<open>The worker's job handler\<close>

definition parse_payload :: "(json \<Rightarrow> string + 'b) \<Rightarrow> json \<Rightarrow> ('s, workflow_error, 'b) prog" where
  "parse_payload decode payload = result (map_sum WfSerialization (\<lambda>b. b) (decode payload))"

definition job_handler :: "wf_env \<Rightarrow> workflow_codec \<Rightarrow> (nat \<Rightarrow> string) \<Rightarrow> (nat \<Rightarrow> timestamp) \<Rightarrow> command_record \<Rightarrow> unit wf_prog" where
  "job_handler we cd uuids nows c =
     (case cr_cmd c of
        CmdStart \<Rightarrow>
          seq (parse_payload (wd_start cd) (cr_payload c)) (\<lambda>msg.
          seq (wf_start uuids (nows 0) \<lparr>so_template_id = sm_template_id msg, so_template_version = sm_template_version msg,
                 so_instance_id = sm_instance_id msg, so_connection_id = cr_connection_id c, so_participants = sm_participants msg,
                 so_context = sm_context msg, so_role = Processor\<rparr>) (\<lambda>_. ok ()))
      | CmdAdvance \<Rightarrow>
          seq (parse_payload (wd_advance cd) (cr_payload c)) (\<lambda>msg.
          seq (wf_advance_mirror we nows \<lparr>ao_instance_id = am_instance_id msg, ao_event = am_event msg,
                 ao_idempotency_key = am_idempotency_key msg, ao_input = am_input msg\<rparr>) (\<lambda>_. ok ()))
      | CmdPause \<Rightarrow> seq (parse_payload (wd_control cd) (cr_payload c)) (\<lambda>msg. seq (wf_pause (nows 0) (cm_instance_id msg)) (\<lambda>_. ok ()))
      | CmdResume \<Rightarrow> seq (parse_payload (wd_control cd) (cr_payload c)) (\<lambda>msg. seq (wf_resume (nows 0) (cm_instance_id msg)) (\<lambda>_. ok ()))
      | CmdCancel \<Rightarrow> seq (parse_payload (wd_control cd) (cr_payload c)) (\<lambda>msg. seq (wf_cancel (nows 0) (cm_instance_id msg)) (\<lambda>_. ok ()))
      | CmdComplete \<Rightarrow> seq (parse_payload (wd_control cd) (cr_payload c)) (\<lambda>msg. seq (wf_complete (cm_instance_id msg)) (\<lambda>_. ok ())))"

text \<open>What the worker makes of the handler's result.\<close>

definition job_result :: "workflow_codec \<Rightarrow> workflow_error + unit \<Rightarrow> job_outcome" where
  "job_result cd r =
     (case r of
        Inr _ \<Rightarrow> JobDone
      | Inl e \<Rightarrow> JobFailed (case e of TemplateNotFound _ \<Rightarrow> True | _ \<Rightarrow> False) (workflow_error_str cd e))"

text \<open>One task of the worker from its claim to its end, without a timeout.\<close>

definition wm_run_task :: "wf_env \<Rightarrow> workflow_codec \<Rightarrow> (nat \<Rightarrow> string) \<Rightarrow> (nat \<Rightarrow> timestamp) \<Rightarrow> string \<Rightarrow> workflow_module \<Rightarrow> workflow_module" where
  "wm_run_task we cd uuids nows rid m =
     (case find (\<lambda>r. cr_id r = rid) (cq_running (wm_queue m)) of
        None \<Rightarrow> m
      | Some c \<Rightarrow> (case on_service (job_handler we cd uuids nows c) m of
                     (m, r) \<Rightarrow> m\<lparr>wm_queue := cq_step (Finish rid (job_result cd r)) (wm_queue m)\<rparr>))"

section \<open>The module's operations\<close>

definition wm_publish_template :: "wf_env \<Rightarrow> string \<Rightarrow> timestamp \<Rightarrow> workflow_template \<Rightarrow> template_record wm_prog" where
  "wm_publish_template we uuid now t = on_service (publish_template we uuid now t)"

definition publish_message_value :: "workflow_codec \<Rightarrow> workflow_template \<Rightarrow> json" where
  "publish_message_value cd t = JObject [(''template'', we_template cd t)]"

definition wm_start :: "workflow_codec \<Rightarrow> (nat \<Rightarrow> string) \<Rightarrow> timestamp \<Rightarrow> start_options \<Rightarrow> instance_record wm_prog" where
  "wm_start cd uuids now opts =
     seq (on_service (wf_start uuids now opts)) (\<lambda>rec.
     let d = ir_data rec
     in seq (case (so_role opts, so_connection_id opts) of
               (Coordinator, Some conn) \<Rightarrow>
                 modify (\<lambda>m.
                   let m = (case tr_find (in_template_id d) (Some (in_template_version d)) (wm_service m) of
                              None \<Rightarrow> m
                            | Some tr \<Rightarrow> wm_notify_peer conn WF_PUBLISH_TEMPLATE (publish_message_value cd (tr_template tr)) m)
                   in wm_notify_peer conn WF_START (start_value
                        \<lparr>sm_template_id = in_template_id d, sm_template_version = Some (in_template_version d),
                         sm_instance_id = Some (in_instance_id d), sm_connection_id = Some conn, sm_participants = Some (in_participants d),
                         sm_context = Some (in_ctx d), sm_allow_discover = Some True, sm_template_hash = None\<rparr>) m)
             | _ \<Rightarrow> ok ()) (\<lambda>_. ok rec))"

definition advance_message_of :: "advance_options \<Rightarrow> advance_message" where
  "advance_message_of opts = \<lparr>am_instance_id = ao_instance_id opts, am_event = ao_event opts,
     am_idempotency_key = ao_idempotency_key opts, am_input = ao_input opts\<rparr>"

definition wm_advance :: "wf_env \<Rightarrow> (nat \<Rightarrow> timestamp) \<Rightarrow> advance_options \<Rightarrow> instance_record wm_prog" where
  "wm_advance we nows opts =
     seq (on_service (wf_advance we nows opts)) (\<lambda>rec.
     seq (case in_connection_id (ir_data rec) of
            None \<Rightarrow> ok ()
          | Some conn \<Rightarrow> modify (wm_notify_peer conn WF_ADVANCE (advance_value (advance_message_of opts)))) (\<lambda>_.
     ok rec))"

definition auto_options :: "string \<Rightarrow> string \<Rightarrow> advance_options" where
  "auto_options event instance_id = \<lparr>ao_instance_id = instance_id, ao_event = event,
     ao_idempotency_key = Some (''auto:'' @ event @ '':'' @ instance_id), ao_input = None\<rparr>"

definition wm_auto_advance :: "wf_env \<Rightarrow> (nat \<Rightarrow> timestamp) \<Rightarrow> string \<Rightarrow> instance_record \<Rightarrow> workflow_module \<Rightarrow> workflow_module" where
  "wm_auto_advance we nows event inst m =
     (let opts = auto_options event (in_instance_id (ir_data inst))
      in case wm_advance we nows opts m of
           (m, Inl _) \<Rightarrow> m
         | (m, Inr rec) \<Rightarrow>
             (case in_connection_id (ir_data rec) of
                None \<Rightarrow> m
              | Some conn \<Rightarrow> m\<lparr>wm_resends := wm_resends m @
                    [(length AUTO_ADVANCE_RESEND_DELAYS_MS, conn, advance_value (advance_message_of opts))]\<rparr>))"

definition wm_advance_by_connection :: "wf_env \<Rightarrow> (nat \<Rightarrow> timestamp) \<Rightarrow> string \<Rightarrow> string \<Rightarrow> workflow_module \<Rightarrow> workflow_module" where
  "wm_advance_by_connection we nows connection_id event m =
     fold (wm_auto_advance we nows event) (ir_find_by_connection connection_id (wm_service m)) m"

text \<open>A delay of the \<open>k\<close>-th re-delivery task is over.\<close>

definition wm_resend :: "nat \<Rightarrow> workflow_module \<Rightarrow> workflow_module" where
  "wm_resend k m =
     (if k < length (wm_resends m)
      then case wm_resends m ! k of
             (0, _) \<Rightarrow> m
           | (Suc n, conn, body) \<Rightarrow> (wm_notify_peer conn WF_ADVANCE body m)\<lparr>wm_resends := (wm_resends m)[k := (n, conn, body)]\<rparr>
      else m)"

end
