(* ===== verification/Workflow_Guarantees.thy ===== *)
theory Workflow_Guarantees
  imports Workflow_Agent
begin

text \<open>
  What the workflow protocol guarantees: instances follow their templates, the events a status
  answer lists are those an advance accepts, a keyed advance is applied once; and what it does
  not: lemmas that exhibit the gaps between the code and its comments.
\<close>

section \<open>Validated templates\<close>

lemma validate_transitions_ok:
  "validate_transitions t rs = Inr () \<longleftrightarrow>
     (\<forall>r\<in>set rs. td_from r \<in> sd_name ` set (wt_states t) \<and> td_to r \<in> sd_name ` set (wt_states t) \<and>
        (\<forall>key. td_action r = Some key \<longrightarrow> find_action t key \<noteq> None))"
  by (induction rs) (auto simp: Let_def split: option.splits)

lemma validate_template_ok:
  assumes "validate_template t = Inr ()"
  shows "\<exists>st. start_state t = Some st \<and> filter (\<lambda>s. sd_state_type s = StartState) (wt_states t) = [st]"
    and "r \<in> set (wt_transitions t) \<Longrightarrow> td_from r \<in> sd_name ` set (wt_states t) \<and> td_to r \<in> sd_name ` set (wt_states t)"
    and "r \<in> set (wt_transitions t) \<Longrightarrow> td_action r = Some key \<Longrightarrow> find_action t key \<noteq> None"
proof -
  let ?starts = "filter (\<lambda>s. sd_state_type s = StartState) (wt_states t)"
  have "length ?starts \<noteq> 0 \<and> \<not> length ?starts > 1" using assms by (auto simp: validate_template_def Let_def split: if_splits)
  then have "length ?starts = 1" by linarith
  then obtain st where st: "?starts = [st]" by (auto simp: length_Suc_conv)
  moreover have "start_state t = Some st"
  proof -
    obtain us vs where "wt_states t = us @ st # vs" "\<forall>u\<in>set us. sd_state_type u \<noteq> StartState" "sd_state_type st = StartState"
      using filter_eq_ConsD [OF st] by blast
    moreover have "find P (us @ st # vs) = Some st" if "\<forall>u\<in>set us. \<not> P u" "P st" for P us
      using that by (induction us) auto
    ultimately show ?thesis unfolding start_state_def by simp
  qed
  ultimately show "\<exists>st. start_state t = Some st \<and> ?starts = [st]" by blast
  have "validate_transitions t (wt_transitions t) = Inr ()"
    using assms by (simp add: validate_template_def Let_def split: if_splits)
  then show "r \<in> set (wt_transitions t) \<Longrightarrow> td_from r \<in> sd_name ` set (wt_states t) \<and> td_to r \<in> sd_name ` set (wt_states t)"
    "r \<in> set (wt_transitions t) \<Longrightarrow> td_action r = Some key \<Longrightarrow> find_action t key \<noteq> None"
    by (auto simp: validate_transitions_ok)
qed

section \<open>Instances follow their templates\<close>

definition declares :: "workflow_template \<Rightarrow> history_item \<Rightarrow> bool" where
  "declares t h \<longleftrightarrow> (\<exists>r\<in>set (wt_transitions t). td_from r = hi_from h \<and> td_on r = hi_event h \<and> td_to r = hi_to h \<and> td_action r = hi_action_key h)"

fun path :: "workflow_template \<Rightarrow> string \<Rightarrow> history_item list \<Rightarrow> string \<Rightarrow> bool" where
  "path t s [] s' \<longleftrightarrow> s = s'"
| "path t s (h # hs) s' \<longleftrightarrow> hi_from h = s \<and> declares t h \<and> path t (hi_to h) hs s'"

lemma path_snoc: "path t s (hs @ [h]) s' \<longleftrightarrow> path t s hs (hi_from h) \<and> declares t h \<and> hi_to h = s'"
  by (induction hs arbitrary: s) auto

lemma path_state:
  assumes "validate_template t = Inr ()" "path t s hs s'" "s \<in> sd_name ` set (wt_states t)"
  shows "s' \<in> sd_name ` set (wt_states t)"
  using assms(2,3)
proof (induction hs arbitrary: s)
  case (Cons h hs)
  then have "hi_to h \<in> sd_name ` set (wt_states t)" by (auto simp: declares_def dest!: validate_template_ok(2) [OF assms(1)])
  then show ?case using Cons.IH [of "hi_to h"] Cons.prems(1) by simp
qed simp

type_synonym template_catalog = "string \<times> string \<Rightarrow> workflow_template option"

definition template_ok :: "template_catalog \<Rightarrow> template_record \<Rightarrow> bool" where
  "template_ok T r \<longleftrightarrow> T (tr_template_id r, tr_version r) = Some (tr_template r) \<and> validate_template (tr_template r) = Inr () \<and>
     wt_template_id (tr_template r) = tr_template_id r \<and> wt_version (tr_template r) = tr_version r"

definition follows :: "workflow_template \<Rightarrow> instance_data \<Rightarrow> bool" where
  "follows t d \<longleftrightarrow> validate_template t = Inr () \<and> wt_template_id t = in_template_id d \<and> wt_version t = in_template_version d \<and>
     (\<exists>st. start_state t = Some st \<and> path t (sd_name st) (in_history d) (in_state d)) \<and>
     (in_status d = InstCompleted \<longrightarrow> is_final t (in_state d))"

definition instance_ok :: "template_catalog \<Rightarrow> instance_record \<Rightarrow> bool" where
  "instance_ok T r \<longleftrightarrow> (\<exists>t. T (in_template_id (ir_data r), in_template_version (ir_data r)) = Some t \<and> follows t (ir_data r))"

definition service_inv :: "template_catalog \<Rightarrow> workflow \<Rightarrow> bool" where
  "service_inv T s \<longleftrightarrow> hm_wf (wf_templates s) \<and> hm_wf (wf_instances s) \<and>
     (\<forall>k r. hm_get (wf_templates s) k = Some r \<longrightarrow> tr_id r = k \<and> template_ok T r) \<and>
     (\<forall>k r. hm_get (wf_instances s) k = Some r \<longrightarrow> ir_id r = k \<and> instance_ok T r)"

lemma triple_pure: "(A \<Longrightarrow> triple P m Q R) \<Longrightarrow> triple (\<lambda>s. P s \<and> A) m Q R"
  by (auto simp: triple_def)

lemma tr_find_mem: "tr_find tid v s = Some r \<Longrightarrow> r \<in> set (hm_values (wf_templates s)) \<and> tr_template_id r = tid \<and> (v = None \<or> v = Some (tr_version r))"
proof (cases v)
  case None
  assume "tr_find tid v s = Some r"
  then obtain rs where "rev (sort_key tr_version (rev (filter (\<lambda>r. tr_template_id r = tid) (hm_values (wf_templates s))))) = r # rs"
    using None by (auto simp: tr_find_def Let_def split: list.splits)
  then have "r \<in> set (filter (\<lambda>r. tr_template_id r = tid) (hm_values (wf_templates s)))"
    by (metis list.set_intros(1) set_rev set_sort)
  then show ?thesis using None by simp
qed (auto simp: tr_find_def Let_def dest!: find_SomeD)

lemma tr_find_ok: "service_inv T s \<Longrightarrow> tr_find tid v s = Some r \<Longrightarrow> template_ok T r"
proof -
  assume inv: "service_inv T s" and f: "tr_find tid v s = Some r"
  obtain k where "(k, r) \<in> set (wf_templates s)" using tr_find_mem [OF f] by auto
  then have "hm_get (wf_templates s) k = Some r" using inv by (simp add: service_inv_def hm_get_iff_mem)
  then show "template_ok T r" using inv unfolding service_inv_def by blast
qed

lemma ir_find_get: "service_inv T s \<Longrightarrow> ir_find i s = Some r \<Longrightarrow> hm_get (wf_instances s) (ir_id r) = Some r \<and> instance_ok T r \<and> in_instance_id (ir_data r) = i"
proof -
  assume inv: "service_inv T s" and f: "ir_find i s = Some r"
  have "r \<in> set (hm_values (wf_instances s))" "in_instance_id (ir_data r) = i"
    using find_SomeD [OF f [unfolded ir_find_def]] by simp_all
  then obtain k where "(k, r) \<in> set (wf_instances s)" by auto
  then have "hm_get (wf_instances s) k = Some r" using inv by (simp add: service_inv_def hm_get_iff_mem)
  moreover have "ir_id r = k \<and> instance_ok T r" using inv calculation unfolding service_inv_def by blast
  ultimately show ?thesis using \<open>in_instance_id (ir_data r) = i\<close> by blast
qed

lemma service_inv_put_template:
  "service_inv T s \<Longrightarrow> template_ok T r \<Longrightarrow> service_inv T (s\<lparr>wf_templates := hm_insert (tr_id r) r (wf_templates s)\<rparr>)"
  by (auto simp: service_inv_def)

lemma service_inv_put_instance:
  "service_inv T s \<Longrightarrow> instance_ok T r \<Longrightarrow> service_inv T (s\<lparr>wf_instances := hm_insert (ir_id r) r (wf_instances s)\<rparr>)"
  by (auto simp: service_inv_def)

lemma keeps_tr_save: "template_ok T r \<Longrightarrow> keeps (service_inv T) (tr_save r)"
  by (simp add: keeps_iff tr_save_def service_inv_put_template)

lemma keeps_tr_update: "template_ok T r \<Longrightarrow> keeps (service_inv T) (tr_update r)"
  by (simp add: keeps_iff tr_update_def service_inv_put_template)

lemma keeps_ir_save: "instance_ok T r \<Longrightarrow> keeps (service_inv T) (ir_save r)"
  by (simp add: keeps_iff ir_save_def service_inv_put_instance)

lemma keeps_ir_update: "instance_ok T r \<Longrightarrow> keeps (service_inv T) (ir_update r)"
  by (simp add: keeps_iff ir_update_def service_inv_put_instance)

lemma keeps_emit:
  "keeps (service_inv T) (emit_state_changed r p e)" "keeps (service_inv T) (emit_status_changed r st)" "keeps (service_inv T) (emit_completed r)"
  by (auto simp: keeps_iff emit_state_changed_def emit_status_changed_def emit_completed_def wf_emit_def Let_def service_inv_def)

lemma triple_require:
  "triple (service_inv T) (require_instance i) (\<lambda>r s. service_inv T s \<and> instance_ok T r) (service_inv T)"
  by (auto simp: triple_def require_instance_def ok_or_def dest: ir_find_get split: option.splits)

lemma triple_find_template:
  "triple (service_inv T) (read (tr_find tid v)) (\<lambda>found s. service_inv T s \<and> (\<forall>r. found = Some r \<longrightarrow> template_ok T r \<and> tr_template_id r = tid \<and> (v = None \<or> v = Some (tr_version r)))) (service_inv T)"
  by (auto simp: triple_def dest: tr_find_ok tr_find_mem)

lemma advanced_data_fields [simp]:
  "in_state (advanced_data t ts opts r res d) = td_to r"
  "in_template_id (advanced_data t ts opts r res d) = in_template_id d"
  "in_template_version (advanced_data t ts opts r res d) = in_template_version d"
  "in_instance_id (advanced_data t ts opts r res d) = in_instance_id d"
  "in_connection_id (advanced_data t ts opts r res d) = in_connection_id d"
  "in_status (advanced_data t ts opts r res d) = (if is_final t (td_to r) then InstCompleted else in_status d)"
  "in_history (advanced_data t ts opts r res d) = in_history d @ [\<lparr>hi_ts = ts, hi_event = ao_event opts, hi_from = in_state d, hi_to = td_to r,
     hi_action_key = td_action r, hi_msg_id = ar_message_id res\<rparr>]"
  "in_idempotency_keys (advanced_data t ts opts r res d) =
     (case ao_idempotency_key opts of None \<Rightarrow> in_idempotency_keys d | Some k \<Rightarrow> push_key k (in_idempotency_keys d))"
  by (simp_all add: advanced_data_def Let_def split: option.splits)

lemma enabled_transition_in:
  "enabled_transition we t d e = Some r \<Longrightarrow> r \<in> set (wt_transitions t) \<and> td_from r = in_state d \<and> td_on r = e"
  unfolding enabled_transition_def by (drule find_SomeD) (simp add: transitions_from_def)

lemma follows_advanced:
  assumes "follows t d" "enabled_transition we t d (ao_event opts) = Some r"
    "in_status d \<noteq> InstCompleted"
  shows "follows t (advanced_data t ts opts r res d)"
proof -
  have "declares t \<lparr>hi_ts = ts, hi_event = ao_event opts, hi_from = in_state d, hi_to = td_to r,
     hi_action_key = td_action r, hi_msg_id = ar_message_id res\<rparr>"
    using enabled_transition_in [OF assms(2)] by (auto simp: declares_def)
  then show ?thesis using assms(1,3) by (auto simp: follows_def path_snoc)
qed

lemma keeps_advance_write:
  assumes "T (in_template_id (ir_data record), in_template_version (ir_data record)) = Some t" "follows t (ir_data record)"
    "enabled_transition we t (ir_data record) (ao_event opts) = Some r" "in_status (ir_data record) \<noteq> InstCompleted"
  shows "keeps (service_inv T) (wf_advance_write we nows opts record t r res)"
proof -
  have ok: "instance_ok T (record\<lparr>ir_data := advanced_data t ts opts r res (ir_data record), ir_updated_at := u\<rparr>)" for ts u
    using follows_advanced [OF assms(2-4)] assms(1) by (simp add: instance_ok_def)
  show ?thesis unfolding wf_advance_write_def Let_def
    by (intro keeps_seq keeps_ir_update ok keeps_emit keeps_if keeps_basic)
qed


lemma keeps_advance: "keeps (service_inv T) (wf_advance_inner we nows lenient opts)"
  unfolding wf_advance_inner_def Let_def
proof (rule triple_seq [OF triple_require], rule triple_pure, rule triple_result_seq)
  fix x u assume rec: "instance_ok T x" "advance_allowed (in_status (ir_data x)) = Inr u"
  let ?d = "ir_data x"
  obtain t where t: "T (in_template_id ?d, in_template_version ?d) = Some t" "follows t ?d" using rec(1) by (auto simp: instance_ok_def)
  have act: "in_status ?d \<noteq> InstCompleted" using rec(2) by (auto simp: advance_allowed_def)
  let ?Q = "\<lambda>found s. service_inv T s \<and> (\<forall>r. found = Some r \<longrightarrow> tr_template r = t)"
  have find: "triple (service_inv T) (read (tr_find (in_template_id ?d) (Some (in_template_version ?d)))) ?Q (service_inv T)"
    by (rule triple_conseq [OF triple_find_template [of T]]) (use t(1) in \<open>auto simp: template_ok_def\<close>)
  show "keeps (service_inv T)
    (if case ao_idempotency_key opts of None \<Rightarrow> False | Some key \<Rightarrow> key \<in> set (in_idempotency_keys ?d) then ok x
     else seq (read (tr_find (in_template_id ?d) (Some (in_template_version ?d)))) (\<lambda>found.
          seq (result (ok_or (TemplateNotFound (in_template_id ?d)) found)) (\<lambda>template_record.
          seq (result (ok_or (NoEnabledTransition (in_state ?d) (ao_event opts)) (enabled_transition we (tr_template template_record) ?d (ao_event opts)))) (\<lambda>r.
          seq (read wf_registry) (\<lambda>rg.
          seq (result (run_action rg lenient (tr_template template_record) ?d (td_action r) (ao_input opts))) (\<lambda>res.
          wf_advance_write we nows opts x (tr_template template_record) r res))))))"
    by (intro keeps_if keeps_basic triple_seq [OF find] triple_pure triple_result_seq triple_read_seq)
       (insert t act, auto intro!: keeps_advance_write)
qed

lemma keeps_publish:
  assumes "T (wt_template_id t, wt_version t) = Some t"
  shows "keeps (service_inv T) (publish_template we uuid now t)"
  unfolding publish_template_def Let_def
proof (rule triple_result_seq)
  fix u assume v: "validate_template t = Inr u"
  have new: "template_ok T (template_record_new we uuid now t)" using assms v by (simp add: template_ok_def template_record_new_def)
  have old: "template_ok T (x\<lparr>tr_template := t, tr_hash := h, tr_title := i, tr_updated_at := u'\<rparr>)"
    if "tr_template_id x = wt_template_id t" "tr_version x = wt_version t" for x h i u'
    using assms v that by (simp add: template_ok_def)
  show "keeps (service_inv T) (seq (read (tr_find (wt_template_id t) (Some (wt_version t)))) (\<lambda>found.
    case found of
      None \<Rightarrow> seq (tr_save (template_record_new we uuid now t)) (\<lambda>_. ok (template_record_new we uuid now t))
    | Some existing \<Rightarrow> seq (tr_update (existing\<lparr>tr_template := t, tr_hash := we_hash we t, tr_title := wt_title t, tr_updated_at := now\<rparr>))
        (\<lambda>_. ok (existing\<lparr>tr_template := t, tr_hash := we_hash we t, tr_title := wt_title t, tr_updated_at := now\<rparr>))))"
    by (rule triple_seq [OF triple_find_template], rule triple_pure)
       (auto split: option.split intro!: keeps_seq keeps_tr_save keeps_tr_update keeps_basic new old)
qed simp

lemma service_inv_delete: "service_inv T s \<Longrightarrow> service_inv T (tr_delete rid s)"
  by (auto simp: service_inv_def tr_delete_def)

lemma keeps_delete_template: "keeps (service_inv T) (delete_template tid)"
  by (auto simp: keeps_iff delete_template_def Let_def intro!: fold_keeps service_inv_delete)

lemma keeps_policy: "keeps P (check_instance_policy t c)"
  by (simp add: keeps_iff check_instance_policy_def)

lemma follows_start: "validate_template t = Inr () \<Longrightarrow> start_state t = Some st \<Longrightarrow> follows t (start_data t st i opts)"
  by (simp add: follows_def start_data_def)

lemma instance_ok_start:
  assumes "template_ok T tr" "start_state (tr_template tr) = Some st"
  shows "instance_ok T \<lparr>ir_id = k, ir_data = start_data (tr_template tr) st i opts, ir_role = role, ir_created_at = c, ir_updated_at = u\<rparr>"
  using assms follows_start [of "tr_template tr" st i opts]
  by (auto simp: template_ok_def instance_ok_def) (simp add: start_data_def)

lemma keeps_start: "keeps (service_inv T) (wf_start uuids now opts)"
proof -
  have new: "keeps (service_inv T) (wf_start_new uuids now opts)"
    unfolding wf_start_new_def Let_def
    by (rule triple_seq [OF triple_find_template], rule triple_pure)
       (rule triple_result_seq, rule keeps_seq [OF keeps_policy], rule triple_result_seq,
        auto intro!: keeps_seq keeps_ir_save keeps_emit instance_ok_start)
  show ?thesis unfolding wf_start_def
    by (rule triple_read_seq) (simp add: new split: option.split)
qed

lemma keeps_set_status:
  assumes "st \<noteq> InstCompleted"
  shows "keeps (service_inv T) (wf_set_status st now i)"
  unfolding wf_set_status_def Let_def
  by (rule triple_seq [OF triple_require], rule triple_pure)
     (use assms in \<open>auto intro!: keeps_seq keeps_ir_update keeps_emit simp: instance_ok_def follows_def\<close>)

lemma keeps_control:
  "keeps (service_inv T) (wf_pause now i)" "keeps (service_inv T) (wf_resume now i)" "keeps (service_inv T) (wf_cancel now i)"
  by (simp_all add: wf_pause_def wf_resume_def wf_cancel_def keeps_set_status)

lemma keeps_update_context: "keeps (service_inv T) (wf_update_context now i p)"
  unfolding wf_update_context_def Let_def
  by (rule triple_seq [OF triple_require], rule triple_pure) (auto intro!: keeps_seq keeps_ir_update simp: instance_ok_def follows_def)

lemma keeps_append_artifacts: "keeps (service_inv T) (wf_append_artifacts now i p)"
  unfolding wf_append_artifacts_def Let_def
  by (rule triple_seq [OF triple_require], rule triple_pure) (auto intro!: keeps_seq keeps_ir_update simp: instance_ok_def follows_def)

lemma keeps_complete: "keeps (service_inv T) (wf_complete i)"
  unfolding wf_complete_def Let_def
  by (rule triple_seq [OF triple_require], rule triple_pure) (intro triple_read_seq keeps_seq keeps_basic, simp split: option.split)

section \<open>Runs of the service\<close>

datatype service_op =
    Publish string timestamp workflow_template
  | DeleteTemplate string
  | StartInstance "nat \<Rightarrow> string" timestamp start_options
  | AdvanceInstance "nat \<Rightarrow> timestamp" bool advance_options
  | PauseInstance timestamp string
  | ResumeInstance timestamp string
  | CancelInstance timestamp string
  | CompleteInstance string
  | UpdateContext timestamp string json
  | AppendArtifacts timestamp string json

fun service_step :: "wf_env \<Rightarrow> service_op \<Rightarrow> workflow \<Rightarrow> workflow" where
  "service_step we (Publish uuid now t) s = fst (publish_template we uuid now t s)"
| "service_step we (DeleteTemplate k) s = fst (delete_template k s)"
| "service_step we (StartInstance uuids now opts) s = fst (wf_start uuids now opts s)"
| "service_step we (AdvanceInstance nows lenient opts) s = fst ((if lenient then wf_advance_mirror we nows opts else wf_advance we nows opts) s)"
| "service_step we (PauseInstance now k) s = fst (wf_pause now k s)"
| "service_step we (ResumeInstance now k) s = fst (wf_resume now k s)"
| "service_step we (CancelInstance now k) s = fst (wf_cancel now k s)"
| "service_step we (CompleteInstance k) s = fst (wf_complete k s)"
| "service_step we (UpdateContext now k p) s = fst (wf_update_context now k p s)"
| "service_step we (AppendArtifacts now k p) s = fst (wf_append_artifacts now k p s)"

definition service_run :: "wf_env \<Rightarrow> service_op list \<Rightarrow> workflow \<Rightarrow> workflow" where
  "service_run we ops s = fold (service_step we) ops s"

fun published :: "service_op list \<Rightarrow> workflow_template list" where
  "published [] = []"
| "published (Publish uuid now t # ops) = t # published ops"
| "published (_ # ops) = published ops"

lemma published_in: "Publish uuid now t \<in> set ops \<Longrightarrow> t \<in> set (published ops)"
  by (induction ops rule: published.induct) auto

lemma service_inv_step:
  assumes "service_inv T s" "\<And>uuid now t. op = Publish uuid now t \<Longrightarrow> T (wt_template_id t, wt_version t) = Some t"
  shows "service_inv T (service_step we op s)"
  using assms(1) assms(2)
  by (cases op) (auto simp: wf_advance_def wf_advance_mirror_def
    intro!: keeps_fst [OF keeps_publish] keeps_fst [OF keeps_delete_template] keeps_fst [OF keeps_start] keeps_fst [OF keeps_advance]
      keeps_fst [OF keeps_control(1)] keeps_fst [OF keeps_control(2)] keeps_fst [OF keeps_control(3)] keeps_fst [OF keeps_complete]
      keeps_fst [OF keeps_update_context] keeps_fst [OF keeps_append_artifacts])

lemma service_inv_run:
  assumes "service_inv T s" "\<And>t. t \<in> set (published ops) \<Longrightarrow> T (wt_template_id t, wt_version t) = Some t"
  shows "service_inv T (service_run we ops s)"
  unfolding service_run_def
proof (rule fold_invariant [where P = "service_inv T" and Q = "\<lambda>op. op \<in> set ops"])
  fix op s' assume "op \<in> set ops" "service_inv T s'"
  then show "service_inv T (service_step we op s')" using assms(2) published_in by (blast intro: service_inv_step)
qed (auto intro: assms(1))

lemma service_inv_new: "service_inv T (wf_new rg)"
  by (simp add: service_inv_def wf_new_def)

text \<open>The catalogue of what was published: one template per id and version.\<close>

definition catalog_of :: "workflow_template list \<Rightarrow> template_catalog" where
  "catalog_of ts k = find (\<lambda>t. (wt_template_id t, wt_version t) = k) ts"

lemma catalog_of_published:
  assumes "\<And>t t'. t \<in> set ts \<Longrightarrow> t' \<in> set ts \<Longrightarrow> wt_template_id t = wt_template_id t' \<Longrightarrow> wt_version t = wt_version t' \<Longrightarrow> t = t'"
    "t \<in> set ts"
  shows "catalog_of ts (wt_template_id t, wt_version t) = Some t"
proof -
  obtain t' where t': "catalog_of ts (wt_template_id t, wt_version t) = Some t'"
    using assms(2) unfolding catalog_of_def by (metis (mono_tags, lifting) find_None_iff not_None_eq)
  have "t' \<in> set ts" "wt_template_id t' = wt_template_id t" "wt_version t' = wt_version t"
    using find_SomeD [OF t' [unfolded catalog_of_def]] by auto
  then show ?thesis using assms t' by metis
qed

text \<open>
  C7. Every workflow instance follows its template: if no version of a template is ever published
  with two different contents, then after any sequence of service calls each stored instance
  belongs to a published, valid template; its state is one of the template's states; its history
  is an unbroken chain of declared transitions from the start state to its state; and it is
  completed only in a final state.
\<close>

theorem instance_follows_template:
  assumes once: "\<And>t t'. t \<in> set (published ops) \<Longrightarrow> t' \<in> set (published ops) \<Longrightarrow>
      wt_template_id t = wt_template_id t' \<Longrightarrow> wt_version t = wt_version t' \<Longrightarrow> t = t'"
    and r: "r \<in> set (hm_values (wf_instances (service_run we ops (wf_new rg))))"
  shows "\<exists>t st. t \<in> set (published ops) \<and> validate_template t = Inr () \<and>
    wt_template_id t = in_template_id (ir_data r) \<and> wt_version t = in_template_version (ir_data r) \<and>
    in_state (ir_data r) \<in> sd_name ` set (wt_states t) \<and>
    start_state t = Some st \<and> path t (sd_name st) (in_history (ir_data r)) (in_state (ir_data r)) \<and>
    (in_status (ir_data r) = InstCompleted \<longrightarrow> is_final t (in_state (ir_data r)))"
proof -
  let ?T = "catalog_of (published ops)"
  have inv: "service_inv ?T (service_run we ops (wf_new rg))"
    by (rule service_inv_run [OF service_inv_new]) (rule catalog_of_published [OF once])
  obtain k where "(k, r) \<in> set (wf_instances (service_run we ops (wf_new rg)))" using r by auto
  then have "hm_get (wf_instances (service_run we ops (wf_new rg))) k = Some r" using inv by (simp add: service_inv_def hm_get_iff_mem)
  then have "instance_ok ?T r" using inv unfolding service_inv_def by blast
  then obtain t where t: "?T (in_template_id (ir_data r), in_template_version (ir_data r)) = Some t" "follows t (ir_data r)"
    by (auto simp: instance_ok_def)
  have "t \<in> set (published ops)" using find_SomeD [OF t(1) [unfolded catalog_of_def]] by simp
  moreover obtain st where st: "start_state t = Some st" "path t (sd_name st) (in_history (ir_data r)) (in_state (ir_data r))"
    using t(2) by (auto simp: follows_def)
  moreover have "sd_name st \<in> sd_name ` set (wt_states t)"
    using find_SomeD [OF st(1) [unfolded start_state_def]] by simp
  ultimately show ?thesis using t(2) path_state [of t "sd_name st"] unfolding follows_def by blast
qed

section \<open>A demonstration\<close>

definition demo_wf_env :: wf_env where
  "demo_wf_env = \<lparr>we_jmespath = (\<lambda>e env. JmFound (JmBool (json_get env ''context'' = Some (JObject [(''ok'', JBool True)])))),
     we_hash = (\<lambda>_. ''h''), we_rfc3339 = (\<lambda>_. ''t'')\<rparr>"

definition demo_transition :: "string \<Rightarrow> string \<Rightarrow> string \<Rightarrow> string option \<Rightarrow> transition_def" where
  "demo_transition from on to g = \<lparr>td_from = from, td_to = to, td_on = on, td_guard = g, td_action = None\<rparr>"

definition demo_template :: workflow_template where
  "demo_template = \<lparr>wt_template_id = ''review'', wt_version = ''1'', wt_title = ''Review'',
     wt_instance_policy = \<lparr>ip_mode = MultiPerConnection, ip_multiplicity_key = None\<rparr>, wt_sections = [],
     wt_states = [\<lparr>sd_name = ''draft'', sd_state_type = StartState, sd_section = None\<rparr>,
       \<lparr>sd_name = ''review'', sd_state_type = NormalState, sd_section = None\<rparr>,
       \<lparr>sd_name = ''done'', sd_state_type = FinalState, sd_section = None\<rparr>],
     wt_transitions = [demo_transition ''draft'' ''submit'' ''review'' None, demo_transition ''review'' ''rework'' ''draft'' None,
       demo_transition ''review'' ''approve'' ''done'' (Some ''context.ok'')],
     wt_catalog = \<lparr>ca_credential_profiles = [], ca_proof_profiles = [], ca_defaults = None\<rparr>, wt_actions = [], wt_display_hints = None\<rparr>"

definition demo_start_options :: start_options where
  "demo_start_options = \<lparr>so_template_id = ''review'', so_template_version = None, so_instance_id = Some ''i1'', so_connection_id = Some ''c1'',
     so_participants = None, so_context = None, so_role = Coordinator\<rparr>"

definition demo_advance :: "string \<Rightarrow> string option \<Rightarrow> advance_options" where
  "demo_advance event key = \<lparr>ao_instance_id = ''i1'', ao_event = event, ao_idempotency_key = key, ao_input = None\<rparr>"

definition demo_ops :: "service_op list" where
  "demo_ops = [Publish ''t1'' 0 demo_template, StartInstance (\<lambda>n. if n = 0 then ''u0'' else ''u1'') 1 demo_start_options,
     AdvanceInstance (\<lambda>_. 2) False (demo_advance ''submit'' None)]"

definition demo_instance :: instance_record where
  "demo_instance = the (ir_find ''i1'' (service_run demo_wf_env demo_ops (wf_new rg_new)))"

theorem instance_follows_template_witness:
  "\<exists>t st. t \<in> set (published demo_ops) \<and> start_state t = Some st \<and> path t (sd_name st) (in_history (ir_data demo_instance)) ''review''"
proof -
  have "demo_instance \<in> set (hm_values (wf_instances (service_run demo_wf_env demo_ops (wf_new rg_new))))"
    "in_state (ir_data demo_instance) = ''review''" "published demo_ops = [demo_template]"
    by code_simp+
  then show ?thesis using instance_follows_template [of demo_ops demo_instance demo_wf_env rg_new] by fastforce
qed

section \<open>Status and advance agree\<close>

text \<open>Instances are stored under their record ids.\<close>

definition keyed :: "workflow \<Rightarrow> bool" where
  "keyed s \<longleftrightarrow> (\<forall>k r. (k, r) \<in> set (wf_instances s) \<longrightarrow> ir_id r = k)"

lemma set_hm_insert: "(k, r) \<in> set (hm_insert k' r' m) \<Longrightarrow> (k = k' \<and> r = r') \<or> (k, r) \<in> set m"
  by (induction m) (auto split: if_splits)

lemma keeps_keyed_basic:
  "keeps keyed (tr_save x)" "keeps keyed (tr_update x)" "keeps keyed (ir_save r)" "keeps keyed (ir_update r)"
  "keeps keyed (emit_state_changed r p e)" "keeps keyed (emit_status_changed r st)" "keeps keyed (emit_completed r)"
  "keeps keyed (require_instance i)" "keeps keyed (check_instance_policy t c)"
  by (auto simp: keeps_iff keyed_def tr_save_def tr_update_def ir_save_def ir_update_def emit_state_changed_def emit_status_changed_def
      emit_completed_def wf_emit_def Let_def require_instance_def check_instance_policy_def dest: set_hm_insert)

lemma keeps_option_case: "keeps P a \<Longrightarrow> (\<And>x. keeps P (b x)) \<Longrightarrow> keeps P (case v of None \<Rightarrow> a | Some x \<Rightarrow> b x)"
  by (cases v) simp_all

lemmas keeps_keyed_rules = keeps_seq keeps_if keeps_option_case keeps_basic keeps_keyed_basic

lemma keeps_keyed_ops:
  "keeps keyed (publish_template we uuid now t)" "keeps keyed (wf_start uuids now opts)" "keeps keyed (wf_advance_inner we nows l ao)"
  "keeps keyed (wf_set_status st now i)" "keeps keyed (wf_complete i)" "keeps keyed (wf_update_context now i p)"
  "keeps keyed (wf_append_artifacts now i p)"
  unfolding publish_template_def wf_start_def wf_start_new_def wf_advance_inner_def wf_advance_write_def wf_set_status_def wf_complete_def
    wf_update_context_def wf_append_artifacts_def Let_def
  by (intro keeps_keyed_rules)+

lemma keyed_run: "keyed (service_run we ops (wf_new rg))"
  unfolding service_run_def
proof (rule fold_keeps)
  fix op s assume s: "keyed s"
  have d: "keyed (fold (\<lambda>r. tr_delete (tr_id r)) hits s)" for hits
    by (rule fold_keeps [where P = keyed]) (use s in \<open>auto simp: keyed_def tr_delete_def\<close>)
  show "keyed (service_step we op s)"
    using s d by (cases op) (auto simp: wf_advance_def wf_advance_mirror_def wf_pause_def wf_resume_def wf_cancel_def delete_template_def Let_def
      intro!: keeps_keyed_ops [THEN keeps_fst])
qed (simp add: keyed_def wf_new_def)

lemma keyed_contains: "keyed s \<Longrightarrow> ir_find i s = Some r \<Longrightarrow> hm_contains (wf_instances s) (ir_id r) \<and> in_instance_id (ir_data r) = i"
proof -
  assume k: "keyed s" and f: "ir_find i s = Some r"
  have "r \<in> set (hm_values (wf_instances s))" "in_instance_id (ir_data r) = i" using find_SomeD [OF f [unfolded ir_find_def]] by simp_all
  then obtain x where "(x, r) \<in> set (wf_instances s)" by auto
  moreover have "x = ir_id r" using k calculation by (auto simp: keyed_def)
  ultimately have "ir_id r \<in> fst ` set (wf_instances s)" by force
  then show ?thesis using \<open>in_instance_id (ir_data r) = i\<close> by (simp add: map_of_eq_None_iff)
qed

lemma allowed_events_fold:
  "set (fold (\<lambda>r evs. if P r \<and> td_on r \<notin> set evs then evs @ [td_on r] else evs) rs evs) = set evs \<union> td_on ` {r \<in> set rs. P r}"
  by (induction rs arbitrary: evs) auto

lemma allowed_events_enabled: "e \<in> set (allowed_events we t d) \<longleftrightarrow> (\<exists>r. enabled_transition we t d e = Some r)"
proof -
  let ?P = "\<lambda>r. td_from r = in_state d \<and> guard_eval (we_jmespath we) (td_guard r) (in_ctx d) (in_participants d) (in_artifacts d)"
  have "allowed_events we t d = fold (\<lambda>r evs. if ?P r \<and> td_on r \<notin> set evs then evs @ [td_on r] else evs) (wt_transitions t) []"
    unfolding allowed_events_def by (rule fold_cong) (auto intro!: ext)
  then have "set (allowed_events we t d) = td_on ` {r \<in> set (wt_transitions t). ?P r}"
    using allowed_events_fold [of ?P "wt_transitions t" "[]"] by simp
  moreover have "enabled_transition we t d e = None \<longleftrightarrow> \<not> (\<exists>r\<in>set (wt_transitions t). ?P r \<and> td_on r = e)"
    unfolding enabled_transition_def find_None_iff transitions_from_def by auto
  ultimately show ?thesis by (cases "enabled_transition we t d e") auto
qed

lemma run_action_lenient: "\<exists>res. run_action rg True t d k input = Inr res"
  by (auto simp: run_action_def split: option.splits sum.splits)

lemma advance_inner_eval:
  assumes "ir_find (ao_instance_id opts) s = Some r" "in_status (ir_data r) \<in> {InstActive, InstError}"
    "tr_find (in_template_id (ir_data r)) (Some (in_template_version (ir_data r))) s = Some tr"
    "\<And>k. ao_idempotency_key opts = Some k \<Longrightarrow> k \<notin> set (in_idempotency_keys (ir_data r))"
  shows "wf_advance_inner we nows lenient opts s =
    (case enabled_transition we (tr_template tr) (ir_data r) (ao_event opts) of
       None \<Rightarrow> (s, Inl (NoEnabledTransition (in_state (ir_data r)) (ao_event opts)))
     | Some x \<Rightarrow> (case run_action (wf_registry s) lenient (tr_template tr) (ir_data r) (td_action x) (ao_input opts) of
                    Inl e \<Rightarrow> (s, Inl e)
                  | Inr res \<Rightarrow> wf_advance_write we nows opts r (tr_template tr) x res s))"
proof -
  have a: "advance_allowed (in_status (ir_data r)) = Inr ()" using assms(2) by (auto simp: advance_allowed_def)
  have k: "(case ao_idempotency_key opts of None \<Rightarrow> False | Some key \<Rightarrow> key \<in> set (in_idempotency_keys (ir_data r))) = False"
    using assms(4) by (cases "ao_idempotency_key opts") auto
  show ?thesis
    by (simp add: wf_advance_inner_def seq_def require_instance_def assms(1,3) a Let_def k ok_or_def split: option.splits sum.splits)
qed

lemma advance_write_ok:
  assumes "hm_contains (wf_instances s) (ir_id r)"
  shows "\<exists>s' r'. wf_advance_write we nows opts r t x res s = (s', Inr r') \<and>
    r' = r\<lparr>ir_data := advanced_data t (we_rfc3339 we (nows 0)) opts x res (ir_data r), ir_updated_at := nows 1\<rparr> \<and>
    wf_instances s' = hm_insert (ir_id r) r' (wf_instances s) \<and> wf_templates s' = wf_templates s"
  using assms
  by (simp add: wf_advance_write_def Let_def seq_def ir_update_def emit_state_changed_def emit_completed_def wf_emit_def)

text \<open>
  C29. Which events of a peer are accepted: an advance received for an instance succeeds exactly when
  the instance is active or in error and its event is among the allowed events that a status
  answer lists at that moment, or its key was used before and nothing is done again.
\<close>

theorem status_offers_accepted_events:
  assumes s: "s = service_run we ops (wf_new rg)"
    and st: "wf_status we (ao_instance_id opts) prof s = (s1, Inr (msg, r))"
  shows "(\<exists>s' r'. wf_advance_mirror we nows opts s = (s', Inr r')) \<longleftrightarrow>
    in_status (ir_data r) \<in> {InstActive, InstError} \<and>
    (ao_event opts \<in> set (sg_allowed_events msg) \<or> (\<exists>k. ao_idempotency_key opts = Some k \<and> k \<in> set (in_idempotency_keys (ir_data r))))"
proof -
  let ?t = "tr_find (in_template_id (ir_data r)) (Some (in_template_version (ir_data r))) s"
  let ?used = "\<exists>k. ao_idempotency_key opts = Some k \<and> k \<in> set (in_idempotency_keys (ir_data r))"
  have find: "ir_find (ao_instance_id opts) s = Some r"
    and evs: "sg_allowed_events msg = (case ?t of None \<Rightarrow> [] | Some tr \<Rightarrow> allowed_events we (tr_template tr) (ir_data r))"
    using st by (auto simp: wf_status_def seq_def require_instance_def ok_or_def Let_def split: option.splits)
  have c: "hm_contains (wf_instances s) (ir_id r)" using keyed_contains [OF _ find] keyed_run s by blast
  consider (off) "in_status (ir_data r) \<notin> {InstActive, InstError}" | (used) "in_status (ir_data r) \<in> {InstActive, InstError}" ?used
    | (gone) "in_status (ir_data r) \<in> {InstActive, InstError}" "\<not> ?used" "?t = None"
    | (new) tr where "in_status (ir_data r) \<in> {InstActive, InstError}" "\<not> ?used" "?t = Some tr" by (cases ?t) blast+
  then show ?thesis
  proof cases
    case off
    then have "\<exists>e. advance_allowed (in_status (ir_data r)) = Inl e" by (cases "in_status (ir_data r)") (auto simp: advance_allowed_def)
    then show ?thesis using off find by (auto simp: wf_advance_mirror_def wf_advance_inner_def seq_def require_instance_def ok_or_def Let_def)
  next
    case used
    then have "advance_allowed (in_status (ir_data r)) = Inr ()" by (auto simp: advance_allowed_def)
    then show ?thesis using used find by (auto simp: wf_advance_mirror_def wf_advance_inner_def seq_def require_instance_def ok_or_def Let_def)
  next
    case gone
    then have "advance_allowed (in_status (ir_data r)) = Inr ()" by (auto simp: advance_allowed_def)
    then show ?thesis using gone find evs
      by (cases "ao_idempotency_key opts") (auto simp: wf_advance_mirror_def wf_advance_inner_def seq_def require_instance_def ok_or_def Let_def)
  next
    case new
    have fresh: "k \<notin> set (in_idempotency_keys (ir_data r))" if "ao_idempotency_key opts = Some k" for k using new(2) that by blast
    note eval = advance_inner_eval [OF find new(1,3) fresh]
    show ?thesis
    proof (cases "enabled_transition we (tr_template tr) (ir_data r) (ao_event opts)")
      case None
      then show ?thesis using new(2) by (simp add: wf_advance_mirror_def eval evs new(3) allowed_events_enabled)
    next
      case (Some x)
      obtain res where res: "run_action (wf_registry s) True (tr_template tr) (ir_data r) (td_action x) (ao_input opts) = Inr res"
        using run_action_lenient by blast
      have "\<exists>s' r'. wf_advance_mirror we nows opts s = (s', Inr r')"
        using advance_write_ok [OF c, of we nows opts "tr_template tr" x res] by (auto simp: wf_advance_mirror_def eval Some res)
      then show ?thesis using new(1) by (simp add: evs new(3) allowed_events_enabled Some)
    qed
  qed
qed

lemma wf_status_state: "fst (wf_status we i p s) = s"
  by (simp add: wf_status_def seq_def require_instance_def Let_def ok_or_def split: option.splits)

definition demo_status :: wf_status_message where
  "demo_status = \<lparr>sg_instance_id = ''i1'', sg_state = ''review'', sg_section = None, sg_allowed_events = [''rework''], sg_action_menu = [],
     sg_artifacts = JObject [], sg_ui = None, sg_ui_profile = None, sg_assets = None\<rparr>"

lemma demo_advance_id: "ao_instance_id (demo_advance e k) = ''i1''"
  by (simp add: demo_advance_def)

theorem status_offers_accepted_events_witness:
  "(\<exists>s' r'. wf_advance_mirror demo_wf_env (\<lambda>_. 3) (demo_advance ''approve'' (Some ''k'')) (service_run demo_wf_env demo_ops (wf_new rg_new)) = (s', Inr r')) \<longleftrightarrow>
   ''approve'' \<in> {''rework''}"
proof -
  let ?s = "service_run demo_wf_env demo_ops (wf_new rg_new)"
  have "snd (wf_status demo_wf_env ''i1'' None ?s) = Inr (demo_status, demo_instance)" by code_simp
  then have st: "wf_status demo_wf_env (ao_instance_id (demo_advance ''approve'' (Some ''k''))) None ?s = (?s, Inr (demo_status, demo_instance))"
    using wf_status_state [of demo_wf_env "''i1''" None ?s] by (metis prod.collapse demo_advance_id)
  have "in_status (ir_data demo_instance) \<in> {InstActive, InstError}" "in_idempotency_keys (ir_data demo_instance) = []"
    "sg_allowed_events demo_status = [''rework'']" by code_simp+
  then show ?thesis using status_offers_accepted_events [OF refl st, of "\<lambda>_. 3"] by (simp add: demo_advance_def)
qed

text \<open>A status answer lists the events of a paused instance too, though none of them is accepted.\<close>

lemma paused_status_lists_events:
  "(let s = service_run demo_wf_env demo_ops (wf_new rg_new); s' = fst (wf_pause 4 ''i1'' s)
    in map_sum (\<lambda>_. ()) (\<lambda>(msg, r). (sg_allowed_events msg, in_status (ir_data r))) (snd (wf_status demo_wf_env ''i1'' None s')) =
         Inr ([''rework''], InstPaused))"
  by code_simp

section \<open>Keyed advances are applied once\<close>

lemma find_value_update:
  assumes "find P (hm_values m) = Some r" "\<And>k x. (k, x) \<in> set m \<Longrightarrow> f x = k" "f r' = f r" "P r'"
  shows "find P (hm_values (hm_insert (f r) r' m)) = Some r'"
  using assms(1,2)
proof (induction m)
  case (Cons y m)
  obtain k v where y: "y = (k, v)" by (cases y)
  have k: "f v = k" using Cons.prems(2) [of k v] y by simp
  show ?case
  proof (cases "P v")
    case True
    then have "v = r" using Cons.prems(1) y by simp
    then show ?thesis using y k assms(4) by simp
  next
    case False
    have f: "find P (hm_values m) = Some r" using Cons.prems(1) y False by simp
    have ih: "find P (hm_values (hm_insert (f r) r' m)) = Some r'" using Cons.IH [OF f] Cons.prems(2) y by simp
    show ?thesis
    proof (cases "k = f r")
      case True
      then show ?thesis using y assms(4) by simp
    next
      case False
      then show ?thesis using y ih \<open>\<not> P v\<close> by simp
    qed
  qed
qed simp

lemma ir_find_updated:
  assumes "keyed s" "ir_find i s = Some r" "ir_id r' = ir_id r" "in_instance_id (ir_data r') = i"
    "wf_instances s' = hm_insert (ir_id r) r' (wf_instances s)"
  shows "ir_find i s' = Some r'"
  using find_value_update [of "\<lambda>r. in_instance_id (ir_data r) = i" "wf_instances s" r ir_id r'] assms
  by (simp add: ir_find_def keyed_def)

definition key_used :: "advance_options \<Rightarrow> instance_data \<Rightarrow> bool" where
  "key_used opts d \<longleftrightarrow> (case ao_idempotency_key opts of None \<Rightarrow> False | Some key \<Rightarrow> key \<in> set (in_idempotency_keys d))"

lemma push_key_mem: "k \<in> set (push_key k keys)"
proof -
  have "k \<in> set (drop n (keys @ [k]))" if "n \<le> length keys" for n using that by simp
  then show ?thesis by (simp add: push_key_def Let_def IDEMPOTENCY_HISTORY_LIMIT_def)
qed

text \<open>What a successful advance leaves behind: the record it returned, with the key among its keys.\<close>

lemma advance_success:
  assumes "keyed s" "wf_advance_inner we nows lenient opts s = (s1, Inr r1)" "ao_idempotency_key opts = Some k"
  shows "ir_find (ao_instance_id opts) s1 = Some r1 \<and> k \<in> set (in_idempotency_keys (ir_data r1)) \<and>
    in_status (ir_data r1) \<in> {InstActive, InstError, InstCompleted}"
proof -
  obtain r where r: "ir_find (ao_instance_id opts) s = Some r" and a: "in_status (ir_data r) \<in> {InstActive, InstError}"
    using assms(2) by (cases "ir_find (ao_instance_id opts) s"; cases "in_status (ir_data (the (ir_find (ao_instance_id opts) s)))")
      (auto simp: wf_advance_inner_def seq_def require_instance_def ok_or_def Let_def advance_allowed_def)
  have al: "advance_allowed (in_status (ir_data r)) = Inr ()" using a by (auto simp: advance_allowed_def)
  show ?thesis
  proof (cases "k \<in> set (in_idempotency_keys (ir_data r))")
    case True
    then have "s1 = s \<and> r1 = r" using assms(2,3) by (simp add: wf_advance_inner_def seq_def require_instance_def r al Let_def)
    then show ?thesis using r a True by auto
  next
    case False
    obtain tr where tr: "tr_find (in_template_id (ir_data r)) (Some (in_template_version (ir_data r))) s = Some tr"
      using assms(2,3) False by (cases "tr_find (in_template_id (ir_data r)) (Some (in_template_version (ir_data r))) s")
        (auto simp: wf_advance_inner_def seq_def require_instance_def r al Let_def)
    have e: "wf_advance_inner we nows lenient opts s = (case enabled_transition we (tr_template tr) (ir_data r) (ao_event opts) of
       None \<Rightarrow> (s, Inl (NoEnabledTransition (in_state (ir_data r)) (ao_event opts)))
     | Some x \<Rightarrow> (case run_action (wf_registry s) lenient (tr_template tr) (ir_data r) (td_action x) (ao_input opts) of
                    Inl e \<Rightarrow> (s, Inl e)
                  | Inr res \<Rightarrow> wf_advance_write we nows opts r (tr_template tr) x res s))"
      by (rule advance_inner_eval [OF r a tr]) (use False assms(3) in auto)
    then obtain x res where w: "wf_advance_write we nows opts r (tr_template tr) x res s = (s1, Inr r1)"
      using assms(2) by (auto split: option.splits sum.splits)
    have c: "hm_contains (wf_instances s) (ir_id r)" "in_instance_id (ir_data r) = ao_instance_id opts"
      using keyed_contains [OF assms(1) r] by simp_all
    have r1: "r1 = r\<lparr>ir_data := advanced_data (tr_template tr) (we_rfc3339 we (nows 0)) opts x res (ir_data r), ir_updated_at := nows 1\<rparr>"
      and s1: "wf_instances s1 = hm_insert (ir_id r) r1 (wf_instances s)"
      using advance_write_ok [OF c(1), of we nows opts "tr_template tr" x res] w by auto
    have "ir_find (ao_instance_id opts) s1 = Some r1"
      by (rule ir_find_updated [OF assms(1) r _ _ s1]) (simp_all add: r1 c(2))
    then show ?thesis using a assms(3) by (auto simp: r1 push_key_mem)
  qed
qed

text \<open>
  C30. A keyed advance takes effect once: after an advance with an idempotency key has succeeded,
  repeating it with that key, strictly or as a mirror and whatever event it names, changes
  nothing. The repeat returns the same record, except when the advance completed the instance:
  the status is checked before the key, and the repeat is then an error.
\<close>

theorem advance_applied_once:
  assumes s: "s = service_run we ops (wf_new rg)"
    and adv: "wf_advance_inner we nows lenient opts s = (s1, Inr r1)" "ao_idempotency_key opts = Some k"
    and again: "ao_instance_id opts' = ao_instance_id opts" "ao_idempotency_key opts' = Some k"
  shows "wf_advance_inner we nows' lenient' opts' s1 =
    (s1, if in_status (ir_data r1) = InstCompleted then Inl (InvalidStatus InstCompleted ''advance'') else Inr r1)"
proof -
  have "keyed s" using keyed_run s by simp
  note a = advance_success [OF this adv]
  then have "advance_allowed (in_status (ir_data r1)) =
      (if in_status (ir_data r1) = InstCompleted then Inl (InvalidStatus InstCompleted ''advance'') else Inr ())"
    by (auto simp: advance_allowed_def)
  then show ?thesis using a again by (simp add: wf_advance_inner_def seq_def require_instance_def Let_def)
qed

theorem advance_applied_once_witness:
  "\<exists>s1 r1. in_state (ir_data r1) = ''draft'' \<and>
     wf_advance_inner demo_wf_env (\<lambda>_. 4) True (demo_advance ''submit'' (Some ''k'')) s1 = (s1, Inr r1)"
proof -
  let ?s = "service_run demo_wf_env demo_ops (wf_new rg_new)"
  let ?r = "wf_advance_inner demo_wf_env (\<lambda>_. 3) False (demo_advance ''rework'' (Some ''k'')) ?s"
  obtain s1 x where r: "?r = (s1, x)" by (cases ?r)
  have "(case snd ?r of Inl _ \<Rightarrow> False | Inr r1 \<Rightarrow> in_state (ir_data r1) = ''draft'' \<and> in_status (ir_data r1) = InstActive)" by code_simp
  then obtain r1 where "?r = (s1, Inr r1)" "in_state (ir_data r1) = ''draft''" "in_status (ir_data r1) = InstActive"
    using r by (auto split: sum.splits)
  then show ?thesis
    using advance_applied_once [of ?s demo_wf_env demo_ops rg_new "\<lambda>_. 3" False "demo_advance ''rework'' (Some ''k'')" s1 r1 "''k''"
        "demo_advance ''submit'' (Some ''k'')" "\<lambda>_. 4" True]
    by (auto simp: demo_advance_def)
qed

text \<open>The keys are a sliding window: the last hundred, so a key is remembered for the next 99 keyed advances.\<close>

lemma push_keys_window:
  assumes "length keys \<le> 100"
  shows "fold push_key ks keys = drop (length (keys @ ks) - 100) (keys @ ks)"
  using assms
proof (induction ks arbitrary: keys)
  case (Cons k ks)
  have p: "push_key k keys = drop (length (keys @ [k]) - 100) (keys @ [k])"
    by (simp add: push_key_def Let_def IDEMPOTENCY_HISTORY_LIMIT_def)
  have "length (push_key k keys) \<le> 100" by (simp add: p)
  then have "fold push_key (k # ks) keys = drop (length (push_key k keys @ ks) - 100) (push_key k keys @ ks)" using Cons.IH by simp
  also have "push_key k keys @ ks = drop (length (keys @ [k]) - 100) (keys @ k # ks)" by (simp add: p)
  also have "drop (length (drop (length (keys @ [k]) - 100) (keys @ k # ks)) - 100) (drop (length (keys @ [k]) - 100) (keys @ k # ks))
      = drop (length (keys @ k # ks) - 100) (keys @ k # ks)"
    by (simp only: drop_drop length_drop) (rule arg_cong [where f = "\<lambda>n. drop n (keys @ k # ks)"], simp)
  finally show ?case .
qed simp

lemma key_remembered:
  assumes "length keys \<le> 100" "length ks < 100"
  shows "k \<in> set (fold push_key ks (push_key k keys)) \<and> length (fold push_key ks (push_key k keys)) \<le> 100"
proof -
  have "fold push_key ks (push_key k keys) = fold push_key (k # ks) keys" by simp
  also have "\<dots> = drop (length (keys @ k # ks) - 100) (keys @ k # ks)" by (rule push_keys_window [OF assms(1)])
  finally show ?thesis using assms by simp
qed

section \<open>Gaps\<close>

text \<open>
  Resuming does not look at the status: it makes any instance active again, a cancelled or
  completed one too.
\<close>

lemma set_status_effect:
  assumes "keyed s" "ir_find i s = Some r"
  shows "\<exists>s' r'. wf_set_status st now i s = (s', Inr r') \<and> r' = r\<lparr>ir_data := (ir_data r)\<lparr>in_status := st\<rparr>, ir_updated_at := now\<rparr> \<and>
    ir_find i s' = Some r' \<and> wf_templates s' = wf_templates s"
proof -
  let ?r = "r\<lparr>ir_data := (ir_data r)\<lparr>in_status := st\<rparr>, ir_updated_at := now\<rparr>"
  have c: "hm_contains (wf_instances s) (ir_id r)" "in_instance_id (ir_data r) = i" using keyed_contains [OF assms] by simp_all
  obtain s' where s': "wf_set_status st now i s = (s', Inr ?r)" "wf_instances s' = hm_insert (ir_id r) ?r (wf_instances s)" "wf_templates s' = wf_templates s"
    using c by (auto simp: wf_set_status_def Let_def seq_def require_instance_def assms(2) ir_update_def emit_status_changed_def wf_emit_def)
  moreover have "ir_find i s' = Some ?r" by (rule ir_find_updated [OF assms _ _ s'(2)]) (simp_all add: c(2))
  ultimately show ?thesis by blast
qed

lemma resume_reactivates:
  assumes "s = service_run we ops (wf_new rg)" "ir_find i s = Some r"
  shows "\<exists>s' r'. wf_resume now i s = (s', Inr r') \<and> in_status (ir_data r') = InstActive \<and> ir_find i s' = Some r'"
  using set_status_effect [of s i r InstActive now] assms keyed_run by (auto simp: wf_resume_def)

text \<open>
  Pausing, resuming and cancelling do not take the lock that advances hold. A cancellation between
  an advance's read and its write is lost: the write puts back the status that was read.
\<close>

lemma cancel_lost_in_advance:
  assumes "s = service_run we ops (wf_new rg)" "ir_find i s = Some r" "in_status (ir_data r) = InstActive" "\<not> is_final t (td_to x)"
    and c: "wf_cancel now i s = (s1, Inr r1)"
  shows "in_status (ir_data r1) = InstCanceled \<and>
    (\<exists>s2 r2. wf_advance_write we nows opts r t x res s1 = (s2, Inr r2) \<and> ir_find i s2 = Some r2 \<and> in_status (ir_data r2) = InstActive)"
proof -
  have k: "keyed s" using assms(1) keyed_run by simp
  have r1: "r1 = r\<lparr>ir_data := (ir_data r)\<lparr>in_status := InstCanceled\<rparr>, ir_updated_at := now\<rparr>" "ir_find i s1 = Some r1"
    using set_status_effect [OF k assms(2), of InstCanceled now] c by (auto simp: wf_cancel_def)
  have k1: "keyed s1" using k c keeps_fst [OF keeps_keyed_ops(4)] by (metis wf_cancel_def fst_conv)
  have h: "hm_contains (wf_instances s1) (ir_id r)" "in_instance_id (ir_data r) = i"
    using keyed_contains [OF k1 r1(2)] keyed_contains [OF k assms(2)] by (simp_all add: r1(1))
  obtain s2 r2 where w: "wf_advance_write we nows opts r t x res s1 = (s2, Inr r2)"
    "r2 = r\<lparr>ir_data := advanced_data t (we_rfc3339 we (nows 0)) opts x res (ir_data r), ir_updated_at := nows 1\<rparr>"
    "wf_instances s2 = hm_insert (ir_id r) r2 (wf_instances s1)"
    using advance_write_ok [OF h(1), of we nows opts t x res] by auto
  have "ir_find i s2 = Some r2"
    by (rule ir_find_updated [OF k1 r1(2)]) (use w h(2) in \<open>simp_all add: r1(1)\<close>)
  then show ?thesis using w(1,2) r1(1) assms(3,4) by simp
qed

text \<open>
  A command for an existing instance is executed whatever connection it came in on: the worker's
  handler reads the command's connection only to start instances, and no operation raises
  \<open>ConnectionMismatch\<close>.
\<close>

lemma commands_ignore_connection:
  assumes "cr_cmd c \<noteq> CmdStart"
  shows "job_handler we cd uuids nows (c\<lparr>cr_connection_id := conn\<rparr>) = job_handler we cd uuids nows c"
  using assms by (simp add: job_handler_def split: command_type.splits)

text \<open>
  While a command waits or runs, a second one of the same kind for the same instance is dropped,
  also when it carries a different event or key, and its sender is answered as if it had been queued.
\<close>

lemma second_advance_dropped:
  assumes "wd_advance cd (msg_body (in_message i)) = Inr msg"
    and "cmd_find_live CmdAdvance (am_instance_id msg) (cq_repository (wm_queue m)) = Some c"
  shows "advance_handler cd uuid now i m = (m, Inr None)"
  using assms by (simp add: advance_handler_def parse_message_def seq_def enqueue_command_def cq_enqueue_def)

text \<open>
  The automatic advance is not local, as its description says: what it advances it also sends to
  the peer, and it schedules two more deliveries.
\<close>

lemma auto_advance_notifies_peer:
  assumes "wf_advance we nows (auto_options event (in_instance_id (ir_data inst))) (wm_service m) = (s', Inr r)"
    "in_connection_id (ir_data r) = Some conn" "wm_sent m = Some sent"
  defines "body \<equiv> advance_value (advance_message_of (auto_options event (in_instance_id (ir_data inst))))"
  shows "wm_sent (wm_auto_advance we nows event inst m) = Some (sent @ [(conn, WF_ADVANCE, body)]) \<and>
    wm_resends (wm_auto_advance we nows event inst m) = wm_resends m @ [(2, conn, body)]"
  using assms(1-3)
  by (simp add: body_def wm_auto_advance_def wm_advance_def seq_def on_service_def Let_def wm_notify_peer_def AUTO_ADVANCE_RESEND_DELAYS_MS_def)

text \<open>
  The key of an automatic advance is fixed per event and instance: a workflow that comes back to a
  state is not advanced automatically on the same event again, though the event is enabled.
\<close>

lemma auto_advance_once_per_event:
  assumes "ir_find i s = Some r" "in_status (ir_data r) = InstActive" "''auto:'' @ event @ '':'' @ i \<in> set (in_idempotency_keys (ir_data r))"
  shows "wf_advance we nows (auto_options event i) s = (s, Inr r)"
  using assms by (simp add: wf_advance_def wf_advance_inner_def seq_def require_instance_def auto_options_def Let_def advance_allowed_def)

text \<open>
  Publishing a version again replaces it under the instances that run on it: an instance can be
  left in a state its template does not have.
\<close>

definition demo_template_changed :: workflow_template where
  "demo_template_changed = demo_template\<lparr>wt_states := [hd (wt_states demo_template)], wt_transitions := []\<rparr>"

lemma republish_strands_instance:
  "(let s = service_run demo_wf_env (demo_ops @ [Publish ''t2'' 5 demo_template_changed]) (wf_new rg_new)
    in case ir_find ''i1'' s of
         None \<Rightarrow> False
       | Some r \<Rightarrow> (case tr_find (in_template_id (ir_data r)) (Some (in_template_version (ir_data r))) s of
                       None \<Rightarrow> False
                     | Some tr \<Rightarrow> find_state (tr_template tr) (in_state (ir_data r)) = None))"
  by code_simp

text \<open>Without a version, version ''9'' is later than version ''10'': the comparison is by characters.\<close>

lemma latest_version_lexicographic:
  "(let s = service_run demo_wf_env [Publish ''t9'' 0 (demo_template\<lparr>wt_version := ''9''\<rparr>), Publish ''t10'' 1 (demo_template\<lparr>wt_version := ''10''\<rparr>)] (wf_new rg_new)
    in map_option tr_version (tr_find ''review'' None s)) = Some ''9''"
  by code_simp

text \<open>
  A start message without an instance id is queued under a fresh id, but the instance gets another
  one: the id of the queue entry is not put into the message.
\<close>

lemma start_handler_id_lost:
  assumes "wd_start cd (msg_body (in_message i)) = Inr msg" "sm_instance_id msg = None"
    and "cmd_find_live CmdStart (uuids 0) (cq_repository (wm_queue m)) = None"
  shows "\<exists>c. hm_get (cq_repository (wm_queue (fst (start_handler cd uuids now i m)))) (uuids 1) = Some c \<and>
    cr_thid c = uuids 0 \<and> json_get (cr_payload c) ''instance_id'' = None"
proof -
  let ?c = "command_record_new (uuids 1) now CmdStart (uuids 0) (cx_connection_id (in_context i)) None (start_value msg)"
  have "wm_queue (fst (start_handler cd uuids now i m)) = cq_enqueue (uuids 1) now CmdStart (uuids 0) (cx_connection_id (in_context i)) None (start_value msg) (wm_queue m)"
    using assms(1,2) by (simp add: start_handler_def parse_message_def seq_def enqueue_command_def answer_def Let_def)
  then have "hm_get (cq_repository (wm_queue (fst (start_handler cd uuids now i m)))) (uuids 1) = Some ?c"
    using assms(3) by (simp add: cq_enqueue_def cq_enqueue_save_def cmd_save_def command_record_new_def)
  moreover have "json_get (start_value msg) ''instance_id'' = None"
    using assms(2) by (simp add: start_value_def opt_field_def split: option.split)
  ultimately show ?thesis by (simp add: command_record_new_def)
qed

end
