(* ===== verification/Record_Map.thy ===== *)
theory Record_Map
  imports Fallible
begin

text \<open>
  Hash maps of records under their own ids, as every in-memory repository of the protocols keeps
  them, and what a scan of their values finds.
\<close>

text \<open>A map of records under their own ids.\<close>

definition map_inv :: "('a \<Rightarrow> string) \<Rightarrow> (string, 'a) hash_map \<Rightarrow> bool" where
  "map_inv key m \<longleftrightarrow> hm_wf m \<and> (\<forall>i r. hm_get m i = Some r \<longrightarrow> key r = i)"

lemma map_inv_insert: "map_inv key m \<Longrightarrow> map_inv key (hm_insert (key r) r m)"
  by (auto simp: map_inv_def)

lemma map_inv_remove: "map_inv key m \<Longrightarrow> map_inv key (hm_remove i m)"
  by (auto simp: map_inv_def split: if_splits)

lemma map_inv_filter: "map_inv key m \<Longrightarrow> map_inv key (filter (\<lambda>(_, r). P r) m)"
  by (auto simp: map_inv_def hm_get_filter [where P = "\<lambda>_. P"] split: option.splits if_splits)

lemma map_inv_values: "map_inv key m \<Longrightarrow> r \<in> set (hm_values m) \<longleftrightarrow> hm_get m (key r) = Some r"
proof -
  assume inv: "map_inv key m"
  then have g: "hm_get m i = Some r \<longleftrightarrow> (i, r) \<in> set m" for i by (simp add: map_inv_def hm_get_iff_mem)
  have "r \<in> set (hm_values m) \<longleftrightarrow> (\<exists>i. hm_get m i = Some r)" unfolding g by force
  then show ?thesis using inv by (auto simp: map_inv_def)
qed

lemma map_inv_ran: "map_inv key m \<Longrightarrow> snd ` set m = {r. \<exists>i. hm_get m i = Some r}"
  unfolding map_inv_def by (force simp: hm_get_iff_mem)

lemma map_inv_find:
  assumes "map_inv key m"
  shows "find P (hm_values m) = Some r \<Longrightarrow> hm_get m (key r) = Some r \<and> P r"
    "find P (hm_values m) = None \<Longrightarrow> hm_get m i = Some r \<Longrightarrow> \<not> P r"
proof -
  show "find P (hm_values m) = Some r \<Longrightarrow> hm_get m (key r) = Some r \<and> P r"
    using find_SomeD [of P "hm_values m" r] map_inv_values [OF assms, of r] by simp
  assume none: "find P (hm_values m) = None" and r: "hm_get m i = Some r"
  then have "r \<in> set (hm_values m)" using assms map_inv_values [OF assms, of r] by (auto simp: map_inv_def)
  then show "\<not> P r" using none unfolding find_None_iff by blast
qed

lemma map_inv_found:
  assumes "map_inv key m"
  shows "case find P (hm_values m) of None \<Rightarrow> \<forall>i r. hm_get m i = Some r \<longrightarrow> \<not> P r | Some r \<Rightarrow> hm_get m (key r) = Some r \<and> P r"
proof (cases "find P (hm_values m)")
  case None
  then show ?thesis using map_inv_find(2) [OF assms None] by (simp only: option.case) blast
next
  case (Some r)
  then show ?thesis using map_inv_find(1) [OF assms Some] by simp
qed

lemma map_inv_empty [simp]: "map_inv key []"
  by (simp add: map_inv_def)

lemma map_inv_wf: "map_inv key m \<Longrightarrow> hm_wf m"
  by (simp add: map_inv_def)

lemma map_inv_key: "map_inv key m \<Longrightarrow> hm_get m i = Some r \<Longrightarrow> key r = i"
  by (simp add: map_inv_def)

end
