(* ===== verification/Mediation_Repository.thy ===== *)
theory Mediation_Repository
  imports Record_Map
begin

text \<open>
  The records of the mediation protocol and the repositories that keep them: \<open>domain/\<close>,
  \<open>repository/\<close> and the errors of \<open>lib.rs\<close> in \<open>protocols/coordinate_mediation/src\<close>. Services call a
  repository through \<open>dyn\<close>, so a repository is a record of operations, and the two locales state
  what the services rely on. The in-memory repositories are interpretations.
\<close>

section \<open>Domain\<close>

datatype mediation_state = MedRequested | MedGranted | MedDenied

definition med_is_active :: "mediation_state \<Rightarrow> bool" where "med_is_active st \<longleftrightarrow> st = MedGranted"
definition med_is_pending :: "mediation_state \<Rightarrow> bool" where "med_is_pending st \<longleftrightarrow> st = MedRequested"
definition med_is_denied :: "mediation_state \<Rightarrow> bool" where "med_is_denied st \<longleftrightarrow> st = MedDenied"

definition is_valid_transition_from :: "mediation_state \<Rightarrow> mediation_state \<Rightarrow> bool" where
  "is_valid_transition_from to from \<longleftrightarrow>
     (if from = to then True
      else case (from, to) of
             (MedRequested, MedGranted) \<Rightarrow> True
           | (MedRequested, MedDenied) \<Rightarrow> True
           | _ \<Rightarrow> False)"

fun mediation_state_str :: "mediation_state \<Rightarrow> string" where
  "mediation_state_str MedRequested = ''requested''"
| "mediation_state_str MedGranted = ''granted''"
| "mediation_state_str MedDenied = ''denied''"

datatype mediation_role = RoleRecipient | RoleMediator

fun mediation_role_str :: "mediation_role \<Rightarrow> string" where
  "mediation_role_str RoleRecipient = ''recipient''"
| "mediation_role_str RoleMediator = ''mediator''"

datatype keylist_action = KeyAdd | KeyRemove

datatype keylist_result = KeySuccess | KeyClientError | KeyServerError | KeyNoChange

record mediation_record =
  me_id :: string
  me_connection_id :: string
  me_state :: mediation_state
  me_role :: mediation_role
  me_endpoint :: "string option"
  me_routing_keys :: "string list"
  me_registered_recipient_key :: "string option"
  me_created_at :: timestamp
  me_updated_at :: timestamp

definition mediation_record_new :: "string \<Rightarrow> timestamp \<Rightarrow> string \<Rightarrow> mediation_role \<Rightarrow> mediation_record" where
  "mediation_record_new uuid now connection_id role =
     \<lparr>me_id = uuid, me_connection_id = connection_id, me_state = MedRequested, me_role = role, me_endpoint = None,
      me_routing_keys = [], me_registered_recipient_key = None, me_created_at = now, me_updated_at = now\<rparr>"

record keylist_record =
  ke_id :: string
  ke_mediation_id :: string
  ke_recipient_key :: string
  ke_action :: keylist_action
  ke_result :: keylist_result
  ke_created_at :: timestamp

definition keylist_record_new :: "string \<Rightarrow> timestamp \<Rightarrow> string \<Rightarrow> string \<Rightarrow> keylist_action \<Rightarrow> keylist_result \<Rightarrow> keylist_record" where
  "keylist_record_new uuid now mediation_id recipient_key action res =
     \<lparr>ke_id = uuid, ke_mediation_id = mediation_id, ke_recipient_key = recipient_key, ke_action = action, ke_result = res, ke_created_at = now\<rparr>"

datatype mediation_error =
    MedNotFound string | MedAlreadyExists string | MedInvalidStateTransition mediation_state mediation_state
  | MedInvalidRole mediation_role mediation_role | MedInvalidState "mediation_state list" mediation_state | MedMissingThreadId
  | MedConnectionNotFound string | MedKeylistUpdateFailed string | MedNoMediationGranted string | MedStorage string
  | MedSerialization string | MedProtocol string | MedDIDComm string

section \<open>The repository traits\<close>

record 's med_ops =
  mo_save :: "mediation_record \<Rightarrow> ('s, mediation_error, unit) prog"
  mo_update :: "mediation_record \<Rightarrow> ('s, mediation_error, unit) prog"
  mo_find_by_id :: "string \<Rightarrow> ('s, mediation_error, mediation_record option) prog"
  mo_find_by_connection_id :: "string \<Rightarrow> ('s, mediation_error, mediation_record option) prog"
  mo_find_by_state :: "mediation_state \<Rightarrow> ('s, mediation_error, mediation_record list) prog"
  mo_find_by_role :: "mediation_role \<Rightarrow> ('s, mediation_error, mediation_record list) prog"
  mo_delete :: "string \<Rightarrow> ('s, mediation_error, unit) prog"
  mo_get_all :: "('s, mediation_error, mediation_record list) prog"

definition mo_find_all_granted :: "'s med_ops \<Rightarrow> ('s, mediation_error, mediation_record list) prog" where
  "mo_find_all_granted ops = mo_find_by_state ops MedGranted"

record 's key_ops =
  ko_save :: "keylist_record \<Rightarrow> ('s, mediation_error, unit) prog"
  ko_find_by_mediation_id :: "string \<Rightarrow> ('s, mediation_error, keylist_record list) prog"
  ko_find_by_recipient_key :: "string \<Rightarrow> string \<Rightarrow> ('s, mediation_error, keylist_record option) prog"
  ko_delete_by_recipient_key :: "string \<Rightarrow> string \<Rightarrow> ('s, mediation_error, unit) prog"
  ko_delete_by_mediation_id :: "string \<Rightarrow> ('s, mediation_error, unit) prog"
  ko_get_all :: "('s, mediation_error, keylist_record list) prog"
  ko_find_mediation_for_recipient_key :: "string \<Rightarrow> ('s, mediation_error, keylist_record option) prog"

definition ke_matches :: "string \<Rightarrow> string \<Rightarrow> keylist_record \<Rightarrow> bool" where
  "ke_matches mediation_id recipient_key r \<longleftrightarrow> ke_mediation_id r = mediation_id \<and> ke_recipient_key r = recipient_key"

section \<open>In memory\<close>

type_synonym mediation_map = "(string, mediation_record) hash_map"
type_synonym keylist_map = "(string, keylist_record) hash_map"

definition mm_save :: "mediation_record \<Rightarrow> (mediation_map, mediation_error, unit) prog" where
  "mm_save r m = (if hm_contains m (me_id r) then (m, Inl (MedAlreadyExists (me_id r))) else (hm_insert (me_id r) r m, Inr ()))"

definition mm_update :: "mediation_record \<Rightarrow> (mediation_map, mediation_error, unit) prog" where
  "mm_update r m = (if \<not> hm_contains m (me_id r) then (m, Inl (MedNotFound (me_id r))) else (hm_insert (me_id r) r m, Inr ()))"

definition mm_find_by_id :: "string \<Rightarrow> (mediation_map, mediation_error, mediation_record option) prog" where
  "mm_find_by_id i = read (\<lambda>m. hm_get m i)"

definition mm_find_by_connection_id :: "string \<Rightarrow> (mediation_map, mediation_error, mediation_record option) prog" where
  "mm_find_by_connection_id c = read (\<lambda>m. find (\<lambda>r. me_connection_id r = c) (hm_values m))"

definition mm_find_by_state :: "mediation_state \<Rightarrow> (mediation_map, mediation_error, mediation_record list) prog" where
  "mm_find_by_state st = read (\<lambda>m. filter (\<lambda>r. me_state r = st) (hm_values m))"

definition mm_find_by_role :: "mediation_role \<Rightarrow> (mediation_map, mediation_error, mediation_record list) prog" where
  "mm_find_by_role ro = read (\<lambda>m. filter (\<lambda>r. me_role r = ro) (hm_values m))"

definition mm_delete :: "string \<Rightarrow> (mediation_map, mediation_error, unit) prog" where
  "mm_delete i m = (if hm_contains m i then (hm_remove i m, Inr ()) else (m, Inl (MedNotFound i)))"

definition mm_get_all :: "(mediation_map, mediation_error, mediation_record list) prog" where
  "mm_get_all = read hm_values"

definition memory_med_ops :: "mediation_map med_ops" where
  "memory_med_ops = \<lparr>mo_save = mm_save, mo_update = mm_update, mo_find_by_id = mm_find_by_id, mo_find_by_connection_id = mm_find_by_connection_id,
     mo_find_by_state = mm_find_by_state, mo_find_by_role = mm_find_by_role, mo_delete = mm_delete, mo_get_all = mm_get_all\<rparr>"

definition km_save :: "keylist_record \<Rightarrow> (keylist_map, mediation_error, unit) prog" where
  "km_save r = modify (hm_insert (ke_id r) r)"

definition km_find_by_mediation_id :: "string \<Rightarrow> (keylist_map, mediation_error, keylist_record list) prog" where
  "km_find_by_mediation_id i = read (\<lambda>m. filter (\<lambda>r. ke_mediation_id r = i) (hm_values m))"

definition km_find_by_recipient_key :: "string \<Rightarrow> string \<Rightarrow> (keylist_map, mediation_error, keylist_record option) prog" where
  "km_find_by_recipient_key i key = read (\<lambda>m. find (ke_matches i key) (hm_values m))"

definition km_delete_by_recipient_key :: "string \<Rightarrow> string \<Rightarrow> (keylist_map, mediation_error, unit) prog" where
  "km_delete_by_recipient_key i key = modify (filter (\<lambda>(_, r). \<not> ke_matches i key r))"

definition km_delete_by_mediation_id :: "string \<Rightarrow> (keylist_map, mediation_error, unit) prog" where
  "km_delete_by_mediation_id i = modify (filter (\<lambda>(_, r). ke_mediation_id r \<noteq> i))"

definition km_get_all :: "(keylist_map, mediation_error, keylist_record list) prog" where
  "km_get_all = read hm_values"

text \<open>The trait's default: any record with the key.\<close>

definition km_find_mediation_for_recipient_key :: "string \<Rightarrow> (keylist_map, mediation_error, keylist_record option) prog" where
  "km_find_mediation_for_recipient_key key = seq km_get_all (\<lambda>all. ok (find (\<lambda>r. ke_recipient_key r = key) all))"

definition memory_key_ops :: "keylist_map key_ops" where
  "memory_key_ops = \<lparr>ko_save = km_save, ko_find_by_mediation_id = km_find_by_mediation_id, ko_find_by_recipient_key = km_find_by_recipient_key,
     ko_delete_by_recipient_key = km_delete_by_recipient_key, ko_delete_by_mediation_id = km_delete_by_mediation_id, ko_get_all = km_get_all,
     ko_find_mediation_for_recipient_key = km_find_mediation_for_recipient_key\<rparr>"

section \<open>The contracts\<close>

text \<open>
  \<open>view\<close> is what a repository state holds, by record id. A write that fails leaves it as it was, a
  lookup changes nothing and answers from it. Which of several mediations with one connection, or
  of several keylist records with one key, a lookup returns is left open. \<open>used\<close> are the record ids
  a keylist repository still knows: a new record must not have one of them.
\<close>

locale mediation_repository =
  fixes ops :: "'s med_ops" and inv :: "'s \<Rightarrow> bool" and view :: "'s \<Rightarrow> string \<Rightarrow> mediation_record option"
  assumes ids: "inv s \<Longrightarrow> view s i = Some r \<Longrightarrow> me_id r = i"
    and save: "inv s \<Longrightarrow> mo_save ops r s = (s', x) \<Longrightarrow>
      inv s' \<and> (case x of Inl e \<Rightarrow> view s' = view s | Inr _ \<Rightarrow> view s (me_id r) = None \<and> view s' = (view s)(me_id r \<mapsto> r))"
    and update: "inv s \<Longrightarrow> mo_update ops r s = (s', x) \<Longrightarrow>
      inv s' \<and> (case x of Inl e \<Rightarrow> view s' = view s | Inr _ \<Rightarrow> view s (me_id r) \<noteq> None \<and> view s' = (view s)(me_id r \<mapsto> r))"
    and delete: "inv s \<Longrightarrow> mo_delete ops i s = (s', x) \<Longrightarrow>
      inv s' \<and> (case x of Inl e \<Rightarrow> view s' = view s | Inr _ \<Rightarrow> view s i \<noteq> None \<and> view s' = (view s)(i := None))"
    and find_by_id: "inv s \<Longrightarrow> mo_find_by_id ops i s = (s', y) \<Longrightarrow>
      inv s' \<and> view s' = view s \<and> (case y of Inl e \<Rightarrow> True | Inr r \<Rightarrow> r = view s i)"
    and find_by_connection_id: "inv s \<Longrightarrow> mo_find_by_connection_id ops c s = (s', y) \<Longrightarrow>
      inv s' \<and> view s' = view s \<and>
      (case y of Inl e \<Rightarrow> True
       | Inr None \<Rightarrow> \<forall>i r. view s i = Some r \<longrightarrow> me_connection_id r \<noteq> c
       | Inr (Some r) \<Rightarrow> view s (me_id r) = Some r \<and> me_connection_id r = c)"
    and find_by_state: "inv s \<Longrightarrow> mo_find_by_state ops st s = (s', z) \<Longrightarrow>
      inv s' \<and> view s' = view s \<and> (case z of Inl e \<Rightarrow> True | Inr rs \<Rightarrow> set rs = {r. \<exists>i. view s i = Some r \<and> me_state r = st})"
    and find_by_role: "inv s \<Longrightarrow> mo_find_by_role ops ro s = (s', z) \<Longrightarrow>
      inv s' \<and> view s' = view s \<and> (case z of Inl e \<Rightarrow> True | Inr rs \<Rightarrow> set rs = {r. \<exists>i. view s i = Some r \<and> me_role r = ro})"
    and get_all: "inv s \<Longrightarrow> mo_get_all ops s = (s', z) \<Longrightarrow>
      inv s' \<and> view s' = view s \<and> (case z of Inl e \<Rightarrow> True | Inr rs \<Rightarrow> set rs = ran (view s))"

locale keylist_repository =
  fixes ops :: "'s key_ops" and inv :: "'s \<Rightarrow> bool" and view :: "'s \<Rightarrow> string \<Rightarrow> keylist_record option" and used :: "'s \<Rightarrow> string set"
  assumes ids: "inv s \<Longrightarrow> view s i = Some r \<Longrightarrow> ke_id r = i"
    and dom_used: "inv s \<Longrightarrow> dom (view s) \<subseteq> used s"
    and save: "inv s \<Longrightarrow> ke_id r \<notin> used s \<Longrightarrow> ko_save ops r s = (s', x) \<Longrightarrow>
      inv s' \<and> used s' \<subseteq> insert (ke_id r) (used s) \<and> (case x of Inl e \<Rightarrow> view s' = view s | Inr _ \<Rightarrow> view s' = (view s)(ke_id r \<mapsto> r))"
    and delete_by_recipient_key: "inv s \<Longrightarrow> ko_delete_by_recipient_key ops m key s = (s', x) \<Longrightarrow>
      inv s' \<and> used s' \<subseteq> used s \<and>
      (\<exists>gone. gone \<subseteq> {i. \<exists>r. view s i = Some r \<and> ke_matches m key r} \<and> view s' = (view s) |` (- gone) \<and>
        (case x of Inl e \<Rightarrow> gone = {} | Inr _ \<Rightarrow> (\<exists>i r. view s i = Some r \<and> ke_matches m key r) \<longrightarrow> gone \<noteq> {}))"
    and delete_by_mediation_id: "inv s \<Longrightarrow> ko_delete_by_mediation_id ops m s = (s', Inr ()) \<Longrightarrow>
      inv s' \<and> used s' \<subseteq> used s \<and> view s' = (view s) |` {i. \<forall>r. view s i = Some r \<longrightarrow> ke_mediation_id r \<noteq> m}"
    and find_by_mediation_id: "inv s \<Longrightarrow> ko_find_by_mediation_id ops m s = (s', z) \<Longrightarrow>
      inv s' \<and> used s' \<subseteq> used s \<and> view s' = view s \<and>
      (case z of Inl e \<Rightarrow> True | Inr rs \<Rightarrow> set rs = {r. \<exists>i. view s i = Some r \<and> ke_mediation_id r = m})"
    and find_by_recipient_key: "inv s \<Longrightarrow> ko_find_by_recipient_key ops m key s = (s', y) \<Longrightarrow>
      inv s' \<and> used s' \<subseteq> used s \<and> view s' = view s \<and>
      (case y of Inl e \<Rightarrow> True
       | Inr None \<Rightarrow> \<forall>i r. view s i = Some r \<longrightarrow> \<not> ke_matches m key r
       | Inr (Some r) \<Rightarrow> view s (ke_id r) = Some r \<and> ke_matches m key r)"
    and get_all: "inv s \<Longrightarrow> ko_get_all ops s = (s', z) \<Longrightarrow>
      inv s' \<and> used s' \<subseteq> used s \<and> view s' = view s \<and> (case z of Inl e \<Rightarrow> True | Inr rs \<Rightarrow> set rs = ran (view s))"
    and find_mediation_for_recipient_key: "inv s \<Longrightarrow> ko_find_mediation_for_recipient_key ops key s = (s', y) \<Longrightarrow>
      inv s' \<and> used s' \<subseteq> used s \<and> view s' = view s \<and>
      (case y of Inl e \<Rightarrow> True
       | Inr None \<Rightarrow> \<forall>i r. view s i = Some r \<longrightarrow> ke_recipient_key r \<noteq> key
       | Inr (Some r) \<Rightarrow> view s (ke_id r) = Some r \<and> ke_recipient_key r = key)"

section \<open>The in-memory repositories keep the contracts\<close>

interpretation memory_mediations: mediation_repository memory_med_ops "map_inv me_id" map_of
proof
  fix m m' :: mediation_map and st ro c i and r :: mediation_record and x :: "mediation_error + unit" and y :: "mediation_error + mediation_record option"
    and z :: "mediation_error + mediation_record list"
  assume inv: "map_inv me_id m"
  show "hm_get m i = Some r \<Longrightarrow> me_id r = i" using inv by (simp add: map_inv_def)
  show "mo_save memory_med_ops r m = (m', x) \<Longrightarrow> map_inv me_id m' \<and>
      (case x of Inl e \<Rightarrow> map_of m' = map_of m | Inr _ \<Rightarrow> hm_get m (me_id r) = None \<and> map_of m' = (map_of m)(me_id r \<mapsto> r))"
    using inv map_inv_insert [OF inv] by (auto simp: memory_med_ops_def mm_save_def update_conv' split: if_splits)
  show "mo_update memory_med_ops r m = (m', x) \<Longrightarrow> map_inv me_id m' \<and>
      (case x of Inl e \<Rightarrow> map_of m' = map_of m | Inr _ \<Rightarrow> hm_get m (me_id r) \<noteq> None \<and> map_of m' = (map_of m)(me_id r \<mapsto> r))"
    using inv map_inv_insert [OF inv] by (auto simp: memory_med_ops_def mm_update_def update_conv' split: if_splits)
  show "mo_delete memory_med_ops i m = (m', x) \<Longrightarrow> map_inv me_id m' \<and>
      (case x of Inl e \<Rightarrow> map_of m' = map_of m | Inr _ \<Rightarrow> hm_get m i \<noteq> None \<and> map_of m' = (map_of m)(i := None))"
    using inv map_inv_remove [OF inv] by (auto simp: memory_med_ops_def mm_delete_def delete_conv' split: if_splits)
  show "mo_find_by_id memory_med_ops i m = (m', y) \<Longrightarrow> map_inv me_id m' \<and> map_of m' = map_of m \<and>
      (case y of Inl e \<Rightarrow> True | Inr r \<Rightarrow> r = hm_get m i)"
    using inv by (auto simp: memory_med_ops_def mm_find_by_id_def)
  show "mo_find_by_connection_id memory_med_ops c m = (m', y) \<Longrightarrow> map_inv me_id m' \<and> map_of m' = map_of m \<and>
      (case y of Inl e \<Rightarrow> True | Inr None \<Rightarrow> \<forall>i r. hm_get m i = Some r \<longrightarrow> me_connection_id r \<noteq> c
       | Inr (Some r) \<Rightarrow> hm_get m (me_id r) = Some r \<and> me_connection_id r = c)"
    using inv map_inv_found [OF inv, of "\<lambda>r. me_connection_id r = c"]
    by (auto simp: memory_med_ops_def mm_find_by_connection_id_def split: option.splits)
  show "mo_find_by_state memory_med_ops st m = (m', z) \<Longrightarrow> map_inv me_id m' \<and> map_of m' = map_of m \<and>
      (case z of Inl e \<Rightarrow> True | Inr rs \<Rightarrow> set rs = {r. \<exists>i. hm_get m i = Some r \<and> me_state r = st})"
    using inv by (auto simp: map_inv_ran [where key = me_id] memory_med_ops_def mm_find_by_state_def)
  show "mo_find_by_role memory_med_ops ro m = (m', z) \<Longrightarrow> map_inv me_id m' \<and> map_of m' = map_of m \<and>
      (case z of Inl e \<Rightarrow> True | Inr rs \<Rightarrow> set rs = {r. \<exists>i. hm_get m i = Some r \<and> me_role r = ro})"
    using inv by (auto simp: map_inv_ran [where key = me_id] memory_med_ops_def mm_find_by_role_def)
  show "mo_get_all memory_med_ops m = (m', z) \<Longrightarrow> map_inv me_id m' \<and> map_of m' = map_of m \<and>
      (case z of Inl e \<Rightarrow> True | Inr rs \<Rightarrow> set rs = ran (map_of m))"
    using inv by (auto simp: map_inv_ran [where key = me_id] memory_med_ops_def mm_get_all_def ran_def)
qed

lemma map_of_filter_restrict:
  assumes "hm_wf m"
  shows "map_of (filter (\<lambda>(_, r). P r) m) = (map_of m) |` {i. \<forall>r. hm_get m i = Some r \<longrightarrow> P r}"
  by (rule ext) (auto simp: hm_get_filter [OF assms, of "\<lambda>_. P"] restrict_map_def split: option.splits)

interpretation memory_keylists: keylist_repository memory_key_ops "map_inv ke_id" map_of "\<lambda>m. dom (map_of m)"
proof
  fix m m' :: keylist_map and i key and r :: keylist_record and x :: "mediation_error + unit"
    and y :: "mediation_error + keylist_record option" and z :: "mediation_error + keylist_record list"
  assume inv: "map_inv ke_id m"
  then have wf: "hm_wf m" by (simp add: map_inv_def)
  note fr = map_of_filter_restrict [OF wf]
  show "hm_get m i = Some r \<Longrightarrow> ke_id r = i" using inv by (simp add: map_inv_def)
  show "dom (map_of m) \<subseteq> dom (map_of m)" by simp
  show "ko_save memory_key_ops r m = (m', x) \<Longrightarrow> map_inv ke_id m' \<and> dom (map_of m') \<subseteq> insert (ke_id r) (dom (map_of m)) \<and>
      (case x of Inl e \<Rightarrow> map_of m' = map_of m | Inr _ \<Rightarrow> map_of m' = (map_of m)(ke_id r \<mapsto> r))"
    using map_inv_insert [OF inv] by (auto simp: memory_key_ops_def km_save_def update_conv')
  show "ko_delete_by_recipient_key memory_key_ops i key m = (m', x) \<Longrightarrow> map_inv ke_id m' \<and> dom (map_of m') \<subseteq> dom (map_of m) \<and>
      (\<exists>gone. gone \<subseteq> {j. \<exists>r. hm_get m j = Some r \<and> ke_matches i key r} \<and> map_of m' = (map_of m) |` (- gone) \<and>
        (case x of Inl e \<Rightarrow> gone = {} | Inr _ \<Rightarrow> (\<exists>j r. hm_get m j = Some r \<and> ke_matches i key r) \<longrightarrow> gone \<noteq> {}))"
    using map_inv_filter [OF inv, of "\<lambda>r. \<not> ke_matches i key r"]
    by (intro conjI exI [of _ "{j. \<exists>r. hm_get m j = Some r \<and> ke_matches i key r}"])
       (auto simp: memory_key_ops_def km_delete_by_recipient_key_def fr Compl_eq restrict_map_def split: if_splits)
  show "ko_delete_by_mediation_id memory_key_ops i m = (m', Inr ()) \<Longrightarrow> map_inv ke_id m' \<and> dom (map_of m') \<subseteq> dom (map_of m) \<and>
      map_of m' = (map_of m) |` {j. \<forall>r. hm_get m j = Some r \<longrightarrow> ke_mediation_id r \<noteq> i}"
    using map_inv_filter [OF inv, of "\<lambda>r. ke_mediation_id r \<noteq> i"]
    by (auto simp: memory_key_ops_def km_delete_by_mediation_id_def fr restrict_map_def split: if_splits)
  show "ko_find_by_mediation_id memory_key_ops i m = (m', z) \<Longrightarrow> map_inv ke_id m' \<and> dom (map_of m') \<subseteq> dom (map_of m) \<and> map_of m' = map_of m \<and>
      (case z of Inl e \<Rightarrow> True | Inr rs \<Rightarrow> set rs = {r. \<exists>j. hm_get m j = Some r \<and> ke_mediation_id r = i})"
    using inv by (auto simp: map_inv_ran [where key = ke_id] memory_key_ops_def km_find_by_mediation_id_def)
  show "ko_find_by_recipient_key memory_key_ops i key m = (m', y) \<Longrightarrow> map_inv ke_id m' \<and> dom (map_of m') \<subseteq> dom (map_of m) \<and> map_of m' = map_of m \<and>
      (case y of Inl e \<Rightarrow> True | Inr None \<Rightarrow> \<forall>j r. hm_get m j = Some r \<longrightarrow> \<not> ke_matches i key r
       | Inr (Some r) \<Rightarrow> hm_get m (ke_id r) = Some r \<and> ke_matches i key r)"
    using inv map_inv_found [OF inv, of "ke_matches i key"]
    by (auto simp: memory_key_ops_def km_find_by_recipient_key_def split: option.splits)
  show "ko_get_all memory_key_ops m = (m', z) \<Longrightarrow> map_inv ke_id m' \<and> dom (map_of m') \<subseteq> dom (map_of m) \<and> map_of m' = map_of m \<and>
      (case z of Inl e \<Rightarrow> True | Inr rs \<Rightarrow> set rs = ran (map_of m))"
    using inv by (auto simp: map_inv_ran [where key = ke_id] memory_key_ops_def km_get_all_def ran_def)
  show "ko_find_mediation_for_recipient_key memory_key_ops key m = (m', y) \<Longrightarrow> map_inv ke_id m' \<and> dom (map_of m') \<subseteq> dom (map_of m) \<and> map_of m' = map_of m \<and>
      (case y of Inl e \<Rightarrow> True | Inr None \<Rightarrow> \<forall>j r. hm_get m j = Some r \<longrightarrow> ke_recipient_key r \<noteq> key
       | Inr (Some r) \<Rightarrow> hm_get m (ke_id r) = Some r \<and> ke_recipient_key r = key)"
    using inv map_inv_found [OF inv, of "\<lambda>r. ke_recipient_key r = key"]
    by (auto simp: memory_key_ops_def km_find_mediation_for_recipient_key_def km_get_all_def seq_def split: option.splits)
qed

end
