(* ===== verification/Mediation_Storage.thy ===== *)
theory Mediation_Storage
  imports Mediation_Repository Storage_Provider
begin

text \<open>
  The storage-backed mediation and keylist repositories of
  \<open>protocols/coordinate_mediation/src/repository\<close>: write-through caches, filled on the first access,
  over any storage provider. Over a provider that keeps its contract they keep the contracts of
  \<open>Mediation_Repository\<close>, whatever calls of the provider fail. The JSON form of the records is
  \<open>serde\<close>'s, a parameter.
\<close>

section \<open>Over a storage provider: mediations\<close>

definition MEDIATION_CATEGORY :: string where "MEDIATION_CATEGORY = ''mediation''"

record 's stored_mediations =
  sm_storage :: 's
  sm_cache :: "mediation_map option"

type_synonym ('s, 'a) sm_prog = "('s stored_mediations, mediation_error, 'a) prog"

definition sm_new :: "'s \<Rightarrow> 's stored_mediations" where
  "sm_new st = \<lparr>sm_storage = st, sm_cache = None\<rparr>"

text \<open>\<open>ensure_cache\<close> followed by access to the cache, which then is there.\<close>

definition sm_ensure_cache :: "'s storage_ops \<Rightarrow> mediation_record serde \<Rightarrow> ('s, mediation_map) sm_prog" where
  "sm_ensure_cache ops sd s =
     (case sm_cache s of
        Some m \<Rightarrow> (s, Inr m)
      | None \<Rightarrow>
          (case st_find_all ops MEDIATION_CATEGORY query_new (sm_storage s) of
             Inl e \<Rightarrow> (s, Inl (MedStorage (''Failed to load mediation records: '' @ agent_error_str e)))
           | Inr records \<Rightarrow> let m = load_map sd me_id records in (s\<lparr>sm_cache := Some m\<rparr>, Inr m)))"

definition sm_record :: "mediation_record \<Rightarrow> bytes \<Rightarrow> storage_record" where
  "sm_record r value = record_with_tags
     [(''connection_id'', me_connection_id r), (''state'', mediation_state_str (me_state r)), (''role'', mediation_role_str (me_role r))]
     (record_new MEDIATION_CATEGORY (me_id r) value)"

definition sm_persist :: "'s storage_ops \<Rightarrow> mediation_record serde \<Rightarrow> mediation_record \<Rightarrow> ('s, unit) sm_prog" where
  "sm_persist ops sd r s =
     (case sd_to_vec sd r of
        None \<Rightarrow> (s, Inl (MedStorage ''Failed to serialize mediation record: ''))
      | Some value \<Rightarrow>
          (case st_save ops (sm_record r value) (sm_storage s) of
             (st, Inl e) \<Rightarrow> (s\<lparr>sm_storage := st\<rparr>, Inl (MedStorage (''Failed to store mediation record: '' @ agent_error_str e)))
           | (st, Inr _) \<Rightarrow> (s\<lparr>sm_storage := st\<rparr>, Inr ())))"

definition sm_update_in_storage :: "'s storage_ops \<Rightarrow> mediation_record serde \<Rightarrow> mediation_record \<Rightarrow> ('s, unit) sm_prog" where
  "sm_update_in_storage ops sd r s =
     (case sd_to_vec sd r of
        None \<Rightarrow> (s, Inl (MedStorage ''Failed to serialize mediation record: ''))
      | Some value \<Rightarrow>
          (case st_update ops (sm_record r value) (sm_storage s) of
             (st, Inl e) \<Rightarrow> (s\<lparr>sm_storage := st\<rparr>, Inl (MedStorage (''Failed to update mediation record: '' @ agent_error_str e)))
           | (st, Inr _) \<Rightarrow> (s\<lparr>sm_storage := st\<rparr>, Inr ())))"

definition sm_delete_from_storage :: "'s storage_ops \<Rightarrow> string \<Rightarrow> ('s, unit) sm_prog" where
  "sm_delete_from_storage ops i s =
     (case st_delete ops MEDIATION_CATEGORY i (sm_storage s) of
        (st, Inl e) \<Rightarrow> (s\<lparr>sm_storage := st\<rparr>, Inl (MedStorage (''Failed to delete mediation record: '' @ agent_error_str e)))
      | (st, Inr _) \<Rightarrow> (s\<lparr>sm_storage := st\<rparr>, Inr ()))"

definition sm_save :: "'s storage_ops \<Rightarrow> mediation_record serde \<Rightarrow> mediation_record \<Rightarrow> ('s, unit) sm_prog" where
  "sm_save ops sd r =
     seq (sm_ensure_cache ops sd) (\<lambda>m.
     seq (guard (\<not> hm_contains m (me_id r)) (MedAlreadyExists (me_id r))) (\<lambda>_.
     seq (sm_persist ops sd r) (\<lambda>_.
     modify (\<lambda>s. s\<lparr>sm_cache := Some (hm_insert (me_id r) r m)\<rparr>))))"

definition sm_update :: "'s storage_ops \<Rightarrow> mediation_record serde \<Rightarrow> mediation_record \<Rightarrow> ('s, unit) sm_prog" where
  "sm_update ops sd r =
     seq (sm_ensure_cache ops sd) (\<lambda>m.
     seq (guard (hm_contains m (me_id r)) (MedNotFound (me_id r))) (\<lambda>_.
     seq (sm_update_in_storage ops sd r) (\<lambda>_.
     modify (\<lambda>s. s\<lparr>sm_cache := Some (hm_insert (me_id r) r m)\<rparr>))))"

definition sm_delete :: "'s storage_ops \<Rightarrow> mediation_record serde \<Rightarrow> string \<Rightarrow> ('s, unit) sm_prog" where
  "sm_delete ops sd i =
     seq (sm_ensure_cache ops sd) (\<lambda>m.
     seq (guard (hm_contains m i) (MedNotFound i)) (\<lambda>_.
     seq (sm_delete_from_storage ops i) (\<lambda>_.
     modify (\<lambda>s. s\<lparr>sm_cache := Some (hm_remove i m)\<rparr>))))"

text \<open>The lookups answer from the cache as the in-memory repository does.\<close>

definition sm_cached :: "'s storage_ops \<Rightarrow> mediation_record serde \<Rightarrow> (mediation_map, mediation_error, 'a) prog \<Rightarrow> ('s, 'a) sm_prog" where
  "sm_cached ops sd f = seq (sm_ensure_cache ops sd) (\<lambda>m. result (snd (f m)))"

definition stored_med_ops :: "'s storage_ops \<Rightarrow> mediation_record serde \<Rightarrow> 's stored_mediations med_ops" where
  "stored_med_ops ops sd = \<lparr>mo_save = sm_save ops sd, mo_update = sm_update ops sd,
     mo_find_by_id = (\<lambda>i. sm_cached ops sd (mm_find_by_id i)),
     mo_find_by_connection_id = (\<lambda>c. sm_cached ops sd (mm_find_by_connection_id c)),
     mo_find_by_state = (\<lambda>st. sm_cached ops sd (mm_find_by_state st)),
     mo_find_by_role = (\<lambda>ro. sm_cached ops sd (mm_find_by_role ro)),
     mo_delete = sm_delete ops sd, mo_get_all = sm_cached ops sd mm_get_all\<rparr>"

section \<open>Over a storage provider: keylists\<close>

definition KEYLIST_CATEGORY :: string where "KEYLIST_CATEGORY = ''keylist''"

record 's stored_keylists =
  sk_storage :: 's
  sk_cache :: "keylist_map option"
  sk_by_recipient_key :: "(string, string) hash_map"

type_synonym ('s, 'a) sk_prog = "('s stored_keylists, mediation_error, 'a) prog"

definition sk_new :: "'s \<Rightarrow> 's stored_keylists" where
  "sk_new st = \<lparr>sk_storage = st, sk_cache = None, sk_by_recipient_key = []\<rparr>"

definition sk_index :: "keylist_map \<Rightarrow> (string, string) hash_map" where
  "sk_index m = fold (\<lambda>(i, r). hm_insert (ke_recipient_key r) i) m []"

definition sk_ensure_cache :: "'s storage_ops \<Rightarrow> keylist_record serde \<Rightarrow> ('s, keylist_map) sk_prog" where
  "sk_ensure_cache ops sd s =
     (case sk_cache s of
        Some m \<Rightarrow> (s, Inr m)
      | None \<Rightarrow>
          (case st_find_all ops KEYLIST_CATEGORY query_new (sk_storage s) of
             Inl e \<Rightarrow> (s, Inl (MedStorage (''Failed to load keylist records: '' @ agent_error_str e)))
           | Inr records \<Rightarrow>
               let m = load_map sd ke_id records in (s\<lparr>sk_cache := Some m, sk_by_recipient_key := sk_index m\<rparr>, Inr m)))"

definition sk_record :: "keylist_record \<Rightarrow> bytes \<Rightarrow> storage_record" where
  "sk_record r value = record_with_tags [(''mediation_id'', ke_mediation_id r), (''recipient_key'', ke_recipient_key r)]
     (record_new KEYLIST_CATEGORY (ke_id r) value)"

definition sk_persist :: "'s storage_ops \<Rightarrow> keylist_record serde \<Rightarrow> keylist_record \<Rightarrow> ('s, unit) sk_prog" where
  "sk_persist ops sd r s =
     (case sd_to_vec sd r of
        None \<Rightarrow> (s, Inl (MedStorage ''Failed to serialize keylist record: ''))
      | Some value \<Rightarrow>
          (case st_save ops (sk_record r value) (sk_storage s) of
             (st, Inl e) \<Rightarrow> (s\<lparr>sk_storage := st\<rparr>, Inl (MedStorage (''Failed to store keylist record: '' @ agent_error_str e)))
           | (st, Inr _) \<Rightarrow> (s\<lparr>sk_storage := st\<rparr>, Inr ())))"

definition sk_delete_from_storage :: "'s storage_ops \<Rightarrow> string \<Rightarrow> ('s, unit) sk_prog" where
  "sk_delete_from_storage ops i s =
     (case st_delete ops KEYLIST_CATEGORY i (sk_storage s) of
        (st, Inl e) \<Rightarrow> (s\<lparr>sk_storage := st\<rparr>, Inl (MedStorage (''Failed to delete keylist record: '' @ agent_error_str e)))
      | (st, Inr _) \<Rightarrow> (s\<lparr>sk_storage := st\<rparr>, Inr ()))"

definition sk_save :: "'s storage_ops \<Rightarrow> keylist_record serde \<Rightarrow> keylist_record \<Rightarrow> ('s, unit) sk_prog" where
  "sk_save ops sd r =
     seq (sk_ensure_cache ops sd) (\<lambda>m.
     seq (sk_persist ops sd r) (\<lambda>_.
     modify (\<lambda>s. s\<lparr>sk_cache := Some (hm_insert (ke_id r) r m), sk_by_recipient_key := hm_insert (ke_recipient_key r) (ke_id r) (sk_by_recipient_key s)\<rparr>)))"

text \<open>Only the first match is deleted, and the index keeps its entry.\<close>

definition sk_delete_by_recipient_key :: "'s storage_ops \<Rightarrow> keylist_record serde \<Rightarrow> string \<Rightarrow> string \<Rightarrow> ('s, unit) sk_prog" where
  "sk_delete_by_recipient_key ops sd mediation_id key =
     seq (sk_ensure_cache ops sd) (\<lambda>m.
     case find (ke_matches mediation_id key) (hm_values m) of
       None \<Rightarrow> ok ()
     | Some r \<Rightarrow> seq (sk_delete_from_storage ops (ke_id r)) (\<lambda>_. modify (\<lambda>s. s\<lparr>sk_cache := Some (hm_remove (ke_id r) m)\<rparr>)))"

fun sk_delete_ids :: "'s storage_ops \<Rightarrow> string list \<Rightarrow> ('s, unit) sk_prog" where
  "sk_delete_ids ops [] = ok ()"
| "sk_delete_ids ops (i # ids) = seq (sk_delete_from_storage ops i) (\<lambda>_. sk_delete_ids ops ids)"

definition sk_delete_by_mediation_id :: "'s storage_ops \<Rightarrow> keylist_record serde \<Rightarrow> string \<Rightarrow> ('s, unit) sk_prog" where
  "sk_delete_by_mediation_id ops sd mediation_id =
     seq (sk_ensure_cache ops sd) (\<lambda>m.
     let ids = map ke_id (filter (\<lambda>r. ke_mediation_id r = mediation_id) (hm_values m))
     in seq (sk_delete_ids ops ids) (\<lambda>_. modify (\<lambda>s. s\<lparr>sk_cache := Some (fold hm_remove ids m)\<rparr>)))"

definition sk_cached :: "'s storage_ops \<Rightarrow> keylist_record serde \<Rightarrow> (keylist_map, mediation_error, 'a) prog \<Rightarrow> ('s, 'a) sk_prog" where
  "sk_cached ops sd f = seq (sk_ensure_cache ops sd) (\<lambda>m. result (snd (f m)))"

definition sk_query :: "'s storage_ops \<Rightarrow> keylist_record serde \<Rightarrow> string \<Rightarrow> ('s, keylist_record option) sk_prog" where
  "sk_query ops sd key s =
     (case st_find_all ops KEYLIST_CATEGORY (query_with_tag ''recipient_key'' key query_new) (sk_storage s) of
        Inl e \<Rightarrow> (s, Inl (MedStorage (''Failed to query keylist by recipient key: '' @ agent_error_str e)))
      | Inr [] \<Rightarrow> (s, Inr None)
      | Inr (rec # _) \<Rightarrow>
          (case sd_from_slice sd (rec_value rec) of
             None \<Rightarrow> (s, Inl (MedStorage ''Failed to deserialize: ''))
           | Some r \<Rightarrow> (s\<lparr>sk_cache := map_option (hm_insert (ke_id r) r) (sk_cache s)\<rparr>, Inr (Some r))))"

definition sk_find_mediation_for_recipient_key :: "'s storage_ops \<Rightarrow> keylist_record serde \<Rightarrow> string \<Rightarrow> ('s, keylist_record option) sk_prog" where
  "sk_find_mediation_for_recipient_key ops sd key =
     seq (sk_ensure_cache ops sd) (\<lambda>m.
     seq (read (\<lambda>s. Option.bind (hm_get (sk_by_recipient_key s) key) (hm_get m))) (\<lambda>hit.
     case hit of Some r \<Rightarrow> ok (Some r) | None \<Rightarrow> sk_query ops sd key))"

definition stored_key_ops :: "'s storage_ops \<Rightarrow> keylist_record serde \<Rightarrow> 's stored_keylists key_ops" where
  "stored_key_ops ops sd = \<lparr>ko_save = sk_save ops sd,
     ko_find_by_mediation_id = (\<lambda>i. sk_cached ops sd (km_find_by_mediation_id i)),
     ko_find_by_recipient_key = (\<lambda>i key. sk_cached ops sd (km_find_by_recipient_key i key)),
     ko_delete_by_recipient_key = sk_delete_by_recipient_key ops sd, ko_delete_by_mediation_id = sk_delete_by_mediation_id ops sd,
     ko_get_all = sk_cached ops sd km_get_all,
     ko_find_mediation_for_recipient_key = sk_find_mediation_for_recipient_key ops sd\<rparr>"

section \<open>The storage-backed repositories keep the contracts\<close>

definition sm_view :: "mediation_record serde \<Rightarrow> ('s \<Rightarrow> string \<Rightarrow> string \<Rightarrow> storage_record option) \<Rightarrow>
    's stored_mediations \<Rightarrow> string \<Rightarrow> mediation_record option" where
  "sm_view sd content s = stored_view sd (content (sm_storage s) MEDIATION_CATEGORY)"

definition sm_inv :: "mediation_record serde \<Rightarrow> ('s \<Rightarrow> bool) \<Rightarrow> ('s \<Rightarrow> string \<Rightarrow> string \<Rightarrow> storage_record option) \<Rightarrow>
    's stored_mediations \<Rightarrow> bool" where
  "sm_inv sd pinv content s \<longleftrightarrow> pinv (sm_storage s) \<and> (\<forall>i r. sm_view sd content s i = Some r \<longrightarrow> me_id r = i) \<and>
     (\<forall>m. sm_cache s = Some m \<longrightarrow> hm_wf m \<and> map_of m = sm_view sd content s)"

lemma stored_view_update:
  assumes "serde_ok sd" "sd_to_vec sd x = Some (rec_value r)"
  shows "stored_view sd (cat(n \<mapsto> r)) = (stored_view sd cat)(n \<mapsto> x)"
  using assms by (auto simp: stored_view_def serde_ok_def)

lemma stored_view_delete: "stored_view sd (cat(n := None)) = (stored_view sd cat)(n := None)"
  by (auto simp: stored_view_def)

lemma sm_record_fields [simp]:
  "rec_category (sm_record r v) = MEDIATION_CATEGORY" "rec_name (sm_record r v) = me_id r" "rec_value (sm_record r v) = v"
  by (simp_all add: sm_record_def record_with_tags_def record_new_def)

context storage_provider
begin

lemma sm_ensure_cache_ok:
  assumes "sm_inv sd inv content s" "sm_ensure_cache ops sd s = (s', x)"
  shows "sm_inv sd inv content s'" "sm_view sd content s' = sm_view sd content s" "sm_storage s' = sm_storage s"
    "x = Inr m \<Longrightarrow> map_inv me_id m \<and> map_of m = sm_view sd content s"
proof -
  note inv = assms(1) [unfolded sm_inv_def]
  have load: "hm_get (load_map sd me_id rs) = sm_view sd content s"
    if "st_find_all ops MEDIATION_CATEGORY query_new (sm_storage s) = Inr rs" for rs
    unfolding sm_view_def by (rule load_map_view [OF _ that]) (use inv in \<open>auto simp: sm_view_def\<close>)
  show "sm_inv sd inv content s'" "sm_view sd content s' = sm_view sd content s" "sm_storage s' = sm_storage s"
    "x = Inr m \<Longrightarrow> map_inv me_id m \<and> map_of m = sm_view sd content s"
    using assms(2) inv load load_map_wf [of sd me_id]
    by (auto simp: sm_ensure_cache_def sm_inv_def sm_view_def map_inv_def Let_def split: option.splits sum.splits)
qed

lemma sm_cached_ok:
  assumes "sm_inv sd inv content s" "sm_cached ops sd f s = (s', x)"
  shows "sm_inv sd inv content s'" "sm_view sd content s' = sm_view sd content s"
    "x = Inr y \<Longrightarrow> \<exists>m. map_inv me_id m \<and> map_of m = sm_view sd content s \<and> snd (f m) = Inr y"
proof -
  obtain s1 z where 1: "sm_ensure_cache ops sd s = (s1, z)" by (cases "sm_ensure_cache ops sd s")
  note e = sm_ensure_cache_ok [OF assms(1) 1]
  show "sm_inv sd inv content s'" "sm_view sd content s' = sm_view sd content s"
    using assms(2) 1 e(1,2) by (auto simp: sm_cached_def seq_def split: sum.splits)
  show "x = Inr y \<Longrightarrow> \<exists>m. map_inv me_id m \<and> map_of m = sm_view sd content s \<and> snd (f m) = Inr y"
    using assms(2) 1 e(4) by (cases z) (auto simp: sm_cached_def seq_def)
qed

end

text \<open>The outcome of a write to the storage: an error that changed nothing, or the records of \<open>m\<close>.\<close>

definition sm_wrote :: "mediation_record serde \<Rightarrow> ('s \<Rightarrow> bool) \<Rightarrow> ('s \<Rightarrow> string \<Rightarrow> string \<Rightarrow> storage_record option) \<Rightarrow>
    mediation_map \<Rightarrow> 's stored_mediations \<Rightarrow> 's stored_mediations \<times> (mediation_error + unit) \<Rightarrow> bool" where
  "sm_wrote sd pinv content m s out \<longleftrightarrow> (\<exists>st. fst out = s\<lparr>sm_storage := st\<rparr> \<and> pinv st \<and>
     (case snd out of Inl e \<Rightarrow> content st = content (sm_storage s) | Inr _ \<Rightarrow> sm_view sd content (s\<lparr>sm_storage := st\<rparr>) = map_of m))"

context storage_provider
begin

text \<open>A write: the checks against the cache, the storage, then the cache.\<close>

lemma sm_write:
  assumes inv: "sm_inv sd inv content s"
    and w: "\<And>s1 m. sm_inv sd inv content s1 \<Longrightarrow> map_of m = sm_view sd content s1 \<Longrightarrow> b m \<Longrightarrow>
      sm_wrote sd inv content (g m) s1 (w s1)"
    and g: "\<And>m. map_inv me_id m \<Longrightarrow> map_inv me_id (g m)"
    and run: "seq (sm_ensure_cache ops sd) (\<lambda>m. seq (guard (b m) err) (\<lambda>_. seq w (\<lambda>_. modify (\<lambda>s. s\<lparr>sm_cache := Some (g m)\<rparr>)))) s = (s', x)"
  shows "sm_inv sd inv content s' \<and>
    (case x of Inl e \<Rightarrow> sm_view sd content s' = sm_view sd content s
     | Inr _ \<Rightarrow> \<exists>m. map_of m = sm_view sd content s \<and> b m \<and> sm_view sd content s' = map_of (g m))"
proof -
  obtain s1 z where 1: "sm_ensure_cache ops sd s = (s1, z)" by (cases "sm_ensure_cache ops sd s")
  note e = sm_ensure_cache_ok [OF inv 1]
  consider err' where "z = Inl err'" | m where "z = Inr m" "\<not> b m" | m where "z = Inr m" "b m" by (cases z) auto
  then show ?thesis
  proof cases
    case (3 m)
    note m = e(4) [OF 3(1)]
    then obtain st where st: "fst (w s1) = s1\<lparr>sm_storage := st\<rparr>" "inv st" and
      y: "case snd (w s1) of Inl e \<Rightarrow> content st = content (sm_storage s1) | Inr _ \<Rightarrow> sm_view sd content (s1\<lparr>sm_storage := st\<rparr>) = map_of (g m)"
      using w [OF e(1), of m] 3(2) e(2) by (auto simp: sm_wrote_def)
    show ?thesis
    proof (cases "snd (w s1)")
      case (Inl err')
      then have "s' = s1\<lparr>sm_storage := st\<rparr>" "x = Inl err'" using run 1 3 st(1) by (auto simp: seq_def split: prod.splits)
      then show ?thesis using e(1,2) st(2) y Inl by (simp add: sm_inv_def sm_view_def)
    next
      case (Inr u)
      then have "s' = s1\<lparr>sm_storage := st, sm_cache := Some (g m)\<rparr>" "x = Inr ()" using run 1 3 st(1) by (auto simp: seq_def split: prod.splits)
      moreover have "map_inv me_id (g m)" using g m by blast
      moreover have "sm_view sd content (s1\<lparr>sm_storage := st\<rparr>) = map_of (g m)" using y Inr by simp
      ultimately show ?thesis using st(2) m 3(2) by (simp add: sm_inv_def sm_view_def map_inv_def) blast
    qed
  qed (use run 1 e(1,2) in \<open>auto simp: seq_def\<close>)
qed

lemma sm_persist_wrote:
  assumes sd: "serde_ok sd" and inv: "sm_inv sd inv content s" "map_of m = sm_view sd content s"
  shows "sm_wrote sd inv content (hm_insert (me_id r) r m) s (sm_persist ops sd r s)"
    and "sm_wrote sd inv content (hm_insert (me_id r) r m) s (sm_update_in_storage ops sd r s)"
proof -
  have pinv: "inv (sm_storage s)" using inv(1) by (simp add: sm_inv_def)
  have view: "stored_view sd (content (sm_storage s) MEDIATION_CATEGORY) = map_of m" using inv(2) by (simp add: sm_view_def)
  have put: "sm_view sd content (s\<lparr>sm_storage := st\<rparr>) = map_of (hm_insert (me_id r) r m)"
    if "content st = (content (sm_storage s))(MEDIATION_CATEGORY := (content (sm_storage s) MEDIATION_CATEGORY)(me_id r \<mapsto> sm_record r v))"
      "sd_to_vec sd r = Some v" for st v
    using that by (simp add: sm_view_def stored_view_update [OF sd, of r] view update_conv')
  show "sm_wrote sd inv content (hm_insert (me_id r) r m) s (sm_persist ops sd r s)"
  proof (cases "sd_to_vec sd r")
    case (Some v)
    obtain st y where st: "st_save ops (sm_record r v) (sm_storage s) = (st, y)" by (cases "st_save ops (sm_record r v) (sm_storage s)")
    then show ?thesis
      using save_ok [OF pinv, of "sm_record r v" st] save_err [OF pinv, of "sm_record r v" st] put [OF _ Some, of st] Some
      by (cases y) (auto simp: sm_persist_def sm_wrote_def intro!: exI [of _ st])
  qed (use pinv in \<open>auto simp: sm_persist_def sm_wrote_def intro!: exI [of _ "sm_storage s"]\<close>)
  show "sm_wrote sd inv content (hm_insert (me_id r) r m) s (sm_update_in_storage ops sd r s)"
  proof (cases "sd_to_vec sd r")
    case (Some v)
    obtain st y where st: "st_update ops (sm_record r v) (sm_storage s) = (st, y)" by (cases "st_update ops (sm_record r v) (sm_storage s)")
    then show ?thesis
      using update_ok [OF pinv, of "sm_record r v" st] update_err [OF pinv, of "sm_record r v" st] put [OF _ Some, of st] Some
      by (cases y) (auto simp: sm_update_in_storage_def sm_wrote_def intro!: exI [of _ st])
  qed (use pinv in \<open>auto simp: sm_update_in_storage_def sm_wrote_def intro!: exI [of _ "sm_storage s"]\<close>)
qed

lemma sm_delete_wrote:
  assumes inv: "sm_inv sd inv content s" "map_of m = sm_view sd content s"
  shows "sm_wrote sd inv content (hm_remove i m) s (sm_delete_from_storage ops i s)"
proof -
  have pinv: "inv (sm_storage s)" using inv(1) by (simp add: sm_inv_def)
  obtain st y where st: "st_delete ops MEDIATION_CATEGORY i (sm_storage s) = (st, y)" by (cases "st_delete ops MEDIATION_CATEGORY i (sm_storage s)")
  have "sm_view sd content (s\<lparr>sm_storage := st\<rparr>) = map_of (hm_remove i m)"
    if "content st = (content (sm_storage s))(MEDIATION_CATEGORY := (content (sm_storage s) MEDIATION_CATEGORY)(i := None))"
    using that inv(2) by (simp add: sm_view_def stored_view_delete delete_conv')
  then show ?thesis
    using st delete_ok [OF pinv, of MEDIATION_CATEGORY i st] delete_err [OF pinv, of MEDIATION_CATEGORY i st]
    by (cases y) (auto simp: sm_delete_from_storage_def sm_wrote_def intro!: exI [of _ st])
qed

text \<open>A lookup answers what the in-memory repository answers on the same records.\<close>

lemma sm_lookup:
  assumes "sm_inv sd inv content s" "sm_cached ops sd f s = (s', y)"
    and law: "\<And>m m' v. map_inv me_id m \<Longrightarrow> f m = (m', v) \<Longrightarrow> map_inv me_id m' \<and> map_of m' = map_of m \<and> P (map_of m) v"
    and err: "\<And>V e. P V (Inl e)"
  shows "sm_inv sd inv content s' \<and> sm_view sd content s' = sm_view sd content s \<and> P (sm_view sd content s) y"
proof -
  note c = sm_cached_ok [OF assms(1,2)]
  have "P (sm_view sd content s) y"
  proof (cases y)
    case (Inr v)
    then obtain m where m: "map_inv me_id m" "map_of m = sm_view sd content s" "snd (f m) = Inr v" using c(3) by blast
    then show ?thesis using law [OF m(1) prod.collapse [symmetric]] Inr by simp
  qed (simp add: err)
  then show ?thesis using c(1,2) by blast
qed

text \<open>Over any backend that keeps its contract, the repository keeps its own.\<close>

theorem stored_mediation_repository:
  assumes sd: "serde_ok sd"
  shows "mediation_repository (stored_med_ops ops sd) (sm_inv sd inv content) (sm_view sd content)"
proof
  fix s s' i c st ro and r :: mediation_record and x :: "mediation_error + unit"
    and y :: "mediation_error + mediation_record option" and z :: "mediation_error + mediation_record list"
  assume inv: "sm_inv sd inv content s"
  note ops_defs = stored_med_ops_def memory_med_ops_def
  note law = memory_mediations.find_by_id memory_mediations.find_by_connection_id memory_mediations.find_by_state
    memory_mediations.find_by_role memory_mediations.get_all
  note look = sm_lookup [OF inv]
  show "sm_view sd content s i = Some r \<Longrightarrow> me_id r = i" using inv by (simp add: sm_inv_def)
  show "mo_save (stored_med_ops ops sd) r s = (s', x) \<Longrightarrow> sm_inv sd inv content s' \<and>
      (case x of Inl e \<Rightarrow> sm_view sd content s' = sm_view sd content s
       | Inr _ \<Rightarrow> sm_view sd content s (me_id r) = None \<and> sm_view sd content s' = (sm_view sd content s)(me_id r \<mapsto> r))"
    using sm_write [OF inv sm_persist_wrote(1) [OF sd] map_inv_insert, where b = "\<lambda>m. \<not> hm_contains m (me_id r)"]
    by (fastforce simp: stored_med_ops_def sm_save_def update_conv' split: sum.splits)
  show "mo_update (stored_med_ops ops sd) r s = (s', x) \<Longrightarrow> sm_inv sd inv content s' \<and>
      (case x of Inl e \<Rightarrow> sm_view sd content s' = sm_view sd content s
       | Inr _ \<Rightarrow> sm_view sd content s (me_id r) \<noteq> None \<and> sm_view sd content s' = (sm_view sd content s)(me_id r \<mapsto> r))"
    using sm_write [OF inv sm_persist_wrote(2) [OF sd] map_inv_insert, where b = "\<lambda>m. hm_contains m (me_id r)"]
    by (fastforce simp: stored_med_ops_def sm_update_def update_conv' split: sum.splits)
  show "mo_delete (stored_med_ops ops sd) i s = (s', x) \<Longrightarrow> sm_inv sd inv content s' \<and>
      (case x of Inl e \<Rightarrow> sm_view sd content s' = sm_view sd content s
       | Inr _ \<Rightarrow> sm_view sd content s i \<noteq> None \<and> sm_view sd content s' = (sm_view sd content s)(i := None))"
    using sm_write [OF inv sm_delete_wrote map_inv_remove, where b = "\<lambda>m. hm_contains m i"]
    by (fastforce simp: stored_med_ops_def sm_delete_def delete_conv' split: sum.splits)
  show "mo_find_by_id (stored_med_ops ops sd) i s = (s', y) \<Longrightarrow> sm_inv sd inv content s' \<and> sm_view sd content s' = sm_view sd content s \<and>
      (case y of Inl e \<Rightarrow> True | Inr r \<Rightarrow> r = sm_view sd content s i)"
    by (rule look [where P = "\<lambda>V y. case y of Inl e \<Rightarrow> True | Inr r \<Rightarrow> r = V i"]) (use law(1) in \<open>simp_all add: ops_defs\<close>)
  show "mo_find_by_connection_id (stored_med_ops ops sd) c s = (s', y) \<Longrightarrow> sm_inv sd inv content s' \<and> sm_view sd content s' = sm_view sd content s \<and>
      (case y of Inl e \<Rightarrow> True | Inr None \<Rightarrow> \<forall>i r. sm_view sd content s i = Some r \<longrightarrow> me_connection_id r \<noteq> c
       | Inr (Some r) \<Rightarrow> sm_view sd content s (me_id r) = Some r \<and> me_connection_id r = c)"
    by (rule look [where P = "\<lambda>V y. case y of Inl e \<Rightarrow> True | Inr None \<Rightarrow> \<forall>i r. V i = Some r \<longrightarrow> me_connection_id r \<noteq> c
       | Inr (Some r) \<Rightarrow> V (me_id r) = Some r \<and> me_connection_id r = c"]) (use law(2) in \<open>simp_all add: ops_defs\<close>)
  show "mo_find_by_state (stored_med_ops ops sd) st s = (s', z) \<Longrightarrow> sm_inv sd inv content s' \<and> sm_view sd content s' = sm_view sd content s \<and>
      (case z of Inl e \<Rightarrow> True | Inr rs \<Rightarrow> set rs = {r. \<exists>i. sm_view sd content s i = Some r \<and> me_state r = st})"
    by (rule look [where P = "\<lambda>V z. case z of Inl e \<Rightarrow> True | Inr rs \<Rightarrow> set rs = {r. \<exists>i. V i = Some r \<and> me_state r = st}"])
       (use law(3) in \<open>simp_all add: ops_defs\<close>)
  show "mo_find_by_role (stored_med_ops ops sd) ro s = (s', z) \<Longrightarrow> sm_inv sd inv content s' \<and> sm_view sd content s' = sm_view sd content s \<and>
      (case z of Inl e \<Rightarrow> True | Inr rs \<Rightarrow> set rs = {r. \<exists>i. sm_view sd content s i = Some r \<and> me_role r = ro})"
    by (rule look [where P = "\<lambda>V z. case z of Inl e \<Rightarrow> True | Inr rs \<Rightarrow> set rs = {r. \<exists>i. V i = Some r \<and> me_role r = ro}"])
       (use law(4) in \<open>simp_all add: ops_defs\<close>)
  show "mo_get_all (stored_med_ops ops sd) s = (s', z) \<Longrightarrow> sm_inv sd inv content s' \<and> sm_view sd content s' = sm_view sd content s \<and>
      (case z of Inl e \<Rightarrow> True | Inr rs \<Rightarrow> set rs = ran (sm_view sd content s))"
    by (rule look [where P = "\<lambda>V z. case z of Inl e \<Rightarrow> True | Inr rs \<Rightarrow> set rs = ran V"]) (use law(5) in \<open>simp_all add: ops_defs\<close>)
qed

end

definition sk_view :: "keylist_record serde \<Rightarrow> ('s \<Rightarrow> string \<Rightarrow> string \<Rightarrow> storage_record option) \<Rightarrow>
    's stored_keylists \<Rightarrow> string \<Rightarrow> keylist_record option" where
  "sk_view sd content s = stored_view sd (content (sk_storage s) KEYLIST_CATEGORY)"

definition sk_used :: "keylist_record serde \<Rightarrow> ('s \<Rightarrow> string \<Rightarrow> string \<Rightarrow> storage_record option) \<Rightarrow> 's stored_keylists \<Rightarrow> string set" where
  "sk_used sd content s = dom (sk_view sd content s) \<union> ran (map_of (sk_by_recipient_key s))"

text \<open>The index may keep entries of deleted records, but a record it leads to has the key.\<close>

definition sk_inv :: "keylist_record serde \<Rightarrow> ('s \<Rightarrow> bool) \<Rightarrow> ('s \<Rightarrow> string \<Rightarrow> string \<Rightarrow> storage_record option) \<Rightarrow>
    's stored_keylists \<Rightarrow> bool" where
  "sk_inv sd pinv content s \<longleftrightarrow> pinv (sk_storage s) \<and> (\<forall>i r. sk_view sd content s i = Some r \<longrightarrow> ke_id r = i) \<and>
     (\<forall>i rec r. content (sk_storage s) KEYLIST_CATEGORY i = Some rec \<longrightarrow> sd_from_slice sd (rec_value rec) = Some r \<longrightarrow>
        hm_get (rec_tags rec) ''recipient_key'' = Some (ke_recipient_key r)) \<and>
     (\<forall>m. sk_cache s = Some m \<longrightarrow> hm_wf m \<and> map_of m = sk_view sd content s \<and>
        (\<forall>key i r. hm_get (sk_by_recipient_key s) key = Some i \<longrightarrow> hm_get m i = Some r \<longrightarrow> ke_recipient_key r = key))"

lemma sk_index_get:
  assumes "hm_wf m" "hm_get (sk_index m) key = Some i"
  shows "\<exists>r. hm_get m i = Some r \<and> ke_recipient_key r = key"
proof -
  have "\<exists>r. (i, r) \<in> set m \<and> ke_recipient_key r = key"
    if "hm_get (fold (\<lambda>(i, r). hm_insert (ke_recipient_key r) i) m acc) key = Some i" "hm_get acc key = None" for acc
  proof -
    have "hm_get acc key = Some i \<or> (\<exists>r. (i, r) \<in> set m \<and> ke_recipient_key r = key)"
      using that(1) by (induction m arbitrary: acc) (force split: if_splits)+
    then show ?thesis using that(2) by simp
  qed
  from this [of "[]"] show ?thesis using assms by (simp add: sk_index_def hm_get_iff_mem)
qed

lemma sk_record_fields [simp]:
  "rec_category (sk_record r v) = KEYLIST_CATEGORY" "rec_name (sk_record r v) = ke_id r" "rec_value (sk_record r v) = v"
  "hm_get (rec_tags (sk_record r v)) ''recipient_key'' = Some (ke_recipient_key r)"
  by (simp_all add: sk_record_def record_with_tags_def record_new_def)

context storage_provider
begin

lemma sk_ensure_cache_ok:
  assumes "sk_inv sd inv content s" "sk_ensure_cache ops sd s = (s', x)"
  shows "sk_inv sd inv content s'" "sk_view sd content s' = sk_view sd content s" "sk_storage s' = sk_storage s"
    "sk_used sd content s' \<subseteq> sk_used sd content s"
    "x = Inr m \<Longrightarrow> sk_cache s' = Some m \<and> map_inv ke_id m \<and> map_of m = sk_view sd content s"
proof -
  note inv = assms(1) [unfolded sk_inv_def]
  have load: "hm_get (load_map sd ke_id rs) = sk_view sd content s"
    if "st_find_all ops KEYLIST_CATEGORY query_new (sk_storage s) = Inr rs" for rs
    unfolding sk_view_def by (rule load_map_view [OF _ that]) (use inv in \<open>auto simp: sk_view_def\<close>)
  consider m where "sk_cache s = Some m" "s' = s" "x = Inr m" | e where "s' = s" "x = Inl e"
    | rs where "st_find_all ops KEYLIST_CATEGORY query_new (sk_storage s) = Inr rs" "x = Inr (load_map sd ke_id rs)"
        "s' = s\<lparr>sk_cache := Some (load_map sd ke_id rs), sk_by_recipient_key := sk_index (load_map sd ke_id rs)\<rparr>"
  proof (cases "sk_cache s")
    case None
    then show ?thesis using that(2,3) assms(2)
      by (cases "st_find_all ops KEYLIST_CATEGORY query_new (sk_storage s)") (simp_all add: sk_ensure_cache_def Let_def, metis)
  next
    case (Some m)
    then show ?thesis using that(1) assms(2) by (simp add: sk_ensure_cache_def)
  qed
  then have "sk_inv sd inv content s' \<and> sk_view sd content s' = sk_view sd content s \<and> sk_storage s' = sk_storage s \<and>
    sk_used sd content s' \<subseteq> sk_used sd content s \<and>
    (x = Inr m \<longrightarrow> sk_cache s' = Some m \<and> map_inv ke_id m \<and> map_of m = sk_view sd content s)"
  proof cases
    case 3
    let ?m = "load_map sd ke_id rs"
    have wf: "hm_wf ?m" by (rule load_map_wf)
    have v: "sk_view sd content s' = sk_view sd content s" and st: "sk_storage s' = sk_storage s" using 3(3) by (simp_all add: sk_view_def)
    have "ran (map_of (sk_index ?m)) \<subseteq> dom (sk_view sd content s)"
      using sk_index_get [OF wf] load [OF 3(1)] by (auto simp: ran_def)
    then have used: "sk_used sd content s' \<subseteq> sk_used sd content s" unfolding sk_used_def v using 3(3) by auto
    have m: "map_inv ke_id ?m" using wf load [OF 3(1)] inv by (simp add: map_inv_def)
    have ix: "\<forall>key i r. hm_get (sk_index ?m) key = Some i \<longrightarrow> hm_get ?m i = Some r \<longrightarrow> ke_recipient_key r = key"
      using sk_index_get [OF wf] by fastforce
    have "sk_inv sd inv content s'" unfolding sk_inv_def v st using inv ix wf load [OF 3(1)] 3(3) by simp
    then show ?thesis using 3(2,3) used m v st load [OF 3(1)] by auto
  qed (use assms(1) inv in \<open>auto simp: map_inv_def\<close>)
  then show "sk_inv sd inv content s'" "sk_view sd content s' = sk_view sd content s" "sk_storage s' = sk_storage s"
    "sk_used sd content s' \<subseteq> sk_used sd content s"
    "x = Inr m \<Longrightarrow> sk_cache s' = Some m \<and> map_inv ke_id m \<and> map_of m = sk_view sd content s"
    by blast+
qed

lemma sk_lookup:
  assumes inv: "sk_inv sd inv content s" and run: "sk_cached ops sd f s = (s', y)"
    and law: "\<And>m m' v. map_inv ke_id m \<Longrightarrow> f m = (m', v) \<Longrightarrow>
      map_inv ke_id m' \<and> dom (map_of m') \<subseteq> dom (map_of m) \<and> map_of m' = map_of m \<and> P (map_of m) v"
    and err: "\<And>V e. P V (Inl e)"
  shows "sk_inv sd inv content s' \<and> sk_used sd content s' \<subseteq> sk_used sd content s \<and> sk_view sd content s' = sk_view sd content s \<and>
    P (sk_view sd content s) y"
proof -
  obtain s1 z where 1: "sk_ensure_cache ops sd s = (s1, z)" by (cases "sk_ensure_cache ops sd s")
  note e = sk_ensure_cache_ok [OF inv 1]
  show ?thesis
  proof (cases z)
    case (Inl err')
    then show ?thesis using run 1 e(1,2,4) err by (auto simp: sk_cached_def seq_def)
  next
    case (Inr m)
    then have "s' = s1" "y = snd (f m)" using run 1 by (auto simp: sk_cached_def seq_def)
    then show ?thesis using law [of m, OF _ prod.collapse [symmetric]] e(5) [OF Inr] e(1,2,4) by simp
  qed
qed

end

context storage_provider
begin

lemma sk_save_ok:
  assumes sd: "serde_ok sd" and inv: "sk_inv sd inv content s" and fresh: "ke_id r \<notin> sk_used sd content s"
    and run: "sk_save ops sd r s = (s', x)"
  shows "sk_inv sd inv content s' \<and> sk_used sd content s' \<subseteq> insert (ke_id r) (sk_used sd content s) \<and>
    (case x of Inl e \<Rightarrow> sk_view sd content s' = sk_view sd content s | Inr _ \<Rightarrow> sk_view sd content s' = (sk_view sd content s)(ke_id r \<mapsto> r))"
proof -
  obtain s1 z where 1: "sk_ensure_cache ops sd s = (s1, z)" by (cases "sk_ensure_cache ops sd s")
  note e = sk_ensure_cache_ok [OF inv 1]
  consider err where "z = Inl err" | m where "z = Inr m" "sd_to_vec sd r = None" | m v where "z = Inr m" "sd_to_vec sd r = Some v"
    by (cases z) auto
  then show ?thesis
  proof cases
    case (3 m v)
    note m = e(5) [OF 3(1)]
    have pinv: "inv (sk_storage s1)" using e(1) by (simp add: sk_inv_def)
    obtain st y where st: "st_save ops (sk_record r v) (sk_storage s1) = (st, y)" by (cases "st_save ops (sk_record r v) (sk_storage s1)")
    show ?thesis
    proof (cases y)
      case (Inl err)
      then have "s' = s1\<lparr>sk_storage := st\<rparr>" "\<exists>err'. x = Inl err'"
        using run 1 3 st by (auto simp: sk_save_def seq_def sk_persist_def)
      moreover have "inv st" "content st = content (sk_storage s1)" using save_err [OF pinv] st Inl by auto
      ultimately show ?thesis using e(1,2,4) by (auto simp: sk_inv_def sk_view_def sk_used_def)
    next
      case (Inr u)
      let ?ix = "hm_insert (ke_recipient_key r) (ke_id r) (sk_by_recipient_key s1)"
      have s': "s' = s1\<lparr>sk_storage := st, sk_cache := Some (hm_insert (ke_id r) r m), sk_by_recipient_key := ?ix\<rparr>" "x = Inr ()"
        using run 1 3 st Inr by (auto simp: sk_save_def seq_def sk_persist_def)
      have ok: "inv st" "content st = (content (sk_storage s1))(KEYLIST_CATEGORY := (content (sk_storage s1) KEYLIST_CATEGORY)(ke_id r \<mapsto> sk_record r v))"
        using save_ok [OF pinv, of "sk_record r v" st] st Inr by auto
      have view: "sk_view sd content s' = (sk_view sd content s)(ke_id r \<mapsto> r)"
        using e(2) s' 3(2) by (simp add: sk_view_def ok(2) stored_view_update [OF sd, of r])
      have dangling: "hm_get (sk_by_recipient_key s1) key \<noteq> Some (ke_id r)" for key
        using fresh e(4) by (auto simp: sk_used_def ran_def)
      have tags: "sd_from_slice sd v = Some r" using sd 3(2) by (simp add: serde_ok_def)
      have "sk_inv sd inv content s'"
        unfolding sk_inv_def view using e(1,2) m ok dangling tags s'(1)
        by (simp add: sk_inv_def update_conv' map_inv_def)
      moreover have "sk_used sd content s' \<subseteq> insert (ke_id r) (sk_used sd content s)"
        using e(4) unfolding sk_used_def view e(2) using s'(1) by (auto simp: ran_def split: if_splits)
      ultimately show ?thesis using view s' by simp
    qed
  qed (use run 1 e(1,2,4) in \<open>auto simp: sk_save_def seq_def sk_persist_def\<close>)
qed

text \<open>Records go from the storage and from the cache; the index stays.\<close>

lemma sk_removed_ok:
  assumes inv: "sk_inv sd inv content s1" "sk_cache s1 = Some m"
    and st: "inv st" "content st = (content (sk_storage s1))(KEYLIST_CATEGORY := content (sk_storage s1) KEYLIST_CATEGORY |` (- gone))"
    and m': "hm_wf m'" "map_of m' = (map_of m) |` (- gone)" and s': "s' = s1\<lparr>sk_storage := st, sk_cache := Some m'\<rparr>"
  shows "sk_inv sd inv content s'" "sk_used sd content s' \<subseteq> sk_used sd content s1" "sk_view sd content s' = (sk_view sd content s1) |` (- gone)"
proof -
  show view: "sk_view sd content s' = (sk_view sd content s1) |` (- gone)"
    by (rule ext) (simp add: s' sk_view_def st(2) stored_view_def restrict_map_def)
  show "sk_inv sd inv content s'"
    unfolding sk_inv_def view using inv st m' s' by (auto simp: sk_inv_def restrict_map_def)
  show "sk_used sd content s' \<subseteq> sk_used sd content s1"
    unfolding sk_used_def view using s' by (auto simp: restrict_map_def split: if_splits)
qed

lemma sk_delete_by_recipient_key_ok:
  assumes inv: "sk_inv sd inv content s" and run: "sk_delete_by_recipient_key ops sd i key s = (s', x)"
  shows "sk_inv sd inv content s' \<and> sk_used sd content s' \<subseteq> sk_used sd content s \<and>
    (\<exists>gone. gone \<subseteq> {j. \<exists>r. sk_view sd content s j = Some r \<and> ke_matches i key r} \<and> sk_view sd content s' = (sk_view sd content s) |` (- gone) \<and>
      (case x of Inl e \<Rightarrow> gone = {} | Inr _ \<Rightarrow> (\<exists>j r. sk_view sd content s j = Some r \<and> ke_matches i key r) \<longrightarrow> gone \<noteq> {}))"
proof -
  obtain s1 z where 1: "sk_ensure_cache ops sd s = (s1, z)" by (cases "sk_ensure_cache ops sd s")
  note e = sk_ensure_cache_ok [OF inv 1]
  show ?thesis
  proof (cases z)
    case (Inl err)
    then show ?thesis using run 1 e(1,2,4) by (auto simp: sk_delete_by_recipient_key_def seq_def intro!: exI [of _ "{}"])
  next
    case (Inr m)
    note m = e(5) [OF Inr]
    then have found: "case find (ke_matches i key) (hm_values m) of None \<Rightarrow> \<forall>j r. sk_view sd content s j = Some r \<longrightarrow> \<not> ke_matches i key r
       | Some r \<Rightarrow> sk_view sd content s (ke_id r) = Some r \<and> ke_matches i key r"
      using map_inv_found [of ke_id m "ke_matches i key"] by (simp split: option.splits)
    show ?thesis
    proof (cases "find (ke_matches i key) (hm_values m)")
      case None
      then show ?thesis using run 1 Inr e(1,2,4) found
        by (auto simp: sk_delete_by_recipient_key_def seq_def intro!: exI [of _ "{}"])
    next
      case (Some r)
      with found have r: "sk_view sd content s (ke_id r) = Some r" "ke_matches i key r" by auto
      have pinv: "inv (sk_storage s1)" using e(1) by (simp add: sk_inv_def)
      obtain st y where st: "st_delete ops KEYLIST_CATEGORY (ke_id r) (sk_storage s1) = (st, y)"
        by (cases "st_delete ops KEYLIST_CATEGORY (ke_id r) (sk_storage s1)")
      show ?thesis
      proof (cases y)
        case (Inl err)
        then have "s' = s1\<lparr>sk_storage := st\<rparr>" "\<exists>err'. x = Inl err'"
          using run 1 \<open>z = Inr m\<close> Some st by (auto simp: sk_delete_by_recipient_key_def seq_def sk_delete_from_storage_def)
        moreover have "inv st" "content st = content (sk_storage s1)" using delete_err [OF pinv] st Inl by auto
        ultimately show ?thesis using e(1,2,4) by (auto simp: sk_inv_def sk_view_def sk_used_def intro!: exI [of _ "{}"])
      next
        case (Inr u)
        have s': "s' = s1\<lparr>sk_storage := st, sk_cache := Some (hm_remove (ke_id r) m)\<rparr>" "x = Inr ()"
          using run 1 \<open>z = Inr m\<close> Some st Inr by (auto simp: sk_delete_by_recipient_key_def seq_def sk_delete_from_storage_def)
        have d: "inv st" "content st = (content (sk_storage s1))(KEYLIST_CATEGORY := content (sk_storage s1) KEYLIST_CATEGORY |` (- {ke_id r}))"
          using delete_ok [OF pinv] st Inr by (auto simp: restrict_map_def fun_upd_def fun_eq_iff)
        have m': "hm_wf (hm_remove (ke_id r) m)" "map_of (hm_remove (ke_id r) m) = (map_of m) |` (- {ke_id r})"
          using m by (auto simp: map_inv_def delete_conv' restrict_map_def fun_eq_iff)
        note rem = sk_removed_ok [OF e(1) _ d m' s'(1)]
        show ?thesis using rem m e(2,4) r s'(2) by (intro conjI exI [of _ "{ke_id r}"]) auto
      qed
    qed
  qed
qed

end

context storage_provider
begin

lemma sk_delete_ids_ok:
  assumes "inv (sk_storage s)" "sk_delete_ids ops js s = (s', Inr ())"
  shows "\<exists>st. s' = s\<lparr>sk_storage := st\<rparr> \<and> inv st \<and>
    content st = (content (sk_storage s))(KEYLIST_CATEGORY := content (sk_storage s) KEYLIST_CATEGORY |` (- set js))"
  using assms
proof (induction js arbitrary: s)
  case Nil
  then show ?case by (auto intro!: exI [of _ "sk_storage s"])
next
  case (Cons i js)
  obtain st y where st: "st_delete ops KEYLIST_CATEGORY i (sk_storage s) = (st, y)" by (cases "st_delete ops KEYLIST_CATEGORY i (sk_storage s)")
  have y: "y = Inr ()" "sk_delete_ids ops js (s\<lparr>sk_storage := st\<rparr>) = (s', Inr ())"
    using Cons.prems(2) st by (cases y; simp add: seq_def sk_delete_from_storage_def)+
  have d: "inv st" "content st = (content (sk_storage s))(KEYLIST_CATEGORY := (content (sk_storage s) KEYLIST_CATEGORY)(i := None))"
    using delete_ok [OF Cons.prems(1)] st y(1) by auto
  have "\<exists>st'. s' = s\<lparr>sk_storage := st'\<rparr> \<and> inv st' \<and>
    content st' = (content st)(KEYLIST_CATEGORY := content st KEYLIST_CATEGORY |` (- set js))"
    using Cons.IH [OF _ y(2)] d(1) by (simp add: fun_upd_def)
  then obtain st' where st': "s' = s\<lparr>sk_storage := st'\<rparr>" "inv st'"
    "content st' = (content st)(KEYLIST_CATEGORY := content st KEYLIST_CATEGORY |` (- set js))" by blast
  have "content st' = (content (sk_storage s))(KEYLIST_CATEGORY := content (sk_storage s) KEYLIST_CATEGORY |` (- set (i # js)))"
    using st'(3) d(2) by (auto simp: restrict_map_def fun_eq_iff)
  then show ?case using st'(1,2) by blast
qed

lemma sk_delete_by_mediation_id_ok:
  assumes inv: "sk_inv sd inv content s" and run: "sk_delete_by_mediation_id ops sd i s = (s', Inr ())"
  shows "sk_inv sd inv content s' \<and> sk_used sd content s' \<subseteq> sk_used sd content s \<and>
    sk_view sd content s' = (sk_view sd content s) |` {j. \<forall>r. sk_view sd content s j = Some r \<longrightarrow> ke_mediation_id r \<noteq> i}"
proof -
  obtain s1 m where 1: "sk_ensure_cache ops sd s = (s1, Inr m)" using run
    by (auto simp: sk_delete_by_mediation_id_def elim!: seq_Inr)
  note e = sk_ensure_cache_ok [OF inv 1]
  note m = e(5) [OF refl]
  define js where "js = map ke_id (filter (\<lambda>r. ke_mediation_id r = i) (hm_values m))"
  have ids: "set js = {j. \<exists>r. sk_view sd content s j = Some r \<and> ke_mediation_id r = i}"
    using m map_inv_ran [of ke_id m] by (auto simp: js_def map_inv_def image_iff) metis
  obtain s2 where 2: "sk_delete_ids ops js s1 = (s2, Inr ())" and s': "s' = s2\<lparr>sk_cache := Some (fold hm_remove js m)\<rparr>"
    using run 1 unfolding sk_delete_by_mediation_id_def Let_def js_def by (auto simp: seq_def split: prod.splits sum.splits)
  obtain st where st: "s2 = s1\<lparr>sk_storage := st\<rparr>" "inv st"
    "content st = (content (sk_storage s1))(KEYLIST_CATEGORY := content (sk_storage s1) KEYLIST_CATEGORY |` (- set js))"
    using sk_delete_ids_ok [OF _ 2] e(1) by (auto simp: sk_inv_def)
  have m': "hm_wf (fold hm_remove js m)" "map_of (fold hm_remove js m) = (map_of m) |` (- set js)"
    using m hm_remove_all [where m = m] by (auto simp: map_inv_def restrict_map_def fun_eq_iff)
  have s'': "s' = s1\<lparr>sk_storage := st, sk_cache := Some (fold hm_remove js m)\<rparr>" using s' st(1) by simp
  note rem = sk_removed_ok [OF e(1) _ st(2,3) m' s'']
  have "(sk_view sd content s) |` (- set js) = (sk_view sd content s) |` {j. \<forall>r. sk_view sd content s j = Some r \<longrightarrow> ke_mediation_id r \<noteq> i}"
    unfolding ids by (rule ext) (auto simp: restrict_map_def)
  then show ?thesis using rem m e(2,4) by auto
qed

end

context tagged_provider
begin

lemma sk_query_ok:
  assumes inv: "sk_inv sd inv content s" and run: "sk_query ops sd key s = (s', y)"
  shows "sk_inv sd inv content s' \<and> sk_used sd content s' \<subseteq> sk_used sd content s \<and> sk_view sd content s' = sk_view sd content s \<and>
    (case y of Inl e \<Rightarrow> True | Inr None \<Rightarrow> \<forall>j r. sk_view sd content s j = Some r \<longrightarrow> ke_recipient_key r \<noteq> key
     | Inr (Some r) \<Rightarrow> sk_view sd content s (ke_id r) = Some r \<and> ke_recipient_key r = key)"
proof (cases "st_find_all ops KEYLIST_CATEGORY (query_with_tag ''recipient_key'' key query_new) (sk_storage s)")
  case (Inl e)
  then show ?thesis using inv run by (auto simp: sk_query_def)
next
  case (Inr rs)
  note i = inv [unfolded sk_inv_def]
  have hit: "content (sk_storage s) KEYLIST_CATEGORY n = Some rec \<and> hm_get (rec_tags rec) ''recipient_key'' = Some key \<longleftrightarrow> rec \<in> set rs \<and> rec_name rec = n" for n rec
    using find_tag_ok [OF _ Inr] i by blast
  show ?thesis
  proof (cases rs)
    case Nil
    then have "ke_recipient_key r \<noteq> key" if view: "sk_view sd content s j = Some r" for j r
    proof -
      obtain rec where rec: "content (sk_storage s) KEYLIST_CATEGORY j = Some rec" "sd_from_slice sd (rec_value rec) = Some r"
        using view by (auto simp: sk_view_def stored_view_def bind_eq_Some_conv)
      then have "hm_get (rec_tags rec) ''recipient_key'' = Some (ke_recipient_key r)" using i by blast
      then show ?thesis using hit [of j rec] rec(1) Nil by auto
    qed
    then show ?thesis using inv run Inr Nil by (auto simp: sk_query_def)
  next
    case (Cons rec rs')
    show ?thesis
    proof (cases "sd_from_slice sd (rec_value rec)")
      case None
      then show ?thesis using inv run Inr Cons by (auto simp: sk_query_def)
    next
      case (Some r)
      have c: "content (sk_storage s) KEYLIST_CATEGORY (rec_name rec) = Some rec" "hm_get (rec_tags rec) ''recipient_key'' = Some key"
        using hit [of "rec_name rec" rec] Cons by auto
      then have v: "sk_view sd content s (rec_name rec) = Some r" using Some by (simp add: sk_view_def stored_view_def)
      then have id_eq: "ke_id r = rec_name rec" using i by blast
      have "hm_get (rec_tags rec) ''recipient_key'' = Some (ke_recipient_key r)" using i c(1) Some by blast
      then have key: "ke_recipient_key r = key" using c(2) by simp
      have s': "s' = s\<lparr>sk_cache := map_option (hm_insert (ke_id r) r) (sk_cache s)\<rparr>" "y = Inr (Some r)"
        using run Inr Cons Some by (auto simp: sk_query_def)
      have same: "map_of (hm_insert (ke_id r) r m) = map_of m" if "sk_cache s = Some m" for m
        using that i v id_eq by (auto simp: fun_eq_iff)
      have view: "sk_view sd content s' = sk_view sd content s" using s' by (simp add: sk_view_def)
      have "sk_inv sd inv content s'"
        unfolding sk_inv_def view using i same s'(1) by (cases "sk_cache s") auto
      then show ?thesis using view v id_eq key s' by (auto simp: sk_used_def sk_view_def)
    qed
  qed
qed

end

context tagged_provider
begin

lemma sk_find_mediation_ok:
  assumes inv: "sk_inv sd inv content s" and run: "sk_find_mediation_for_recipient_key ops sd key s = (s', y)"
  shows "sk_inv sd inv content s' \<and> sk_used sd content s' \<subseteq> sk_used sd content s \<and> sk_view sd content s' = sk_view sd content s \<and>
    (case y of Inl e \<Rightarrow> True | Inr None \<Rightarrow> \<forall>j r. sk_view sd content s j = Some r \<longrightarrow> ke_recipient_key r \<noteq> key
     | Inr (Some r) \<Rightarrow> sk_view sd content s (ke_id r) = Some r \<and> ke_recipient_key r = key)"
proof -
  obtain s1 z where 1: "sk_ensure_cache ops sd s = (s1, z)" by (cases "sk_ensure_cache ops sd s")
  note e = sk_ensure_cache_ok [OF inv 1]
  show ?thesis
  proof (cases z)
    case (Inl err)
    then show ?thesis using run 1 e(1,2,4) by (auto simp: sk_find_mediation_for_recipient_key_def seq_def)
  next
    case (Inr m)
    note m = e(5) [OF Inr]
    show ?thesis
    proof (cases "Option.bind (hm_get (sk_by_recipient_key s1) key) (hm_get m)")
      case None
      then have "sk_query ops sd key s1 = (s', y)" using run 1 Inr by (simp add: sk_find_mediation_for_recipient_key_def seq_def)
      from sk_query_ok [OF e(1) this] show ?thesis unfolding e(2) using e(4) by blast
    next
      case (Some r)
      then obtain i where i: "hm_get (sk_by_recipient_key s1) key = Some i" "hm_get m i = Some r" by (auto simp: bind_eq_Some_conv)
      have "ke_recipient_key r = key" using e(1) m i unfolding sk_inv_def by blast
      moreover have "sk_view sd content s (ke_id r) = Some r" using m i(2) by (auto simp: map_inv_def)
      moreover have "s' = s1" "y = Inr (Some r)" using run 1 Inr Some by (auto simp: sk_find_mediation_for_recipient_key_def seq_def)
      ultimately show ?thesis using e(1,2,4) by simp
    qed
  qed
qed

text \<open>Over any backend that also answers queries by tag, the keylist repository keeps its contract.\<close>

theorem stored_keylist_repository:
  assumes sd: "serde_ok sd"
  shows "keylist_repository (stored_key_ops ops sd) (sk_inv sd inv content) (sk_view sd content) (sk_used sd content)"
proof
  fix s s' i key and r :: keylist_record and x :: "mediation_error + unit"
    and y :: "mediation_error + keylist_record option" and z :: "mediation_error + keylist_record list"
  assume inv: "sk_inv sd inv content s"
  note ops_defs = stored_key_ops_def memory_key_ops_def
  note law = memory_keylists.find_by_mediation_id memory_keylists.find_by_recipient_key memory_keylists.get_all
  show "sk_view sd content s i = Some r \<Longrightarrow> ke_id r = i" using inv by (simp add: sk_inv_def)
  show "dom (sk_view sd content s) \<subseteq> sk_used sd content s" by (simp add: sk_used_def)
  show "ke_id r \<notin> sk_used sd content s \<Longrightarrow> ko_save (stored_key_ops ops sd) r s = (s', x) \<Longrightarrow>
      sk_inv sd inv content s' \<and> sk_used sd content s' \<subseteq> insert (ke_id r) (sk_used sd content s) \<and>
      (case x of Inl e \<Rightarrow> sk_view sd content s' = sk_view sd content s | Inr _ \<Rightarrow> sk_view sd content s' = (sk_view sd content s)(ke_id r \<mapsto> r))"
    by (rule sk_save_ok [OF sd inv]) (simp_all add: stored_key_ops_def)
  show "ko_delete_by_recipient_key (stored_key_ops ops sd) i key s = (s', x) \<Longrightarrow>
      sk_inv sd inv content s' \<and> sk_used sd content s' \<subseteq> sk_used sd content s \<and>
      (\<exists>gone. gone \<subseteq> {j. \<exists>r. sk_view sd content s j = Some r \<and> ke_matches i key r} \<and> sk_view sd content s' = (sk_view sd content s) |` (- gone) \<and>
        (case x of Inl e \<Rightarrow> gone = {} | Inr _ \<Rightarrow> (\<exists>j r. sk_view sd content s j = Some r \<and> ke_matches i key r) \<longrightarrow> gone \<noteq> {}))"
    by (rule sk_delete_by_recipient_key_ok [OF inv]) (simp add: stored_key_ops_def)
  show "ko_delete_by_mediation_id (stored_key_ops ops sd) i s = (s', Inr ()) \<Longrightarrow>
      sk_inv sd inv content s' \<and> sk_used sd content s' \<subseteq> sk_used sd content s \<and>
      sk_view sd content s' = (sk_view sd content s) |` {j. \<forall>r. sk_view sd content s j = Some r \<longrightarrow> ke_mediation_id r \<noteq> i}"
    by (rule sk_delete_by_mediation_id_ok [OF inv]) (simp add: stored_key_ops_def)
  show "ko_find_by_mediation_id (stored_key_ops ops sd) i s = (s', z) \<Longrightarrow>
      sk_inv sd inv content s' \<and> sk_used sd content s' \<subseteq> sk_used sd content s \<and> sk_view sd content s' = sk_view sd content s \<and>
      (case z of Inl e \<Rightarrow> True | Inr rs \<Rightarrow> set rs = {r. \<exists>j. sk_view sd content s j = Some r \<and> ke_mediation_id r = i})"
    by (rule sk_lookup [OF inv, where P = "\<lambda>V z. case z of Inl e \<Rightarrow> True | Inr rs \<Rightarrow> set rs = {r. \<exists>j. V j = Some r \<and> ke_mediation_id r = i}"])
       (use law(1) in \<open>simp_all add: ops_defs\<close>)
  show "ko_find_by_recipient_key (stored_key_ops ops sd) i key s = (s', y) \<Longrightarrow>
      sk_inv sd inv content s' \<and> sk_used sd content s' \<subseteq> sk_used sd content s \<and> sk_view sd content s' = sk_view sd content s \<and>
      (case y of Inl e \<Rightarrow> True | Inr None \<Rightarrow> \<forall>j r. sk_view sd content s j = Some r \<longrightarrow> \<not> ke_matches i key r
       | Inr (Some r) \<Rightarrow> sk_view sd content s (ke_id r) = Some r \<and> ke_matches i key r)"
    by (rule sk_lookup [OF inv, where P = "\<lambda>V y. case y of Inl e \<Rightarrow> True | Inr None \<Rightarrow> \<forall>j r. V j = Some r \<longrightarrow> \<not> ke_matches i key r
       | Inr (Some r) \<Rightarrow> V (ke_id r) = Some r \<and> ke_matches i key r"])
       (use law(2) in \<open>simp_all add: ops_defs\<close>)
  show "ko_get_all (stored_key_ops ops sd) s = (s', z) \<Longrightarrow>
      sk_inv sd inv content s' \<and> sk_used sd content s' \<subseteq> sk_used sd content s \<and> sk_view sd content s' = sk_view sd content s \<and>
      (case z of Inl e \<Rightarrow> True | Inr rs \<Rightarrow> set rs = ran (sk_view sd content s))"
    by (rule sk_lookup [OF inv, where P = "\<lambda>V z. case z of Inl e \<Rightarrow> True | Inr rs \<Rightarrow> set rs = ran V"])
       (use law(3) in \<open>simp_all add: ops_defs\<close>)
  show "ko_find_mediation_for_recipient_key (stored_key_ops ops sd) key s = (s', y) \<Longrightarrow>
      sk_inv sd inv content s' \<and> sk_used sd content s' \<subseteq> sk_used sd content s \<and> sk_view sd content s' = sk_view sd content s \<and>
      (case y of Inl e \<Rightarrow> True | Inr None \<Rightarrow> \<forall>j r. sk_view sd content s j = Some r \<longrightarrow> ke_recipient_key r \<noteq> key
       | Inr (Some r) \<Rightarrow> sk_view sd content s (ke_id r) = Some r \<and> ke_recipient_key r = key)"
    by (rule sk_find_mediation_ok [OF inv]) (simp add: stored_key_ops_def)
qed

end

text \<open>Both on the in-memory backend.\<close>

lemmas stored_on_memory = memory.stored_mediation_repository tagged_memory.stored_keylist_repository

end
