(* ===== verification/Mediation_Service.thy ===== *)
theory Mediation_Service
  imports Mediation_Repository Didcomm_Message
begin

text \<open>
  The services and message handlers of the mediation protocol, on the mediator's side
  (\<open>services/mediator_service.rs\<close>, the request and keylist-update handlers) and on the recipient's
  (\<open>services/mediation_recipient_service.rs\<close>, the grant, deny and keylist-response handlers), of
  \<open>protocols/coordinate_mediation/src\<close>. Both hold the two repositories and an optional event bus;
  the events they emit are recorded in order. Base58, the JSON forms that \<open>serde\<close> derives, UUIDs and
  the clock are arguments.
\<close>

section \<open>Messages\<close>

record keylist_update =
  ku_recipient_key :: string
  ku_action :: keylist_action

record keylist_updated =
  kd_recipient_key :: string
  kd_action :: keylist_action
  kd_result :: keylist_result

record mediation_request_message =
  mq_msg_type :: string
  mq_msg_id :: string

record mediation_grant_message =
  mg_msg_type :: string
  mg_id :: string
  mg_thread :: thread
  mg_endpoint :: string
  mg_routing_keys :: "string list"

record mediation_deny_message =
  my_msg_type :: string
  my_id :: string
  my_thread :: thread

record keylist_update_message =
  km_msg_type :: string
  km_id :: string
  km_updates :: "keylist_update list"

record keylist_update_response =
  kr_msg_type :: string
  kr_id :: string
  kr_thread :: thread
  kr_updated :: "keylist_updated list"

definition reply_thread :: "string \<Rightarrow> thread" where
  "reply_thread thread_id = \<lparr>th_thid = Some thread_id, th_pthid = None, th_sender_order = None, th_received_orders = None\<rparr>"

definition mediation_request_new :: "string \<Rightarrow> mediation_request_message" where
  "mediation_request_new uuid = \<lparr>mq_msg_type = ''https://didcomm.org/coordinate-mediation/1.0/mediate-request'', mq_msg_id = uuid\<rparr>"

definition mediation_grant_new :: "string \<Rightarrow> string \<Rightarrow> string \<Rightarrow> string list \<Rightarrow> mediation_grant_message" where
  "mediation_grant_new uuid thread_id endpoint routing_keys =
     \<lparr>mg_msg_type = ''https://didcomm.org/coordinate-mediation/1.0/mediate-grant'', mg_id = uuid, mg_thread = reply_thread thread_id,
      mg_endpoint = endpoint, mg_routing_keys = routing_keys\<rparr>"

definition mediation_deny_new :: "string \<Rightarrow> string \<Rightarrow> mediation_deny_message" where
  "mediation_deny_new uuid thread_id =
     \<lparr>my_msg_type = ''https://didcomm.org/coordinate-mediation/1.0/mediate-deny'', my_id = uuid, my_thread = reply_thread thread_id\<rparr>"

definition keylist_update_message_new :: "string \<Rightarrow> keylist_update list \<Rightarrow> keylist_update_message" where
  "keylist_update_message_new uuid updates =
     \<lparr>km_msg_type = ''https://didcomm.org/coordinate-mediation/1.0/keylist-update'', km_id = uuid, km_updates = updates\<rparr>"

definition keylist_update_response_new :: "string \<Rightarrow> string \<Rightarrow> keylist_updated list \<Rightarrow> keylist_update_response" where
  "keylist_update_response_new uuid thread_id updated =
     \<lparr>kr_msg_type = ''https://didcomm.org/coordinate-mediation/1.0/keylist-update-response'', kr_id = uuid,
      kr_thread = reply_thread thread_id, kr_updated = updated\<rparr>"

definition updated_success :: "string \<Rightarrow> keylist_action \<Rightarrow> keylist_updated" where
  "updated_success key action = \<lparr>kd_recipient_key = key, kd_action = action, kd_result = KeySuccess\<rparr>"

definition updated_server_error :: "string \<Rightarrow> keylist_action \<Rightarrow> keylist_updated" where
  "updated_server_error key action = \<lparr>kd_recipient_key = key, kd_action = action, kd_result = KeyServerError\<rparr>"

datatype mediation_event =
    MediationStateChanged mediation_record "mediation_state option"
  | KeylistUpdatedEvent string "string list" "string list"
  | RoutingCreated mediation_record

section \<open>State\<close>

record ('m, 'k) mediation_service =
  ms_mediations :: 'm
  ms_keylists :: 'k
  ms_has_bus :: bool
  ms_events :: "mediation_event list"

type_synonym ('m, 'k, 'a) ms_prog = "(('m, 'k) mediation_service, mediation_error, 'a) prog"

definition on_mediations :: "('m, mediation_error, 'a) prog \<Rightarrow> ('m, 'k, 'a) ms_prog" where
  "on_mediations f s = (case f (ms_mediations s) of (m, x) \<Rightarrow> (s\<lparr>ms_mediations := m\<rparr>, x))"

definition on_keylists :: "('k, mediation_error, 'a) prog \<Rightarrow> ('m, 'k, 'a) ms_prog" where
  "on_keylists f s = (case f (ms_keylists s) of (k, x) \<Rightarrow> (s\<lparr>ms_keylists := k\<rparr>, x))"

text \<open>The result of \<open>emit\<close> is dropped.\<close>

definition ms_emit :: "mediation_event \<Rightarrow> ('m, 'k, unit) ms_prog" where
  "ms_emit e = modify (\<lambda>s. if ms_has_bus s then s\<lparr>ms_events := ms_events s @ [e]\<rparr> else s)"

definition ms_state_changed :: "mediation_record \<Rightarrow> mediation_state option \<Rightarrow> ('m, 'k, unit) ms_prog" where
  "ms_state_changed r prev = ms_emit (MediationStateChanged r prev)"

section \<open>The mediator\<close>

record mediator_config =
  mc_endpoint :: string
  mc_routing_keys :: "string list"

record base58 =
  b58_decode :: "string \<Rightarrow> bytes option"
  b58_encode :: "bytes \<Rightarrow> string"

definition strip_prefix :: "string \<Rightarrow> string \<Rightarrow> string option" where
  "strip_prefix p x = (if take (length p) x = p then Some (drop (length p) x) else None)"

text \<open>An Ed25519 \<open>did:key\<close> becomes the bare base58 key; anything else stays.\<close>

definition canonicalize_recipient_key :: "base58 \<Rightarrow> string \<Rightarrow> string" where
  "canonicalize_recipient_key b58 recipient_key =
     (case strip_prefix ''did:key:z'' recipient_key of
        None \<Rightarrow> recipient_key
      | Some stripped \<Rightarrow>
          (case b58_decode b58 stripped of
             None \<Rightarrow> recipient_key
           | Some decoded \<Rightarrow>
               if length decoded = 34 \<and> decoded ! 0 = 0xed \<and> decoded ! 1 = 0x01 then b58_encode b58 (drop 2 decoded) else recipient_key))"

definition process_request :: "'m med_ops \<Rightarrow> string \<Rightarrow> timestamp \<Rightarrow> string \<Rightarrow> ('m, 'k, mediation_record) ms_prog" where
  "process_request mops uuid now connection_id =
     (let r = mediation_record_new uuid now connection_id RoleMediator
      in seq (on_mediations (mo_save mops r)) (\<lambda>_.
         seq (ms_state_changed r None) (\<lambda>_. ok r)))"

definition grant_mediation ::
  "'m med_ops \<Rightarrow> mediator_config \<Rightarrow> string \<Rightarrow> string \<Rightarrow> string \<Rightarrow> ('m, 'k, mediation_record \<times> mediation_grant_message) ms_prog" where
  "grant_mediation mops cfg uuid mediation_id thread_id =
     seq (on_mediations (mo_find_by_id mops mediation_id)) (\<lambda>found.
     seq (result (ok_or (MedNotFound mediation_id) found)) (\<lambda>r.
     seq (guard (is_valid_transition_from MedGranted (me_state r)) (MedInvalidStateTransition (me_state r) MedGranted)) (\<lambda>_.
     let r' = r\<lparr>me_state := MedGranted, me_endpoint := Some (mc_endpoint cfg), me_routing_keys := mc_routing_keys cfg\<rparr>
     in seq (on_mediations (mo_update mops r')) (\<lambda>_.
        seq (ms_state_changed r' (Some (me_state r))) (\<lambda>_.
        ok (r', mediation_grant_new uuid thread_id (mc_endpoint cfg) (mc_routing_keys cfg)))))))"

definition deny_mediation ::
  "'m med_ops \<Rightarrow> string \<Rightarrow> string \<Rightarrow> string \<Rightarrow> ('m, 'k, mediation_record \<times> mediation_deny_message) ms_prog" where
  "deny_mediation mops uuid mediation_id thread_id =
     seq (on_mediations (mo_find_by_id mops mediation_id)) (\<lambda>found.
     seq (result (ok_or (MedNotFound mediation_id) found)) (\<lambda>r.
     seq (guard (is_valid_transition_from MedDenied (me_state r)) (MedInvalidStateTransition (me_state r) MedDenied)) (\<lambda>_.
     let r' = r\<lparr>me_state := MedDenied\<rparr>
     in seq (on_mediations (mo_update mops r')) (\<lambda>_.
        seq (ms_state_changed r' (Some (me_state r))) (\<lambda>_.
        ok (r', mediation_deny_new uuid thread_id))))))"

text \<open>The loop over the records that hold the key for another mediation.\<close>

fun move_stale :: "'m med_ops \<Rightarrow> 'k key_ops \<Rightarrow> string \<Rightarrow> string option \<Rightarrow> keylist_record list \<Rightarrow> ('m, 'k, unit) ms_prog" where
  "move_stale mops kops key new_conn [] = ok ()"
| "move_stale mops kops key new_conn (r # stale) =
     seq (on_mediations (mo_find_by_id mops (ke_mediation_id r))) (\<lambda>old.
     let old_conn = map_option me_connection_id old
     in seq (guard (\<not> (old_conn \<noteq> None \<and> new_conn \<noteq> None \<and> old_conn \<noteq> new_conn))
               (MedKeylistUpdateFailed ''recipient key is registered to a different connection'')) (\<lambda>_.
        seq (on_keylists (ko_delete_by_recipient_key kops (ke_mediation_id r) key)) (\<lambda>_.
        move_stale mops kops key new_conn stale)))"

definition keylist_add ::
  "'m med_ops \<Rightarrow> 'k key_ops \<Rightarrow> string \<Rightarrow> timestamp \<Rightarrow> string \<Rightarrow> string \<Rightarrow> ('m, 'k, unit) ms_prog" where
  "keylist_add mops kops uuid now mediation_id key =
     seq (on_mediations (mo_find_by_id mops mediation_id)) (\<lambda>new.
     let new_conn = map_option me_connection_id new
     in seq (on_keylists (ko_get_all kops)) (\<lambda>all.
        seq (move_stale mops kops key new_conn
              (filter (\<lambda>r. ke_recipient_key r = key \<and> ke_mediation_id r \<noteq> mediation_id) all)) (\<lambda>_.
        seq (on_keylists (ko_find_by_recipient_key kops mediation_id key)) (\<lambda>existing.
        case existing of
          Some _ \<Rightarrow> ok ()
        | None \<Rightarrow> on_keylists (ko_save kops (keylist_record_new uuid now mediation_id key KeyAdd KeySuccess))))))"

definition process_single_keylist_update ::
  "'m med_ops \<Rightarrow> 'k key_ops \<Rightarrow> base58 \<Rightarrow> string \<Rightarrow> timestamp \<Rightarrow> string \<Rightarrow> keylist_update \<Rightarrow> ('m, 'k, unit) ms_prog" where
  "process_single_keylist_update mops kops b58 uuid now mediation_id update =
     (let key = canonicalize_recipient_key b58 (ku_recipient_key update)
      in case ku_action update of
           KeyAdd \<Rightarrow> keylist_add mops kops uuid now mediation_id key
         | KeyRemove \<Rightarrow> on_keylists (ko_delete_by_recipient_key kops mediation_id key))"

text \<open>Each update is tried; a failure becomes a server error in the answer. \<open>uuid i\<close> is the id drawn for update \<open>i\<close>.\<close>

fun keylist_updates_loop ::
  "'m med_ops \<Rightarrow> 'k key_ops \<Rightarrow> base58 \<Rightarrow> (nat \<Rightarrow> string) \<Rightarrow> timestamp \<Rightarrow> string \<Rightarrow> nat \<Rightarrow> keylist_update list \<Rightarrow> ('m, 'k) mediation_service \<Rightarrow>
     ('m, 'k) mediation_service \<times> keylist_updated list" where
  "keylist_updates_loop mops kops b58 uuid now mediation_id i [] s = (s, [])"
| "keylist_updates_loop mops kops b58 uuid now mediation_id i (u # updates) s =
     (case process_single_keylist_update mops kops b58 (uuid i) now mediation_id u s of
        (s1, x) \<Rightarrow>
          let updated = (case x of Inr _ \<Rightarrow> updated_success (ku_recipient_key u) (ku_action u)
                                 | Inl _ \<Rightarrow> updated_server_error (ku_recipient_key u) (ku_action u))
          in (case keylist_updates_loop mops kops b58 uuid now mediation_id (Suc i) updates s1 of (s2, rs) \<Rightarrow> (s2, updated # rs)))"

definition changed_keys :: "keylist_action \<Rightarrow> keylist_updated list \<Rightarrow> string list" where
  "changed_keys action results = map kd_recipient_key (filter (\<lambda>r. kd_result r = KeySuccess \<and> kd_action r = action) results)"

definition process_keylist_updates ::
  "'m med_ops \<Rightarrow> 'k key_ops \<Rightarrow> base58 \<Rightarrow> (nat \<Rightarrow> string) \<Rightarrow> timestamp \<Rightarrow> string \<Rightarrow> keylist_update list \<Rightarrow> ('m, 'k, keylist_updated list) ms_prog" where
  "process_keylist_updates mops kops b58 uuid now mediation_id updates s =
     (case keylist_updates_loop mops kops b58 uuid now mediation_id 0 updates s of
        (s, results) \<Rightarrow>
          let keys_added = changed_keys KeyAdd results;
              keys_removed = changed_keys KeyRemove results;
              s = (if keys_added \<noteq> [] \<or> keys_removed \<noteq> [] then fst (ms_emit (KeylistUpdatedEvent mediation_id keys_added keys_removed) s :: _ \<times> (mediation_error + unit)) else s)
          in (s, Inr results))"

definition mediator_get_keylist :: "'k key_ops \<Rightarrow> string \<Rightarrow> ('m, 'k, keylist_record list) ms_prog" where
  "mediator_get_keylist kops mediation_id = on_keylists (ko_find_by_mediation_id kops mediation_id)"

definition is_key_in_keylist :: "'k key_ops \<Rightarrow> string \<Rightarrow> string \<Rightarrow> ('m, 'k, bool) ms_prog" where
  "is_key_in_keylist kops mediation_id recipient_key =
     seq (on_keylists (ko_find_by_recipient_key kops mediation_id recipient_key)) (\<lambda>x. ok (x \<noteq> None))"

definition get_all_granted :: "'m med_ops \<Rightarrow> ('m, 'k, mediation_record list) ms_prog" where
  "get_all_granted mops = on_mediations (mo_find_all_granted mops)"

section \<open>The recipient\<close>

definition create_request :: "'m med_ops \<Rightarrow> string \<Rightarrow> string \<Rightarrow> timestamp \<Rightarrow> string \<Rightarrow> ('m, 'k, mediation_record \<times> mediation_request_message) ms_prog" where
  "create_request mops uuid uuid' now connection_id =
     (let r = mediation_record_new uuid now connection_id RoleRecipient
      in seq (on_mediations (mo_save mops r)) (\<lambda>_.
         seq (ms_state_changed r None) (\<lambda>_. ok (r, mediation_request_new uuid'))))"

text \<open>Waiters for the grant are woken before the events go out; the wake-up is not modelled.\<close>

definition process_grant :: "'m med_ops \<Rightarrow> string \<Rightarrow> mediation_grant_message \<Rightarrow> ('m, 'k, mediation_record) ms_prog" where
  "process_grant mops connection_id grant =
     seq (on_mediations (mo_find_by_connection_id mops connection_id)) (\<lambda>found.
     seq (result (ok_or (MedConnectionNotFound connection_id) found)) (\<lambda>r.
     seq (guard (is_valid_transition_from MedGranted (me_state r)) (MedInvalidStateTransition (me_state r) MedGranted)) (\<lambda>_.
     let r' = r\<lparr>me_state := MedGranted, me_endpoint := Some (mg_endpoint grant), me_routing_keys := mg_routing_keys grant\<rparr>
     in seq (on_mediations (mo_update mops r')) (\<lambda>_.
        seq (ms_state_changed r' (Some (me_state r))) (\<lambda>_.
        seq (if med_is_active (me_state r') then ms_emit (RoutingCreated r') else ok ()) (\<lambda>_.
        ok r'))))))"

definition get_routing_info :: "'m med_ops \<Rightarrow> string \<Rightarrow> ('m, 'k, string \<times> string list) ms_prog" where
  "get_routing_info mops mediation_id =
     seq (on_mediations (mo_find_by_id mops mediation_id)) (\<lambda>found.
     seq (result (ok_or (MedNotFound mediation_id) found)) (\<lambda>r.
     seq (guard (med_is_active (me_state r)) (MedInvalidState [MedGranted] (me_state r))) (\<lambda>_.
     seq (result (ok_or (MedProtocol ''No endpoint in granted mediation'') (me_endpoint r))) (\<lambda>endpoint.
     ok (endpoint, me_routing_keys r)))))"

fun process_keylist_update_response ::
  "'k key_ops \<Rightarrow> (nat \<Rightarrow> string) \<Rightarrow> timestamp \<Rightarrow> string \<Rightarrow> nat \<Rightarrow> keylist_updated list \<Rightarrow> ('m, 'k, unit) ms_prog" where
  "process_keylist_update_response kops uuid now mediation_id i [] = ok ()"
| "process_keylist_update_response kops uuid now mediation_id i (entry # updated) =
     (let r = keylist_record_new (uuid i) now mediation_id (kd_recipient_key entry) (kd_action entry) (kd_result entry)
      in seq (case (kd_action entry, kd_result entry) of
                (KeyAdd, KeySuccess) \<Rightarrow> on_keylists (ko_save kops r)
              | (KeyRemove, KeySuccess) \<Rightarrow> on_keylists (ko_delete_by_recipient_key kops mediation_id (kd_recipient_key entry))
              | _ \<Rightarrow> on_keylists (ko_save kops r)) (\<lambda>_.
         process_keylist_update_response kops uuid now mediation_id (Suc i) updated))"

definition recipient_get_keylist :: "'k key_ops \<Rightarrow> string \<Rightarrow> ('m, 'k, keylist_record list) ms_prog" where
  "recipient_get_keylist kops mediation_id = on_keylists (ko_find_by_mediation_id kops mediation_id)"

definition recipient_find_by_connection_id :: "'m med_ops \<Rightarrow> string \<Rightarrow> ('m, 'k, mediation_record option) ms_prog" where
  "recipient_find_by_connection_id mops connection_id = on_mediations (mo_find_by_connection_id mops connection_id)"

definition recipient_update :: "'m med_ops \<Rightarrow> mediation_record \<Rightarrow> ('m, 'k, unit) ms_prog" where
  "recipient_update mops r = on_mediations (mo_update mops r)"

definition recipient_delete :: "'m med_ops \<Rightarrow> string \<Rightarrow> ('m, 'k, unit) ms_prog" where
  "recipient_delete mops i = on_mediations (mo_delete mops i)"

section \<open>Handlers\<close>

text \<open>The derived \<open>Debug\<close> and the \<open>thiserror\<close> messages.\<close>

fun mediation_state_debug :: "mediation_state \<Rightarrow> string" where
  "mediation_state_debug MedRequested = ''Requested''"
| "mediation_state_debug MedGranted = ''Granted''"
| "mediation_state_debug MedDenied = ''Denied''"

fun mediation_role_debug :: "mediation_role \<Rightarrow> string" where
  "mediation_role_debug RoleRecipient = ''Recipient''"
| "mediation_role_debug RoleMediator = ''Mediator''"

fun list_debug :: "('a \<Rightarrow> string) \<Rightarrow> 'a list \<Rightarrow> string" where
  "list_debug f [] = ''''"
| "list_debug f [x] = f x"
| "list_debug f (x # xs) = f x @ '', '' @ list_debug f xs"

fun mediation_error_str :: "mediation_error \<Rightarrow> string" where
  "mediation_error_str (MedNotFound x) = ''Mediation not found: '' @ x"
| "mediation_error_str (MedAlreadyExists x) = ''Mediation already exists: '' @ x"
| "mediation_error_str (MedInvalidStateTransition a b) =
     ''Invalid state transition: from '' @ mediation_state_debug a @ '' to '' @ mediation_state_debug b"
| "mediation_error_str (MedInvalidRole a b) =
     ''Invalid role for operation: expected '' @ mediation_role_debug a @ '', got '' @ mediation_role_debug b"
| "mediation_error_str (MedInvalidState xs b) =
     ''Invalid state for operation: expected one of ['' @ list_debug mediation_state_debug xs @ ''], got '' @ mediation_state_debug b"
| "mediation_error_str MedMissingThreadId = ''Missing thread ID in message''"
| "mediation_error_str (MedConnectionNotFound x) = ''Connection not found: '' @ x"
| "mediation_error_str (MedKeylistUpdateFailed x) = ''Keylist update failed: '' @ x"
| "mediation_error_str (MedNoMediationGranted x) = ''No mediation granted for connection: '' @ x"
| "mediation_error_str (MedStorage x) = ''Storage error: '' @ x"
| "mediation_error_str (MedSerialization x) = ''Serialization error: '' @ x"
| "mediation_error_str (MedProtocol x) = ''Protocol error: '' @ x"
| "mediation_error_str (MedDIDComm x) = ''DIDComm error: '' @ x"

type_synonym ('m, 'k) mh_prog = "(('m, 'k) mediation_service, handler_error, outbound_message option) prog"

text \<open>\<open>map_err\<close> into the handler's error.\<close>

definition processing :: "('m, 'k, 'a) ms_prog \<Rightarrow> (('m, 'k) mediation_service, handler_error, 'a) prog" where
  "processing f s = (case f s of (s', x) \<Rightarrow> (s', map_sum (\<lambda>e. ProcessingFailed (mediation_error_str e)) id x))"

text \<open>What \<open>serde_json\<close> makes of a message and of an answer; \<open>Inl\<close> is its error text.\<close>

record mediation_codec =
  mcd_request :: "message \<Rightarrow> string + mediation_request_message"
  mcd_grant :: "message \<Rightarrow> string + mediation_grant_message"
  mcd_deny :: "message \<Rightarrow> string + mediation_deny_message"
  mcd_update :: "message \<Rightarrow> string + keylist_update_message"
  mcd_response :: "message \<Rightarrow> string + keylist_update_response"
  mcd_of_grant :: "mediation_grant_message \<Rightarrow> string + message"
  mcd_of_response :: "keylist_update_response \<Rightarrow> string + message"

definition mh_connection :: "inbound_message \<Rightarrow> handler_error + string" where
  "mh_connection i = ok_or (InvalidMessage ''Missing connection ID'') (cx_connection_id (in_context i))"

definition mh_reply :: "inbound_message \<Rightarrow> string \<Rightarrow> message \<Rightarrow> outbound_message" where
  "mh_reply i connection_id m =
     \<lparr>out_message = m, out_to = opt_string (cx_from (in_context i)), out_from = opt_string (cx_to (in_context i)),
      out_connection_id = Some connection_id\<rparr>"

definition handle_mediation_request ::
  "'m med_ops \<Rightarrow> mediation_codec \<Rightarrow> mediator_config \<Rightarrow> bool \<Rightarrow> string \<Rightarrow> string \<Rightarrow> timestamp \<Rightarrow> inbound_message \<Rightarrow> ('m, 'k) mh_prog" where
  "handle_mediation_request mops cd cfg auto_grant uuid uuid' now i =
     seq (result (map_sum InvalidMessage id (mcd_request cd (in_message i)))) (\<lambda>request.
     seq (result (mh_connection i)) (\<lambda>connection_id.
     seq (processing (process_request mops uuid now connection_id)) (\<lambda>r.
     if auto_grant then
       seq (processing (grant_mediation mops cfg uuid' (me_id r) (mq_msg_id request))) (\<lambda>(_, grant).
       seq (result (map_sum ProcessingFailed id (mcd_of_grant cd grant))) (\<lambda>m.
       ok (Some (mh_reply i connection_id m))))
     else ok None)))"

definition mediation_of :: "'m med_ops \<Rightarrow> string \<Rightarrow> (('m, 'k) mediation_service, handler_error, mediation_record) prog" where
  "mediation_of mops connection_id =
     seq (processing (on_mediations (mo_find_by_connection_id mops connection_id))) (\<lambda>found.
     result (ok_or (ProcessingFailed (''Mediation not found for connection '' @ connection_id)) found))"

definition handle_keylist_update ::
  "'m med_ops \<Rightarrow> 'k key_ops \<Rightarrow> mediation_codec \<Rightarrow> base58 \<Rightarrow> (nat \<Rightarrow> string) \<Rightarrow> string \<Rightarrow> timestamp \<Rightarrow> inbound_message \<Rightarrow> ('m, 'k) mh_prog" where
  "handle_keylist_update mops kops cd b58 uuid uuid' now i =
     seq (result (map_sum InvalidMessage id (mcd_update cd (in_message i)))) (\<lambda>update.
     seq (result (mh_connection i)) (\<lambda>connection_id.
     seq (mediation_of mops connection_id) (\<lambda>mediation.
     seq (processing (process_keylist_updates mops kops b58 uuid now (me_id mediation) (km_updates update))) (\<lambda>results.
     seq (result (map_sum ProcessingFailed id (mcd_of_response cd (keylist_update_response_new uuid' (km_id update) results)))) (\<lambda>m.
     ok (Some (mh_reply i connection_id m)))))))"

definition handle_grant :: "'m med_ops \<Rightarrow> mediation_codec \<Rightarrow> inbound_message \<Rightarrow> ('m, 'k) mh_prog" where
  "handle_grant mops cd i =
     seq (result (map_sum InvalidMessage id (mcd_grant cd (in_message i)))) (\<lambda>grant.
     seq (result (mh_connection i)) (\<lambda>connection_id.
     seq (processing (process_grant mops connection_id grant)) (\<lambda>_. ok None)))"

text \<open>The deny handler changes a copy of the record and stores nothing.\<close>

definition handle_deny :: "'m med_ops \<Rightarrow> mediation_codec \<Rightarrow> inbound_message \<Rightarrow> ('m, 'k) mh_prog" where
  "handle_deny mops cd i =
     seq (result (map_sum InvalidMessage id (mcd_deny cd (in_message i)))) (\<lambda>_.
     seq (result (mh_connection i)) (\<lambda>connection_id.
     seq (mediation_of mops connection_id) (\<lambda>_. ok None)))"

definition handle_keylist_update_response ::
  "'m med_ops \<Rightarrow> 'k key_ops \<Rightarrow> mediation_codec \<Rightarrow> (nat \<Rightarrow> string) \<Rightarrow> timestamp \<Rightarrow> inbound_message \<Rightarrow> ('m, 'k) mh_prog" where
  "handle_keylist_update_response mops kops cd uuid now i =
     seq (result (map_sum InvalidMessage id (mcd_response cd (in_message i)))) (\<lambda>response.
     seq (result (mh_connection i)) (\<lambda>connection_id.
     seq (mediation_of mops connection_id) (\<lambda>mediation.
     seq (processing (process_keylist_update_response kops uuid now (me_id mediation) 0 (kr_updated response))) (\<lambda>_. ok None))))"

end
