(* ===== verification/Mediation_Routes.thy ===== *)
theory Mediation_Routes
  imports Mediation_Service
begin

text \<open>
  Who receives what is sent to a key. The mediator's keylist decides it: this theory shows, for any
  repositories that keep their contracts, that requests and keylist updates of one connection never
  change where the keys of another lead, and that a key leads to at most one connection.
\<close>

section \<open>Routes\<close>

text \<open>
  A key leads to a connection when a keylist record names the key and a mediation of that
  connection. The mediator keeps at most one record per key.
\<close>

definition routes :: "(string \<Rightarrow> mediation_record option) \<Rightarrow> (string \<Rightarrow> keylist_record option) \<Rightarrow> string \<Rightarrow> string \<Rightarrow> bool" where
  "routes mv kv key c \<longleftrightarrow> (\<exists>i r m. kv i = Some r \<and> ke_recipient_key r = key \<and> mv (ke_mediation_id r) = Some m \<and> me_connection_id m = c)"

definition one_per_key :: "(string \<Rightarrow> keylist_record option) \<Rightarrow> bool" where
  "one_per_key kv \<longleftrightarrow> (\<forall>i j r r'. kv i = Some r \<longrightarrow> kv j = Some r' \<longrightarrow> ke_recipient_key r = ke_recipient_key r' \<longrightarrow> i = j)"

lemma one_per_key_restrict: "one_per_key kv \<Longrightarrow> one_per_key (kv |` A)"
  by (auto simp: one_per_key_def restrict_map_def)

lemma one_per_key_routes: "one_per_key kv \<Longrightarrow> routes mv kv key c \<Longrightarrow> routes mv kv key c' \<Longrightarrow> c = c'"
  unfolding routes_def one_per_key_def by (metis option.inject)

text \<open>Records of one connection, or of no mediation, may go without an effect on the others' routes.\<close>

lemma routes_restrict:
  assumes "\<And>i. i \<in> gone \<Longrightarrow> \<exists>r. kv i = Some r \<and> (\<forall>m. mv (ke_mediation_id r) = Some m \<longrightarrow> me_connection_id m = c)" "c' \<noteq> c"
  shows "routes mv (kv |` (- gone)) key c' \<longleftrightarrow> routes mv kv key c'"
proof
  assume "routes mv kv key c'"
  then obtain i r m where r: "kv i = Some r" "ke_recipient_key r = key" "mv (ke_mediation_id r) = Some m" "me_connection_id m = c'"
    by (auto simp: routes_def)
  then have "i \<notin> gone" using assms by fastforce
  then show "routes mv (kv |` (- gone)) key c'" using r by (auto simp: routes_def restrict_map_def)
qed (auto simp: routes_def restrict_map_def split: if_splits)

lemma routes_insert:
  assumes "kv i = None" "mv (ke_mediation_id r) = Some m" "me_connection_id m = c" "c' \<noteq> c"
  shows "routes mv (kv(i \<mapsto> r)) key c' \<longleftrightarrow> routes mv kv key c'"
  using assms by (auto simp: routes_def) (metis option.distinct(1))+

definition mediator_ok :: "('m \<Rightarrow> bool) \<Rightarrow> ('k \<Rightarrow> bool) \<Rightarrow> ('k \<Rightarrow> string \<Rightarrow> keylist_record option) \<Rightarrow> ('m, 'k) mediation_service \<Rightarrow> bool" where
  "mediator_ok minv kinv kview s \<longleftrightarrow> minv (ms_mediations s) \<and> kinv (ms_keylists s) \<and> one_per_key (kview (ms_keylists s))"

definition routes_of :: "('m \<Rightarrow> string \<Rightarrow> mediation_record option) \<Rightarrow> ('k \<Rightarrow> string \<Rightarrow> keylist_record option) \<Rightarrow>
    ('m, 'k) mediation_service \<Rightarrow> string \<Rightarrow> string \<Rightarrow> bool" where
  "routes_of mview kview s = routes (mview (ms_mediations s)) (kview (ms_keylists s))"

locale mediator =
  M: mediation_repository mops minv mview + K: keylist_repository kops kinv kview kused
  for mops :: "'m med_ops" and minv mview and kops :: "'k key_ops" and kinv kview kused
begin

lemma on_mediations_find:
  assumes "minv (ms_mediations s)" "on_mediations (mo_find_by_id mops i) s = (s', x)"
  shows "minv (ms_mediations s') \<and> mview (ms_mediations s') = mview (ms_mediations s) \<and> ms_keylists s' = ms_keylists s \<and>
    (case x of Inl e \<Rightarrow> True | Inr r \<Rightarrow> r = mview (ms_mediations s) i)"
  using assms M.find_by_id [of "ms_mediations s" i] by (auto simp: on_mediations_def split: prod.splits)

lemma on_keylists_delete:
  assumes "kinv (ms_keylists s)" "on_keylists (ko_delete_by_recipient_key kops m key) s = (s', x)"
  shows "kinv (ms_keylists s') \<and> kused (ms_keylists s') \<subseteq> kused (ms_keylists s) \<and> ms_mediations s' = ms_mediations s \<and>
    (\<exists>gone. gone \<subseteq> {i. \<exists>r. kview (ms_keylists s) i = Some r \<and> ke_matches m key r} \<and>
      kview (ms_keylists s') = kview (ms_keylists s) |` (- gone) \<and>
      (case x of Inl e \<Rightarrow> gone = {} | Inr _ \<Rightarrow> (\<exists>i r. kview (ms_keylists s) i = Some r \<and> ke_matches m key r) \<longrightarrow> gone \<noteq> {}))"
proof -
  obtain k where k: "ko_delete_by_recipient_key kops m key (ms_keylists s) = (k, x)" "s' = s\<lparr>ms_keylists := k\<rparr>"
    using assms(2) by (auto simp: on_keylists_def split: prod.splits)
  then show ?thesis using K.delete_by_recipient_key [OF assms(1) k(1)] by simp
qed

text \<open>Under one record per key, a deletion that succeeds leaves no record that matches.\<close>

lemma deleted_all:
  assumes "one_per_key kv" "gone \<subseteq> {i. \<exists>r. kv i = Some r \<and> ke_matches m key r}"
    and "(\<exists>i r. kv i = Some r \<and> ke_matches m key r) \<longrightarrow> gone \<noteq> {}" and "(kv |` (- gone)) i = Some r"
  shows "\<not> ke_matches m key r"
proof
  assume r: "ke_matches m key r"
  have i: "kv i = Some r" "i \<notin> gone" using assms(4) by (auto simp: restrict_map_def split: if_splits)
  then obtain j r' where j: "j \<in> gone" "kv j = Some r'" "ke_matches m key r'" using assms(2,3) r by blast
  then have "i = j" using assms(1) i(1) r unfolding one_per_key_def ke_matches_def by metis
  then show False using i(2) j(1) by simp
qed

lemma move_stale_ok:
  assumes "minv (ms_mediations s)" "kinv (ms_keylists s)" "one_per_key (kview (ms_keylists s))"
    and "move_stale mops kops key (Some c) stale s = (s', x)"
  shows "minv (ms_mediations s') \<and> mview (ms_mediations s') = mview (ms_mediations s) \<and>
    kinv (ms_keylists s') \<and> kused (ms_keylists s') \<subseteq> kused (ms_keylists s) \<and>
    (\<exists>gone. kview (ms_keylists s') = kview (ms_keylists s) |` (- gone) \<and>
      (\<forall>i\<in>gone. \<exists>r. kview (ms_keylists s) i = Some r \<and> ke_recipient_key r = key \<and>
         (\<forall>m. mview (ms_mediations s) (ke_mediation_id r) = Some m \<longrightarrow> me_connection_id m = c))) \<and>

    (x = Inr () \<longrightarrow> (\<forall>r\<in>set stale. \<forall>i r'. kview (ms_keylists s') i = Some r' \<longrightarrow> \<not> ke_matches (ke_mediation_id r) key r'))"
  using assms
proof (induction stale arbitrary: s)
  case Nil
  then show ?case by (auto intro!: exI [of _ "{}"])
next
  case (Cons r stale)
  obtain s1 y where 1: "on_mediations (mo_find_by_id mops (ke_mediation_id r)) s = (s1, y)"
    by (cases "on_mediations (mo_find_by_id mops (ke_mediation_id r)) s")
  note f = on_mediations_find [OF Cons.prems(1) 1]
  consider e where "x = Inl e" "s' = s1"
    | s2 z where "y = Inr (mview (ms_mediations s) (ke_mediation_id r))"
        "\<forall>m. mview (ms_mediations s) (ke_mediation_id r) = Some m \<longrightarrow> me_connection_id m = c"
        "on_keylists (ko_delete_by_recipient_key kops (ke_mediation_id r) key) s1 = (s2, z)"
        "(case z of Inl e \<Rightarrow> (s2, Inl e) | Inr _ \<Rightarrow> move_stale mops kops key (Some c) stale s2) = (s', x)"
    using Cons.prems(4) 1 f by (auto simp: seq_def guard_def Let_def split: sum.splits if_splits prod.splits)
  then show ?case
  proof cases
    case 1
    then show ?thesis using f Cons.prems(2) by (auto intro!: exI [of _ "{}"])
  next
    case (2 s2 z)
    have k1: "ms_keylists s1 = ms_keylists s" "kinv (ms_keylists s1)" using f Cons.prems(2) by auto
    note d = on_keylists_delete [OF k1(2) 2(3), unfolded k1(1)]
    obtain gone where gone: "gone \<subseteq> {i. \<exists>r'. kview (ms_keylists s) i = Some r' \<and> ke_matches (ke_mediation_id r) key r'}"
      "kview (ms_keylists s2) = kview (ms_keylists s) |` (- gone)"
      "case z of Inl e \<Rightarrow> gone = {} | Inr _ \<Rightarrow> (\<exists>i r'. kview (ms_keylists s) i = Some r' \<and> ke_matches (ke_mediation_id r) key r') \<longrightarrow> gone \<noteq> {}"
      using d by blast
    have own: "\<exists>r. kview (ms_keylists s) i = Some r \<and> ke_recipient_key r = key \<and>
         (\<forall>m. mview (ms_mediations s) (ke_mediation_id r) = Some m \<longrightarrow> me_connection_id m = c)" if i: "i \<in> gone" for i
    proof -
      obtain r' where "kview (ms_keylists s) i = Some r'" "ke_matches (ke_mediation_id r) key r'" using gone(1) i by blast
      then show ?thesis using 2(2) by (auto simp: ke_matches_def)
    qed
    have m2: "minv (ms_mediations s2)" "mview (ms_mediations s2) = mview (ms_mediations s)" using d f by auto
    show ?thesis
    proof (cases z)
      case (Inl e)
      then have "s' = s2" "x = Inl e" using 2(4) by simp_all
      then show ?thesis using m2 d gone(2) own by (intro conjI exI [of _ gone]) simp_all
    next
      case (Inr u)
      have one: "one_per_key (kview (ms_keylists s2))" unfolding gone(2) by (rule one_per_key_restrict [OF Cons.prems(3)])
      have run: "move_stale mops kops key (Some c) stale s2 = (s', x)" using 2(4) Inr by simp
      note ih = Cons.IH [OF m2(1) _ one run]
      then obtain gone' where gone': "kview (ms_keylists s') = kview (ms_keylists s2) |` (- gone')"
        "\<forall>i\<in>gone'. \<exists>r. kview (ms_keylists s2) i = Some r \<and> ke_recipient_key r = key \<and>
           (\<forall>m. mview (ms_mediations s2) (ke_mediation_id r) = Some m \<longrightarrow> me_connection_id m = c)"
        using d by blast
      have both: "kview (ms_keylists s') = kview (ms_keylists s) |` (- (gone \<union> gone'))"
        unfolding gone'(1) gone(2) by (simp add: Int_commute)
      have own': "\<exists>r. kview (ms_keylists s) i = Some r \<and> ke_recipient_key r = key \<and>
         (\<forall>m. mview (ms_mediations s) (ke_mediation_id r) = Some m \<longrightarrow> me_connection_id m = c)" if i: "i \<in> gone \<union> gone'" for i
        using i own gone'(2) m2(2) gone(2) by (fastforce simp: restrict_map_def split: if_splits)
      have head: "\<not> ke_matches (ke_mediation_id r) key r'" if "kview (ms_keylists s') i = Some r'" for i r'
        using deleted_all [OF Cons.prems(3) gone(1), of i r'] gone(3) Inr that both by (auto simp: restrict_map_def split: if_splits)
      have "minv (ms_mediations s')" "mview (ms_mediations s') = mview (ms_mediations s)" "kinv (ms_keylists s')"
        "kused (ms_keylists s') \<subseteq> kused (ms_keylists s)" using ih d m2(2) by auto
      moreover have "\<forall>r'\<in>set (r # stale). \<forall>i r''. kview (ms_keylists s') i = Some r'' \<longrightarrow> \<not> ke_matches (ke_mediation_id r') key r''"
        if "x = Inr ()" using ih d head that by simp
      ultimately show ?thesis using both own' by (intro conjI exI [of _ "gone \<union> gone'"]) simp_all
    qed
  qed
qed

end

context mediator
begin

text \<open>The end of an add: the key's only record may be the mediation's own.\<close>

lemma register_ok:
  assumes ok: "mediator_ok minv kinv kview s" and fresh: "uuid \<notin> kused (ms_keylists s)"
    and mine: "mview (ms_mediations s) mid = Some m0" "me_connection_id m0 = c"
    and only: "\<forall>i r. kview (ms_keylists s) i = Some r \<longrightarrow> ke_recipient_key r = key \<longrightarrow> ke_mediation_id r = mid"
    and run: "seq (on_keylists (ko_find_by_recipient_key kops mid key)) (\<lambda>existing.
      case existing of Some _ \<Rightarrow> ok () | None \<Rightarrow> on_keylists (ko_save kops (keylist_record_new uuid now mid key KeyAdd KeySuccess))) s = (s', x)"
  shows "mediator_ok minv kinv kview s' \<and> mview (ms_mediations s') = mview (ms_mediations s) \<and>
    kused (ms_keylists s') \<subseteq> insert uuid (kused (ms_keylists s)) \<and>
    (\<forall>c'. c' \<noteq> c \<longrightarrow> (routes_of mview kview s' key' c' \<longleftrightarrow> routes_of mview kview s key' c')) \<and>
    (x = Inr () \<longrightarrow> routes_of mview kview s' key c)"
proof -
  note ok' = ok [unfolded mediator_ok_def]
  obtain k1 y where 1: "ko_find_by_recipient_key kops mid key (ms_keylists s) = (k1, y)" by (cases "ko_find_by_recipient_key kops mid key (ms_keylists s)")
  note f = K.find_by_recipient_key [OF _ 1]
  let ?r = "keylist_record_new uuid now mid key KeyAdd KeySuccess"
  have rid: "ke_id ?r = uuid" "ke_mediation_id ?r = mid" "ke_recipient_key ?r = key" by (simp_all add: keylist_record_new_def)
  consider e where "s' = s\<lparr>ms_keylists := k1\<rparr>" "x = Inl e" | r where "y = Inr (Some r)" "s' = s\<lparr>ms_keylists := k1\<rparr>"
    | k2 where "y = Inr None" "ko_save kops ?r k1 = (k2, x)" "s' = s\<lparr>ms_keylists := k2\<rparr>"
    using run 1 by (cases y; auto simp: seq_def on_keylists_def split: option.splits prod.splits)
  then show ?thesis
  proof cases
    case (2 r)
    then have "kview (ms_keylists s) (ke_id r) = Some r" "ke_matches mid key r" using f ok' by auto
    then have "routes_of mview kview s key c" using mine by (auto simp: routes_of_def routes_def ke_matches_def)
    then show ?thesis using 2 f ok' by (auto simp: mediator_ok_def routes_of_def)
  next
    case (3 k2)
    have k1: "kinv k1" "kused k1 \<subseteq> kused (ms_keylists s)" "kview k1 = kview (ms_keylists s)"
      and none: "\<And>i r. kview (ms_keylists s) i = Some r \<Longrightarrow> ke_recipient_key r \<noteq> key"
      using f 3(1) ok' only by (auto simp: ke_matches_def)
    have free: "kview (ms_keylists s) uuid = None" using K.dom_used [of "ms_keylists s"] ok' fresh by auto
    have sv: "kinv k2 \<and> kused k2 \<subseteq> insert uuid (kused k1) \<and> (case x of Inl e \<Rightarrow> kview k2 = kview k1 | Inr _ \<Rightarrow> kview k2 = (kview k1)(uuid \<mapsto> ?r))"
      using K.save [OF k1(1) _ 3(2), unfolded rid] fresh k1(2) by blast
    show ?thesis
    proof (cases x)
      case (Inl e)
      then show ?thesis using sv k1 3(3) ok' by (auto simp: mediator_ok_def routes_of_def)
    next
      case (Inr u)
      then have v: "kview (ms_keylists s') = (kview (ms_keylists s))(uuid \<mapsto> ?r)" using sv k1(3) 3(3) by simp
      have "one_per_key (kview (ms_keylists s'))" unfolding v using ok' none rid(3) by (auto simp: one_per_key_def)
      moreover have "routes_of mview kview s' key' c' \<longleftrightarrow> routes_of mview kview s key' c'" if "c' \<noteq> c" for c'
        unfolding routes_of_def v
        using routes_insert [of "kview (ms_keylists s)" uuid "mview (ms_mediations s)" ?r m0 c c' key'] free rid mine that 3(3) by simp
      moreover have "routes_of mview kview s' key c" using v rid mine 3(3) by (auto simp: routes_of_def routes_def)
      ultimately show ?thesis using sv k1(2) 3(3) ok' by (auto simp: mediator_ok_def)
    qed
  qed (use f ok' in \<open>auto simp: mediator_ok_def routes_of_def\<close>)
qed

lemma keylist_add_ok:
  assumes ok: "mediator_ok minv kinv kview s" and fresh: "uuid \<notin> kused (ms_keylists s)"
    and mine: "mview (ms_mediations s) mid = Some m0" "me_connection_id m0 = c"
    and run: "keylist_add mops kops uuid now mid key s = (s', x)"
  shows "mediator_ok minv kinv kview s'" "mview (ms_mediations s') = mview (ms_mediations s)"
    "kused (ms_keylists s') \<subseteq> insert uuid (kused (ms_keylists s))"
    "c' \<noteq> c \<Longrightarrow> routes_of mview kview s' key' c' \<longleftrightarrow> routes_of mview kview s key' c'"
    "x = Inr () \<Longrightarrow> routes_of mview kview s' key c"
proof -
  note ok' = ok [unfolded mediator_ok_def]
  obtain s1 y where 1: "on_mediations (mo_find_by_id mops mid) s = (s1, y)" by (cases "on_mediations (mo_find_by_id mops mid) s")
  have f: "minv (ms_mediations s1)" "mview (ms_mediations s1) = mview (ms_mediations s)" "ms_keylists s1 = ms_keylists s"
    "y = Inr z \<Longrightarrow> z = Some m0" for z
    using on_mediations_find [OF _ 1] ok' mine(1) by (auto split: sum.splits)
  obtain s2 a where 2: "on_keylists (ko_get_all kops) s1 = (s2, a)" by (cases "on_keylists (ko_get_all kops) s1")
  have g: "ms_mediations s2 = ms_mediations s1" "kinv (ms_keylists s2)" "kused (ms_keylists s2) \<subseteq> kused (ms_keylists s)"
    "kview (ms_keylists s2) = kview (ms_keylists s)" "a = Inr all \<Longrightarrow> set all = ran (kview (ms_keylists s))" for all
    using 2 K.get_all [of "ms_keylists s1"] ok' f(3) by (auto simp: on_keylists_def split: prod.splits sum.splits)
  have one: "one_per_key (kview (ms_keylists s2))" using ok' g(4) by simp
  define stale where "stale all = filter (\<lambda>r :: keylist_record. ke_recipient_key r = key \<and> ke_mediation_id r \<noteq> mid) all" for all
  have "mediator_ok minv kinv kview s' \<and> mview (ms_mediations s') = mview (ms_mediations s) \<and>
    kused (ms_keylists s') \<subseteq> insert uuid (kused (ms_keylists s)) \<and>
    (c' \<noteq> c \<longrightarrow> (routes_of mview kview s' key' c' \<longleftrightarrow> routes_of mview kview s key' c')) \<and>
    (x = Inr () \<longrightarrow> routes_of mview kview s' key c)"
  proof (cases "(\<exists>e. y = Inl e) \<or> (\<exists>e. a = Inl e)")
    case True
    then have "s' = s1 \<or> s' = s2" "\<exists>e. x = Inl e" using run 1 2 by (cases y; cases a; auto simp: keylist_add_def seq_def Let_def)+
    then show ?thesis using f(1,2,3) g(1-4) ok' by (auto simp: mediator_ok_def routes_of_def)
  next
    case False
    then obtain all where all: "y = Inr (Some m0)" "a = Inr all" using f(4) by (metis sum.exhaust)
    obtain s3 b where 3: "move_stale mops kops key (Some c) (stale all) s2 = (s3, b)" by (cases "move_stale mops kops key (Some c) (stale all) s2")
    have "minv (ms_mediations s2)" using f(1) g(1) by simp
    note m = move_stale_ok [OF this g(2) one 3, unfolded g(4) g(1) f(2)]
    obtain gone where gone: "kview (ms_keylists s3) = kview (ms_keylists s) |` (- gone)"
      "\<forall>i\<in>gone. \<exists>r. kview (ms_keylists s) i = Some r \<and> ke_recipient_key r = key \<and>
         (\<forall>m. mview (ms_mediations s) (ke_mediation_id r) = Some m \<longrightarrow> me_connection_id m = c)"
      using m by blast
    have m3: "minv (ms_mediations s3)" "mview (ms_mediations s3) = mview (ms_mediations s)" "kinv (ms_keylists s3)"
      "kused (ms_keylists s3) \<subseteq> kused (ms_keylists s)" using m g(3) by auto
    have one3: "one_per_key (kview (ms_keylists s3))" unfolding gone(1) using ok' by (blast intro: one_per_key_restrict)
    have r3: "c' \<noteq> c \<Longrightarrow> routes_of mview kview s3 key' c' \<longleftrightarrow> routes_of mview kview s key' c'"
      unfolding routes_of_def gone(1) m3(2) by (rule routes_restrict) (use gone(2) in blast)+
    have tail: "(case b of Inl e \<Rightarrow> (s3, Inl e)
       | Inr _ \<Rightarrow> seq (on_keylists (ko_find_by_recipient_key kops mid key)) (\<lambda>existing.
          case existing of Some _ \<Rightarrow> ok () | None \<Rightarrow> on_keylists (ko_save kops (keylist_record_new uuid now mid key KeyAdd KeySuccess))) s3) = (s', x)"
      using run 1 2 3 all mine(2) by (cases b) (auto simp: keylist_add_def seq_def Let_def stale_def)
    show ?thesis
    proof (cases b)
      case (Inl e)
      then show ?thesis using tail m3 one3 r3 by (auto simp: mediator_ok_def)
    next
      case (Inr u)
      have only: "ke_mediation_id r = mid" if "kview (ms_keylists s3) i = Some r" "ke_recipient_key r = key" for i r
      proof (rule ccontr)
        assume other: "ke_mediation_id r \<noteq> mid"
        have "kview (ms_keylists s) i = Some r" using that(1) unfolding gone(1) by (simp add: restrict_map_def split: if_splits)
        then have "r \<in> set (stale all)" using g(5) [OF all(2)] that(2) other by (auto simp: stale_def ran_def)
        then show False using m Inr that by (auto simp: ke_matches_def)
      qed
      have "mediator_ok minv kinv kview s3" "uuid \<notin> kused (ms_keylists s3)" "mview (ms_mediations s3) mid = Some m0"
        using m3 one3 fresh mine(1) by (auto simp: mediator_ok_def)
      note reg = register_ok [OF this mine(2) _ tail [unfolded Inr sum.case]]
      then have reg: "mediator_ok minv kinv kview s' \<and> mview (ms_mediations s') = mview (ms_mediations s3) \<and>
        kused (ms_keylists s') \<subseteq> insert uuid (kused (ms_keylists s3)) \<and>
        (\<forall>c'. c' \<noteq> c \<longrightarrow> (routes_of mview kview s' key' c' \<longleftrightarrow> routes_of mview kview s3 key' c')) \<and>
        (x = Inr () \<longrightarrow> routes_of mview kview s' key c)" using only by blast
      have used: "kused (ms_keylists s') \<subseteq> insert uuid (kused (ms_keylists s))" using reg m3(4) by blast
      show ?thesis using reg used m3(2) r3 by simp
    qed
  qed
  then show "mediator_ok minv kinv kview s'" "mview (ms_mediations s') = mview (ms_mediations s)"
    "kused (ms_keylists s') \<subseteq> insert uuid (kused (ms_keylists s))"
    "c' \<noteq> c \<Longrightarrow> routes_of mview kview s' key' c' \<longleftrightarrow> routes_of mview kview s key' c'"
    "x = Inr () \<Longrightarrow> routes_of mview kview s' key c"
    by blast+
qed

end

context mediator
begin

lemma remove_ok:
  assumes ok: "mediator_ok minv kinv kview s" and mine: "mview (ms_mediations s) mid = Some m0" "me_connection_id m0 = c"
    and run: "on_keylists (ko_delete_by_recipient_key kops mid key) s = (s', x)"
  shows "mediator_ok minv kinv kview s'" "mview (ms_mediations s') = mview (ms_mediations s)"
    "kused (ms_keylists s') \<subseteq> kused (ms_keylists s)"
    "c' \<noteq> c \<Longrightarrow> routes_of mview kview s' key' c' \<longleftrightarrow> routes_of mview kview s key' c'"
proof -
  have "kinv (ms_keylists s)" using ok by (simp add: mediator_ok_def)
  note d = on_keylists_delete [OF this run]
  then obtain gone where gone: "gone \<subseteq> {i. \<exists>r. kview (ms_keylists s) i = Some r \<and> ke_matches mid key r}"
    "kview (ms_keylists s') = kview (ms_keylists s) |` (- gone)" by blast
  show "mediator_ok minv kinv kview s'" "mview (ms_mediations s') = mview (ms_mediations s)" "kused (ms_keylists s') \<subseteq> kused (ms_keylists s)"
    using d ok one_per_key_restrict gone(2) by (auto simp: mediator_ok_def)
  have "ms_mediations s' = ms_mediations s" using d by blast
  then show "c' \<noteq> c \<Longrightarrow> routes_of mview kview s' key' c' \<longleftrightarrow> routes_of mview kview s key' c'"
    unfolding routes_of_def gone(2) using gone(1) mine by (simp, intro routes_restrict) (fastforce simp: ke_matches_def)+
qed

lemma single_update_ok:
  assumes ok: "mediator_ok minv kinv kview s" and fresh: "uuid \<notin> kused (ms_keylists s)"
    and mine: "mview (ms_mediations s) mid = Some m0" "me_connection_id m0 = c"
    and run: "process_single_keylist_update mops kops b58 uuid now mid u s = (s', x)"
  shows "mediator_ok minv kinv kview s'" "mview (ms_mediations s') = mview (ms_mediations s)"
    "kused (ms_keylists s') \<subseteq> insert uuid (kused (ms_keylists s))"
    "c' \<noteq> c \<Longrightarrow> routes_of mview kview s' key' c' \<longleftrightarrow> routes_of mview kview s key' c'"
  using run keylist_add_ok [OF ok fresh mine] remove_ok [OF ok mine]
  by (cases "ku_action u"; fastforce simp: process_single_keylist_update_def Let_def)+

lemma updates_loop_ok:
  assumes "mediator_ok minv kinv kview s" "inj uuid" "\<forall>n\<ge>i. uuid n \<notin> kused (ms_keylists s)"
    and "mview (ms_mediations s) mid = Some m0" "me_connection_id m0 = c"
    and "keylist_updates_loop mops kops b58 uuid now mid i updates s = (s', rs)"
  shows "mediator_ok minv kinv kview s' \<and> mview (ms_mediations s') = mview (ms_mediations s) \<and>
    kused (ms_keylists s') \<subseteq> kused (ms_keylists s) \<union> range uuid \<and>
    (\<forall>key' c'. c' \<noteq> c \<longrightarrow> (routes_of mview kview s' key' c' \<longleftrightarrow> routes_of mview kview s key' c'))"
  using assms
proof (induction updates arbitrary: i s rs)
  case (Cons u updates)
  obtain s1 x where 1: "process_single_keylist_update mops kops b58 (uuid i) now mid u s = (s1, x)"
    by (cases "process_single_keylist_update mops kops b58 (uuid i) now mid u s")
  have f: "uuid i \<notin> kused (ms_keylists s)" using Cons.prems(3) by simp
  note one = single_update_ok [OF Cons.prems(1) f Cons.prems(4,5) 1]
  obtain rs' where 2: "keylist_updates_loop mops kops b58 uuid now mid (Suc i) updates s1 = (s', rs')"
    using Cons.prems(6) 1 by (auto simp: Let_def split: prod.splits)
  have fresh: "\<forall>n\<ge>Suc i. uuid n \<notin> kused (ms_keylists s1)"
  proof (intro allI impI)
    fix n assume "Suc i \<le> n"
    then have "uuid n \<noteq> uuid i" "uuid n \<notin> kused (ms_keylists s)" using Cons.prems(2,3) by (auto dest: injD)
    then show "uuid n \<notin> kused (ms_keylists s1)" using one(3) by blast
  qed
  have mine: "mview (ms_mediations s1) mid = Some m0" using one(2) Cons.prems(4) by simp
  note ih = Cons.IH [OF one(1) Cons.prems(2) fresh mine Cons.prems(5) 2]
  have "kused (ms_keylists s') \<subseteq> kused (ms_keylists s) \<union> range uuid" using ih one(3) by blast
  then show ?case using ih one(2,4) by simp
qed auto

end

section \<open>Runs of the mediator\<close>

text \<open>
  The events a mediator handles: messages from connections, and the operator's grants and denials.
  \<open>uuid n k\<close> is the \<open>k\<close>-th id drawn by event \<open>n\<close>.
\<close>

datatype mediator_event =
    MeRequest timestamp inbound_message | MeKeylistUpdate timestamp inbound_message | MeGrant string string | MeDeny string string

fun mediator_exec ::
  "'m med_ops \<Rightarrow> 'k key_ops \<Rightarrow> mediation_codec \<Rightarrow> mediator_config \<Rightarrow> base58 \<Rightarrow> bool \<Rightarrow> (nat \<Rightarrow> string) \<Rightarrow> mediator_event \<Rightarrow>
     ('m, 'k) mediation_service \<Rightarrow> ('m, 'k) mediation_service" where
  "mediator_exec mops kops cd cfg b58 auto_grant uuid (MeRequest now i) s =
     fst (handle_mediation_request mops cd cfg auto_grant (uuid 0) (uuid 1) now i s)"
| "mediator_exec mops kops cd cfg b58 auto_grant uuid (MeKeylistUpdate now i) s =
     fst (handle_keylist_update mops kops cd b58 (\<lambda>k. uuid (Suc k)) (uuid 0) now i s)"
| "mediator_exec mops kops cd cfg b58 auto_grant uuid (MeGrant mediation_id thread_id) s =
     fst (grant_mediation mops cfg (uuid 0) mediation_id thread_id s)"
| "mediator_exec mops kops cd cfg b58 auto_grant uuid (MeDeny mediation_id thread_id) s =
     fst (deny_mediation mops (uuid 0) mediation_id thread_id s)"

fun mediator_run ::
  "'m med_ops \<Rightarrow> 'k key_ops \<Rightarrow> mediation_codec \<Rightarrow> mediator_config \<Rightarrow> base58 \<Rightarrow> bool \<Rightarrow> (nat \<Rightarrow> nat \<Rightarrow> string) \<Rightarrow> nat \<Rightarrow> mediator_event list \<Rightarrow>
     ('m, 'k) mediation_service \<Rightarrow> ('m, 'k) mediation_service" where
  "mediator_run mops kops cd cfg b58 auto_grant uuid n [] s = s"
| "mediator_run mops kops cd cfg b58 auto_grant uuid n (e # es) s =
     mediator_run mops kops cd cfg b58 auto_grant uuid (Suc n) es (mediator_exec mops kops cd cfg b58 auto_grant (uuid n) e s)"

text \<open>The connection an event comes from.\<close>

fun event_connection :: "mediator_event \<Rightarrow> string option" where
  "event_connection (MeRequest now i) = cx_connection_id (in_context i)"
| "event_connection (MeKeylistUpdate now i) = cx_connection_id (in_context i)"
| "event_connection _ = None"

text \<open>What a step by connection \<open>co\<close> may do.\<close>

definition own_step :: "('m \<Rightarrow> bool) \<Rightarrow> ('m \<Rightarrow> string \<Rightarrow> mediation_record option) \<Rightarrow> ('k \<Rightarrow> bool) \<Rightarrow> ('k \<Rightarrow> string \<Rightarrow> keylist_record option) \<Rightarrow>
    ('k \<Rightarrow> string set) \<Rightarrow> string option \<Rightarrow> string set \<Rightarrow> ('m, 'k) mediation_service \<Rightarrow> ('m, 'k) mediation_service \<Rightarrow> bool" where
  "own_step minv mview kinv kview kused co U s s' \<longleftrightarrow> mediator_ok minv kinv kview s' \<and>
     kused (ms_keylists s') \<subseteq> kused (ms_keylists s) \<union> U \<and>
     (\<forall>key c. Some c \<noteq> co \<longrightarrow> (routes_of mview kview s' key c \<longleftrightarrow> routes_of mview kview s key c))"

lemma own_step_trans:
  "own_step minv mview kinv kview kused co U s1 s2 \<Longrightarrow> own_step minv mview kinv kview kused co V s2 s3 \<Longrightarrow>
     own_step minv mview kinv kview kused co (U \<union> V) s1 s3"
  by (auto simp: own_step_def)

lemma own_step_refl: "mediator_ok minv kinv kview s \<Longrightarrow> own_step minv mview kinv kview kused co U s s"
  by (auto simp: own_step_def)

lemma own_step_same:
  assumes "mediator_ok minv kinv kview s" "minv (ms_mediations s')" "ms_keylists s' = ms_keylists s"
    and "mview (ms_mediations s') = mview (ms_mediations s)"
  shows "own_step minv mview kinv kview kused co U s s'"
  using assms by (auto simp: own_step_def mediator_ok_def routes_of_def)

lemma ms_emit_fields [simp]:
  "ms_mediations (fst (ms_emit e s)) = ms_mediations s" "ms_keylists (fst (ms_emit e s)) = ms_keylists s" "snd (ms_emit e s) = Inr ()"
  by (simp_all add: ms_emit_def)

lemma routes_update:
  assumes "mv i = Some m" "me_connection_id m' = me_connection_id m"
  shows "routes (mv(i \<mapsto> m')) kv = routes mv kv"
  using assms unfolding routes_def fun_eq_iff by (auto split: if_splits) (metis option.inject)

lemma routes_new:
  assumes "mv i = None" "me_connection_id m = c'" "c \<noteq> c'"
  shows "routes (mv(i \<mapsto> m)) kv key c \<longleftrightarrow> routes mv kv key c"
  using assms unfolding routes_def by (auto split: if_splits) (metis option.distinct(1))

context mediator
begin

abbreviation step :: "string option \<Rightarrow> string set \<Rightarrow> ('m, 'k) mediation_service \<Rightarrow> ('m, 'k) mediation_service \<Rightarrow> bool" where
  "step \<equiv> own_step minv mview kinv kview kused"

lemma request_step:
  assumes ok: "mediator_ok minv kinv kview s"
  shows "step (Some c) U s (fst (process_request mops uuid now c s))"
proof -
  let ?r = "mediation_record_new uuid now c RoleMediator"
  obtain m x where 1: "mo_save mops ?r (ms_mediations s) = (m, x)" by (cases "mo_save mops ?r (ms_mediations s)")
  have rid: "me_id ?r = uuid" "me_connection_id ?r = c" by (simp_all add: mediation_record_new_def)
  have sv: "minv m \<and> (case x of Inl e \<Rightarrow> mview m = mview (ms_mediations s)
     | Inr _ \<Rightarrow> mview (ms_mediations s) uuid = None \<and> mview m = (mview (ms_mediations s))(uuid \<mapsto> ?r))"
    using M.save [OF _ 1] ok unfolding rid by (auto simp: mediator_ok_def)
  let ?s' = "fst (process_request mops uuid now c s)"
  have s': "ms_mediations ?s' = m" "ms_keylists ?s' = ms_keylists s"
    using 1 by (cases x; simp add: process_request_def Let_def seq_def on_mediations_def ms_state_changed_def ms_emit_def)+
  show ?thesis
  proof (cases x)
    case (Inl e)
    then show ?thesis using sv ok by (intro own_step_same) (auto simp: s')
  next
    case (Inr u)
    then have "routes_of mview kview ?s' key c' \<longleftrightarrow> routes_of mview kview s key c'" if "c' \<noteq> c" for key c'
      unfolding routes_of_def s' using sv that rid routes_new [of "mview (ms_mediations s)" uuid ?r c c'] by simp
    then show ?thesis using sv ok s' by (auto simp: own_step_def mediator_ok_def)
  qed
qed

text \<open>A change of a mediation's state leaves its connection.\<close>

lemma update_step:
  assumes ok: "mediator_ok minv kinv kview s" and "mview (ms_mediations s) (me_id r') = Some r" "me_connection_id r' = me_connection_id r"
    and run: "on_mediations (mo_update mops r') s = (s', x)"
  shows "step co U s s'"
proof -
  obtain m where m: "mo_update mops r' (ms_mediations s) = (m, x)" "s' = s\<lparr>ms_mediations := m\<rparr>"
    using run by (auto simp: on_mediations_def split: prod.splits)
  have "minv m \<and> (case x of Inl e \<Rightarrow> mview m = mview (ms_mediations s) | Inr _ \<Rightarrow> mview m = (mview (ms_mediations s))(me_id r' \<mapsto> r'))"
    using M.update [OF _ m(1)] ok by (auto simp: mediator_ok_def split: sum.splits)
  moreover have "routes ((mview (ms_mediations s))(me_id r' \<mapsto> r')) kv = routes (mview (ms_mediations s)) kv" for kv
    by (rule routes_update) (rule assms(2,3))+
  ultimately show ?thesis using ok m(2) by (auto simp: own_step_def mediator_ok_def routes_of_def split: sum.splits)
qed

lemma transition_step:
  assumes ok: "mediator_ok minv kinv kview s" and f: "\<And>r. me_id (upd r) = me_id r" "\<And>r. me_connection_id (upd r) = me_connection_id r"
  shows "step co U s (fst (seq (on_mediations (mo_find_by_id mops mid)) (\<lambda>found. seq (result (ok_or e found)) (\<lambda>r.
    seq (guard (b r) (e' r)) (\<lambda>_. seq (on_mediations (mo_update mops (upd r))) (\<lambda>_. seq (ms_state_changed (upd r) (p r)) (\<lambda>_. ok (g r)))))) s))"
proof -
  obtain s1 x where 1: "on_mediations (mo_find_by_id mops mid) s = (s1, x)" by (cases "on_mediations (mo_find_by_id mops mid) s")
  have find: "minv (ms_mediations s1)" "mview (ms_mediations s1) = mview (ms_mediations s)" "ms_keylists s1 = ms_keylists s"
    "x = Inr (Some r) \<Longrightarrow> mview (ms_mediations s) mid = Some r" for r
    using on_mediations_find [OF _ 1] ok by (auto simp: mediator_ok_def)
  have s1: "step co U s s1" "mediator_ok minv kinv kview s1" using own_step_same [OF ok find(1,3,2)] by (auto simp: own_step_def)
  consider "\<nexists>r. x = Inr (Some r)" | r where "x = Inr (Some r)" "\<not> b r" | r where "x = Inr (Some r)" "b r" by blast
  then show ?thesis
  proof cases
    case (3 r)
    obtain s2 y where 2: "on_mediations (mo_update mops (upd r)) s1 = (s2, y)" by (cases "on_mediations (mo_update mops (upd r)) s1")
    have "mview (ms_mediations s1) (me_id (upd r)) = Some r"
      using M.ids [of "ms_mediations s" mid r] ok f find 3(1) by (simp add: mediator_ok_def)
    then have "step co U s1 s2" by (rule update_step [OF s1(2) _ f(2) 2])
    then have s2: "step co U s s2" using own_step_trans [OF s1(1), of U s2] by simp
    then have "step co U s s'" if "ms_mediations s' = ms_mediations s2" "ms_keylists s' = ms_keylists s2" for s'
      using that by (simp add: own_step_def mediator_ok_def routes_of_def)
    then show ?thesis using 1 2 3 s2 by (cases y) (simp_all add: seq_def ms_state_changed_def ms_emit_def)
  qed (use 1 s1(1) in \<open>cases x; auto simp: seq_def ok_or_def split: option.splits\<close>)+
qed

end

context mediator
begin

lemma grant_step: "mediator_ok minv kinv kview s \<Longrightarrow> step co U s (fst (grant_mediation mops cfg uuid mid thid s))"
  unfolding grant_mediation_def Let_def
  using transition_step [of s "\<lambda>r. r\<lparr>me_state := MedGranted, me_endpoint := Some (mc_endpoint cfg), me_routing_keys := mc_routing_keys cfg\<rparr>"] by simp

lemma deny_step: "mediator_ok minv kinv kview s \<Longrightarrow> step co U s (fst (deny_mediation mops uuid mid thid s))"
  unfolding deny_mediation_def Let_def using transition_step [of s "\<lambda>r. r\<lparr>me_state := MedDenied\<rparr>"] by simp

lemma handle_request_step:
  assumes ok: "mediator_ok minv kinv kview s"
  shows "step (cx_connection_id (in_context i)) U s (fst (handle_mediation_request mops cd cfg auto_grant uuid uuid' now i s))"
proof (cases "(\<exists>e. mcd_request cd (in_message i) = Inl e) \<or> cx_connection_id (in_context i) = None")
  case True
  then show ?thesis
    using own_step_refl [OF ok] by (auto simp: handle_mediation_request_def seq_def mh_connection_def ok_or_def split: sum.splits option.splits)
next
  case False
  then obtain req c where rc: "mcd_request cd (in_message i) = Inr req" "cx_connection_id (in_context i) = Some c"
    by (cases "mcd_request cd (in_message i)") auto
  obtain s1 x where 1: "process_request mops uuid now c s = (s1, x)" by (cases "process_request mops uuid now c s")
  have s1: "step (Some c) U s s1" using request_step [OF ok, of c U uuid now] 1 by simp
  then have ok1: "mediator_ok minv kinv kview s1" by (simp add: own_step_def)
  have "step (Some c) U s (fst (grant_mediation mops cfg uuid' mid thid s1))" for mid thid
    using own_step_trans [OF s1 grant_step [OF ok1, of _ U]] by simp
  then show ?thesis
    using s1 1 rc by (auto simp: handle_mediation_request_def seq_def mh_connection_def processing_def split: prod.splits sum.splits) (metis fst_conv)+
qed

lemma handle_keylist_update_step:
  assumes ok: "mediator_ok minv kinv kview s" and fresh: "inj uuid" "\<forall>n. uuid n \<notin> kused (ms_keylists s)"
  shows "step (cx_connection_id (in_context i)) (range uuid) s (fst (handle_keylist_update mops kops cd b58 uuid uuid' now i s))"
proof (cases "(\<exists>e. mcd_update cd (in_message i) = Inl e) \<or> cx_connection_id (in_context i) = None")
  case True
  then show ?thesis
    using own_step_refl [OF ok] by (auto simp: handle_keylist_update_def seq_def mh_connection_def ok_or_def split: sum.splits option.splits)
next
  case False
  then obtain upd c where uc: "mcd_update cd (in_message i) = Inr upd" "cx_connection_id (in_context i) = Some c"
    by (cases "mcd_update cd (in_message i)") auto
  obtain m x where 1: "mo_find_by_connection_id mops c (ms_mediations s) = (m, x)" by (cases "mo_find_by_connection_id mops c (ms_mediations s)")
  let ?s1 = "s\<lparr>ms_mediations := m\<rparr>"
  have f: "minv m" "mview m = mview (ms_mediations s)" "x = Inr (Some r) \<Longrightarrow> mview m (me_id r) = Some r \<and> me_connection_id r = c" for r
    using M.find_by_connection_id [OF _ 1] ok by (auto simp: mediator_ok_def)
  have s1: "step (Some c) (range uuid) s ?s1" by (rule own_step_same [OF ok]) (simp_all add: f(1,2))
  then have ok1: "mediator_ok minv kinv kview ?s1" by (simp add: own_step_def)
  show ?thesis
  proof (cases "\<exists>r. x = Inr (Some r)")
    case False
    then have "fst (handle_keylist_update mops kops cd b58 uuid uuid' now i s) = ?s1"
      using 1 uc by (cases x) (auto simp: handle_keylist_update_def seq_def mh_connection_def mediation_of_def processing_def on_mediations_def ok_or_def split: option.splits)
    then show ?thesis using s1 uc by simp
  next
    case True
    then obtain r where r: "x = Inr (Some r)" by blast
    obtain s2 rs where 2: "keylist_updates_loop mops kops b58 uuid now (me_id r) 0 (km_updates upd) ?s1 = (s2, rs)"
      by (cases "keylist_updates_loop mops kops b58 uuid now (me_id r) 0 (km_updates upd) ?s1")
    have "step (Some c) (range uuid) ?s1 s2"
      using updates_loop_ok [OF ok1 fresh(1) _ _ _ 2] f(3) [OF r] fresh(2) by (auto simp: own_step_def)
    then have s2: "step (Some c) (range uuid) s s2" using own_step_trans [OF s1, of "range uuid" s2] by simp
    then have "step (Some c) (range uuid) s (fst (ms_emit e s2))" for e
      by (simp add: own_step_def mediator_ok_def routes_of_def)
    then show ?thesis
      using s2 1 2 uc r by (auto simp: handle_keylist_update_def seq_def mh_connection_def mediation_of_def processing_def on_mediations_def
          process_keylist_updates_def Let_def split: sum.splits)
  qed
qed

end

context mediator
begin

lemma run_step:
  assumes "mediator_ok minv kinv kview s" "inj (case_prod uuid)" "\<forall>a\<ge>n. \<forall>b. uuid a b \<notin> kused (ms_keylists s)"
    and "\<forall>e\<in>set es. event_connection e \<noteq> Some c"
  shows "mediator_ok minv kinv kview (mediator_run mops kops cd cfg b58 auto_grant uuid n es s) \<and>
    (routes_of mview kview (mediator_run mops kops cd cfg b58 auto_grant uuid n es s) key c \<longleftrightarrow> routes_of mview kview s key c)"
  using assms
proof (induction es arbitrary: n s)
  case (Cons e es)
  let ?s = "mediator_exec mops kops cd cfg b58 auto_grant (uuid n) e s"
  have inj: "inj (\<lambda>k. uuid n (Suc k))"
  proof (rule injI)
    fix a b assume "uuid n (Suc a) = uuid n (Suc b)"
    then show "a = b" using injD [OF Cons.prems(2), of "(n, Suc a)" "(n, Suc b)"] by simp
  qed
  have "own_step minv mview kinv kview kused (event_connection e) (range (uuid n)) s ?s"
  proof (cases e)
    case (MeKeylistUpdate now i)
    have "own_step minv mview kinv kview kused (event_connection e) (range (\<lambda>k. uuid n (Suc k))) s ?s"
      using handle_keylist_update_step [OF Cons.prems(1) inj] Cons.prems(3) MeKeylistUpdate by simp
    then show ?thesis by (auto simp: own_step_def)
  qed (use handle_request_step [OF Cons.prems(1)] grant_step [OF Cons.prems(1)] deny_step [OF Cons.prems(1)] in simp_all)
  then have s: "mediator_ok minv kinv kview ?s" "kused (ms_keylists ?s) \<subseteq> kused (ms_keylists s) \<union> range (uuid n)"
    "routes_of mview kview ?s key c \<longleftrightarrow> routes_of mview kview s key c"
    using Cons.prems(4) by (auto simp: own_step_def)
  have "uuid a b \<notin> kused (ms_keylists ?s)" if "Suc n \<le> a" for a b
  proof -
    have "uuid a b \<notin> range (uuid n)" using that injD [OF Cons.prems(2), of "(a, b)"] by auto
    moreover have "uuid a b \<notin> kused (ms_keylists s)" using that Cons.prems(3) by simp
    ultimately show ?thesis using s(2) by blast
  qed
  then show ?case using Cons.IH [OF s(1) Cons.prems(2)] Cons.prems(4) s(3) by simp
qed simp

end

end
