(* ===== verification/Forward_Service.thy ===== *)
theory Forward_Service
  imports Mediation_Routes Pickup_Mediator
begin

text \<open>
  Delivery at the mediator: the live sessions (\<open>services/live_session_manager.rs\<close>), the forward
  service (\<open>services/forward_service.rs\<close>) that queues a message for the connection its recipient key
  leads to and replays the queue over a new session, and its handler
  (\<open>handlers/mediator_forward_handler.rs\<close>), of \<open>protocols/coordinate_mediation/src\<close>. The service is
  generic in the message queue of the pickup protocol, whose operations may panic. The push
  notifier, the JSON text and base64 are arguments; what a receiver does with a channel while a
  sender waits is one too.
\<close>

section \<open>Channels and live sessions\<close>

text \<open>A \<open>tokio::sync::mpsc\<close> channel. A \<open>Sender\<close> is a reference to it, so a channel has a number.\<close>

record 'a channel =
  ch_capacity :: nat
  ch_queue :: "'a list"
  ch_closed :: bool

definition channel_new :: "nat \<Rightarrow> 'a channel" where
  "channel_new capacity = \<lparr>ch_capacity = capacity, ch_queue = [], ch_closed = False\<rparr>"

datatype send_error = SendClosed | SendFull

definition try_send :: "'a \<Rightarrow> 'a channel \<Rightarrow> 'a channel \<times> (send_error + unit)" where
  "try_send x ch =
     (if ch_closed ch then (ch, Inl SendClosed)
      else if length (ch_queue ch) < ch_capacity ch then (ch\<lparr>ch_queue := ch_queue ch @ [x]\<rparr>, Inr ())
      else (ch, Inl SendFull))"

text \<open>\<open>send\<close> under a timeout: \<open>wait\<close> is what the receiver does to a full channel meanwhile.\<close>

definition send_within :: "('a channel \<Rightarrow> 'a channel) \<Rightarrow> 'a \<Rightarrow> 'a channel \<Rightarrow> 'a channel \<times> (send_error + unit)" where
  "send_within wait x ch =
     (case try_send x ch of
        (ch, Inl SendFull) \<Rightarrow> try_send x (wait ch)
      | r \<Rightarrow> r)"

record live_sessions =
  ls_sessions :: "(string, nat) hash_map"
  ls_binary_sessions :: "(string, nat) hash_map"
  ls_channels :: "nat \<Rightarrow> string channel"
  ls_binary_channels :: "nat \<Rightarrow> bytes channel"
  ls_next :: nat

definition live_sessions_new :: "(nat \<Rightarrow> string channel) \<Rightarrow> (nat \<Rightarrow> bytes channel) \<Rightarrow> nat \<Rightarrow> live_sessions" where
  "live_sessions_new chans binary_chans next =
     \<lparr>ls_sessions = [], ls_binary_sessions = [], ls_channels = chans, ls_binary_channels = binary_chans, ls_next = next\<rparr>"

text \<open>The new channel is number \<open>ls_next\<close>; \<open>mpsc::channel\<close> panics on a buffer of 0.\<close>

definition register_session :: "string \<Rightarrow> nat \<Rightarrow> live_sessions \<Rightarrow> string fault + live_sessions \<times> nat" where
  "register_session connection_id buffer_size ls =
     (if buffer_size = 0 then Inl Panicked
      else Inr (ls\<lparr>ls_sessions := hm_insert connection_id (ls_next ls) (ls_sessions ls),
                   ls_channels := (ls_channels ls)(ls_next ls := channel_new buffer_size), ls_next := Suc (ls_next ls)\<rparr>, ls_next ls))"

definition register_session_with_sender :: "string \<Rightarrow> nat \<Rightarrow> live_sessions \<Rightarrow> live_sessions" where
  "register_session_with_sender connection_id sender ls = ls\<lparr>ls_sessions := hm_insert connection_id sender (ls_sessions ls)\<rparr>"

definition register_binary_sender :: "string \<Rightarrow> nat \<Rightarrow> live_sessions \<Rightarrow> live_sessions" where
  "register_binary_sender connection_id sender ls = ls\<lparr>ls_binary_sessions := hm_insert connection_id sender (ls_binary_sessions ls)\<rparr>"

definition remove_session :: "string \<Rightarrow> live_sessions \<Rightarrow> live_sessions" where
  "remove_session connection_id ls =
     ls\<lparr>ls_sessions := hm_remove connection_id (ls_sessions ls), ls_binary_sessions := hm_remove connection_id (ls_binary_sessions ls)\<rparr>"

definition has_session :: "string \<Rightarrow> live_sessions \<Rightarrow> bool" where
  "has_session connection_id ls = hm_contains (ls_sessions ls) connection_id"

text \<open>The text of a channel's error is left out.\<close>

definition try_deliver :: "string \<Rightarrow> string \<Rightarrow> live_sessions \<Rightarrow> live_sessions \<times> (string + unit)" where
  "try_deliver connection_id message ls =
     (case hm_get (ls_sessions ls) connection_id of
        None \<Rightarrow> (ls, Inl (''No live session for connection: '' @ connection_id))
      | Some ch \<Rightarrow>
          (case try_send message (ls_channels ls ch) of
             (c, r) \<Rightarrow> (ls\<lparr>ls_channels := (ls_channels ls)(ch := c)\<rparr>, map_sum (\<lambda>_. ''Failed to deliver to live session: '') id r)))"

definition try_deliver_binary :: "string \<Rightarrow> bytes \<Rightarrow> live_sessions \<Rightarrow> live_sessions \<times> (string + unit)" where
  "try_deliver_binary connection_id frame ls =
     (case hm_get (ls_binary_sessions ls) connection_id of
        None \<Rightarrow> (ls, Inl (''No binary live session for connection: '' @ connection_id))
      | Some ch \<Rightarrow>
          (case try_send frame (ls_binary_channels ls ch) of
             (c, r) \<Rightarrow> (ls\<lparr>ls_binary_channels := (ls_binary_channels ls)(ch := c)\<rparr>, map_sum (\<lambda>_. ''Failed to deliver binary to live session: '') id r)))"

definition deliver_or_drop :: "(string channel \<Rightarrow> string channel) \<Rightarrow> string \<Rightarrow> string \<Rightarrow> live_sessions \<Rightarrow> live_sessions \<times> (string + unit)" where
  "deliver_or_drop wait connection_id message ls =
     (case hm_get (ls_sessions ls) connection_id of
        None \<Rightarrow> (ls, Inl (''No live session for connection: '' @ connection_id))
      | Some ch \<Rightarrow>
          (case send_within wait message (ls_channels ls ch) of
             (c, r) \<Rightarrow> (ls\<lparr>ls_channels := (ls_channels ls)(ch := c)\<rparr>,
               map_sum (\<lambda>e. case e of SendClosed \<Rightarrow> ''Live session channel closed: '' | SendFull \<Rightarrow> ''Live session channel full beyond '') id r)))"

definition session_count :: "live_sessions \<Rightarrow> nat" where
  "session_count ls = length (ls_sessions ls)"

record broadcast_result =
  br_delivered :: u32
  br_failed :: u32

definition broadcast_all :: "string \<Rightarrow> live_sessions \<Rightarrow> live_sessions \<times> broadcast_result" where
  "broadcast_all message ls =
     fold (\<lambda>(_, ch) (ls, r).
        case try_send message (ls_channels ls ch) of
          (c, Inr _) \<Rightarrow> (ls\<lparr>ls_channels := (ls_channels ls)(ch := c)\<rparr>, r\<lparr>br_delivered := br_delivered r + 1\<rparr>)
        | (c, Inl _) \<Rightarrow> (ls\<lparr>ls_channels := (ls_channels ls)(ch := c)\<rparr>, r\<lparr>br_failed := br_failed r + 1\<rparr>))
       (ls_sessions ls) (ls, \<lparr>br_delivered = 0, br_failed = 0\<rparr>)"

section \<open>The forward service\<close>

definition MAX_FORWARDED_MESSAGE_SIZE_BYTES :: nat where "MAX_FORWARDED_MESSAGE_SIZE_BYTES = 512 * 1024"
definition MAX_QUEUE_PER_CONNECTION :: nat where "MAX_QUEUE_PER_CONNECTION = 1000"
definition FORWARD_STALE_RELIEF_TTL :: int where "FORWARD_STALE_RELIEF_TTL = 7 * 86400 * NANOS_PER_SECOND"
definition RECONNECT_REPLAY_BATCH :: u32 where "RECONNECT_REPLAY_BATCH = 50"

datatype forwarding_strategy = QueueOnly | QueueAndLiveDelivery

definition strategy_from_str_lossy :: "string \<Rightarrow> forwarding_strategy" where
  "strategy_from_str_lossy x = (if x = ''queue-only'' \<or> x = ''queue_only'' then QueueOnly else QueueAndLiveDelivery)"

text \<open>\<open>to_json\<close> is \<open>serde_json::to_string\<close> of a message.\<close>

definition build_delivery_frame :: "(message \<Rightarrow> string option) \<Rightarrow> string \<Rightarrow> attachment list \<Rightarrow> string option" where
  "build_delivery_frame to_json delivery_id attachments =
     to_json (fold builder_add_attachment attachments
       (builder_thread delivery_id ((builder_new delivery_id DELIVERY_TYPE)\<lparr>msg_body := JObject []\<rparr>)))"

definition encrypted_to_attachment :: "(bytes \<Rightarrow> string) \<Rightarrow> string \<Rightarrow> string \<Rightarrow> attachment" where
  "encrypted_to_attachment b64 message_id encrypted_message =
     \<lparr>at_id = Some message_id, at_description = None, at_filename = None,
      at_media_type = Some ''application/didcomm-encrypted+json'', at_format = None, at_lastmod_time = None,
      at_byte_count = Some (length encrypted_message),
      at_data = attachment_data_base64 (b64 (str_bytes encrypted_message))\<rparr>"

record ('m, 'k, 'q) forward_state =
  fw_mediations :: 'm
  fw_keylists :: 'k
  fw_queue :: 'q
  fw_live :: live_sessions
  fw_notified :: "string list"

record ('m, 'k, 'q) forward_env =
  fe_mediations :: "'m med_ops"
  fe_keylists :: "'k key_ops"
  fe_queue :: "'q mq_ops"
  fe_b58 :: base58
  fe_b64 :: "bytes \<Rightarrow> string"
  fe_to_json :: "message \<Rightarrow> string option"
  fe_strategy :: forwarding_strategy
  fe_notifier :: bool

type_synonym ('m, 'k, 'q, 'a) fw_prog = "(('m, 'k, 'q) forward_state, mediation_error fault, 'a) prog"

definition fw_mediation :: "('m, mediation_error, 'a) prog \<Rightarrow> ('m, 'k, 'q, 'a) fw_prog" where
  "fw_mediation f s = (case f (fw_mediations s) of (m, x) \<Rightarrow> (s\<lparr>fw_mediations := m\<rparr>, map_sum Raised id x))"

definition fw_keylist :: "('k, mediation_error, 'a) prog \<Rightarrow> ('m, 'k, 'q, 'a) fw_prog" where
  "fw_keylist f s = (case f (fw_keylists s) of (k, x) \<Rightarrow> (s\<lparr>fw_keylists := k\<rparr>, map_sum Raised id x))"

text \<open>A call of the pickup service, with its error mapped; a panic in it is one of the caller.\<close>

definition fw_pickup :: "(pickup_error \<Rightarrow> mediation_error) \<Rightarrow> ('q, pickup_error fault, 'a) prog \<Rightarrow> ('m, 'k, 'q, 'a) fw_prog" where
  "fw_pickup g f s = (case f (fw_queue s) of (q, x) \<Rightarrow>
     (s\<lparr>fw_queue := q\<rparr>, map_sum (\<lambda>e. case e of Panicked \<Rightarrow> Panicked | Raised e \<Rightarrow> Raised (g e)) id x))"

text \<open>\<open>.ok()\<close>: an error is dropped, a panic not.\<close>

definition fw_attempt :: "('m, 'k, 'q, 'a) fw_prog \<Rightarrow> ('m, 'k, 'q, 'a option) fw_prog" where
  "fw_attempt f s = (case f s of (s, Inl Panicked) \<Rightarrow> (s, Inl Panicked) | (s, Inl (Raised _)) \<Rightarrow> (s, Inr None) | (s, Inr a) \<Rightarrow> (s, Inr (Some a)))"

text \<open>The cap on pending messages, relieved by dropping those older than a week.\<close>

definition fw_cap :: "('m, 'k, 'q) forward_env \<Rightarrow> timestamp \<Rightarrow> string \<Rightarrow> ('m, 'k, 'q, unit) fw_prog" where
  "fw_cap env now connection_id =
     seq (fw_attempt (fw_pickup (\<lambda>_. MedStorage '''') (pm_pending_count (fe_queue env) connection_id))) (\<lambda>c.
     case c of
       None \<Rightarrow> ok ()
     | Some count \<Rightarrow>
         if count \<ge> MAX_QUEUE_PER_CONNECTION then
           seq (fw_attempt (fw_pickup (\<lambda>_. MedStorage '''') (pm_delete_expired_for_connection (fe_queue env) connection_id (now - FORWARD_STALE_RELIEF_TTL)))) (\<lambda>deleted.
           guard (\<not> (case deleted of None \<Rightarrow> True | Some n \<Rightarrow> n = 0))
             (Raised (MedStorage (''Queue full for connection '' @ connection_id @ '' ('' @ nat_str count @ '' messages, max '' @ nat_str MAX_QUEUE_PER_CONNECTION @ '')''))))
         else ok ())"

text \<open>The best-effort push over a live session; its outcome is only logged.\<close>

definition fw_live_push :: "('m, 'k, 'q) forward_env \<Rightarrow> string \<Rightarrow> string \<Rightarrow> string \<Rightarrow> ('m, 'k, 'q, unit) fw_prog" where
  "fw_live_push env connection_id message_id encrypted_message = modify (\<lambda>s.
     if fe_strategy env = QueueAndLiveDelivery \<and> has_session connection_id (fw_live s) then
       (case build_delivery_frame (fe_to_json env) message_id [encrypted_to_attachment (fe_b64 env) message_id encrypted_message] of
          None \<Rightarrow> s
        | Some frame \<Rightarrow> s\<lparr>fw_live := fst (try_deliver connection_id frame (fw_live s))\<rparr>)
     else s)"

text \<open>From the recipient key to the connection of a granted mediation.\<close>

definition fw_route :: "('m, 'k, 'q) forward_env \<Rightarrow> string \<Rightarrow> ('m, 'k, 'q, string) fw_prog" where
  "fw_route env recipient_key =
     seq (fw_keylist (ko_find_mediation_for_recipient_key (fe_keylists env) (canonicalize_recipient_key (fe_b58 env) recipient_key))) (\<lambda>found.
     seq (result (ok_or (Raised (MedNotFound (''No mediation found for recipient key: '' @ recipient_key))) found)) (\<lambda>keylist_record.
     seq (fw_mediation (mo_find_by_id (fe_mediations env) (ke_mediation_id keylist_record))) (\<lambda>mediation.
     seq (result (ok_or (Raised (MedNotFound (''Mediation not found: '' @ ke_mediation_id keylist_record))) mediation)) (\<lambda>mediation_record.
     seq (guard (me_state mediation_record = MedGranted) (Raised (MedInvalidState [MedGranted] (me_state mediation_record)))) (\<lambda>_.
     ok (me_connection_id mediation_record))))))"

text \<open>The queue entry, then the wake-up and the push.\<close>

definition fw_enqueue ::
  "('m, 'k, 'q) forward_env \<Rightarrow> string \<Rightarrow> timestamp \<Rightarrow> string \<Rightarrow> string \<Rightarrow> string \<Rightarrow> ('m, 'k, 'q, string) fw_prog" where
  "fw_enqueue env uuid now connection_id recipient_key encrypted_message =
     seq (fw_cap env now connection_id) (\<lambda>_.
     seq (fw_pickup (\<lambda>_. MedStorage ''Failed to queue message: '')
           (pm_queue_message (fe_queue env) uuid now connection_id [recipient_key] encrypted_message)) (\<lambda>message_id.
     seq (modify (\<lambda>s. if fe_notifier env then s\<lparr>fw_notified := fw_notified s @ [connection_id]\<rparr> else s)) (\<lambda>_.
     seq (fw_live_push env connection_id message_id encrypted_message) (\<lambda>_.
     ok message_id))))"

definition process_forward ::
  "('m, 'k, 'q) forward_env \<Rightarrow> string \<Rightarrow> timestamp \<Rightarrow> string \<Rightarrow> string \<Rightarrow> ('m, 'k, 'q, string) fw_prog" where
  "process_forward env uuid now recipient_key encrypted_message =
     seq (guard (\<not> length encrypted_message > MAX_FORWARDED_MESSAGE_SIZE_BYTES)
           (Raised (MedStorage (''Forwarded message too large: '' @ nat_str (length encrypted_message) @ '' bytes (max '' @ nat_str MAX_FORWARDED_MESSAGE_SIZE_BYTES @ '')'')))) (\<lambda>_.
     seq (fw_route env recipient_key) (\<lambda>connection_id.
     fw_enqueue env uuid now connection_id recipient_key encrypted_message))"

text \<open>
  The replay loop, with fuel; \<open>None\<close> is running out of it. \<open>uuid k\<close> are the ids of the request and of
  the delivery of round \<open>k\<close>.
\<close>

definition replay_request :: "string \<Rightarrow> delivery_request" where
  "replay_request uuid = \<lparr>dr_id = uuid, dr_limit = RECONNECT_REPLAY_BATCH, dr_recipient_key = None\<rparr>"

fun flush_loop ::
  "('m, 'k, 'q) forward_env \<Rightarrow> (string channel \<Rightarrow> string channel) \<Rightarrow> (nat \<Rightarrow> string \<times> string) \<Rightarrow> string \<Rightarrow> nat \<Rightarrow> nat \<Rightarrow> nat \<Rightarrow> ('m, 'k, 'q) forward_state \<Rightarrow>
     ('m, 'k, 'q) forward_state \<times> (mediation_error fault + nat) option" where
  "flush_loop env wait uuid connection_id 0 round delivered s = (s, None)"
| "flush_loop env wait uuid connection_id (Suc fuel) round delivered s =
     (case fw_pickup (\<lambda>_. MedStorage ''flush take_from_queue: '')
             (pm_process_delivery_request (fe_queue env) (fe_b64 env) (snd (uuid round)) (replay_request (fst (uuid round))) connection_id) s of
        (s, Inl e) \<Rightarrow> (s, Some (Inl e))
      | (s, Inr batch) \<Rightarrow>
          if md_attachments batch = [] then (s, Some (Inr delivered))
          else
            (case build_delivery_frame (fe_to_json env) (md_id batch) (md_attachments batch) of
               None \<Rightarrow> (s, Some (Inr delivered))
             | Some frame \<Rightarrow>
                 (case deliver_or_drop wait connection_id frame (fw_live s) of
                    (live, Inl _) \<Rightarrow> (s\<lparr>fw_live := live\<rparr>, Some (Inr delivered))
                  | (live, Inr _) \<Rightarrow>
                      let s = s\<lparr>fw_live := live\<rparr>;
                          count = length (md_attachments batch);
                          delivered = delivered + count
                      in if count < unat RECONNECT_REPLAY_BATCH then (s, Some (Inr delivered))
                         else flush_loop env wait uuid connection_id fuel (Suc round) delivered s)))"

definition flush_queued_for_connection ::
  "('m, 'k, 'q) forward_env \<Rightarrow> (string channel \<Rightarrow> string channel) \<Rightarrow> (nat \<Rightarrow> string \<times> string) \<Rightarrow> nat \<Rightarrow> string \<Rightarrow> ('m, 'k, 'q) forward_state \<Rightarrow>
     ('m, 'k, 'q) forward_state \<times> (mediation_error fault + nat) option" where
  "flush_queued_for_connection env wait uuid fuel connection_id s = flush_loop env wait uuid connection_id fuel 0 0 s"

section \<open>The handler\<close>

definition forward_to :: "message \<Rightarrow> string option" where
  "forward_to m =
     (case Option.bind (json_get (msg_body m) ''to'') json_as_str of
        Some t \<Rightarrow> Some t
      | None \<Rightarrow>
          (case Option.bind (hm_get (msg_extra m) ''to'') json_as_str of
             Some t \<Rightarrow> Some t
           | None \<Rightarrow> (case msg_to m of Some (t # _) \<Rightarrow> Some t | _ \<Rightarrow> None)))"

text \<open>\<open>json_str\<close> is \<open>serde_json::to_string\<close> of a value; \<open>now_secs\<close> is the clock in seconds.\<close>

definition handle_forward ::
  "('m, 'k, 'q) forward_env \<Rightarrow> (json \<Rightarrow> string + string) \<Rightarrow> string \<Rightarrow> int \<Rightarrow> timestamp \<Rightarrow> inbound_message \<Rightarrow>
     (('m, 'k, 'q) forward_state, handler_error fault, outbound_message option) prog" where
  "handle_forward env json_str uuid now_secs now i s =
     (case forward_to (in_message i) of
        None \<Rightarrow> (s, Inl (Raised (InvalidMessage (''Missing '' @ quoted ''to'' @ '' field in forward message''))))
      | Some to \<Rightarrow>
          if (case msg_expires_time (in_message i) of None \<Rightarrow> False | Some t \<Rightarrow> t < now_secs) then (s, Inr None)
          else
            (case body_or_extra (in_message i) ''msg'' of
               None \<Rightarrow> (s, Inl (Raised (InvalidMessage (''Missing '' @ quoted ''msg'' @ '' field in forward message''))))
             | Some encrypted_msg \<Rightarrow>
                 (case json_str encrypted_msg of
                    Inl e \<Rightarrow> (s, Inl (Raised (ProcessingFailed e)))
                  | Inr encrypted_json \<Rightarrow>
                      if length encrypted_json > MAX_FORWARDED_MESSAGE_SIZE_BYTES
                      then (s, Inl (Raised (InvalidMessage ''Forwarded message too large'')))
                      else
                        (case process_forward env uuid now to encrypted_json s of
                           (s, Inr _) \<Rightarrow> (s, Inr None)
                         | (s, Inl Panicked) \<Rightarrow> (s, Inl Panicked)
                         | (s, Inl (Raised e)) \<Rightarrow> (s, Inl (Raised (ProcessingFailed (mediation_error_str e))))))))"

section \<open>What a forward does\<close>

definition forward_ok :: "('m \<Rightarrow> bool) \<Rightarrow> ('k \<Rightarrow> bool) \<Rightarrow> ('q \<Rightarrow> bool) \<Rightarrow> ('m, 'k, 'q) forward_state \<Rightarrow> bool" where
  "forward_ok minv kinv qinv s \<longleftrightarrow> minv (fw_mediations s) \<and> kinv (fw_keylists s) \<and> qinv (fw_queue s)"

text \<open>The week-old messages of a connection are dropped when it has a thousand pending ones.\<close>

definition relieved :: "timestamp \<Rightarrow> queued_message list \<Rightarrow> queued_message list" where
  "relieved now q = filter (\<lambda>m. \<not> qm_received_at m < now - FORWARD_STALE_RELIEF_TTL) q"

definition fw_fresh :: "string \<Rightarrow> abstract_queue \<Rightarrow> bool" where
  "fw_fresh uuid Q \<longleftrightarrow> (\<forall>c. \<forall>m\<in>set (Q c). qm_id m \<noteq> uuid)"

locale forwarder =
  M: mediation_repository "fe_mediations env" minv mview + K: keylist_repository "fe_keylists env" kinv kview kused +
  Q: message_repository "fe_queue env" qinv queue
  for env :: "('m, 'k, 'q) forward_env" and minv mview kinv kview kused qinv queue
begin

lemma cap_ok:
  assumes inv: "qinv (fw_queue s)" and run: "fw_cap env now c s = (s', Inr ())"
  shows "\<exists>q. s' = s\<lparr>fw_queue := q\<rparr> \<and> qinv q \<and>
    (queue q = queue (fw_queue s) \<or>
     MAX_QUEUE_PER_CONNECTION \<le> length (q_deliverable None (queue (fw_queue s) c)) \<and>
     queue q = (queue (fw_queue s))(c := relieved now (queue (fw_queue s) c)) \<and>
     length (relieved now (queue (fw_queue s) c)) < length (queue (fw_queue s) c))"
proof -
  obtain q1 x where 1: "qo_get_pending_count (fe_queue env) c None (fw_queue s) = (q1, x)"
    by (cases "qo_get_pending_count (fe_queue env) c None (fw_queue s)")
  have q1: "qinv q1" "queue q1 = queue (fw_queue s)" "x = Inr n \<Longrightarrow> n = length (q_deliverable None (queue (fw_queue s) c))" for n
    using Q.count [OF inv, of c None q1] Q.failed_read [OF inv, of c None q1] 1 by (cases x; auto)+
  show ?thesis
  proof (cases "\<exists>n. x = Inr n \<and> MAX_QUEUE_PER_CONNECTION \<le> n")
    case False
    then have "s' = s\<lparr>fw_queue := q1\<rparr>"
      using run 1 by (cases x; auto simp: fw_cap_def seq_def fw_attempt_def fw_pickup_def pm_pending_count_def split: fault.splits if_splits)
    then show ?thesis using q1(1,2) by blast
  next
    case True
    then obtain n where n: "x = Inr n" "MAX_QUEUE_PER_CONNECTION \<le> n" by blast
    obtain q2 y where 2: "qo_delete_expired_for_connection (fe_queue env) c (now - FORWARD_STALE_RELIEF_TTL) q1 = (q2, y)"
      by (cases "qo_delete_expired_for_connection (fe_queue env) c (now - FORWARD_STALE_RELIEF_TTL) q1")
    then obtain d where d: "y = Inr d" "d \<noteq> 0" "s' = s\<lparr>fw_queue := q2\<rparr>"
      using run 1 n by (cases y; auto simp: fw_cap_def seq_def fw_attempt_def fw_pickup_def pm_pending_count_def
          pm_delete_expired_for_connection_def guard_def split: fault.splits if_splits)
    note e = Q.expire [OF q1(1) 2 [unfolded d(1)], unfolded q1(2)]
    have "length (relieved now (queue (fw_queue s) c)) < length (queue (fw_queue s) c)"
      using e d(2) sum_length_filter_compl [of "\<lambda>m. qm_received_at m < now - FORWARD_STALE_RELIEF_TTL" "queue (fw_queue s) c"]
      unfolding relieved_def by linarith
    then show ?thesis using e d(3) n(2) q1(3) [OF n(1)] by (auto simp: relieved_def)
  qed
qed

lemma live_push_fields:
  "fw_live_push env c i msg s = (s', x) \<Longrightarrow>
     fw_mediations s' = fw_mediations s \<and> fw_keylists s' = fw_keylists s \<and> fw_queue s' = fw_queue s \<and> x = Inr ()"
  by (auto simp: fw_live_push_def split: if_splits option.splits)

lemma route_ok:
  assumes inv: "forward_ok minv kinv qinv s" and run: "fw_route env key s = (s', Inr c)"
  shows "routes (mview (fw_mediations s)) (kview (fw_keylists s)) (canonicalize_recipient_key (fe_b58 env) key) c"
    "forward_ok minv kinv qinv s'" "mview (fw_mediations s') = mview (fw_mediations s)" "kview (fw_keylists s') = kview (fw_keylists s)"
    "fw_queue s' = fw_queue s"
proof -
  let ?key = "canonicalize_recipient_key (fe_b58 env) key"
  obtain k x where 1: "ko_find_mediation_for_recipient_key (fe_keylists env) ?key (fw_keylists s) = (k, x)"
    by (cases "ko_find_mediation_for_recipient_key (fe_keylists env) ?key (fw_keylists s)")
  obtain r where r: "x = Inr (Some r)" using run 1
    by (cases x) (auto simp: fw_route_def seq_def fw_keylist_def ok_or_def split: option.splits)
  obtain m y where 2: "mo_find_by_id (fe_mediations env) (ke_mediation_id r) (fw_mediations s) = (m, y)"
    by (cases "mo_find_by_id (fe_mediations env) (ke_mediation_id r) (fw_mediations s)")
  obtain me where me: "y = Inr (Some me)" using run 1 2 r
    by (cases y) (auto simp: fw_route_def seq_def fw_keylist_def fw_mediation_def ok_or_def split: option.splits)
  have s': "s' = s\<lparr>fw_keylists := k, fw_mediations := m\<rparr>" "c = me_connection_id me" using run 1 2 r me
    by (auto simp: fw_route_def seq_def fw_keylist_def fw_mediation_def guard_def split: if_splits)
  have f: "kinv k" "kview k = kview (fw_keylists s)" "kview (fw_keylists s) (ke_id r) = Some r" "ke_recipient_key r = ?key"
    using K.find_mediation_for_recipient_key [OF _ 1] inv r by (auto simp: forward_ok_def)
  have g: "minv m" "mview m = mview (fw_mediations s)" "mview (fw_mediations s) (ke_mediation_id r) = Some me"
    using M.find_by_id [OF _ 2] inv me by (auto simp: forward_ok_def)
  show "routes (mview (fw_mediations s)) (kview (fw_keylists s)) ?key c" using f g s' by (auto simp: routes_def)
  show "forward_ok minv kinv qinv s'" "mview (fw_mediations s') = mview (fw_mediations s)" "kview (fw_keylists s') = kview (fw_keylists s)"
    "fw_queue s' = fw_queue s" using inv f g s' by (auto simp: forward_ok_def)
qed

lemma enqueue_ok:
  assumes inv: "forward_ok minv kinv qinv s" and fresh: "fw_fresh uuid (queue (fw_queue s))"
    and run: "fw_enqueue env uuid now c key msg s = (s', Inr i)"
  shows "\<exists>Q. i = uuid \<and> forward_ok minv kinv qinv s' \<and> fw_mediations s' = fw_mediations s \<and> fw_keylists s' = fw_keylists s \<and>
    queue (fw_queue s') = (queue (fw_queue s))(c := Q @ [qm_new uuid now c [key] msg]) \<and>
    (Q = queue (fw_queue s) c \<or>
     MAX_QUEUE_PER_CONNECTION \<le> length (q_deliverable None (queue (fw_queue s) c)) \<and>
     Q = relieved now (queue (fw_queue s) c) \<and> length Q < length (queue (fw_queue s) c))"
proof -
  obtain s1 where 1: "fw_cap env now c s = (s1, Inr ())"
    using run by (cases "fw_cap env now c s"; cases "snd (fw_cap env now c s)") (auto simp: fw_enqueue_def seq_def)
  obtain q where q: "s1 = s\<lparr>fw_queue := q\<rparr>" "qinv q" "queue q = queue (fw_queue s) \<or>
     MAX_QUEUE_PER_CONNECTION \<le> length (q_deliverable None (queue (fw_queue s) c)) \<and>
     queue q = (queue (fw_queue s))(c := relieved now (queue (fw_queue s) c)) \<and>
     length (relieved now (queue (fw_queue s) c)) < length (queue (fw_queue s) c)"
    using cap_ok [OF _ 1] inv by (auto simp: forward_ok_def)
  let ?m = "qm_new uuid now c [key] msg"
  have m: "qm_id ?m = uuid" "qm_connection_id ?m = c" by (simp_all add: qm_new_def)
  obtain q2 y where 2: "qo_add_message (fe_queue env) ?m q = (q2, y)" by (cases "qo_add_message (fe_queue env) ?m q")
  obtain j where y: "y = Inr j" using run 1 2 q(1)
    by (cases y) (auto simp: fw_enqueue_def seq_def fw_pickup_def pm_queue_message_def split: fault.splits)
  have "set (queue q c') \<subseteq> set (queue (fw_queue s) c')" for c' using q(3) by (auto simp: relieved_def split: if_splits)
  then have "\<forall>c'. \<forall>m'\<in>set (queue q c'). qm_id m' \<noteq> qm_id ?m" using fresh unfolding m fw_fresh_def by blast
  note add = Q.add [OF q(2) this 2 [unfolded y], unfolded m]
  define s3 where "s3 = (if fe_notifier env then s\<lparr>fw_queue := q2, fw_notified := fw_notified s @ [c]\<rparr> else s\<lparr>fw_queue := q2\<rparr>)"
  then have s3: "fw_mediations s3 = fw_mediations s" "fw_keylists s3 = fw_keylists s" "fw_queue s3 = q2" by simp_all
  have push: "seq (fw_live_push env c j msg) (\<lambda>_. ok j) s3 = (s', Inr i)"
    using run 1 2 q(1) y by (cases "fe_notifier env") (simp_all add: fw_enqueue_def seq_def fw_pickup_def pm_queue_message_def s3_def split: prod.splits sum.splits)
  have s': "fw_mediations s' = fw_mediations s \<and> fw_keylists s' = fw_keylists s \<and> fw_queue s' = q2 \<and> i = j"
    using push live_push_fields [of c j msg s3] s3 by (cases "fw_live_push env c j msg s3") (auto simp: seq_def)
  then show ?thesis using add q(3) inv by (auto simp: forward_ok_def intro!: exI [of _ "queue q c"])
qed

lemma process_forward_ok:
  assumes inv: "forward_ok minv kinv qinv s" and fresh: "fw_fresh uuid (queue (fw_queue s))"
    and run: "process_forward env uuid now key msg s = (s', Inr i)"
  shows "\<exists>c Q. routes (mview (fw_mediations s)) (kview (fw_keylists s)) (canonicalize_recipient_key (fe_b58 env) key) c \<and>
    i = uuid \<and> forward_ok minv kinv qinv s' \<and>
    mview (fw_mediations s') = mview (fw_mediations s) \<and> kview (fw_keylists s') = kview (fw_keylists s) \<and>
    queue (fw_queue s') = (queue (fw_queue s))(c := Q @ [qm_new uuid now c [key] msg]) \<and>
    (Q = queue (fw_queue s) c \<or>
     MAX_QUEUE_PER_CONNECTION \<le> length (q_deliverable None (queue (fw_queue s) c)) \<and>
     Q = relieved now (queue (fw_queue s) c) \<and> length Q < length (queue (fw_queue s) c))"
proof -
  obtain s1 c where 1: "fw_route env key s = (s1, Inr c)" and 2: "fw_enqueue env uuid now c key msg s1 = (s', Inr i)"
    using run by (auto simp: process_forward_def guard_def seq_def split: if_splits prod.splits sum.splits)
  note r = route_ok [OF inv 1]
  show ?thesis using enqueue_ok [OF r(2) _ 2] fresh r by (auto simp: r(5))
qed

end

section \<open>What a replay does\<close>

text \<open>The pending messages of a connection, in the order of delivery.\<close>

definition waiting :: "queued_message list \<Rightarrow> queued_message list" where
  "waiting q = sort_key qm_received_at (q_deliverable None q)"

lemma waiting_props: "length (waiting q) = length (q_deliverable None q)" "set (waiting q) \<subseteq> set q"
  by (auto simp: waiting_def q_deliverable_def)

lemma deliverable_marked:
  "q_deliverable None (map (\<lambda>m. if qm_id m \<in> A then mark_sending m else m) q) = filter (\<lambda>m. qm_id m \<notin> A) (q_deliverable None q)"
  unfolding q_deliverable_def matches_recipient_key_def by (induction q) auto

lemma waiting_marked:
  assumes "distinct (map qm_id (Q c))"
  shows "waiting (q_mark mark_sending (qm_id ` set (take n (waiting (Q c)))) Q c) = drop n (waiting (Q c))"
proof -
  let ?w = "waiting (Q c)" and ?A = "qm_id ` set (take n (waiting (Q c)))"
  have "q_deliverable None (q_mark mark_sending ?A Q c) = filter (\<lambda>m. qm_id m \<notin> ?A) (q_deliverable None (Q c))"
    by (simp add: q_mark_def deliverable_marked)
  then have "waiting (q_mark mark_sending ?A Q c) = filter (\<lambda>m. qm_id m \<notin> ?A) ?w"
    by (simp add: waiting_def filter_sort)
  also have "\<dots> = filter (\<lambda>m. m \<notin> set (take n ?w)) ?w"
  proof (rule filter_cong [OF refl])
    fix m assume m: "m \<in> set ?w"
    have "inj_on qm_id (set (Q c))" using assms by (simp add: distinct_map)
    moreover have "set (take n ?w) \<subseteq> set (Q c)" "m \<in> set (Q c)" using m waiting_props(2) set_take_subset by fastforce+
    ultimately show "qm_id m \<notin> ?A \<longleftrightarrow> m \<notin> set (take n ?w)" by (auto dest: inj_onD)
  qed
  also have "\<dots> = drop n ?w"
  proof (rule filter_not_take)
    have "distinct (Q c)" using assms by (simp add: distinct_map)
    then show "distinct ?w" by (simp add: waiting_def q_deliverable_def)
  qed
  finally show ?thesis .
qed

text \<open>
  A replay that ends with \<open>n\<close> delivered took the first \<open>k\<close> waiting messages and marked them; the
  difference is a last batch that was taken and not delivered.
\<close>

definition flushed :: "('q \<Rightarrow> bool) \<Rightarrow> ('q \<Rightarrow> abstract_queue) \<Rightarrow> string \<Rightarrow> nat \<Rightarrow> ('m, 'k, 'q) forward_state \<Rightarrow> ('m, 'k, 'q) forward_state \<Rightarrow>
    (mediation_error fault + nat) option \<Rightarrow> bool" where
  "flushed qinv queue c delivered s s' r \<longleftrightarrow> (\<exists>x. r = Some x \<and> (\<forall>n. x = Inr n \<longrightarrow> (\<exists>d k. n = delivered + d \<and> d \<le> k \<and> k \<le> d + 50 \<and>
     k \<le> length (waiting (queue (fw_queue s) c)) \<and> (d = k \<longrightarrow> k = length (waiting (queue (fw_queue s) c))) \<and> qinv (fw_queue s') \<and>
     queue (fw_queue s') = q_mark mark_sending (qm_id ` set (take k (waiting (queue (fw_queue s) c)))) (queue (fw_queue s)))))"

lemma flushed_stop:
  assumes "qinv (fw_queue t)" "fw_queue s' = fw_queue t"
    and "queue (fw_queue t) = q_mark mark_sending (qm_id ` set (take 50 (waiting (queue (fw_queue s) c)))) (queue (fw_queue s))"
    and "d \<le> min 50 (length (waiting (queue (fw_queue s) c)))"
    and "d = min 50 (length (waiting (queue (fw_queue s) c))) \<longrightarrow> length (waiting (queue (fw_queue s) c)) \<le> 50"
  shows "flushed qinv queue c delivered s s' (Some (Inr (delivered + d)))"
proof -
  let ?w = "waiting (queue (fw_queue s) c)"
  have "take 50 ?w = take (min 50 (length ?w)) ?w" by (simp add: min_def)
  then show ?thesis unfolding flushed_def using assms
    by (intro exI [of _ "Inr (delivered + d)"]) (auto intro!: exI [of _ d] exI [of _ "min 50 (length ?w)"])
qed

lemma flushed_next:
  assumes r: "flushed qinv queue c (delivered + 50) s1 s' r" and w: "waiting (queue (fw_queue s1) c) = drop 50 (waiting (queue (fw_queue s) c))"
    and q: "queue (fw_queue s1) = q_mark mark_sending (qm_id ` set (take 50 (waiting (queue (fw_queue s) c)))) (queue (fw_queue s))"
    and len: "50 \<le> length (waiting (queue (fw_queue s) c))"
  shows "flushed qinv queue c delivered s s' r"
proof -
  let ?w = "waiting (queue (fw_queue s) c)"
  obtain x where x: "r = Some x" and n: "\<forall>n. x = Inr n \<longrightarrow> (\<exists>d k. n = delivered + 50 + d \<and> d \<le> k \<and> k \<le> d + 50 \<and> k \<le> length (drop 50 ?w) \<and>
      (d = k \<longrightarrow> k = length (drop 50 ?w)) \<and> qinv (fw_queue s') \<and>
      queue (fw_queue s') = q_mark mark_sending (qm_id ` set (take k (drop 50 ?w))) (queue (fw_queue s1)))"
    using r unfolding flushed_def w by blast
  have "\<exists>d k. n = delivered + d \<and> d \<le> k \<and> k \<le> d + 50 \<and> k \<le> length ?w \<and> (d = k \<longrightarrow> k = length ?w) \<and> qinv (fw_queue s') \<and>
      queue (fw_queue s') = q_mark mark_sending (qm_id ` set (take k ?w)) (queue (fw_queue s))" if inr: "x = Inr n" for n
  proof -
    obtain d k where dk: "n = delivered + 50 + d" "d \<le> k" "k \<le> d + 50" "k \<le> length (drop 50 ?w)" "d = k \<longrightarrow> k = length (drop 50 ?w)"
      "qinv (fw_queue s')" "queue (fw_queue s') = q_mark mark_sending (qm_id ` set (take k (drop 50 ?w))) (queue (fw_queue s1))"
      using n inr by blast
    have "set (take (50 + k) ?w) = set (take k (drop 50 ?w)) \<union> set (take 50 ?w)" unfolding take_add by auto
    then have "queue (fw_queue s') = q_mark mark_sending (qm_id ` set (take (50 + k) ?w)) (queue (fw_queue s))"
      using dk(7) q by (simp add: q_mark_mark image_Un)
    then show ?thesis using dk len by (intro exI [of _ "50 + d"] exI [of _ "50 + k"]) auto
  qed
  then show ?thesis using x by (simp add: flushed_def)
qed

context forwarder
begin

abbreviation waits :: "string \<Rightarrow> ('m, 'k, 'q) forward_state \<Rightarrow> queued_message list" where
  "waits c s \<equiv> waiting (queue (fw_queue s) c)"

text \<open>One round takes the next fifty.\<close>

lemma round_ok:
  assumes inv: "qinv (fw_queue s)"
    and run: "fw_pickup g (pm_process_delivery_request (fe_queue env) b64 u (replay_request u') c) s = (s1, Inr batch)"
  shows "qinv (fw_queue s1)" "queue (fw_queue s1) = q_mark mark_sending (qm_id ` set (take 50 (waits c s))) (queue (fw_queue s))"
    "md_attachments batch = map (pm_attachment b64) (take 50 (waits c s))" "waits c s1 = drop 50 (waits c s)"
    "fw_live s1 = fw_live s" "length (md_attachments batch) = min 50 (length (waits c s))"
proof -
  obtain q where q: "pm_process_delivery_request (fe_queue env) b64 u (replay_request u') c (fw_queue s) = (q, Inr batch)" "s1 = s\<lparr>fw_queue := q\<rparr>"
    using run by (cases "snd (pm_process_delivery_request (fe_queue env) b64 u (replay_request u') c (fw_queue s))")
      (auto simp: fw_pickup_def split: prod.splits)
  have b: "take 50 (waits c s) = q_batch (dr_recipient_key (replay_request u')) (unat (dr_limit (replay_request u'))) (queue (fw_queue s) c)"
    by (simp add: replay_request_def RECONNECT_REPLAY_BATCH_def q_batch_def waiting_def)
  note d = Q.delivery [OF inv q(1) b]
  show "qinv (fw_queue s1)" "queue (fw_queue s1) = q_mark mark_sending (qm_id ` set (take 50 (waits c s))) (queue (fw_queue s))"
    "md_attachments batch = map (pm_attachment b64) (take 50 (waits c s))" "fw_live s1 = fw_live s" using d q(2) by simp_all
  then show "length (md_attachments batch) = min 50 (length (waits c s))" by simp
  have "distinct (map qm_id (queue (fw_queue s) c))" using Q.unique [OF inv] by (simp add: q_unique_def)
  then show "waits c s1 = drop 50 (waits c s)" using d(2) q(2) waiting_marked [of "queue (fw_queue s)" c 50] by simp
qed

lemma flush_loop_ok:
  assumes "qinv (fw_queue s)" "length (waits c s) div 50 < fuel"
    and "flush_loop env wait uuid c fuel round delivered s = (s', r)"
  shows "flushed qinv queue c delivered s s' r"
  using assms
proof (induction fuel arbitrary: round delivered s)
  case (Suc fuel)
  let ?take = "fw_pickup (\<lambda>_. MedStorage ''flush take_from_queue: '')
     (pm_process_delivery_request (fe_queue env) (fe_b64 env) (snd (uuid round)) (replay_request (fst (uuid round))) c)"
  obtain s1 x where 1: "?take s = (s1, x)" by (cases "?take s")
  show ?case
  proof (cases x)
    case (Inl e)
    then show ?thesis using Suc.prems(3) 1 by (auto simp: flushed_def)
  next
    case (Inr batch)
    note b = round_ok [OF Suc.prems(1) 1 [unfolded Inr]]
    note stop = flushed_stop [where qinv = qinv and queue = queue and c = c and s = s and t = s1 and s' = s' and delivered = delivered, OF b(1) _ b(2)]
    have len50: "unat RECONNECT_REPLAY_BATCH = 50" by (simp add: RECONNECT_REPLAY_BATCH_def)
    let ?frame = "build_delivery_frame (fe_to_json env) (md_id batch) (md_attachments batch)"
    obtain live y where live: "deliver_or_drop wait c (the ?frame) (fw_live s1) = (live, y)" by (cases "deliver_or_drop wait c (the ?frame) (fw_live s1)")
    consider "md_attachments batch = [] \<or> ?frame = None \<or> (\<exists>e. y = Inl e)"
      | "md_attachments batch \<noteq> []" "?frame \<noteq> None" "y = Inr ()" "length (waits c s) < 50"
      | "md_attachments batch \<noteq> []" "?frame \<noteq> None" "y = Inr ()" "50 \<le> length (waits c s)"
      by (cases y) fastforce+
    then show ?thesis
    proof cases
      case 1
      have "r = Some (Inr (delivered + 0)) \<and> fw_queue s' = fw_queue s1"
        using 1 Suc.prems(3) \<open>?take s = (s1, x)\<close> Inr live by (cases "md_attachments batch = []"; cases ?frame) auto
      then show ?thesis using stop [of 0] by (auto simp: min_def split: if_splits)
    next
      case 2
      then have "r = Some (Inr (delivered + length (waits c s))) \<and> fw_queue s' = fw_queue s1"
        using Suc.prems(3) 1 Inr live len50 b(6) by (auto simp: Let_def)
      then show ?thesis using stop [of "length (waits c s)"] 2(4) by auto
    next
      case 3
      let ?s2 = "s1\<lparr>fw_live := live\<rparr>"
      have w2: "waits c ?s2 = drop 50 (waits c s)" using b(4) by simp
      have run: "flush_loop env wait uuid c fuel (Suc round) (delivered + 50) ?s2 = (s', r)"
        using 3 Suc.prems(3) 1 Inr live len50 b(6) by (auto simp: Let_def)
      have "length (waits c ?s2) div 50 < fuel" using Suc.prems(2) 3(4) unfolding w2 by (simp add: le_div_geq)
      then show ?thesis using flushed_next [OF Suc.IH [OF _ _ run] w2 _ 3(4)] b(1,2) by simp
    qed
  qed
qed simp

end

end
