(* ===== verification/Mediation_Guarantees.thy ===== *)
theory Mediation_Guarantees
  imports Mediation_Storage Forward_Service
begin

text \<open>
  What the mediation protocol promises, from the repositories to the delivered message: the
  storage-backed keylist keeps the contract the services rely on, nobody can redirect the messages
  of another connection, what is forwarded reaches the connection that registered the key, and the
  replay over a new session ends. The last section holds the cases in which the code does less
  than its comments say.
\<close>

section \<open>Properties\<close>

text \<open>
  C34. The storage-backed keylist repository keeps the repository contract over every storage
  provider that keeps its own: whatever calls of the provider fail, the cache and the storage agree,
  a lookup answers from the stored records, a write that fails changes nothing, and a key is found
  for a mediation exactly when a record with that key is stored.
\<close>

theorem stored_keylists_refine:
  assumes "tagged_provider ops pinv content" and "serde_ok sd"
  shows "keylist_repository (stored_key_ops ops sd) (sk_inv sd pinv content) (sk_view sd content) (sk_used sd content)"
  by (rule tagged_provider.stored_keylist_repository [OF assms])

definition demo_keylist :: keylist_record where
  "demo_keylist = keylist_record_new ''k1'' 0 ''m1'' ''key'' KeyAdd KeySuccess"

definition demo_serde :: "keylist_record serde" where
  "demo_serde = \<lparr>sd_to_vec = (\<lambda>r. if r = demo_keylist then Some [1] else None), sd_from_slice = (\<lambda>bs. if bs = [1] then Some demo_keylist else None)\<rparr>"

lemma demo_serde_ok: "serde_ok demo_serde"
  by (simp add: serde_ok_def demo_serde_def)

lemma sk_new_inv: "sk_inv sd mem_inv mem_content (sk_new [])"
  by (simp add: sk_inv_def sk_new_def sk_view_def stored_view_def mem_inv_def mem_content_def mem_category_def)

theorem stored_keylists_refine_witness:
  "\<exists>s s'. sk_save memory_ops demo_serde demo_keylist (sk_new []) = (s, Inr ()) \<and>
     ko_find_mediation_for_recipient_key (stored_key_ops memory_ops demo_serde) ''key'' (sk_new (sk_storage s)) = (s', Inr (Some demo_keylist)) \<and>
     sk_view demo_serde mem_content s = [''k1'' \<mapsto> demo_keylist]"
proof -
  let ?ops = "stored_key_ops memory_ops demo_serde"
  note K = stored_keylists_refine [OF tagged_memory.tagged_provider_axioms demo_serde_ok]
  obtain s where s: "sk_save memory_ops demo_serde demo_keylist (sk_new []) = (s, Inr ())"
    and look: "snd (ko_find_mediation_for_recipient_key ?ops ''key'' (sk_new (sk_storage s))) = Inr (Some demo_keylist)"
    by (rule that [of "fst (sk_save memory_ops demo_serde demo_keylist (sk_new []))"]) code_simp+
  have "ke_id demo_keylist = ''k1''" by (simp add: demo_keylist_def keylist_record_new_def)
  moreover have "sk_view demo_serde mem_content (sk_new []) = Map.empty" "''k1'' \<notin> sk_used demo_serde mem_content (sk_new [])"
    by (auto simp: sk_view_def sk_used_def stored_view_def sk_new_def mem_content_def mem_category_def fun_eq_iff)
  ultimately have "sk_view demo_serde mem_content s = [''k1'' \<mapsto> demo_keylist]"
    using keylist_repository.save [OF K sk_new_inv, of demo_keylist s "Inr ()"] s by (simp add: stored_key_ops_def)
  then show ?thesis using s look by (metis prod.collapse)
qed

text \<open>
  C5. No connection can redirect the messages of another. For any repositories that keep their
  contracts and any sequence of requests, keylist updates, grants and denials, none of them sent
  over connection \<open>c\<close>, a key leads to \<open>c\<close> afterwards exactly when it did before, and a key that leads
  to \<open>c\<close> leads nowhere else; record ids are fresh.
\<close>

theorem no_route_hijack:
  assumes "mediation_repository mops minv mview" "keylist_repository kops kinv kview kused"
    and "mediator_ok minv kinv kview s" "inj (case_prod uuid)" "\<forall>a b. uuid a b \<notin> kused (ms_keylists s)"
    and "\<forall>e\<in>set es. event_connection e \<noteq> Some c"
  shows "let s' = mediator_run mops kops cd cfg b58 auto_grant uuid 0 es s
    in (routes_of mview kview s' key c \<longleftrightarrow> routes_of mview kview s key c) \<and>
       (routes_of mview kview s' key c \<longrightarrow> routes_of mview kview s' key c' \<longrightarrow> c' = c)"
proof -
  have M: "mediator mops minv mview kops kinv kview kused" using assms(1,2) by (rule mediator.intro)
  have run: "mediator_ok minv kinv kview (mediator_run mops kops cd cfg b58 auto_grant uuid 0 es s) \<and>
    (routes_of mview kview (mediator_run mops kops cd cfg b58 auto_grant uuid 0 es s) key c \<longleftrightarrow> routes_of mview kview s key c)"
    by (rule mediator.run_step [OF M assms(3,4) _ assms(6)]) (use assms(5) in simp)
  then show ?thesis by (auto simp: Let_def mediator_ok_def routes_of_def dest: one_per_key_routes)
qed

text \<open>A mediator with two clients, of which one has registered a key.\<close>

definition demo_mediation :: "string \<Rightarrow> string \<Rightarrow> mediation_record" where
  "demo_mediation i c = (mediation_record_new i 0 c RoleMediator)\<lparr>me_state := MedGranted\<rparr>"

definition demo_mediator :: "(mediation_map, keylist_map) mediation_service" where
  "demo_mediator = \<lparr>ms_mediations = [(''m1'', demo_mediation ''m1'' ''alice''), (''m2'', demo_mediation ''m2'' ''mallory'')],
     ms_keylists = [(''k1'', demo_keylist)], ms_has_bus = True, ms_events = []\<rparr>"

definition demo_med_codec :: mediation_codec where
  "demo_med_codec = \<lparr>mcd_request = (\<lambda>m. Inr (mediation_request_new (msg_id m))), mcd_grant = (\<lambda>m. Inl ''''), mcd_deny = (\<lambda>m. Inl ''''),
     mcd_update = (\<lambda>m. Inr (keylist_update_message_new (msg_id m) [\<lparr>ku_recipient_key = ''key'', ku_action = KeyAdd\<rparr>])),
     mcd_response = (\<lambda>m. Inl ''''), mcd_of_grant = (\<lambda>g. Inr (message_new (mg_id g) (mg_msg_type g) (JObject []))),
     mcd_of_response = (\<lambda>r. Inr (message_new (kr_id r) (kr_msg_type r) (JObject [])))\<rparr>"

definition demo_b58 :: base58 where
  "demo_b58 = \<lparr>b58_decode = (\<lambda>_. None), b58_encode = (\<lambda>_. '''')\<rparr>"

definition demo_inbound :: "string \<Rightarrow> inbound_message" where
  "demo_inbound c = \<lparr>in_message = message_new ''u'' ''t'' (JObject []), in_context =
     \<lparr>cx_from = None, cx_to = None, cx_thread_id = None, cx_parent_thread_id = None, cx_connection_id = Some c,
      cx_encrypted = True, cx_authenticated = True, cx_sender_endpoint = None, cx_raw_plaintext = None\<rparr>\<rparr>"

definition demo_uuid :: "nat \<Rightarrow> nat \<Rightarrow> string" where
  "demo_uuid a b = CHR ''u'' # replicate a CHR ''a'' @ replicate b CHR ''b''"

lemma demo_uuid_inj: "inj (case_prod demo_uuid)"
proof (rule injI, clarify)
  fix a b a' b'
  assume eq: "demo_uuid a b = demo_uuid a' b'"
  have "length (filter ((=) CHR ''a'') (demo_uuid x y)) = x" "length (filter ((=) CHR ''b'') (demo_uuid x y)) = y" for x y
    by (simp_all add: demo_uuid_def filter_replicate)
  from this [of a b] this [of a' b'] show "a = a' \<and> b = b'" unfolding eq by simp
qed

lemma demo_mediator_ok: "mediator_ok (map_inv me_id) (map_inv ke_id) map_of demo_mediator"
  by (auto simp: mediator_ok_def demo_mediator_def map_inv_def one_per_key_def demo_mediation_def mediation_record_new_def demo_keylist_def keylist_record_new_def split: if_splits)

lemma demo_routes: "routes_of map_of map_of demo_mediator ''key'' ''alice''"
  by (auto simp: routes_of_def routes_def demo_mediator_def demo_mediation_def mediation_record_new_def demo_keylist_def keylist_record_new_def)

lemma demo_uuid_fresh: "\<forall>a b. demo_uuid a b \<notin> dom (map_of (ms_keylists demo_mediator))"
  by (simp add: demo_uuid_def demo_mediator_def)

theorem no_route_hijack_witness:
  "let s' = mediator_run memory_med_ops memory_key_ops demo_med_codec \<lparr>mc_endpoint = '''', mc_routing_keys = []\<rparr> demo_b58 True demo_uuid 0
       [MeRequest 1 (demo_inbound ''mallory''), MeKeylistUpdate 2 (demo_inbound ''mallory'')] demo_mediator
   in routes_of map_of map_of s' ''key'' ''alice'' \<and> \<not> routes_of map_of map_of s' ''key'' ''mallory''"
  using no_route_hijack [OF memory_mediations.mediation_repository_axioms memory_keylists.keylist_repository_axioms
      demo_mediator_ok demo_uuid_inj demo_uuid_fresh, where c = "''alice''" and c' = "''mallory''" and key = "''key''" and
      es = "[MeRequest 1 (demo_inbound ''mallory''), MeKeylistUpdate 2 (demo_inbound ''mallory'')]"] demo_routes
  by (auto simp: demo_inbound_def Let_def)

text \<open>
  C10. What is forwarded reaches the connection that registered the key. If a key leads to
  connection \<open>c\<close>, then whatever the other connections do in between, a forward to that key, in any
  form that has it as its canonical one, which succeeds has appended the message to the queue of \<open>c\<close>,
  pending, and to no other; the rest of the queue is kept, except that messages older than a week
  may go when a thousand are pending.
\<close>

theorem forward_reaches_owner:
  assumes "mediation_repository (fe_mediations env) minv mview" "keylist_repository (fe_keylists env) kinv kview kused"
    "message_repository (fe_queue env) qinv queue"
    and "mediator_ok minv kinv kview s" "inj (case_prod uuid)" "\<forall>a b. uuid a b \<notin> kused (ms_keylists s)"
    and "\<forall>e\<in>set es. event_connection e \<noteq> Some c" and "routes_of mview kview s (canonicalize_recipient_key (fe_b58 env) key) c"
    and "s' = mediator_run (fe_mediations env) (fe_keylists env) cd cfg (fe_b58 env) auto_grant uuid 0 es s"
    and "fw_mediations t = ms_mediations s'" "fw_keylists t = ms_keylists s'" "qinv (fw_queue t)" "fw_fresh i (queue (fw_queue t))"
    and "process_forward env i now key msg t = (t', Inr j)"
  shows "\<exists>Q. queue (fw_queue t') = (queue (fw_queue t))(c := Q @ [qm_new i now c [key] msg]) \<and>
    (Q = queue (fw_queue t) c \<or>
     MAX_QUEUE_PER_CONNECTION \<le> length (q_deliverable None (queue (fw_queue t) c)) \<and> Q = relieved now (queue (fw_queue t) c))"
proof -
  let ?key = "canonicalize_recipient_key (fe_b58 env) key"
  have M: "mediator (fe_mediations env) minv mview (fe_keylists env) kinv kview kused" using assms(1,2) by (rule mediator.intro)
  have F: "forwarder env minv mview kinv kview kused qinv queue" using assms(1,2,3) by (rule forwarder.intro)
  have run: "mediator_ok minv kinv kview s' \<and> (routes_of mview kview s' ?key c \<longleftrightarrow> routes_of mview kview s ?key c)"
    unfolding assms(9) by (rule mediator.run_step [OF M assms(4,5) _ assms(7)]) (use assms(6) in simp)
  have "forward_ok minv kinv qinv t" using run assms(10-12) by (simp add: forward_ok_def mediator_ok_def)
  from forwarder.process_forward_ok [OF F this assms(13,14)] obtain c' Q where
    r: "routes (mview (fw_mediations t)) (kview (fw_keylists t)) ?key c'" and
    q: "queue (fw_queue t') = (queue (fw_queue t))(c' := Q @ [qm_new i now c' [key] msg])" and
    Q: "Q = queue (fw_queue t) c' \<or> MAX_QUEUE_PER_CONNECTION \<le> length (q_deliverable None (queue (fw_queue t) c')) \<and> Q = relieved now (queue (fw_queue t) c')"
    by blast
  have "routes (mview (fw_mediations t)) (kview (fw_keylists t)) ?key c" "one_per_key (kview (fw_keylists t))"
    using run assms(8,10,11) by (simp_all add: routes_of_def mediator_ok_def)
  then have "c' = c" using one_per_key_routes r by blast
  then show ?thesis using q Q by blast
qed

definition demo_forward_env :: "(mediation_map, keylist_map, message_queue) forward_env" where
  "demo_forward_env = \<lparr>fe_mediations = memory_med_ops, fe_keylists = memory_key_ops, fe_queue = memory_queue_ops, fe_b58 = demo_b58,
     fe_b64 = bytes_str, fe_to_json = (\<lambda>m. Some (msg_id m)), fe_strategy = QueueAndLiveDelivery, fe_notifier = True\<rparr>"

definition demo_forward_state :: "(mediation_map, keylist_map) mediation_service \<Rightarrow> (mediation_map, keylist_map, message_queue) forward_state" where
  "demo_forward_state s = \<lparr>fw_mediations = ms_mediations s, fw_keylists = ms_keylists s, fw_queue = mq_new,
     fw_live = live_sessions_new (\<lambda>_. channel_new 1) (\<lambda>_. channel_new 1) 0, fw_notified = []\<rparr>"

definition demo_attacked :: "(mediation_map, keylist_map) mediation_service" where
  "demo_attacked = mediator_run memory_med_ops memory_key_ops demo_med_codec \<lparr>mc_endpoint = '''', mc_routing_keys = []\<rparr> demo_b58 True demo_uuid 0
     [MeKeylistUpdate 2 (demo_inbound ''mallory'')] demo_mediator"

lemma demo_forwarded: "\<exists>t'. process_forward demo_forward_env ''i1'' 5 ''key'' ''hello'' (demo_forward_state demo_attacked) = (t', Inr ''i1'')"
proof -
  have "snd (seq (fw_route demo_forward_env ''key'') (\<lambda>c. fw_enqueue demo_forward_env ''i1'' 5 c ''key'' ''hello'') (demo_forward_state demo_attacked)) = Inr ''i1''"
    by code_simp
  then show ?thesis
    by (simp add: process_forward_def MAX_FORWARDED_MESSAGE_SIZE_BYTES_def seq_def [of "guard True _"]) (metis prod.collapse)
qed

theorem forward_reaches_owner_witness:
  "\<exists>t'. process_forward demo_forward_env ''i1'' 5 ''key'' ''hello'' (demo_forward_state demo_attacked) = (t', Inr ''i1'') \<and>
     mq_abs (fw_queue t') ''alice'' = [qm_new ''i1'' 5 ''alice'' [''key''] ''hello'']"
proof -
  obtain t' where t': "process_forward demo_forward_env ''i1'' 5 ''key'' ''hello'' (demo_forward_state demo_attacked) = (t', Inr ''i1'')"
    using demo_forwarded by blast
  have env: "fe_mediations demo_forward_env = memory_med_ops" "fe_keylists demo_forward_env = memory_key_ops"
    "fe_queue demo_forward_env = memory_queue_ops" "fe_b58 demo_forward_env = demo_b58" by (simp_all add: demo_forward_env_def)
  have st: "fw_mediations (demo_forward_state demo_attacked) = ms_mediations demo_attacked" "fw_keylists (demo_forward_state demo_attacked) = ms_keylists demo_attacked"
    "fw_queue (demo_forward_state demo_attacked) = mq_new" by (simp_all add: demo_forward_state_def)
  have empty: "mq_abs mq_new = (\<lambda>_. [])" by (auto simp: mq_abs_def mq_ids_def mq_new_def fun_eq_iff map_filter_simps)
  have key: "canonicalize_recipient_key demo_b58 ''key'' = ''key''" by code_simp
  have others: "\<forall>e\<in>set [MeKeylistUpdate 2 (demo_inbound ''mallory'')]. event_connection e \<noteq> Some ''alice''" by (simp add: demo_inbound_def)
  from forward_reaches_owner [where env = demo_forward_env and minv = "map_inv me_id" and mview = map_of and kinv = "map_inv ke_id" and kview = map_of
      and kused = "\<lambda>m. dom (map_of m)" and qinv = mq_inv and queue = mq_abs and s = demo_mediator and t = "demo_forward_state demo_attacked" and key = "''key''", unfolded env st key empty,
      OF memory_mediations.mediation_repository_axioms memory_keylists.keylist_repository_axioms memory_queue.message_repository_axioms
      demo_mediator_ok demo_uuid_inj demo_uuid_fresh others demo_routes demo_attacked_def refl refl mq_new_inv _ t']
  obtain Q where "mq_abs (fw_queue t') = (\<lambda>_. [])(''alice'' := Q @ [qm_new ''i1'' 5 ''alice'' [''key''] ''hello''])"
      "Q = [] \<or> MAX_QUEUE_PER_CONNECTION \<le> length (q_deliverable None [])"
    by (auto simp: fw_fresh_def)
  then show ?thesis using t' by (auto simp: q_deliverable_def MAX_QUEUE_PER_CONNECTION_def)
qed

text \<open>
  C33. The replay of a connection's queue over its live session ends. With a round for every fifty
  waiting messages it always returns, and when it reports \<open>n\<close> messages as delivered, these are the
  first \<open>n\<close> waiting ones, now marked as being sent; either they were all, or one more batch of at most
  fifty is marked although it was not delivered. Every other message is left as it was.
\<close>

theorem replay_ends:
  assumes "mediation_repository (fe_mediations env) minv mview" "keylist_repository (fe_keylists env) kinv kview kused"
    "message_repository (fe_queue env) qinv queue"
    and "qinv (fw_queue s)" "length (waiting (queue (fw_queue s) c)) div 50 < fuel"
  shows "\<exists>s' x. flush_queued_for_connection env wait uuid fuel c s = (s', Some x) \<and>
    (\<forall>n. x = Inr n \<longrightarrow> (\<exists>k. n \<le> k \<and> k \<le> n + 50 \<and> k \<le> length (waiting (queue (fw_queue s) c)) \<and>
       (n = k \<longrightarrow> n = length (waiting (queue (fw_queue s) c))) \<and>
       queue (fw_queue s') = q_mark mark_sending (qm_id ` set (take k (waiting (queue (fw_queue s) c)))) (queue (fw_queue s))))"
proof -
  have F: "forwarder env minv mview kinv kview kused qinv queue" using assms(1,2,3) by (rule forwarder.intro)
  obtain s' r where r: "flush_loop env wait uuid c fuel 0 0 s = (s', r)" by (cases "flush_loop env wait uuid c fuel 0 0 s")
  from forwarder.flush_loop_ok [OF F assms(4,5) r] show ?thesis using r by (fastforce simp: flushed_def flush_queued_for_connection_def)
qed

definition demo_live_state :: "nat \<Rightarrow> (mediation_map, keylist_map, message_queue) forward_state" where
  "demo_live_state capacity = (demo_forward_state demo_mediator)\<lparr>fw_queue := demo_queue,
     fw_live := register_session_with_sender ''c'' 0 (live_sessions_new (\<lambda>_. channel_new capacity) (\<lambda>_. channel_new 1) 1)\<rparr>"

theorem replay_ends_witness:
  "\<exists>s'. flush_queued_for_connection demo_forward_env id (\<lambda>k. (''r'', ''d'')) 1 ''c'' (demo_live_state 1) = (s', Some (Inr 2)) \<and>
     map qm_state (mq_abs (fw_queue s') ''c'') = [Sending, Sending]"
proof -
  let ?s = "demo_live_state 1"
  have q: "mq_abs (fw_queue ?s) ''c'' = [qm_new ''m1'' 7 ''c'' [] ''A'', qm_new ''m2'' 5 ''c'' [] ''B'']" "mq_inv (fw_queue ?s)"
    by (simp_all add: demo_live_state_def demo_queue_ok)
  have w: "length (waiting (mq_abs (fw_queue ?s) ''c'')) = 2" unfolding q by code_simp
  have run: "snd (flush_queued_for_connection demo_forward_env id (\<lambda>k. (''r'', ''d'')) 1 ''c'' ?s) = Some (Inr 2)" by code_simp
  have env: "fe_mediations demo_forward_env = memory_med_ops" "fe_keylists demo_forward_env = memory_key_ops" "fe_queue demo_forward_env = memory_queue_ops"
    by (simp_all add: demo_forward_env_def)
  from replay_ends [where env = demo_forward_env, unfolded env, OF memory_mediations.mediation_repository_axioms memory_keylists.keylist_repository_axioms
      memory_queue.message_repository_axioms q(2), of "''c''" 1 id "\<lambda>k. (''r'', ''d'')"] w run
  obtain s' k where s': "flush_queued_for_connection demo_forward_env id (\<lambda>k. (''r'', ''d'')) 1 ''c'' ?s = (s', Some (Inr 2))"
    and k: "2 \<le> k" "k \<le> 2" "mq_abs (fw_queue s') = q_mark mark_sending (qm_id ` set (take k (waiting (mq_abs (fw_queue ?s) ''c'')))) (mq_abs (fw_queue ?s))"
    by auto
  have "map qm_state (q_mark mark_sending (qm_id ` set (take 2 (waiting [qm_new ''m1'' 7 ''c'' [] ''A'', qm_new ''m2'' 5 ''c'' [] ''B'']))) (\<lambda>_. [qm_new ''m1'' 7 ''c'' [] ''A'', qm_new ''m2'' 5 ''c'' [] ''B'']) ''c'') = [Sending, Sending]"
    by code_simp
  then show ?thesis using s' k q(1) by (auto simp: q_mark_def)
qed

section \<open>Where the code does less\<close>

text \<open>
  The add is not atomic. \<open>keylist_add_rest\<close> is what follows the two reads; when another connection's
  add of the same key runs between the reads and the rest, both register the key.
\<close>

definition keylist_add_rest ::
  "'m med_ops \<Rightarrow> 'k key_ops \<Rightarrow> string \<Rightarrow> timestamp \<Rightarrow> string \<Rightarrow> string \<Rightarrow> string option \<Rightarrow> keylist_record list \<Rightarrow> ('m, 'k, unit) ms_prog" where
  "keylist_add_rest mops kops uuid now mediation_id key new_conn all =
     seq (move_stale mops kops key new_conn (filter (\<lambda>r. ke_recipient_key r = key \<and> ke_mediation_id r \<noteq> mediation_id) all)) (\<lambda>_.
     seq (on_keylists (ko_find_by_recipient_key kops mediation_id key)) (\<lambda>existing.
     case existing of Some _ \<Rightarrow> ok () | None \<Rightarrow> on_keylists (ko_save kops (keylist_record_new uuid now mediation_id key KeyAdd KeySuccess))))"

lemma keylist_add_split:
  "keylist_add mops kops uuid now mediation_id key =
     seq (on_mediations (mo_find_by_id mops mediation_id)) (\<lambda>new. seq (on_keylists (ko_get_all kops)) (\<lambda>all.
     keylist_add_rest mops kops uuid now mediation_id key (map_option me_connection_id new) all))"
  by (simp add: keylist_add_def keylist_add_rest_def Let_def)

lemma concurrent_adds_both_register:
  "let all = hm_values (ms_keylists demo_mediator);
       s1 = fst (keylist_add memory_med_ops memory_key_ops ''u1'' 1 ''m1'' ''k'' demo_mediator);
       s2 = fst (keylist_add_rest memory_med_ops memory_key_ops ''u2'' 1 ''m2'' ''k'' (Some ''mallory'') all s1)
   in map ke_mediation_id (filter (\<lambda>r. ke_recipient_key r = ''k'') (hm_values (ms_keylists s2))) = [''m1'', ''m2'']"
  by code_simp

text \<open>The check of the owner passes when the new mediation is unknown, and the key is taken all the same.\<close>

lemma unknown_mediation_takes_key:
  "let (s', x) = process_single_keylist_update memory_med_ops memory_key_ops demo_b58 ''u1'' 1 ''m9'' \<lparr>ku_recipient_key = ''key'', ku_action = KeyAdd\<rparr> demo_mediator
   in x = Inr () \<and> map ke_mediation_id (hm_values (ms_keylists s')) = [''m9'']"
  by code_simp

text \<open>Updates are accepted for a mediation that was denied.\<close>

lemma denied_mediation_updates:
  "let s = demo_mediator\<lparr>ms_mediations := [(''m1'', (demo_mediation ''m1'' ''alice'')\<lparr>me_state := MedDenied\<rparr>)], ms_keylists := []\<rparr>;
       (s', x) = handle_keylist_update memory_med_ops memory_key_ops demo_med_codec demo_b58 (demo_uuid 0) ''r'' 1 (demo_inbound ''alice'') s
   in map ke_recipient_key (hm_values (ms_keylists s')) = [''key'']"
  by code_simp

text \<open>A denial leaves the recipient's record as it was.\<close>

lemma denial_not_recorded:
  "handle_deny memory_med_ops cd i s = (s', x) \<Longrightarrow> ms_mediations s' = ms_mediations s"
  by (auto simp: handle_deny_def seq_def mh_connection_def mediation_of_def processing_def on_mediations_def memory_med_ops_def
      mm_find_by_connection_id_def split: sum.splits prod.splits)

text \<open>An update the mediator refused is listed in the recipient's keylist.\<close>

lemma refused_update_listed:
  "let s = fst (process_keylist_update_response memory_key_ops (demo_uuid 0) 1 ''m1'' 0 [updated_server_error ''k'' KeyAdd] (demo_mediator\<lparr>ms_keylists := []\<rparr>))
   in map_sum id (map ke_recipient_key) (snd (recipient_get_keylist memory_key_ops ''m1'' s)) = Inr [''k'']"
  by code_simp

text \<open>
  A batch that cannot be delivered stays marked as being sent: the next replay finds nothing, although
  no message reached the client. (A channel without room stands for one whose reader is stalled.)
\<close>

lemma replay_strands_batch:
  "let (s1, r1) = flush_queued_for_connection demo_forward_env id (\<lambda>k. (''r'', ''d'')) 1 ''c'' (demo_live_state 0);
       (s2, r2) = flush_queued_for_connection demo_forward_env id (\<lambda>k. (''r'', ''d'')) 1 ''c'' s1
   in r1 = Some (Inr 0) \<and> r2 = Some (Inr 0) \<and> ch_queue (ls_channels (fw_live s2) 0) = [] \<and>
      map (\<lambda>m. qm_state (snd m)) (mq_messages (fw_queue s2)) = [Sending, Sending]"
  by code_simp

text \<open>
  An instance whose cache was loaded before another instance registered a key does not see that record
  in \<open>get_all\<close>: the owner check passes and the key then leads to the intruder.
\<close>

definition demo_intruder :: keylist_record where
  "demo_intruder = keylist_record_new ''u1'' 1 ''m2'' ''key'' KeyAdd KeySuccess"

definition demo_serde2 :: "keylist_record serde" where
  "demo_serde2 = \<lparr>sd_to_vec = (\<lambda>r. if r = demo_keylist then Some [1] else if r = demo_intruder then Some [2] else None),
     sd_from_slice = (\<lambda>bs. if bs = [1] then Some demo_keylist else if bs = [2] then Some demo_intruder else None)\<rparr>"

definition demo_stale_instance :: "memory_storage stored_keylists" where
  "demo_stale_instance = \<lparr>sk_storage = sk_storage (fst (sk_save memory_ops demo_serde2 demo_keylist (sk_new []))), sk_cache = Some [], sk_by_recipient_key = []\<rparr>"

lemma second_instance_hijack:
  "let s = \<lparr>ms_mediations = ms_mediations demo_mediator, ms_keylists = demo_stale_instance, ms_has_bus = False, ms_events = []\<rparr>;
       find = (\<lambda>s. map_sum id (map_option ke_mediation_id) (snd (ko_find_mediation_for_recipient_key (stored_key_ops memory_ops demo_serde2) ''key'' (ms_keylists s))));
       (s', x) = keylist_add memory_med_ops (stored_key_ops memory_ops demo_serde2) ''u1'' 1 ''m2'' ''key'' s
   in find s = Inr (Some ''m1'') \<and> x = Inr () \<and> find s' = Inr (Some ''m2'')"
  by code_simp

end
