(* ===== verification/Oob_Exchange.thy ===== *)
theory Oob_Exchange
  imports Record_Map Didcomm_Message
begin

text \<open>
  Out-of-band invitations (\<open>protocols/oob/src\<close>): the invitation and handshake-reuse messages, the
  record of an invitation with its search tags, the in-memory repository and the service that
  creates, receives and reuses invitations. JSON, base64 and URL parsing are library code and
  enter as a record of functions; uuids and the clock are arguments.
\<close>

section \<open>Domain\<close>

datatype oob_state = OobInitial | OobAwaitResponse | OobPrepareResponse | OobDone

definition oob_is_terminal :: "oob_state \<Rightarrow> bool" where "oob_is_terminal st \<longleftrightarrow> st = OobDone"
definition can_receive_requests :: "oob_state \<Rightarrow> bool" where "can_receive_requests st \<longleftrightarrow> st = OobAwaitResponse"

fun oob_state_str :: "oob_state \<Rightarrow> string" where
  "oob_state_str OobInitial = ''initial''"
| "oob_state_str OobAwaitResponse = ''await-response''"
| "oob_state_str OobPrepareResponse = ''prepare-response''"
| "oob_state_str OobDone = ''done''"

fun oob_state_debug :: "oob_state \<Rightarrow> string" where
  "oob_state_debug OobInitial = ''Initial''"
| "oob_state_debug OobAwaitResponse = ''AwaitResponse''"
| "oob_state_debug OobPrepareResponse = ''PrepareResponse''"
| "oob_state_debug OobDone = ''Done''"

datatype oob_role = OobSender | OobReceiver

fun oob_role_str :: "oob_role \<Rightarrow> string" where
  "oob_role_str OobSender = ''sender''"
| "oob_role_str OobReceiver = ''receiver''"

datatype invitation_type = InvOutOfBand | InvConnection | InvConnectionless

fun invitation_type_str :: "invitation_type \<Rightarrow> string" where
  "invitation_type_str InvOutOfBand = ''out-of-band/1.x''"
| "invitation_type_str InvConnection = ''connections/1.x''"
| "invitation_type_str InvConnectionless = ''connectionless''"

datatype oob_error =
    OobInvalidInvitationUrl string | OobRecordNotFound string | OobRecordAlreadyExists string | OobInvalidRole oob_role oob_role
  | OobInvalidState "oob_state list" oob_state | OobMissingParentThreadId | OobParentThreadIdMismatch | OobConnectionAlreadyExists
  | OobNoHandshakeOrRequests | OobMultiUseWithMessages | OobStorage string | OobSerialization string | OobBase64Decode string | OobUrlParse string

text \<open>\<open>Debug\<close> of a vector of states, as the error text prints it.\<close>

fun comma_sep :: "string list \<Rightarrow> string" where
  "comma_sep [] = []"
| "comma_sep [x] = x"
| "comma_sep (x # xs) = x @ '', '' @ comma_sep xs"

fun oob_error_str :: "oob_error \<Rightarrow> string" where
  "oob_error_str (OobInvalidInvitationUrl x) = ''Invalid invitation URL: '' @ x"
| "oob_error_str (OobRecordNotFound x) = ''Out-of-band record not found: '' @ x"
| "oob_error_str (OobRecordAlreadyExists x) = ''Out-of-band record already exists: '' @ x"
| "oob_error_str (OobInvalidRole e a) = ''Invalid role for operation: expected '' @ oob_role_str e @ '', got '' @ oob_role_str a"
| "oob_error_str (OobInvalidState es a) =
     ''Invalid state for operation: expected one of ['' @ comma_sep (map oob_state_debug es) @ ''], got '' @ oob_state_debug a"
| "oob_error_str OobMissingParentThreadId = ''Missing parent thread ID''"
| "oob_error_str OobParentThreadIdMismatch = ''Parent thread ID mismatch''"
| "oob_error_str OobConnectionAlreadyExists = ''Connection already exists for non-reusable invitation''"
| "oob_error_str OobNoHandshakeOrRequests = ''Invitation must have either handshake protocols or requests''"
| "oob_error_str OobMultiUseWithMessages = ''Multi-use invitations cannot have attached messages''"
| "oob_error_str (OobStorage x) = ''Storage error: '' @ x"
| "oob_error_str (OobSerialization x) = ''Serialization error: '' @ x"
| "oob_error_str (OobBase64Decode x) = ''Base64 decode error: '' @ x"
| "oob_error_str (OobUrlParse x) = ''URL parse error: '' @ x"

section \<open>Messages\<close>

record inline_service =
  is_id :: string
  is_service_type :: string
  is_recipient_keys :: "string list"
  is_routing_keys :: "string list"
  is_service_endpoint :: string

definition inline_service_new :: "string \<Rightarrow> string list \<Rightarrow> string list \<Rightarrow> string \<Rightarrow> inline_service" where
  "inline_service_new i recipient_keys routing_keys endpoint =
     \<lparr>is_id = i, is_service_type = ''did-communication'', is_recipient_keys = recipient_keys, is_routing_keys = routing_keys,
      is_service_endpoint = endpoint\<rparr>"

definition inline_service_with_type :: "string \<Rightarrow> inline_service \<Rightarrow> inline_service" where
  "inline_service_with_type t s = s\<lparr>is_service_type := t\<rparr>"

datatype oob_service = OobDid string | OobInline inline_service

record invitation =
  iv_msg_type :: string
  iv_id :: string
  iv_label :: "string option"
  iv_goal_code :: "string option"
  iv_goal :: "string option"
  iv_accept :: "string list option"
  iv_handshake_protocols :: "string list option"
  iv_requests :: "json list option"
  iv_services :: "oob_service list"
  iv_image_url :: "string option"

definition INVITATION_TYPE :: string where "INVITATION_TYPE = ''https://didcomm.org/out-of-band/1.1/invitation''"
definition DEFAULT_ACCEPT :: "string list" where "DEFAULT_ACCEPT = [''didcomm/aip2;env=rfc19'']"

definition invitation_new :: "string \<Rightarrow> oob_service list \<Rightarrow> invitation" where
  "invitation_new uuid services =
     \<lparr>iv_msg_type = INVITATION_TYPE, iv_id = uuid, iv_label = None, iv_goal_code = None, iv_goal = None, iv_accept = Some DEFAULT_ACCEPT,
      iv_handshake_protocols = None, iv_requests = None, iv_services = services, iv_image_url = None\<rparr>"

definition iv_with_label :: "string \<Rightarrow> invitation \<Rightarrow> invitation" where
  "iv_with_label l i = i\<lparr>iv_label := Some l\<rparr>"

definition iv_with_goal :: "string \<Rightarrow> string \<Rightarrow> invitation \<Rightarrow> invitation" where
  "iv_with_goal code goal i = i\<lparr>iv_goal_code := Some code, iv_goal := Some goal\<rparr>"

definition iv_with_handshake_protocols :: "string list \<Rightarrow> invitation \<Rightarrow> invitation" where
  "iv_with_handshake_protocols ps i = i\<lparr>iv_handshake_protocols := Some ps\<rparr>"

definition iv_with_image_url :: "string \<Rightarrow> invitation \<Rightarrow> invitation" where
  "iv_with_image_url u i = i\<lparr>iv_image_url := Some u\<rparr>"

text \<open>
  The libraries behind \<open>to_url\<close> and \<open>from_url\<close>: \<open>serde_json\<close>, unpadded URL-safe base64, and the
  query pairs of the \<open>url\<close> crate. \<open>Inl\<close> is the library's error text.
\<close>

record url_codec =
  uc_to_json :: "invitation \<Rightarrow> string + string"
  uc_from_json :: "string \<Rightarrow> string + invitation"
  uc_b64_encode :: "string \<Rightarrow> string"
  uc_b64_decode :: "string \<Rightarrow> string + string"
  uc_query_pairs :: "string \<Rightarrow> string + (string \<times> string) list"

definition iv_to_url :: "url_codec \<Rightarrow> string \<Rightarrow> invitation \<Rightarrow> string + string" where
  "iv_to_url uc domain i =
     (case uc_to_json uc i of Inl e \<Rightarrow> Inl e | Inr j \<Rightarrow> Inr (domain @ ''?oob='' @ uc_b64_encode uc j))"

definition iv_from_url :: "url_codec \<Rightarrow> string \<Rightarrow> string + invitation" where
  "iv_from_url uc url =
     (case uc_query_pairs uc url of
        Inl e \<Rightarrow> Inl e
      | Inr pairs \<Rightarrow>
          (case find (\<lambda>(key, _). key = ''oob'') pairs of
             None \<Rightarrow> Inl (''Missing '' @ quoted ''oob'' @ '' parameter in URL'')
           | Some (_, v) \<Rightarrow> (case uc_b64_decode uc v of Inl e \<Rightarrow> Inl e | Inr j \<Rightarrow> uc_from_json uc j)))"

fun oob_service_did :: "oob_service \<Rightarrow> string option" where
  "oob_service_did (OobDid d) = Some d"
| "oob_service_did (OobInline _) = None"

fun oob_service_inline :: "oob_service \<Rightarrow> inline_service option" where
  "oob_service_inline (OobInline s) = Some s"
| "oob_service_inline (OobDid _) = None"

definition get_invitation_dids :: "invitation \<Rightarrow> string list" where
  "get_invitation_dids i = List.map_filter oob_service_did (iv_services i)"

definition get_inline_services :: "invitation \<Rightarrow> inline_service list" where
  "get_inline_services i = List.map_filter oob_service_inline (iv_services i)"

definition get_did_services :: "invitation \<Rightarrow> string list" where
  "get_did_services i = List.map_filter oob_service_did (iv_services i)"

definition has_handshake :: "invitation \<Rightarrow> bool" where
  "has_handshake i \<longleftrightarrow> (case iv_handshake_protocols i of None \<Rightarrow> False | Some ps \<Rightarrow> ps \<noteq> [])"

definition has_requests :: "invitation \<Rightarrow> bool" where
  "has_requests i \<longleftrightarrow> (case iv_requests i of None \<Rightarrow> False | Some rs \<Rightarrow> rs \<noteq> [])"

record oob_thread =
  ot_thread_id :: string
  ot_parent_thread_id :: "string option"

record handshake_reuse =
  hr_msg_type :: string
  hr_id :: string
  hr_thread :: oob_thread

definition HANDSHAKE_REUSE_TYPE :: string where "HANDSHAKE_REUSE_TYPE = ''https://didcomm.org/out-of-band/1.1/handshake-reuse''"

definition handshake_reuse_new :: "string \<Rightarrow> string \<Rightarrow> string \<Rightarrow> handshake_reuse" where
  "handshake_reuse_new uuid thread_uuid parent =
     \<lparr>hr_msg_type = HANDSHAKE_REUSE_TYPE, hr_id = uuid, hr_thread = \<lparr>ot_thread_id = thread_uuid, ot_parent_thread_id = Some parent\<rparr>\<rparr>"

record handshake_reuse_accepted =
  ha_msg_type :: string
  ha_id :: string
  ha_thread :: oob_thread

definition HANDSHAKE_REUSE_ACCEPTED_TYPE :: string where
  "HANDSHAKE_REUSE_ACCEPTED_TYPE = ''https://didcomm.org/out-of-band/1.1/handshake-reuse-accepted''"

definition handshake_reuse_accepted_new :: "string \<Rightarrow> string \<Rightarrow> string \<Rightarrow> handshake_reuse_accepted" where
  "handshake_reuse_accepted_new uuid thid parent =
     \<lparr>ha_msg_type = HANDSHAKE_REUSE_ACCEPTED_TYPE, ha_id = uuid, ha_thread = \<lparr>ot_thread_id = thid, ot_parent_thread_id = Some parent\<rparr>\<rparr>"

section \<open>Records\<close>

record inline_service_key =
  ik_kms_key_id :: string
  ik_recipient_key_fingerprint :: string

record oob_tags =
  og_role :: oob_role
  og_state :: oob_state
  og_invitation_id :: string
  og_recipient_key_fingerprints :: "string list"
  og_thread_id :: "string option"

definition oob_tags_from_invitation :: "invitation \<Rightarrow> oob_role \<Rightarrow> oob_state \<Rightarrow> oob_tags" where
  "oob_tags_from_invitation i role st =
     \<lparr>og_role = role, og_state = st, og_invitation_id = iv_id i, og_recipient_key_fingerprints = [], og_thread_id = None\<rparr>"

definition add_recipient_key_fingerprint :: "string \<Rightarrow> oob_tags \<Rightarrow> oob_tags" where
  "add_recipient_key_fingerprint f t =
     (if f \<in> set (og_recipient_key_fingerprints t) then t
      else t\<lparr>og_recipient_key_fingerprints := og_recipient_key_fingerprints t @ [f]\<rparr>)"

record oob_record =
  ob_id :: string
  ob_invitation :: invitation
  ob_role :: oob_role
  ob_state :: oob_state
  ob_reusable :: bool
  ob_auto_accept_connection :: "bool option"
  ob_mediator_id :: "string option"
  ob_alias :: "string option"
  ob_reuse_connection_id :: "string option"
  ob_invitation_inline_service_keys :: "inline_service_key list"
  ob_created_at :: timestamp
  ob_updated_at :: timestamp
  ob_tags :: oob_tags

definition oob_record_new :: "string \<Rightarrow> timestamp \<Rightarrow> invitation \<Rightarrow> oob_role \<Rightarrow> oob_record" where
  "oob_record_new uuid now i role =
     \<lparr>ob_id = uuid, ob_invitation = i, ob_role = role, ob_state = OobInitial, ob_reusable = False, ob_auto_accept_connection = None,
      ob_mediator_id = None, ob_alias = None, ob_reuse_connection_id = None, ob_invitation_inline_service_keys = [],
      ob_created_at = now, ob_updated_at = now,
      ob_tags = fold (\<lambda>svc. fold add_recipient_key_fingerprint (is_recipient_keys svc)) (get_inline_services i)
        (oob_tags_from_invitation i role OobInitial)\<rparr>"

definition ob_with_state :: "oob_state \<Rightarrow> oob_record \<Rightarrow> oob_record" where
  "ob_with_state st r = r\<lparr>ob_state := st, ob_tags := (ob_tags r)\<lparr>og_state := st\<rparr>\<rparr>"

definition ob_with_reusable :: "bool \<Rightarrow> oob_record \<Rightarrow> oob_record" where
  "ob_with_reusable b r = r\<lparr>ob_reusable := b\<rparr>"

definition ob_with_auto_accept_connection :: "bool \<Rightarrow> oob_record \<Rightarrow> oob_record" where
  "ob_with_auto_accept_connection b r = r\<lparr>ob_auto_accept_connection := Some b\<rparr>"

definition ob_add_inline_service_key :: "inline_service_key \<Rightarrow> oob_record \<Rightarrow> oob_record" where
  "ob_add_inline_service_key key r =
     r\<lparr>ob_invitation_inline_service_keys := ob_invitation_inline_service_keys r @ [key],
       ob_tags := add_recipient_key_fingerprint (ik_recipient_key_fingerprint key) (ob_tags r)\<rparr>"

definition ob_assert_role :: "oob_role \<Rightarrow> oob_record \<Rightarrow> oob_error + unit" where
  "ob_assert_role expected r = (if ob_role r \<noteq> expected then Inl (OobInvalidRole expected (ob_role r)) else Inr ())"

definition ob_assert_state :: "oob_state list \<Rightarrow> oob_record \<Rightarrow> oob_error + unit" where
  "ob_assert_state expected r = (if ob_state r \<notin> set expected then Inl (OobInvalidState expected (ob_state r)) else Inr ())"

definition ob_update_state :: "timestamp \<Rightarrow> oob_state \<Rightarrow> oob_record \<Rightarrow> oob_record" where
  "ob_update_state now st r = r\<lparr>ob_state := st, ob_tags := (ob_tags r)\<lparr>og_state := st\<rparr>, ob_updated_at := now\<rparr>"

section \<open>The repository\<close>

type_synonym oob_map = "(string, oob_record) hash_map"
type_synonym 'a om_prog = "(oob_map, oob_error, 'a) prog"

fun matches_tag :: "oob_record \<Rightarrow> string \<times> string \<Rightarrow> bool" where
  "matches_tag r (key, v) =
     (if key = ''role'' then oob_role_str (ob_role r) = v
      else if key = ''state'' then oob_state_str (ob_state r) = v
      else if key = ''invitationId'' then og_invitation_id (ob_tags r) = v
      else if key = ''threadId'' then og_thread_id (ob_tags r) = Some v
      else False)"

definition matches_tags :: "oob_record \<Rightarrow> (string, string) hash_map \<Rightarrow> bool" where
  "matches_tags r tags \<longleftrightarrow> list_all (matches_tag r) tags"

definition om_save :: "oob_record \<Rightarrow> unit om_prog" where
  "om_save r m = (if hm_contains m (ob_id r) then (m, Inl (OobRecordAlreadyExists (ob_id r))) else (hm_insert (ob_id r) r m, Inr ()))"

definition om_update :: "oob_record \<Rightarrow> unit om_prog" where
  "om_update r m = (if \<not> hm_contains m (ob_id r) then (m, Inl (OobRecordNotFound (ob_id r))) else (hm_insert (ob_id r) r m, Inr ()))"

definition om_find_by_id :: "string \<Rightarrow> oob_record option om_prog" where
  "om_find_by_id i = read (\<lambda>m. hm_get m i)"

definition om_delete :: "string \<Rightarrow> unit om_prog" where
  "om_delete i m = (if hm_contains m i then (hm_remove i m, Inr ()) else (m, Inl (OobRecordNotFound i)))"

definition om_find_by_tags :: "(string, string) hash_map \<Rightarrow> oob_record list om_prog" where
  "om_find_by_tags tags = read (\<lambda>m. filter (\<lambda>r. matches_tags r tags) (hm_values m))"

definition om_find_by_invitation_id :: "string \<Rightarrow> oob_role \<Rightarrow> oob_record option om_prog" where
  "om_find_by_invitation_id i role = read (\<lambda>m. find (\<lambda>r. og_invitation_id (ob_tags r) = i \<and> ob_role r = role) (hm_values m))"

definition om_find_by_recipient_key :: "string \<Rightarrow> oob_record list om_prog" where
  "om_find_by_recipient_key key = read (\<lambda>m. filter (\<lambda>r. key \<in> set (og_recipient_key_fingerprints (ob_tags r))) (hm_values m))"

definition om_find_by_thread_id :: "string \<Rightarrow> oob_record list om_prog" where
  "om_find_by_thread_id t = read (\<lambda>m. filter (\<lambda>r. og_thread_id (ob_tags r) = Some t) (hm_values m))"

definition om_find_by_state :: "oob_state \<Rightarrow> oob_record list om_prog" where
  "om_find_by_state st = read (\<lambda>m. filter (\<lambda>r. ob_state r = st) (hm_values m))"

definition om_find_by_role :: "oob_role \<Rightarrow> oob_record list om_prog" where
  "om_find_by_role role = read (\<lambda>m. filter (\<lambda>r. ob_role r = role) (hm_values m))"

definition om_get_all :: "oob_record list om_prog" where
  "om_get_all = read hm_values"

definition om_exists :: "string \<Rightarrow> bool om_prog" where
  "om_exists i = read (\<lambda>m. hm_contains m i)"

section \<open>The service\<close>

datatype oob_event = OobStateChanged oob_record "oob_state option" | OobHandshakeReused string oob_record string

text \<open>The service owns the repository; \<open>os_events\<close> are the events on its bus, when it has one.\<close>

record oob_service_state =
  os_records :: oob_map
  os_events :: "oob_event list option"

type_synonym 'a os_prog = "(oob_service_state, oob_error, 'a) prog"

definition os_new :: "oob_map \<Rightarrow> oob_service_state" where
  "os_new m = \<lparr>os_records = m, os_events = None\<rparr>"

definition on_records :: "'a om_prog \<Rightarrow> 'a os_prog" where
  "on_records f s = (case f (os_records s) of (m, x) \<Rightarrow> (s\<lparr>os_records := m\<rparr>, x))"

definition os_emit :: "oob_event \<Rightarrow> unit os_prog" where
  "os_emit e = modify (\<lambda>s. s\<lparr>os_events := map_option (\<lambda>es. es @ [e]) (os_events s)\<rparr>)"

definition new_invitation :: "string \<Rightarrow> oob_service list \<Rightarrow> string option \<Rightarrow> string option \<Rightarrow> string option \<Rightarrow> string list \<Rightarrow> invitation" where
  "new_invitation uuid services label goal_code goal protocols =
     (let i = invitation_new uuid services;
          i = (case label of None \<Rightarrow> i | Some l \<Rightarrow> iv_with_label l i);
          i = (case (goal_code, goal) of (Some c, Some g) \<Rightarrow> iv_with_goal c g i | _ \<Rightarrow> i)
      in iv_with_handshake_protocols protocols i)"

definition os_create_invitation ::
  "(nat \<Rightarrow> string) \<Rightarrow> timestamp \<Rightarrow> oob_service list \<Rightarrow> string option \<Rightarrow> string option \<Rightarrow> string option \<Rightarrow> string list option \<Rightarrow> bool \<Rightarrow> oob_record os_prog" where
  "os_create_invitation uuid now services label goal_code goal protocols multi_use =
     (case protocols of
        None \<Rightarrow> raise OobNoHandshakeOrRequests
      | Some ps \<Rightarrow>
          (let r = ob_with_reusable multi_use (ob_with_state OobAwaitResponse
                     (oob_record_new (uuid 1) now (new_invitation (uuid 0) services label goal_code goal ps) OobSender))
           in seq (on_records (om_save r)) (\<lambda>_. seq (os_emit (OobStateChanged r None)) (\<lambda>_. ok r))))"

definition os_receive_invitation :: "string \<Rightarrow> timestamp \<Rightarrow> invitation \<Rightarrow> bool option \<Rightarrow> oob_record os_prog" where
  "os_receive_invitation uuid now i auto_accept =
     seq (on_records (om_find_by_invitation_id (iv_id i) OobReceiver)) (\<lambda>existing.
     case existing of
       Some r \<Rightarrow> ok r
     | None \<Rightarrow>
         (let r = ob_with_state OobPrepareResponse (oob_record_new uuid now i OobReceiver);
              r = (case auto_accept of None \<Rightarrow> r | Some b \<Rightarrow> ob_with_auto_accept_connection b r)
          in seq (on_records (om_save r)) (\<lambda>_. seq (os_emit (OobStateChanged r None)) (\<lambda>_. ok r))))"

definition os_create_handshake_reuse :: "(nat \<Rightarrow> string) \<Rightarrow> string \<Rightarrow> handshake_reuse os_prog" where
  "os_create_handshake_reuse uuid invitation_id =
     seq (on_records (om_find_by_invitation_id invitation_id OobReceiver)) (\<lambda>found.
     seq (result (ok_or (OobRecordNotFound invitation_id) found)) (\<lambda>r.
     seq (result (ob_assert_state [OobPrepareResponse] r)) (\<lambda>_.
     ok (handshake_reuse_new (uuid 0) (uuid 1) (iv_id (ob_invitation r))))))"

text \<open>
  The record is looked up and checked first and written back afterwards; the repository's lock is
  not held in between.
\<close>

definition reuse_check :: "handshake_reuse \<Rightarrow> (string \<times> oob_record) os_prog" where
  "reuse_check msg =
     seq (result (ok_or OobMissingParentThreadId (ot_parent_thread_id (hr_thread msg)))) (\<lambda>parent.
     seq (on_records (om_find_by_invitation_id parent OobSender)) (\<lambda>found.
     seq (result (ok_or (OobRecordNotFound parent) found)) (\<lambda>r.
     seq (guard (ob_reusable r \<or> ob_reuse_connection_id r = None) OobConnectionAlreadyExists) (\<lambda>_.
     seq (result (ob_assert_state [OobAwaitResponse] r)) (\<lambda>_. ok (parent, r))))))"

definition reuse_write :: "string \<Rightarrow> timestamp \<Rightarrow> handshake_reuse \<Rightarrow> string \<Rightarrow> string \<times> oob_record \<Rightarrow> handshake_reuse_accepted os_prog" where
  "reuse_write uuid now msg connection_id checked =
     (let (parent, r) = checked;
          r1 = r\<lparr>ob_reuse_connection_id := Some connection_id\<rparr>;
          r2 = (if ob_reusable r then r1 else ob_update_state now OobDone r1)
      in seq (on_records (om_update r2)) (\<lambda>_.
         seq (if ob_reusable r then ok () else os_emit (OobStateChanged r2 (Some (ob_state r)))) (\<lambda>_.
         seq (os_emit (OobHandshakeReused (ot_thread_id (hr_thread msg)) r2 connection_id)) (\<lambda>_.
         ok (handshake_reuse_accepted_new uuid (ot_thread_id (hr_thread msg)) parent)))))"

definition os_process_handshake_reuse :: "string \<Rightarrow> timestamp \<Rightarrow> handshake_reuse \<Rightarrow> string \<Rightarrow> handshake_reuse_accepted os_prog" where
  "os_process_handshake_reuse uuid now msg connection_id = seq (reuse_check msg) (reuse_write uuid now msg connection_id)"

definition os_mark_done :: "timestamp \<Rightarrow> string \<Rightarrow> oob_role \<Rightarrow> unit os_prog" where
  "os_mark_done now invitation_id role =
     seq (on_records (om_find_by_invitation_id invitation_id role)) (\<lambda>found.
     seq (result (ok_or (OobRecordNotFound invitation_id) found)) (\<lambda>r.
     seq (on_records (om_update (ob_update_state now OobDone r))) (\<lambda>_.
     os_emit (OobStateChanged (ob_update_state now OobDone r) (Some (ob_state r))))))"

definition os_delete :: "string \<Rightarrow> unit os_prog" where
  "os_delete i = on_records (om_delete i)"

section \<open>The programming interface\<close>

definition api_create_invitation :: "(nat \<Rightarrow> string) \<Rightarrow> timestamp \<Rightarrow> oob_service list \<Rightarrow> string option \<Rightarrow> string list option \<Rightarrow> oob_record os_prog" where
  "api_create_invitation uuid now services label protocols = os_create_invitation uuid now services label None None protocols False"

definition api_create_multi_use_invitation ::
  "(nat \<Rightarrow> string) \<Rightarrow> timestamp \<Rightarrow> oob_service list \<Rightarrow> string option \<Rightarrow> string list option \<Rightarrow> oob_record os_prog" where
  "api_create_multi_use_invitation uuid now services label protocols = os_create_invitation uuid now services label None None protocols True"

definition api_create_invitation_with_goal ::
  "(nat \<Rightarrow> string) \<Rightarrow> timestamp \<Rightarrow> oob_service list \<Rightarrow> string option \<Rightarrow> string \<Rightarrow> string \<Rightarrow> string list option \<Rightarrow> oob_record os_prog" where
  "api_create_invitation_with_goal uuid now services label code goal protocols =
     os_create_invitation uuid now services label (Some code) (Some goal) protocols False"

definition api_receive_invitation_from_url :: "url_codec \<Rightarrow> string \<Rightarrow> timestamp \<Rightarrow> string \<Rightarrow> oob_record os_prog" where
  "api_receive_invitation_from_url uc uuid now url =
     (case iv_from_url uc url of
        Inl e \<Rightarrow> raise (OobInvalidInvitationUrl e)
      | Inr i \<Rightarrow> os_receive_invitation uuid now i None)"

definition api_get_invitation_url :: "url_codec \<Rightarrow> oob_record \<Rightarrow> string \<Rightarrow> oob_error + string" where
  "api_get_invitation_url uc r domain = map_sum OobInvalidInvitationUrl id (iv_to_url uc domain (ob_invitation r))"

section \<open>Runs of the service\<close>

text \<open>
  A run calls the operations in any order with any arguments. \<open>used\<close> are the uuids drawn so far:
  those a call draws are new. The service has an event bus.
\<close>

datatype oob_op =
    OpCreate "oob_service list" "string option" "string option" "string option" "string list option" bool
  | OpReceive invitation "bool option" | OpCreateReuse string | OpReuse handshake_reuse string | OpMarkDone string oob_role | OpDelete string

fun oob_apply :: "(nat \<Rightarrow> string) \<Rightarrow> timestamp \<Rightarrow> oob_op \<Rightarrow> oob_service_state \<Rightarrow> oob_service_state" where
  "oob_apply uuid now (OpCreate services label code goal ps multi) s = fst (os_create_invitation uuid now services label code goal ps multi s)"
| "oob_apply uuid now (OpReceive i auto) s = fst (os_receive_invitation (uuid 0) now i auto s)"
| "oob_apply uuid now (OpCreateReuse i) s = fst (os_create_handshake_reuse uuid i s)"
| "oob_apply uuid now (OpReuse msg c) s = fst (os_process_handshake_reuse (uuid 0) now msg c s)"
| "oob_apply uuid now (OpMarkDone i role) s = fst (os_mark_done now i role s)"
| "oob_apply uuid now (OpDelete i) s = fst (os_delete i s)"

inductive oob_run :: "string set \<Rightarrow> oob_service_state \<Rightarrow> bool" where
  start: "oob_run {} \<lparr>os_records = [], os_events = Some []\<rparr>"
| step: "oob_run used s \<Longrightarrow> uuid 0 \<notin> used \<Longrightarrow> uuid 1 \<notin> used \<Longrightarrow> oob_run (used \<union> {uuid 0, uuid 1}) (oob_apply uuid now oop s)"

text \<open>The events that report the reuse of a single-use invitation.\<close>

fun single_reuse :: "string \<Rightarrow> oob_event \<Rightarrow> bool" where
  "single_reuse i (OobHandshakeReused t r c) \<longleftrightarrow> iv_id (ob_invitation r) = i \<and> \<not> ob_reusable r"
| "single_reuse i (OobStateChanged r p) \<longleftrightarrow> False"

definition single_reuses :: "string \<Rightarrow> oob_service_state \<Rightarrow> nat" where
  "single_reuses i s = (case os_events s of None \<Rightarrow> 0 | Some es \<Rightarrow> length (filter (single_reuse i) es))"

definition ob_mirrors :: "oob_record \<Rightarrow> bool" where
  "ob_mirrors r \<longleftrightarrow> og_invitation_id (ob_tags r) = iv_id (ob_invitation r) \<and> og_state (ob_tags r) = ob_state r \<and> og_role (ob_tags r) = ob_role r"

definition oob_map_inv :: "string set \<Rightarrow> oob_map \<Rightarrow> bool" where
  "oob_map_inv used m \<longleftrightarrow> map_inv ob_id m \<and> (\<forall>i r. hm_get m i = Some r \<longrightarrow> ob_mirrors r) \<and>
     (\<forall>i r. hm_get m i = Some r \<and> ob_role r = OobSender \<longrightarrow> iv_id (ob_invitation r) \<in> used) \<and>
     (\<forall>i j r r'. hm_get m i = Some r \<and> hm_get m j = Some r' \<and> ob_role r = OobSender \<and> ob_role r' = OobSender \<and>
        iv_id (ob_invitation r) = iv_id (ob_invitation r') \<longrightarrow> i = j)"

definition oob_closed :: "string \<Rightarrow> oob_map \<Rightarrow> bool" where
  "oob_closed i m \<longleftrightarrow> (\<forall>j r. hm_get m j = Some r \<and> ob_role r = OobSender \<and> iv_id (ob_invitation r) = i \<longrightarrow> ob_state r = OobDone)"

definition oob_inv :: "string set \<Rightarrow> oob_service_state \<Rightarrow> bool" where
  "oob_inv used s \<longleftrightarrow> oob_map_inv used (os_records s) \<and>
     (\<forall>i. single_reuses i s \<le> 1 \<and> (single_reuses i s > 0 \<longrightarrow> i \<in> used \<and> oob_closed i (os_records s)))"

lemma on_records_simps:
  "fst (on_records f s) = s\<lparr>os_records := fst (f (os_records s))\<rparr>" "snd (on_records f s) = snd (f (os_records s))"
  by (simp_all add: on_records_def split: prod.splits)

lemma seq_on_read: "seq (on_records (read f)) g s = g (f (os_records s)) s"
  by (simp add: seq_def on_records_def)

lemma fst_seq: "fst (seq m f s) = (case snd (m s) of Inl e \<Rightarrow> fst (m s) | Inr a \<Rightarrow> fst (f a (fst (m s))))"
  by (simp add: seq_def split: prod.splits sum.splits)

lemma single_reuses_emit:
  "single_reuses i (s\<lparr>os_events := map_option (\<lambda>es. es @ [e]) (os_events s)\<rparr>) =
     single_reuses i s + (if os_events s \<noteq> None \<and> single_reuse i e then 1 else 0)"
  by (auto simp: single_reuses_def split: option.splits)

lemma single_reuses_records [simp]: "single_reuses i (s\<lparr>os_records := m\<rparr>) = single_reuses i s"
  by (simp add: single_reuses_def)

text \<open>A new record: its tags mirror it, and its fingerprints only touch the fingerprint tag.\<close>

lemma fingerprints_keep:
  "og_role (fold add_recipient_key_fingerprint fs t) = og_role t" "og_state (fold add_recipient_key_fingerprint fs t) = og_state t"
  "og_invitation_id (fold add_recipient_key_fingerprint fs t) = og_invitation_id t"
  by (induction fs arbitrary: t) (simp_all add: add_recipient_key_fingerprint_def)

lemma all_fingerprints_keep:
  "og_role (fold (\<lambda>svc. fold add_recipient_key_fingerprint (f svc)) ss t) = og_role t"
  "og_state (fold (\<lambda>svc. fold add_recipient_key_fingerprint (f svc)) ss t) = og_state t"
  "og_invitation_id (fold (\<lambda>svc. fold add_recipient_key_fingerprint (f svc)) ss t) = og_invitation_id t"
  by (induction ss arbitrary: t) (simp_all add: fingerprints_keep)

lemma new_record_mirrors: "ob_mirrors (ob_with_state st (oob_record_new uuid now i role))"
  by (simp add: ob_mirrors_def ob_with_state_def oob_record_new_def oob_tags_from_invitation_def all_fingerprints_keep)

lemma update_state_mirrors: "ob_mirrors r \<Longrightarrow> ob_mirrors (ob_update_state now st r)"
  by (simp add: ob_mirrors_def ob_update_state_def)

text \<open>What the writes do to the invariant: a new record, a record advanced, a record removed.\<close>

lemma oob_map_invI:
  assumes "map_inv ob_id m" "\<And>i r. hm_get m i = Some r \<Longrightarrow> ob_mirrors r"
    "\<And>i r. hm_get m i = Some r \<Longrightarrow> ob_role r = OobSender \<Longrightarrow> iv_id (ob_invitation r) \<in> used"
    "\<And>i j r r'. hm_get m i = Some r \<Longrightarrow> hm_get m j = Some r' \<Longrightarrow> ob_role r = OobSender \<Longrightarrow> ob_role r' = OobSender \<Longrightarrow>
       iv_id (ob_invitation r) = iv_id (ob_invitation r') \<Longrightarrow> i = j"
  shows "oob_map_inv used m"
  unfolding oob_map_inv_def
  by (intro conjI allI impI) (rule assms(1), erule assms(2), elim conjE, erule (1) assms(3), elim conjE, erule (4) assms(4))

lemma oob_map_invD:
  assumes "oob_map_inv used m" "hm_get m i = Some r"
  shows "map_inv ob_id m" "ob_mirrors r" "ob_role r = OobSender \<Longrightarrow> iv_id (ob_invitation r) \<in> used"
    "hm_get m j = Some r' \<Longrightarrow> ob_role r = OobSender \<Longrightarrow> ob_role r' = OobSender \<Longrightarrow>
       iv_id (ob_invitation r) = iv_id (ob_invitation r') \<Longrightarrow> i = j"
proof -
  note inv = assms(1) [unfolded oob_map_inv_def]
  show "map_inv ob_id m" by (rule inv [THEN conjunct1])
  show "ob_mirrors r" using inv [THEN conjunct2, THEN conjunct1, rule_format, OF assms(2)] .
  show "ob_role r = OobSender \<Longrightarrow> iv_id (ob_invitation r) \<in> used"
    using inv [THEN conjunct2, THEN conjunct2, THEN conjunct1, rule_format, OF conjI, OF assms(2)] .
  show "hm_get m j = Some r' \<Longrightarrow> ob_role r = OobSender \<Longrightarrow> ob_role r' = OobSender \<Longrightarrow>
       iv_id (ob_invitation r) = iv_id (ob_invitation r') \<Longrightarrow> i = j"
    using inv [THEN conjunct2, THEN conjunct2, THEN conjunct2, THEN spec, of i, THEN spec, of j, THEN spec, of r, THEN spec, of r'] assms(2) by simp
qed

lemma oob_map_inv_map: "oob_map_inv used m \<Longrightarrow> map_inv ob_id m"
  unfolding oob_map_inv_def by (rule conjunct1)

lemma oob_map_insert_new:
  assumes inv: "oob_map_inv used m" and r: "ob_mirrors r" "ob_role r = OobSender \<Longrightarrow> iv_id (ob_invitation r) \<notin> used \<and> iv_id (ob_invitation r) \<in> used'"
    and sub: "used \<subseteq> used'"
  shows "oob_map_inv used' (hm_insert (ob_id r) r m)"
proof (rule oob_map_invI)
  show "map_inv ob_id (hm_insert (ob_id r) r m)" by (rule map_inv_insert) (rule oob_map_inv_map [OF inv])
next
  fix i x assume x: "hm_get (hm_insert (ob_id r) r m) i = Some x"
  have c: "x = r \<or> hm_get m i = Some x" using x by (cases "i = ob_id r") simp_all
  then show "ob_mirrors x" using r(1) oob_map_invD(2) [OF inv] by (elim disjE) simp_all
  show "ob_role x = OobSender \<Longrightarrow> iv_id (ob_invitation x) \<in> used'" using c r(2) oob_map_invD(3) [OF inv] sub by (elim disjE) auto
next
  fix i j x y assume xy: "hm_get (hm_insert (ob_id r) r m) i = Some x" "hm_get (hm_insert (ob_id r) r m) j = Some y"
    and s: "ob_role x = OobSender" "ob_role y = OobSender" "iv_id (ob_invitation x) = iv_id (ob_invitation y)"
  have old: "iv_id (ob_invitation z) \<in> used" if "hm_get m k = Some z" "ob_role z = OobSender" for k z
    using oob_map_invD(3) [OF inv that(1) that(2)] .
  show "i = j"
    using xy s r(2) old [of i x] old [of j y] oob_map_invD(4) [OF inv, of i x j y]
    by (cases "i = ob_id r"; cases "j = ob_id r") auto
qed

lemma oob_map_mono: "oob_map_inv used m \<Longrightarrow> used \<subseteq> used' \<Longrightarrow> oob_map_inv used' m"
  unfolding oob_map_inv_def by blast

lemma oob_map_insert_same:
  assumes inv: "oob_map_inv used m" and r: "hm_get m i = Some r" "ob_id r' = i" "ob_mirrors r'"
    "ob_role r' = ob_role r" "ob_invitation r' = ob_invitation r"
  shows "oob_map_inv used (hm_insert (ob_id r') r' m)"
proof (rule oob_map_invI)
  show "map_inv ob_id (hm_insert (ob_id r') r' m)" by (rule map_inv_insert) (rule oob_map_inv_map [OF inv])
next
  have old: "\<exists>y. hm_get m j = Some y \<and> ob_role x = ob_role y \<and> ob_invitation x = ob_invitation y" if "hm_get (hm_insert (ob_id r') r' m) j = Some x" for j x
    using that r by (auto split: if_splits)
  fix j x assume x: "hm_get (hm_insert (ob_id r') r' m) j = Some x"
  then obtain y where y: "hm_get m j = Some y" "ob_role x = ob_role y" "ob_invitation x = ob_invitation y" using old by blast
  show "ob_mirrors x" using x r(3) oob_map_invD(2) [OF inv y(1)] y(1) by (auto split: if_splits intro: oob_map_invD(2) [OF inv])
  show "ob_role x = OobSender \<Longrightarrow> iv_id (ob_invitation x) \<in> used" using y oob_map_invD(3) [OF inv y(1)] by simp
  fix k x' assume "hm_get (hm_insert (ob_id r') r' m) k = Some x'" and s: "ob_role x = OobSender" "ob_role x' = OobSender"
    "iv_id (ob_invitation x) = iv_id (ob_invitation x')"
  then obtain y' where "hm_get m k = Some y'" "ob_role x' = ob_role y'" "ob_invitation x' = ob_invitation y'" using old by blast
  then show "j = k" using oob_map_invD(4) [OF inv y(1)] y s by simp
qed

lemma oob_map_remove:
  assumes inv: "oob_map_inv used m"
  shows "oob_map_inv used (hm_remove i m)"
proof (rule oob_map_invI)
  show "map_inv ob_id (hm_remove i m)" by (rule map_inv_remove) (rule oob_map_inv_map [OF inv])
next
  have get: "hm_get m j = Some r" if "hm_get (hm_remove i m) j = Some r" for j r using that by (simp split: if_splits)
  fix j r assume "hm_get (hm_remove i m) j = Some r"
  note j = get [OF this]
  show "ob_mirrors r" by (rule oob_map_invD(2) [OF inv j])
  show "ob_role r = OobSender \<Longrightarrow> iv_id (ob_invitation r) \<in> used" by (rule oob_map_invD(3) [OF inv j])
  fix k r' assume "hm_get (hm_remove i m) k = Some r'" "ob_role r = OobSender" "ob_role r' = OobSender" "iv_id (ob_invitation r) = iv_id (ob_invitation r')"
  then show "j = k" using oob_map_invD(4) [OF inv j] get by blast
qed

lemma oob_found:
  assumes "oob_map_inv used m" "find (\<lambda>r. og_invitation_id (ob_tags r) = i \<and> ob_role r = role) (hm_values m) = Some r"
  shows "hm_get m (ob_id r) = Some r" "ob_role r = role" "iv_id (ob_invitation r) = i" "ob_mirrors r"
proof -
  have f: "hm_get m (ob_id r) = Some r \<and> og_invitation_id (ob_tags r) = i \<and> ob_role r = role"
    using map_inv_find(1) [OF oob_map_inv_map [OF assms(1)] assms(2)] .
  then show "hm_get m (ob_id r) = Some r" "ob_role r = role" by simp_all
  show "ob_mirrors r" by (rule oob_map_invD(2) [OF assms(1) conjunct1 [OF f]])
  then show "iv_id (ob_invitation r) = i" using f by (simp add: ob_mirrors_def)
qed

lemma oob_closed_insert:
  assumes "oob_closed i m" "ob_role r = OobSender \<Longrightarrow> iv_id (ob_invitation r) = i \<Longrightarrow> ob_state r = OobDone"
  shows "oob_closed i (hm_insert (ob_id r) r m)"
  unfolding oob_closed_def
proof (intro allI impI)
  fix j x assume x: "hm_get (hm_insert (ob_id r) r m) j = Some x \<and> ob_role x = OobSender \<and> iv_id (ob_invitation x) = i"
  then show "ob_state x = OobDone"
    using assms by (cases "j = ob_id r") (auto simp: oob_closed_def)
qed

lemma oob_closed_remove: "oob_closed i m \<Longrightarrow> oob_closed i (hm_remove j m)"
  unfolding oob_closed_def by (auto split: if_splits)

text \<open>The invariant over a change of the records, and over each kind of event.\<close>

lemma oob_inv_change:
  assumes "oob_inv used s" "used \<subseteq> used'" "oob_map_inv used' m"
    and "\<And>i. i \<in> used \<Longrightarrow> oob_closed i (os_records s) \<Longrightarrow> oob_closed i m"
  shows "oob_inv used' (s\<lparr>os_records := m\<rparr>)"
  using assms by (auto simp: oob_inv_def)

lemma oob_inv_mono: "oob_inv used s \<Longrightarrow> used \<subseteq> used' \<Longrightarrow> oob_inv used' s"
  using oob_map_mono [of used "os_records s" used'] unfolding oob_inv_def by blast

lemma oob_inv_emit:
  assumes "oob_inv used s" "\<And>i. single_reuse i e \<Longrightarrow> single_reuses i s = 0 \<and> i \<in> used \<and> oob_closed i (os_records s)"
  shows "oob_inv used (fst (os_emit e s))"
proof -
  have "single_reuses i (fst (os_emit e s)) \<le> 1 \<and>
      (single_reuses i (fst (os_emit e s)) > 0 \<longrightarrow> i \<in> used \<and> oob_closed i (os_records s))" for i
    using assms(1) assms(2) [of i] unfolding oob_inv_def os_emit_def prog_simps fst_conv single_reuses_emit
    by (cases "os_events s \<noteq> None \<and> single_reuse i e") auto
  then show ?thesis using assms(1) by (simp add: oob_inv_def os_emit_def)
qed

lemma os_emit_simps [simp]: "snd (os_emit e s) = Inr ()" "os_records (fst (os_emit e s)) = os_records s"
  by (simp_all add: os_emit_def)

lemma single_reuses_changed [simp]: "single_reuses i (fst (os_emit (OobStateChanged r p) s)) = single_reuses i s"
  by (simp add: os_emit_def single_reuses_emit)

lemma oob_inv_save:
  assumes "oob_inv used s" "used \<subseteq> used'" "ob_mirrors r"
    and "ob_role r = OobSender \<Longrightarrow> iv_id (ob_invitation r) \<notin> used \<and> iv_id (ob_invitation r) \<in> used'"
  shows "oob_inv used' (fst (seq (on_records (om_save r)) (\<lambda>_. seq (os_emit (OobStateChanged r None)) (\<lambda>_. ok r)) s))"
proof (cases "hm_contains (os_records s) (ob_id r)")
  case True
  then show ?thesis using oob_inv_mono [OF assms(1,2)] by (simp add: fst_seq on_records_simps om_save_def)
next
  case False
  have "oob_inv used' (s\<lparr>os_records := hm_insert (ob_id r) r (os_records s)\<rparr>)"
  proof (rule oob_inv_change [OF assms(1,2)])
    show "oob_map_inv used' (hm_insert (ob_id r) r (os_records s))"
      using assms(1) by (intro oob_map_insert_new [OF _ assms(3,4,2)]) (simp_all add: oob_inv_def)
    show "oob_closed i (hm_insert (ob_id r) r (os_records s))" if "i \<in> used" "oob_closed i (os_records s)" for i
      using that assms(4) by (intro oob_closed_insert) auto
  qed
  then have "oob_inv used' (fst (os_emit (OobStateChanged r None) (s\<lparr>os_records := hm_insert (ob_id r) r (os_records s)\<rparr>)))"
    by (rule oob_inv_emit) simp
  then show ?thesis using False by (simp add: fst_seq on_records_simps om_save_def)
qed

text \<open>A record advanced in place stays open or is closed.\<close>

lemma oob_inv_advance:
  assumes "oob_inv used s" "hm_get (os_records s) (ob_id r) = Some r" "ob_id r' = ob_id r" "ob_mirrors r'"
    "ob_role r' = ob_role r" "ob_invitation r' = ob_invitation r" "ob_state r' = ob_state r \<or> ob_state r' = OobDone"
  shows "oob_inv used (s\<lparr>os_records := hm_insert (ob_id r') r' (os_records s)\<rparr>)"
proof (rule oob_inv_change [OF assms(1) subset_refl])
  show "oob_map_inv used (hm_insert (ob_id r') r' (os_records s))"
    using assms(1) by (intro oob_map_insert_same [OF _ assms(2-6)]) (simp add: oob_inv_def)
  fix i assume "oob_closed i (os_records s)"
  then show "oob_closed i (hm_insert (ob_id r') r' (os_records s))"
    using assms(2,5-7) by (intro oob_closed_insert) (auto simp: oob_closed_def)
qed

lemma oob_inv_reuse:
  assumes inv: "oob_inv used s"
  shows "oob_inv used (fst (os_process_handshake_reuse uuid now msg c s))"
proof (cases "ot_parent_thread_id (hr_thread msg)")
  case None
  then show ?thesis using inv by (simp add: os_process_handshake_reuse_def reuse_check_def seq_def)
next
  case (Some parent)
  define found where "found = find (\<lambda>r. og_invitation_id (ob_tags r) = parent \<and> ob_role r = OobSender) (hm_values (os_records s))"
  note lookup = Some found_def [symmetric] os_process_handshake_reuse_def reuse_check_def reuse_write_def seq_assoc fst_seq on_records_simps om_find_by_invitation_id_def
  show ?thesis
  proof (cases found)
    case None
    then show ?thesis using inv by (simp add: lookup)
  next
    case (Some r)
    have minv: "oob_map_inv used (os_records s)" using inv by (simp add: oob_inv_def)
    note r = oob_found [OF minv Some [unfolded found_def]]
    define r2 where "r2 = (if ob_reusable r then r\<lparr>ob_reuse_connection_id := Some c\<rparr>
      else ob_update_state now OobDone (r\<lparr>ob_reuse_connection_id := Some c\<rparr>))"
    have id2: "ob_id r2 = ob_id r" "ob_role r2 = ob_role r" "ob_invitation r2 = ob_invitation r" "ob_reusable r2 = ob_reusable r"
      "ob_mirrors r2" "ob_state r2 = ob_state r \<or> ob_state r2 = OobDone" "\<not> ob_reusable r \<Longrightarrow> ob_state r2 = OobDone"
      using r(4) by (simp_all add: r2_def ob_update_state_def ob_mirrors_def)
    show ?thesis
    proof (cases "(ob_reusable r \<or> ob_reuse_connection_id r = None) \<and> ob_state r = OobAwaitResponse")
      case False
      then show ?thesis
        using inv Some by (auto simp: lookup guard_def ob_assert_state_def)
    next
      case True
      let ?s1 = "s\<lparr>os_records := hm_insert (ob_id r2) r2 (os_records s)\<rparr>"
      have s1: "oob_inv used ?s1" by (rule oob_inv_advance [OF inv r(1) id2(1,5,2,3,6)])
      have open': "\<not> oob_closed parent (os_records s)" using r True by (auto simp: oob_closed_def intro!: exI [of _ "ob_id r"] exI [of _ r])
      then have zero: "single_reuses parent s = 0" using inv by (auto simp: oob_inv_def)
      have used: "parent \<in> used" using oob_map_invD(3) [OF minv r(1,2)] r(3) by simp
      have closed: "oob_closed parent (os_records ?s1)" if "\<not> ob_reusable r"
        unfolding oob_closed_def
      proof (intro allI impI)
        fix j x assume x: "hm_get (os_records ?s1) j = Some x \<and> ob_role x = OobSender \<and> iv_id (ob_invitation x) = parent"
        show "ob_state x = OobDone"
        proof (cases "j = ob_id r2")
          case True
          then show ?thesis using x id2(7) that by simp
        next
          case False
          then show ?thesis using x oob_map_invD(4) [OF minv _ r(1) _ r(2)] r(3) id2(1) by auto
        qed
      qed
      let ?s2 = "if ob_reusable r then ?s1 else fst (os_emit (OobStateChanged r2 (Some (ob_state r))) ?s1)"
      have s2: "oob_inv used ?s2" using s1 oob_inv_emit [OF s1, of "OobStateChanged r2 (Some (ob_state r))"] by simp
      have "oob_inv used (fst (os_emit (OobHandshakeReused (ot_thread_id (hr_thread msg)) r2 c) ?s2))"
        by (rule oob_inv_emit [OF s2]) (use zero used closed r(3) id2(3,4) in auto)
      moreover have "fst (os_process_handshake_reuse uuid now msg c s) = fst (os_emit (OobHandshakeReused (ot_thread_id (hr_thread msg)) r2 c) ?s2)"
        using True Some r(1) id2(1) by (simp add: lookup guard_def ob_assert_state_def om_update_def r2_def [symmetric] Let_def) (simp add: r2_def)
      ultimately show ?thesis by simp
    qed
  qed
qed

lemma oob_inv_mark_done:
  assumes inv: "oob_inv used s"
  shows "oob_inv used (fst (os_mark_done now i role s))"
proof (cases "find (\<lambda>r. og_invitation_id (ob_tags r) = i \<and> ob_role r = role) (hm_values (os_records s))")
  case None
  then show ?thesis using inv by (simp add: os_mark_done_def fst_seq on_records_simps om_find_by_invitation_id_def)
next
  case (Some r)
  have minv: "oob_map_inv used (os_records s)" using inv by (simp add: oob_inv_def)
  note r = oob_found [OF minv Some]
  let ?r' = "ob_update_state now OobDone r"
  have "oob_inv used (s\<lparr>os_records := hm_insert (ob_id ?r') ?r' (os_records s)\<rparr>)"
    by (rule oob_inv_advance [OF inv r(1)]) (simp_all add: ob_update_state_def update_state_mirrors [OF r(4), unfolded ob_update_state_def])
  then have "oob_inv used (fst (os_emit (OobStateChanged ?r' (Some (ob_state r))) (s\<lparr>os_records := hm_insert (ob_id ?r') ?r' (os_records s)\<rparr>)))"
    by (rule oob_inv_emit) simp
  then show ?thesis
    using Some r(1) by (simp add: os_mark_done_def fst_seq on_records_simps om_find_by_invitation_id_def om_update_def ob_update_state_def)
qed

lemma oob_inv_apply:
  assumes "oob_inv used s" "uuid 0 \<notin> used"
  shows "oob_inv (used \<union> {uuid 0, uuid 1}) (oob_apply uuid now oop s)"
proof -
  have sub: "used \<subseteq> used \<union> {uuid 0, uuid 1}" by blast
  note mono = oob_inv_mono [OF _ sub]
  show ?thesis
  proof (cases oop)
    case (OpCreate services label code goal ps multi)
    show ?thesis
    proof (cases ps)
      case None
      then show ?thesis using mono [OF assms(1)] OpCreate by (simp add: os_create_invitation_def)
    next
      case (Some ps')
      let ?r = "ob_with_reusable multi (ob_with_state OobAwaitResponse (oob_record_new (uuid 1) now (new_invitation (uuid 0) services label code goal ps') OobSender))"
      have "ob_mirrors ?r" using new_record_mirrors by (simp add: ob_with_reusable_def ob_mirrors_def)
      moreover have "iv_id (ob_invitation ?r) = uuid 0"
        by (simp add: ob_with_reusable_def ob_with_state_def oob_record_new_def new_invitation_def invitation_new_def iv_with_label_def
            iv_with_goal_def iv_with_handshake_protocols_def Let_def split: option.splits)
      ultimately show ?thesis
        using oob_inv_save [OF assms(1) sub, of ?r] assms(2) OpCreate Some by (simp add: os_create_invitation_def Let_def)
    qed
  next
    case (OpReceive i auto)
    let ?r0 = "ob_with_state OobPrepareResponse (oob_record_new (uuid 0) now i OobReceiver)"
    let ?r = "case auto of None \<Rightarrow> ?r0 | Some b \<Rightarrow> ob_with_auto_accept_connection b ?r0"
    have "ob_mirrors ?r" using new_record_mirrors
      by (simp add: ob_with_auto_accept_connection_def ob_mirrors_def split: option.splits)
    moreover have "ob_role ?r = OobReceiver"
      by (simp add: ob_with_auto_accept_connection_def ob_with_state_def oob_record_new_def split: option.splits)
    ultimately have "oob_inv (used \<union> {uuid 0, uuid 1}) (fst (seq (on_records (om_save ?r)) (\<lambda>_. seq (os_emit (OobStateChanged ?r None)) (\<lambda>_. ok ?r)) s))"
      by (intro oob_inv_save [OF assms(1) sub]) simp_all
    then show ?thesis
      using mono [OF assms(1)] OpReceive
      by (simp add: os_receive_invitation_def om_find_by_invitation_id_def seq_on_read Let_def split: option.split)
  next
    case (OpCreateReuse i)
    have "fst (os_create_handshake_reuse uuid i s) = s"
      by (simp add: os_create_handshake_reuse_def fst_seq on_records_simps om_find_by_invitation_id_def split: sum.split)
    then show ?thesis using mono [OF assms(1)] OpCreateReuse by simp
  next
    case (OpReuse msg c)
    then show ?thesis using mono [OF oob_inv_reuse [OF assms(1)]] by simp
  next
    case (OpMarkDone i role)
    then show ?thesis using mono [OF oob_inv_mark_done [OF assms(1)]] by simp
  next
    case (OpDelete i)
    have "oob_inv used (s\<lparr>os_records := hm_remove i (os_records s)\<rparr>)"
      using assms(1) by (intro oob_inv_change [OF assms(1)] oob_map_remove oob_closed_remove) (simp_all add: oob_inv_def)
    then show ?thesis
      using mono [OF assms(1)] mono OpDelete by (simp add: os_delete_def on_records_simps om_delete_def)
  qed
qed

lemma oob_run_inv: "oob_run used s \<Longrightarrow> oob_inv used s"
proof (induction rule: oob_run.induct)
  case start
  show ?case by (simp add: oob_inv_def oob_map_inv_def single_reuses_def)
next
  case (step used s uuid now oop)
  then show ?case by (intro oob_inv_apply)
qed

section \<open>Guarantees\<close>

text \<open>
  C40. A single-use invitation is reused at most once when the calls of the out-of-band service do
  not overlap: in every run of such calls, for every invitation id, at most one accepted handshake
  reuse is reported for a record that is not reusable. After it every record the service still keeps
  for the invitation in the sender's role is done, so a further reuse is refused.
\<close>

theorem single_use_reused_once:
  assumes "oob_run used s"
  shows "single_reuses i s \<le> 1 \<and>
    (single_reuses i s = 1 \<longrightarrow> (\<forall>r \<in> set (hm_values (os_records s)). ob_role r = OobSender \<and> iv_id (ob_invitation r) = i \<longrightarrow> ob_state r = OobDone))"
proof -
  have inv: "oob_inv used s" using oob_run_inv [OF assms] .
  have "oob_map_inv used (os_records s)" using inv by (simp add: oob_inv_def)
  then have m: "map_inv ob_id (os_records s)" by (rule oob_map_inv_map)
  have get: "hm_get (os_records s) (ob_id r) = Some r" if "r \<in> set (hm_values (os_records s))" for r
    using map_inv_values [OF m, of r] that by simp
  have "oob_closed i (os_records s)" if "single_reuses i s = 1" using inv that by (simp add: oob_inv_def)
  then have "ob_state r = OobDone"
    if "single_reuses i s = 1" "r \<in> set (hm_values (os_records s))" "ob_role r = OobSender" "iv_id (ob_invitation r) = i" for r
    using that get [OF that(2)] unfolding oob_closed_def by blast
  moreover have "single_reuses i s \<le> 1" using inv by (simp add: oob_inv_def)
  ultimately show ?thesis by blast
qed

definition demo_uuid :: "nat \<Rightarrow> string" where "demo_uuid n = (if n = 0 then ''i'' else ''r'')"
definition demo_uuid' :: "nat \<Rightarrow> string" where "demo_uuid' n = (if n = 0 then ''x'' else ''y'')"

definition demo_reuse_run :: oob_service_state where
  "demo_reuse_run = oob_apply demo_uuid' 5 (OpReuse (handshake_reuse_new ''m'' ''t'' ''i'') ''c'')
     (oob_apply demo_uuid 4 (OpCreate [] None None None (Some [''didexchange/1.x'']) False) \<lparr>os_records = [], os_events = Some []\<rparr>)"

theorem single_use_reused_once_witness: "single_reuses ''i'' demo_reuse_run \<le> 1 \<and> single_reuses ''i'' demo_reuse_run = 1"
proof -
  have "oob_run ({} \<union> {demo_uuid 0, demo_uuid 1})
      (oob_apply demo_uuid 4 (OpCreate [] None None None (Some [''didexchange/1.x'']) False) \<lparr>os_records = [], os_events = Some []\<rparr>)"
    by (rule oob_run.step [OF oob_run.start]) simp_all
  then have "oob_run ({} \<union> {demo_uuid 0, demo_uuid 1} \<union> {demo_uuid' 0, demo_uuid' 1}) demo_reuse_run"
    unfolding demo_reuse_run_def by (rule oob_run.step) (simp_all add: demo_uuid_def demo_uuid'_def)
  from single_use_reused_once [OF this, of "''i''"] have "single_reuses ''i'' demo_reuse_run \<le> 1" by simp
  moreover have "single_reuses ''i'' demo_reuse_run = 1" by code_simp
  ultimately show ?thesis by simp
qed

text \<open>
  Calls that overlap break this: two reuses that both look the record up before either writes it
  back are both accepted.
\<close>

lemma concurrent_reuses_both_accepted:
  "(let s = oob_apply demo_uuid 4 (OpCreate [] None None None (Some [''didexchange/1.x'']) False) \<lparr>os_records = [], os_events = Some []\<rparr>;
        first = handshake_reuse_new ''m1'' ''t1'' ''i''; second = handshake_reuse_new ''m2'' ''t2'' ''i'';
        overlapped = seq (reuse_check first) (\<lambda>x. seq (reuse_check second) (\<lambda>y.
          seq (reuse_write ''a1'' 5 first ''c1'' x) (\<lambda>_. seq (reuse_write ''a2'' 6 second ''c2'' y) (\<lambda>_. ok ()))))
    in snd (overlapped s) = Inr () \<and> single_reuses ''i'' (fst (overlapped s)) = 2)"
  by code_simp

text \<open>An empty list of handshake protocols passes the check that an invitation has a handshake or requests.\<close>

lemma empty_handshake_accepted:
  assumes "hm_get (os_records s) (uuid 1) = None"
  shows "\<exists>s' r. os_create_invitation uuid now services label code goal (Some []) multi s = (s', Inr r) \<and>
    \<not> has_handshake (ob_invitation r) \<and> \<not> has_requests (ob_invitation r)"
  using assms
  by (simp add: os_create_invitation_def Let_def seq_def on_records_def om_save_def ob_with_reusable_def ob_with_state_def oob_record_new_def
      has_handshake_def has_requests_def new_invitation_def iv_with_handshake_protocols_def iv_with_label_def iv_with_goal_def
      invitation_new_def os_emit_def split: option.splits)

end
