(* ===== verification/Spec2Isabelle.thy ===== *)
theory Spec2Isabelle
  imports Ajna_Disclosure Ajna_Sync Ajna_Resolver Ajna_Did Dcx_Transport Pickup_Storage Signing_Guarantees Workflow_Guarantees Mediation_Guarantees Oob_Exchange
begin

text \<open>
  \<^bold>\<open>A verification library for idiom.\<close>

  idiom is a decentralised-identity agent written in Rust: DID methods, the DIDComm messaging
  stack, credential formats, and the protocols an agent, a wallet and a mediator speak. This
  library models the parts that carry the agent's own state and logic, as functions on explicit
  states, and proves what makes them correct. Paths below are relative to \<open>src/src/\<close>.

  \<^bold>\<open>Parts and theories.\<close>

  \<^item> Shared: \<open>Idiom_Prelude\<close> (hash maps as association lists with distinct keys, byte strings,
    results and panics), \<open>Byte_Codec\<close> (big-endian integers, UTF-8, the locale \<open>wire_codec\<close>),
    \<open>Didcomm_Message\<close> (\<open>didcomm/src/core/models/message.rs\<close>), \<open>Storage_Provider\<close>
    (\<open>core/agent_core/src/traits/storage.rs\<close>, \<open>storage/src/memory.rs\<close>; locale \<open>storage_provider\<close>).
  \<^item> The conflict-free DID method \<open>did:ajna\<close> (\<open>did/src/ajna/\<close>): \<open>Crdt_Merge\<close> is the interface of a
    mergeable replica (locale \<open>crdt\<close>); \<open>Vector_Clock\<close>, \<open>Lww_Map\<close>, \<open>Or_Set\<close> and \<open>Ajna_Document\<close>
    interpret it for \<open>vector_clock.rs\<close>, \<open>lww_map.rs\<close>, \<open>or_set.rs\<close> and \<open>document.rs\<close>.
    \<open>Ajna_Crypto\<close> has the hashing of \<open>crypto.rs\<close>; \<open>Ajna_Operations\<close> the operations of
    \<open>operations.rs\<close> and \<open>operation_v2.rs\<close>; \<open>Ajna_Authorization\<close>, \<open>Merkle_Dag\<close>, \<open>Ajna_Anchoring\<close>
    and \<open>Ajna_Method\<close> the files of the same names, the last one composing all of them. \<open>Did_Core\<close> is
    the W3C document (\<open>did/src/core/document.rs\<close>) with the conversions, \<open>Ajna_Disclosure\<close> the Merkle
    proofs of single fields (\<open>selective_disclosure.rs\<close>), \<open>Ajna_Sync\<close> the exchange of operations
    (\<open>bloom_filter.rs\<close>, \<open>op_bundle.rs\<close>, \<open>didcomm_sync.rs\<close>), \<open>Ajna_Resolver\<close> the resolution service.
  \<^item> Identifiers (\<open>crypto/src/sid/\<close>): \<open>Sid_Codec\<close> (digits as syllables, checksum, header),
    \<open>Sid_Wordlist\<close> and \<open>Sid_English\<close> (the mnemonic of twelve words, down to its shifts and masks),
    \<open>Ajna_Did\<close> (\<open>mod.rs\<close> and the DID syntax of \<open>did/src/ajna/did_syntax.rs\<close>).
  \<^item> The DCX transport (\<open>didcomm/src/dcx/\<close>), an encrypted frame protocol between agents:
    \<open>Dcx_Frame\<close> (wire format, authenticated encryption, padding), \<open>Dcx_Channel\<close> (keys, counters,
    replay protection, the manager's indices), \<open>Dcx_Provider\<close> (session keys; locale
    \<open>session_provider\<close>), \<open>Dcx_Transport\<close> (sending, receiving, restarts, concurrent senders).
  \<^item> Message pickup (\<open>protocols/pickup/src/\<close>): \<open>Pickup_Queue\<close> (the in-memory repository and the
    abstract queue it refines), \<open>Pickup_Mediator\<close> (service and handlers over any repository, locale
    \<open>message_repository\<close>; the recipient's side), \<open>Pickup_Storage\<close> (the durable repository over any
    storage provider, with crashes).
  \<^item> \<open>Fallible\<close> has the programs over a state that may fail, and triples about them; the
    protocols below are written with it.
  \<^item> Threshold signing (\<open>protocols/signing/src/\<close>): \<open>Signing_Counter\<close> (\<open>counter.rs\<close>),
    \<open>Signing_Session\<close> (\<open>state.rs\<close>, \<open>coordinator.rs\<close> over any storage provider), \<open>Signing_Sealing\<close>
    (\<open>hpke.rs\<close>), \<open>Signing_Handler\<close> (\<open>messages/\<close>, \<open>handler.rs\<close>), \<open>Signing_Protocol\<close> and
    \<open>Signing_Guarantees\<close> (runs of messages, restarts and failing writes, and what holds in them).
  \<^item> Workflows (\<open>protocols/workflow/src/\<close>, \<open>agent/src/modules/workflow.rs\<close>): \<open>Workflow_Engine\<close>
    (templates, guards, actions), \<open>Workflow_Service\<close> (the service over its repositories),
    \<open>Workflow_Queue\<close> (the command queue and its worker), \<open>Workflow_Agent\<close> (handlers, the worker's
    job handler, the agent's module), \<open>Workflow_Guarantees\<close>.
  \<^item> Mediation (\<open>protocols/coordinate_mediation/src/\<close>): \<open>Mediation_Repository\<close> (records, the two
    repository traits as locales \<open>mediation_repository\<close> and \<open>keylist_repository\<close>, the in-memory
    repositories), \<open>Mediation_Storage\<close> (the repositories over any storage provider),
    \<open>Mediation_Service\<close> (both services and their handlers), \<open>Mediation_Routes\<close> (which connection a
    key leads to, and how each message changes it; locale \<open>mediator\<close>), \<open>Forward_Service\<close> (live
    sessions, forwarding into the pickup queue, the replay over a new session; locale \<open>forwarder\<close>),
    \<open>Mediation_Guarantees\<close>.
  \<^item> Out-of-band invitations (\<open>protocols/oob/src/\<close>): \<open>Oob_Exchange\<close> has the messages, the records with
    their search tags, the repository, the service and runs of it; a single-use invitation is reused
    at most once by calls that do not overlap. \<open>Record_Map\<close> has the facts on maps of records under their ids that repositories share.

  \<^bold>\<open>How code becomes model.\<close> A struct is a record, an enum a datatype, a method a function of the
  same name with a prefix for its type (\<open>vc_\<close>, \<open>lww_\<close>, \<open>ors_\<close>, \<open>doc_\<close>, \<open>dag_\<close>, \<open>ch_\<close>, \<open>cm_\<close>,
  \<open>cp_\<close>, \<open>dx_\<close>, \<open>mq_\<close>, \<open>sq_\<close>, \<open>pm_\<close>). \<open>&mut self\<close> is state passing; a \<open>Result\<close> is a sum with the
  error on the left; an operation whose writes persist when it fails returns state and result.
  A panic is a value of \<open>fault\<close>. Fixed-width integers are words where their width shows. Shared
  cells (\<open>Arc<Mutex<..>>\<close>) are addresses of an explicit heap in \<open>Dcx_Channel\<close>. Concurrency is
  modelled where the code suspends between a read and a dependent write: \<open>send_step\<close>,
  \<open>sq_load_messages\<close>, \<open>v2_prepare\<close>, \<open>v2_write_registry\<close> and \<open>v2_write_history\<close>, \<open>reuse_check\<close> and
  \<open>reuse_write\<close>, and the events of \<open>cq_step\<close> are the pieces between two awaits or under one lock.
  The other runs are of calls that do not overlap, and say so. The clock, UUIDs, hash functions, ciphers,
  JSON serialisation and base64 are arguments, with what is used of them as named hypotheses
  (\<open>aead_correct\<close>, \<open>aead_tight\<close>, \<open>qm_codec_ok\<close>, ...), each with a concrete instance in a witness.

  \<^bold>\<open>What is shown.\<close> Convergence of every replicated type under any order and repetition of merges,
  and of the whole document, where a key, time and node determine a last-write-wins entry and a block
  number the anchor; causality decided by vector clocks; an operation's id binds its contents and an
  anchor the whole Merkle history, whose linearisation respects the parents; signed operations change
  the registry only as authorized, however they interleave; disclosed fields
  verify, and what verifies is a field of the document; a resolved document was verified within the
  hour. Hash functions are parameters, and binding is stated under the absence of a collision among
  the inputs that are named. Identifiers have one spelling in syllables and one in words, and generated DIDs are read
  back as they were made. For DCX:
  frames survive the wire and only authentic frames have an effect; across restarts no nonce of a
  channel is used twice and no frame is dispatched twice; payloads are delivered in order. For
  pickup: repeated rounds deliver every waiting message once and in order; an accepted message
  survives crashes and storage failures until it is acknowledged. For signing: a session is combined
  only with a quorum of authenticated signers, moves only along its state machine, which ends, and
  counters strictly increase while reads succeed. For workflows: instances follow their templates as
  long as no version is published twice with different contents, a peer's advance is accepted exactly
  for a running instance and an event its status answer lists or a key used before, a keyed advance is applied once, commands run one task at a
  time and end within their attempts. For mediation: no sequence of messages from other connections
  changes where a registered key leads, a forwarded message reaches the queue of the connection that
  registered its key and no other, the replay over a new session ends, and the storage-backed
  repositories keep the contract of the in-memory ones. Where the code does less than it
  means to, the theorem states what it does: concurrent first sends and a changed connection id
  reuse a nonce, an acknowledgement deletes foreign messages, a first access can panic, equal
  timestamps or block numbers keep replicas apart, a write between two locks undoes a deactivation,
  overlapping reuses of a single-use invitation are both accepted.

  \<^bold>\<open>Bounds and fuel.\<close> The depth-first search of the Merkle history is bounded by the number of nodes,
  which \<open>Merkle_Dag\<close> proves to be enough; \<open>pickup_rounds\<close> counts rounds, and as many rounds as
  messages are proved to suffice; \<open>flush_loop\<close> has fuel, and one round for each batch of fifty
  waiting messages and one more are proved to be enough. Nothing else needs a bound.

  \<^bold>\<open>Not modelled.\<close> Network and database I/O, the HTTP and WebSocket servers of the mediator, the
  wallet backends, cryptographic primitives, credential formats and the remaining protocols; the
  manifest lists each with the reason. They use the parts above or are glue around crates.
\<close>

end
